(* ===== verification/Prelude.thy ===== *)
theory Prelude
  imports Main "HOL-Library.Word" "HOL-Library.Sublist"
begin

section \<open>Prelude: errors, loops and Go's string functions\<close>

text \<open>
  Shared vocabulary of the development. A Go function that returns only an \<open>error\<close> is modelled
  by a value of type \<open>'e option\<close> (\<open>None\<close> is \<open>nil\<close>), a function that returns a value and an
  \<open>error\<close> by \<open>'e + 'a\<close> (\<open>Inl\<close> is the error). A Go \<open>string\<close> is a byte string, so it is a HOL
  \<open>string\<close> (a list of 8-bit characters) and \<open>len\<close> is \<open>length\<close>. The functions of package
  \<open>strings\<close> that the sources call are defined on bytes. \<open>strings.ToLower\<close> is modelled on ASCII
  letters only; \<open>Zone_Validation\<close> shows that every name the validators accept is ASCII, where
  the two agree. White space is Unicode white space in its UTF-8 encoding.
\<close>

named_theorems go_simps "characterisations of the Go library functions"
named_theorems err_simps "when a chain of checks returns nil"

subsection \<open>Machine integers and time\<close>

type_synonym uint8 = "8 word"
type_synonym uint16 = "16 word"
type_synonym uint32 = "32 word"
type_synonym go_time = int \<comment> \<open>nanoseconds since the epoch\<close>

subsection \<open>Errors as values\<close>

text \<open>\<open>if err := c; err != nil { return err }; k\<close>\<close>

definition andthen :: "'e option \<Rightarrow> 'e option \<Rightarrow> 'e option" where
  "andthen c k = (case c of None \<Rightarrow> k | Some e \<Rightarrow> Some e)"

text \<open>\<open>if b { return err }; k\<close>\<close>

definition fail_if :: "bool \<Rightarrow> 'e \<Rightarrow> 'e option \<Rightarrow> 'e option" where
  "fail_if b e k = (if b then Some e else k)"

text \<open>\<open>x, err := r; if err != nil { return err }; f(x)\<close>\<close>

definition bindE :: "'e + 'a \<Rightarrow> ('a \<Rightarrow> 'e + 'b) \<Rightarrow> 'e + 'b" where
  "bindE r f = (case r of Inl e \<Rightarrow> Inl e | Inr x \<Rightarrow> f x)"

text \<open>Turning an error-only result into one with a value.\<close>

definition okE :: "'e option \<Rightarrow> 'a \<Rightarrow> 'e + 'a" where
  "okE c x = (case c of None \<Rightarrow> Inr x | Some e \<Rightarrow> Inl e)"

text \<open>The error of a value-and-error result.\<close>

definition errOf :: "'e + 'a \<Rightarrow> 'e option" where
  "errOf r = (case r of Inl e \<Rightarrow> Some e | Inr _ \<Rightarrow> None)"

lemma andthen_None [simp, err_simps]: "andthen c k = None \<longleftrightarrow> c = None \<and> k = None"
  by (cases c) (auto simp: andthen_def)

lemma andthen_simps [simp]: "andthen None k = k" "andthen (Some e) k = Some e"
  by (simp_all add: andthen_def)

lemma fail_if_None [simp, err_simps]: "fail_if b e k = None \<longleftrightarrow> \<not> b \<and> k = None"
  by (simp add: fail_if_def)

lemma fail_if_simps [simp]: "fail_if True e k = Some e" "fail_if False e k = k"
  by (simp_all add: fail_if_def)

lemma bindE_Inr [simp, err_simps]: "bindE r f = Inr y \<longleftrightarrow> (\<exists>x. r = Inr x \<and> f x = Inr y)"
  by (cases r) (auto simp: bindE_def)

lemma bindE_simps [simp]: "bindE (Inl e) f = Inl e" "bindE (Inr x) f = f x"
  by (simp_all add: bindE_def)

lemma okE_Inr [simp, err_simps]: "okE c x = Inr y \<longleftrightarrow> c = None \<and> y = x"
  by (cases c) (auto simp: okE_def)

lemma okE_simps [simp]: "okE None x = Inr x" "okE (Some e) x = Inl e"
  by (simp_all add: okE_def)

lemma errOf_simps [simp]: "errOf (Inl e) = Some e" "errOf (Inr x) = None"
  by (simp_all add: errOf_def)

lemma errOf_None [err_simps]: "errOf r = None \<longleftrightarrow> (\<exists>x. r = Inr x)"
  by (cases r) auto

text \<open>\<open>for i, x := range xs { if err := f(i, x); err != nil { return err } }\<close>\<close>

fun check_range :: "(nat \<Rightarrow> 'a \<Rightarrow> 'e option) \<Rightarrow> nat \<Rightarrow> 'a list \<Rightarrow> 'e option" where
  "check_range f i [] = None"
| "check_range f i (x # xs) = andthen (f i x) (check_range f (Suc i) xs)"

lemma check_range_None:
  "check_range f i xs = None \<longleftrightarrow> (\<forall>j < length xs. f (i + j) (xs ! j) = None)"
proof (induction xs arbitrary: i)
  case Nil
  then show ?case by simp
next
  case (Cons x xs)
  show ?case
    by (auto simp: Cons.IH nth_Cons' less_Suc_eq_0_disj)
qed

lemma check_range_None_set:
  assumes "\<And>i x. f i x = None \<longleftrightarrow> P x"
  shows "check_range f i xs = None \<longleftrightarrow> (\<forall>x \<in> set xs. P x)"
  by (induction xs arbitrary: i) (simp_all add: assms)

text \<open>The error a loop returns is the one of the first element that has an error.\<close>

lemma check_range_Some:
  "check_range f i xs = Some e \<longleftrightarrow>
     (\<exists>j < length xs. f (i + j) (xs ! j) = Some e \<and> (\<forall>k < j. f (i + k) (xs ! k) = None))"
proof (induction xs arbitrary: i)
  case Nil
  then show ?case by simp
next
  case (Cons x xs)
  show ?case
  proof (cases "f i x")
    case None
    have "check_range f i (x # xs) = Some e \<longleftrightarrow>
        (\<exists>j < length xs. f (Suc i + j) (xs ! j) = Some e \<and> (\<forall>k < j. f (Suc i + k) (xs ! k) = None))"
      by (simp add: None Cons.IH)
    also have "\<dots> \<longleftrightarrow> (\<exists>j < length (x # xs). f (i + j) ((x # xs) ! j) = Some e \<and>
        (\<forall>k < j. f (i + k) ((x # xs) ! k) = None))" (is "?l \<longleftrightarrow> ?r")
    proof
      assume ?l
      then obtain j where "j < length xs" "f (Suc i + j) (xs ! j) = Some e"
        "\<forall>k < j. f (Suc i + k) (xs ! k) = None" by blast
      then show ?r using None
        by (intro exI [of _ "Suc j"]) (auto simp: less_Suc_eq_0_disj)
    next
      assume ?r
      then obtain j where j: "j < length (x # xs)" "f (i + j) ((x # xs) ! j) = Some e"
        "\<forall>k < j. f (i + k) ((x # xs) ! k) = None" by blast
      with None obtain j' where "j = Suc j'" by (cases j) auto
      with j show ?l by (intro exI [of _ j']) force
    qed
    finally show ?thesis .
  next
    case (Some e')
    then show ?thesis by (auto intro: exI [of _ 0]) (metis bot_nat_0.not_eq_extremum
          add_0_right nth_Cons_0 option.distinct(1) option.inject)
  qed
qed

end
