(* ===== verification/Go_Strings.thy ===== *)
theory Go_Strings
  imports Prelude
begin

section \<open>Go's strings, strconv and unicode/utf8 on byte strings\<close>

text \<open>
  The functions of \<open>strings\<close>, \<open>strconv\<close> and \<open>unicode/utf8\<close> that the sources call, on byte
  strings, with the facts the components use about them: prefix and suffix tests, splitting and
  joining at a separator, trimming, decimal numbers, and UTF-8 decoding.
\<close>

subsection \<open>Bytes\<close>

definition byte :: "char \<Rightarrow> nat" where
  "byte c = of_char c"

lemma byte_less [simp]: "byte c < 256"
  by (simp add: byte_def)

lemma byte_inject: "byte c = byte d \<longleftrightarrow> c = d"
  by (simp add: byte_def)

lemma byte_char_of [simp]: "n < 256 \<Longrightarrow> byte (char_of n) = n"
  by (simp add: byte_def)

definition is_digit :: "char \<Rightarrow> bool" where
  "is_digit c \<longleftrightarrow> 48 \<le> byte c \<and> byte c \<le> 57"

definition is_upper :: "char \<Rightarrow> bool" where
  "is_upper c \<longleftrightarrow> 65 \<le> byte c \<and> byte c \<le> 90"

definition is_lower :: "char \<Rightarrow> bool" where
  "is_lower c \<longleftrightarrow> 97 \<le> byte c \<and> byte c \<le> 122"

definition is_alnum :: "char \<Rightarrow> bool" where
  "is_alnum c \<longleftrightarrow> is_digit c \<or> is_upper c \<or> is_lower c"

definition is_ascii :: "string \<Rightarrow> bool" where
  "is_ascii s \<longleftrightarrow> (\<forall>c \<in> set s. byte c < 128)"

lemma is_ascii_simps [simp]:
  "is_ascii []" "is_ascii (c # s) \<longleftrightarrow> byte c < 128 \<and> is_ascii s"
  "is_ascii (s @ t) \<longleftrightarrow> is_ascii s \<and> is_ascii t"
  by (auto simp: is_ascii_def)

lemmas char_class_defs = is_alnum_def is_digit_def is_upper_def is_lower_def byte_def

lemma is_alnum_ascii: "is_alnum c \<Longrightarrow> byte c < 128"
  by (auto simp: char_class_defs)

subsection \<open>strings.ToLower\<close>

text \<open>
  Exact on ASCII strings. Bytes above 127 stay as they are, while Go also maps the upper-case letters
  of other scripts; the names that validation accepts are ASCII (\<open>domain_ok_ascii\<close>).
\<close>

definition lower_char :: "char \<Rightarrow> char" where
  "lower_char c = (if is_upper c then char_of (byte c + 32) else c)"

definition ToLower :: "string \<Rightarrow> string" where
  "ToLower s = map lower_char s"

lemma byte_lower_char: "byte (lower_char c) = (if is_upper c then byte c + 32 else byte c)"
  by (auto simp: lower_char_def is_upper_def)

lemma is_upper_lower_char [simp]: "\<not> is_upper (lower_char c)"
  by (auto simp: is_upper_def byte_lower_char)

lemma lower_char_idem [simp]: "lower_char (lower_char c) = lower_char c"
  by (subst lower_char_def) simp

lemma lower_char_fixed: "\<not> is_upper d \<Longrightarrow> \<not> is_lower d \<Longrightarrow> lower_char c = d \<longleftrightarrow> c = d"
  by (auto simp: byte_inject [symmetric] byte_lower_char is_upper_def is_lower_def split: if_splits)

lemma lower_char_dot [simp]: "lower_char c = CHR ''.'' \<longleftrightarrow> c = CHR ''.''"
  by (simp add: lower_char_fixed is_upper_def is_lower_def byte_def)

lemma dot_lower_char [simp]: "CHR ''.'' = lower_char c \<longleftrightarrow> c = CHR ''.''"
  using lower_char_dot by metis

lemma lower_char_dot_id [simp]: "lower_char CHR ''.'' = CHR ''.''"
  by simp

lemma ToLower_simps [simp]:
  "ToLower [] = []" "ToLower (c # s) = lower_char c # ToLower s"
  "ToLower (s @ t) = ToLower s @ ToLower t" "length (ToLower s) = length s"
  "ToLower s = [] \<longleftrightarrow> s = []"
  by (simp_all add: ToLower_def)

lemma ToLower_idem [simp]: "ToLower (ToLower s) = ToLower s"
  by (simp add: ToLower_def)

lemma ToLower_take [simp]: "ToLower (take n s) = take n (ToLower s)"
  and ToLower_drop [simp]: "ToLower (drop n s) = drop n (ToLower s)"
  by (simp_all add: ToLower_def take_map drop_map)

lemma is_ascii_ToLower [simp]: "is_ascii (ToLower s) = is_ascii s"
  by (auto simp: is_ascii_def ToLower_def byte_lower_char is_upper_def)

subsection \<open>Prefixes and suffixes\<close>

definition HasPrefix :: "string \<Rightarrow> string \<Rightarrow> bool" where
  "HasPrefix s p \<longleftrightarrow> length p \<le> length s \<and> take (length p) s = p"

definition HasSuffix :: "string \<Rightarrow> string \<Rightarrow> bool" where
  "HasSuffix s p \<longleftrightarrow> length p \<le> length s \<and> drop (length s - length p) s = p"

definition TrimPrefix :: "string \<Rightarrow> string \<Rightarrow> string" where
  "TrimPrefix s p = (if HasPrefix s p then drop (length p) s else s)"

definition TrimSuffix :: "string \<Rightarrow> string \<Rightarrow> string" where
  "TrimSuffix s p = (if HasSuffix s p then take (length s - length p) s else s)"

lemma HasPrefix_iff [go_simps]: "HasPrefix s p \<longleftrightarrow> (\<exists>t. s = p @ t)"
  by (auto simp: HasPrefix_def) (metis append_take_drop_id)

lemma HasSuffix_iff [go_simps]: "HasSuffix s p \<longleftrightarrow> (\<exists>t. s = t @ p)"
  by (auto simp: HasSuffix_def) (metis append_take_drop_id)

lemma HasSuffix_append [simp]: "HasSuffix (s @ p) p"
  by (auto simp: HasSuffix_iff)

lemma HasPrefix_append [simp]: "HasPrefix (p @ s) p"
  by (auto simp: HasPrefix_iff)

lemma HasSuffix_single: "HasSuffix s [c] \<longleftrightarrow> s \<noteq> [] \<and> last s = c"
  by (cases s rule: rev_cases) (auto simp: HasSuffix_iff)

lemma HasSuffix_refl [simp]: "HasSuffix s s"
  by (simp add: HasSuffix_def)

lemma HasSuffix_ToLower: "HasSuffix s p \<Longrightarrow> HasSuffix (ToLower s) (ToLower p)"
  by (auto simp: HasSuffix_iff)

lemma HasSuffix_trans: "HasSuffix s t \<Longrightarrow> HasSuffix t u \<Longrightarrow> HasSuffix s u"
  by (auto simp: HasSuffix_iff)

lemma HasSuffix_append_mono: "HasSuffix t u \<Longrightarrow> HasSuffix (s @ t) u"
  by (auto simp: HasSuffix_iff)

lemma HasSuffix_dot_ToLower [simp]: "HasSuffix (ToLower s) ''.'' = HasSuffix s ''.''"
  by (cases s rule: rev_cases) (auto simp: HasSuffix_single)

lemma TrimSuffix_append [simp]: "TrimSuffix (s @ p) p = s"
  by (simp add: TrimSuffix_def)

lemma TrimSuffix_id: "\<not> HasSuffix s p \<Longrightarrow> TrimSuffix s p = s"
  by (simp add: TrimSuffix_def)

lemma TrimPrefix_append [simp]: "TrimPrefix (p @ s) p = s"
  by (simp add: TrimPrefix_def)

subsection \<open>Substrings, splitting and joining\<close>

fun Contains :: "string \<Rightarrow> string \<Rightarrow> bool" where
  "Contains [] p \<longleftrightarrow> p = []"
| "Contains (c # s) p \<longleftrightarrow> HasPrefix (c # s) p \<or> Contains s p"

lemma Contains_iff [go_simps]: "Contains s p \<longleftrightarrow> (\<exists>a b. s = a @ p @ b)"
proof (induction s)
  case Nil
  show ?case by simp
next
  case (Cons c s)
  have "(\<exists>a b. c # s = a @ p @ b) \<longleftrightarrow> (\<exists>b. c # s = p @ b) \<or> (\<exists>a b. s = a @ p @ b)"
    by (metis append_Cons append_Nil list.exhaust list.inject)
  then show ?case by (simp add: Cons.IH HasPrefix_iff)
qed

lemma Contains_single: "Contains s [c] \<longleftrightarrow> c \<in> set s"
  by (simp add: Contains_iff) (metis in_set_conv_decomp)

text \<open>\<open>strings.Split(s, sep)\<close> for a one-byte separator: always at least one part.\<close>

fun split_on :: "char \<Rightarrow> string \<Rightarrow> string list" where
  "split_on d [] = [[]]"
| "split_on d (c # s) =
     (if c = d then [] # split_on d s
      else (case split_on d s of [] \<Rightarrow> [[c]] | p # ps \<Rightarrow> (c # p) # ps))"

text \<open>\<open>strings.Join(parts, sep)\<close>\<close>

fun join_with :: "string \<Rightarrow> string list \<Rightarrow> string" where
  "join_with sep [] = []"
| "join_with sep [p] = p"
| "join_with sep (p # q # ps) = p @ sep @ join_with sep (q # ps)"

lemma split_on_nonempty [simp]: "split_on d s \<noteq> []"
  by (cases s) (auto split: list.splits)

lemma split_on_no_sep: "p \<in> set (split_on d s) \<Longrightarrow> d \<notin> set p"
proof (induction s arbitrary: p)
  case (Cons c s)
  then show ?case
    by (cases "split_on d s") (auto split: if_splits)
qed simp

lemma join_Cons: "ps \<noteq> [] \<Longrightarrow> join_with sep (p # ps) = p @ sep @ join_with sep ps"
  by (cases ps) auto

lemma join_split: "join_with [d] (split_on d s) = s"
proof (induction s)
  case (Cons c s)
  show ?case
  proof (cases "c = d")
    case True
    then show ?thesis using Cons.IH by (simp add: join_Cons)
  next
    case False
    obtain p ps where ps: "split_on d s = p # ps"
      by (meson list.exhaust split_on_nonempty)
    with False Cons.IH show ?thesis by (cases ps) auto
  qed
qed simp

lemma split_on_single: "d \<notin> set p \<Longrightarrow> split_on d p = [p]"
  by (induction p) auto

lemma split_on_append: "d \<notin> set p \<Longrightarrow> split_on d (p @ d # s) = p # split_on d s"
  by (induction p) auto

lemma split_join:
  "ps \<noteq> [] \<Longrightarrow> (\<forall>p \<in> set ps. d \<notin> set p) \<Longrightarrow> split_on d (join_with [d] ps) = ps"
proof (induction ps rule: list_nonempty_induct)
  case (single p)
  then show ?case by (simp add: split_on_single)
next
  case (cons p ps)
  then show ?case by (simp add: join_Cons split_on_append)
qed

text \<open>Components without the separator are determined by their join.\<close>

lemma join_with_inject:
  assumes "join_with [d] ps = join_with [d] qs" "ps \<noteq> []" "qs \<noteq> []"
    and "\<forall>p \<in> set ps. d \<notin> set p" "\<forall>q \<in> set qs. d \<notin> set q"
  shows "ps = qs"
  using assms by (metis split_join)

lemma split_on_ToLower: "split_on CHR ''.'' (ToLower s) = map ToLower (split_on CHR ''.'' s)"
  by (induction s) (auto split: list.splits)

lemma set_split_on: "(\<Union>p \<in> set (split_on d s). set p) = set s - {d}"
proof (induction s)
  case (Cons c s)
  then show ?case
    by (cases "split_on d s") (auto split: if_splits)
qed simp

lemma split_on_snoc: "d \<notin> set p \<Longrightarrow> split_on d (s @ d # p) = split_on d s @ [p]"
proof (induction s)
  case (Cons c s)
  then show ?case by (cases "split_on d s") auto
qed (simp add: split_on_single)

lemma append_sep_inject:
  assumes "d \<notin> set p" "d \<notin> set q"
  shows "p @ d # s = q @ d # t \<longleftrightarrow> p = q \<and> s = t"
  using assms
proof (induction p arbitrary: q)
  case Nil
  then show ?case by (cases q) auto
next
  case (Cons c p)
  then show ?case by (cases q) auto
qed

end
