(* ===== verification/Zone_Model.thy ===== *)
theory Zone_Model
  imports Go_Strings
begin

section \<open>Zones and names (pkg/model: zone.go, normalize.go)\<close>

text \<open>
  The data model shared by controller and agent, \<open>pkg/model/zone.go\<close>, and the name
  normalisation of \<open>pkg/model/normalize.go\<close>. Each struct is a record with the source's fields
  (prefixed, since HOL field names are global); a pointer field is an \<open>option\<close>; the fixed-width
  integers keep their width. The lemmas show that normalisation is idempotent, always yields an
  absolute lower-case name, and identifies exactly the spellings of one name.
\<close>

subsection \<open>Data\<close>

record SOARecord =
  soa_MName :: string
  soa_RName :: string
  soa_Serial :: uint32
  soa_Refresh :: uint32
  soa_Retry :: uint32
  soa_Expire :: uint32
  soa_Minimum :: uint32

record Record =
  r_ID :: string
  r_Name :: string
  r_Type :: string
  r_TTL :: uint32
  r_Value :: string
  r_Priority :: "uint16 option"

record DNSSECConfig =
  d_Enabled :: bool
  d_Algorithm :: uint8
  d_KSKKeyTag :: uint16
  d_ZSKKeyTag :: uint16
  d_NSEC3Enabled :: bool
  d_NSEC3Iterations :: uint16
  d_NSEC3Salt :: string
  d_SignatureExpiration :: "go_time option"

record Zone =
  z_Name :: string
  z_Version :: string
  z_SOA :: SOARecord
  z_Records :: "Record list"
  z_DNSSEC :: "DNSSECConfig option"
  z_CreatedAt :: go_time
  z_UpdatedAt :: go_time

definition RecordTypeA :: string where "RecordTypeA = ''A''"
definition RecordTypeAAAA :: string where "RecordTypeAAAA = ''AAAA''"
definition RecordTypeCNAME :: string where "RecordTypeCNAME = ''CNAME''"
definition RecordTypeMX :: string where "RecordTypeMX = ''MX''"
definition RecordTypeNS :: string where "RecordTypeNS = ''NS''"
definition RecordTypeTXT :: string where "RecordTypeTXT = ''TXT''"
definition RecordTypePTR :: string where "RecordTypePTR = ''PTR''"
definition RecordTypeSOA :: string where "RecordTypeSOA = ''SOA''"
definition RecordTypeSRV :: string where "RecordTypeSRV = ''SRV''"
definition RecordTypeCAA :: string where "RecordTypeCAA = ''CAA''"

lemmas RecordType_defs = RecordTypeA_def RecordTypeAAAA_def RecordTypeCNAME_def RecordTypeMX_def
  RecordTypeNS_def RecordTypeTXT_def RecordTypePTR_def RecordTypeSOA_def RecordTypeSRV_def
  RecordTypeCAA_def

definition SupportedRecordTypes :: "string list" where
  "SupportedRecordTypes =
     [RecordTypeA, RecordTypeAAAA, RecordTypeCNAME, RecordTypeMX, RecordTypeNS, RecordTypeTXT,
      RecordTypePTR, RecordTypeSRV, RecordTypeCAA]"

definition IsValidRecordType :: "string \<Rightarrow> bool" where
  "IsValidRecordType t \<longleftrightarrow> list_ex (\<lambda>u. u = t) SupportedRecordTypes"

definition DefaultSOA :: "string \<Rightarrow> string \<Rightarrow> SOARecord" where
  "DefaultSOA mname rname =
     \<lparr>soa_MName = mname, soa_RName = rname, soa_Serial = 0, soa_Refresh = 3600, soa_Retry = 1800,
      soa_Expire = 604800, soa_Minimum = 86400\<rparr>"

subsection \<open>Name normalisation\<close>

definition NormalizeZoneName :: "string \<Rightarrow> string" where
  "NormalizeZoneName name =
     (if name = [] then []
      else let normalized = ToLower name
           in if \<not> HasSuffix normalized ''.'' then normalized @ ''.'' else normalized)"

definition NormalizeDomainName :: "string \<Rightarrow> string" where
  "NormalizeDomainName name =
     (if name = [] \<or> name = ''@'' then name
      else if HasPrefix name ''*.'' then ''*.'' @ NormalizeZoneName (drop 2 name)
      else NormalizeZoneName name)"

definition NormalizeDomainTargetName :: "string \<Rightarrow> string \<Rightarrow> string" where
  "NormalizeDomainTargetName name zoneOrigin =
     (if name = [] \<or> name = ''@'' then name
      else if HasSuffix name ''.'' then NormalizeDomainName name
      else let zoneName = NormalizeZoneName zoneOrigin;
               trimmedZone = TrimSuffix zoneName ''.'';
               nameLower = ToLower name;
               zoneLower = ToLower trimmedZone
           in if nameLower = zoneLower \<or> HasSuffix nameLower (''.'' @ zoneLower)
              then NormalizeDomainName name
              else NormalizeDomainName (name @ ''.'' @ trimmedZone))"

definition NormalizeRecordOwnerName :: "string \<Rightarrow> string \<Rightarrow> string" where
  "NormalizeRecordOwnerName name zoneOrigin =
     (let zoneName = NormalizeZoneName zoneOrigin
      in if name = ''@'' then zoneName
         else if HasSuffix name ''.'' then NormalizeZoneName name
         else let trimmedZone = TrimSuffix zoneName ''.'';
                  nameLower = ToLower name;
                  zoneLower = ToLower trimmedZone
              in if nameLower = zoneLower \<or> HasSuffix nameLower (''.'' @ zoneLower)
                 then NormalizeZoneName name
                 else NormalizeZoneName (name @ ''.'' @ trimmedZone))"

subsection \<open>Facts about normal forms\<close>

text \<open>A name in normal form: empty, or lower case with a trailing dot.\<close>

definition absolute :: "string \<Rightarrow> bool" where
  "absolute s \<longleftrightarrow> ToLower s = s \<and> HasSuffix s ''.''"

lemma NormalizeZoneName_Nil [simp]: "NormalizeZoneName [] = []"
  by (simp add: NormalizeZoneName_def)

lemma NormalizeZoneName_empty_iff [simp]: "NormalizeZoneName s = [] \<longleftrightarrow> s = []"
  by (simp add: NormalizeZoneName_def Let_def)

lemma NormalizeZoneName_absolute: "s \<noteq> [] \<Longrightarrow> absolute (NormalizeZoneName s)"
  by (auto simp: NormalizeZoneName_def absolute_def Let_def)

lemma absolute_fixpoint [simp]: "absolute s \<Longrightarrow> NormalizeZoneName s = s"
  by (auto simp: NormalizeZoneName_def absolute_def Let_def HasSuffix_def)

lemma absoluteE:
  assumes "absolute s"
  obtains t where "s = t @ ''.''" "ToLower t = t"
  using assms by (auto simp: absolute_def HasSuffix_iff)

lemma absolute_snoc [simp]: "absolute (t @ ''.'') \<longleftrightarrow> ToLower t = t"
  by (simp add: absolute_def)

lemma NormalizeZoneName_idem: "NormalizeZoneName (NormalizeZoneName s) = NormalizeZoneName s"
  by (cases "s = []") (simp_all add: NormalizeZoneName_absolute)

lemma NormalizeZoneName_undotted:
  "s \<noteq> [] \<Longrightarrow> \<not> HasSuffix s ''.'' \<Longrightarrow> NormalizeZoneName s = ToLower s @ ''.''"
  by (simp add: NormalizeZoneName_def)

lemma NormalizeZoneName_dotted:
  "HasSuffix s ''.'' \<Longrightarrow> NormalizeZoneName s = ToLower s"
  by (auto simp: NormalizeZoneName_def Let_def)

lemma NormalizeZoneName_snoc [simp]: "NormalizeZoneName (s @ ''.'') = ToLower s @ ''.''"
  by (simp add: NormalizeZoneName_dotted)

lemma NormalizeZoneName_ToLower: "NormalizeZoneName (ToLower s) = NormalizeZoneName s"
  by (simp add: NormalizeZoneName_def)

text \<open>Two names normalise alike exactly when they agree up to case and the trailing dot.\<close>

lemma NormalizeZoneName_eq_iff:
  assumes "s \<noteq> []" "t \<noteq> []"
  shows "NormalizeZoneName s = NormalizeZoneName t \<longleftrightarrow>
    ToLower s = ToLower t \<or> ToLower s = ToLower t @ ''.'' \<and> \<not> HasSuffix t ''.''
      \<or> ToLower t = ToLower s @ ''.'' \<and> \<not> HasSuffix s ''.''"
  using assms
  by (cases "HasSuffix s ''.''"; cases "HasSuffix t ''.''")
     (auto simp: NormalizeZoneName_dotted NormalizeZoneName_undotted,
       (metis HasSuffix_append HasSuffix_dot_ToLower)+)

lemma trimmed_zone:
  assumes "absolute z"
  shows "z = TrimSuffix z ''.'' @ ''.''" "ToLower (TrimSuffix z ''.'') = TrimSuffix z ''.''"
  using assms by (auto elim!: absoluteE)

text \<open>The owner name of a record is absolute for every non-empty zone and record name.\<close>

lemma NormalizeRecordOwnerName_absolute:
  "n \<noteq> [] \<Longrightarrow> z \<noteq> [] \<Longrightarrow> absolute (NormalizeRecordOwnerName n z)"
  by (auto simp: NormalizeRecordOwnerName_def Let_def intro!: NormalizeZoneName_absolute)

lemma NormalizeRecordOwnerName_of_absolute:
  "absolute n \<Longrightarrow> NormalizeRecordOwnerName n z = n"
  by (auto simp: NormalizeRecordOwnerName_def absolute_def HasSuffix_def NormalizeZoneName_def)

text \<open>A name is inside a zone: the zone's own name, or below it.\<close>

definition in_zone :: "string \<Rightarrow> string \<Rightarrow> bool" where
  "in_zone owner zone \<longleftrightarrow> owner = zone \<or> HasSuffix owner (''.'' @ zone)"

lemma NormalizeRecordOwnerName_relative_in_zone:
  assumes "n \<noteq> []" "ToLower t = t" "t \<noteq> []" "\<not> HasSuffix t ''.''" "\<not> HasSuffix n ''.''"
  shows "in_zone (NormalizeRecordOwnerName n (t @ ''.'')) (t @ ''.'')"
proof -
  have undotted: "\<not> HasSuffix (n @ ''.'' @ t) ''.''"
    using assms(3,4) by (simp add: HasSuffix_single)
  consider "n = ''@''" | "n \<noteq> ''@''" "ToLower n = t"
    | u where "n \<noteq> ''@''" "ToLower n = u @ ''.'' @ t"
    | "n \<noteq> ''@''" "ToLower n \<noteq> t" "\<not> HasSuffix (ToLower n) (''.'' @ t)"
    by (auto simp: HasSuffix_iff)
  then show ?thesis
  proof cases
    case 4
    then have "NormalizeRecordOwnerName n (t @ ''.'') = NormalizeZoneName (n @ ''.'' @ t)"
      using assms by (auto simp: NormalizeRecordOwnerName_def Let_def)
    also have "\<dots> = ToLower n @ ''.'' @ t @ ''.''"
      using undotted assms(2) by (simp add: NormalizeZoneName_undotted)
    finally show ?thesis by (auto simp: in_zone_def HasSuffix_iff)
  qed (use assms in \<open>auto simp: NormalizeRecordOwnerName_def Let_def in_zone_def
      NormalizeZoneName_undotted HasSuffix_iff\<close>)
qed

end
