(* ===== verification/Regex.thy ===== *)
theory Regex
  imports Go_Strings
begin

section \<open>Regular expressions\<close>

text \<open>
  The expressions of package \<open>regexp\<close> that the sources compile, as a syntax tree over byte
  classes. \<open>matches\<close> decides an anchored match (\<open>^...$\<close>) by derivatives and is what the model
  runs; \<open>lang\<close> is the language of an expression, and \<open>matches_iff\<close> says the two agree. The rest
  are the laws the characterisations of the concrete expressions use.
\<close>

datatype rexp =
    RNone
  | REps
  | RClass "char \<Rightarrow> bool"
  | RSeq rexp rexp
  | RAlt rexp rexp
  | RStar rexp

definition ROpt :: "rexp \<Rightarrow> rexp" where
  "ROpt r = RAlt r REps"

definition RPlus :: "rexp \<Rightarrow> rexp" where
  "RPlus r = RSeq r (RStar r)"

text \<open>\<open>r{0,n}\<close>\<close>

fun RUpTo :: "nat \<Rightarrow> rexp \<Rightarrow> rexp" where
  "RUpTo 0 r = REps"
| "RUpTo (Suc n) r = RAlt REps (RSeq r (RUpTo n r))"

definition RChar :: "char \<Rightarrow> rexp" where
  "RChar c = RClass (\<lambda>d. d = c)"

subsection \<open>The language of an expression\<close>

inductive_set star_of :: "string set \<Rightarrow> string set" for A where
  star_Nil: "[] \<in> star_of A"
| star_Cons: "u \<in> A \<Longrightarrow> v \<in> star_of A \<Longrightarrow> u @ v \<in> star_of A"

primrec lang :: "rexp \<Rightarrow> string set" where
  "lang RNone = {}"
| "lang REps = {[]}"
| "lang (RClass p) = {[c] | c. p c}"
| "lang (RSeq r s) = {u @ v | u v. u \<in> lang r \<and> v \<in> lang s}"
| "lang (RAlt r s) = lang r \<union> lang s"
| "lang (RStar r) = star_of (lang r)"

subsection \<open>Matching by derivatives\<close>

primrec nullable :: "rexp \<Rightarrow> bool" where
  "nullable RNone = False"
| "nullable REps = True"
| "nullable (RClass p) = False"
| "nullable (RSeq r s) = (nullable r \<and> nullable s)"
| "nullable (RAlt r s) = (nullable r \<or> nullable s)"
| "nullable (RStar r) = True"

text \<open>Smart constructors keep the derivatives small.\<close>

definition mk_seq :: "rexp \<Rightarrow> rexp \<Rightarrow> rexp" where
  "mk_seq r s = (case r of RNone \<Rightarrow> RNone | REps \<Rightarrow> s | _ \<Rightarrow> RSeq r s)"

definition mk_alt :: "rexp \<Rightarrow> rexp \<Rightarrow> rexp" where
  "mk_alt r s = (case r of RNone \<Rightarrow> s | _ \<Rightarrow> (case s of RNone \<Rightarrow> r | _ \<Rightarrow> RAlt r s))"

primrec deriv :: "char \<Rightarrow> rexp \<Rightarrow> rexp" where
  "deriv c RNone = RNone"
| "deriv c REps = RNone"
| "deriv c (RClass p) = (if p c then REps else RNone)"
| "deriv c (RSeq r s) =
     (if nullable r then mk_alt (mk_seq (deriv c r) s) (deriv c s) else mk_seq (deriv c r) s)"
| "deriv c (RAlt r s) = mk_alt (deriv c r) (deriv c s)"
| "deriv c (RStar r) = mk_seq (deriv c r) (RStar r)"

fun matches :: "rexp \<Rightarrow> string \<Rightarrow> bool" where
  "matches r [] = nullable r"
| "matches r (c # s) = matches (deriv c r) s"

lemma nullable_iff: "nullable r \<longleftrightarrow> [] \<in> lang r"
  by (induction r) (auto intro: star_Nil)

lemma lang_mk_seq [simp]: "lang (mk_seq r s) = lang (RSeq r s)"
  by (auto simp: mk_seq_def split: rexp.splits)

lemma lang_mk_alt [simp]: "lang (mk_alt r s) = lang (RAlt r s)"
  by (auto simp: mk_alt_def split: rexp.splits)

lemma star_of_step:
  "c # s \<in> star_of A \<longleftrightarrow> (\<exists>u v. s = u @ v \<and> c # u \<in> A \<and> v \<in> star_of A)"
proof
  assume "c # s \<in> star_of A"
  then show "\<exists>u v. s = u @ v \<and> c # u \<in> A \<and> v \<in> star_of A"
  proof (induction "c # s" arbitrary: s rule: star_of.induct)
    case (star_Cons u v)
    then show ?case by (cases u) auto
  qed
next
  assume "\<exists>u v. s = u @ v \<and> c # u \<in> A \<and> v \<in> star_of A"
  then show "c # s \<in> star_of A" using star_Cons [of "c # _" A] by auto
qed

lemma lang_deriv: "s \<in> lang (deriv c r) \<longleftrightarrow> c # s \<in> lang r"
proof (induction r arbitrary: s)
  case (RSeq r1 r2)
  have "c # s \<in> lang (RSeq r1 r2) \<longleftrightarrow>
      (\<exists>u v. s = u @ v \<and> c # u \<in> lang r1 \<and> v \<in> lang r2) \<or> ([] \<in> lang r1 \<and> c # s \<in> lang r2)"
    by (auto simp: Cons_eq_append_conv)
  then show ?case by (auto simp: RSeq.IH nullable_iff)
next
  case (RStar r)
  then show ?case by (auto simp: star_of_step)
qed auto

theorem matches_iff: "matches r s \<longleftrightarrow> s \<in> lang r"
  by (induction s arbitrary: r) (simp_all add: nullable_iff lang_deriv)

subsection \<open>Laws for the concrete expressions\<close>

lemma lang_ROpt [simp]: "lang (ROpt r) = insert [] (lang r)"
  by (auto simp: ROpt_def)

lemma lang_RChar [simp]: "lang (RChar c) = {[c]}"
  by (auto simp: RChar_def)

lemma lang_RSeq_class:
  "lang (RSeq (RClass p) r) = {c # t | c t. p c \<and> t \<in> lang r}"
  by (auto; metis append_Cons append_Nil)

lemma lang_RUpTo_class:
  "lang (RUpTo n (RClass p)) = {s. length s \<le> n \<and> list_all p s}"
proof (induction n)
  case (Suc n)
  have "s \<in> lang (RUpTo (Suc n) (RClass p)) \<longleftrightarrow> length s \<le> Suc n \<and> list_all p s" for s
    by (cases s) (auto simp: Suc.IH lang_RSeq_class simp del: lang.simps(4))
  then show ?case by blast
qed auto

lemma star_of_class: "star_of {[c] | c. p c} = {s. list_all p s}"
proof -
  have "s \<in> star_of {[c] | c. p c} \<longleftrightarrow> list_all p s" for s
    by (induction s) (auto simp: star_of_step intro: star_Nil)
  then show ?thesis by blast
qed

lemma lang_RPlus_class: "lang (RPlus (RClass p)) = {s. s \<noteq> [] \<and> list_all p s}"
proof -
  have "s \<in> lang (RPlus (RClass p)) \<longleftrightarrow> s \<noteq> [] \<and> list_all p s" for s
    by (cases s) (auto simp: RPlus_def star_of_class lang_RSeq_class simp del: lang.simps(4))
  then show ?thesis by blast
qed

text \<open>
  A star of separator-terminated words followed by one word is the join of a non-empty list of
  words, when no word contains the separator.
\<close>

lemma star_sep_join:
  assumes "A = {u @ [d] | u. u \<in> L}"
  shows "s \<in> star_of A \<longleftrightarrow> (\<exists>us. set us \<subseteq> L \<and> s = concat (map (\<lambda>u. u @ [d]) us))"
proof
  show "s \<in> star_of A \<Longrightarrow> \<exists>us. set us \<subseteq> L \<and> s = concat (map (\<lambda>u. u @ [d]) us)"
  proof (induction rule: star_of.induct)
    case star_Nil
    show ?case by (intro exI [of _ "[]"]) simp
  next
    case (star_Cons u v)
    then obtain us w where "set us \<subseteq> L" "v = concat (map (\<lambda>u. u @ [d]) us)" "w \<in> L" "u = w @ [d]"
      using assms by auto
    then show ?case by (intro exI [of _ "w # us"]) simp
  qed
next
  assume "\<exists>us. set us \<subseteq> L \<and> s = concat (map (\<lambda>u. u @ [d]) us)"
  then obtain us where "set us \<subseteq> L" "s = concat (map (\<lambda>u. u @ [d]) us)" by blast
  then show "s \<in> star_of A"
  proof (induction us arbitrary: s)
    case (Cons u us)
    then have "u @ [d] \<in> A" "concat (map (\<lambda>u. u @ [d]) us) \<in> star_of A" using assms by auto
    then have "(u @ [d]) @ concat (map (\<lambda>u. u @ [d]) us) \<in> star_of A" by (rule star_Cons)
    with Cons.prems show ?case by simp
  qed (simp add: star_Nil)
qed

lemma concat_sep_join: "concat (map (\<lambda>u. u @ [d]) us) @ w = join_with [d] (us @ [w])"
  by (induction us) (auto simp: join_Cons)

lemma star_sep_split:
  assumes "A = {u @ [d] | u. u \<in> L}" and "\<And>u. u \<in> L \<Longrightarrow> d \<notin> set u"
  shows "(\<exists>u v. s = u @ v \<and> u \<in> star_of A \<and> v \<in> L) \<longleftrightarrow> set (split_on d s) \<subseteq> L"
proof
  assume "\<exists>u v. s = u @ v \<and> u \<in> star_of A \<and> v \<in> L"
  then obtain us w where us: "set us \<subseteq> L" "w \<in> L" "s = join_with [d] (us @ [w])"
    by (auto simp: star_sep_join [OF assms(1)] concat_sep_join)
  moreover from us(1,2) have "\<forall>p \<in> set (us @ [w]). d \<notin> set p" using assms(2) by auto
  ultimately have "split_on d s = us @ [w]" by (simp add: split_join)
  with us show "set (split_on d s) \<subseteq> L" by simp
next
  assume sub: "set (split_on d s) \<subseteq> L"
  obtain us w where uw: "split_on d s = us @ [w]"
    by (metis rev_exhaust split_on_nonempty)
  then have "s = concat (map (\<lambda>u. u @ [d]) us) @ w"
    by (metis concat_sep_join join_split)
  with uw sub show "\<exists>u v. s = u @ v \<and> u \<in> star_of A \<and> v \<in> L"
    by (auto simp: star_sep_join [OF assms(1)])
qed

lemma seq_optional_sep:
  "(\<exists>u v. s = u @ v \<and> u \<in> S \<and> v \<in> L \<union> {w @ [d] | w. w \<in> L}) \<longleftrightarrow>
     (\<exists>u v. s = u @ v \<and> u \<in> S \<and> v \<in> L) \<or>
     (\<exists>t. s = t @ [d] \<and> (\<exists>u v. t = u @ v \<and> u \<in> S \<and> v \<in> L))" (is "?l \<longleftrightarrow> ?r1 \<or> ?r2")
proof
  assume ?l
  then obtain u v where uv: "s = u @ v" "u \<in> S" "v \<in> L \<or> (\<exists>w. v = w @ [d] \<and> w \<in> L)" by blast
  from uv(3) show "?r1 \<or> ?r2"
  proof
    assume "\<exists>w. v = w @ [d] \<and> w \<in> L"
    then obtain w where "v = w @ [d]" "w \<in> L" by blast
    with uv(1,2) have "s = (u @ w) @ [d]" "u \<in> S" "w \<in> L" by simp_all
    then show ?thesis by blast
  qed (use uv(1,2) in blast)
next
  assume "?r1 \<or> ?r2"
  then show ?l
  proof
    assume ?r2
    then obtain u v where "s = u @ (v @ [d])" "u \<in> S" "v \<in> L" by auto
    then show ?thesis by blast
  qed blast
qed

end
