(* ===== verification/Go_Conv.thy ===== *)
theory Go_Conv
  imports Go_Strings
begin

section \<open>White space, numbers and UTF-8\<close>

text \<open>
  \<open>strings.Fields\<close>, \<open>strings.TrimSpace\<close>, \<open>strconv.Atoi\<close>, decimal formatting,
  \<open>utf8.DecodeRuneInString\<close>, \<open>utf8.ValidString\<close>, \<open>utf8.RuneStart\<close> and \<open>strconv.Unquote\<close>.
\<close>

subsection \<open>White space\<close>

text \<open>
  \<open>ws_len s\<close> is the number of bytes of the white-space rune at the head of \<open>s\<close>, 0 if there is
  none. The first byte of a multi-byte rune is never a continuation byte, so a match of the byte
  pattern is a match of the rune.
\<close>

definition ascii_space :: "char \<Rightarrow> bool" where
  "ascii_space c \<longleftrightarrow> (9 \<le> byte c \<and> byte c \<le> 13) \<or> byte c = 32"

fun ws_len :: "string \<Rightarrow> nat" where
  "ws_len [] = 0"
| "ws_len (c # s) =
     (if ascii_space c then 1
      else case s of [] \<Rightarrow> 0
      | d # s' \<Rightarrow>
        (if byte c = 0xC2 then (if byte d = 0x85 \<or> byte d = 0xA0 then 2 else 0)
         else case s' of [] \<Rightarrow> 0
         | e # _ \<Rightarrow>
           (if byte c = 0xE1 \<and> byte d = 0x9A \<and> byte e = 0x80
             \<or> byte c = 0xE2 \<and> byte d = 0x80 \<and>
                (0x80 \<le> byte e \<and> byte e \<le> 0x8A \<or> byte e = 0xA8 \<or> byte e = 0xA9 \<or> byte e = 0xAF)
             \<or> byte c = 0xE2 \<and> byte d = 0x81 \<and> byte e = 0x9F
             \<or> byte c = 0xE3 \<and> byte d = 0x80 \<and> byte e = 0x80
            then 3 else 0)))"

lemma ws_len_le: "ws_len s \<le> length s"
  by (cases s) (auto split: list.splits)

text \<open>\<open>strings.Fields\<close>: the maximal runs of bytes outside white space.\<close>

function fields_aux :: "string \<Rightarrow> string \<Rightarrow> string list" where
  "fields_aux cur [] = (if cur = [] then [] else [rev cur])"
| "fields_aux cur (c # s) =
     (let n = ws_len (c # s) in
      if n = 0 then fields_aux (c # cur) s
      else (if cur = [] then [] else [rev cur]) @ fields_aux [] (drop n (c # s)))"
  by pat_completeness auto
termination
  by (relation "measure (\<lambda>(cur, s). length s)") auto

declare fields_aux.simps(2) [simp del]

definition Fields :: "string \<Rightarrow> string list" where
  "Fields s = fields_aux [] s"

function trim_left :: "string \<Rightarrow> string" where
  "trim_left s = (if ws_len s = 0 then s else trim_left (drop (ws_len s) s))"
  by pat_completeness auto
termination
proof (relation "measure length", goal_cases)
  case (2 s)
  then show ?case using ws_len_le [of s] by (cases s) auto
qed simp

declare trim_left.simps [simp del]

text \<open>The same at the end of the string.\<close>

definition ws_len_end :: "string \<Rightarrow> nat" where
  "ws_len_end s =
     (if s \<noteq> [] \<and> ascii_space (last s) then 1
      else if 2 \<le> length s \<and> ws_len (drop (length s - 2) s) = 2 then 2
      else if 3 \<le> length s \<and> ws_len (drop (length s - 3) s) = 3 then 3
      else 0)"

function trim_right :: "string \<Rightarrow> string" where
  "trim_right s = (if ws_len_end s = 0 then s else trim_right (take (length s - ws_len_end s) s))"
  by pat_completeness auto
termination
  by (relation "measure length") (auto simp: ws_len_end_def split: if_splits)

declare trim_right.simps [simp del]

definition TrimSpace :: "string \<Rightarrow> string" where
  "TrimSpace s = trim_right (trim_left s)"

definition no_space :: "string \<Rightarrow> bool" where
  "no_space s \<longleftrightarrow> (\<forall>c \<in> set s. byte c < 128 \<and> \<not> ascii_space c)"

lemma ws_len_plain: "byte c < 128 \<Longrightarrow> \<not> ascii_space c \<Longrightarrow> ws_len (c # s) = 0"
  by (auto split: list.splits)

lemma ws_len_space [simp]: "ws_len (CHR '' '' # s) = 1"
  by (simp add: ascii_space_def byte_def)

lemma TrimSpace_Nil: "TrimSpace [] = []"
proof -
  have "trim_left [] = []" "trim_right [] = []"
    by (subst trim_left.simps, simp) (subst trim_right.simps, simp add: ws_len_end_def)
  then show ?thesis by (simp add: TrimSpace_def)
qed

lemma no_space_TrimSpace: "no_space s \<Longrightarrow> TrimSpace s = s"
proof -
  assume s: "no_space s"
  have ws: "ws_len t = 0" if "no_space t" for t
    using that ws_len_plain by (cases t) (auto simp: no_space_def simp del: ws_len.simps(2))
  have suffix: "no_space (drop n s)" for n using s by (auto simp: no_space_def dest: in_set_dropD)
  have "ws_len_end s = 0"
    using s ws [OF suffix] by (auto simp: ws_len_end_def no_space_def)
  then show ?thesis using ws [OF s] by (simp add: TrimSpace_def trim_left.simps [of s] trim_right.simps [of s])
qed

lemma fields_aux_plain:
  "no_space p \<Longrightarrow> fields_aux cur (p @ s) = fields_aux (rev p @ cur) s"
proof (induction p arbitrary: cur)
  case (Cons c p)
  then have "ws_len (c # p @ s) = 0" by (simp add: ws_len_plain no_space_def del: ws_len.simps)
  with Cons show ?case
    by (simp add: fields_aux.simps(2) no_space_def del: ws_len.simps)
qed simp

lemma fields_aux_space: "fields_aux cur (CHR '' '' # s) =
    (if cur = [] then [] else [rev cur]) @ fields_aux [] s"
  by (simp add: fields_aux.simps(2) Let_def del: ws_len.simps)

text \<open>Splitting a line of space-separated fields gives the fields back.\<close>

lemma Fields_join:
  assumes "\<forall>p \<in> set ps. p \<noteq> [] \<and> no_space p"
  shows "Fields (join_with '' '' ps) = ps"
  using assms
proof (induction ps rule: induct_list012)
  case (2 p)
  then show ?case using fields_aux_plain [of p "[]" "[]"] by (simp add: Fields_def)
next
  case (3 p q ps)
  then show ?case
    using fields_aux_plain [of p "[]" "'' '' @ join_with '' '' (q # ps)"]
    by (simp add: Fields_def fields_aux_space)
qed (simp add: Fields_def)

lemma fields_aux_nonempty: "p \<in> set (fields_aux cur s) \<Longrightarrow> p \<noteq> []"
proof (induction cur s arbitrary: p rule: fields_aux.induct)
  case (2 cur c s)
  then show ?case
    by (auto simp: fields_aux.simps(2) [of cur] Let_def simp del: ws_len.simps split: if_splits)
qed (auto split: if_splits)

lemma Fields_nonempty: "p \<in> set (Fields s) \<Longrightarrow> p \<noteq> []"
  by (auto simp: Fields_def dest: fields_aux_nonempty)

subsection \<open>Decimal numbers\<close>

definition digit_val :: "char \<Rightarrow> nat" where
  "digit_val c = byte c - 48"

definition dec_val :: "string \<Rightarrow> nat" where
  "dec_val s = foldl (\<lambda>n c. 10 * n + digit_val c) 0 s"

text \<open>\<open>strconv.Atoi\<close>: an optional sign and at least one digit, within the 64-bit range.\<close>

definition Atoi :: "string \<Rightarrow> int option" where
  "Atoi s =
     (let (neg, ds) = (case s of
          c # r \<Rightarrow> if c = CHR ''-'' then (True, r) else if c = CHR ''+'' then (False, r) else (False, s)
        | [] \<Rightarrow> (False, []));
        n = (if neg then - int (dec_val ds) else int (dec_val ds))
      in if ds = [] \<or> \<not> list_all is_digit ds then None
         else if n < - (2 ^ 63) \<or> 2 ^ 63 \<le> n then None
         else Some n)"

definition digit_char :: "nat \<Rightarrow> char" where
  "digit_char n = char_of (48 + n)"

text \<open>\<open>strconv.FormatUint(n, 10)\<close>, \<open>strconv.Itoa\<close> on a non-negative number, \<open>%d\<close>\<close>

fun dec_string :: "nat \<Rightarrow> string" where
  "dec_string n = (if n < 10 then [digit_char n] else dec_string (n div 10) @ [digit_char (n mod 10)])"

declare dec_string.simps [simp del]

lemma digit_val_char [simp]: "n < 10 \<Longrightarrow> digit_val (digit_char n) = n"
  by (simp add: digit_val_def digit_char_def)

lemma is_digit_char [simp]: "n < 10 \<Longrightarrow> is_digit (digit_char n)"
  by (simp add: is_digit_def digit_char_def)

lemma dec_val_snoc: "dec_val (s @ [c]) = 10 * dec_val s + digit_val c"
  by (simp add: dec_val_def)

lemma dec_val_string [simp]: "dec_val (dec_string n) = n"
proof (induction n rule: dec_string.induct)
  case (1 n)
  then show ?case
    by (cases "n < 10") (simp_all add: dec_string.simps [of n] dec_val_snoc, simp add: dec_val_def)
qed

lemma dec_string_digits: "list_all is_digit (dec_string n)"
proof (induction n rule: dec_string.induct)
  case (1 n)
  then show ?case by (cases "n < 10") (simp_all add: dec_string.simps [of n])
qed

lemma dec_string_nonempty [simp]: "dec_string n \<noteq> []"
  by (subst dec_string.simps) simp

lemma dec_string_inject [simp]: "dec_string m = dec_string n \<longleftrightarrow> m = n"
  by (metis dec_val_string)

lemma digits_no_sign: "list_all is_digit s \<Longrightarrow> s \<noteq> [] \<Longrightarrow> hd s \<noteq> CHR ''-'' \<and> hd s \<noteq> CHR ''+''"
  by (cases s) (auto simp: is_digit_def byte_def)

lemma Atoi_digits:
  assumes "list_all is_digit s" "s \<noteq> []" "dec_val s < 2 ^ 63"
  shows "Atoi s = Some (int (dec_val s))"
proof -
  have "int (dec_val s) < 2 ^ 63" using assms(3) by (simp add: zless_nat_eq_int_zless)
  then show ?thesis using assms(1,2) digits_no_sign [OF assms(1,2)]
    by (cases s) (auto simp: Atoi_def)
qed

lemma Atoi_dec_string [simp]: "n < 2 ^ 63 \<Longrightarrow> Atoi (dec_string n) = Some (int n)"
  by (simp add: Atoi_digits dec_string_digits)

lemma dec_string_no_space: "no_space (dec_string n)"
  using dec_string_digits [of n]
  by (auto simp: no_space_def list_all_iff is_digit_def ascii_space_def)

subsection \<open>UTF-8\<close>

definition in_range :: "nat \<Rightarrow> nat \<Rightarrow> char \<Rightarrow> bool" where
  "in_range lo hi c \<longleftrightarrow> lo \<le> byte c \<and> byte c \<le> hi"

definition RuneStart :: "char \<Rightarrow> bool" where
  "RuneStart c \<longleftrightarrow> \<not> in_range 0x80 0xBF c"

text \<open>
  \<open>utf8.DecodeRuneInString\<close>: the rune and its width. An invalid encoding is the replacement
  character with width 1; the empty string has width 0.
\<close>

fun decode_rune :: "string \<Rightarrow> nat \<times> nat" where
  "decode_rune [] = (0xFFFD, 0)"
| "decode_rune (a # s) =
    (let err = (0xFFFD, 1); cont = in_range 0x80 0xBF; p = byte a in
     if p < 0x80 then (p, 1)
     else if 0xC2 \<le> p \<and> p \<le> 0xDF then
       (case s of b # _ \<Rightarrow> if cont b then ((p - 0xC0) * 64 + (byte b - 0x80), 2) else err | _ \<Rightarrow> err)
     else if 0xE0 \<le> p \<and> p \<le> 0xEF then
       (case s of b # c # _ \<Rightarrow>
          if in_range (if p = 0xE0 then 0xA0 else 0x80) (if p = 0xED then 0x9F else 0xBF) b \<and> cont c
          then ((p - 0xE0) * 4096 + (byte b - 0x80) * 64 + (byte c - 0x80), 3) else err | _ \<Rightarrow> err)
     else if 0xF0 \<le> p \<and> p \<le> 0xF4 then
       (case s of b # c # d # _ \<Rightarrow>
          if in_range (if p = 0xF0 then 0x90 else 0x80) (if p = 0xF4 then 0x8F else 0xBF) b
             \<and> cont c \<and> cont d
          then ((p - 0xF0) * 262144 + (byte b - 0x80) * 4096 + (byte c - 0x80) * 64
                 + (byte d - 0x80), 4) else err | _ \<Rightarrow> err)
     else err)"

lemma decode_rune_width_pos: "s \<noteq> [] \<Longrightarrow> 0 < snd (decode_rune s)"
  by (cases s) (auto simp: Let_def split: list.splits)

lemma decode_rune_width_le: "snd (decode_rune s) \<le> length s"
  by (cases s) (auto simp: Let_def split: list.splits)

lemma decode_rune_width_4: "snd (decode_rune s) \<le> 4"
  by (cases s) (auto simp: Let_def split: list.splits)

text \<open>The runes of a string, each with its width, as \<open>for _, r := range s\<close> visits them.\<close>

function runes :: "string \<Rightarrow> (nat \<times> nat) list" where
  "runes s = (if s = [] then [] else decode_rune s # runes (drop (snd (decode_rune s)) s))"
  by pat_completeness auto
termination
  by (relation "measure length") (use decode_rune_width_pos in auto)

declare runes.simps [simp del]

definition ValidString :: "string \<Rightarrow> bool" where
  "ValidString s \<longleftrightarrow> (0xFFFD, 1) \<notin> set (runes s)"

lemma runes_Nil [simp]: "runes [] = []"
  by (simp add: runes.simps)

lemma ValidString_Nil [simp]: "ValidString []"
  by (simp add: ValidString_def)

lemma ValidString_step:
  "s \<noteq> [] \<Longrightarrow> ValidString s \<longleftrightarrow>
     decode_rune s \<noteq> (0xFFFD, 1) \<and> ValidString (drop (snd (decode_rune s)) s)"
  by (auto simp: ValidString_def runes.simps [of s])

lemma ValidString_ascii: "is_ascii s \<Longrightarrow> ValidString s"
proof (induction s)
  case (Cons c s)
  then show ?case by (subst ValidString_step) (auto simp: Let_def)
qed simp

end
