(* ===== verification/Net_IP.thy ===== *)
theory Net_IP
  imports Go_Conv
begin

section \<open>IP addresses as text (package net)\<close>

text \<open>
  \<open>net.ParseIP\<close>, \<open>IP.To4\<close> and \<open>IP.String\<close>, which \<open>pkg/model/validation.go\<close> uses to check and
  to canonicalise the values of A and AAAA records. An address is the list of its 16 bytes, as
  \<open>net.IP\<close> holds it; an IPv4 address has the prefix \<open>::ffff:0:0/96\<close>.
\<close>

type_synonym ip = "nat list"

subsection \<open>Parsing\<close>

definition octet_of :: "string \<Rightarrow> nat option" where
  "octet_of p =
     (if p \<noteq> [] \<and> list_all is_digit p \<and> (length p = 1 \<or> hd p \<noteq> CHR ''0'') \<and> dec_val p \<le> 255
      then Some (dec_val p) else None)"

text \<open>\<open>parseIPv4Fields\<close>: four decimal octets without leading zeros.\<close>

definition parse_ipv4_fields :: "string \<Rightarrow> nat list option" where
  "parse_ipv4_fields s =
     (let ps = split_on CHR ''.'' s
      in if length ps = 4 \<and> list_all (\<lambda>p. octet_of p \<noteq> None) ps
         then Some (map (the \<circ> octet_of) ps) else None)"

definition v4_prefix :: "nat list" where
  "v4_prefix = replicate 10 0 @ [255, 255]"

definition hex_val :: "char \<Rightarrow> nat option" where
  "hex_val c =
     (if is_digit c then Some (byte c - 48)
      else if 97 \<le> byte c \<and> byte c \<le> 102 then Some (byte c - 87)
      else if 65 \<le> byte c \<and> byte c \<le> 70 then Some (byte c - 55)
      else None)"

definition is_hex :: "char \<Rightarrow> bool" where
  "is_hex c \<longleftrightarrow> hex_val c \<noteq> None"

definition hex_num :: "string \<Rightarrow> nat" where
  "hex_num s = foldl (\<lambda>n c. 16 * n + the (hex_val c)) 0 s"

text \<open>
  One round of the loop of \<open>parseIPv6\<close>. \<open>out\<close> holds the bytes read so far (\<open>i = length out\<close>) and
  \<open>ell\<close> the position of the ellipsis. The result says whether the loop goes on, with the new
  bytes, ellipsis and rest of the input; \<open>None\<close> is an error.
\<close>

type_synonym v6_state = "nat list \<times> nat option \<times> string"

definition v6_step :: "nat list \<Rightarrow> nat option \<Rightarrow> string \<Rightarrow> (bool \<times> v6_state) option" where
  "v6_step out ell s =
     (let ds = takeWhile is_hex s;
          out' = out @ [hex_num ds div 256, hex_num ds mod 256]
      in if ds = [] \<or> 4 < length ds then None
         else case dropWhile is_hex s of
           [] \<Rightarrow> Some (False, out', ell, [])
         | c # r \<Rightarrow>
           (if c = CHR ''.'' then
              (if ell = None \<and> length out \<noteq> 12 \<or> 16 < length out + 4 then None
               else map_option (\<lambda>q. (False, out @ q, ell, [])) (parse_ipv4_fields s))
            else if c \<noteq> CHR '':'' \<or> r = [] then None
            else if hd r \<noteq> CHR '':'' then Some (True, out', ell, r)
            else if ell \<noteq> None then None
            else Some (tl r \<noteq> [], out', Some (length out'), tl r)))"

lemma v6_step_shorter: "v6_step out ell s = Some (b, o', e', r) \<Longrightarrow> length r < length s"
proof -
  assume step: "v6_step out ell s = Some (b, o', e', r)"
  have "length (dropWhile is_hex s) \<le> length s" by (rule length_dropWhile_le)
  with step show ?thesis
    by (auto simp: v6_step_def Let_def split: if_splits list.splits)
qed

text \<open>Each round consumes input, so the loop ends.\<close>

function v6_loop :: "nat list \<Rightarrow> nat option \<Rightarrow> string \<Rightarrow> v6_state option" where
  "v6_loop out ell s =
     (if 16 \<le> length out then Some (out, ell, s)
      else case v6_step out ell s of
        None \<Rightarrow> None
      | Some (b, o', e', r) \<Rightarrow> if b then v6_loop o' e' r else Some (o', e', r))"
  by pat_completeness auto
termination
  by (relation "measure (\<lambda>(out, ell, s). length s)") (auto dest: v6_step_shorter)

declare v6_loop.simps [simp del]

definition parse_ipv6 :: "string \<Rightarrow> ip option" where
  "parse_ipv6 s0 =
     (let lead = HasPrefix s0 ''::''; s = (if lead then drop 2 s0 else s0) in
      if lead \<and> s = [] then Some (replicate 16 0)
      else case v6_loop [] (if lead then Some 0 else None) s of
        None \<Rightarrow> None
      | Some (out, ell, rest) \<Rightarrow>
        (if rest \<noteq> [] then None
         else if length out < 16 then
           (case ell of None \<Rightarrow> None
            | Some e \<Rightarrow> Some (take e out @ replicate (16 - length out) 0 @ drop e out))
         else if ell \<noteq> None then None
         else Some out))"

text \<open>
  \<open>netip.ParseAddr\<close> decides by the first of \<open>.\<close>, \<open>:\<close> and \<open>%\<close>; \<open>net.ParseIP\<close> also refuses an
  address with a zone, so that any \<open>%\<close> is an error.
\<close>

definition ParseIP :: "string \<Rightarrow> ip option" where
  "ParseIP s =
     (if CHR ''%'' \<in> set s then None
      else case dropWhile (\<lambda>c. c \<noteq> CHR ''.'' \<and> c \<noteq> CHR '':'') s of
        [] \<Rightarrow> None
      | c # _ \<Rightarrow>
        (if c = CHR ''.'' then map_option (\<lambda>q. v4_prefix @ q) (parse_ipv4_fields s)
         else parse_ipv6 s))"

definition To4 :: "ip \<Rightarrow> nat list option" where
  "To4 a = (if length a = 16 \<and> take 12 a = v4_prefix then Some (drop 12 a) else None)"

subsection \<open>Printing\<close>

definition hex_digit :: "nat \<Rightarrow> char" where
  "hex_digit n = (if n < 10 then char_of (48 + n) else char_of (87 + n))"

fun hex_string :: "nat \<Rightarrow> string" where
  "hex_string n = (if n < 16 then [hex_digit n] else hex_string (n div 16) @ [hex_digit (n mod 16)])"

declare hex_string.simps [simp del]

fun groups :: "nat list \<Rightarrow> nat list" where
  "groups (a # b # r) = (256 * a + b) # groups r"
| "groups _ = []"

fun zero_run :: "nat list \<Rightarrow> nat" where
  "zero_run (0 # r) = Suc (zero_run r)"
| "zero_run _ = 0"

text \<open>The first of the longest runs of at least two zero groups: its start and its length.\<close>

fun longest_run :: "nat \<Rightarrow> nat list \<Rightarrow> nat \<times> nat" where
  "longest_run i [] = (0, 0)"
| "longest_run i (g # gs) =
     (let here = zero_run (g # gs); (j, n) = longest_run (Suc i) gs
      in if 2 \<le> here \<and> n \<le> here then (i, here) else (j, n))"

definition ip_string :: "ip \<Rightarrow> string" where
  "ip_string a =
     (case To4 a of
        Some q \<Rightarrow> join_with ''.'' (map dec_string q)
      | None \<Rightarrow>
        (let gs = groups a; (i, n) = longest_run 0 gs; h = (\<lambda>xs. join_with '':'' (map hex_string xs))
         in if n = 0 then h gs else h (take i gs) @ ''::'' @ h (drop (i + n) gs)))"

subsection \<open>Facts\<close>

lemma octet_of_Some: "octet_of p = Some n \<Longrightarrow> n = dec_val p \<and> n \<le> 255 \<and> p \<noteq> []"
  by (auto simp: octet_of_def split: if_splits)

lemma parse_ipv4_fields_length: "parse_ipv4_fields s = Some q \<Longrightarrow> length q = 4"
  by (auto simp: parse_ipv4_fields_def Let_def split: if_splits)

lemma the_octet_of_less: "octet_of p \<noteq> None \<Longrightarrow> the (octet_of p) < 256"
  by (auto simp: octet_of_def split: if_splits)

lemma parse_ipv4_fields_bytes: "parse_ipv4_fields s = Some q \<Longrightarrow> \<forall>n \<in> set q. n < 256"
  by (auto simp: parse_ipv4_fields_def Let_def list_all_iff split: if_splits
      intro!: the_octet_of_less)

text \<open>The loop keeps an even number of bytes, at most 16, and the ellipsis among them.\<close>

definition v6_inv :: "nat list \<Rightarrow> nat option \<Rightarrow> bool" where
  "v6_inv out ell \<longleftrightarrow> length out \<le> 16 \<and> even (length out) \<and> (\<forall>e. ell = Some e \<longrightarrow> e \<le> length out)"

lemma v6_step_inv:
  assumes "v6_step out ell s = Some (b, o', e', r)" "v6_inv out ell" "length out < 16"
  shows "v6_inv o' e'"
proof -
  from assms(2) have "even (length out)" by (simp add: v6_inv_def)
  with assms(3) have "length out \<le> 14" by presburger
  with assms show ?thesis
    by (auto simp: v6_step_def v6_inv_def Let_def dest!: parse_ipv4_fields_length
        split: if_splits list.splits)
qed

lemma v6_loop_inv: "v6_loop out ell s = Some (o', e', r) \<Longrightarrow> v6_inv out ell \<Longrightarrow> v6_inv o' e'"
proof (induction out ell s rule: v6_loop.induct)
  case (1 out ell s)
  then show ?case
    by (auto simp: v6_loop.simps [of out] not_le dest: v6_step_inv split: if_splits option.splits)
qed

lemma parse_ipv6_length: "parse_ipv6 s = Some a \<Longrightarrow> length a = 16"
  by (auto simp: parse_ipv6_def Let_def v6_inv_def split: if_splits option.splits
      dest!: v6_loop_inv)

text \<open>Every address \<open>ParseIP\<close> accepts has 16 bytes.\<close>

lemma ParseIP_length: "ParseIP s = Some a \<Longrightarrow> length a = 16"
  by (auto simp: ParseIP_def v4_prefix_def split: if_splits list.splits
      dest: parse_ipv6_length parse_ipv4_fields_length)

text \<open>A dotted quad is read as written, and printing it gives the text back.\<close>

lemma dec_string_hd_zero: "0 < n \<Longrightarrow> hd (dec_string n) \<noteq> CHR ''0''"
proof (induction n rule: dec_string.induct)
  case (1 n)
  show ?case
  proof (cases "n < 10")
    case True
    then have "byte (digit_char n) \<noteq> byte CHR ''0''"
      using 1(2) by (simp add: digit_char_def) (simp add: byte_def)
    then show ?thesis using True by (subst dec_string.simps) auto
  next
    case False
    then show ?thesis using 1 by (subst dec_string.simps) simp
  qed
qed

lemma octet_of_dec_string: "n < 256 \<Longrightarrow> octet_of (dec_string n) = Some n"
  using dec_string_digits [of n] dec_string_hd_zero [of n]
  by (cases "n = 0") (auto simp: octet_of_def, simp add: dec_string.simps [of 0])

lemma dec_string_no_dot: "CHR ''.'' \<notin> set (dec_string n)"
  using dec_string_digits [of n] by (auto simp: list_all_iff is_digit_def byte_def)

lemma parse_ipv4_print:
  assumes "length q = 4" "\<forall>n \<in> set q. n < 256"
  shows "parse_ipv4_fields (join_with ''.'' (map dec_string q)) = Some q"
proof -
  have "split_on CHR ''.'' (join_with ''.'' (map dec_string q)) = map dec_string q"
    using assms(1) by (intro split_join) (auto simp: dec_string_no_dot)
  moreover have "map (the \<circ> octet_of \<circ> dec_string) q = q"
    using assms(2) by (intro map_idI) (simp add: octet_of_dec_string)
  ultimately show ?thesis using assms
    by (simp add: parse_ipv4_fields_def list_all_iff octet_of_dec_string)
qed

end
