(* ===== verification/Go_Unquote.thy ===== *)
theory Go_Unquote
  imports Net_IP
begin

section \<open>strconv.Unquote\<close>

text \<open>
  \<open>strconv.Unquote\<close>, which \<open>parseCAAStringValue\<close> applies to quoted CAA values: a string in
  double quotes with Go's escapes, a single rune in single quotes, or a raw string in back quotes.
  \<open>None\<close> is \<open>ErrSyntax\<close>.
\<close>

text \<open>\<open>utf8.AppendRune\<close>\<close>

definition encode_rune :: "nat \<Rightarrow> string" where
  "encode_rune r0 =
     (let r = (if 0x10FFFF < r0 \<or> 0xD800 \<le> r0 \<and> r0 \<le> 0xDFFF then 0xFFFD else r0) in
      map char_of
       (if r < 0x80 then [r]
        else if r < 0x800 then [0xC0 + r div 64, 0x80 + r mod 64]
        else if r < 0x10000 then [0xE0 + r div 4096, 0x80 + r div 64 mod 64, 0x80 + r mod 64]
        else [0xF0 + r div 262144, 0x80 + r div 4096 mod 64, 0x80 + r div 64 mod 64, 0x80 + r mod 64]))"

definition ValidRune :: "nat \<Rightarrow> bool" where
  "ValidRune r \<longleftrightarrow> r < 0xD800 \<or> 0xDFFF < r \<and> r \<le> 0x10FFFF"

definition simple_escapes :: "(char \<times> nat) list" where
  "simple_escapes = [(CHR ''a'', 7), (CHR ''b'', 8), (CHR ''f'', 12), (CHR ''n'', 10), (CHR ''r'', 13),
     (CHR ''t'', 9), (CHR ''v'', 11), (CHR 0x5C, 0x5C)]"

definition is_octal :: "char \<Rightarrow> bool" where
  "is_octal c \<longleftrightarrow> in_range 48 55 c"

text \<open>The hex and octal escapes of \<open>strconv.UnquoteChar\<close>, after the letter or first digit.\<close>

definition unquote_hex :: "char \<Rightarrow> string \<Rightarrow> (string \<times> string) option" where
  "unquote_hex e t =
     (let n = (if e = CHR ''x'' then 2 else if e = CHR ''u'' then 4 else 8); ds = take n t in
      if length t < n \<or> \<not> list_all is_hex ds then None
      else if e = CHR ''x'' then Some ([char_of (hex_num ds)], drop n t)
      else if \<not> ValidRune (hex_num ds) then None
      else Some (encode_rune (hex_num ds), drop n t))"

definition unquote_octal :: "char \<Rightarrow> string \<Rightarrow> (string \<times> string) option" where
  "unquote_octal e t =
     (case t of a # b # u \<Rightarrow>
        (let v = 64 * digit_val e + 8 * digit_val a + digit_val b in
         if \<not> is_octal a \<or> \<not> is_octal b \<or> 255 < v then None else Some ([char_of v], u))
      | _ \<Rightarrow> None)"

definition unquote_escape :: "char \<Rightarrow> string \<Rightarrow> (string \<times> string) option" where
  "unquote_escape quote r =
     (case r of [] \<Rightarrow> None
      | e # t \<Rightarrow>
        (case map_of simple_escapes e of
           Some v \<Rightarrow> Some ([char_of v], t)
         | None \<Rightarrow>
           (if e = CHR ''x'' \<or> e = CHR ''u'' \<or> e = CHR ''U'' then unquote_hex e t
            else if is_octal e then unquote_octal e t
            else if e = CHR 0x27 \<or> e = CHR 0x22 then (if e = quote then Some ([e], t) else None)
            else None)))"

text \<open>
  \<open>strconv.UnquoteChar\<close>: the bytes of the first (possibly escaped) character, and the rest.
\<close>

definition unquote_char :: "char \<Rightarrow> string \<Rightarrow> (string \<times> string) option" where
  "unquote_char quote s =
     (case s of [] \<Rightarrow> None
      | c # r \<Rightarrow>
        (if c = quote then None
         else if 128 \<le> byte c then Some (encode_rune (fst (decode_rune s)), drop (snd (decode_rune s)) s)
         else if c \<noteq> CHR 0x5C then Some ([c], r)
         else unquote_escape quote r))"

lemma unquote_hex_shorter: "unquote_hex e t = Some (out, r) \<Longrightarrow> length r \<le> length t"
  by (auto simp: unquote_hex_def Let_def split: if_splits)

lemma unquote_octal_shorter: "unquote_octal e t = Some (out, r) \<Longrightarrow> length r \<le> length t"
  by (auto simp: unquote_octal_def Let_def split: if_splits list.splits)

lemma unquote_escape_shorter: "unquote_escape quote s = Some (out, r) \<Longrightarrow> length r \<le> length s"
  by (auto simp: unquote_escape_def split: if_splits list.splits option.splits
      dest!: unquote_hex_shorter unquote_octal_shorter)

lemma length_decode_drop: "s \<noteq> [] \<Longrightarrow> length (drop (snd (decode_rune s)) s) < length s"
  using decode_rune_width_pos [of s] by (simp add: diff_less)

lemma unquote_char_shorter:
  "unquote_char quote s = Some (out, r) \<Longrightarrow> length r < length s"
  using length_decode_drop [of s]
  by (cases s) (auto simp: unquote_char_def split: if_splits dest!: unquote_escape_shorter
      simp del: decode_rune.simps)

text \<open>The body of a double-quoted string up to and including the closing quote.\<close>

function unquote_dq :: "string \<Rightarrow> (string \<times> string) option" where
  "unquote_dq s =
     (case s of [] \<Rightarrow> None
      | c # r \<Rightarrow>
        (if c = CHR 0x22 then Some ([], r)
         else if c = CHR 0x0A then None
         else case unquote_char CHR 0x22 s of
           None \<Rightarrow> None
         | Some (out, t) \<Rightarrow> map_option (\<lambda>(o', u). (out @ o', u)) (unquote_dq t)))"
  by pat_completeness auto
termination
  by (relation "measure length") (auto dest: unquote_char_shorter)

declare unquote_dq.simps [simp del]

text \<open>
  The fast path of the source (no escape, no newline, valid UTF-8) returns the body unchanged;
  the loop re-encodes an invalid byte as the replacement character.
\<close>

definition Unquote :: "string \<Rightarrow> string option" where
  "Unquote s =
     (case s of [] \<Rightarrow> None
      | q # r \<Rightarrow>
        (if q \<notin> set r then None
         else let body = takeWhile (\<lambda>c. c \<noteq> q) r; rest = tl (dropWhile (\<lambda>c. c \<noteq> q) r);
                  plain = CHR 0x5C \<notin> set body \<and> CHR 0x0A \<notin> set body in
           if q = CHR 0x60 then
             (if rest \<noteq> [] then None else Some (filter (\<lambda>c. c \<noteq> CHR 0x0D) body))
           else if q = CHR 0x22 then
             (if plain \<and> ValidString body then (if rest \<noteq> [] then None else Some body)
              else case unquote_dq r of Some (out, []) \<Rightarrow> Some out | _ \<Rightarrow> None)
           else if q = CHR 0x27 then
             (if plain \<and> snd (decode_rune body) = length body
                 \<and> decode_rune body \<noteq> (0xFFFD, 1)
              then (if rest \<noteq> [] then None else Some body)
              else if r \<noteq> [] \<and> hd r = CHR 0x0A then None
              else case unquote_char q r of
                Some (out, t) \<Rightarrow> (if t = [q] then Some out else None)
              | None \<Rightarrow> None)
           else None))"

text \<open>Quoting a plain value and unquoting it gives the value back.\<close>

lemma Unquote_quoted:
  assumes "CHR 0x22 \<notin> set s" "CHR 0x5C \<notin> set s" "CHR 0x0A \<notin> set s" "ValidString s"
  shows "Unquote ([CHR 0x22] @ s @ [CHR 0x22]) = Some s"
proof -
  have "takeWhile (\<lambda>c. c \<noteq> CHR 0x22) (s @ [CHR 0x22]) = s"
    and "dropWhile (\<lambda>c. c \<noteq> CHR 0x22) (s @ [CHR 0x22]) = [CHR 0x22]"
    using assms(1) by (induction s) auto
  then show ?thesis using assms by (simp add: Unquote_def Let_def)
qed

end
