(* ===== verification/Zone_Validation.thy ===== *)
theory Zone_Validation
  imports Zone_Model Regex Go_Unquote "HOL-Library.AList"
begin

section \<open>Validation of zones and records (pkg/model/validation.go)\<close>

text \<open>
  Every validator of \<open>pkg/model/validation.go\<close>, with its error values. The lemmas give each
  validator a declarative reading: a domain name is accepted exactly when its labels are
  well-formed, an RRset scan succeeds exactly when the zone satisfies the DNS constraints between
  records, and so on; they are in the theories \<open>Name_Facts\<close>, \<open>RRset_Facts\<close> and \<open>TXT_Facts\<close>. A
  \<open>*Zone\<close> argument is an \<open>option\<close> (\<open>None\<close> is the nil pointer); records and SOA are only ever
  passed as addresses of values, so they are values here.
\<close>

subsection \<open>Errors\<close>

datatype model_error =
    ErrNilZone
  | ErrInvalidRecordType
  | ErrInvalidRecordValue
  | ErrInvalidTTL
  | ErrDomainEmpty | ErrDomainTooLong | ErrDomainFormat string | ErrLabelTooLong string
  | ErrTargetAt | ErrZoneNameAt | ErrZoneNameRoot
  | ErrExpandedTarget string model_error
  | ErrNameEmpty | ErrNameRoot | ErrNameTooLong | ErrNameControl | ErrNameEmptyLabel
  | ErrWildcardNotLeftmost | ErrWildcardPartial | ErrRecordLabel string | ErrLabelHyphen string
  | ErrExpandedName string model_error | ErrOutsideZone string string
  | ErrNotIP string | ErrNotIPv4 string | ErrNotIPv6 string
  | ErrMXShape string | ErrMXPriority string
  | ErrSRVShape string | ErrSRVPriority string | ErrSRVWeight string | ErrSRVPort string
  | ErrCAAShape string | ErrCAAFlags string | ErrCAATag string | ErrCAANoValue
  | ErrCAAQuoted string | ErrCAAUtf8 | ErrCAAControl
  | ErrTXTTooLong | ErrTXTUtf8 | ErrTXTControl
  | ErrPriorityMismatch string uint16 uint16
  | ErrMName model_error | ErrRName model_error
  | ErrRefreshZero | ErrRetryZero | ErrExpireZero | ErrMinimumZero
  | ErrRecordName model_error | ErrTTLZero
  | ErrZoneName model_error | ErrSOA model_error | ErrRecordAt nat model_error
  | ErrDuplicateRecord nat | ErrCNAMEAtApex string | ErrMultipleCNAME string
  | ErrInconsistentTTL string string nat uint32 uint32 | ErrCNAMECoexists string
  | ErrNoApexNS string

subsection \<open>Compiled expressions\<close>

definition alnum_hyphen :: "char \<Rightarrow> bool" where
  "alnum_hyphen c \<longleftrightarrow> is_alnum c \<or> c = CHR ''-''"

definition dnsLabel :: rexp where
  "dnsLabel = RSeq (RClass is_alnum) (ROpt (RSeq (RUpTo 61 (RClass alnum_hyphen)) (RClass is_alnum)))"

definition dnsNameRegex :: rexp where
  "dnsNameRegex = RSeq (RStar (RSeq dnsLabel (RChar CHR ''.'')))
     (RSeq dnsLabel (ROpt (RChar CHR ''.'')))"

definition word_char :: "char \<Rightarrow> bool" where
  "word_char c \<longleftrightarrow> is_alnum c \<or> c = CHR ''_''"

definition recordLabelRegex :: rexp where
  "recordLabelRegex = RSeq (RClass word_char) (RStar (RClass (\<lambda>c. word_char c \<or> c = CHR ''-'')))"

text \<open>\<open>controlOrSpaceRe\<close> is not anchored: it matches when some byte is in its class.\<close>

definition controlOrSpace :: "char \<Rightarrow> bool" where
  "controlOrSpace c \<longleftrightarrow> byte c \<le> 0x20 \<or> byte c = 0x7f"

definition caaTagRegex :: rexp where
  "caaTagRegex = RPlus (RClass is_alnum)"

definition MaxTXTCharacterStringLength :: nat where
  "MaxTXTCharacterStringLength = 255"

definition MaxTXTValueLength :: nat where
  "MaxTXTValueLength = 65279"

subsection \<open>Names\<close>

definition ValidateDomainName :: "string \<Rightarrow> model_error option" where
  "ValidateDomainName name =
     fail_if (name = []) ErrDomainEmpty
     (if name = ''@'' \<or> name = ''.'' then None
      else fail_if (253 < length name) ErrDomainTooLong
        (fail_if (\<not> matches dnsNameRegex name) (ErrDomainFormat name)
          (check_range (\<lambda>_ label. if 63 < length label then Some (ErrLabelTooLong label) else None) 0
            (split_on CHR ''.'' (TrimSuffix name ''.'')))))"

definition ValidateDomainTarget :: "string \<Rightarrow> model_error option" where
  "ValidateDomainTarget name = fail_if (name = ''@'') ErrTargetAt (ValidateDomainName name)"

definition ValidateZoneName :: "string \<Rightarrow> model_error option" where
  "ValidateZoneName name =
     fail_if (name = ''@'') ErrZoneNameAt (fail_if (name = ''.'') ErrZoneNameRoot
       (ValidateDomainName name))"

definition ValidateDomainTargetInZone :: "string \<Rightarrow> string \<Rightarrow> model_error option" where
  "ValidateDomainTargetInZone name zoneName =
     andthen (ValidateDomainTarget name)
       (let target = NormalizeDomainTargetName name zoneName
        in map_option (ErrExpandedTarget target) (ValidateDomainTarget target))"

definition validate_record_label :: "nat \<Rightarrow> string \<Rightarrow> model_error option" where
  "validate_record_label i label =
     fail_if (label = []) ErrNameEmptyLabel
     (fail_if (63 < length label) (ErrLabelTooLong label)
      (if label = ''*'' then fail_if (i \<noteq> 0) ErrWildcardNotLeftmost None
       else fail_if (Contains label ''*'') ErrWildcardPartial
        (fail_if (\<not> matches recordLabelRegex label) (ErrRecordLabel label)
         (fail_if (HasPrefix label ''-'' \<or> HasSuffix label ''-'') (ErrLabelHyphen label) None))))"

definition ValidateRecordName :: "string \<Rightarrow> model_error option" where
  "ValidateRecordName name =
     fail_if (name = []) ErrNameEmpty
     (if name = ''@'' then None
      else fail_if (name = ''.'') ErrNameRoot
       (fail_if (253 < length name) ErrNameTooLong
        (fail_if (list_ex controlOrSpace name) ErrNameControl
         (fail_if (Contains name ''..'') ErrNameEmptyLabel
          (let trimmed = TrimSuffix name ''.'' in
           fail_if (trimmed = []) ErrNameEmpty
            (check_range validate_record_label 0 (split_on CHR ''.'' trimmed)))))))"

definition ValidateRecordNameInZone :: "string \<Rightarrow> string \<Rightarrow> model_error option" where
  "ValidateRecordNameInZone recordName zoneName =
     andthen (ValidateRecordName recordName)
     (if recordName = ''@'' then None
      else let owner = NormalizeRecordOwnerName recordName zoneName;
               zone = NormalizeZoneName zoneName
       in andthen (map_option (ErrExpandedName owner) (ValidateRecordName owner))
          (if owner = zone \<or> HasSuffix owner (''.'' @ zone) then None
           else Some (ErrOutsideZone recordName zoneName)))"

subsection \<open>Record data\<close>

record MXRData =
  mx_Priority :: uint16
  mx_Target :: string

record SRVRData =
  srv_Priority :: uint16
  srv_Weight :: uint16
  srv_Port :: uint16
  srv_Target :: string

record CAARData =
  caa_Flags :: uint8
  caa_Tag :: string
  caa_Value :: string

definition parseUint16Field :: "string \<Rightarrow> uint16 option" where
  "parseUint16Field value =
     (case Atoi value of None \<Rightarrow> None
      | Some n \<Rightarrow> if n < 0 \<or> 65535 < n then None else Some (word_of_int n))"

definition ParseMXValue :: "string \<Rightarrow> model_error + MXRData" where
  "ParseMXValue value =
     (case Fields value of
        [p, t] \<Rightarrow>
          (case parseUint16Field p of
             None \<Rightarrow> Inl (ErrMXPriority p)
           | Some n \<Rightarrow> Inr \<lparr>mx_Priority = n, mx_Target = t\<rparr>)
      | _ \<Rightarrow> Inl (ErrMXShape value))"

definition ParseSRVValue :: "string \<Rightarrow> model_error + SRVRData" where
  "ParseSRVValue value =
     (case Fields value of
        [p, w, q, t] \<Rightarrow>
          (case parseUint16Field p of None \<Rightarrow> Inl (ErrSRVPriority p)
           | Some pn \<Rightarrow>
             (case parseUint16Field w of None \<Rightarrow> Inl (ErrSRVWeight w)
              | Some wn \<Rightarrow>
                (case parseUint16Field q of None \<Rightarrow> Inl (ErrSRVPort q)
                 | Some qn \<Rightarrow> Inr \<lparr>srv_Priority = pn, srv_Weight = wn, srv_Port = qn, srv_Target = t\<rparr>)))
      | _ \<Rightarrow> Inl (ErrSRVShape value))"

definition ValidateMXValue :: "string \<Rightarrow> model_error option" where
  "ValidateMXValue value =
     (case ParseMXValue value of Inl e \<Rightarrow> Some e | Inr d \<Rightarrow> ValidateDomainTarget (mx_Target d))"

definition ValidateSRVValue :: "string \<Rightarrow> model_error option" where
  "ValidateSRVValue value =
     (case ParseSRVValue value of Inl e \<Rightarrow> Some e | Inr d \<Rightarrow> ValidateDomainTarget (srv_Target d))"

definition unsafeTXTControlCharacter :: "nat \<Rightarrow> bool" where
  "unsafeTXTControlCharacter r \<longleftrightarrow> r < 0x20 \<or> r = 0x7f"

definition parseCAAStringValue :: "string \<Rightarrow> model_error + string" where
  "parseCAAStringValue raw =
     (if raw = [] then Inl ErrCAANoValue
      else bindE
        (if HasPrefix raw [CHR 0x22] \<or> HasSuffix raw [CHR 0x22] \<or> Contains raw [CHR 0x22]
         then (case Unquote raw of None \<Rightarrow> Inl (ErrCAAQuoted raw) | Some u \<Rightarrow> Inr u) else Inr raw)
        (\<lambda>v. if \<not> ValidString v then Inl ErrCAAUtf8
             else if list_ex (unsafeTXTControlCharacter \<circ> fst) (runes v) then Inl ErrCAAControl
             else Inr v))"

definition ParseCAAValue :: "string \<Rightarrow> model_error + CAARData" where
  "ParseCAAValue value =
     (let trimmed = TrimSpace value; parts = Fields value in
      if trimmed = [] then Inl (ErrCAAShape value)
      else if length parts < 3 then Inl (ErrCAAShape value)
      else case Atoi (parts ! 0) of None \<Rightarrow> Inl (ErrCAAFlags (parts ! 0))
      | Some flags \<Rightarrow>
        (if flags < 0 \<or> 255 < flags then Inl (ErrCAAFlags (parts ! 0))
         else let tag = parts ! 1 in
           if \<not> matches caaTagRegex tag then Inl (ErrCAATag tag)
           else let afterFlags = TrimSpace (TrimPrefix trimmed (parts ! 0));
                    rawValue = TrimSpace (TrimPrefix afterFlags tag)
             in bindE (parseCAAStringValue rawValue)
                  (\<lambda>v. Inr \<lparr>caa_Flags = word_of_int flags, caa_Tag = tag, caa_Value = v\<rparr>)))"

definition ValidateCAAValue :: "string \<Rightarrow> model_error option" where
  "ValidateCAAValue value = errOf (ParseCAAValue value)"

definition ValidateTXTValue :: "string \<Rightarrow> model_error option" where
  "ValidateTXTValue value =
     fail_if (MaxTXTValueLength < length value) ErrTXTTooLong
     (fail_if (\<not> ValidString value) ErrTXTUtf8
      (fail_if (list_ex (unsafeTXTControlCharacter \<circ> fst) (runes value)) ErrTXTControl None))"

definition ValidateIPv4 :: "string \<Rightarrow> model_error option" where
  "ValidateIPv4 s =
     (case ParseIP s of None \<Rightarrow> Some (ErrNotIP s)
      | Some parsed \<Rightarrow> if To4 parsed = None then Some (ErrNotIPv4 s) else None)"

definition ValidateIPv6 :: "string \<Rightarrow> model_error option" where
  "ValidateIPv6 s =
     (case ParseIP s of None \<Rightarrow> Some (ErrNotIP s)
      | Some parsed \<Rightarrow> if To4 parsed \<noteq> None then Some (ErrNotIPv6 s) else None)"

definition ValidateRecordValue :: "string \<Rightarrow> string \<Rightarrow> model_error option" where
  "ValidateRecordValue recordType value =
     (if recordType = RecordTypeTXT then ValidateTXTValue value
      else if value = [] then Some ErrInvalidRecordValue
      else if recordType = RecordTypeA then ValidateIPv4 value
      else if recordType = RecordTypeAAAA then ValidateIPv6 value
      else if recordType \<in> {RecordTypeCNAME, RecordTypeNS, RecordTypePTR} then ValidateDomainTarget value
      else if recordType = RecordTypeMX then ValidateMXValue value
      else if recordType = RecordTypeSRV then ValidateSRVValue value
      else if recordType = RecordTypeCAA then ValidateCAAValue value
      else None)"

definition ValidateRecordValueInZone :: "string \<Rightarrow> string \<Rightarrow> string \<Rightarrow> model_error option" where
  "ValidateRecordValueInZone recordType value zoneName =
     (if recordType \<in> {RecordTypeCNAME, RecordTypeNS, RecordTypePTR}
      then ValidateDomainTargetInZone value zoneName
      else if recordType = RecordTypeMX then
        (case ParseMXValue value of Inl e \<Rightarrow> Some e
         | Inr d \<Rightarrow> ValidateDomainTargetInZone (mx_Target d) zoneName)
      else if recordType = RecordTypeSRV then
        (case ParseSRVValue value of Inl e \<Rightarrow> Some e
         | Inr d \<Rightarrow> ValidateDomainTargetInZone (srv_Target d) zoneName)
      else None)"

subsection \<open>Derived priority\<close>

text \<open>\<open>recordPriorityFromValue\<close>: \<open>Inr None\<close> is "has no priority".\<close>

definition recordPriorityFromValue :: "string \<Rightarrow> string \<Rightarrow> model_error + uint16 option" where
  "recordPriorityFromValue recordType value =
     (if recordType = RecordTypeMX then bindE (ParseMXValue value) (\<lambda>d. Inr (Some (mx_Priority d)))
      else if recordType = RecordTypeSRV then bindE (ParseSRVValue value) (\<lambda>d. Inr (Some (srv_Priority d)))
      else Inr None)"

definition normalizeRecordDerivedFields :: "bool \<Rightarrow> Record \<Rightarrow> model_error + Record" where
  "normalizeRecordDerivedFields rejectMismatch record =
     bindE (recordPriorityFromValue (r_Type record) (r_Value record))
      (\<lambda>pr. case pr of
         None \<Rightarrow> Inr (record\<lparr>r_Priority := None\<rparr>)
       | Some priority \<Rightarrow>
         (case r_Priority record of
            Some q \<Rightarrow> if rejectMismatch \<and> q \<noteq> priority
                      then Inl (ErrPriorityMismatch (r_Type record) q priority)
                      else Inr (record\<lparr>r_Priority := Some priority\<rparr>)
          | None \<Rightarrow> Inr (record\<lparr>r_Priority := Some priority\<rparr>)))"

fun normalize_records :: "bool \<Rightarrow> nat \<Rightarrow> Record list \<Rightarrow> model_error + Record list" where
  "normalize_records rej i [] = Inr []"
| "normalize_records rej i (r # rs) =
     (case normalizeRecordDerivedFields rej r of
        Inl e \<Rightarrow> Inl (ErrRecordAt i e)
      | Inr r' \<Rightarrow> bindE (normalize_records rej (Suc i) rs) (\<lambda>rs'. Inr (r' # rs')))"

definition NormalizeZoneDerivedFields :: "Zone option \<Rightarrow> model_error + Zone" where
  "NormalizeZoneDerivedFields zp =
     (case zp of None \<Rightarrow> Inl ErrNilZone
      | Some zone \<Rightarrow>
        bindE (normalize_records True 0 (z_Records zone)) (\<lambda>rs. Inr (zone\<lparr>z_Records := rs\<rparr>)))"

definition RepairZoneDerivedFields :: "Zone option \<Rightarrow> model_error + Zone" where
  "RepairZoneDerivedFields zp =
     (case zp of None \<Rightarrow> Inl ErrNilZone
      | Some zone \<Rightarrow>
        bindE (normalize_records False 0 (z_Records zone)) (\<lambda>rs. Inr (zone\<lparr>z_Records := rs\<rparr>)))"

definition ValidateRecordPriority :: "Record \<Rightarrow> model_error option" where
  "ValidateRecordPriority record =
     (case recordPriorityFromValue (r_Type record) (r_Value record) of
        Inl e \<Rightarrow> Some e
      | Inr None \<Rightarrow> None
      | Inr (Some priority) \<Rightarrow>
        (case r_Priority record of
           None \<Rightarrow> None
         | Some q \<Rightarrow> if q \<noteq> priority then Some (ErrPriorityMismatch (r_Type record) q priority) else None))"

subsection \<open>Records and the SOA\<close>

definition ValidateSOA :: "SOARecord \<Rightarrow> model_error option" where
  "ValidateSOA soa =
     andthen (map_option ErrMName (ValidateDomainTarget (soa_MName soa)))
     (andthen (map_option ErrRName (ValidateDomainTarget (soa_RName soa)))
      (fail_if (soa_Refresh soa = 0) ErrRefreshZero
       (fail_if (soa_Retry soa = 0) ErrRetryZero
        (fail_if (soa_Expire soa = 0) ErrExpireZero
         (fail_if (soa_Minimum soa = 0) ErrMinimumZero None)))))"

definition ValidateSOAInZone :: "SOARecord \<Rightarrow> string \<Rightarrow> model_error option" where
  "ValidateSOAInZone soa zoneName =
     andthen (ValidateSOA soa)
     (andthen (map_option ErrMName (ValidateDomainTargetInZone (soa_MName soa) zoneName))
      (map_option ErrRName (ValidateDomainTargetInZone (soa_RName soa) zoneName)))"

definition ValidateRecord :: "Record \<Rightarrow> model_error option" where
  "ValidateRecord record =
     andthen (map_option ErrRecordName (ValidateRecordName (r_Name record)))
     (fail_if (\<not> IsValidRecordType (r_Type record)) ErrInvalidRecordType
      (fail_if (r_TTL record = 0) ErrTTLZero
       (fail_if (2147483647 < r_TTL record) ErrInvalidTTL
        (andthen (ValidateRecordValue (r_Type record) (r_Value record))
          (ValidateRecordPriority record)))))"

subsection \<open>Constraints between records\<close>

definition canonicalRecordValue :: "string \<Rightarrow> string \<Rightarrow> string \<Rightarrow> string" where
  "canonicalRecordValue recordType value zoneName =
     (if recordType = RecordTypeA \<or> recordType = RecordTypeAAAA then
        (case ParseIP value of Some a \<Rightarrow> ip_string a | None \<Rightarrow> value)
      else if recordType \<in> {RecordTypeCNAME, RecordTypeNS, RecordTypePTR} then
        NormalizeDomainTargetName value zoneName
      else if recordType = RecordTypeMX then
        (case ParseMXValue value of
           Inr d \<Rightarrow> dec_string (unat (mx_Priority d)) @ '' '' @ NormalizeDomainTargetName (mx_Target d) zoneName
         | Inl _ \<Rightarrow> value)
      else if recordType = RecordTypeSRV then
        (case ParseSRVValue value of
           Inr d \<Rightarrow> dec_string (unat (srv_Priority d)) @ '' '' @ dec_string (unat (srv_Weight d)) @ '' ''
             @ dec_string (unat (srv_Port d)) @ '' '' @ NormalizeDomainTargetName (srv_Target d) zoneName
         | Inl _ \<Rightarrow> value)
      else value)"

definition canonicalRecordOwnerName :: "string \<Rightarrow> string \<Rightarrow> string" where
  "canonicalRecordOwnerName recordName zoneName = NormalizeRecordOwnerName recordName zoneName"

definition canonicalRecordDuplicateKey :: "Record \<Rightarrow> string \<Rightarrow> string \<Rightarrow> string" where
  "canonicalRecordDuplicateKey record owner zoneName =
     join_with [CHR 0x00]
       [owner, r_Type record, dec_string (unat (r_TTL record)),
        canonicalRecordValue (r_Type record) (r_Value record) zoneName]"

text \<open>The per-owner state; Go's maps are association lists with distinct keys.\<close>

record ownerState =
  o_cnameIndex :: int
  o_types :: "(string \<times> nat) list"
  o_rrsetTTLs :: "(string \<times> uint32) list"
  o_rrsetIndex :: "(string \<times> nat) list"

record rrScan =
  owners :: "(string \<times> ownerState) list"
  seenRecords :: "(string \<times> nat) list"
  hasApexNS :: bool

definition newOwnerState :: ownerState where
  "newOwnerState = \<lparr>o_cnameIndex = - 1, o_types = [], o_rrsetTTLs = [], o_rrsetIndex = []\<rparr>"

definition owner_state :: "rrScan \<Rightarrow> string \<Rightarrow> ownerState" where
  "owner_state st owner = (case map_of (owners st) owner of None \<Rightarrow> newOwnerState | Some s \<Rightarrow> s)"

text \<open>
  \<open>state.types[record.Type]++; owners[owner] = state\<close>, with the key recorded as seen.
\<close>

definition rrset_commit :: "string \<Rightarrow> string \<Rightarrow> string \<Rightarrow> nat \<Rightarrow> bool \<Rightarrow> ownerState \<Rightarrow> rrScan \<Rightarrow> rrScan" where
  "rrset_commit owner t duplicateKey i apexNS state st =
     (let n = (case map_of (o_types state) t of None \<Rightarrow> 0 | Some n \<Rightarrow> n)
      in \<lparr>owners = AList.update owner (state\<lparr>o_types := AList.update t (Suc n) (o_types state)\<rparr>) (owners st),
          seenRecords = AList.update duplicateKey i (seenRecords st),
          hasApexNS = apexNS\<rparr>)"

text \<open>The body of the loop over the records.\<close>

definition rrset_step :: "string \<Rightarrow> nat \<Rightarrow> Record \<Rightarrow> rrScan \<Rightarrow> model_error + rrScan" where
  "rrset_step zoneName i record st =
     (let owner = canonicalRecordOwnerName (r_Name record) zoneName;
          t = r_Type record;
          apexNS = (if owner = zoneName \<and> t = RecordTypeNS then True else hasApexNS st);
          duplicateKey = canonicalRecordDuplicateKey record owner zoneName
      in case map_of (seenRecords st) duplicateKey of
        Some firstIndex \<Rightarrow> Inl (ErrRecordAt i (ErrDuplicateRecord firstIndex))
      | None \<Rightarrow>
        (let state = owner_state st owner in
         if t = RecordTypeCNAME \<and> owner = zoneName then Inl (ErrRecordAt i (ErrCNAMEAtApex zoneName))
         else if t = RecordTypeCNAME \<and> 0 \<le> o_cnameIndex state then Inl (ErrRecordAt i (ErrMultipleCNAME owner))
         else let state1 = (if t = RecordTypeCNAME then state\<lparr>o_cnameIndex := int i\<rparr> else state) in
           case map_of (o_rrsetTTLs state1) t of
             Some ttl \<Rightarrow>
               (if ttl \<noteq> r_TTL record
                then Inl (ErrRecordAt i (ErrInconsistentTTL owner t
                  (the (map_of (o_rrsetIndex state1) t)) ttl (r_TTL record)))
                else Inr (rrset_commit owner t duplicateKey i apexNS state1 st))
           | None \<Rightarrow>
               Inr (rrset_commit owner t duplicateKey i apexNS
                 (state1\<lparr>o_rrsetTTLs := AList.update t (r_TTL record) (o_rrsetTTLs state1),
                         o_rrsetIndex := AList.update t i (o_rrsetIndex state1)\<rparr>) st)))"

fun rrset_scan :: "string \<Rightarrow> nat \<Rightarrow> Record list \<Rightarrow> rrScan \<Rightarrow> model_error + rrScan" where
  "rrset_scan zoneName i [] st = Inr st"
| "rrset_scan zoneName i (r # rs) st =
     bindE (rrset_step zoneName i r st) (rrset_scan zoneName (Suc i) rs)"

text \<open>
  The loop over the map \<open>owners\<close>. Go visits a map in an unspecified order, which only decides
  which of several violations is reported; the model takes the order of insertion.
\<close>

fun cname_exclusive :: "(string \<times> ownerState) list \<Rightarrow> model_error option" where
  "cname_exclusive [] = None"
| "cname_exclusive ((owner, state) # rest) =
     (if 0 \<le> o_cnameIndex state \<and> 1 < length (o_types state)
      then Some (ErrRecordAt (nat (o_cnameIndex state)) (ErrCNAMECoexists owner))
      else cname_exclusive rest)"

definition emptyScan :: rrScan where
  "emptyScan = \<lparr>owners = [], seenRecords = [], hasApexNS = False\<rparr>"

definition ValidateRecordSetConstraints :: "Zone option \<Rightarrow> model_error option" where
  "ValidateRecordSetConstraints zp =
     (case zp of None \<Rightarrow> Some ErrNilZone
      | Some zone \<Rightarrow>
        (let zoneName = NormalizeZoneName (z_Name zone) in
         case rrset_scan zoneName 0 (z_Records zone) emptyScan of
           Inl e \<Rightarrow> Some e
         | Inr st \<Rightarrow> andthen (cname_exclusive (owners st))
             (fail_if (\<not> hasApexNS st) (ErrNoApexNS zoneName) None)))"

definition validate_record_in_zone :: "string \<Rightarrow> nat \<Rightarrow> Record \<Rightarrow> model_error option" where
  "validate_record_in_zone zoneName i record =
     map_option (ErrRecordAt i)
      (andthen (ValidateRecord record)
       (andthen (ValidateRecordNameInZone (r_Name record) zoneName)
         (ValidateRecordValueInZone (r_Type record) (r_Value record) zoneName)))"

definition ValidateZone :: "Zone option \<Rightarrow> model_error option" where
  "ValidateZone zp =
     (case zp of None \<Rightarrow> Some ErrNilZone
      | Some zone \<Rightarrow>
        andthen (map_option ErrZoneName (ValidateZoneName (z_Name zone)))
        (andthen (map_option ErrSOA (ValidateSOAInZone (z_SOA zone) (z_Name zone)))
         (andthen (check_range (validate_record_in_zone (z_Name zone)) 0 (z_Records zone))
           (ValidateRecordSetConstraints (Some zone)))))"

subsection \<open>TXT character-strings\<close>

text \<open>\<open>for end > 0 && !utf8.RuneStart(value[end]) { end-- }\<close>\<close>

fun back_up :: "string \<Rightarrow> nat \<Rightarrow> nat" where
  "back_up v 0 = 0"
| "back_up v (Suc e) = (if RuneStart (v ! Suc e) then Suc e else back_up v e)"

definition txt_cut :: "string \<Rightarrow> nat" where
  "txt_cut v = (let e = back_up v MaxTXTCharacterStringLength
                in if e = 0 then MaxTXTCharacterStringLength else e)"

lemma txt_cut_pos: "0 < txt_cut v"
  by (simp add: txt_cut_def MaxTXTCharacterStringLength_def Let_def)

function SplitTXTValue :: "string \<Rightarrow> string list" where
  "SplitTXTValue v =
     (if length v \<le> MaxTXTCharacterStringLength then [v]
      else take (txt_cut v) v # SplitTXTValue (drop (txt_cut v) v))"
  by pat_completeness auto
termination
  by (relation "measure length") (auto intro!: diff_less simp: txt_cut_pos not_le)

declare SplitTXTValue.simps [simp del]

end
