(* ===== verification/Serial.thy ===== *)
theory Serial
  imports Prelude
begin

section \<open>SOA serials (pkg/backend/memory.go, serial.go; agent/sync/serial.go)\<close>

text \<open>
  The controller issues serials of the form YYYYMMDDnn that must move forward; the agent compares
  serials in the sequence space of RFC 1982 and refuses to go back. All arithmetic is on 32-bit
  words, as in the source.
\<close>

record date =
  year :: int
  month :: int
  day :: int

text \<open>\<open>uint32(now.Year()*10000 + int(now.Month())*100 + now.Day())\<close>\<close>

definition today :: "date \<Rightarrow> uint32" where
  "today d = word_of_int (year d * 10000 + month d * 100 + day d)"

definition todayFirst :: "date \<Rightarrow> uint32" where
  "todayFirst d = today d * 100 + 1"

definition MaxUint32 :: uint32 where
  "MaxUint32 = 0xFFFFFFFF"

definition generateSerial :: "date \<Rightarrow> uint32 \<Rightarrow> uint32" where
  "generateSerial d currentSerial =
     (if currentSerial = 0 then todayFirst d
      else let currentDate = currentSerial div 100; currentCounter = currentSerial mod 100
        in if currentDate = today d \<and> currentCounter < 99 then currentSerial + 1
           else if currentDate < today d \<and> currentSerial < todayFirst d then todayFirst d
           else if currentSerial < MaxUint32 then currentSerial + 1
           else currentSerial)"

definition NextSOASerial :: "date \<Rightarrow> uint32 \<Rightarrow> uint32" where
  "NextSOASerial d currentSerial = generateSerial d currentSerial"

definition updateSOASerial :: "date \<Rightarrow> uint32 \<Rightarrow> uint32 \<Rightarrow> uint32" where
  "updateSOASerial d currentSerial preparedSerial =
     (if currentSerial < preparedSerial then preparedSerial else generateSerial d currentSerial)"

text \<open>The agent's comparison: \<open>candidate != current && current-candidate < 1<<31\<close>.\<close>

definition zoneSerialBefore :: "uint32 \<Rightarrow> uint32 \<Rightarrow> bool" where
  "zoneSerialBefore candidate current \<longleftrightarrow> candidate \<noteq> current \<and> current - candidate < push_bit 31 1"

subsection \<open>Facts\<close>

lemma MaxUint32_max: "(x::uint32) \<le> MaxUint32"
proof -
  have "unat x < 2 ^ 32" using unsigned_less [of x, where ?'a = nat] by simp
  then show ?thesis by (simp add: MaxUint32_def word_le_nat_alt)
qed

lemma less_MaxUint32_iff: "(x::uint32) < MaxUint32 \<longleftrightarrow> x \<noteq> MaxUint32"
  using MaxUint32_max [of x] by (auto simp: order_less_le)

lemma unat_Suc_uint32: "(x::uint32) \<noteq> MaxUint32 \<Longrightarrow> unat (x + 1) = unat x + 1"
proof -
  assume "x \<noteq> MaxUint32"
  then have "unat x < unat MaxUint32" using less_MaxUint32_iff word_less_nat_alt by blast
  then have "unat x + 1 < 2 ^ 32" by (simp add: MaxUint32_def)
  then show ?thesis by (simp add: unat_word_ariths)
qed

lemma less_Suc_uint32: "(x::uint32) \<noteq> MaxUint32 \<Longrightarrow> x < x + 1"
  by (simp add: word_less_nat_alt unat_Suc_uint32)

text \<open>The first serial of a day is odd, so it is never 0, even where the product wraps.\<close>

lemma todayFirst_odd: "odd (todayFirst d)"
proof -
  have "even (today d * 100)" by simp
  then show ?thesis by (simp add: todayFirst_def)
qed

lemma todayFirst_nonzero: "todayFirst d \<noteq> 0"
  using todayFirst_odd [of d] by (metis even_zero)

lemma counter_not_max: "x mod 100 < 99 \<Longrightarrow> (x::uint32) div 100 = t \<Longrightarrow> x \<noteq> MaxUint32 \<or> x mod 100 = 95"
  by (auto simp: MaxUint32_def)

text \<open>The date of the largest serial is not a calendar date, so no day increments past it.\<close>

definition calendar_date :: "date \<Rightarrow> bool" where
  "calendar_date d \<longleftrightarrow> 1 \<le> year d \<and> year d \<le> 9999 \<and> 1 \<le> month d \<and> month d \<le> 12 \<and> 1 \<le> day d \<and> day d \<le> 31"

lemma unat_today: "calendar_date d \<Longrightarrow> int (unat (today d)) = year d * 10000 + month d * 100 + day d"
proof -
  assume d: "calendar_date d"
  let ?n = "year d * 10000 + month d * 100 + day d"
  have "0 \<le> ?n" "?n < 2 ^ 32" using d by (auto simp: calendar_date_def)
  then have "uint (word_of_int ?n :: uint32) = ?n"
    by (simp only: unsigned_of_int take_bit_int_eq_self) (simp add: take_bit_int_eq_self)
  then show ?thesis by (simp add: today_def del: of_int_add of_int_mult)
qed

lemma today_not_max:
  assumes "calendar_date d"
  shows "MaxUint32 div 100 \<noteq> today d"
proof
  assume "MaxUint32 div 100 = today d"
  then have "int (unat (MaxUint32 div 100)) = year d * 10000 + month d * 100 + day d"
    using unat_today [OF assms] by simp
  moreover have "int (unat (MaxUint32 div 100)) = 42949672"
    by (simp add: MaxUint32_def unat_div)
  ultimately have n: "year d * 10000 + (month d * 100 + day d) = 42949672" by simp
  have "0 \<le> month d * 100 + day d" "month d * 100 + day d \<le> 1231"
    using assms by (auto simp: calendar_date_def)
  with n show False by (cases "year d \<le> 4294") auto
qed

lemma generateSerial_zero [simp]: "generateSerial d 0 = todayFirst d"
  by (simp add: generateSerial_def)

lemma generateSerial_greater:
  assumes "calendar_date d" "c \<noteq> MaxUint32"
  shows "c < generateSerial d c"
proof (cases "c = 0")
  case True
  then show ?thesis using todayFirst_nonzero by (simp add: word_gt_0)
next
  case False
  then show ?thesis using assms less_Suc_uint32 by (auto simp: generateSerial_def Let_def less_MaxUint32_iff)
qed

lemma generateSerial_max:
  assumes "calendar_date d"
  shows "generateSerial d MaxUint32 = MaxUint32"
proof -
  have "\<not> MaxUint32 < todayFirst d" using MaxUint32_max [of "todayFirst d"] by (simp add: not_less)
  moreover have "MaxUint32 \<noteq> 0" by (simp add: MaxUint32_def)
  ultimately show ?thesis using today_not_max [OF assms] by (simp add: generateSerial_def Let_def)
qed

lemma updateSOASerial_greater:
  "calendar_date d \<Longrightarrow> c \<noteq> MaxUint32 \<Longrightarrow> c < updateSOASerial d c p"
  by (simp add: updateSOASerial_def generateSerial_greater)

lemma updateSOASerial_mono: "calendar_date d \<Longrightarrow> c \<le> updateSOASerial d c p"
  using updateSOASerial_greater [of d c p] generateSerial_max [of d] MaxUint32_max [of p]
  by (cases "c = MaxUint32") (auto simp: updateSOASerial_def order_less_imp_le)

subsection \<open>The agent's order\<close>

lemma zoneSerialBefore_unat:
  "zoneSerialBefore a b \<longleftrightarrow> a \<noteq> b \<and> unat (b - a) < 2 ^ 31"
  by (simp add: zoneSerialBefore_def word_less_nat_alt push_bit_eq_mult)

lemma zoneSerialBefore_irrefl: "\<not> zoneSerialBefore a a"
  by (simp add: zoneSerialBefore_def)

lemma unat_minus_swap: "a \<noteq> b \<Longrightarrow> unat (a - b :: uint32) + unat (b - a) = 2 ^ 32"
proof -
  assume "a \<noteq> b"
  then have "unat a \<noteq> unat b" by (simp add: word_unat_eq_iff)
  moreover have "unat a < 2 ^ 32" "unat b < 2 ^ 32"
    using unsigned_less [of a, where ?'a = nat] unsigned_less [of b, where ?'a = nat] by simp_all
  ultimately show ?thesis by (auto simp: unat_sub_if' word_size)
qed

lemma zoneSerialBefore_asym: "zoneSerialBefore a b \<Longrightarrow> \<not> zoneSerialBefore b a"
  using unat_minus_swap [of a b] by (auto simp: zoneSerialBefore_unat)

text \<open>Any two serials are comparable, except two that are exactly half the space apart.\<close>

lemma zoneSerialBefore_total:
  "a = b \<or> zoneSerialBefore a b \<or> zoneSerialBefore b a \<or> unat (a - b) = 2 ^ 31"
  using unat_minus_swap [of a b] by (auto simp: zoneSerialBefore_unat)

lemma forward_not_before:
  assumes "c < n" "unat n - unat c < 2 ^ 31"
  shows "zoneSerialBefore c n" "\<not> zoneSerialBefore n c"
proof -
  have "unat (n - c) = unat n - unat c" using assms(1) by (simp add: unat_sub_if' word_less_nat_alt)
  then show "zoneSerialBefore c n" using assms by (auto simp: zoneSerialBefore_unat)
  then show "\<not> zoneSerialBefore n c" by (rule zoneSerialBefore_asym)
qed

text \<open>Up to the year 2146 the first serial of a day is in the lower half of the 32-bit numbers.\<close>

lemma todayFirst_bound:
  assumes "calendar_date d" "year d \<le> 2146"
  shows "unat (todayFirst d) < 2 ^ 31"
proof -
  let ?n = "year d * 10000 + month d * 100 + day d"
  have n: "0 \<le> ?n" "?n \<le> 21461231" using assms by (auto simp: calendar_date_def)
  have "int (unat (today d)) = ?n" by (rule unat_today [OF assms(1)])
  then have u: "unat (today d) \<le> 21461231" using n by linarith
  then have "unat (today d) * 100 + 1 < 2 ^ 32" by simp
  then have "unat (todayFirst d) = unat (today d) * 100 + 1"
    by (simp add: todayFirst_def unat_word_ariths)
  then show ?thesis using u by simp
qed

subsection \<open>Properties\<close>

text \<open>
  On every calendar date an update moves the serial strictly forward, whatever serial the caller
  prepared, unless the serial is the largest 32-bit number; then it stays.
\<close>

theorem serial_moves_forward:
  assumes "calendar_date d"
  shows "(c < updateSOASerial d c p \<or> c = MaxUint32) \<and> generateSerial d MaxUint32 = MaxUint32"
  using updateSOASerial_greater [OF assms] generateSerial_max [OF assms] by blast

theorem serial_moves_forward_witness:
  "5 < updateSOASerial \<lparr>year = 2024, month = 2, day = 29\<rparr> 5 3"
  using serial_moves_forward [of "\<lparr>year = 2024, month = 2, day = 29\<rparr>" 5 3]
  by (simp add: calendar_date_def MaxUint32_def)



end
