(* ===== verification/Zone_Store.thy ===== *)
theory Zone_Store
  imports Zone_Validation Serial "HOL-Library.Multiset"
begin

section \<open>Zone stores (pkg/backend: interface.go, create_prepare.go, validation.go, update_version.go)\<close>

text \<open>
  The contract that every storage backend promises (\<open>interface.go\<close>) is the locale \<open>zone_store\<close>: a
  store is a finite map from normalised names to zones, and each operation is specified on that
  map. A store may keep the records of a zone in an order of its own, as databases do;
  \<open>ordered_store\<close> is the stronger contract of one that does not. What a client of any backend relies on (case-insensitive lookup, optimistic locking, fresh
  versions, growing serials) is proved once in the locale.

  Every call gets the clock and the next zone version from the environment. \<open>copyZone\<close> and
  \<open>cloneDNSSECConfig\<close> exist because Go shares pointers; on the values of the model a copy is equal to
  its original. The caller's struct after a failed \<open>UpdateZone\<close> is not modelled.
\<close>

subsection \<open>Environment and errors\<close>

datatype store_error =
    ErrZoneNotFound
  | ErrZoneAlreadyExists
  | ErrConflict
  | ErrGenerateVersion
  | ErrNormalizeZone model_error
  | ErrValidateZone model_error
  | ErrContextDone
  | ErrInsertRecord
  | ErrVersionNotFound
  | ErrEtcdRequest \<comment> \<open>a request to etcd that fails\<close>
  | ErrMarshalZone
  | ErrUnmarshalZone

record env =
  e_now :: go_time
  e_date :: date
  e_version :: "string option" \<comment> \<open>the result of \<open>model.NewZoneVersion\<close>; \<open>None\<close> is an error\<close>

record ListOptions =
  lo_Limit :: int
  lo_Offset :: int
  lo_Filter :: string

record ZoneSummary =
  zs_Name :: string
  zs_Version :: string

subsection \<open>Preparing a zone for writing\<close>

definition cloneDNSSECConfig :: "DNSSECConfig option \<Rightarrow> DNSSECConfig option" where
  "cloneDNSSECConfig config =
     (case config of None \<Rightarrow> None
      | Some c \<Rightarrow> Some (c\<lparr>d_SignatureExpiration :=
          (case d_SignatureExpiration c of None \<Rightarrow> None | Some t \<Rightarrow> Some t)\<rparr>))"

definition copyZone :: "Zone option \<Rightarrow> Zone option" where
  "copyZone zp =
     (case zp of None \<Rightarrow> None
      | Some zone \<Rightarrow> Some \<lparr>z_Name = z_Name zone, z_Version = z_Version zone, z_SOA = z_SOA zone,
          z_Records = map (\<lambda>r. r\<lparr>r_Priority := (case r_Priority r of None \<Rightarrow> None | Some p \<Rightarrow> Some p)\<rparr>)
            (z_Records zone),
          z_DNSSEC = cloneDNSSECConfig (z_DNSSEC zone),
          z_CreatedAt = z_CreatedAt zone, z_UpdatedAt = z_UpdatedAt zone\<rparr>)"

text \<open>\<open>validateZoneForWrite\<close>: derive the priorities, then validate; the zone as it is stored.\<close>

definition validateZoneForWrite :: "Zone option \<Rightarrow> store_error + Zone" where
  "validateZoneForWrite zp =
     (case NormalizeZoneDerivedFields zp of
        Inl e \<Rightarrow> Inl (ErrNormalizeZone e)
      | Inr zone \<Rightarrow> okE (map_option ErrValidateZone (ValidateZone (Some zone))) zone)"

definition prepareZoneForCreate :: "env \<Rightarrow> (string \<Rightarrow> string) \<Rightarrow> Zone option \<Rightarrow> store_error + Zone" where
  "prepareZoneForCreate env norm zp =
     (case copyZone zp of
        None \<Rightarrow> validateZoneForWrite None
      | Some w0 \<Rightarrow>
        (let w1 = w0\<lparr>z_Name := norm (z_Name w0)\<rparr>;
             w2 = (if soa_Serial (z_SOA w1) = 0
                   then w1\<lparr>z_SOA := (z_SOA w1)\<lparr>soa_Serial := generateSerial (e_date env) 0\<rparr>\<rparr> else w1)
         in bindE
              (if z_Version w2 = []
               then (case e_version env of None \<Rightarrow> Inl ErrGenerateVersion
                     | Some v \<Rightarrow> Inr (w2\<lparr>z_Version := v\<rparr>))
               else Inr w2)
              (\<lambda>w3. validateZoneForWrite
                 (Some (w3\<lparr>z_CreatedAt := e_now env, z_UpdatedAt := e_now env\<rparr>)))))"

definition ensureZoneUpdateVersion :: "env \<Rightarrow> Zone \<Rightarrow> string \<Rightarrow> store_error + Zone" where
  "ensureZoneUpdateVersion env zone currentVersion =
     (if z_Version zone \<noteq> [] \<and> z_Version zone \<noteq> currentVersion then Inr zone
      else case e_version env of None \<Rightarrow> Inl ErrGenerateVersion
           | Some v \<Rightarrow> Inr (zone\<lparr>z_Version := v\<rparr>))"

subsection \<open>The contract of a store\<close>

text \<open>
  The clock and the version generator of a call are sound: the date is a calendar date, and a
  generated version is not empty.
\<close>

definition env_ok :: "env \<Rightarrow> bool" where
  "env_ok e \<longleftrightarrow> calendar_date (e_date e) \<and> e_version e \<noteq> Some []"

text \<open>The version a successful update leaves: the caller's if it is new, else a generated one.\<close>

definition version_after :: "env \<Rightarrow> Zone \<Rightarrow> string \<Rightarrow> string \<Rightarrow> bool" where
  "version_after e zone current new \<longleftrightarrow>
     (if z_Version zone = [] \<or> z_Version zone = current then e_version e = Some new
      else new = z_Version zone)"

text \<open>What a record says, apart from its identifier and its derived priority.\<close>

definition rdata :: "Record list \<Rightarrow> (string \<times> string \<times> uint32 \<times> string) list" where
  "rdata rs = map (\<lambda>r. (r_Name r, r_Type r, r_TTL r, r_Value r)) rs"

text \<open>The stored zone \<open>w\<close> is the given zone \<open>z\<close> under its normalised name, with a version.\<close>

definition created_from :: "env \<Rightarrow> Zone \<Rightarrow> Zone \<Rightarrow> bool" where
  "created_from e z w \<longleftrightarrow> z_Name w = NormalizeZoneName (z_Name z)
     \<and> (if z_Version z = [] then e_version e = Some (z_Version w) else z_Version w = z_Version z)
     \<and> mset (rdata (z_Records w)) = mset (rdata (z_Records z))"

text \<open>The zone \<open>w\<close> that an update by \<open>z\<close> leaves in the place of \<open>old\<close>.\<close>

definition updated_from :: "env \<Rightarrow> Zone \<Rightarrow> Zone \<Rightarrow> Zone \<Rightarrow> bool" where
  "updated_from e old z w \<longleftrightarrow> version_after e z (z_Version old) (z_Version w)
     \<and> mset (rdata (z_Records w)) = mset (rdata (z_Records z))
     \<and> soa_Serial (z_SOA w) = updateSOASerial (e_date e) (soa_Serial (z_SOA old)) (soa_Serial (z_SOA z))"

lemma normalizeRecordDerivedFields_fields:
  "normalizeRecordDerivedFields b r = Inr r' \<Longrightarrow>
    r_Name r' = r_Name r \<and> r_Type r' = r_Type r \<and> r_TTL r' = r_TTL r \<and> r_Value r' = r_Value r \<and> r_ID r' = r_ID r"
  by (auto simp: normalizeRecordDerivedFields_def bindE_def split: sum.splits option.splits if_splits)

lemma normalize_records_rdata: "normalize_records b i rs = Inr rs' \<Longrightarrow> rdata rs' = rdata rs"
proof (induction rs arbitrary: i rs')
  case (Cons r rs)
  then obtain r' rs1 where "normalizeRecordDerivedFields b r = Inr r'"
      "normalize_records b (Suc i) rs = Inr rs1" "rs' = r' # rs1"
    by (auto simp: bindE_def split: sum.splits)
  then show ?case using Cons.IH normalizeRecordDerivedFields_fields by (auto simp: rdata_def)
qed (simp add: rdata_def)

lemma normalize_records_ids: "normalize_records b i rs = Inr rs' \<Longrightarrow> map r_ID rs' = map r_ID rs"
  by (induction rs arbitrary: i rs')
    (auto simp: bindE_def dest: normalizeRecordDerivedFields_fields split: sum.splits)

datatype store_op =
    OpCreate env "Zone option"
  | OpUpdate env Zone string
  | OpDelete string string

fun run_op ::
  "(env \<Rightarrow> Zone option \<Rightarrow> 's \<Rightarrow> (store_error + Zone) \<times> 's) \<Rightarrow>
   (env \<Rightarrow> Zone \<Rightarrow> string \<Rightarrow> 's \<Rightarrow> (store_error + Zone) \<times> 's) \<Rightarrow>
   (string \<Rightarrow> string \<Rightarrow> 's \<Rightarrow> store_error option \<times> 's) \<Rightarrow> store_op \<Rightarrow> 's \<Rightarrow> 's" where
  "run_op create update delete (OpCreate e zp) s = snd (create e zp s)"
| "run_op create update delete (OpUpdate e z v) s = snd (update e z v s)"
| "run_op create update delete (OpDelete n v) s = snd (delete n v s)"

fun op_ok :: "store_op \<Rightarrow> bool" where
  "op_ok (OpCreate e _) = env_ok e"
| "op_ok (OpUpdate e _ _) = env_ok e"
| "op_ok (OpDelete _ _) = True"

text \<open>The operation removes the zone stored under the key \<open>k\<close>.\<close>

fun deletes :: "string \<Rightarrow> store_op \<Rightarrow> bool" where
  "deletes k (OpDelete n _) = (NormalizeZoneName n = k)"
| "deletes k _ = False"

locale zone_store =
  fixes get :: "'s \<Rightarrow> string \<Rightarrow> store_error + Zone"
    and create :: "env \<Rightarrow> Zone option \<Rightarrow> 's \<Rightarrow> (store_error + Zone) \<times> 's"
    and update :: "env \<Rightarrow> Zone \<Rightarrow> string \<Rightarrow> 's \<Rightarrow> (store_error + Zone) \<times> 's"
    and delete :: "string \<Rightarrow> string \<Rightarrow> 's \<Rightarrow> store_error option \<times> 's"
    and contents :: "'s \<Rightarrow> string \<Rightarrow> Zone option"
    and inv :: "'s \<Rightarrow> bool"
  assumes get_law:
      "inv s \<Longrightarrow> get s n =
        (case contents s (NormalizeZoneName n) of None \<Rightarrow> Inl ErrZoneNotFound | Some z \<Rightarrow> Inr z)"
    and stored_law:
      "inv s \<Longrightarrow> contents s k = Some z \<Longrightarrow>
        z_Name z = k \<and> z_Version z \<noteq> [] \<and> ValidateZone (Some z) = None"
    and create_law:
      "inv s \<Longrightarrow> env_ok e \<Longrightarrow> create e zp s = (Inr ret, s') \<Longrightarrow>
        inv s' \<and> (\<exists>z w. zp = Some z \<and> created_from e z w \<and> z_Name ret = z_Name w
          \<and> contents s (z_Name w) = None \<and> contents s' = (contents s)(z_Name w \<mapsto> w))"
    and create_error_law: "create e zp s = (Inl err, s') \<Longrightarrow> s' = s"
    and update_law:
      "inv s \<Longrightarrow> env_ok e \<Longrightarrow> update e z v s = (Inr ret, s') \<Longrightarrow>
        inv s' \<and> (\<exists>old w. contents s (NormalizeZoneName (z_Name z)) = Some old
          \<and> (v = [] \<or> z_Version old = v) \<and> z_Name ret = NormalizeZoneName (z_Name z)
          \<and> contents s' = (contents s)(NormalizeZoneName (z_Name z) \<mapsto> w) \<and> updated_from e old z w)"
    and update_error_law: "update e z v s = (Inl err, s') \<Longrightarrow> s' = s"
    and update_missing_law:
      "inv s \<Longrightarrow> contents s (NormalizeZoneName (z_Name z)) = None \<Longrightarrow>
        update e z v s = (Inl ErrZoneNotFound, s)"
    and update_conflict_law:
      "inv s \<Longrightarrow> contents s (NormalizeZoneName (z_Name z)) = Some old \<Longrightarrow> v \<noteq> [] \<Longrightarrow>
        z_Version old \<noteq> v \<Longrightarrow> \<exists>err. update e z v s = (Inl err, s)"
    and delete_law:
      "inv s \<Longrightarrow> delete n v s = (r, s') \<Longrightarrow>
        (case contents s (NormalizeZoneName n) of
           None \<Rightarrow> r = Some ErrZoneNotFound \<and> s' = s
         | Some z \<Rightarrow>
           if v \<noteq> [] \<and> z_Version z \<noteq> v then r = Some ErrConflict \<and> s' = s
           else r = None \<and> inv s' \<and> contents s' = (contents s)(NormalizeZoneName n := None))"
begin

lemma get_Inr_iff: "inv s \<Longrightarrow> get s n = Inr z \<longleftrightarrow> contents s (NormalizeZoneName n) = Some z"
  by (simp add: get_law split: option.split)

lemma get_create:
  assumes "inv s" "env_ok e" "create e (Some z) s = (Inr r, s')"
  shows "\<exists>w. created_from e z w \<and>
    (\<forall>n. get s' n = (if NormalizeZoneName n = NormalizeZoneName (z_Name z) then Inr w else get s n))"
  using create_law [OF assms] assms(1) by (auto simp: get_law created_from_def)

lemma create_again_fails:
  assumes "inv s" "env_ok e" "create e (Some z) s = (Inr w, s')" "env_ok e'"
    and "NormalizeZoneName (z_Name z') = NormalizeZoneName (z_Name z)"
  shows "\<exists>err. create e' (Some z') s' = (Inl err, s')"
proof -
  obtain r s'' where c: "create e' (Some z') s' = (r, s'')" by fastforce
  show ?thesis
  proof (cases r)
    case (Inl err)
    with c show ?thesis using create_error_law by fastforce
  next
    case (Inr w')
    with create_law [OF assms(1-3)] create_law [of s' e' "Some z'" w' s''] c assms
    show ?thesis by (auto simp: created_from_def)
  qed
qed

lemma get_update:
  assumes "inv s" "env_ok e" "update e z v s = (Inr r, s')" "get s (z_Name z) = Inr old"
  shows "\<exists>w. updated_from e old z w \<and>
    (\<forall>n. get s' n = (if NormalizeZoneName n = NormalizeZoneName (z_Name z) then Inr w else get s n))"
  using update_law [OF assms(1-3)] assms(1,4) by (auto simp: get_law)

lemma get_delete:
  assumes "inv s" "delete n v s = (None, s')"
  shows "get s' m = (if NormalizeZoneName m = NormalizeZoneName n then Inl ErrZoneNotFound else get s m)"
  using delete_law [OF assms] assms(1) by (auto simp: get_law split: option.splits if_splits)

lemma updated_new_version:
  "updated_from e old z w \<Longrightarrow> e_version e \<noteq> Some (z_Version old) \<Longrightarrow> z_Version w \<noteq> z_Version old"
  by (auto simp: updated_from_def version_after_def split: if_splits)

text \<open>Optimistic locking: of two writers that read the same version, the second is refused.\<close>

lemma second_writer_stale:
  assumes "inv s" "env_ok e1" "get s n = Inr old" "e_version e1 \<noteq> Some (z_Version old)"
    and "NormalizeZoneName (z_Name z1) = NormalizeZoneName n"
    and u: "update e1 z1 (z_Version old) s = (Inr r, s1)"
  shows "inv s1 \<and> (\<exists>w. contents s1 (NormalizeZoneName n) = Some w
    \<and> z_Version old \<noteq> [] \<and> z_Version w \<noteq> z_Version old)"
proof -
  have old: "contents s (NormalizeZoneName n) = Some old" using assms(1,3) by (simp add: get_Inr_iff)
  then show ?thesis
    using update_law [OF assms(1,2) u] assms(4,5) stored_law [OF assms(1) old] updated_new_version by auto
qed

lemma second_writer_refused:
  assumes "inv s" "env_ok e1" "get s n = Inr old" "e_version e1 \<noteq> Some (z_Version old)"
    and "NormalizeZoneName (z_Name z1) = NormalizeZoneName n"
    and z2: "NormalizeZoneName (z_Name z2) = NormalizeZoneName n"
    and "update e1 z1 (z_Version old) s = (Inr r, s1)"
  shows "\<exists>err. update e2 z2 (z_Version old) s1 = (Inl err, s1)"
  using second_writer_stale [OF assms(1-5,7)] update_conflict_law [of s1 z2] z2 by auto

lemma delete_stale:
  assumes "inv s" "get s n = Inr z" "v \<noteq> []" "z_Version z \<noteq> v"
  shows "delete n v s = (Some ErrConflict, s)"
  using delete_law [OF assms(1), of n v "fst (delete n v s)" "snd (delete n v s)"] assms
  by (auto simp: get_Inr_iff prod_eq_iff)

subsubsection \<open>Histories\<close>

lemma run_op_inv:
  assumes "inv s" "op_ok p"
  shows "inv (run_op create update delete p s)"
proof (cases p)
  case (OpCreate e zp)
  then show ?thesis using assms create_law [of s e zp] create_error_law [of e zp s]
    by (cases "create e zp s"; cases "fst (create e zp s)") auto
next
  case (OpUpdate e z v)
  then show ?thesis using assms update_law [of s e z v] update_error_law [of e z v s]
    by (cases "update e z v s"; cases "fst (update e z v s)") auto
next
  case (OpDelete n v)
  then show ?thesis using assms delete_law [of s n v]
    by (cases "delete n v s") (auto split: option.splits if_splits)
qed

lemma run_inv: "inv s \<Longrightarrow> list_all op_ok ps \<Longrightarrow> inv (fold (run_op create update delete) ps s)"
  by (induction ps arbitrary: s) (simp_all add: run_op_inv)

lemma run_op_serial:
  assumes "inv s" "op_ok p" "\<not> deletes k p" "contents s k = Some z"
  shows "\<exists>z'. contents (run_op create update delete p s) k = Some z'
    \<and> soa_Serial (z_SOA z) \<le> soa_Serial (z_SOA z')"
proof (cases p)
  case (OpCreate e zp)
  then show ?thesis using assms create_law [of s e zp] create_error_law [of e zp s]
    by (cases "create e zp s"; cases "fst (create e zp s)") auto
next
  case (OpUpdate e z1 v)
  show ?thesis
  proof (cases "fst (update e z1 v s)")
    case (Inl err)
    then show ?thesis using assms OpUpdate update_error_law [of e z1 v s err] by (cases "update e z1 v s") auto
  next
    case (Inr w)
    then have u: "update e z1 v s = (Inr w, snd (update e z1 v s))" by (simp add: prod_eq_iff)
    have "env_ok e" using OpUpdate assms(2) by simp
    from update_law [OF assms(1) this u] show ?thesis
      using OpUpdate assms(4) \<open>env_ok e\<close> updateSOASerial_mono by (auto simp: env_ok_def updated_from_def)
  qed
next
  case (OpDelete n v)
  then show ?thesis using assms delete_law [of s n v]
    by (cases "delete n v s") (auto split: option.splits if_splits)
qed

text \<open>Until it is deleted, a zone stays stored and its serial never goes back.\<close>

lemma run_serial:
  assumes "inv s" "list_all op_ok ps" "list_all (\<lambda>p. \<not> deletes k p) ps" "contents s k = Some z"
  shows "\<exists>z'. contents (fold (run_op create update delete) ps s) k = Some z'
    \<and> soa_Serial (z_SOA z) \<le> soa_Serial (z_SOA z')"
  using assms
proof (induction ps arbitrary: s z)
  case (Cons p ps)
  let ?s = "run_op create update delete p s"
  obtain z1 where z1: "contents ?s k = Some z1" "soa_Serial (z_SOA z) \<le> soa_Serial (z_SOA z1)"
    using run_op_serial [of s p k z] Cons.prems by auto
  have "inv ?s" using Cons.prems by (simp add: run_op_inv)
  then show ?case using Cons.IH [of ?s z1] Cons.prems z1 by fastforce
qed auto

end

text \<open>
  A store that keeps the order of the records, and hands back the zone as stored. It reports a
  stale version before anything else.
\<close>

locale ordered_store = zone_store get create update delete contents inv
  for get :: "'s \<Rightarrow> string \<Rightarrow> store_error + Zone"
    and create :: "env \<Rightarrow> Zone option \<Rightarrow> 's \<Rightarrow> (store_error + Zone) \<times> 's"
    and update :: "env \<Rightarrow> Zone \<Rightarrow> string \<Rightarrow> 's \<Rightarrow> (store_error + Zone) \<times> 's"
    and delete :: "string \<Rightarrow> string \<Rightarrow> 's \<Rightarrow> store_error option \<times> 's"
    and contents :: "'s \<Rightarrow> string \<Rightarrow> Zone option"
    and inv :: "'s \<Rightarrow> bool" +
  assumes create_ordered:
      "inv s \<Longrightarrow> env_ok e \<Longrightarrow> create e (Some z) s = (Inr w, s') \<Longrightarrow>
        contents s' (z_Name w) = Some w \<and> rdata (z_Records w) = rdata (z_Records z)"
    and update_ordered:
      "inv s \<Longrightarrow> env_ok e \<Longrightarrow> update e z v s = (Inr w, s') \<Longrightarrow>
        contents s' (z_Name w) = Some w \<and> rdata (z_Records w) = rdata (z_Records z)"
    and update_reports_conflict:
      "inv s \<Longrightarrow> contents s (NormalizeZoneName (z_Name z)) = Some old \<Longrightarrow> v \<noteq> [] \<Longrightarrow>
        z_Version old \<noteq> v \<Longrightarrow> update e z v s = (Inl ErrConflict, s)"
begin

lemma get_created:
  assumes "inv s" "env_ok e" "create e (Some z) s = (Inr w, s')"
  shows "get s' n = (if NormalizeZoneName n = NormalizeZoneName (z_Name z) then Inr w else get s n)"
proof -
  obtain w1 where w1: "created_from e z w1" "z_Name w = z_Name w1" "contents s' = (contents s)(z_Name w1 \<mapsto> w1)"
      and "inv s'"
    using create_law [OF assms] by auto
  have "w1 = w" using create_ordered [OF assms] w1(2,3) by simp
  then have "contents s' = (contents s)(NormalizeZoneName (z_Name z) \<mapsto> w)"
    using w1(1,3) by (simp add: created_from_def)
  then show ?thesis using assms(1) \<open>inv s'\<close> by (simp add: get_law)
qed

lemma second_writer_conflict:
  assumes "inv s" "env_ok e1" "get s n = Inr old" "e_version e1 \<noteq> Some (z_Version old)"
    and "NormalizeZoneName (z_Name z1) = NormalizeZoneName n"
    and z2: "NormalizeZoneName (z_Name z2) = NormalizeZoneName n"
    and "update e1 z1 (z_Version old) s = (Inr w, s1)"
  shows "update e2 z2 (z_Version old) s1 = (Inl ErrConflict, s1)"
  using second_writer_stale [OF assms(1-5,7)] update_reports_conflict [of s1 z2] z2 by auto

end

end
