(* ===== verification/Zone_API.thy ===== *)
theory Zone_API
  imports Zone_Store Go_Conv
begin

section \<open>The zone API (internal/controller/api/handler.go, errors.go)\<close>

text \<open>
  The HTTP handlers for zones, on the interface of a zone store: \<open>get\<close>, \<open>create\<close>, \<open>update\<close> and
  \<open>delete\<close> are the store's operations, passed in as the handler's field \<open>store\<close> is. A request that
  could not be decoded is answered before any of this and is not modelled; a response is an error
  with its status, code and message, or the zone sent back, whose version is the ETag. The details
  attached to errors, and the name of the operation within a message, are left out.

  The signing service enters by the outcomes of its four calls (\<open>PrepareSignedZoneWrite\<close>,
  \<open>Store\<close>, \<open>Commit\<close>, \<open>Complete\<close>) and the DNSSEC metadata that the first attaches to the zone
  (\<open>sg_dnssec\<close>); \<open>None\<close> is a controller without one.
\<close>

subsection \<open>Responses\<close>

datatype ErrorCode =
    ErrorCodeNotFound
  | ErrorCodeAlreadyExists
  | ErrorCodeInvalidInput
  | ErrorCodeConflict
  | ErrorCodeInternal
  | ErrorCodeUnavailable

record APIError =
  ae_Status :: nat
  ae_Code :: ErrorCode
  ae_Message :: string

definition api_error :: "nat \<Rightarrow> ErrorCode \<Rightarrow> string \<Rightarrow> APIError" where
  "api_error status code message = \<lparr>ae_Status = status, ae_Code = code, ae_Message = message\<rparr>"

record signing =
  sg_prepared :: bool
  sg_dnssec :: "DNSSECConfig option"
  sg_stored :: bool
  sg_committed :: bool
  sg_completed :: bool

text \<open>What the handler gets from its surroundings: a version, the date, and the store's own clock.\<close>

record api_env =
  a_version :: "string option"
  a_date :: date
  a_store :: env
  a_signing :: "signing option"

subsection \<open>ETags and versions\<close>

definition Trim_quotes :: "string \<Rightarrow> string" where
  "Trim_quotes s = rev (dropWhile (\<lambda>c. c = CHR 0x22) (rev (dropWhile (\<lambda>c. c = CHR 0x22) s)))"

definition etagMatches :: "string \<Rightarrow> string \<Rightarrow> bool" where
  "etagMatches ifNoneMatch current \<longleftrightarrow>
     TrimSpace ifNoneMatch = ''*''
     \<or> list_ex (\<lambda>part. Trim_quotes (TrimPrefix (TrimSpace part) ''W/'') = current)
          (split_on CHR '','' ifNoneMatch)"

definition strongETagMatches :: "string \<Rightarrow> string \<Rightarrow> bool" where
  "strongETagMatches ifMatch current \<longleftrightarrow>
     list_ex (\<lambda>part. let tag = TrimSpace part
                     in \<not> HasPrefix tag ''W/'' \<and> Trim_quotes tag = current) (split_on CHR '','' ifMatch)"

definition formatETag :: "string \<Rightarrow> string" where
  "formatETag version = [CHR 0x22] @ version @ [CHR 0x22]"

definition isCrockfordBase32Upper :: "char \<Rightarrow> bool" where
  "isCrockfordBase32Upper r \<longleftrightarrow>
     in_range 48 57 r \<or> in_range 65 72 r \<or> in_range 74 75 r \<or> in_range 77 78 r \<or> in_range 80 84 r
     \<or> in_range 86 90 r"

definition isLowerHex :: "char \<Rightarrow> bool" where
  "isLowerHex r \<longleftrightarrow> in_range 48 57 r \<or> in_range 97 102 r"

text \<open>The loops range over runes; a byte above 127 belongs to a rune that no class contains.\<close>

definition isControllerZoneVersion :: "string \<Rightarrow> bool" where
  "isControllerZoneVersion version \<longleftrightarrow>
     length version = 27 \<and> hd version = CHR ''v'' \<and> list_all isCrockfordBase32Upper (tl version)"

definition isLegacyZoneVersion :: "string \<Rightarrow> bool" where
  "isLegacyZoneVersion version \<longleftrightarrow>
     11 \<le> length version \<and> hd version = CHR ''v'' \<and>
     (let serial = takeWhile (\<lambda>c. c \<noteq> CHR ''-'') (tl version);
          rest = dropWhile (\<lambda>c. c \<noteq> CHR ''-'') (tl version)
      in rest \<noteq> [] \<and> serial \<noteq> [] \<and> length (tl rest) = 8 \<and> list_all is_digit serial
         \<and> list_all isLowerHex (tl rest))"

definition isValidZoneVersionParam :: "string \<Rightarrow> bool" where
  "isValidZoneVersionParam version \<longleftrightarrow> isControllerZoneVersion version \<or> isLegacyZoneVersion version"

lemma Trim_quotes_formatETag:
  assumes "CHR 0x22 \<notin> set v"
  shows "Trim_quotes (formatETag v) = v"
proof -
  have d: "dropWhile (\<lambda>c. c = CHR 0x22) s = s" if "CHR 0x22 \<notin> set s" for s
    using that by (cases s) auto
  have "dropWhile (\<lambda>c. c = CHR 0x22) (v @ [CHR 0x22]) = (if v = [] then [] else v @ [CHR 0x22])"
    using assms by (cases v) auto
  then show ?thesis using d [of "rev v"] assms by (auto simp: Trim_quotes_def formatETag_def)
qed

subsection \<open>Pagination\<close>

definition parsePagination :: "string \<Rightarrow> string \<Rightarrow> int \<Rightarrow> APIError + int \<times> int" where
  "parsePagination offsetStr limitStr defaultLimit =
     bindE
       (if offsetStr = [] then Inr 0
        else case Atoi offsetStr of
          None \<Rightarrow> Inl (api_error 400 ErrorCodeInvalidInput ''Invalid pagination parameter'')
        | Some val \<Rightarrow> if val < 0 then Inl (api_error 400 ErrorCodeInvalidInput ''Invalid pagination parameter'')
                      else Inr val)
       (\<lambda>offset. bindE
          (if limitStr = [] then Inr defaultLimit
           else case Atoi limitStr of
             None \<Rightarrow> Inl (api_error 400 ErrorCodeInvalidInput ''Invalid pagination parameter'')
           | Some val \<Rightarrow> if val \<le> 0 \<or> 1000 < val
                         then Inl (api_error 400 ErrorCodeInvalidInput ''Invalid pagination parameter'')
                         else Inr val)
          (\<lambda>limit. Inr (offset, limit)))"

text \<open>\<open>next_offset\<close> of \<open>paginationMetadata\<close>.\<close>

definition next_offset :: "int \<Rightarrow> int \<Rightarrow> int \<Rightarrow> int option" where
  "next_offset offset limit pageLen = (if pageLen = limit then Some (offset + pageLen) else None)"

subsection \<open>Signing hooks\<close>

definition signing_failed :: APIError where
  "signing_failed = api_error 500 ErrorCodeInternal ''Failed to sign zone''"

definition ensureZoneAbsentBeforeSigning ::
  "('s \<Rightarrow> string \<Rightarrow> store_error + Zone) \<Rightarrow> string \<Rightarrow> 's \<Rightarrow> APIError option" where
  "ensureZoneAbsentBeforeSigning get name s =
     (case get s name of
        Inr _ \<Rightarrow> Some (api_error 409 ErrorCodeAlreadyExists ''Zone already exists'')
      | Inl ErrZoneNotFound \<Rightarrow> None
      | Inl _ \<Rightarrow> Some (api_error 500 ErrorCodeInternal ''Failed to create zone''))"

definition prepareSignedZoneCreate ::
  "api_env \<Rightarrow> ('s \<Rightarrow> string \<Rightarrow> store_error + Zone) \<Rightarrow> Zone \<Rightarrow> 's \<Rightarrow> APIError + Zone" where
  "prepareSignedZoneCreate a get zone s =
     (case a_signing a of
        None \<Rightarrow> Inr zone
      | Some sg \<Rightarrow>
        (let z1 = zone\<lparr>z_Name := NormalizeZoneName (z_Name zone)\<rparr> in
         case ensureZoneAbsentBeforeSigning get (z_Name z1) s of
           Some e \<Rightarrow> Inl e
         | None \<Rightarrow>
           (let z2 = (if soa_Serial (z_SOA z1) = 0
                      then z1\<lparr>z_SOA := (z_SOA z1)\<lparr>soa_Serial := NextSOASerial (a_date a) 0\<rparr>\<rparr> else z1)
            in if sg_prepared sg then Inr (z2\<lparr>z_DNSSEC := sg_dnssec sg\<rparr>) else Inl signing_failed)))"

definition prepareSignedZoneUpdate :: "api_env \<Rightarrow> Zone \<Rightarrow> uint32 \<Rightarrow> APIError + Zone" where
  "prepareSignedZoneUpdate a zone currentSerial =
     (case a_signing a of
        None \<Rightarrow> Inr zone
      | Some sg \<Rightarrow>
        (let z1 = zone\<lparr>z_Name := NormalizeZoneName (z_Name zone),
                       z_SOA := (z_SOA zone)\<lparr>soa_Serial := NextSOASerial (a_date a) currentSerial\<rparr>\<rparr>
         in if sg_prepared sg then Inr (z1\<lparr>z_DNSSEC := sg_dnssec sg\<rparr>) else Inl signing_failed))"

definition signing_step :: "(signing \<Rightarrow> bool) \<Rightarrow> api_env \<Rightarrow> APIError option" where
  "signing_step ok a =
     (case a_signing a of None \<Rightarrow> None | Some sg \<Rightarrow> if ok sg then None else Some signing_failed)"

subsection \<open>Handlers\<close>

record createZoneRequest =
  cz_Name :: string
  cz_SOA :: SOARecord
  cz_Records :: "Record list"

record updateZoneRequest =
  uz_Name :: string
  uz_SOA :: SOARecord

text \<open>A zone as a request gives it: no version, no DNSSEC settings, zero times.\<close>

definition request_zone :: "string \<Rightarrow> SOARecord \<Rightarrow> Record list \<Rightarrow> DNSSECConfig option \<Rightarrow> Zone" where
  "request_zone name soa rs d =
     \<lparr>z_Name = name, z_Version = [], z_SOA = soa, z_Records = rs, z_DNSSEC = d, z_CreatedAt = 0, z_UpdatedAt = 0\<rparr>"

definition zone_invalid :: APIError where
  "zone_invalid = api_error 400 ErrorCodeInvalidInput ''Zone validation failed''"

text \<open>Read back the written zone and complete the signed write.\<close>

definition finish_write ::
  "api_env \<Rightarrow> ('s \<Rightarrow> string \<Rightarrow> store_error + Zone) \<Rightarrow> string \<Rightarrow> string \<Rightarrow> 's \<Rightarrow> APIError + Zone" where
  "finish_write a get name message s =
     (case signing_step sg_committed a of
        Some e \<Rightarrow> Inl e
      | None \<Rightarrow>
        (case get s name of
           Inl _ \<Rightarrow> Inl (api_error 500 ErrorCodeInternal message)
         | Inr z \<Rightarrow> okE (signing_step sg_completed a) z))"

definition api_CreateZone ::
  "api_env \<Rightarrow> ('s \<Rightarrow> string \<Rightarrow> store_error + Zone) \<Rightarrow>
   (env \<Rightarrow> Zone option \<Rightarrow> 's \<Rightarrow> (store_error + Zone) \<times> 's) \<Rightarrow>
   createZoneRequest \<Rightarrow> 's \<Rightarrow> (APIError + Zone) \<times> 's" where
  "api_CreateZone a get create req s =
     (let zone = request_zone (cz_Name req) (cz_SOA req) (map (\<lambda>r. r\<lparr>r_ID := []\<rparr>) (cz_Records req)) None in
      case bindE (case NormalizeZoneDerivedFields (Some zone) of
                    Inl _ \<Rightarrow> Inl zone_invalid
                  | Inr z \<Rightarrow> okE (map_option (\<lambda>_. zone_invalid) (ValidateZone (Some z))) z)
           (\<lambda>z. case a_version a of
                  None \<Rightarrow> Inl (api_error 500 ErrorCodeInternal ''Failed to generate zone version'')
                | Some v \<Rightarrow>
                  bindE (prepareSignedZoneCreate a get (z\<lparr>z_Version := v\<rparr>) s)
                    (okE (signing_step sg_stored a))) of
        Inl e \<Rightarrow> (Inl e, s)
      | Inr z \<Rightarrow>
        (case create (a_store a) (Some z) s of
           (Inl ErrZoneAlreadyExists, s') \<Rightarrow> (Inl (api_error 409 ErrorCodeAlreadyExists ''Zone already exists''), s')
         | (Inl _, s') \<Rightarrow> (Inl (api_error 500 ErrorCodeInternal ''Failed to create zone''), s')
         | (Inr w, s') \<Rightarrow> (finish_write a get (z_Name w) ''Zone created but failed to retrieve'' s', s')))"

text \<open>\<open>ListZones\<close>, \<open>GetZone\<close> and \<open>HeadZone\<close> only read. \<open>None\<close> is the response 304.\<close>

definition api_GetZone ::
  "('s \<Rightarrow> string \<Rightarrow> store_error + Zone) \<Rightarrow> string \<Rightarrow> string \<Rightarrow> 's \<Rightarrow> APIError + Zone option" where
  "api_GetZone get name ifNoneMatch s =
     (case get s name of
        Inl ErrZoneNotFound \<Rightarrow> Inl (api_error 404 ErrorCodeNotFound ''Zone not found'')
      | Inl _ \<Rightarrow> Inl (api_error 500 ErrorCodeInternal ''Failed to retrieve zone'')
      | Inr zone \<Rightarrow> Inr (if ifNoneMatch \<noteq> [] \<and> etagMatches ifNoneMatch (z_Version zone) then None else Some zone))"

text \<open>
  The precondition that every write shares: a strong entity tag, no wildcard, and a match with the
  version that the store holds.
\<close>

definition check_if_match ::
  "('s \<Rightarrow> string \<Rightarrow> store_error + Zone) \<Rightarrow> string \<Rightarrow> string \<Rightarrow> string \<Rightarrow> 's \<Rightarrow> APIError + Zone" where
  "check_if_match get name ifMatch internal s =
     (if ifMatch = [] then Inl (api_error 428 ErrorCodeInvalidInput ''If-Match header is required'')
      else if TrimSpace ifMatch = ''*'' then Inl (api_error 400 ErrorCodeInvalidInput ''If-Match wildcard is not supported'')
      else case get s name of
        Inl ErrZoneNotFound \<Rightarrow> Inl (api_error 404 ErrorCodeNotFound ''Zone not found'')
      | Inl _ \<Rightarrow> Inl (api_error 500 ErrorCodeInternal internal)
      | Inr current \<Rightarrow>
        (if \<not> strongETagMatches ifMatch (z_Version current)
         then Inl (api_error 409 ErrorCodeConflict ''Zone version mismatch (optimistic lock failure)'')
         else Inr current))"

definition update_failed :: "string \<Rightarrow> store_error \<Rightarrow> APIError" where
  "update_failed internal e =
     (case e of
        ErrZoneNotFound \<Rightarrow> api_error 404 ErrorCodeNotFound ''Zone not found''
      | ErrConflict \<Rightarrow> api_error 409 ErrorCodeConflict ''Zone version mismatch (optimistic lock failure)''
      | _ \<Rightarrow> api_error 500 ErrorCodeInternal internal)"

definition api_UpdateZone ::
  "api_env \<Rightarrow> ('s \<Rightarrow> string \<Rightarrow> store_error + Zone) \<Rightarrow>
   (env \<Rightarrow> Zone \<Rightarrow> string \<Rightarrow> 's \<Rightarrow> (store_error + Zone) \<times> 's) \<Rightarrow>
   string \<Rightarrow> string \<Rightarrow> updateZoneRequest \<Rightarrow> 's \<Rightarrow> (APIError + Zone) \<times> 's" where
  "api_UpdateZone a get update param ifMatch req s =
     (let name = NormalizeZoneName param; bodyName = NormalizeZoneName (uz_Name req) in
      if bodyName \<noteq> name
      then (Inl (api_error 400 ErrorCodeInvalidInput ''Zone name in body does not match URL''), s)
      else case check_if_match get bodyName ifMatch ''Failed to update zone'' s of
        Inl e \<Rightarrow> (Inl e, s)
      | Inr current \<Rightarrow>
        (case bindE
            (case RepairZoneDerivedFields
                (Some (request_zone bodyName (uz_SOA req) (z_Records current) (z_DNSSEC current))) of
               Inl _ \<Rightarrow> Inl zone_invalid
             | Inr z \<Rightarrow> okE (map_option (\<lambda>_. zone_invalid) (ValidateZone (Some z))) z)
            (\<lambda>z. let z1 = (if a_signing a = None then z\<lparr>z_SOA := (z_SOA z)\<lparr>soa_Serial := 0\<rparr>\<rparr> else z) in
               case a_version a of
                 None \<Rightarrow> Inl (api_error 500 ErrorCodeInternal ''Failed to generate zone version'')
               | Some v \<Rightarrow>
                 bindE (prepareSignedZoneUpdate a (z1\<lparr>z_Version := v\<rparr>) (soa_Serial (z_SOA current)))
                   (okE (signing_step sg_stored a))) of
           Inl e \<Rightarrow> (Inl e, s)
         | Inr z \<Rightarrow>
           (case update (a_store a) z (z_Version current) s of
              (Inl e, s') \<Rightarrow> (Inl (update_failed ''Failed to update zone'' e), s')
            | (Inr w, s') \<Rightarrow> (finish_write a get (z_Name w) ''Zone updated but failed to retrieve'' s', s'))))"

definition api_DeleteZone ::
  "('s \<Rightarrow> string \<Rightarrow> store_error + Zone) \<Rightarrow> (string \<Rightarrow> string \<Rightarrow> 's \<Rightarrow> store_error option \<times> 's) \<Rightarrow>
   string \<Rightarrow> string \<Rightarrow> 's \<Rightarrow> APIError option \<times> 's" where
  "api_DeleteZone get delete name ifMatch s =
     (if ValidateZoneName (NormalizeZoneName name) \<noteq> None
      then (Some (api_error 400 ErrorCodeInvalidInput ''Invalid zone name''), s)
      else case check_if_match get name ifMatch ''Failed to delete zone'' s of
        Inl e \<Rightarrow> (Some e, s)
      | Inr current \<Rightarrow>
        (case delete name (z_Version current) s of
           (Some e, s') \<Rightarrow> (Some (update_failed ''Failed to delete zone'' e), s')
         | (None, s') \<Rightarrow> (None, s')))"

end
