(* ===== verification/Records_API.thy ===== *)
theory Records_API
  imports Zone_API
begin

section \<open>The record API (internal/controller/api/records.go)\<close>

text \<open>
  Creating, changing and deleting single records, and the batch operation, as read-modify-write
  cycles on a zone under optimistic locking. SHA-256 in hexadecimal is the parameter \<open>sha\<close>. The
  sets that the batch keeps are lists here.
\<close>

subsection \<open>Identity of records\<close>

definition recordIdentity :: "Record \<Rightarrow> string" where
  "recordIdentity r =
     r_Name r @ [CHR 0x00] @ r_Type r @ [CHR 0x00] @ dec_string (unat (r_TTL r)) @ [CHR 0x00] @ r_Value r"

definition sameRecord :: "Record \<Rightarrow> Record \<Rightarrow> bool" where
  "sameRecord a b \<longleftrightarrow> recordIdentity a = recordIdentity b"

definition derivedRecordID :: "(string \<Rightarrow> string) \<Rightarrow> Record \<Rightarrow> string" where
  "derivedRecordID sha r = ''r'' @ take 16 (sha (recordIdentity r))"

definition recordID :: "(string \<Rightarrow> string) \<Rightarrow> Record \<Rightarrow> string" where
  "recordID sha r = (if r_ID r \<noteq> [] then r_ID r else derivedRecordID sha r)"

definition recordIDMatches :: "(string \<Rightarrow> string) \<Rightarrow> Record \<Rightarrow> string \<Rightarrow> bool" where
  "recordIDMatches sha r i \<longleftrightarrow> i \<noteq> [] \<and> (recordID sha r = i \<or> derivedRecordID sha r = i)"

text \<open>The index of the first match; \<open>None\<close> is -1.\<close>

fun find_index :: "('a \<Rightarrow> bool) \<Rightarrow> nat \<Rightarrow> 'a list \<Rightarrow> nat option" where
  "find_index P i [] = None"
| "find_index P i (x # xs) = (if P x then Some i else find_index P (Suc i) xs)"

definition findRecordByID :: "(string \<Rightarrow> string) \<Rightarrow> Record list \<Rightarrow> string \<Rightarrow> nat option" where
  "findRecordByID sha rs i = find_index (\<lambda>r. recordIDMatches sha r i) 0 rs"

definition preserveRecordID :: "(string \<Rightarrow> string) \<Rightarrow> Record \<Rightarrow> string" where
  "preserveRecordID sha r =
     (if r_ID r = [] then [] else if r_ID r = derivedRecordID sha r then [] else r_ID r)"

definition recordExists :: "Record list \<Rightarrow> Record \<Rightarrow> nat option \<Rightarrow> bool" where
  "recordExists rs r skip \<longleftrightarrow>
     list_ex (\<lambda>(i, candidate). Some i \<noteq> skip \<and> sameRecord candidate r) (enumerate 0 rs)"

fun first_duplicate :: "('a \<Rightarrow> string) \<Rightarrow> string list \<Rightarrow> nat \<Rightarrow> 'a list \<Rightarrow> nat option" where
  "first_duplicate key seen i [] = None"
| "first_duplicate key seen i (x # xs) =
     (if key x \<in> set seen then Some i else first_duplicate key (key x # seen) (Suc i) xs)"

definition firstDuplicateRecord :: "Record list \<Rightarrow> nat option" where
  "firstDuplicateRecord rs = first_duplicate recordIdentity [] 0 rs"

definition firstDuplicateRecordID :: "(string \<Rightarrow> string) \<Rightarrow> Record list \<Rightarrow> nat option" where
  "firstDuplicateRecordID sha rs = first_duplicate (recordID sha) [] 0 rs"

definition recordsWithIDs :: "(string \<Rightarrow> string) \<Rightarrow> Record list \<Rightarrow> Record list" where
  "recordsWithIDs sha rs = map (\<lambda>r. if r_ID r = [] then r\<lparr>r_ID := derivedRecordID sha r\<rparr> else r) rs"

definition zoneWithRecordIDs :: "(string \<Rightarrow> string) \<Rightarrow> Zone \<Rightarrow> Zone" where
  "zoneWithRecordIDs sha z = z\<lparr>z_Records := recordsWithIDs sha (z_Records z)\<rparr>"

definition findRecordID :: "(string \<Rightarrow> string) \<Rightarrow> Record list \<Rightarrow> Record \<Rightarrow> string" where
  "findRecordID sha rs r =
     (case find_index (\<lambda>c. sameRecord c r) 0 rs of None \<Rightarrow> [] | Some i \<Rightarrow> recordID sha (rs ! i))"

subsection \<open>Loading, validating and committing\<close>

definition loadZoneForRecordMutation ::
  "('s \<Rightarrow> string \<Rightarrow> store_error + Zone) \<Rightarrow> string \<Rightarrow> string \<Rightarrow> 's \<Rightarrow> APIError + Zone" where
  "loadZoneForRecordMutation get name ifMatch s =
     bindE (check_if_match get name ifMatch ''Failed to update record'' s)
       (\<lambda>zone. case RepairZoneDerivedFields (Some zone) of Inl _ \<Rightarrow> Inl zone_invalid | Inr z \<Rightarrow> Inr z)"

definition record_invalid :: APIError where
  "record_invalid = api_error 400 ErrorCodeInvalidInput ''Record validation failed''"

definition validateRecordForZone :: "string \<Rightarrow> Record \<Rightarrow> APIError + Record" where
  "validateRecordForZone zoneName record =
     (case normalizeRecordDerivedFields True record of
        Inl _ \<Rightarrow> Inl record_invalid
      | Inr r \<Rightarrow>
        okE (map_option (\<lambda>_. record_invalid)
          (andthen (ValidateRecord r)
           (andthen (ValidateRecordNameInZone (r_Name r) zoneName)
             (ValidateRecordValueInZone (r_Type r) (r_Value r) zoneName)))) r)"

text \<open>
  A commit validates the zone, issues its version, prepares its signature, and then writes with
  the version that was read; the answer is read back afterwards. The write is a step of its own, since
  other requests run between the reads and the write.
\<close>

definition prepareRecordWrite :: "(string \<Rightarrow> string) \<Rightarrow> api_env \<Rightarrow> Zone \<Rightarrow> APIError + Zone" where
  "prepareRecordWrite sha a zone =
     (if ValidateZone (Some zone) \<noteq> None then Inl zone_invalid
      else if firstDuplicateRecordID sha (z_Records zone) \<noteq> None
      then Inl (api_error 409 ErrorCodeAlreadyExists ''Record id already exists'')
      else case a_version a of
        None \<Rightarrow> Inl (api_error 500 ErrorCodeInternal ''Failed to generate zone version'')
      | Some v \<Rightarrow>
        bindE (prepareSignedZoneUpdate a (zone\<lparr>z_Version := v\<rparr>) (soa_Serial (z_SOA zone)))
          (okE (signing_step sg_stored a)))"

definition writeRecordMutation ::
  "(string \<Rightarrow> string) \<Rightarrow> api_env \<Rightarrow> (env \<Rightarrow> Zone \<Rightarrow> string \<Rightarrow> 's \<Rightarrow> (store_error + Zone) \<times> 's) \<Rightarrow>
   Zone \<Rightarrow> string \<Rightarrow> 's \<Rightarrow> (APIError + Zone) \<times> 's" where
  "writeRecordMutation sha a update zone expectedVersion s =
     (case prepareRecordWrite sha a zone of
        Inl e \<Rightarrow> (Inl e, s)
      | Inr z \<Rightarrow>
        (case update (a_store a) z expectedVersion s of
           (Inl e, s') \<Rightarrow> (Inl (update_failed ''Failed to update record'' e), s')
         | (Inr w, s') \<Rightarrow> (Inr w, s')))"

definition commitRecordMutation ::
  "(string \<Rightarrow> string) \<Rightarrow> api_env \<Rightarrow> ('s \<Rightarrow> string \<Rightarrow> store_error + Zone) \<Rightarrow>
   (env \<Rightarrow> Zone \<Rightarrow> string \<Rightarrow> 's \<Rightarrow> (store_error + Zone) \<times> 's) \<Rightarrow>
   Zone \<Rightarrow> string \<Rightarrow> 's \<Rightarrow> (APIError + Zone) \<times> 's" where
  "commitRecordMutation sha a get update zone expectedVersion s =
     (case writeRecordMutation sha a update zone expectedVersion s of
        (Inl e, s') \<Rightarrow> (Inl e, s')
      | (Inr w, s') \<Rightarrow>
          (finish_write a get (z_Name w) ''Record updated but failed to retrieve zone'' s', s'))"

lemmas commit_defs = commitRecordMutation_def writeRecordMutation_def prepareRecordWrite_def

subsection \<open>Handlers for one record\<close>

definition ListRecords ::
  "(string \<Rightarrow> string) \<Rightarrow> ('s \<Rightarrow> string \<Rightarrow> store_error + Zone) \<Rightarrow> string \<Rightarrow> 's \<Rightarrow> APIError + Record list" where
  "ListRecords sha get name s =
     (case get s name of
        Inl ErrZoneNotFound \<Rightarrow> Inl (api_error 404 ErrorCodeNotFound ''Zone not found'')
      | Inl _ \<Rightarrow> Inl (api_error 500 ErrorCodeInternal ''Failed to retrieve zone records'')
      | Inr zone \<Rightarrow> Inr (recordsWithIDs sha (z_Records zone)))"

text \<open>A handler reads the zone, computes the new records or an error, and commits.\<close>

definition mutate ::
  "(string \<Rightarrow> string) \<Rightarrow> api_env \<Rightarrow> ('s \<Rightarrow> string \<Rightarrow> store_error + Zone) \<Rightarrow>
   (env \<Rightarrow> Zone \<Rightarrow> string \<Rightarrow> 's \<Rightarrow> (store_error + Zone) \<times> 's) \<Rightarrow> string \<Rightarrow> string \<Rightarrow>
   (Zone \<Rightarrow> APIError + Record list) \<Rightarrow> 's \<Rightarrow> (APIError + Zone) \<times> 's" where
  "mutate sha a get update name ifMatch edit s =
     (case loadZoneForRecordMutation get name ifMatch s of
        Inl e \<Rightarrow> (Inl e, s)
      | Inr zone \<Rightarrow>
        (case edit zone of
           Inl e \<Rightarrow> (Inl e, s)
         | Inr rs \<Rightarrow>
           (case commitRecordMutation sha a get update (zone\<lparr>z_Records := rs\<rparr>) (z_Version zone) s of
              (Inl e, s') \<Rightarrow> (Inl e, s')
            | (Inr w, s') \<Rightarrow> (Inr (zoneWithRecordIDs sha w), s'))))"

definition record_conflict :: APIError where
  "record_conflict = api_error 409 ErrorCodeAlreadyExists ''Record already exists''"

definition record_missing :: APIError where
  "record_missing = api_error 404 ErrorCodeNotFound ''Record not found''"

definition create_edit :: "Record \<Rightarrow> Zone \<Rightarrow> APIError + Record list" where
  "create_edit record0 zone =
     bindE (validateRecordForZone (z_Name zone) (record0\<lparr>r_ID := []\<rparr>))
       (\<lambda>record. if recordExists (z_Records zone) record None then Inl record_conflict
                 else Inr (z_Records zone @ [record]))"

definition CreateRecord ::
  "(string \<Rightarrow> string) \<Rightarrow> api_env \<Rightarrow> ('s \<Rightarrow> string \<Rightarrow> store_error + Zone) \<Rightarrow>
   (env \<Rightarrow> Zone \<Rightarrow> string \<Rightarrow> 's \<Rightarrow> (store_error + Zone) \<times> 's) \<Rightarrow> string \<Rightarrow> string \<Rightarrow> Record \<Rightarrow>
   's \<Rightarrow> (APIError + Zone) \<times> 's" where
  "CreateRecord sha a get update name ifMatch record s =
     mutate sha a get update name ifMatch (create_edit record) s"

definition update_edit :: "(string \<Rightarrow> string) \<Rightarrow> string \<Rightarrow> Record \<Rightarrow> Zone \<Rightarrow> APIError + Record list" where
  "update_edit sha i record0 zone =
     (case findRecordByID sha (z_Records zone) i of
        None \<Rightarrow> Inl record_missing
      | Some idx \<Rightarrow>
        bindE (validateRecordForZone (z_Name zone) record0)
          (\<lambda>r. let record = r\<lparr>r_ID := preserveRecordID sha (z_Records zone ! idx)\<rparr>
               in if recordExists (z_Records zone) record (Some idx) then Inl record_conflict
                  else Inr ((z_Records zone)[idx := record])))"

definition id_required :: APIError where
  "id_required = api_error 400 ErrorCodeInvalidInput ''Record id is required''"

definition UpdateRecord ::
  "(string \<Rightarrow> string) \<Rightarrow> api_env \<Rightarrow> ('s \<Rightarrow> string \<Rightarrow> store_error + Zone) \<Rightarrow>
   (env \<Rightarrow> Zone \<Rightarrow> string \<Rightarrow> 's \<Rightarrow> (store_error + Zone) \<times> 's) \<Rightarrow> string \<Rightarrow> string \<Rightarrow> string \<Rightarrow> Record \<Rightarrow>
   's \<Rightarrow> (APIError + Zone) \<times> 's" where
  "UpdateRecord sha a get update name param ifMatch record s =
     (if TrimSpace param = [] then (Inl id_required, s)
      else mutate sha a get update name ifMatch (update_edit sha (TrimSpace param) record) s)"

definition delete_edit :: "(string \<Rightarrow> string) \<Rightarrow> string \<Rightarrow> Zone \<Rightarrow> APIError + Record list" where
  "delete_edit sha i zone =
     (case findRecordByID sha (z_Records zone) i of
        None \<Rightarrow> Inl record_missing
      | Some idx \<Rightarrow> Inr (take idx (z_Records zone) @ drop (Suc idx) (z_Records zone)))"

definition DeleteRecord ::
  "(string \<Rightarrow> string) \<Rightarrow> api_env \<Rightarrow> ('s \<Rightarrow> string \<Rightarrow> store_error + Zone) \<Rightarrow>
   (env \<Rightarrow> Zone \<Rightarrow> string \<Rightarrow> 's \<Rightarrow> (store_error + Zone) \<times> 's) \<Rightarrow> string \<Rightarrow> string \<Rightarrow> string \<Rightarrow>
   's \<Rightarrow> (APIError + Zone) \<times> 's" where
  "DeleteRecord sha a get update name param ifMatch s =
     (if TrimSpace param = [] then (Inl id_required, s)
      else mutate sha a get update name ifMatch (delete_edit sha (TrimSpace param)) s)"

subsection \<open>The batch\<close>

definition maxBulkRecordOperations :: nat where "maxBulkRecordOperations = 1000"

text \<open>A \<open>bulkRecordUpdate\<close> has the fields of a record.\<close>

record bulkRecordRequest =
  br_Create :: "Record list"
  br_Update :: "Record list"
  br_Delete :: "string list"

definition batch_error :: "nat \<Rightarrow> string \<Rightarrow> APIError" where
  "batch_error status message =
     api_error status
       (if status = 404 then ErrorCodeNotFound
        else if status = 409 then ErrorCodeAlreadyExists else ErrorCodeInvalidInput) message"

fun bulk_deletes ::
  "(string \<Rightarrow> string) \<Rightarrow> Record list \<Rightarrow> string list \<Rightarrow> string list \<times> nat list \<Rightarrow> APIError + string list \<times> nat list" where
  "bulk_deletes sha rs [] acc = Inr acc"
| "bulk_deletes sha rs (op # ops) (deleteIDs, deleteIndexes) =
     (let i = TrimSpace op in
      if i = [] then Inl (batch_error 400 ''Delete operation is missing record id'')
      else case findRecordByID sha rs i of
        None \<Rightarrow> Inl (batch_error 404 ''Record not found'')
      | Some idx \<Rightarrow>
        (let canonicalID = recordID sha (rs ! idx) in
         if canonicalID \<in> set deleteIDs then Inl (batch_error 400 ''Duplicate record id in delete operations'')
         else bulk_deletes sha rs ops
           (i # derivedRecordID sha (rs ! idx) # canonicalID # deleteIDs, idx # deleteIndexes)))"

definition drop_indexes :: "nat list \<Rightarrow> 'a list \<Rightarrow> 'a list" where
  "drop_indexes is xs = map snd (filter (\<lambda>(i, _). i \<notin> set is) (enumerate 0 xs))"

fun bulk_updates ::
  "(string \<Rightarrow> string) \<Rightarrow> string \<Rightarrow> string list \<Rightarrow> Record list \<Rightarrow> Record list \<times> string list \<Rightarrow> APIError + Record list" where
  "bulk_updates sha zoneName deleteIDs [] (rs, updateIDs) = Inr rs"
| "bulk_updates sha zoneName deleteIDs (op # ops) (rs, updateIDs) =
     (let i = TrimSpace (r_ID op) in
      if i = [] then Inl (batch_error 400 ''Update operation is missing record id'')
      else if i \<in> set deleteIDs
      then Inl (batch_error 400 ''Record cannot be updated and deleted in the same batch'')
      else case findRecordByID sha rs i of
        None \<Rightarrow> Inl (batch_error 404 ''Record not found'')
      | Some idx \<Rightarrow>
        (let canonicalID = recordID sha (rs ! idx) in
         if canonicalID \<in> set updateIDs then Inl (batch_error 400 ''Duplicate record id in update operations'')
         else bindE (validateRecordForZone zoneName (op\<lparr>r_ID := preserveRecordID sha (rs ! idx)\<rparr>))
           (\<lambda>record. bulk_updates sha zoneName deleteIDs ops (rs[idx := record], canonicalID # updateIDs))))"

fun bulk_creates :: "string \<Rightarrow> Record list \<Rightarrow> Record list \<Rightarrow> APIError + Record list" where
  "bulk_creates zoneName [] rs = Inr rs"
| "bulk_creates zoneName (op # ops) rs =
     bindE (validateRecordForZone zoneName (op\<lparr>r_ID := []\<rparr>)) (\<lambda>r. bulk_creates zoneName ops (rs @ [r]))"

definition applyBulkRecordOperations ::
  "(string \<Rightarrow> string) \<Rightarrow> string \<Rightarrow> Record list \<Rightarrow> bulkRecordRequest \<Rightarrow> APIError + Record list" where
  "applyBulkRecordOperations sha zoneName current req =
     bindE (bulk_deletes sha current (br_Delete req) ([], []))
      (\<lambda>(deleteIDs, deleteIndexes).
        bindE (bulk_updates sha zoneName deleteIDs (br_Update req) (drop_indexes deleteIndexes current, []))
         (\<lambda>rs1. bindE (bulk_creates zoneName (br_Create req) rs1)
          (\<lambda>rs2. if firstDuplicateRecord rs2 \<noteq> None then Inl (batch_error 409 ''Record already exists'')
                 else if firstDuplicateRecordID sha rs2 \<noteq> None
                 then Inl (batch_error 409 ''Record id already exists'')
                 else Inr rs2)))"

definition bulk_edit :: "(string \<Rightarrow> string) \<Rightarrow> bulkRecordRequest \<Rightarrow> Zone \<Rightarrow> APIError + Record list" where
  "bulk_edit sha req zone =
     (if maxBulkRecordOperations < length (br_Create req) + length (br_Update req) + length (br_Delete req)
      then Inl (api_error 400 ErrorCodeInvalidInput ''Bulk request includes too many operations'')
      else applyBulkRecordOperations sha (z_Name zone) (z_Records zone) req)"

definition BulkRecords ::
  "(string \<Rightarrow> string) \<Rightarrow> api_env \<Rightarrow> ('s \<Rightarrow> string \<Rightarrow> store_error + Zone) \<Rightarrow>
   (env \<Rightarrow> Zone \<Rightarrow> string \<Rightarrow> 's \<Rightarrow> (store_error + Zone) \<times> 's) \<Rightarrow> string \<Rightarrow> string \<Rightarrow> bulkRecordRequest \<Rightarrow>
   's \<Rightarrow> (APIError + Zone) \<times> 's" where
  "BulkRecords sha a get update name ifMatch req s =
     (if br_Create req = [] \<and> br_Update req = [] \<and> br_Delete req = []
      then (Inl (api_error 400 ErrorCodeInvalidInput ''Bulk request must include at least one operation''), s)
      else mutate sha a get update name ifMatch (bulk_edit sha req) s)"

subsection \<open>Facts about identity\<close>

lemma first_duplicate_None:
  "first_duplicate key seen i xs = None \<longleftrightarrow> distinct (map key xs) \<and> set (map key xs) \<inter> set seen = {}"
  by (induction key seen i xs rule: first_duplicate.induct) auto

lemma no_duplicate_iff:
  "firstDuplicateRecord rs = None \<longleftrightarrow> distinct (map recordIdentity rs)"
  "firstDuplicateRecordID sha rs = None \<longleftrightarrow> distinct (map (recordID sha) rs)"
  by (simp_all add: firstDuplicateRecord_def firstDuplicateRecordID_def first_duplicate_None)

lemma find_index_Some:
  assumes "find_index P i xs = Some j"
  shows "i \<le> j" "j - i < length xs" "P (xs ! (j - i))" "\<forall>k < j - i. \<not> P (xs ! k)"
proof -
  have "i \<le> j \<and> j - i < length xs \<and> P (xs ! (j - i)) \<and> (\<forall>k < j - i. \<not> P (xs ! k))"
    using assms
  proof (induction xs arbitrary: i)
    case (Cons x xs)
    show ?case
    proof (cases "P x")
      case False
      with Cons.prems have "find_index P (Suc i) xs = Some j" by simp
      from Cons.IH [OF this] False show ?thesis
        by (auto simp: nth_Cons Suc_diff_Suc [symmetric] Suc_le_eq split: nat.splits)
    qed (use Cons.prems in auto)
  qed simp
  then show "i \<le> j" "j - i < length xs" "P (xs ! (j - i))" "\<forall>k < j - i. \<not> P (xs ! k)" by auto
qed

lemma findRecordByID_Some:
  assumes "findRecordByID sha rs i = Some idx"
  shows "idx < length rs" "recordIDMatches sha (rs ! idx) i"
  using find_index_Some [OF assms [unfolded findRecordByID_def]] by auto

text \<open>Without NUL bytes in name and type, the identity determines what the record says.\<close>

lemma dec_string_no_nul: "CHR 0x00 \<notin> set (dec_string n)"
  using dec_string_digits [of n] by (auto simp: list_all_iff is_digit_def byte_def)

lemma recordIdentity_inject:
  assumes "CHR 0x00 \<notin> set (r_Name r @ r_Type r)" "CHR 0x00 \<notin> set (r_Name q @ r_Type q)"
  shows "sameRecord r q \<longleftrightarrow>
    r_Name r = r_Name q \<and> r_Type r = r_Type q \<and> r_TTL r = r_TTL q \<and> r_Value r = r_Value q"
  using assms
  by (auto simp: sameRecord_def recordIdentity_def append_sep_inject dec_string_no_nul word_unat_eq_iff)

subsection \<open>What the edits do\<close>

lemma validateRecordForZone_ok:
  assumes "validateRecordForZone zn r = Inr r'"
  shows "ValidateRecord r' = None" "ValidateRecordNameInZone (r_Name r') zn = None"
    "ValidateRecordValueInZone (r_Type r') (r_Value r') zn = None"
    "r_Name r' = r_Name r \<and> r_Type r' = r_Type r \<and> r_TTL r' = r_TTL r \<and> r_Value r' = r_Value r \<and> r_ID r' = r_ID r"
  using assms normalizeRecordDerivedFields_fields
  by (auto simp: validateRecordForZone_def okE_def andthen_def split: sum.splits option.splits)

definition rdatum :: "Record \<Rightarrow> string \<times> string \<times> uint32 \<times> string" where
  "rdatum r = (r_Name r, r_Type r, r_TTL r, r_Value r)"

lemma rdata_map: "rdata rs = map rdatum rs"
  by (simp add: rdata_def rdatum_def)

text \<open>What an identifier denotes depends only on the content and the identifiers of the records.\<close>

lemma recordIDMatches_cong:
  "rdatum r = rdatum r' \<Longrightarrow> r_ID r = r_ID r' \<Longrightarrow> recordIDMatches sha r i = recordIDMatches sha r' i"
  by (simp add: recordIDMatches_def recordID_def derivedRecordID_def recordIdentity_def rdatum_def)

lemma findRecordByID_cong:
  assumes "rdata rs = rdata rs'" "map r_ID rs = map r_ID rs'"
  shows "findRecordByID sha rs i = findRecordByID sha rs' i"
proof -
  have "find_index (\<lambda>r. recordIDMatches sha r i) n rs = find_index (\<lambda>r. recordIDMatches sha r i) n rs'" for n
    using map_eq_imp_length_eq [OF assms(2)] assms
  proof (induction rs rs' arbitrary: n rule: list_induct2)
    case (Cons r rs r' rs')
    then show ?case using recordIDMatches_cong [of r r' sha i] by (simp add: rdata_map)
  qed simp
  then show ?thesis by (simp add: findRecordByID_def)
qed

lemma create_edit_ok:
  "create_edit r z = Inr rs \<Longrightarrow> rdata rs = rdata (z_Records z) @ [rdatum r]"
  using validateRecordForZone_ok(4)
  by (fastforce simp: create_edit_def bindE_def rdata_map rdatum_def split: sum.splits if_splits)

lemma update_edit_ok:
  assumes "update_edit sha i r z = Inr rs"
  obtains idx where "findRecordByID sha (z_Records z) i = Some idx" "idx < length (z_Records z)"
    "rdata rs = (rdata (z_Records z))[idx := rdatum r]"
proof -
  obtain idx r' where f: "findRecordByID sha (z_Records z) i = Some idx"
      and r': "validateRecordForZone (z_Name z) r = Inr r'"
      and rs: "rs = (z_Records z)[idx := r'\<lparr>r_ID := preserveRecordID sha (z_Records z ! idx)\<rparr>]"
    using assms by (auto simp: update_edit_def bindE_def Let_def split: option.splits sum.splits if_splits)
  have "rdata rs = (rdata (z_Records z))[idx := rdatum r]"
    using validateRecordForZone_ok(4) [OF r'] rs by (simp add: rdata_map map_update rdatum_def)
  with f findRecordByID_Some(1) [OF f] that show ?thesis by blast
qed

lemma delete_edit_ok:
  assumes "delete_edit sha i z = Inr rs"
  obtains idx where "findRecordByID sha (z_Records z) i = Some idx" "idx < length (z_Records z)"
    "rdata rs = take idx (rdata (z_Records z)) @ drop (Suc idx) (rdata (z_Records z))"
proof -
  obtain idx where f: "findRecordByID sha (z_Records z) i = Some idx"
      and rs: "rs = take idx (z_Records z) @ drop (Suc idx) (z_Records z)"
    using assms by (auto simp: delete_edit_def split: option.splits)
  have "rdata rs = take idx (rdata (z_Records z)) @ drop (Suc idx) (rdata (z_Records z))"
    by (simp add: rs rdata_map take_map drop_map)
  with f findRecordByID_Some(1) [OF f] that show ?thesis by blast
qed

text \<open>The batch keeps identities and identifiers unique.\<close>

lemma applyBulk_distinct:
  "applyBulkRecordOperations sha zn current req = Inr rs \<Longrightarrow>
    distinct (map recordIdentity rs) \<and> distinct (map (recordID sha) rs)"
  by (auto simp: applyBulkRecordOperations_def bindE_def no_duplicate_iff [symmetric]
      split: sum.splits if_splits prod.splits)

text \<open>Each surviving record keeps its content or gets that of an update.\<close>

lemma bulk_updates_result:
  "bulk_updates sha zn ds ops (rs, us) = Inr rs' \<Longrightarrow>
    list_all2 (\<lambda>r r'. rdatum r' = rdatum r \<or> rdatum r' \<in> set (rdata ops)) rs rs'"
proof (induction ops arbitrary: rs us)
  case Nil
  then show ?case by (auto simp: list_all2_same)
next
  case (Cons op ops)
  then obtain idx r where r: "validateRecordForZone zn (op\<lparr>r_ID := preserveRecordID sha (rs ! idx)\<rparr>) = Inr r"
      and b: "bulk_updates sha zn ds ops (rs[idx := r], recordID sha (rs ! idx) # us) = Inr rs'"
    by (auto simp: Let_def bindE_def split: if_splits option.splits sum.splits)
  have "rdatum r = rdatum op" using validateRecordForZone_ok(4) [OF r] by (simp add: rdatum_def)
  then have "list_all2 (\<lambda>x y. rdatum y = rdatum x \<or> rdatum y = rdatum op) rs (rs[idx := r])"
    by (cases "idx < length rs") (auto simp: list_all2_conv_all_nth nth_list_update)
  then show ?case by (rule list_all2_trans [OF _ _ Cons.IH [OF b], rotated]) (auto simp: rdata_map)
qed

lemma bulk_creates_result:
  "bulk_creates zn ops rs = Inr rs' \<Longrightarrow> \<exists>new. rs' = rs @ new \<and> rdata new = rdata ops"
proof (induction ops arbitrary: rs)
  case (Cons op ops)
  then obtain r where r: "validateRecordForZone zn (op\<lparr>r_ID := []\<rparr>) = Inr r" "bulk_creates zn ops (rs @ [r]) = Inr rs'"
    by (auto simp: bindE_def split: sum.splits)
  from Cons.IH [OF r(2)] obtain new where "rs' = rs @ r # new" "rdata new = rdata ops" by auto
  then show ?case using validateRecordForZone_ok(4) [OF r(1)] by (intro exI [of _ "r # new"]) (auto simp: rdata_def)
qed (simp add: rdata_def)

text \<open>The indexes that a batch deletes are those its identifiers denote, each once.\<close>

definition denoted :: "(string \<Rightarrow> string) \<Rightarrow> Record list \<Rightarrow> string list \<Rightarrow> nat set" where
  "denoted sha rs ids = {k. \<exists>i \<in> set ids. findRecordByID sha rs (TrimSpace i) = Some k}"

lemma bulk_deletes_indexes:
  assumes "bulk_deletes sha rs ops (ids, is) = Inr (ids', is')"
    and "\<forall>j \<in> set is. recordID sha (rs ! j) \<in> set ids" "distinct is"
  shows "distinct is' \<and> set is' = set is \<union> denoted sha rs ops \<and> length is' = length is + length ops"
  using assms
proof (induction ops arbitrary: ids "is")
  case (Cons op ops)
  then obtain idx where f: "findRecordByID sha rs (TrimSpace op) = Some idx"
      and n: "recordID sha (rs ! idx) \<notin> set ids"
      and b: "bulk_deletes sha rs ops
        (TrimSpace op # derivedRecordID sha (rs ! idx) # recordID sha (rs ! idx) # ids, idx # is) = Inr (ids', is')"
    by (auto simp: Let_def split: if_splits option.splits)
  have "idx \<notin> set is" using n Cons.prems(2) by blast
  moreover have "denoted sha rs (op # ops) = insert idx (denoted sha rs ops)"
    using f by (auto simp: denoted_def)
  ultimately show ?case using Cons.IH [OF b] Cons.prems by auto
qed (simp add: denoted_def)

lemma denoted_less: "k \<in> denoted sha rs ids \<Longrightarrow> k < length rs"
  using findRecordByID_Some(1) by (auto simp: denoted_def)

lemma drop_indexes_nths: "drop_indexes is xs = nths xs (- set is)"
  by (simp add: drop_indexes_def nths_def enumerate_eq_zip zip_commute [of _ xs] filter_map comp_def
      case_prod_unfold flip: zip_map_fst_snd)

lemma applyBulk_shape:
  assumes "applyBulkRecordOperations sha zn current req = Inr rs"
  shows "\<exists>kept new. rs = kept @ new \<and> rdata new = rdata (br_Create req)
    \<and> list_all2 (\<lambda>r r'. rdatum r' = rdatum r \<or> rdatum r' \<in> set (rdata (br_Update req)))
        (nths current (- denoted sha current (br_Delete req))) kept
    \<and> card (denoted sha current (br_Delete req)) = length (br_Delete req)"
proof -
  obtain ids "is" rs1 where d: "bulk_deletes sha current (br_Delete req) ([], []) = Inr (ids, is)"
      and u: "bulk_updates sha zn ids (br_Update req) (drop_indexes is current, []) = Inr rs1"
      and c: "bulk_creates zn (br_Create req) rs1 = Inr rs"
    using assms by (auto simp: applyBulkRecordOperations_def bindE_def split: sum.splits if_splits)
  have i: "distinct is" "set is = denoted sha current (br_Delete req)" "length is = length (br_Delete req)"
    using bulk_deletes_indexes [OF d] by auto
  then have "card (denoted sha current (br_Delete req)) = length (br_Delete req)"
    using distinct_card [of "is"] by simp
  then show ?thesis using bulk_creates_result [OF c] bulk_updates_result [OF u] i(2)
    by (auto simp: drop_indexes_nths)
qed

subsection \<open>Reads and writes against a store\<close>

lemma RepairZoneDerivedFields_ok:
  assumes "RepairZoneDerivedFields (Some z) = Inr z'"
  shows "z' = z\<lparr>z_Records := z_Records z'\<rparr>" "rdata (z_Records z') = rdata (z_Records z)"
    "map r_ID (z_Records z') = map r_ID (z_Records z)"
  using assms normalize_records_rdata normalize_records_ids
  by (auto simp: RepairZoneDerivedFields_def bindE_def split: sum.splits)

lemma prepareSignedZoneUpdate_ok:
  assumes "prepareSignedZoneUpdate a z n = Inr z'"
  shows "NormalizeZoneName (z_Name z') = NormalizeZoneName (z_Name z)" "z_Version z' = z_Version z"
    "z_Records z' = z_Records z"
  using assms
  by (auto simp: prepareSignedZoneUpdate_def Let_def NormalizeZoneName_idem split: option.splits if_splits)

context zone_store
begin

lemma check_if_match_ok:
  assumes "inv s" "check_if_match get name ifMatch msg s = Inr z"
  shows "contents s (NormalizeZoneName name) = Some z" "strongETagMatches ifMatch (z_Version z)"
  using assms by (auto simp: check_if_match_def get_law split: if_splits sum.splits store_error.splits option.splits)

lemma finish_write_stored:
  assumes "inv s" "contents s (NormalizeZoneName n) = Some w"
  shows "finish_write a get n msg s = Inr z \<Longrightarrow> z = w"
    "a_signing a = None \<Longrightarrow> finish_write a get n msg s = Inr w"
  using assms by (auto simp: finish_write_def get_law signing_step_def okE_def split: option.splits if_splits)

lemma commit_cases:
  assumes "commitRecordMutation sha a get update zone v s = (Inr w, s')"
  obtains ver z r where "a_version a = Some ver"
    "prepareSignedZoneUpdate a (zone\<lparr>z_Version := ver\<rparr>) (soa_Serial (z_SOA zone)) = Inr z"
    "update (a_store a) z v s = (Inr r, s')"
    "finish_write a get (z_Name r) ''Record updated but failed to retrieve zone'' s' = Inr w"
  using assms by (auto simp: commit_defs bindE_def okE_def split: sum.splits if_splits option.splits prod.splits)

text \<open>A committed mutation has replaced exactly the zone, by one with the given records.\<close>

lemma commitRecordMutation_ok:
  assumes "inv s" "env_ok (a_store a)"
    and c: "commitRecordMutation sha a get update zone v s = (Inr w, s')"
  shows "inv s'" "contents s' = (contents s)(NormalizeZoneName (z_Name zone) \<mapsto> w)"
    "mset (rdata (z_Records w)) = mset (rdata (z_Records zone))"
    "\<exists>old. contents s (NormalizeZoneName (z_Name zone)) = Some old
      \<and> soa_Serial (z_SOA old) \<le> soa_Serial (z_SOA w)
      \<and> (a_version a \<noteq> Some (z_Version old) \<and> a_version a \<noteq> Some [] \<longrightarrow> a_version a = Some (z_Version w))"
proof -
  let ?k = "NormalizeZoneName (z_Name zone)"
  obtain ver z r where ver: "a_version a = Some ver"
      and p: "prepareSignedZoneUpdate a (zone\<lparr>z_Version := ver\<rparr>) (soa_Serial (z_SOA zone)) = Inr z"
      and u: "update (a_store a) z v s = (Inr r, s')"
      and f: "finish_write a get (z_Name r) ''Record updated but failed to retrieve zone'' s' = Inr w"
    using c by (rule commit_cases)
  note z = prepareSignedZoneUpdate_ok [OF p, simplified]
  obtain old w' where old: "contents s ?k = Some old" "contents s' = (contents s)(?k \<mapsto> w')" "inv s'" "z_Name r = ?k"
      and uf: "updated_from (a_store a) old z w'"
    using update_law [OF assms(1,2) u] z(1) by auto
  have w: "w = w'" using finish_write_stored(1) [OF old(3) _ f] old(2,4) by (simp add: NormalizeZoneName_idem)
  show "inv s'" "contents s' = (contents s)(?k \<mapsto> w)" "mset (rdata (z_Records w)) = mset (rdata (z_Records zone))"
    using old w z(3) uf by (auto simp: updated_from_def)
  have "soa_Serial (z_SOA old) \<le> soa_Serial (z_SOA w)"
    using uf w updateSOASerial_mono assms(2) by (simp add: env_ok_def updated_from_def)
  moreover have "a_version a = Some (z_Version w)" if "a_version a \<noteq> Some (z_Version old)" "a_version a \<noteq> Some []"
    using uf w ver z(2) that by (auto simp: updated_from_def version_after_def)
  ultimately show "\<exists>old. contents s ?k = Some old \<and> soa_Serial (z_SOA old) \<le> soa_Serial (z_SOA w)
      \<and> (a_version a \<noteq> Some (z_Version old) \<and> a_version a \<noteq> Some [] \<longrightarrow> a_version a = Some (z_Version w))"
    using old(1) by blast
qed

text \<open>Without a signing service a failed mutation leaves the store as it was.\<close>

lemma commitRecordMutation_error:
  assumes "inv s" "env_ok (a_store a)" "a_signing a = None"
    and c: "commitRecordMutation sha a get update zone v s = (Inl err, s')"
  shows "s' = s"
proof (cases "a_version a")
  case (Some ver)
  let ?z = "zone\<lparr>z_Version := ver\<rparr>"
  obtain r s1 where u: "update (a_store a) ?z v s = (r, s1)" by fastforce
  show ?thesis
  proof (cases r)
    case (Inl e)
    then show ?thesis using c u Some assms(3) update_error_law [of "a_store a" ?z v s e s1]
      by (auto simp: commit_defs prepareSignedZoneUpdate_def signing_step_def split: if_splits)
  next
    case (Inr r')
    obtain w where st: "inv s1" "contents s1 (NormalizeZoneName (z_Name r')) = Some w"
      using update_law [OF assms(1,2), of ?z v r' s1] u Inr by (auto simp: NormalizeZoneName_idem)
    have "finish_write a get (z_Name r') ''Record updated but failed to retrieve zone'' s1 = Inr w"
      using finish_write_stored(2) [OF st] assms(3) by blast
    then show ?thesis using c u Some Inr assms(3)
      by (auto simp: commit_defs prepareSignedZoneUpdate_def signing_step_def split: if_splits)
  qed
qed (use c in \<open>auto simp: commit_defs split: if_splits\<close>)

lemma load_ok:
  assumes "inv s" "loadZoneForRecordMutation get name ifMatch s = Inr zone"
  obtains old where "contents s (NormalizeZoneName name) = Some old" "strongETagMatches ifMatch (z_Version old)"
    "zone = old\<lparr>z_Records := z_Records zone\<rparr>" "rdata (z_Records zone) = rdata (z_Records old)"
    "map r_ID (z_Records zone) = map r_ID (z_Records old)"
proof -
  obtain old where "check_if_match get name ifMatch ''Failed to update record'' s = Inr old"
      "RepairZoneDerivedFields (Some old) = Inr zone"
    using assms(2) by (auto simp: loadZoneForRecordMutation_def bindE_def split: sum.splits)
  then show ?thesis
    using that [OF check_if_match_ok [OF assms(1)] RepairZoneDerivedFields_ok] by blast
qed

lemma mutate_ok:
  assumes "inv s" "env_ok (a_store a)"
    and m: "mutate sha a get update name ifMatch edit s = (Inr z, s')"
  obtains old zone rs w where
    "contents s (NormalizeZoneName name) = Some old" "strongETagMatches ifMatch (z_Version old)"
    "zone = old\<lparr>z_Records := z_Records zone\<rparr>" "rdata (z_Records zone) = rdata (z_Records old)"
    "map r_ID (z_Records zone) = map r_ID (z_Records old)"
    "edit zone = Inr rs" "mset (rdata (z_Records w)) = mset (rdata rs)"
    "inv s'" "contents s' = (contents s)(NormalizeZoneName name \<mapsto> w)" "z = zoneWithRecordIDs sha w"
    "soa_Serial (z_SOA old) \<le> soa_Serial (z_SOA w)"
    "a_version a \<noteq> Some (z_Version old) \<Longrightarrow> a_version a \<noteq> Some [] \<Longrightarrow> a_version a = Some (z_Version w)"
proof -
  obtain zone rs w where l: "loadZoneForRecordMutation get name ifMatch s = Inr zone" and e: "edit zone = Inr rs"
      and c: "commitRecordMutation sha a get update (zone\<lparr>z_Records := rs\<rparr>) (z_Version zone) s = (Inr w, s')"
      and z: "z = zoneWithRecordIDs sha w"
    using m by (auto simp: mutate_def split: sum.splits prod.splits)
  from assms(1) l obtain old where old: "contents s (NormalizeZoneName name) = Some old"
      "strongETagMatches ifMatch (z_Version old)" "zone = old\<lparr>z_Records := z_Records zone\<rparr>"
      "rdata (z_Records zone) = rdata (z_Records old)" "map r_ID (z_Records zone) = map r_ID (z_Records old)"
    by (rule load_ok)
  have "z_Name old = NormalizeZoneName name" using stored_law [OF assms(1) old(1)] by simp
  then have k: "NormalizeZoneName (z_Name zone) = NormalizeZoneName name"
    by (subst old(3)) (simp add: NormalizeZoneName_idem)
  have co: "inv s'" "contents s' = (contents s)(NormalizeZoneName name \<mapsto> w)"
      "mset (rdata (z_Records w)) = mset (rdata rs)"
    using commitRecordMutation_ok(1-3) [OF assms(1,2) c] k by simp_all
  have "soa_Serial (z_SOA old) \<le> soa_Serial (z_SOA w)
      \<and> (a_version a \<noteq> Some (z_Version old) \<and> a_version a \<noteq> Some [] \<longrightarrow> a_version a = Some (z_Version w))"
    using commitRecordMutation_ok(4) [OF assms(1,2) c] k old(1) by simp
  then show ?thesis using that [OF old e co(3) co(1) co(2) z] by blast
qed

lemma mutate_error:
  assumes "inv s" "env_ok (a_store a)" "a_signing a = None"
    and "mutate sha a get update name ifMatch edit s = (Inl err, s')"
  shows "s' = s"
  using assms(4) commitRecordMutation_error [OF assms(1-3)]
  by (auto simp: mutate_def split: sum.splits prod.splits)

text \<open>A stale or missing entity tag never changes anything.\<close>

lemma mutate_stale:
  assumes "inv s" "contents s (NormalizeZoneName name) = Some old" "\<not> strongETagMatches ifMatch (z_Version old)"
  shows "\<exists>err. mutate sha a get update name ifMatch edit s = (Inl err, s) \<and> ae_Status err \<in> {428, 400, 409}"
  using assms
  by (auto simp: mutate_def loadZoneForRecordMutation_def check_if_match_def get_law bindE_def api_error_def)

end

context ordered_store
begin

lemma commitRecordMutation_ordered:
  assumes "inv s" "env_ok (a_store a)"
    and c: "commitRecordMutation sha a get update zone v s = (Inr w, s')"
  shows "rdata (z_Records w) = rdata (z_Records zone)"
proof -
  obtain ver z r where p: "prepareSignedZoneUpdate a (zone\<lparr>z_Version := ver\<rparr>) (soa_Serial (z_SOA zone)) = Inr z"
      and u: "update (a_store a) z v s = (Inr r, s')"
      and f: "finish_write a get (z_Name r) ''Record updated but failed to retrieve zone'' s' = Inr w"
    using c by (rule commit_cases)
  note o = update_ordered [OF assms(1,2) u]
  have "inv s'" "NormalizeZoneName (z_Name r) = z_Name r"
    using update_law [OF assms(1,2) u] by (auto simp: NormalizeZoneName_idem)
  then show ?thesis using o finish_write_stored(1) [OF _ _ f] prepareSignedZoneUpdate_ok(3) [OF p] by fastforce
qed

text \<open>The read-modify-write cycle, for a client that has read the zone.\<close>

lemma mutate_ordered:
  assumes "inv s" "env_ok (a_store a)" "get s name = Inr old"
    and m: "mutate sha a get update name ifMatch edit s = (Inr z, s')"
  obtains zone rs w where "rdata (z_Records zone) = rdata (z_Records old)"
    "map r_ID (z_Records zone) = map r_ID (z_Records old)" "edit zone = Inr rs"
    "rdata (z_Records w) = rdata rs" "contents s' = (contents s)(NormalizeZoneName name \<mapsto> w)"
    "soa_Serial (z_SOA old) \<le> soa_Serial (z_SOA w)" "ValidateZone (Some w) = None"
    "a_version a \<noteq> Some (z_Version old) \<Longrightarrow> a_version a \<noteq> Some [] \<Longrightarrow> a_version a = Some (z_Version w)"
proof -
  obtain zone rs w where l: "loadZoneForRecordMutation get name ifMatch s = Inr zone" and e: "edit zone = Inr rs"
      and c: "commitRecordMutation sha a get update (zone\<lparr>z_Records := rs\<rparr>) (z_Version zone) s = (Inr w, s')"
    using m by (auto simp: mutate_def split: sum.splits prod.splits)
  have o: "contents s (NormalizeZoneName name) = Some old" using assms(1,3) by (simp add: get_Inr_iff)
  from assms(1) l obtain old' where "contents s (NormalizeZoneName name) = Some old'"
      "zone = old'\<lparr>z_Records := z_Records zone\<rparr>" "rdata (z_Records zone) = rdata (z_Records old')"
      "map r_ID (z_Records zone) = map r_ID (z_Records old')"
    by (rule load_ok)
  with o have old: "zone = old\<lparr>z_Records := z_Records zone\<rparr>" "rdata (z_Records zone) = rdata (z_Records old)"
      "map r_ID (z_Records zone) = map r_ID (z_Records old)" by auto
  have "z_Name old = NormalizeZoneName name" using stored_law [OF assms(1) o] by simp
  then have k: "NormalizeZoneName (z_Name zone) = NormalizeZoneName name"
    by (subst old(1)) (simp add: NormalizeZoneName_idem)
  note co = commitRecordMutation_ok [OF assms(1,2) c]
  have "rdata (z_Records w) = rdata rs" using commitRecordMutation_ordered [OF assms(1,2) c] by simp
  moreover have "ValidateZone (Some w) = None" using stored_law [OF co(1), of "NormalizeZoneName name" w] co(2) k by simp
  ultimately show ?thesis using that [OF old(2,3) e, of w] co(2,4) k o by auto
qed

end

end
