(* ===== verification/Name_Facts.thy ===== *)
theory Name_Facts
  imports Zone_Validation
begin

section \<open>What the name validators accept\<close>

text \<open>
  The compiled expressions read as conditions on the labels of a name, and from them the exact
  set of names the validators accept. Every accepted name is ASCII.
\<close>

subsection \<open>The label grammar\<close>

definition dns_label :: "string \<Rightarrow> bool" where
  "dns_label s \<longleftrightarrow> s \<noteq> [] \<and> length s \<le> 63 \<and> list_all alnum_hyphen s \<and> is_alnum (hd s) \<and> is_alnum (last s)"

lemma alnum_imp_alnum_hyphen: "is_alnum c \<Longrightarrow> alnum_hyphen c"
  by (simp add: alnum_hyphen_def)

lemma dot_not_alnum [simp]: "\<not> is_alnum CHR ''.''" "\<not> alnum_hyphen CHR ''.''"
  by (simp_all add: alnum_hyphen_def char_class_defs)

lemma lang_dnsLabel: "lang dnsLabel = {s. dns_label s}"
proof -
  have mid: "lang (RSeq (RUpTo 61 (RClass alnum_hyphen)) (RClass is_alnum)) =
      {m @ [l] | m l. length m \<le> 61 \<and> list_all alnum_hyphen m \<and> is_alnum l}"
    by (auto simp: lang_RUpTo_class)
  have "s \<in> lang dnsLabel \<longleftrightarrow> dns_label s" for s
  proof (cases s)
    case Nil
    then show ?thesis by (simp add: dnsLabel_def lang_RSeq_class dns_label_def del: lang.simps(4))
  next
    case (Cons c t)
    show ?thesis
    proof (cases t rule: rev_cases)
      case Nil
      then show ?thesis using Cons
        by (auto simp: dnsLabel_def lang_RSeq_class dns_label_def alnum_imp_alnum_hyphen
            simp del: lang.simps(4))
    next
      case (snoc m l)
      then show ?thesis using Cons
        by (auto simp: dnsLabel_def lang_RSeq_class mid dns_label_def alnum_imp_alnum_hyphen
            simp del: lang.simps(4))
    qed
  qed
  then show ?thesis by blast
qed

lemma dns_label_no_dot: "dns_label s \<Longrightarrow> CHR ''.'' \<notin> set s"
  by (auto simp: dns_label_def list_all_iff)

lemma split_last_nonempty:
  "list_all dns_label (split_on CHR ''.'' s) \<Longrightarrow> \<not> HasSuffix s ''.''"
proof
  assume labels: "list_all dns_label (split_on CHR ''.'' s)" and "HasSuffix s ''.''"
  then obtain t where "s = t @ ''.''" by (auto simp: HasSuffix_iff)
  then have "split_on CHR ''.'' s = split_on CHR ''.'' t @ [[]]"
    using split_on_snoc [of "CHR ''.''" "[]" t] by simp
  with labels show False by (simp add: dns_label_def)
qed

text \<open>The expression for names says that every label is well-formed, up to one trailing dot.\<close>

theorem dnsNameRegex_iff:
  "matches dnsNameRegex s \<longleftrightarrow> list_all dns_label (split_on CHR ''.'' (TrimSuffix s ''.''))"
proof -
  let ?L = "{s. dns_label s}" and ?A = "{u @ ''.'' | u. dns_label u}"
  have A: "lang (RSeq dnsLabel (RChar CHR ''.'')) = ?A" by (auto simp: lang_dnsLabel)
  have split: "(\<exists>u v. t = u @ v \<and> u \<in> star_of ?A \<and> v \<in> ?L) \<longleftrightarrow>
      list_all dns_label (split_on CHR ''.'' t)" for t
    using star_sep_split [of ?A "CHR ''.''" ?L t] by (auto simp: dns_label_no_dot list_all_iff)
  have B: "lang (RSeq dnsLabel (ROpt (RChar CHR ''.''))) = ?L \<union> ?A" by (auto simp: lang_dnsLabel)
  have "s \<in> lang dnsNameRegex \<longleftrightarrow> (\<exists>u v. s = u @ v \<and> u \<in> star_of ?A \<and> v \<in> ?L \<union> ?A)"
    unfolding dnsNameRegex_def lang.simps(4) [of "RStar _"] lang.simps(6) A B by blast
  also have "\<dots> \<longleftrightarrow> (\<exists>u v. s = u @ v \<and> u \<in> star_of ?A \<and> v \<in> ?L) \<or>
      (\<exists>t. s = t @ ''.'' \<and> (\<exists>u v. t = u @ v \<and> u \<in> star_of ?A \<and> v \<in> ?L))"
    using seq_optional_sep [of s "star_of ?A" ?L "CHR ''.''"] by simp
  also have "\<dots> \<longleftrightarrow> list_all dns_label (split_on CHR ''.'' s) \<or>
      (\<exists>t. s = t @ ''.'' \<and> list_all dns_label (split_on CHR ''.'' t))"
    by (simp only: split)
  also have "\<dots> \<longleftrightarrow> list_all dns_label (split_on CHR ''.'' (TrimSuffix s ''.''))"
  proof (cases "HasSuffix s ''.''")
    case True
    then show ?thesis using split_last_nonempty by (auto simp: HasSuffix_iff)
  next
    case False
    then show ?thesis by (auto simp: TrimSuffix_id)
  qed
  finally show ?thesis by (simp add: matches_iff)
qed

subsection \<open>Domain names\<close>

text \<open>A name with well-formed labels, at most 253 bytes long.\<close>

definition domain_ok :: "string \<Rightarrow> bool" where
  "domain_ok name \<longleftrightarrow> name \<noteq> [] \<and> length name \<le> 253 \<and>
     list_all dns_label (split_on CHR ''.'' (TrimSuffix name ''.''))"

text \<open>
  The length check on the labels after the expression has matched never fails: the expression
  already bounds a label by 63 bytes.
\<close>

theorem ValidateDomainName_iff:
  "ValidateDomainName name = None \<longleftrightarrow> name = ''@'' \<or> name = ''.'' \<or> domain_ok name"
  by (auto simp: ValidateDomainName_def domain_ok_def dnsNameRegex_iff not_less
      check_range_None_set [where P = "\<lambda>l. length l \<le> 63"] list_all_iff dns_label_def)

lemma ValidateDomainName_no_long_label: "ValidateDomainName name \<noteq> Some (ErrLabelTooLong l)"
  by (auto simp: ValidateDomainName_def fail_if_def dnsNameRegex_iff check_range_Some list_all_iff
      dns_label_def not_less split: if_splits) (meson nth_mem not_less)

lemma ValidateDomainTarget_iff:
  "ValidateDomainTarget name = None \<longleftrightarrow> name = ''.'' \<or> domain_ok name"
proof -
  have "\<not> domain_ok ''@''"
    by (simp add: domain_ok_def TrimSuffix_def HasSuffix_def dns_label_def alnum_hyphen_def char_class_defs)
  then show ?thesis by (auto simp: ValidateDomainTarget_def ValidateDomainName_iff)
qed

lemma domain_ok_not_root: "\<not> domain_ok ''.''"
  by (simp add: domain_ok_def TrimSuffix_def HasSuffix_def dns_label_def)

lemma ValidateZoneName_iff: "ValidateZoneName name = None \<longleftrightarrow> domain_ok name"
  using ValidateDomainTarget_iff [of name] domain_ok_not_root
  by (auto simp: ValidateZoneName_def ValidateDomainName_iff ValidateDomainTarget_def)

lemma alnum_hyphen_ascii: "alnum_hyphen c \<Longrightarrow> byte c < 128"
  by (auto simp: alnum_hyphen_def is_alnum_ascii) (simp add: byte_def)

text \<open>Every accepted domain name is ASCII, so lower-casing it byte by byte is what Go does.\<close>

lemma domain_ok_chars:
  assumes "domain_ok name" "c \<in> set name"
  shows "c = CHR ''.'' \<or> alnum_hyphen c"
proof -
  have "name = TrimSuffix name ''.'' \<or> name = TrimSuffix name ''.'' @ ''.''"
    by (cases "HasSuffix name ''.''") (auto simp: HasSuffix_iff TrimSuffix_id)
  then consider "c = CHR ''.''" | "c \<in> set (TrimSuffix name ''.'')" using assms(2) by (metis Un_iff set_ConsD set_append empty_iff empty_set)
  then consider "c = CHR ''.''" | p where "p \<in> set (split_on CHR ''.'' (TrimSuffix name ''.''))" "c \<in> set p"
    using set_split_on [of "CHR ''.''" "TrimSuffix name ''.''"] by blast
  then show ?thesis
    using assms(1) by cases (auto simp: domain_ok_def list_all_iff dns_label_def)
qed

lemma domain_ok_ascii: "domain_ok name \<Longrightarrow> is_ascii name"
  using domain_ok_chars alnum_hyphen_ascii by (fastforce simp: is_ascii_def byte_def)

lemma dns_label_ToLower [simp]: "dns_label (ToLower s) \<longleftrightarrow> dns_label s"
proof -
  have an: "is_alnum (lower_char c) = is_alnum c" for c
    by (auto simp: is_alnum_def is_digit_def is_lower_def is_upper_def byte_lower_char)
  moreover have "alnum_hyphen (lower_char c) = alnum_hyphen c" for c
    by (simp add: alnum_hyphen_def an lower_char_fixed is_upper_def is_lower_def byte_def)
  ultimately show ?thesis
    by (auto simp: dns_label_def ToLower_def list_all_iff hd_map last_map)
qed

text \<open>Normalising an accepted name keeps its labels and adds at most the trailing dot.\<close>

lemma TrimSuffix_NormalizeZoneName:
  "name \<noteq> [] \<Longrightarrow> TrimSuffix (NormalizeZoneName name) ''.'' = ToLower (TrimSuffix name ''.'')"
  by (cases "HasSuffix name ''.''")
     (auto simp: HasSuffix_iff NormalizeZoneName_undotted TrimSuffix_id)

lemma domain_ok_NormalizeZoneName:
  "domain_ok name \<Longrightarrow> length (NormalizeZoneName name) \<le> 253 \<Longrightarrow> domain_ok (NormalizeZoneName name)"
  by (auto simp: domain_ok_def TrimSuffix_NormalizeZoneName split_on_ToLower list_all_iff)

subsection \<open>Zone names\<close>

text \<open>The normal form of an accepted zone name: a lower-case name and one final dot.\<close>

lemma zone_name_normal:
  assumes "domain_ok name"
  obtains t where "NormalizeZoneName name = t @ ''.''" "ToLower t = t" "t \<noteq> []" "\<not> HasSuffix t ''.''"
proof
  let ?t = "ToLower (TrimSuffix name ''.'')"
  have ne: "name \<noteq> []" and labels: "list_all dns_label (split_on CHR ''.'' (TrimSuffix name ''.''))"
    using assms by (auto simp: domain_ok_def)
  show "NormalizeZoneName name = ?t @ ''.''"
    using ne by (cases "HasSuffix name ''.''")
      (auto simp: HasSuffix_iff NormalizeZoneName_undotted TrimSuffix_id)
  show "ToLower ?t = ?t" by simp
  show "?t \<noteq> []"
  proof
    assume "?t = []"
    then have "TrimSuffix name ''.'' = []" by simp
    with labels show False by (simp add: dns_label_def)
  qed
  show "\<not> HasSuffix ?t ''.''" using split_last_nonempty [OF labels] by simp
qed

end
