(* ===== verification/RRset_Facts.thy ===== *)
theory RRset_Facts
  imports Name_Facts
begin

section \<open>The RRset scan decides the constraints between records\<close>

text \<open>
  \<open>ValidateRecordSetConstraints\<close> is one pass with four maps. Here it is proved equivalent to the
  declarative constraints \<open>rrsets_ok\<close>: no duplicate record, no CNAME at the apex, at most one CNAME
  per owner, one TTL per RRset, no other data beside a CNAME, and a name server at the apex. The
  loop invariant relates the maps to the records seen so far.
\<close>

subsection \<open>The constraints\<close>

abbreviation rec_owner :: "string \<Rightarrow> Record \<Rightarrow> string" where
  "rec_owner z r \<equiv> canonicalRecordOwnerName (r_Name r) z"

definition dup_key :: "string \<Rightarrow> Record \<Rightarrow> string" where
  "dup_key z r = canonicalRecordDuplicateKey r (rec_owner z r) z"

definition owned :: "string \<Rightarrow> string \<Rightarrow> Record list \<Rightarrow> Record list" where
  "owned z w rs = filter (\<lambda>r. rec_owner z r = w) rs"

definition has_type :: "string \<Rightarrow> Record list \<Rightarrow> bool" where
  "has_type t rs \<longleftrightarrow> (\<exists>r \<in> set rs. r_Type r = t)"

text \<open>A record that may be added to the records already accepted.\<close>

definition may_follow :: "string \<Rightarrow> Record list \<Rightarrow> Record \<Rightarrow> bool" where
  "may_follow z ps r \<longleftrightarrow>
     dup_key z r \<notin> dup_key z ` set ps
     \<and> (r_Type r = RecordTypeCNAME \<longrightarrow>
          rec_owner z r \<noteq> z \<and> \<not> has_type RecordTypeCNAME (owned z (rec_owner z r) ps))
     \<and> (\<forall>q \<in> set ps. rec_owner z q = rec_owner z r \<and> r_Type q = r_Type r \<longrightarrow> r_TTL q = r_TTL r)"

definition rrsets_ok :: "string \<Rightarrow> Record list \<Rightarrow> bool" where
  "rrsets_ok z rs \<longleftrightarrow>
     distinct (map (dup_key z) rs)
     \<and> (\<forall>r \<in> set rs. r_Type r = RecordTypeCNAME \<longrightarrow> rec_owner z r \<noteq> z)
     \<and> (\<forall>w. length (filter (\<lambda>r. r_Type r = RecordTypeCNAME) (owned z w rs)) \<le> 1)
     \<and> (\<forall>q \<in> set rs. \<forall>r \<in> set rs. rec_owner z q = rec_owner z r \<and> r_Type q = r_Type r \<longrightarrow>
          r_TTL q = r_TTL r)"

text \<open>At a name with a CNAME there is nothing else, and the apex has a name server.\<close>

definition cname_alone :: "string \<Rightarrow> Record list \<Rightarrow> bool" where
  "cname_alone z rs \<longleftrightarrow>
     (\<forall>q \<in> set rs. \<forall>r \<in> set rs. rec_owner z q = rec_owner z r \<and> r_Type q = RecordTypeCNAME \<longrightarrow>
       r_Type r = RecordTypeCNAME)"

definition apex_ns :: "string \<Rightarrow> Record list \<Rightarrow> bool" where
  "apex_ns z rs \<longleftrightarrow> (\<exists>r \<in> set rs. rec_owner z r = z \<and> r_Type r = RecordTypeNS)"

lemma rrsets_ok_Nil [simp]: "rrsets_ok z []"
  by (simp add: rrsets_ok_def owned_def)

lemma owned_snoc: "owned z w (ps @ [r]) = owned z w ps @ (if rec_owner z r = w then [r] else [])"
  by (simp add: owned_def)

lemma bump_le_one:
  "(\<forall>w. n w + (if w = a then 1 else 0) \<le> (1::nat)) \<longleftrightarrow> (\<forall>w. n w \<le> 1) \<and> n a = 0" (is "?l \<longleftrightarrow> ?r")
proof
  assume h: ?l
  have "n w \<le> 1" for w using spec [OF h, of w] by simp
  moreover have "n a = 0" using spec [OF h, of a] by simp
  ultimately show ?r by simp
qed auto

lemma cname_count_snoc:
  "(\<forall>w. length (filter (\<lambda>r. r_Type r = t) (owned z w (ps @ [r]))) \<le> 1) \<longleftrightarrow>
   (\<forall>w. length (filter (\<lambda>r. r_Type r = t) (owned z w ps)) \<le> 1) \<and>
   (r_Type r = t \<longrightarrow> \<not> has_type t (owned z (rec_owner z r) ps))"
proof -
  have none: "length (filter (\<lambda>r. r_Type r = t) qs) = 0 \<longleftrightarrow> \<not> has_type t qs" for qs
    by (auto simp: has_type_def filter_empty_conv)
  have snoc: "length (filter (\<lambda>r. r_Type r = t) (owned z w (ps @ [r]))) =
      length (filter (\<lambda>r. r_Type r = t) (owned z w ps)) +
      (if r_Type r = t then if w = rec_owner z r then 1 else 0 else 0)" for w
    by (simp add: owned_snoc)
  show ?thesis
  proof (cases "r_Type r = t")
    case True
    then show ?thesis unfolding snoc none [symmetric] if_P [OF True] bump_le_one by blast
  next
    case False
    then show ?thesis unfolding snoc by simp
  qed
qed

lemma pairwise_snoc:
  assumes "\<And>x. R x x" "\<And>x y. R x y \<Longrightarrow> R y x"
  shows "(\<forall>q \<in> set (ps @ [r]). \<forall>s \<in> set (ps @ [r]). R q s) \<longleftrightarrow>
    (\<forall>q \<in> set ps. \<forall>s \<in> set ps. R q s) \<and> (\<forall>q \<in> set ps. R q r)"
  using assms by auto

lemma rrsets_ok_snoc: "rrsets_ok z (ps @ [r]) \<longleftrightarrow> rrsets_ok z ps \<and> may_follow z ps r"
proof -
  have ttl: "(\<forall>q \<in> set (ps @ [r]). \<forall>s \<in> set (ps @ [r]). rec_owner z q = rec_owner z s \<and> r_Type q = r_Type s \<longrightarrow>
      r_TTL q = r_TTL s) \<longleftrightarrow>
    (\<forall>q \<in> set ps. \<forall>s \<in> set ps. rec_owner z q = rec_owner z s \<and> r_Type q = r_Type s \<longrightarrow> r_TTL q = r_TTL s)
    \<and> (\<forall>q \<in> set ps. rec_owner z q = rec_owner z r \<and> r_Type q = r_Type r \<longrightarrow> r_TTL q = r_TTL r)"
    by (rule pairwise_snoc) auto
  show ?thesis
    unfolding rrsets_ok_def may_follow_def cname_count_snoc ttl by (simp; blast)
qed

lemma rrsets_ok_prefix: "rrsets_ok z (ps @ qs) \<Longrightarrow> rrsets_ok z ps"
proof (induction qs rule: rev_induct)
  case (snoc q qs)
  then show ?case by (metis append_assoc rrsets_ok_snoc)
qed simp

subsection \<open>The loop invariant\<close>

definition owner_rel :: "Record list \<Rightarrow> ownerState \<Rightarrow> bool" where
  "owner_rel qs s \<longleftrightarrow>
     (0 \<le> o_cnameIndex s \<longleftrightarrow> has_type RecordTypeCNAME qs)
     \<and> distinct (map fst (o_types s)) \<and> fst ` set (o_types s) = r_Type ` set qs
     \<and> map_of (o_rrsetTTLs s) = map_of (map (\<lambda>r. (r_Type r, r_TTL r)) qs)"

definition scan_inv :: "string \<Rightarrow> Record list \<Rightarrow> rrScan \<Rightarrow> bool" where
  "scan_inv z ps st \<longleftrightarrow>
     fst ` set (seenRecords st) = dup_key z ` set ps
     \<and> distinct (map fst (owners st)) \<and> fst ` set (owners st) = rec_owner z ` set ps
     \<and> (\<forall>w. owner_rel (owned z w ps) (owner_state st w))
     \<and> (hasApexNS st \<longleftrightarrow> apex_ns z ps)"

lemma owner_rel_new [simp]: "owner_rel [] newOwnerState"
  by (simp add: owner_rel_def newOwnerState_def has_type_def)

lemma scan_inv_empty: "scan_inv z [] emptyScan"
  by (simp add: scan_inv_def emptyScan_def owned_def owner_state_def apex_ns_def)

lemma map_of_in_keys: "map_of xs k = None \<longleftrightarrow> k \<notin> fst ` set xs"
  by (rule map_of_eq_None_iff)

text \<open>The state of the record's owner after the record, under either branch of the TTL check.\<close>

definition owner_next :: "Record \<Rightarrow> nat \<Rightarrow> ownerState \<Rightarrow> ownerState" where
  "owner_next r i s =
     (let t = r_Type r;
          s1 = (if t = RecordTypeCNAME then s\<lparr>o_cnameIndex := int i\<rparr> else s);
          s2 = (case map_of (o_rrsetTTLs s1) t of
                  None \<Rightarrow> s1\<lparr>o_rrsetTTLs := AList.update t (r_TTL r) (o_rrsetTTLs s1),
                             o_rrsetIndex := AList.update t i (o_rrsetIndex s1)\<rparr>
                | Some _ \<Rightarrow> s1);
          n = (case map_of (o_types s2) t of None \<Rightarrow> 0 | Some n \<Rightarrow> n)
      in s2\<lparr>o_types := AList.update t (Suc n) (o_types s2)\<rparr>)"

lemma map_of_snoc_first:
  "map_of (xs @ [(k, v)]) = (if k \<in> fst ` set xs then map_of xs else (map_of xs)(k \<mapsto> v))"
proof (cases "map_of xs k")
  case None
  then have "k \<notin> fst ` set xs" by (simp add: map_of_eq_None_iff)
  with None show ?thesis by (auto simp: map_add_def fun_eq_iff split: option.splits)
next
  case (Some w)
  then have "k \<in> fst ` set xs" by (metis map_of_eq_None_iff option.distinct(1))
  with Some show ?thesis by (auto simp: map_add_def fun_eq_iff split: option.splits)
qed

lemma set_cname_index [simp]:
  "o_rrsetTTLs (if b then s\<lparr>o_cnameIndex := n\<rparr> else s) = o_rrsetTTLs s"
  "o_rrsetIndex (if b then s\<lparr>o_cnameIndex := n\<rparr> else s) = o_rrsetIndex s"
  "o_types (if b then s\<lparr>o_cnameIndex := n\<rparr> else s) = o_types s"
  "o_cnameIndex (if b then s\<lparr>o_cnameIndex := n\<rparr> else s) = (if b then n else o_cnameIndex s)"
  by simp_all

lemma owner_next_fields:
  "o_cnameIndex (owner_next r i s) = (if r_Type r = RecordTypeCNAME then int i else o_cnameIndex s)"
  "\<exists>n. o_types (owner_next r i s) = AList.update (r_Type r) n (o_types s)"
  "map_of (o_rrsetTTLs (owner_next r i s)) =
     (if map_of (o_rrsetTTLs s) (r_Type r) = None
      then (map_of (o_rrsetTTLs s))(r_Type r \<mapsto> r_TTL r) else map_of (o_rrsetTTLs s))"
  by (cases "map_of (o_rrsetTTLs s) (r_Type r)"; force simp: owner_next_def Let_def update_conv')+

lemma owner_rel_next:
  assumes "owner_rel qs s"
  shows "owner_rel (qs @ [r]) (owner_next r i s)"
proof -
  let ?s' = "owner_next r i s"
  have "0 \<le> o_cnameIndex ?s' \<longleftrightarrow> has_type RecordTypeCNAME (qs @ [r])"
    using assms by (simp add: owner_next_fields owner_rel_def has_type_def)
  moreover obtain n where "o_types ?s' = AList.update (r_Type r) n (o_types s)"
    using owner_next_fields(2) by blast
  then have "fst ` set (o_types ?s') = r_Type ` set (qs @ [r])" "distinct (map fst (o_types ?s'))"
    using assms by (simp_all add: owner_rel_def dom_update distinct_update)
  moreover have "map_of (o_rrsetTTLs s) (r_Type r) = None \<longleftrightarrow> r_Type r \<notin> r_Type ` set qs"
    using assms by (simp add: owner_rel_def map_of_eq_None_iff image_image)
  then have "map_of (o_rrsetTTLs ?s') = map_of (map (\<lambda>r. (r_Type r, r_TTL r)) (qs @ [r]))"
    using assms by (simp add: owner_next_fields owner_rel_def map_of_snoc_first image_image
        del: map_of_append)
  ultimately show ?thesis by (simp add: owner_rel_def)
qed

text \<open>One step of the scan: when it succeeds, and the state it leaves.\<close>

lemma rrset_step_eq:
  fixes r :: Record and z :: string
  defines "owner \<equiv> canonicalRecordOwnerName (r_Name r) z"
  shows "rrset_step z i r st = Inr st' \<longleftrightarrow>
     map_of (seenRecords st) (dup_key z r) = None
     \<and> (r_Type r = RecordTypeCNAME \<longrightarrow> owner \<noteq> z \<and> \<not> 0 \<le> o_cnameIndex (owner_state st owner))
     \<and> (\<forall>ttl. map_of (o_rrsetTTLs (owner_state st owner)) (r_Type r) = Some ttl \<longrightarrow> ttl = r_TTL r)
     \<and> st' = \<lparr>owners = AList.update owner (owner_next r i (owner_state st owner)) (owners st),
              seenRecords = AList.update (dup_key z r) i (seenRecords st),
              hasApexNS = (hasApexNS st \<or> owner = z \<and> r_Type r = RecordTypeNS)\<rparr>"
proof -
  have key: "canonicalRecordDuplicateKey r owner z = dup_key z r" by (simp add: dup_key_def owner_def)
  show ?thesis
    unfolding rrset_step_def rrset_commit_def owner_next_def Let_def owner_def [symmetric] key
    by (cases "map_of (seenRecords st) (dup_key z r)";
        cases "map_of (o_rrsetTTLs (owner_state st owner)) (r_Type r)") auto
qed

lemma map_of_typed_ttl:
  assumes "\<forall>q \<in> set qs. \<forall>r \<in> set qs. r_Type q = r_Type r \<longrightarrow> r_TTL q = r_TTL r"
  shows "map_of (map (\<lambda>r. (r_Type r, r_TTL r)) qs) t = Some ttl \<longleftrightarrow>
    (\<exists>q \<in> set qs. r_Type q = t \<and> r_TTL q = ttl)"
  using assms
proof (induction qs)
  case (Cons q qs)
  from Cons.prems have "\<forall>q \<in> set qs. \<forall>r \<in> set qs. r_Type q = r_Type r \<longrightarrow> r_TTL q = r_TTL r"
    unfolding list.set(2) by blast
  from Cons.IH [OF this] have IH: "map_of (map (\<lambda>r. (r_Type r, r_TTL r)) qs) t = Some ttl \<longleftrightarrow>
      (\<exists>q \<in> set qs. r_Type q = t \<and> r_TTL q = ttl)" .
  show ?case
  proof (cases "r_Type q = t")
    case True
    with Cons.prems have "\<forall>p \<in> set qs. r_Type p = t \<longrightarrow> r_TTL p = r_TTL q"
      by (metis list.set_intros)
    with True show ?thesis by auto
  next
    case False
    with IH show ?thesis by simp
  qed
qed simp

lemma rrset_step_may_follow:
  assumes inv: "scan_inv z ps st" and ok: "rrsets_ok z ps"
  shows "(\<exists>st'. rrset_step z i r st = Inr st') \<longleftrightarrow> may_follow z ps r"
proof -
  let ?w = "rec_owner z r"
  have rel: "owner_rel (owned z ?w ps) (owner_state st ?w)" using inv by (simp add: scan_inv_def)
  have seen: "map_of (seenRecords st) (dup_key z r) = None \<longleftrightarrow> dup_key z r \<notin> dup_key z ` set ps"
    using inv by (simp add: scan_inv_def map_of_eq_None_iff)
  have same: "\<forall>q \<in> set (owned z ?w ps). \<forall>s \<in> set (owned z ?w ps). r_Type q = r_Type s \<longrightarrow> r_TTL q = r_TTL s"
    using ok by (auto simp: rrsets_ok_def owned_def)
  have ttl: "(\<forall>ttl. map_of (o_rrsetTTLs (owner_state st ?w)) (r_Type r) = Some ttl \<longrightarrow> ttl = r_TTL r) \<longleftrightarrow>
      (\<forall>q \<in> set ps. rec_owner z q = ?w \<and> r_Type q = r_Type r \<longrightarrow> r_TTL q = r_TTL r)"
  proof -
    have "map_of (o_rrsetTTLs (owner_state st ?w)) =
        map_of (map (\<lambda>r. (r_Type r, r_TTL r)) (owned z ?w ps))"
      using rel by (simp add: owner_rel_def)
    then show ?thesis by (simp only: map_of_typed_ttl [OF same]) (auto simp: owned_def)
  qed
  have "0 \<le> o_cnameIndex (owner_state st ?w) \<longleftrightarrow> has_type RecordTypeCNAME (owned z ?w ps)"
    using rel by (simp add: owner_rel_def)
  then show ?thesis unfolding rrset_step_eq may_follow_def seen ttl by simp
qed

lemma rrset_step_inv:
  assumes inv: "scan_inv z ps st" and step: "rrset_step z i r st = Inr st'"
  shows "scan_inv z (ps @ [r]) st'"
proof -
  let ?w = "rec_owner z r"
  have st': "owners st' = AList.update ?w (owner_next r i (owner_state st ?w)) (owners st)"
    "seenRecords st' = AList.update (dup_key z r) i (seenRecords st)"
    "hasApexNS st' \<longleftrightarrow> hasApexNS st \<or> ?w = z \<and> r_Type r = RecordTypeNS"
    using step unfolding rrset_step_eq by auto
  have state: "owner_state st' w =
      (if w = ?w then owner_next r i (owner_state st ?w) else owner_state st w)" for w
    by (simp add: owner_state_def st' update_conv')
  have "owner_rel (owned z w (ps @ [r])) (owner_state st' w)" for w
    using inv owner_rel_next [of "owned z ?w ps" "owner_state st ?w" r i]
    by (auto simp: state owned_snoc scan_inv_def)
  then show ?thesis
    using inv by (auto simp: scan_inv_def st' dom_update distinct_update apex_ns_def)
qed

text \<open>The scan of the whole list.\<close>

lemma rrset_scan_iff:
  assumes "scan_inv z ps st" "rrsets_ok z ps"
  shows "(\<exists>st'. rrset_scan z i rs st = Inr st') \<longleftrightarrow> rrsets_ok z (ps @ rs)"
    and "rrset_scan z i rs st = Inr st' \<Longrightarrow> scan_inv z (ps @ rs) st'"
  using assms
proof (induction rs arbitrary: ps st i)
  case Nil
  { case 1 then show ?case by simp }
  { case 2 then show ?case by simp }
next
  case (Cons r rs)
  have ok_prefix: "rrsets_ok z (ps @ r # rs) \<Longrightarrow> may_follow z ps r" for ps
    using rrsets_ok_prefix [of z "ps @ [r]" rs] by (simp add: rrsets_ok_snoc)
  { case 1
    show ?case
    proof (cases "rrset_step z i r st")
      case (Inl e)
      then have "\<not> may_follow z ps r" using rrset_step_may_follow [OF 1(1,2), of i r] by auto
      with ok_prefix Inl show ?thesis by auto
    next
      case (Inr st1)
      then have "may_follow z ps r" using rrset_step_may_follow [OF 1(1,2), of i r] by auto
      then have "rrsets_ok z (ps @ [r])" using 1 by (simp add: rrsets_ok_snoc)
      moreover have "scan_inv z (ps @ [r]) st1" using 1(1) Inr by (rule rrset_step_inv)
      ultimately show ?thesis using Cons(1) [of "ps @ [r]" st1 "Suc i"] Inr by simp
    qed }
  { case 2
    then obtain st1 where s: "rrset_step z i r st = Inr st1" "rrset_scan z (Suc i) rs st1 = Inr st'"
      by auto
    then have "may_follow z ps r" using rrset_step_may_follow [OF 2(2,3), of i r] by auto
    then have "rrsets_ok z (ps @ [r])" using 2 by (simp add: rrsets_ok_snoc)
    moreover have "scan_inv z (ps @ [r]) st1" using 2(2) s(1) by (rule rrset_step_inv)
    ultimately show ?case using Cons(2) [OF s(2), of "ps @ [r]"] by simp }
qed

subsection \<open>The decision\<close>

lemma cname_exclusive_None:
  "cname_exclusive os = None \<longleftrightarrow>
     (\<forall>(w, s) \<in> set os. \<not> (0 \<le> o_cnameIndex s \<and> 1 < length (o_types s)))"
  by (induction os rule: cname_exclusive.induct) auto

lemma cname_exclusive_perm: "set os = set os' \<Longrightarrow> cname_exclusive os = None \<longleftrightarrow> cname_exclusive os' = None"
  by (simp add: cname_exclusive_None)

lemma card_le_one_iff:
  assumes "finite T" "c \<in> T"
  shows "card T \<le> 1 \<longleftrightarrow> (\<forall>t \<in> T. t = c)"
  unfolding One_nat_def card_le_Suc0_iff_eq [OF assms(1)] using assms(2) by metis

lemma owner_rel_exclusive:
  assumes "owner_rel qs s"
  shows "\<not> (0 \<le> o_cnameIndex s \<and> 1 < length (o_types s)) \<longleftrightarrow>
    (has_type RecordTypeCNAME qs \<longrightarrow> (\<forall>r \<in> set qs. r_Type r = RecordTypeCNAME))"
proof -
  have len: "length (o_types s) = card (r_Type ` set qs)"
    using assms distinct_card [of "map fst (o_types s)"] by (simp add: owner_rel_def)
  have "card (r_Type ` set qs) \<le> 1 \<longleftrightarrow> (\<forall>r \<in> set qs. r_Type r = RecordTypeCNAME)"
    if "has_type RecordTypeCNAME qs"
  proof -
    from that have "RecordTypeCNAME \<in> r_Type ` set qs" by (force simp: has_type_def)
    from card_le_one_iff [OF _ this] show ?thesis by simp
  qed
  moreover have "0 \<le> o_cnameIndex s \<longleftrightarrow> has_type RecordTypeCNAME qs"
    using assms by (simp add: owner_rel_def)
  ultimately show ?thesis unfolding len not_less [symmetric] by blast
qed

lemma scan_inv_exclusive:
  assumes "scan_inv z rs st"
  shows "cname_exclusive (owners st) = None \<longleftrightarrow> cname_alone z rs"
proof -
  have state: "s = owner_state st w" if "(w, s) \<in> set (owners st)" for w s
    using assms that by (simp add: scan_inv_def owner_state_def)
  have rel: "owner_rel (owned z w rs) (owner_state st w)" for w
    using assms by (simp add: scan_inv_def)
  have keys: "fst ` set (owners st) = rec_owner z ` set rs" using assms by (simp add: scan_inv_def)
  have "cname_exclusive (owners st) = None \<longleftrightarrow>
      (\<forall>w \<in> fst ` set (owners st).
        \<not> (0 \<le> o_cnameIndex (owner_state st w) \<and> 1 < length (o_types (owner_state st w))))"
    using state by (force simp: cname_exclusive_None)
  also have "\<dots> \<longleftrightarrow> (\<forall>w \<in> rec_owner z ` set rs. has_type RecordTypeCNAME (owned z w rs) \<longrightarrow>
      (\<forall>r \<in> set (owned z w rs). r_Type r = RecordTypeCNAME))"
    by (simp only: keys owner_rel_exclusive [OF rel])
  also have "\<dots> \<longleftrightarrow> cname_alone z rs"
    by (auto simp: cname_alone_def has_type_def owned_def)
  finally show ?thesis .
qed

theorem ValidateRecordSetConstraints_iff:
  "ValidateRecordSetConstraints (Some zone) = None \<longleftrightarrow>
     (let z = NormalizeZoneName (z_Name zone); rs = z_Records zone
      in rrsets_ok z rs \<and> cname_alone z rs \<and> apex_ns z rs)"
proof -
  let ?z = "NormalizeZoneName (z_Name zone)" and ?rs = "z_Records zone"
  note scan = rrset_scan_iff [OF scan_inv_empty rrsets_ok_Nil, of ?z 0 ?rs]
  show ?thesis
  proof (cases "rrset_scan ?z 0 ?rs emptyScan")
    case (Inl e)
    then have "\<not> rrsets_ok ?z ?rs" using scan(1) by simp
    with Inl show ?thesis by (simp add: ValidateRecordSetConstraints_def Let_def)
  next
    case (Inr st)
    then have "rrsets_ok ?z ?rs" and inv: "scan_inv ?z ?rs st" using scan by auto
    moreover have "hasApexNS st \<longleftrightarrow> apex_ns ?z ?rs" using inv by (simp add: scan_inv_def)
    ultimately show ?thesis
      using Inr scan_inv_exclusive [OF inv]
      by (simp add: ValidateRecordSetConstraints_def Let_def)
  qed
qed

end
