(* ===== verification/TXT_Facts.thy ===== *)
theory TXT_Facts
  imports Zone_Validation
begin

section \<open>TXT values and their character-strings\<close>

text \<open>
  \<open>SplitTXTValue\<close> cuts a value into character-strings of at most 255 bytes. The pieces join to the
  value, and a valid UTF-8 value is cut between runes only.
\<close>

subsection \<open>The cut\<close>

lemma back_up_le: "back_up v e \<le> e"
  by (induction e) auto

lemma back_up_start: "0 < back_up v e \<Longrightarrow> RuneStart (v ! back_up v e)"
  by (induction e) (auto split: if_splits)

lemma back_up_here: "RuneStart (v ! e) \<Longrightarrow> back_up v e = e"
  by (cases e) auto

lemma back_up_skip: "0 < e \<Longrightarrow> \<not> RuneStart (v ! e) \<Longrightarrow> back_up v e = back_up v (e - 1)"
  by (cases e) auto

lemma txt_cut_le: "txt_cut v \<le> 255"
  using back_up_le [of v 255] by (simp add: txt_cut_def MaxTXTCharacterStringLength_def Let_def)

subsection \<open>Splitting\<close>

lemma concat_SplitTXTValue: "concat (SplitTXTValue v) = v"
proof (induction v rule: SplitTXTValue.induct)
  case (1 v)
  then show ?case
    by (cases "length v \<le> MaxTXTCharacterStringLength") (simp_all add: SplitTXTValue.simps [of v])
qed

lemma SplitTXTValue_length: "p \<in> set (SplitTXTValue v) \<Longrightarrow> length p \<le> 255"
proof (induction v rule: SplitTXTValue.induct)
  case (1 v)
  then show ?case
    using txt_cut_le [of v]
    by (cases "length v \<le> MaxTXTCharacterStringLength")
      (auto simp: SplitTXTValue.simps [of v] MaxTXTCharacterStringLength_def)
qed

subsection \<open>UTF-8 boundaries\<close>

text \<open>The bytes of a rune after its first are continuation bytes.\<close>

lemma decode_rune_cont:
  assumes "0 < e" "e < snd (decode_rune s)"
  shows "\<not> RuneStart (s ! e)"
proof (cases s)
  case (Cons a r)
  have "e = 1 \<or> e = 2 \<or> e = 3" using assms decode_rune_width_4 [of s] by linarith
  then show ?thesis using assms Cons
    by (auto simp: RuneStart_def in_range_def Let_def numeral_2_eq_2 numeral_3_eq_3
        split: if_splits list.splits)
qed (use assms in simp)

text \<open>Decoding a rune reads only its own bytes.\<close>

lemma decode_rune_take:
  assumes "snd (decode_rune s) \<le> n" "decode_rune s \<noteq> (0xFFFD, 1)" "0 < n"
  shows "decode_rune (take n s) = decode_rune s"
proof (cases s)
  case (Cons a r)
  then obtain m where "n = Suc m" using assms(3) by (cases n) auto
  with Cons assms show ?thesis
    by (auto simp: Let_def take_Cons' split: if_splits list.splits)
qed simp

lemma ValidString_cut:
  "ValidString s \<Longrightarrow> e \<le> length s \<Longrightarrow> (e < length s \<Longrightarrow> 0 < e \<Longrightarrow> RuneStart (s ! e)) \<Longrightarrow>
     ValidString (take e s) \<and> ValidString (drop e s)"
proof (induction s arbitrary: e rule: runes.induct)
  case (1 s)
  show ?case
  proof (cases "s = [] \<or> e = 0")
    case True
    with 1 show ?thesis by auto
  next
    case False
    let ?n = "snd (decode_rune s)"
    from False 1(2) have ok: "decode_rune s \<noteq> (0xFFFD, 1)" "ValidString (drop ?n s)"
      using ValidString_step by blast+
    have n: "0 < ?n" "?n \<le> length s"
      using False decode_rune_width_pos decode_rune_width_le by auto
    have "?n \<le> e"
    proof (rule ccontr)
      assume "\<not> ?n \<le> e"
      then have "e < ?n" by simp
      with decode_rune_cont [of e s] False 1(4) n show False by auto
    qed
    have rest: "ValidString (take (e - ?n) (drop ?n s)) \<and> ValidString (drop (e - ?n) (drop ?n s))"
      using False ok(2) 1(3,4) \<open>?n \<le> e\<close> n by (intro 1(1)) auto
    have "decode_rune (take e s) = decode_rune s"
      using ok(1) \<open>?n \<le> e\<close> False by (intro decode_rune_take) auto
    then have "ValidString (take e s)"
      using False ok(1) rest by (subst ValidString_step) (auto simp: drop_take)
    moreover have "drop (e - ?n) (drop ?n s) = drop e s" using \<open>?n \<le> e\<close> by simp
    ultimately show ?thesis using rest by simp
  qed
qed

text \<open>Every character-string of a valid UTF-8 value is valid UTF-8, and not empty.\<close>

lemma txt_cut_valid:
  assumes "ValidString v" "255 < length v"
  shows "ValidString (take (txt_cut v) v) \<and> ValidString (drop (txt_cut v) v)"
proof (cases "back_up v 255 = 0")
  case False
  then have "RuneStart (v ! txt_cut v)"
    using back_up_start [of v 255] by (simp add: txt_cut_def MaxTXTCharacterStringLength_def Let_def)
  then show ?thesis using assms txt_cut_le [of v] by (intro ValidString_cut) auto
next
  case True
  have cont: "back_up v e = 0 \<Longrightarrow> 0 < i \<Longrightarrow> i \<le> e \<Longrightarrow> \<not> RuneStart (v ! i)" for e i
    by (induction e) (auto split: if_splits simp: le_Suc_eq)
  have v: "v \<noteq> []" using assms(2) by auto
  have "decode_rune v \<noteq> (0xFFFD, 1)" "ValidString (drop (snd (decode_rune v)) v)"
    using assms(1) v ValidString_step by blast+
  moreover have "snd (decode_rune v) \<le> 4" by (rule decode_rune_width_4)
  moreover have "0 < snd (decode_rune v)" using v by (rule decode_rune_width_pos)
  moreover have "drop (snd (decode_rune v)) v \<noteq> []" using calculation(3) assms(2) by simp
  ultimately have "\<not> RuneStart (v ! snd (decode_rune v))"
    and ok: "decode_rune (drop (snd (decode_rune v)) v) \<noteq> (0xFFFD, 1)"
    using True cont [of 255 "snd (decode_rune v)"] ValidString_step by auto
  moreover have "v ! snd (decode_rune v) = hd (drop (snd (decode_rune v)) v)"
    using \<open>drop (snd (decode_rune v)) v \<noteq> []\<close> by (simp add: hd_drop_conv_nth)
  ultimately have "decode_rune (drop (snd (decode_rune v)) v) = (0xFFFD, 1)"
    using \<open>drop (snd (decode_rune v)) v \<noteq> []\<close>
    by (cases "drop (snd (decode_rune v)) v") (auto simp: RuneStart_def in_range_def Let_def)
  with ok show ?thesis by simp
qed

lemma SplitTXTValue_valid: "ValidString v \<Longrightarrow> p \<in> set (SplitTXTValue v) \<Longrightarrow> ValidString p"
proof (induction v rule: SplitTXTValue.induct)
  case (1 v)
  then show ?case
    using txt_cut_valid [of v]
    by (cases "length v \<le> MaxTXTCharacterStringLength")
      (auto simp: SplitTXTValue.simps [of v] MaxTXTCharacterStringLength_def)
qed

text \<open>The bytes a TXT record takes on the wire: each character-string has a length byte.\<close>

definition txt_wire_length :: "string \<Rightarrow> nat" where
  "txt_wire_length v = sum_list (map (\<lambda>p. Suc (length p)) (SplitTXTValue v))"

lemma txt_wire_length_eq: "txt_wire_length v = length v + length (SplitTXTValue v)"
proof -
  have "sum_list (map (\<lambda>p. Suc (length p)) ps) = length (concat ps) + length ps" for ps :: "string list"
    by (induction ps) auto
  then show ?thesis by (simp add: txt_wire_length_def concat_SplitTXTValue)
qed

text \<open>For an ASCII value the cut is always at 255 bytes, and the limit keeps the record in 65535 bytes.\<close>

lemma txt_cut_ascii: "is_ascii v \<Longrightarrow> 255 < length v \<Longrightarrow> txt_cut v = 255"
proof -
  assume "is_ascii v" "255 < length v"
  then have "byte (v ! 255) < 128" by (simp add: is_ascii_def)
  then have "back_up v 255 = 255" by (intro back_up_here) (simp add: RuneStart_def in_range_def)
  then show ?thesis by (simp add: txt_cut_def MaxTXTCharacterStringLength_def)
qed

lemma SplitTXTValue_ascii_count:
  "is_ascii v \<Longrightarrow> v \<noteq> [] \<Longrightarrow> length (SplitTXTValue v) = (length v + 254) div 255"
proof (induction v rule: SplitTXTValue.induct)
  case (1 v)
  show ?case
  proof (cases "length v \<le> MaxTXTCharacterStringLength")
    case True
    then have "1 \<le> length v \<and> length v \<le> 255" using 1(3)
      by (cases v) (auto simp: MaxTXTCharacterStringLength_def)
    then have "(length v + 254) div 255 = 1" by auto
    with True show ?thesis by (simp add: SplitTXTValue.simps [of v])
  next
    case False
    then have long: "255 < length v" by (simp add: MaxTXTCharacterStringLength_def)
    have "is_ascii (drop 255 v)" using 1(2) by (auto simp: is_ascii_def dest: in_set_dropD)
    then have "length (SplitTXTValue (drop 255 v)) = (length v - 255 + 254) div 255"
      using 1(1) [OF False] long 1(2) by (simp add: txt_cut_ascii)
    moreover have "(length v + 254) div 255 = Suc ((length v - 255 + 254) div 255)"
    proof -
      have "length v + 254 = (length v - 255 + 254) + 255" using long by simp
      then show ?thesis by (simp only: div_add_self2)
    qed
    ultimately show ?thesis
      using False long 1(2) by (simp add: SplitTXTValue.simps [of v] txt_cut_ascii)
  qed
qed

subsection \<open>A value of four-byte runes\<close>

text \<open>
  A run of \<open>k\<close> copies of one four-byte rune (U+1F600) is cut every 252 bytes, so it needs more
  length bytes than an ASCII value of the same size.
\<close>

definition rune4 :: string where
  "rune4 = [CHR 0xF0, CHR 0x9F, CHR 0x98, CHR 0x80]"

definition runes4 :: "nat \<Rightarrow> string" where
  "runes4 k = concat (replicate k rune4)"

lemma length_rune4 [simp]: "length rune4 = 4"
  by (simp add: rune4_def)

lemma length_runes4 [simp]: "length (runes4 k) = 4 * k"
  by (induction k) (simp_all add: runes4_def rune4_def)

lemma runes4_Suc: "runes4 (Suc k) = rune4 @ runes4 k"
  by (simp add: runes4_def)

lemma runes4_empty [simp]: "runes4 k = [] \<longleftrightarrow> k = 0"
  by (simp add: runes4_def rune4_def)

lemma runes4_add: "runes4 (j + k) = runes4 j @ runes4 k"
  by (induction j) (simp_all add: runes4_def)

lemma runes4_nth: "i < 4 * k \<Longrightarrow> runes4 k ! i = rune4 ! (i mod 4)"
proof (induction k arbitrary: i)
  case (Suc k)
  show ?case
  proof (cases "i < 4")
    case True
    then show ?thesis by (simp add: runes4_Suc nth_append)
  next
    case False
    then have "runes4 (Suc k) ! i = runes4 k ! (i - 4)" by (simp add: runes4_Suc nth_append)
    also have "\<dots> = rune4 ! ((i - 4) mod 4)" using Suc False by simp
    also have "(i - 4) mod 4 = i mod 4" using False by (simp add: mod_if)
    finally show ?thesis .
  qed
qed simp

lemma decode_rune4: "decode_rune (rune4 @ s) = (0x1F600, 4)"
  by (simp add: rune4_def in_range_def byte_def Let_def)

lemma runes_runes4: "runes (runes4 k) = replicate k (0x1F600, 4)"
proof (induction k)
  case (Suc k)
  have "rune4 @ runes4 k \<noteq> []" by (simp add: rune4_def)
  then have "runes (rune4 @ runes4 k) = (0x1F600, 4) # runes (drop 4 (rune4 @ runes4 k))"
    by (subst runes.simps) (simp only: decode_rune4, simp)
  also have "drop 4 (rune4 @ runes4 k) = runes4 k" by (simp add: rune4_def)
  finally show ?case using Suc by (simp add: runes4_Suc)
qed (simp add: runes4_def)

lemma ValidateTXTValue_runes4: "4 * k \<le> 65279 \<Longrightarrow> ValidateTXTValue (runes4 k) = None"
  by (simp add: ValidateTXTValue_def MaxTXTValueLength_def ValidString_def runes_runes4
      unsafeTXTControlCharacter_def list_ex_iff)

lemma txt_cut_runes4: "63 < k \<Longrightarrow> txt_cut (runes4 k) = 252"
proof -
  assume k: "63 < k"
  have cont: "\<not> RuneStart (runes4 k ! 255)" "\<not> RuneStart (runes4 k ! 254)" "\<not> RuneStart (runes4 k ! 253)"
    and start: "RuneStart (runes4 k ! 252)"
    using k by (simp_all add: runes4_nth rune4_def RuneStart_def in_range_def byte_def)
  have "back_up (runes4 k) 255 = 252"
    using cont by (simp add: back_up_skip back_up_here [OF start])
  then show ?thesis by (simp add: txt_cut_def MaxTXTCharacterStringLength_def)
qed

lemma SplitTXTValue_runes4_count: "0 < k \<Longrightarrow> length (SplitTXTValue (runes4 k)) = (k + 62) div 63"
proof (induction k rule: less_induct)
  case (less k)
  show ?case
  proof (cases "k \<le> 63")
    case True
    then have "(k + 62) div 63 = 1" using less.prems by auto
    with True show ?thesis by (simp add: SplitTXTValue.simps [of "runes4 k"] MaxTXTCharacterStringLength_def)
  next
    case False
    then have "drop 252 (runes4 k) = runes4 (k - 63)"
      using runes4_add [of 63 "k - 63"] by simp
    moreover have "length (SplitTXTValue (runes4 (k - 63))) = (k - 63 + 62) div 63"
      using False by (intro less.IH) auto
    moreover have "(k + 62) div 63 = Suc ((k - 63 + 62) div 63)"
    proof -
      have "k + 62 = (k - 63 + 62) + 63" using False by simp
      then show ?thesis by (simp only: div_add_self2)
    qed
    ultimately show ?thesis
      using False by (simp add: SplitTXTValue.simps [of "runes4 k"] txt_cut_runes4
          MaxTXTCharacterStringLength_def)
  qed
qed

end
