(* ===== verification/Zone_Facts.thy ===== *)
theory Zone_Facts
  imports RRset_Facts TXT_Facts Name_Facts
begin

section \<open>What zone validation guarantees\<close>

text \<open>
  The properties of \<open>pkg/model\<close>: which names and zones are accepted, that names are identified up to
  case and the final dot, that every record of an accepted zone lies in the zone, and what
  splitting a TXT value does. \<open>example_zone\<close> is a small accepted zone.
\<close>

definition example_soa :: SOARecord where
  "example_soa = \<lparr>soa_MName = ''ns.ex.'', soa_RName = ''op.ex.'', soa_Serial = 2024010101,
     soa_Refresh = 3600, soa_Retry = 1800, soa_Expire = 604800, soa_Minimum = 300\<rparr>"

definition example_record :: "string \<Rightarrow> string \<Rightarrow> string \<Rightarrow> Record" where
  "example_record name t value =
     \<lparr>r_ID = [], r_Name = name, r_Type = t, r_TTL = 300, r_Value = value, r_Priority = None\<rparr>"

definition example_zone :: Zone where
  "example_zone = \<lparr>z_Name = ''ex.'', z_Version = ''v1'', z_SOA = example_soa,
     z_Records = [example_record ''@'' ''NS'' ''ns'', example_record ''ns'' ''A'' ''1.2.3.4''],
     z_DNSSEC = None, z_CreatedAt = 0, z_UpdatedAt = 0\<rparr>"

lemma example_zone_valid: "ValidateZone (Some example_zone) = None"
  by code_simp

subsection \<open>Zones\<close>

lemma validate_record_in_zone_None:
  "validate_record_in_zone zn i r = None \<longleftrightarrow>
    ValidateRecord r = None \<and> ValidateRecordNameInZone (r_Name r) zn = None
    \<and> ValidateRecordValueInZone (r_Type r) (r_Value r) zn = None"
  by (simp add: validate_record_in_zone_def)

lemma ValidateZone_iff:
  "ValidateZone (Some z) = None \<longleftrightarrow>
    domain_ok (z_Name z) \<and> ValidateSOAInZone (z_SOA z) (z_Name z) = None
    \<and> (\<forall>r \<in> set (z_Records z). ValidateRecord r = None \<and> ValidateRecordNameInZone (r_Name r) (z_Name z) = None
        \<and> ValidateRecordValueInZone (r_Type r) (r_Value r) (z_Name z) = None)
    \<and> ValidateRecordSetConstraints (Some z) = None"
  by (simp add: ValidateZone_def ValidateZoneName_iff check_range_None_set
      [where P = "\<lambda>r. ValidateRecord r = None \<and> ValidateRecordNameInZone (r_Name r) (z_Name z) = None
        \<and> ValidateRecordValueInZone (r_Type r) (r_Value r) (z_Name z) = None"] validate_record_in_zone_None)

lemma owner_in_zone:
  assumes "ValidateRecordNameInZone n zn = None"
  shows "in_zone (NormalizeRecordOwnerName n zn) (NormalizeZoneName zn)"
  using assms
  by (auto simp: ValidateRecordNameInZone_def in_zone_def NormalizeRecordOwnerName_def Let_def split: if_splits)

subsection \<open>Properties\<close>

text \<open>
  \<open>ValidateDomainName\<close> accepts exactly the shorthand for the apex, the root, and the names of at
  most 253 bytes whose labels have 1 to 63 letters, digits and inner hyphens.
\<close>

theorem accepted_domain_names:
  "ValidateDomainName name = None \<longleftrightarrow> name = ''@'' \<or> name = ''.'' \<or> domain_ok name"
  by (rule ValidateDomainName_iff)

text \<open>
  Two zone names have the same normal form exactly when they agree up to the case of letters
  and one trailing dot; the normal form itself is a fixed point.
\<close>

theorem normal_form_identifies:
  assumes "s \<noteq> []" "t \<noteq> []"
  shows "(NormalizeZoneName s = NormalizeZoneName t \<longleftrightarrow>
      ToLower s = ToLower t \<or> ToLower s = ToLower t @ ''.'' \<and> \<not> HasSuffix t ''.''
        \<or> ToLower t = ToLower s @ ''.'' \<and> \<not> HasSuffix s ''.'')
    \<and> NormalizeZoneName (NormalizeZoneName s) = NormalizeZoneName s"
  using NormalizeZoneName_eq_iff [OF assms] NormalizeZoneName_idem by blast

theorem normal_form_identifies_witness:
  "NormalizeZoneName ''Ex.ORG'' = NormalizeZoneName ''ex.org.''"
proof -
  have "ToLower ''ex.org.'' = ToLower ''Ex.ORG'' @ ''.'' \<and> \<not> HasSuffix ''Ex.ORG'' ''.''" by code_simp
  then show ?thesis using normal_form_identifies [of "''Ex.ORG''" "''ex.org.''"] by blast
qed

text \<open>
  C9: The constraints between records hold exactly when no two records are equal up to spelling, no
  RRset mixes TTLs, a CNAME is alone at its name and not at the apex, and the apex has an NS
  record. The single pass with per-owner state decides this declarative condition.
\<close>

theorem record_set_constraints:
  "ValidateRecordSetConstraints (Some zone) = None \<longleftrightarrow>
     rrsets_ok (NormalizeZoneName (z_Name zone)) (z_Records zone)
     \<and> cname_alone (NormalizeZoneName (z_Name zone)) (z_Records zone)
     \<and> apex_ns (NormalizeZoneName (z_Name zone)) (z_Records zone)"
  using ValidateRecordSetConstraints_iff [of zone] by (simp add: Let_def)

text \<open>
  C34: In an accepted zone every record's owner, after expansion and normalisation, is the zone's
  own name or a name below it; the zone has an NS record at its apex; and no CNAME shares its name
  with other data.
\<close>

theorem accepted_zone_is_closed:
  assumes "ValidateZone (Some z) = None" "r \<in> set (z_Records z)"
  shows "in_zone (NormalizeRecordOwnerName (r_Name r) (z_Name z)) (NormalizeZoneName (z_Name z))
    \<and> apex_ns (NormalizeZoneName (z_Name z)) (z_Records z)
    \<and> cname_alone (NormalizeZoneName (z_Name z)) (z_Records z)"
  using assms owner_in_zone [of "r_Name r" "z_Name z"] ValidateRecordSetConstraints_iff [of z]
  by (auto simp: ValidateZone_iff Let_def)

theorem accepted_zone_is_closed_witness:
  "in_zone (NormalizeRecordOwnerName ''ns'' ''ex.'') (NormalizeZoneName ''ex.'')"
  using accepted_zone_is_closed [OF example_zone_valid, of "example_record ''ns'' ''A'' ''1.2.3.4''"]
  by (simp add: example_zone_def example_record_def)

subsection \<open>TXT values\<close>

text \<open>
  Splitting a TXT value loses nothing: the character-strings concatenate to the value, none is
  longer than 255 bytes, and each is valid UTF-8 if the value is.
\<close>

theorem txt_split:
  "concat (SplitTXTValue v) = v \<and> list_all (\<lambda>p. length p \<le> 255) (SplitTXTValue v)
    \<and> (ValidString v \<longrightarrow> list_all ValidString (SplitTXTValue v))"
  using concat_SplitTXTValue SplitTXTValue_length SplitTXTValue_valid by (auto simp: list_all_iff)

theorem txt_split_witness: "list_all ValidString (SplitTXTValue ''abc'')"
  using txt_split [of "''abc''"] by (simp add: ValidString_ascii is_ascii_def byte_def)

text \<open>
  An ASCII value that \<open>ValidateTXTValue\<close> accepts fits into one resource record: its
  character-strings with their length bytes take at most 65535 bytes.
\<close>

theorem ascii_txt_fits:
  assumes "ValidateTXTValue v = None" "is_ascii v"
  shows "txt_wire_length v \<le> 65535"
proof (cases "v = []")
  case True
  then show ?thesis
    by (simp add: txt_wire_length_eq SplitTXTValue.simps MaxTXTCharacterStringLength_def)
next
  case False
  have "length v \<le> 65279"
    using assms(1) by (simp add: ValidateTXTValue_def MaxTXTValueLength_def fail_if_def split: if_splits)
  then show ?thesis using SplitTXTValue_ascii_count [OF assms(2) False] by (simp add: txt_wire_length_eq)
qed

theorem ascii_txt_fits_witness: "txt_wire_length ''a'' \<le> 65535"
proof -
  have "runes ''a'' = [(97, 1)]" by (simp add: runes.simps byte_def)
  then have "ValidateTXTValue ''a'' = None"
    by (simp add: ValidateTXTValue_def MaxTXTValueLength_def ValidString_def unsafeTXTControlCharacter_def)
  then show ?thesis using ascii_txt_fits [of "''a''"] by (simp add: is_ascii_def byte_def)
qed

text \<open>
  C40: The limit does not protect values with multi-byte characters: splitting may stop up to three
  bytes short of 255, so there is an accepted value whose character-strings take 65536 bytes and
  do not fit into a resource record.
\<close>

theorem txt_limit_too_large:
  "\<exists>v. ValidateTXTValue v = None \<and> ValidString v \<and> txt_wire_length v = 65536"
proof (intro exI conjI)
  show "ValidateTXTValue (runes4 16319) = None" by (rule ValidateTXTValue_runes4) simp
  show "ValidString (runes4 16319)" by (simp add: ValidString_def runes_runes4)
  show "txt_wire_length (runes4 16319) = 65536"
    by (simp add: txt_wire_length_eq SplitTXTValue_runes4_count)
qed

end
