(* ===== verification/Memory_Store.thy ===== *)
theory Memory_Store
  imports Zone_Store Records_API Zone_Facts "HOL-Library.List_Lexorder" "HOL-Library.Char_ord" "HOL-Library.AList"
begin

section \<open>The in-memory backend (pkg/backend/memory.go)\<close>

text \<open>
  The in-memory store, operation by operation, with its invariant, and its interpretation as a
  \<open>zone_store\<close>: the contract's lemmas hold of it under the prefix \<open>mem\<close>.
\<close>

subsection \<open>The in-memory backend\<close>

record MemoryBackend =
  m_zones :: "(string \<times> Zone) list" \<comment> \<open>the map \<open>zones\<close>, with distinct keys\<close>
  m_nextID :: nat

definition NewMemoryBackend :: MemoryBackend where
  "NewMemoryBackend = \<lparr>m_zones = [], m_nextID = 0\<rparr>"

definition mem_HealthCheck :: "bool \<Rightarrow> MemoryBackend \<Rightarrow> store_error option" where
  "mem_HealthCheck ctxDone m = (if ctxDone then Some ErrContextDone else None)"

definition mem_CountZones :: "bool \<Rightarrow> MemoryBackend \<Rightarrow> store_error + nat" where
  "mem_CountZones ctxDone m = (if ctxDone then Inl ErrContextDone else Inr (length (m_zones m)))"

definition mem_GetZone :: "MemoryBackend \<Rightarrow> string \<Rightarrow> store_error + Zone" where
  "mem_GetZone m name =
     (case map_of (m_zones m) (NormalizeZoneName name) of
        None \<Rightarrow> Inl ErrZoneNotFound
      | Some zone \<Rightarrow> Inr (the (copyZone (Some zone))))"

text \<open>Offset and limit on the sorted list, as both list operations apply them.\<close>

definition page :: "ListOptions \<Rightarrow> 'a list \<Rightarrow> 'a list" where
  "page opts xs =
     (if 0 < lo_Offset opts \<and> int (length xs) \<le> lo_Offset opts then []
      else let ys = (if 0 < lo_Offset opts then drop (nat (lo_Offset opts)) xs else xs)
           in if 0 < lo_Limit opts \<and> lo_Limit opts < int (length ys)
              then take (nat (lo_Limit opts)) ys else ys)"

definition mem_ListZones :: "MemoryBackend \<Rightarrow> ListOptions \<Rightarrow> Zone list" where
  "mem_ListZones m opts = page opts (sort_key (\<lambda>z. ToLower (z_Name z)) (map snd (m_zones m)))"

definition mem_ListZoneSummaries :: "MemoryBackend \<Rightarrow> ListOptions \<Rightarrow> ZoneSummary list" where
  "mem_ListZoneSummaries m opts =
     page opts (sort_key (\<lambda>s. ToLower (zs_Name s))
       (map (\<lambda>(_, z). \<lparr>zs_Name = z_Name z, zs_Version = z_Version z\<rparr>) (m_zones m)))"

text \<open>\<open>m.nextID++; Records[i].ID = strconv.Itoa(m.nextID)\<close>, for all records or for the new ones.\<close>

fun assign_all_ids :: "nat \<Rightarrow> Record list \<Rightarrow> nat \<times> Record list" where
  "assign_all_ids n [] = (n, [])"
| "assign_all_ids n (r # rs) =
     (let (n', rs') = assign_all_ids (Suc n) rs in (n', r\<lparr>r_ID := dec_string (Suc n)\<rparr> # rs'))"

fun assign_new_ids :: "nat \<Rightarrow> Record list \<Rightarrow> nat \<times> Record list" where
  "assign_new_ids n [] = (n, [])"
| "assign_new_ids n (r # rs) =
     (if r_ID r = []
      then let (n', rs') = assign_new_ids (Suc n) rs in (n', r\<lparr>r_ID := dec_string (Suc n)\<rparr> # rs')
      else let (n', rs') = assign_new_ids n rs in (n', r # rs'))"

definition mem_CreateZone :: "env \<Rightarrow> Zone option \<Rightarrow> MemoryBackend \<Rightarrow> (store_error + Zone) \<times> MemoryBackend" where
  "mem_CreateZone env zp m =
     (case prepareZoneForCreate env NormalizeZoneName zp of
        Inl e \<Rightarrow> (Inl e, m)
      | Inr w \<Rightarrow>
        (case map_of (m_zones m) (z_Name w) of
           Some _ \<Rightarrow> (Inl ErrZoneAlreadyExists, m)
         | None \<Rightarrow>
           (let (n', rs) = assign_all_ids (m_nextID m) (z_Records w);
                w' = w\<lparr>z_Records := rs\<rparr>
            in (Inr w', \<lparr>m_zones = AList.update (z_Name w') (the (copyZone (Some w'))) (m_zones m),
                         m_nextID = n'\<rparr>))))"

text \<open>The fields that \<open>UpdateZone\<close> sets before it validates: name, serial, times and version.\<close>

definition mem_update_fields :: "env \<Rightarrow> Zone \<Rightarrow> Zone \<Rightarrow> store_error + Zone" where
  "mem_update_fields env existing zone =
     (let serial = updateSOASerial (e_date env) (soa_Serial (z_SOA existing)) (soa_Serial (z_SOA zone));
          z1 = zone\<lparr>z_Name := NormalizeZoneName (z_Name zone), z_SOA := (z_SOA zone)\<lparr>soa_Serial := serial\<rparr>,
                    z_UpdatedAt := e_now env, z_CreatedAt := z_CreatedAt existing\<rparr>
      in if z_Version z1 = [] \<or> z_Version z1 = z_Version existing
         then (case e_version env of None \<Rightarrow> Inl ErrGenerateVersion
               | Some v \<Rightarrow> Inr (z1\<lparr>z_Version := v\<rparr>))
         else Inr z1)"

definition mem_UpdateZone ::
  "env \<Rightarrow> Zone \<Rightarrow> string \<Rightarrow> MemoryBackend \<Rightarrow> (store_error + Zone) \<times> MemoryBackend" where
  "mem_UpdateZone env zone expectedVersion m =
     (let normalized = NormalizeZoneName (z_Name zone) in
      case map_of (m_zones m) normalized of
        None \<Rightarrow> (Inl ErrZoneNotFound, m)
      | Some existing \<Rightarrow>
        (if expectedVersion \<noteq> [] \<and> z_Version existing \<noteq> expectedVersion then (Inl ErrConflict, m)
         else
          (case bindE (mem_update_fields env existing zone) (\<lambda>z2. validateZoneForWrite (Some z2)) of
             Inl e \<Rightarrow> (Inl e, m)
           | Inr z3 \<Rightarrow>
             (let (n', rs) = assign_new_ids (m_nextID m) (z_Records z3); z4 = z3\<lparr>z_Records := rs\<rparr>
              in (Inr z4, \<lparr>m_zones = AList.update normalized (the (copyZone (Some z4))) (m_zones m),
                           m_nextID = n'\<rparr>)))))"

definition mem_UpdateDNSSECMetadata ::
  "env \<Rightarrow> string \<Rightarrow> DNSSECConfig option \<Rightarrow> MemoryBackend \<Rightarrow> store_error option \<times> MemoryBackend" where
  "mem_UpdateDNSSECMetadata env zoneName dnssec m =
     (let normalized = NormalizeZoneName zoneName in
      case map_of (m_zones m) normalized of
        None \<Rightarrow> (Some ErrZoneNotFound, m)
      | Some zone \<Rightarrow>
        (None, m\<lparr>m_zones := AList.update normalized
           (zone\<lparr>z_DNSSEC := cloneDNSSECConfig dnssec, z_UpdatedAt := e_now env\<rparr>) (m_zones m)\<rparr>))"

definition mem_DeleteZone :: "string \<Rightarrow> MemoryBackend \<Rightarrow> store_error option \<times> MemoryBackend" where
  "mem_DeleteZone name m =
     (let normalized = NormalizeZoneName name in
      case map_of (m_zones m) normalized of
        None \<Rightarrow> (Some ErrZoneNotFound, m)
      | Some _ \<Rightarrow> (None, m\<lparr>m_zones := AList.delete normalized (m_zones m)\<rparr>))"

definition mem_DeleteZoneWithVersion :: "string \<Rightarrow> string \<Rightarrow> MemoryBackend \<Rightarrow> store_error option \<times> MemoryBackend" where
  "mem_DeleteZoneWithVersion name expectedVersion m =
     (let normalized = NormalizeZoneName name in
      case map_of (m_zones m) normalized of
        None \<Rightarrow> (Some ErrZoneNotFound, m)
      | Some zone \<Rightarrow>
        (if expectedVersion \<noteq> [] \<and> z_Version zone \<noteq> expectedVersion then (Some ErrConflict, m)
         else (None, m\<lparr>m_zones := AList.delete normalized (m_zones m)\<rparr>)))"

subsection \<open>Validation does not look at the fields the store manages\<close>

lemma option_copy [simp]: "(case x of None \<Rightarrow> None | Some y \<Rightarrow> Some y) = x"
  by (cases x) simp_all

lemma cloneDNSSECConfig_id [simp]: "cloneDNSSECConfig c = c"
  by (cases c) (simp_all add: cloneDNSSECConfig_def)

lemma copyZone_Some [simp]: "copyZone (Some z) = Some z"
  by (simp add: copyZone_def)

lemma ValidateRecordPriority_id [simp]: "ValidateRecordPriority (r\<lparr>r_ID := i\<rparr>) = ValidateRecordPriority r"
  by (cases "recordPriorityFromValue (r_Type r) (r_Value r)")
     (auto simp: ValidateRecordPriority_def split: option.splits)

lemma ValidateRecord_id [simp]: "ValidateRecord (r\<lparr>r_ID := i\<rparr>) = ValidateRecord r"
  by (simp add: ValidateRecord_def)

lemma validate_record_in_zone_id [simp]:
  "validate_record_in_zone zn j (r\<lparr>r_ID := i\<rparr>) = validate_record_in_zone zn j r"
  by (simp add: validate_record_in_zone_def)

lemma rrset_step_id [simp]: "rrset_step zn j (r\<lparr>r_ID := i\<rparr>) st = rrset_step zn j r st"
  by (simp add: rrset_step_def canonicalRecordDuplicateKey_def Let_def cong: option.case_cong if_cong)

text \<open>Two lists of records that differ in the identifiers only.\<close>

definition same_but_ids :: "Record list \<Rightarrow> Record list \<Rightarrow> bool" where
  "same_but_ids rs rs' \<longleftrightarrow> list_all2 (\<lambda>r r'. \<exists>i. r' = r\<lparr>r_ID := i\<rparr>) rs rs'"

lemma assign_all_ids_same: "same_but_ids rs (snd (assign_all_ids n rs))"
  by (induction n rs rule: assign_all_ids.induct) (auto simp: same_but_ids_def split: prod.splits)

lemma assign_new_ids_same: "same_but_ids rs (snd (assign_new_ids n rs))"
proof (induction n rs rule: assign_new_ids.induct)
  case (2 n r rs)
  moreover have "\<exists>i. r = r\<lparr>r_ID := i\<rparr>" by (rule exI [of _ "r_ID r"]) simp
  ultimately show ?case by (auto simp: same_but_ids_def split: prod.splits)
qed (simp add: same_but_ids_def)

lemma check_range_same_but_ids:
  "same_but_ids rs rs' \<Longrightarrow>
    check_range (validate_record_in_zone zn) i rs' = check_range (validate_record_in_zone zn) i rs"
  unfolding same_but_ids_def by (induction arbitrary: i rule: list_all2_induct) auto

lemma rrset_scan_same_but_ids:
  "same_but_ids rs rs' \<Longrightarrow> rrset_scan zn i rs' st = rrset_scan zn i rs st"
  unfolding same_but_ids_def
proof (induction arbitrary: i st rule: list_all2_induct)
  case (Cons r rs r' rs')
  then show ?case by (cases "rrset_step zn i r st") auto
qed simp

lemma ValidateZone_cong:
  assumes "z_Name z' = z_Name z" "z_SOA z' = z_SOA z" "same_but_ids (z_Records z) (z_Records z')"
  shows "ValidateZone (Some z') = ValidateZone (Some z)"
  using assms
  by (simp add: ValidateZone_def ValidateRecordSetConstraints_def check_range_same_but_ids
      rrset_scan_same_but_ids)

lemma same_but_ids_refl [simp]: "same_but_ids rs rs"
proof -
  have "\<exists>i. r = r\<lparr>r_ID := i\<rparr>" for r :: Record by (rule exI [of _ "r_ID r"]) simp
  then show ?thesis by (simp add: same_but_ids_def list_all2_refl)
qed

lemma same_but_ids_rdata: "same_but_ids rs rs' \<Longrightarrow> rdata rs' = rdata rs"
  unfolding same_but_ids_def rdata_def by (induction rule: list_all2_induct) auto

lemma validateZoneForWrite_ok:
  assumes "validateZoneForWrite (Some z) = Inr w"
  shows "ValidateZone (Some w) = None" "w = z\<lparr>z_Records := z_Records w\<rparr>"
    "rdata (z_Records w) = rdata (z_Records z)"
  using assms normalize_records_rdata
  by (auto simp: validateZoneForWrite_def NormalizeZoneDerivedFields_def okE_def bindE_def
      split: sum.splits option.splits)

subsection \<open>Invariant\<close>

text \<open>
  The keys are distinct, and every zone is stored under its own normalised name, with a version,
  and would pass validation again.
\<close>

definition stored_ok :: "string \<times> Zone \<Rightarrow> bool" where
  "stored_ok kz \<longleftrightarrow> z_Name (snd kz) = fst kz \<and> NormalizeZoneName (fst kz) = fst kz
     \<and> z_Version (snd kz) \<noteq> [] \<and> ValidateZone (Some (snd kz)) = None"

definition mem_inv :: "MemoryBackend \<Rightarrow> bool" where
  "mem_inv m \<longleftrightarrow> distinct (map fst (m_zones m)) \<and> list_all stored_ok (m_zones m)"

definition mem_contents :: "MemoryBackend \<Rightarrow> string \<Rightarrow> Zone option" where
  "mem_contents m = map_of (m_zones m)"

lemma mem_inv_empty: "mem_inv NewMemoryBackend"
  by (simp add: mem_inv_def NewMemoryBackend_def)

lemma mem_stored: "mem_inv m \<Longrightarrow> mem_contents m k = Some z \<Longrightarrow> stored_ok (k, z)"
  by (auto simp: mem_inv_def mem_contents_def list_all_iff dest: map_of_SomeD)

lemma mem_inv_update:
  assumes "mem_inv m" "stored_ok (k, z)"
  shows "mem_inv \<lparr>m_zones = AList.update k z (m_zones m), m_nextID = n\<rparr>"
proof -
  have "set (AList.update k z xs) \<subseteq> insert (k, z) (set xs)" for xs
    by (induction xs) auto
  then show ?thesis using assms by (auto simp: mem_inv_def distinct_update list_all_iff)
qed

lemma mem_inv_delete:
  "mem_inv m \<Longrightarrow> mem_inv (m\<lparr>m_zones := AList.delete k (m_zones m)\<rparr>)"
  using distinct_delete [of "m_zones m" k] by (auto simp: mem_inv_def list_all_iff AList.delete_eq)

lemma prepareZoneForCreate_ok:
  assumes "prepareZoneForCreate e NormalizeZoneName zp = Inr w" "env_ok e"
  shows "\<exists>z. zp = Some z \<and> created_from e z w \<and> rdata (z_Records w) = rdata (z_Records z)"
    "stored_ok (z_Name w, w)"
proof -
  obtain z where z: "zp = Some z" using assms(1)
    by (cases zp) (auto simp: prepareZoneForCreate_def copyZone_def validateZoneForWrite_def
        NormalizeZoneDerivedFields_def)
  obtain w3 where w3: "validateZoneForWrite (Some w3) = Inr w" "z_Name w3 = NormalizeZoneName (z_Name z)"
      "z_Version w3 \<noteq> []" "z_Records w3 = z_Records z"
      "if z_Version z = [] then e_version e = Some (z_Version w3) else z_Version w3 = z_Version z"
    using assms by (auto simp: z prepareZoneForCreate_def bindE_def Let_def env_ok_def
        split: sum.splits if_splits option.splits)
  note w = validateZoneForWrite_ok [OF w3(1)]
  have "z_Name w = z_Name w3" "z_Version w = z_Version w3" by (subst w(2), simp)+
  with w(1,3) w3 z show "\<exists>z. zp = Some z \<and> created_from e z w \<and> rdata (z_Records w) = rdata (z_Records z)"
    "stored_ok (z_Name w, w)"
    by (auto simp: created_from_def stored_ok_def NormalizeZoneName_idem)
qed

lemma stored_ok_records:
  "stored_ok (k, z) \<Longrightarrow> same_but_ids (z_Records z) rs \<Longrightarrow> stored_ok (k, z\<lparr>z_Records := rs\<rparr>)"
  using ValidateZone_cong [of "z\<lparr>z_Records := rs\<rparr>" z] by (simp add: stored_ok_def)

lemma mem_CreateZone_ok:
  assumes "mem_inv m" "env_ok e" "mem_CreateZone e zp m = (Inr w, m')"
  shows "mem_inv m' \<and> mem_contents m (z_Name w) = None
    \<and> mem_contents m' = (mem_contents m)(z_Name w \<mapsto> w)
    \<and> (\<exists>z. zp = Some z \<and> created_from e z w \<and> rdata (z_Records w) = rdata (z_Records z))"
proof -
  obtain w0 where w0: "prepareZoneForCreate e NormalizeZoneName zp = Inr w0"
      "map_of (m_zones m) (z_Name w0) = None"
    using assms(3) by (auto simp: mem_CreateZone_def split: sum.splits option.splits)
  let ?w = "w0\<lparr>z_Records := snd (assign_all_ids (m_nextID m) (z_Records w0))\<rparr>"
  have w: "w = ?w" "m' = \<lparr>m_zones = AList.update (z_Name w) w (m_zones m),
      m_nextID = fst (assign_all_ids (m_nextID m) (z_Records w0))\<rparr>"
    using assms(3) w0 by (auto simp: mem_CreateZone_def Let_def split: prod.splits)
  have "stored_ok (z_Name w, w)"
    using prepareZoneForCreate_ok [OF w0(1) assms(2)] stored_ok_records assign_all_ids_same w(1) by auto
  moreover have "rdata (z_Records w) = rdata (z_Records w0)"
    using same_but_ids_rdata [OF assign_all_ids_same] w(1) by simp
  ultimately show ?thesis
    using prepareZoneForCreate_ok(1) [OF w0(1) assms(2)] assms(1) w0(2) mem_inv_update w
    by (auto simp: mem_contents_def update_conv' created_from_def)
qed

lemma mem_update_fields_ok:
  assumes "mem_update_fields e old z = Inr z2"
  shows "z_Name z2 = NormalizeZoneName (z_Name z)" "version_after e z (z_Version old) (z_Version z2)"
    "soa_Serial (z_SOA z2) = updateSOASerial (e_date e) (soa_Serial (z_SOA old)) (soa_Serial (z_SOA z))"
    "z_Records z2 = z_Records z"
  using assms
  by (auto simp: mem_update_fields_def version_after_def Let_def split: if_splits option.splits)

lemma mem_UpdateZone_ok:
  assumes "mem_inv m" "env_ok e" "mem_UpdateZone e z v m = (Inr w, m')"
  shows "mem_inv m' \<and> (\<exists>old. mem_contents m (NormalizeZoneName (z_Name z)) = Some old
      \<and> (v = [] \<or> z_Version old = v)
      \<and> mem_contents m' = (mem_contents m)(NormalizeZoneName (z_Name z) \<mapsto> w)
      \<and> updated_from e old z w \<and> z_Name w = NormalizeZoneName (z_Name z)
      \<and> rdata (z_Records w) = rdata (z_Records z))"
proof -
  let ?k = "NormalizeZoneName (z_Name z)"
  obtain old z2 z3 where old: "map_of (m_zones m) ?k = Some old" "v = [] \<or> z_Version old = v"
    and f2: "mem_update_fields e old z = Inr z2"
    and z3: "validateZoneForWrite (Some z2) = Inr z3"
    and w: "w = z3\<lparr>z_Records := snd (assign_new_ids (m_nextID m) (z_Records z3))\<rparr>"
      "m' = \<lparr>m_zones = AList.update ?k w (m_zones m),
             m_nextID = fst (assign_new_ids (m_nextID m) (z_Records z3))\<rparr>"
    using assms(3)
    by (auto simp: mem_UpdateZone_def Let_def bindE_def split: option.splits if_splits sum.splits prod.splits)
  note z2 = mem_update_fields_ok [OF f2]
  note v3 = validateZoneForWrite_ok [OF z3]
  have f: "z_Name z3 = z_Name z2" "z_Version z3 = z_Version z2" "z_SOA z3 = z_SOA z2"
    by (subst v3(2), simp)+
  have "stored_ok (?k, old)" using mem_stored [OF assms(1)] old(1) by (simp add: mem_contents_def)
  then have "z_Version z2 \<noteq> []" using z2(2) assms(2)
    by (auto simp: version_after_def stored_ok_def env_ok_def split: if_splits)
  then have "stored_ok (?k, z3)" using v3(1) f z2(1) by (simp add: stored_ok_def NormalizeZoneName_idem)
  then have "stored_ok (?k, w)" using w(1) stored_ok_records assign_new_ids_same by auto
  moreover have "rdata (z_Records w) = rdata (z_Records z)"
    using same_but_ids_rdata [OF assign_new_ids_same] w(1) v3(3) z2(4) by simp
  ultimately show ?thesis using old z2 f w assms(1) mem_inv_update
    by (auto simp: mem_contents_def update_conv' updated_from_def)
qed

lemma mem_errors_keep_state:
  "mem_CreateZone e zp m = (Inl err, m') \<Longrightarrow> m' = m"
  "mem_UpdateZone e z v m = (Inl err, m') \<Longrightarrow> m' = m"
  by (auto simp: mem_CreateZone_def mem_UpdateZone_def Let_def
      split: option.splits sum.splits if_splits prod.splits)

lemma mem_DeleteZoneWithVersion_spec:
  assumes "mem_inv m" "mem_DeleteZoneWithVersion n v m = (r, m')"
  shows "case mem_contents m (NormalizeZoneName n) of
      None \<Rightarrow> r = Some ErrZoneNotFound \<and> m' = m
    | Some z \<Rightarrow>
        if v \<noteq> [] \<and> z_Version z \<noteq> v then r = Some ErrConflict \<and> m' = m
        else r = None \<and> mem_inv m' \<and> mem_contents m' = (mem_contents m)(NormalizeZoneName n := None)"
  using assms
  by (auto simp: mem_DeleteZoneWithVersion_def mem_contents_def Let_def mem_inv_delete delete_conv'
      split: option.splits if_splits)

lemma mem_GetZone_spec:
  "mem_GetZone m n =
    (case mem_contents m (NormalizeZoneName n) of None \<Rightarrow> Inl ErrZoneNotFound | Some z \<Rightarrow> Inr z)"
  by (simp add: mem_GetZone_def mem_contents_def split: option.split)

lemma mem_UpdateZone_refused:
  "mem_contents m (NormalizeZoneName (z_Name z)) = None \<Longrightarrow> mem_UpdateZone e z v m = (Inl ErrZoneNotFound, m)"
  "mem_contents m (NormalizeZoneName (z_Name z)) = Some old \<Longrightarrow> v \<noteq> [] \<Longrightarrow> z_Version old \<noteq> v \<Longrightarrow>
    mem_UpdateZone e z v m = (Inl ErrConflict, m)"
  by (simp_all add: mem_UpdateZone_def mem_contents_def)

interpretation mem: ordered_store mem_GetZone mem_CreateZone mem_UpdateZone mem_DeleteZoneWithVersion
  mem_contents mem_inv
proof (unfold_locales, goal_cases)
  case (1 s n)
  show ?case by (rule mem_GetZone_spec)
next
  case 2
  then show ?case using mem_stored by (fastforce simp: stored_ok_def)
next
  case 3
  then show ?case using mem_CreateZone_ok by blast
next
  case 5
  then show ?case using mem_UpdateZone_ok by blast
next
  case 9
  then show ?case using mem_DeleteZoneWithVersion_spec by blast
next
  case 10
  then show ?case using mem_CreateZone_ok by fastforce
next
  case 11
  then show ?case using mem_UpdateZone_ok by fastforce
qed (auto dest: mem_errors_keep_state mem_UpdateZone_refused)

subsection \<open>Properties\<close>

text \<open>The store with the example zone under a generated version.\<close>

definition example_env :: "string \<Rightarrow> env" where
  "example_env v = \<lparr>e_now = 7, e_date = \<lparr>year = 2024, month = 2, day = 29\<rparr>, e_version = Some v\<rparr>"

definition example_store :: MemoryBackend where
  "example_store = \<lparr>m_zones = [(''ex.'', example_zone)], m_nextID = 0\<rparr>"

lemma example_env_ok: "v \<noteq> [] \<Longrightarrow> env_ok (example_env v)"
  by (simp add: env_ok_def example_env_def calendar_date_def)

lemma example_store_inv: "mem_inv example_store"
proof -
  have "NormalizeZoneName ''ex.'' = ''ex.''" by code_simp
  then show ?thesis using example_zone_valid
    by (simp add: mem_inv_def example_store_def stored_ok_def) (simp add: example_zone_def)
qed



text \<open>
  C1: Optimistic locking: of two writers that start from the same version of a zone, the second one
  is refused with \<open>ErrConflict\<close> and changes nothing, provided the version issued for the first is new.
\<close>

theorem no_lost_update:
  assumes "mem_inv m" "env_ok e1" "mem_GetZone m n = Inr old" "e_version e1 \<noteq> Some (z_Version old)"
    and "NormalizeZoneName (z_Name z1) = NormalizeZoneName n" "NormalizeZoneName (z_Name z2) = NormalizeZoneName n"
    and "mem_UpdateZone e1 z1 (z_Version old) m = (Inr w, m1)"
  shows "mem_UpdateZone e2 z2 (z_Version old) m1 = (Inl ErrConflict, m1)"
  using assms by (rule mem.second_writer_conflict)

theorem no_lost_update_witness:
  "mem_UpdateZone (example_env ''v3'') example_zone ''v1''
     (snd (mem_UpdateZone (example_env ''v2'') example_zone ''v1'' example_store)) =
   (Inl ErrConflict, snd (mem_UpdateZone (example_env ''v2'') example_zone ''v1'' example_store))"
proof -
  have g: "mem_GetZone example_store ''ex.'' = Inr example_zone" by code_simp
  have v: "z_Version example_zone = ''v1''" "z_Name example_zone = ''ex.''" by (simp_all add: example_zone_def)
  obtain w m1 where u: "mem_UpdateZone (example_env ''v2'') example_zone ''v1'' example_store = (Inr w, m1)"
  proof -
    have "\<not> isl (fst (mem_UpdateZone (example_env ''v2'') example_zone ''v1'' example_store))" by code_simp
    then show ?thesis using that by (metis isl_def prod.collapse sum.exhaust_sel)
  qed
  have "mem_UpdateZone (example_env ''v3'') example_zone ''v1'' m1 = (Inl ErrConflict, m1)"
    using no_lost_update [OF example_store_inv example_env_ok g, of "''v2''" example_zone example_zone w m1
        "example_env ''v3''"] u v
    by (simp add: example_env_def)
  with u show ?thesis by simp
qed



text \<open>
  A created zone is found under every spelling of its name, other zones are untouched, and a
  second creation under any spelling fails without effect.
\<close>

theorem create_then_get:
  assumes "mem_inv m" "env_ok e" "mem_CreateZone e (Some z) m = (Inr w, m')" "env_ok e'"
    and "NormalizeZoneName (z_Name z') = NormalizeZoneName (z_Name z)"
  shows "mem_GetZone m' n = (if NormalizeZoneName n = NormalizeZoneName (z_Name z) then Inr w else mem_GetZone m n)
    \<and> snd (mem_CreateZone e' (Some z') m') = m' \<and> isl (fst (mem_CreateZone e' (Some z') m'))"
  using mem.get_created [OF assms(1-3), of n] mem.create_again_fails [OF assms] by auto

theorem create_then_get_witness:
  "mem_GetZone (snd (mem_CreateZone (example_env ''v1'') (Some example_zone) NewMemoryBackend)) ''EX'' =
    fst (mem_CreateZone (example_env ''v1'') (Some example_zone) NewMemoryBackend)"
proof -
  let ?c = "mem_CreateZone (example_env ''v1'') (Some example_zone) NewMemoryBackend"
  have "\<not> isl (fst ?c)" by code_simp
  then obtain w where w: "?c = (Inr w, snd ?c)" by (metis isl_def prod.collapse sum.exhaust_sel)
  have n: "NormalizeZoneName ''EX'' = NormalizeZoneName (z_Name example_zone)" by code_simp
  show ?thesis
    using create_then_get [OF mem_inv_empty example_env_ok w example_env_ok, of "''v2''" example_zone "''EX''"] n w
    by (metis (no_types, lifting) fst_conv list.discI)
qed

end
