(* ===== verification/Record_Writers.thy ===== *)
theory Record_Writers
  imports Memory_Store
begin

section \<open>Concurrent requests (internal/controller/api/records.go over a zone store)\<close>

text \<open>
  The web server runs requests concurrently. Each operation of a store is atomic, but between the
  read of a record request and its write any number of other requests may run. Here a request is
  therefore two steps: \<open>Load\<close> reads the zone, checks the entity tag and computes the new records;
  \<open>Write\<close> validates them and writes them under the version that was read. Between them other record
  requests and any other operations on the store may happen. The versions that the controller issues
  are new, as \<open>Ulid\<close> shows.

  The result is that the store behaves as if the requests had been executed one after the other:
  \<open>atomic\<close> runs a whole request at once, and the state after any interleaving is the state after the
  committed requests and the other operations, each at once, in the order of their writes.
\<close>

subsection \<open>Requests and interleavings\<close>

record request =
  q_name :: string
  q_ifMatch :: string
  q_edit :: "Zone \<Rightarrow> APIError + Record list" \<comment> \<open>what the handler does with the records\<close>

datatype effect = Committed request api_env | Other store_op

record 's system =
  y_store :: 's
  y_issued :: "string set" \<comment> \<open>the versions issued so far\<close>
  y_pending :: "nat \<Rightarrow> (request \<times> Zone \<times> Record list) option" \<comment> \<open>requests between load and write\<close>
  y_log :: "effect list"

text \<open>The versions that a step can give to a zone.\<close>

definition api_versions :: "api_env \<Rightarrow> string set" where
  "api_versions a = set_option (a_version a) \<union> set_option (e_version (a_store a))"

fun op_versions :: "store_op \<Rightarrow> string set" where
  "op_versions (OpCreate e zp) = set_option (e_version e) \<union> (case zp of None \<Rightarrow> {} | Some z \<Rightarrow> {z_Version z} - {[]})"
| "op_versions (OpUpdate e z v) = set_option (e_version e) \<union> ({z_Version z} - {[]})"
| "op_versions (OpDelete n v) = {}"

inductive sys_step ::
  "(string \<Rightarrow> string) \<Rightarrow> ('s \<Rightarrow> string \<Rightarrow> store_error + Zone) \<Rightarrow>
   (env \<Rightarrow> Zone option \<Rightarrow> 's \<Rightarrow> (store_error + Zone) \<times> 's) \<Rightarrow>
   (env \<Rightarrow> Zone \<Rightarrow> string \<Rightarrow> 's \<Rightarrow> (store_error + Zone) \<times> 's) \<Rightarrow>
   (string \<Rightarrow> string \<Rightarrow> 's \<Rightarrow> store_error option \<times> 's) \<Rightarrow> 's system \<Rightarrow> 's system \<Rightarrow> bool"
  for sha get create update delete where
  Load: "sys_step sha get create update delete y (y\<lparr>y_pending := (y_pending y)(i \<mapsto> (q, zone, rs))\<rparr>)"
    if "loadZoneForRecordMutation get (q_name q) (q_ifMatch q) (y_store y) = Inr zone"
      and "q_edit q zone = Inr rs"
| Write: "sys_step sha get create update delete y
    (y\<lparr>y_store := s', y_issued := y_issued y \<union> api_versions a, y_pending := (y_pending y)(i := None),
       y_log := y_log y @ (if isl r then [] else [Committed q a])\<rparr>)"
    if "y_pending y i = Some (q, zone, rs)" and "env_ok (a_store a)" and "a_version a \<noteq> Some []"
      and "api_versions a \<inter> y_issued y = {}"
      and "writeRecordMutation sha a update (zone\<lparr>z_Records := rs\<rparr>) (z_Version zone) (y_store y) = (r, s')"
| Op: "sys_step sha get create update delete y
    (y\<lparr>y_store := run_op create update delete p (y_store y), y_issued := y_issued y \<union> op_versions p,
       y_log := y_log y @ [Other p]\<rparr>)"
    if "op_ok p" and "op_versions p \<inter> y_issued y = {}"

inductive sys_run ::
  "(string \<Rightarrow> string) \<Rightarrow> ('s \<Rightarrow> string \<Rightarrow> store_error + Zone) \<Rightarrow>
   (env \<Rightarrow> Zone option \<Rightarrow> 's \<Rightarrow> (store_error + Zone) \<times> 's) \<Rightarrow>
   (env \<Rightarrow> Zone \<Rightarrow> string \<Rightarrow> 's \<Rightarrow> (store_error + Zone) \<times> 's) \<Rightarrow>
   (string \<Rightarrow> string \<Rightarrow> 's \<Rightarrow> store_error option \<times> 's) \<Rightarrow> 's system \<Rightarrow> 's system \<Rightarrow> bool"
  for sha get create update delete where
  start: "sys_run sha get create update delete y y"
| step: "sys_run sha get create update delete y y''"
    if "sys_run sha get create update delete y y'" and "sys_step sha get create update delete y' y''"

text \<open>The specification: one whole request, or one operation, at once.\<close>

fun atomic ::
  "(string \<Rightarrow> string) \<Rightarrow> ('s \<Rightarrow> string \<Rightarrow> store_error + Zone) \<Rightarrow>
   (env \<Rightarrow> Zone option \<Rightarrow> 's \<Rightarrow> (store_error + Zone) \<times> 's) \<Rightarrow>
   (env \<Rightarrow> Zone \<Rightarrow> string \<Rightarrow> 's \<Rightarrow> (store_error + Zone) \<times> 's) \<Rightarrow>
   (string \<Rightarrow> string \<Rightarrow> 's \<Rightarrow> store_error option \<times> 's) \<Rightarrow> effect \<Rightarrow> 's \<Rightarrow> 's" where
  "atomic sha get create update delete (Committed q a) s =
     snd (mutate sha a get update (q_name q) (q_ifMatch q) (q_edit q) s)"
| "atomic sha get create update delete (Other p) s = run_op create update delete p s"

text \<open>A system that starts on a store whose versions have all been issued.\<close>

definition start_system :: "'s \<Rightarrow> string set \<Rightarrow> 's system" where
  "start_system s issued = \<lparr>y_store = s, y_issued = issued, y_pending = Map.empty, y_log = []\<rparr>"

subsection \<open>Serialisability\<close>

context zone_store
begin

text \<open>
  A pending request has read \<open>z0\<close>, in some earlier state of the store; whenever the stored zone has the
  version of \<open>z0\<close>, it is \<open>z0\<close>.
\<close>

definition pending_ok :: "'s \<Rightarrow> string set \<Rightarrow> request \<times> Zone \<times> Record list \<Rightarrow> bool" where
  "pending_ok s issued = (\<lambda>(q, zone, rs). \<exists>s0 z0. inv s0 \<and> contents s0 (NormalizeZoneName (q_name q)) = Some z0
     \<and> loadZoneForRecordMutation get (q_name q) (q_ifMatch q) s0 = Inr zone \<and> q_edit q zone = Inr rs
     \<and> z_Version z0 \<in> issued
     \<and> (\<forall>z. contents s (NormalizeZoneName (q_name q)) = Some z \<longrightarrow> z_Version z = z_Version z0 \<longrightarrow> z = z0))"

definition sys_inv :: "'s system \<Rightarrow> bool" where
  "sys_inv y \<longleftrightarrow> inv (y_store y)
     \<and> (\<forall>k z. contents (y_store y) k = Some z \<longrightarrow> z_Version z \<in> y_issued y)
     \<and> (\<forall>i p. y_pending y i = Some p \<longrightarrow> pending_ok (y_store y) (y_issued y) p)"

text \<open>What a step may do to the store: each zone is kept, removed, or replaced under a new version.\<close>

definition fresh_step :: "'s \<Rightarrow> 's \<Rightarrow> string set \<Rightarrow> string set \<Rightarrow> bool" where
  "fresh_step s s' issued new \<longleftrightarrow> inv s' \<and> issued \<inter> new = {}
     \<and> (\<forall>k z. contents s' k = Some z \<longrightarrow> contents s k = Some z \<or> z_Version z \<in> new)"

lemma pending_ok_fresh:
  assumes "pending_ok s issued p" "fresh_step s s' issued new"
  shows "pending_ok s' (issued \<union> new) p"
proof -
  obtain q zone rs where p: "p = (q, zone, rs)" by (cases p) auto
  let ?k = "NormalizeZoneName (q_name q)"
  obtain s0 z0 where s0: "inv s0" "contents s0 ?k = Some z0"
      "loadZoneForRecordMutation get (q_name q) (q_ifMatch q) s0 = Inr zone" "q_edit q zone = Inr rs"
      "z_Version z0 \<in> issued" "\<forall>z. contents s ?k = Some z \<longrightarrow> z_Version z = z_Version z0 \<longrightarrow> z = z0"
    using assms(1) by (auto simp: p pending_ok_def)
  have "\<forall>z. contents s' ?k = Some z \<longrightarrow> z_Version z = z_Version z0 \<longrightarrow> z = z0"
    using s0(5,6) assms(2) unfolding fresh_step_def disjoint_iff by metis
  then show ?thesis using s0 unfolding p pending_ok_def by (intro case_prodI exI [of _ s0] exI [of _ z0]) simp
qed

lemma sys_inv_fresh:
  assumes "sys_inv y" "fresh_step (y_store y) s' (y_issued y) new"
    and "\<And>i p. pend i = Some p \<Longrightarrow> y_pending y i = Some p"
  shows "sys_inv (y\<lparr>y_store := s', y_issued := y_issued y \<union> new, y_pending := pend, y_log := l\<rparr>)"
proof -
  have "pending_ok s' (y_issued y \<union> new) p" if "pend i = Some p" for i p
  proof (rule pending_ok_fresh [OF _ assms(2)])
    show "pending_ok (y_store y) (y_issued y) p"
      using assms(1) assms(3) [OF that] unfolding sys_inv_def by blast
  qed
  moreover have "z_Version z \<in> y_issued y \<union> new" if "contents s' k = Some z" for k z
    using assms(1,2) that unfolding sys_inv_def fresh_step_def by blast
  ultimately show ?thesis using assms(2) by (simp add: sys_inv_def fresh_step_def)
qed

lemma load_name:
  assumes "inv s" "loadZoneForRecordMutation get n ifMatch s = Inr zone" "contents s (NormalizeZoneName n) = Some z0"
  shows "z_Name zone = NormalizeZoneName n" "z_Version zone = z_Version z0" "z_Version zone \<noteq> []"
proof -
  obtain old where "contents s (NormalizeZoneName n) = Some old" and z: "zone = old\<lparr>z_Records := z_Records zone\<rparr>"
    using load_ok [OF assms(1,2)] by blast
  then have z0: "zone = z0\<lparr>z_Records := z_Records zone\<rparr>" using assms(3) by simp
  have "z_Name zone = z_Name z0" "z_Version zone = z_Version z0" by (subst z0, simp)+
  then show "z_Name zone = NormalizeZoneName n" "z_Version zone = z_Version z0" "z_Version zone \<noteq> []"
    using stored_law [OF assms(1,3)] by auto
qed

lemma load_cong: "get s n = get s' n \<Longrightarrow>
  loadZoneForRecordMutation get n ifMatch s = loadZoneForRecordMutation get n ifMatch s'"
  by (simp add: loadZoneForRecordMutation_def check_if_match_def)

lemma write_cases:
  assumes "writeRecordMutation sha a update zone v s = (Inr r, s')"
  obtains ver z where "a_version a = Some ver"
    "prepareSignedZoneUpdate a (zone\<lparr>z_Version := ver\<rparr>) (soa_Serial (z_SOA zone)) = Inr z"
    "update (a_store a) z v s = (Inr r, s')"
  using assms by (auto simp: writeRecordMutation_def prepareRecordWrite_def bindE_def okE_def
      split: sum.splits if_splits option.splits prod.splits)

lemma write_error:
  "writeRecordMutation sha a update zone v s = (Inl e, s') \<Longrightarrow> s' = s"
  using update_error_law by (auto simp: writeRecordMutation_def split: sum.splits prod.splits)

lemma fresh_put:
  "inv s' \<Longrightarrow> contents s' = (contents s)(k \<mapsto> w) \<Longrightarrow> z_Version w \<in> new \<Longrightarrow> issued \<inter> new = {} \<Longrightarrow>
    fresh_step s s' issued new"
  by (auto simp: fresh_step_def)

lemma updated_versions:
  "updated_from e old z w \<Longrightarrow> z_Version w \<in> set_option (e_version e) \<union> ({z_Version z} - {[]})"
  by (auto simp: updated_from_def version_after_def split: if_splits)

lemma write_fresh:
  assumes "inv s" "env_ok (a_store a)" "a_version a \<noteq> Some []" "issued \<inter> api_versions a = {}"
    and w: "writeRecordMutation sha a update zone v s = (r, s')"
  shows "fresh_step s s' issued (api_versions a)"
proof (cases r)
  case (Inl e)
  then have "s' = s" using write_error w by blast
  then show ?thesis using assms(1,4) by (simp add: fresh_step_def)
next
  case (Inr r1)
  obtain ver z where ver: "a_version a = Some ver"
      and p: "prepareSignedZoneUpdate a (zone\<lparr>z_Version := ver\<rparr>) (soa_Serial (z_SOA zone)) = Inr z"
      and u: "update (a_store a) z v s = (Inr r1, s')"
    using w Inr by (blast elim: write_cases)
  have "z_Version z = ver" using prepareSignedZoneUpdate_ok(2) [OF p] by simp
  moreover obtain old w where "inv s'" "contents s' = (contents s)(NormalizeZoneName (z_Name z) \<mapsto> w)"
      "updated_from (a_store a) old z w"
    using update_law [OF assms(1,2) u] by blast
  ultimately show ?thesis using updated_versions [of "a_store a" old z w] ver assms(4)
    by (intro fresh_put) (auto simp: api_versions_def)
qed

lemma op_fresh:
  assumes "inv s" "op_ok p" "issued \<inter> op_versions p = {}"
  shows "fresh_step s (run_op create update delete p s) issued (op_versions p)"
proof (cases p)
  case (OpCreate e zp)
  show ?thesis
  proof (cases "fst (create e zp s)")
    case (Inl err)
    then have "snd (create e zp s) = s" using create_error_law by (metis prod.collapse)
    then show ?thesis using OpCreate assms by (simp add: fresh_step_def)
  next
    case (Inr r)
    then have "create e zp s = (Inr r, snd (create e zp s))" by (simp add: prod_eq_iff)
    then obtain z w where "inv (snd (create e zp s))" "contents (snd (create e zp s)) = (contents s)(z_Name w \<mapsto> w)"
        and "zp = Some z" "created_from e z w"
      using create_law [OF assms(1)] assms(2) OpCreate by fastforce
    moreover from this(3,4) have "z_Version w \<in> op_versions p"
      by (auto simp: OpCreate created_from_def split: if_splits)
    ultimately show ?thesis using OpCreate assms(3) by (intro fresh_put) simp_all
  qed
next
  case (OpUpdate e z v)
  show ?thesis
  proof (cases "fst (update e z v s)")
    case (Inl err)
    then have "snd (update e z v s) = s" using update_error_law by (metis prod.collapse)
    then show ?thesis using OpUpdate assms by (simp add: fresh_step_def)
  next
    case (Inr r)
    then have "update e z v s = (Inr r, snd (update e z v s))" by (simp add: prod_eq_iff)
    then obtain old w where "inv (snd (update e z v s))"
        "contents (snd (update e z v s)) = (contents s)(NormalizeZoneName (z_Name z) \<mapsto> w)" "updated_from e old z w"
      using update_law [OF assms(1)] assms(2) OpUpdate by fastforce
    then show ?thesis using OpUpdate assms(3) updated_versions [of e old z w] by (intro fresh_put) simp_all
  qed
next
  case (OpDelete n v)
  then show ?thesis using assms delete_law [of s n v]
    by (cases "delete n v s") (auto simp: fresh_step_def split: option.splits if_splits)
qed

text \<open>A write that succeeds does what the whole request would do now.\<close>

lemma write_is_atomic:
  assumes "inv s" "env_ok (a_store a)" "pending_ok s issued (q, zone, rs)"
    and w: "writeRecordMutation sha a update (zone\<lparr>z_Records := rs\<rparr>) (z_Version zone) s = (Inr r, s')"
  shows "s' = atomic sha get create update delete (Committed q a) s"
proof -
  let ?k = "NormalizeZoneName (q_name q)"
  obtain s0 z0 where s0: "inv s0" "contents s0 ?k = Some z0"
      and l: "loadZoneForRecordMutation get (q_name q) (q_ifMatch q) s0 = Inr zone" and e: "q_edit q zone = Inr rs"
      and same: "\<And>z. contents s ?k = Some z \<Longrightarrow> z_Version z = z_Version z0 \<Longrightarrow> z = z0"
    using assms(3) by (auto simp: pending_ok_def)
  note zone = load_name [OF s0(1) l s0(2)]
  obtain ver z where p: "prepareSignedZoneUpdate a (zone\<lparr>z_Records := rs, z_Version := ver\<rparr>) (soa_Serial (z_SOA zone)) = Inr z"
      and u: "update (a_store a) z (z_Version zone) s = (Inr r, s')"
    using w by (rule write_cases) simp
  have "NormalizeZoneName (z_Name z) = ?k"
    using prepareSignedZoneUpdate_ok(1) [OF p] zone(1) by (simp add: NormalizeZoneName_idem)
  then obtain old where "contents s ?k = Some old" "z_Version old = z_Version zone"
    using update_law [OF assms(1,2) u] zone(3) by auto
  then have "contents s ?k = Some z0" using same zone(2) by simp
  then have "get s (q_name q) = get s0 (q_name q)" using assms(1) s0 by (simp add: get_law)
  then have "loadZoneForRecordMutation get (q_name q) (q_ifMatch q) s = Inr zone" using l load_cong by metis
  then show ?thesis using e w by (simp add: mutate_def commitRecordMutation_def split: prod.split sum.split)
qed

lemma sys_step_inv:
  assumes "sys_step sha get create update delete y y'" "sys_inv y"
    and "y_store y = fold (atomic sha get create update delete) (y_log y) s"
  shows "sys_inv y' \<and> y_store y' = fold (atomic sha get create update delete) (y_log y') s"
  using assms
proof cases
  case (Load q zone rs i)
  have "inv (y_store y)" using assms(2) by (simp add: sys_inv_def)
  then obtain z0 where "contents (y_store y) (NormalizeZoneName (q_name q)) = Some z0"
    using load_ok [OF _ Load(2)] by blast
  then have "pending_ok (y_store y) (y_issued y) (q, zone, rs)"
    using assms(2) Load(2,3) by (auto simp: pending_ok_def sys_inv_def)
  then show ?thesis using assms(2,3) Load(1) by (auto simp: sys_inv_def)
next
  case (Write i q zone rs a r s')
  have y: "inv (y_store y)" "pending_ok (y_store y) (y_issued y) (q, zone, rs)"
    using assms(2) Write(2) by (auto simp: sys_inv_def)
  have "fresh_step (y_store y) s' (y_issued y) (api_versions a)"
    using write_fresh [OF y(1) Write(3,4) _ Write(6)] Write(5) by blast
  then have "sys_inv y'" unfolding Write(1) by (rule sys_inv_fresh [OF assms(2)]) (auto split: if_splits)
  moreover have "s' = (if isl r then y_store y else atomic sha get create update delete (Committed q a) (y_store y))"
    using write_is_atomic [OF y(1) Write(3) y(2)] write_error Write(6) by (cases r) auto
  ultimately show ?thesis using assms(3) Write(1) by auto
next
  case (Op p)
  have "inv (y_store y)" using assms(2) by (simp add: sys_inv_def)
  then have "fresh_step (y_store y) (run_op create update delete p (y_store y)) (y_issued y) (op_versions p)"
    using op_fresh Op(2,3) by blast
  from sys_inv_fresh [OF assms(2) this, of "y_pending y"] have "sys_inv y'" unfolding Op(1) by simp
  then show ?thesis using assms(3) Op(1) by simp
qed

lemma run_serialises:
  assumes "sys_run sha get create update delete (start_system s issued) y" "inv s"
    and "\<forall>k z. contents s k = Some z \<longrightarrow> z_Version z \<in> issued"
  shows "sys_inv y \<and> y_store y = fold (atomic sha get create update delete) (y_log y) s"
  using assms(1)
proof (induction "start_system s issued" y rule: sys_run.induct)
  case start
  then show ?case using assms(2,3) by (simp add: sys_inv_def start_system_def)
next
  case (step y' y'')
  then show ?case using sys_step_inv by blast
qed

end

subsection \<open>Properties\<close>


definition example_write :: "string \<Rightarrow> api_env" where
  "example_write v = \<lparr>a_version = Some v, a_date = \<lparr>year = 2024, month = 2, day = 29\<rparr>,
     a_store = example_env v, a_signing = None\<rparr>"

definition example_request :: "string \<Rightarrow> request" where
  "example_request name = \<lparr>q_name = ''ex'', q_ifMatch = ''v1'', q_edit = create_edit (example_record name ''A'' ''1.2.3.5'')\<rparr>"


end
