(* ===== verification/SQLite_Tables.thy ===== *)
theory SQLite_Tables
  imports Zone_Store Go_Conv "HOL-Library.List_Lexorder" "HOL-Library.Char_ord" "HOL-Library.Product_Lexorder"
begin

section \<open>The SQLite backend (pkg/backend: sqlite.go, sql_record_ids.go, sql_batch.go)\<close>

text \<open>
  The two tables of \<open>sqliteSchemaSQL\<close> as lists of rows, the statements that the backend issues as
  functions on them, and every operation of the backend and of its transactions. A statement follows
  SQLite: names are unique, a record has a unique key \<open>id\<close> and is unique in \<open>(zone_id, name, type, ttl,
  value_hash)\<close>, \<open>AUTOINCREMENT\<close> never uses an \<open>id\<close> twice, removing a zone removes its records, text
  is ordered bytewise. Integer columns hold integers and are converted to the Go type when they are
  read. A time is held as such: its text form (\<open>RFC3339Nano\<close>) is written and read back by the standard
  library. The backend has one connection, so a transaction runs alone; one that fails is rolled back.
  Failures of the database itself (I/O, a cancelled context) are not modelled.

  The hash of a value (SHA-256 in hexadecimal) is the parameter \<open>sha\<close>.
\<close>

subsection \<open>Connection options\<close>

definition sqliteDSNHasQueryOption :: "string \<Rightarrow> string \<Rightarrow> bool" where
  "sqliteDSNHasQueryOption dsn option =
     (if CHR ''?'' \<notin> set dsn then False
      else Contains (ToLower (tl (dropWhile (\<lambda>c. c \<noteq> CHR ''?'') dsn))) (ToLower option))"

definition sqliteDSNQuerySeparator :: "string \<Rightarrow> string" where
  "sqliteDSNQuerySeparator dsn =
     (if HasSuffix dsn ''?'' \<or> HasSuffix dsn ''&'' then ''''
      else if Contains dsn ''?'' then ''&'' else ''?'')"

definition default_pragmas :: "(string \<times> string) list" where
  "default_pragmas = [(''journal_mode'', ''journal_mode(wal)''), (''foreign_keys'', ''foreign_keys(1)''),
     (''busy_timeout'', ''busy_timeout(5000)'')]"

definition add_pragma :: "string \<times> string \<Rightarrow> string \<Rightarrow> string" where
  "add_pragma pragma dsn =
     (if sqliteDSNHasQueryOption dsn (fst pragma) then dsn
      else dsn @ sqliteDSNQuerySeparator dsn @ ''_pragma='' @ snd pragma)"

definition sqliteDSNWithDefaultPragmas :: "string \<Rightarrow> string" where
  "sqliteDSNWithDefaultPragmas dsn = fold add_pragma default_pragmas dsn"

subsection \<open>Record identifiers and batches\<close>

definition formatSQLRecordID :: "nat \<Rightarrow> string" where
  "formatSQLRecordID i = dec_string i"

definition parseSQLRecordID :: "string \<Rightarrow> nat option" where
  "parseSQLRecordID s =
     (let t = TrimSpace s in
      if t = [] then None
      else case Atoi t of None \<Rightarrow> None | Some n \<Rightarrow> if n \<le> 0 then None else Some (nat n))"

text \<open>A \<open>sqlRecordIDSet\<close>; \<open>None\<close> is the nil map, which allows nothing.\<close>

definition allows :: "nat list option \<Rightarrow> nat \<Rightarrow> bool" where
  "allows ids i = (case ids of None \<Rightarrow> False | Some is \<Rightarrow> i \<in> set is)"

definition sqlBatchLoadZoneLimit :: nat where "sqlBatchLoadZoneLimit = 500"

definition sqlBatchEnd :: "nat \<Rightarrow> nat \<Rightarrow> nat" where
  "sqlBatchEnd start count0 =
     (let e = start + sqlBatchLoadZoneLimit in if count0 < e then count0 else e)"

definition normalizeListOffset :: "int \<Rightarrow> int" where
  "normalizeListOffset offset = (if offset < 0 then 0 else offset)"

subsection \<open>Tables\<close>

record zone_row =
  zr_id :: nat
  zr_name :: string
  zr_version :: string
  zr_soa :: SOARecord \<comment> \<open>the seven columns \<open>soa_\<dots>\<close>\<close>
  zr_dnssec_enabled :: int
  zr_dnssec_algorithm :: "int option" \<comment> \<open>\<open>None\<close> is NULL\<close>
  zr_dnssec_ksk_key_tag :: "int option"
  zr_dnssec_zsk_key_tag :: "int option"
  zr_dnssec_nsec3_enabled :: int
  zr_dnssec_nsec3_iterations :: "int option"
  zr_dnssec_nsec3_salt :: "string option"
  zr_dnssec_signature_expiration :: "go_time option"
  zr_created_at :: go_time
  zr_updated_at :: go_time

record record_row =
  rr_id :: nat
  rr_zone_id :: nat
  rr_name :: string
  rr_type :: string
  rr_ttl :: uint32
  rr_value :: string
  rr_value_hash :: string
  rr_priority :: "int option"

record db =
  db_zones :: "zone_row list"
  db_records :: "record_row list"
  db_zone_seq :: nat \<comment> \<open>the largest \<open>id\<close> ever used, as \<open>AUTOINCREMENT\<close> keeps it\<close>
  db_record_seq :: nat

definition InitSchema :: db where
  "InitSchema = \<lparr>db_zones = [], db_records = [], db_zone_seq = 0, db_record_seq = 0\<rparr>"

subsection \<open>Reading\<close>

text \<open>\<open>SELECT \<dots> FROM zones WHERE name = ?\<close>\<close>

definition select_zone :: "db \<Rightarrow> string \<Rightarrow> zone_row option" where
  "select_zone d name = find (\<lambda>r. zr_name r = name) (db_zones d)"

definition null_int :: "int option \<Rightarrow> int" where
  "null_int x = (case x of None \<Rightarrow> 0 | Some i \<Rightarrow> i)"

definition null_string :: "string option \<Rightarrow> string" where
  "null_string x = (case x of None \<Rightarrow> [] | Some s \<Rightarrow> s)"

text \<open>A row as a zone without its records.\<close>

definition scanZoneRow :: "zone_row \<Rightarrow> Zone" where
  "scanZoneRow r =
     \<lparr>z_Name = zr_name r, z_Version = zr_version r, z_SOA = zr_soa r, z_Records = [],
      z_DNSSEC = (if zr_dnssec_enabled r \<noteq> 0
        then Some \<lparr>d_Enabled = True, d_Algorithm = word_of_int (null_int (zr_dnssec_algorithm r)),
          d_KSKKeyTag = word_of_int (null_int (zr_dnssec_ksk_key_tag r)),
          d_ZSKKeyTag = word_of_int (null_int (zr_dnssec_zsk_key_tag r)),
          d_NSEC3Enabled = (zr_dnssec_nsec3_enabled r \<noteq> 0),
          d_NSEC3Iterations = word_of_int (null_int (zr_dnssec_nsec3_iterations r)),
          d_NSEC3Salt = null_string (zr_dnssec_nsec3_salt r),
          d_SignatureExpiration = zr_dnssec_signature_expiration r\<rparr>
        else None),
      z_CreatedAt = zr_created_at r, z_UpdatedAt = zr_updated_at r\<rparr>"

definition scanZone :: "db \<Rightarrow> string \<Rightarrow> store_error + Zone" where
  "scanZone d name =
     (case select_zone d name of None \<Rightarrow> Inl ErrZoneNotFound | Some r \<Rightarrow> Inr (scanZoneRow r))"

definition scan_record :: "record_row \<Rightarrow> Record" where
  "scan_record r =
     \<lparr>r_ID = formatSQLRecordID (rr_id r), r_Name = rr_name r, r_Type = rr_type r, r_TTL = rr_ttl r,
      r_Value = rr_value r, r_Priority = map_option word_of_int (rr_priority r)\<rparr>"

text \<open>\<open>records r JOIN zones z ON r.zone_id = z.id\<close>\<close>

definition joined :: "db \<Rightarrow> (zone_row \<times> record_row) list" where
  "joined d = filter (\<lambda>(z, r). rr_zone_id r = zr_id z) (List.product (db_zones d) (db_records d))"

definition loadRecordsDB :: "db \<Rightarrow> string \<Rightarrow> Record list" where
  "loadRecordsDB d zoneName =
     map (\<lambda>(_, r). scan_record r)
       (sort_key (\<lambda>(_, r). (rr_name r, rr_type r, rr_id r)) (filter (\<lambda>(z, _). zr_name z = zoneName) (joined d)))"

definition sql_GetZone :: "db \<Rightarrow> string \<Rightarrow> store_error + Zone" where
  "sql_GetZone d name0 =
     (let name = NormalizeZoneName name0 in
      case scanZone d name of
        Inl e \<Rightarrow> Inl e
      | Inr zone \<Rightarrow> Inr (zone\<lparr>z_Records := loadRecordsDB d (z_Name zone)\<rparr>))"

definition sql_CountZones :: "db \<Rightarrow> nat" where
  "sql_CountZones d = length (db_zones d)"

text \<open>\<open>LIMIT ? OFFSET ?\<close>; without a limit, \<open>LIMIT -1 OFFSET ?\<close>.\<close>

definition limit_offset :: "ListOptions \<Rightarrow> 'a list \<Rightarrow> 'a list" where
  "limit_offset opts xs =
     (let offset = normalizeListOffset (lo_Offset opts) in
      if 0 < lo_Limit opts then take (nat (lo_Limit opts)) (drop (nat offset) xs)
      else if 0 < offset then drop (nat offset) xs else xs)"

definition sql_ListZoneSummaries :: "db \<Rightarrow> ListOptions \<Rightarrow> ZoneSummary list" where
  "sql_ListZoneSummaries d opts =
     map (\<lambda>r. \<lparr>zs_Name = zr_name r, zs_Version = zr_version r\<rparr>) (limit_offset opts (sort_key zr_name (db_zones d)))"

text \<open>The rows of one batch query, and the map \<open>recordsByZone\<close> as a function of the zone's name.\<close>

definition batch_rows :: "db \<Rightarrow> string list \<Rightarrow> (string \<times> Record) list" where
  "batch_rows d names =
     map (\<lambda>(z, r). (zr_name z, scan_record r))
       (sort_key (\<lambda>(z, r). (zr_name z, rr_name r, rr_type r, rr_id r))
         (filter (\<lambda>(z, _). zr_name z \<in> set names) (joined d)))"

definition append_record :: "string \<times> Record \<Rightarrow> (string \<rightharpoonup> Record list) \<Rightarrow> (string \<rightharpoonup> Record list)" where
  "append_record nr m = m(fst nr \<mapsto> (case m (fst nr) of None \<Rightarrow> [] | Some rs \<Rightarrow> rs) @ [snd nr])"

function load_batches ::
  "db \<Rightarrow> string list \<Rightarrow> nat \<Rightarrow> (string \<rightharpoonup> Record list) \<Rightarrow> (string \<rightharpoonup> Record list)" where
  "load_batches d names start m =
     (if start < length names
      then let e = sqlBatchEnd start (length names)
           in load_batches d names e (fold append_record (batch_rows d (take (e - start) (drop start names))) m)
      else m)"
  by pat_completeness auto

termination load_batches
  by (relation "measure (\<lambda>(d, names, start, m). length names - start)")
    (auto simp: sqlBatchEnd_def sqlBatchLoadZoneLimit_def Let_def)

declare load_batches.simps [simp del]

definition assignZoneRecords :: "Zone list \<Rightarrow> (string \<rightharpoonup> Record list) \<Rightarrow> Zone list" where
  "assignZoneRecords zones m =
     map (\<lambda>z. z\<lparr>z_Records := (case m (z_Name z) of Some rs \<Rightarrow> rs | None \<Rightarrow> [])\<rparr>) zones"

definition loadRecordsForZonesDB :: "db \<Rightarrow> Zone list \<Rightarrow> Zone list" where
  "loadRecordsForZonesDB d zones =
     (if zones = [] then [] else assignZoneRecords zones (load_batches d (map z_Name zones) 0 Map.empty))"

definition sql_ListZones :: "db \<Rightarrow> ListOptions \<Rightarrow> Zone list" where
  "sql_ListZones d opts =
     loadRecordsForZonesDB d (map scanZoneRow (limit_offset opts (sort_key zr_name (db_zones d))))"

subsection \<open>Writing\<close>

definition zeroTime :: go_time where "zeroTime = -62135596800000000000" \<comment> \<open>1 January of the year 1\<close>

text \<open>The DNSSEC columns; the same code appears in \<open>insertZoneTx\<close>, \<open>zoneUpdateArgs\<close> and \<open>dnssecColumnValues\<close>.\<close>

definition set_dnssec_columns :: "DNSSECConfig option \<Rightarrow> zone_row \<Rightarrow> zone_row" where
  "set_dnssec_columns dnssec r =
     (case dnssec of
        Some c \<Rightarrow>
          (if d_Enabled c
           then r\<lparr>zr_dnssec_enabled := 1, zr_dnssec_algorithm := Some (uint (d_Algorithm c)),
             zr_dnssec_ksk_key_tag := Some (uint (d_KSKKeyTag c)), zr_dnssec_zsk_key_tag := Some (uint (d_ZSKKeyTag c)),
             zr_dnssec_nsec3_enabled := (if d_NSEC3Enabled c then 1 else 0),
             zr_dnssec_nsec3_iterations := Some (uint (d_NSEC3Iterations c)),
             zr_dnssec_nsec3_salt := Some (d_NSEC3Salt c),
             zr_dnssec_signature_expiration :=
               (case d_SignatureExpiration c of None \<Rightarrow> None | Some t \<Rightarrow> if t = zeroTime then None else Some t)\<rparr>
           else r\<lparr>zr_dnssec_enabled := 0, zr_dnssec_algorithm := None, zr_dnssec_ksk_key_tag := None,
             zr_dnssec_zsk_key_tag := None, zr_dnssec_nsec3_enabled := 0, zr_dnssec_nsec3_iterations := None,
             zr_dnssec_nsec3_salt := None, zr_dnssec_signature_expiration := None\<rparr>)
      | None \<Rightarrow> r\<lparr>zr_dnssec_enabled := 0, zr_dnssec_algorithm := None, zr_dnssec_ksk_key_tag := None,
             zr_dnssec_zsk_key_tag := None, zr_dnssec_nsec3_enabled := 0, zr_dnssec_nsec3_iterations := None,
             zr_dnssec_nsec3_salt := None, zr_dnssec_signature_expiration := None\<rparr>)"

definition zone_values :: "nat \<Rightarrow> Zone \<Rightarrow> zone_row" where
  "zone_values i zone = set_dnssec_columns (z_DNSSEC zone)
     \<lparr>zr_id = i, zr_name = z_Name zone, zr_version = z_Version zone, zr_soa = z_SOA zone,
      zr_dnssec_enabled = 0, zr_dnssec_algorithm = None, zr_dnssec_ksk_key_tag = None,
      zr_dnssec_zsk_key_tag = None, zr_dnssec_nsec3_enabled = 0, zr_dnssec_nsec3_iterations = None,
      zr_dnssec_nsec3_salt = None, zr_dnssec_signature_expiration = None,
      zr_created_at = z_CreatedAt zone, zr_updated_at = z_UpdatedAt zone\<rparr>"

text \<open>\<open>INSERT INTO zones\<close>: the new \<open>id\<close>, or the violated uniqueness of the name.\<close>

definition insertZoneTx :: "Zone \<Rightarrow> db \<Rightarrow> (store_error + nat) \<times> db" where
  "insertZoneTx zone d =
     (if select_zone d (z_Name zone) \<noteq> None then (Inl ErrZoneAlreadyExists, d)
      else let i = Suc (db_zone_seq d)
           in (Inr i, d\<lparr>db_zones := db_zones d @ [zone_values i zone], db_zone_seq := i\<rparr>))"

definition record_values :: "(string \<Rightarrow> string) \<Rightarrow> nat \<Rightarrow> nat \<Rightarrow> Record \<Rightarrow> record_row" where
  "record_values sha i zoneID rec =
     \<lparr>rr_id = i, rr_zone_id = zoneID, rr_name = r_Name rec, rr_type = r_Type rec, rr_ttl = r_TTL rec,
      rr_value = r_Value rec, rr_value_hash = sha (r_Value rec), rr_priority = map_option uint (r_Priority rec)\<rparr>"

text \<open>The unique index on \<open>(zone_id, name, type, ttl, value_hash)\<close>.\<close>

definition unique_key :: "record_row \<Rightarrow> nat \<times> string \<times> string \<times> uint32 \<times> string" where
  "unique_key r = (rr_zone_id r, rr_name r, rr_type r, rr_ttl r, rr_value_hash r)"

text \<open>\<open>INSERT INTO records\<close>; \<open>None\<close> is a violated constraint.\<close>

definition insert_row :: "record_row \<Rightarrow> db \<Rightarrow> db option" where
  "insert_row r d =
     (if rr_id r \<in> set (map rr_id (db_records d)) \<or> unique_key r \<in> set (map unique_key (db_records d)) then None
      else Some (d\<lparr>db_records := db_records d @ [r], db_record_seq := max (db_record_seq d) (rr_id r)\<rparr>))"

definition MaxInt64 :: int where "MaxInt64 = 9223372036854775807"

definition insertRecord :: "(string \<Rightarrow> string) \<Rightarrow> nat \<Rightarrow> nat list option \<Rightarrow> Record \<Rightarrow> db \<Rightarrow> db option" where
  "insertRecord sha zoneID allowed rec d =
     (case (case parseSQLRecordID (r_ID rec) of
              Some i \<Rightarrow> if allows allowed i then Some i else None | None \<Rightarrow> None) of
        Some i \<Rightarrow> insert_row (record_values sha i zoneID rec) d
      | None \<Rightarrow>
        (if MaxInt64 \<le> int (db_record_seq d) then None
         else insert_row (record_values sha (Suc (db_record_seq d)) zoneID rec) d))"

fun insertRecordsTx ::
  "(string \<Rightarrow> string) \<Rightarrow> nat \<Rightarrow> nat list option \<Rightarrow> Record list \<Rightarrow> db \<Rightarrow> store_error option \<times> db" where
  "insertRecordsTx sha zoneID allowed [] d = (None, d)"
| "insertRecordsTx sha zoneID allowed (rec # rs) d =
     (case insertRecord sha zoneID allowed rec d of
        None \<Rightarrow> (Some ErrInsertRecord, d)
      | Some d' \<Rightarrow> insertRecordsTx sha zoneID allowed rs d')"

text \<open>
  The operations within a transaction. A failure leaves the transaction as the statements before it
  made it.
\<close>

definition tx_CreateZone ::
  "(string \<Rightarrow> string) \<Rightarrow> env \<Rightarrow> Zone option \<Rightarrow> db \<Rightarrow> (store_error + Zone) \<times> db" where
  "tx_CreateZone sha env zp d =
     (case prepareZoneForCreate env NormalizeZoneName zp of
        Inl e \<Rightarrow> (Inl e, d)
      | Inr writeZone \<Rightarrow>
        (case insertZoneTx writeZone d of
           (Inl e, d1) \<Rightarrow> (Inl e, d1)
         | (Inr zoneID, d1) \<Rightarrow>
           (case insertRecordsTx sha zoneID None (z_Records writeZone) d1 of
              (Some e, d2) \<Rightarrow> (Inl e, d2)
            | (None, d2) \<Rightarrow> (Inr writeZone, d2))))"

text \<open>The statement \<open>UPDATE zones SET \<dots> WHERE name = ? [AND version = ?]\<close>.\<close>

definition update_values :: "Zone \<Rightarrow> zone_row \<Rightarrow> zone_row" where
  "update_values zone r = set_dnssec_columns (z_DNSSEC zone)
     (r\<lparr>zr_version := z_Version zone, zr_soa := z_SOA zone, zr_updated_at := z_UpdatedAt zone\<rparr>)"

definition cas_matches :: "string \<Rightarrow> string \<Rightarrow> zone_row \<Rightarrow> bool" where
  "cas_matches name expectedVersion r \<longleftrightarrow>
     zr_name r = name \<and> (expectedVersion = [] \<or> zr_version r = expectedVersion)"

definition cas_update :: "Zone \<Rightarrow> string \<Rightarrow> db \<Rightarrow> nat \<times> db" where
  "cas_update zone expectedVersion d =
     (length (filter (cas_matches (z_Name zone) expectedVersion) (db_zones d)),
      d\<lparr>db_zones := map (\<lambda>r. if cas_matches (z_Name zone) expectedVersion r then update_values zone r else r)
          (db_zones d)\<rparr>)"

text \<open>The fields that \<open>UpdateZone\<close> sets from the stored row, and the checks before it writes.\<close>

definition prepare_update :: "env \<Rightarrow> Zone \<Rightarrow> zone_row \<Rightarrow> store_error + Zone" where
  "prepare_update env zone row =
     (let z1 = zone\<lparr>z_Name := NormalizeZoneName (z_Name zone), z_UpdatedAt := e_now env,
            z_CreatedAt := zr_created_at row,
            z_SOA := (z_SOA zone)\<lparr>soa_Serial :=
              updateSOASerial (e_date env) (soa_Serial (zr_soa row)) (soa_Serial (z_SOA zone))\<rparr>\<rparr>
      in bindE (ensureZoneUpdateVersion env z1 (zr_version row)) (\<lambda>z2. validateZoneForWrite (Some z2)))"

definition replace_records :: "(string \<Rightarrow> string) \<Rightarrow> Zone \<Rightarrow> db \<Rightarrow> store_error option \<times> db" where
  "replace_records sha zone d =
     (case select_zone d (z_Name zone) of
        None \<Rightarrow> (Some ErrZoneNotFound, d)
      | Some row \<Rightarrow>
        (let old = filter (\<lambda>r. rr_zone_id r = zr_id row) (db_records d)
         in insertRecordsTx sha (zr_id row) (Some (map rr_id old)) (z_Records zone)
              (d\<lparr>db_records := filter (\<lambda>r. rr_zone_id r \<noteq> zr_id row) (db_records d)\<rparr>)))"

definition tx_UpdateZone ::
  "(string \<Rightarrow> string) \<Rightarrow> env \<Rightarrow> Zone \<Rightarrow> string \<Rightarrow> db \<Rightarrow> (store_error + Zone) \<times> db" where
  "tx_UpdateZone sha env zone expectedVersion d =
     (case select_zone d (NormalizeZoneName (z_Name zone)) of
        None \<Rightarrow> (Inl ErrZoneNotFound, d)
      | Some row \<Rightarrow>
        (case prepare_update env zone row of
           Inl e \<Rightarrow> (Inl e, d)
         | Inr z \<Rightarrow>
           (let (rows, d1) = cas_update z expectedVersion d in
            if rows = 0 then (Inl (if expectedVersion \<noteq> [] then ErrConflict else ErrZoneNotFound), d1)
            else case replace_records sha z d1 of
              (Some e, d2) \<Rightarrow> (Inl e, d2)
            | (None, d2) \<Rightarrow> (Inr z, d2))))"

text \<open>\<open>DELETE FROM zones WHERE name = ?\<close> with \<open>ON DELETE CASCADE\<close>.\<close>

definition delete_rows :: "string \<Rightarrow> db \<Rightarrow> nat \<times> db" where
  "delete_rows name d =
     (let gone = filter (\<lambda>r. zr_name r = name) (db_zones d)
      in (length gone,
          d\<lparr>db_zones := filter (\<lambda>r. zr_name r \<noteq> name) (db_zones d),
            db_records := filter (\<lambda>r. rr_zone_id r \<notin> set (map zr_id gone)) (db_records d)\<rparr>))"

definition tx_DeleteZone :: "string \<Rightarrow> db \<Rightarrow> store_error option \<times> db" where
  "tx_DeleteZone name d =
     (let (rows, d') = delete_rows (NormalizeZoneName name) d
      in (if rows = 0 then Some ErrZoneNotFound else None, d'))"

definition deleteSQLiteZoneWithVersionTx :: "string \<Rightarrow> string \<Rightarrow> db \<Rightarrow> store_error option \<times> db" where
  "deleteSQLiteZoneWithVersionTx name expectedVersion d =
     (case select_zone d name of
        None \<Rightarrow> (Some ErrZoneNotFound, d)
      | Some row \<Rightarrow>
        (if expectedVersion \<noteq> [] \<and> zr_version row \<noteq> expectedVersion then (Some ErrConflict, d)
         else let (rows, d') = delete_rows name d in (if rows = 0 then Some ErrConflict else None, d')))"

subsection \<open>The operations of the backend\<close>

text \<open>\<open>BeginTx\<close>, the operation, then \<open>Commit\<close>, or the deferred \<open>Rollback\<close>.\<close>

definition sql_CreateZone ::
  "(string \<Rightarrow> string) \<Rightarrow> env \<Rightarrow> Zone option \<Rightarrow> db \<Rightarrow> (store_error + Zone) \<times> db" where
  "sql_CreateZone sha env zp d =
     (case tx_CreateZone sha env zp d of (Inl e, _) \<Rightarrow> (Inl e, d) | (Inr z, d') \<Rightarrow> (Inr z, d'))"

definition sql_UpdateZone ::
  "(string \<Rightarrow> string) \<Rightarrow> env \<Rightarrow> Zone \<Rightarrow> string \<Rightarrow> db \<Rightarrow> (store_error + Zone) \<times> db" where
  "sql_UpdateZone sha env zone expectedVersion d =
     (case tx_UpdateZone sha env zone expectedVersion d of (Inl e, _) \<Rightarrow> (Inl e, d) | (Inr z, d') \<Rightarrow> (Inr z, d'))"

definition sql_UpdateDNSSECMetadata ::
  "env \<Rightarrow> string \<Rightarrow> DNSSECConfig option \<Rightarrow> db \<Rightarrow> store_error option \<times> db" where
  "sql_UpdateDNSSECMetadata env zoneName dnssec d =
     (let name = NormalizeZoneName zoneName;
          d' = d\<lparr>db_zones := map (\<lambda>r. if zr_name r = name
                 then (set_dnssec_columns dnssec r)\<lparr>zr_updated_at := e_now env\<rparr> else r) (db_zones d)\<rparr>
      in (if list_ex (\<lambda>r. zr_name r = name) (db_zones d) then None else Some ErrZoneNotFound, d'))"

definition sql_DeleteZone :: "string \<Rightarrow> db \<Rightarrow> store_error option \<times> db" where
  "sql_DeleteZone name d = tx_DeleteZone name d"

definition sql_DeleteZoneWithVersion :: "string \<Rightarrow> string \<Rightarrow> db \<Rightarrow> store_error option \<times> db" where
  "sql_DeleteZoneWithVersion name expectedVersion d =
     (case deleteSQLiteZoneWithVersionTx (NormalizeZoneName name) expectedVersion d of
        (Some e, _) \<Rightarrow> (Some e, d) | (None, d') \<Rightarrow> (None, d'))"

end
