(* ===== verification/SQLite_Store.thy ===== *)
theory SQLite_Store
  imports Record_Writers SQLite_Tables
begin

section \<open>The SQLite backend is a zone store\<close>

text \<open>
  The invariant of the tables, and the interpretation of the backend as a \<open>zone_store\<close>: what is stored
  under a name is the row of that name with the records that belong to it, in the order of the query. It
  is not an \<open>ordered_store\<close>, since records come back sorted, and since \<open>UpdateZone\<close> validates before it
  compares versions. The lemmas on clients of a store hold of it under the prefix \<open>sql\<close>.
\<close>

subsection \<open>Validation does not depend on the order of the records\<close>

definition strip_id :: "Record \<Rightarrow> Record" where
  "strip_id r = r\<lparr>r_ID := []\<rparr>"

lemma strip_id_simps [simp]:
  "r_Name (strip_id r) = r_Name r" "r_Type (strip_id r) = r_Type r" "r_TTL (strip_id r) = r_TTL r"
  "r_Value (strip_id r) = r_Value r" "r_Priority (strip_id r) = r_Priority r"
  "strip_id (r\<lparr>r_ID := i\<rparr>) = strip_id r" "dup_key z (strip_id r) = dup_key z r"
  "ValidateRecord (strip_id r) = ValidateRecord r"
  by (simp_all add: strip_id_def dup_key_def canonicalRecordDuplicateKey_def)

lemma length_filter_mset: "length (filter P xs) = size (filter_mset P (mset xs))"
  by (simp flip: mset_filter)

lemma rrsets_ok_mset:
  "rrsets_ok z rs \<longleftrightarrow>
    (\<forall>k. count (image_mset (dup_key z) (mset rs)) k \<le> 1)
    \<and> (\<forall>r \<in># mset rs. r_Type r = RecordTypeCNAME \<longrightarrow> rec_owner z r \<noteq> z)
    \<and> (\<forall>w. size (filter_mset (\<lambda>r. r_Type r = RecordTypeCNAME \<and> rec_owner z r = w) (mset rs)) \<le> 1)
    \<and> (\<forall>q \<in># mset rs. \<forall>r \<in># mset rs. rec_owner z q = rec_owner z r \<and> r_Type q = r_Type r \<longrightarrow>
         r_TTL q = r_TTL r)"
proof -
  have "distinct xs \<longleftrightarrow> (\<forall>k. count (mset xs) k \<le> 1)" for xs :: "string list"
    by (subst distinct_count_atmost_1) (metis count_mset_0_iff le_numeral_extra(3,4) less_one linorder_not_less order_le_less)
  from this [of "map (dup_key z) rs"] show ?thesis
    by (simp add: rrsets_ok_def owned_def length_filter_mset conj_commute filter_mset_eq_conv flip: mset_map)
qed

lemma rrsets_ok_strip: "rrsets_ok z (map strip_id rs) \<longleftrightarrow> rrsets_ok z rs"
  by (simp add: rrsets_ok_def owned_def comp_def filter_map)

lemma rrsets_ok_perm:
  assumes "mset (map strip_id rs) = mset (map strip_id rs')"
  shows "rrsets_ok z rs \<longleftrightarrow> rrsets_ok z rs'"
  using rrsets_ok_mset [of z "map strip_id rs"] rrsets_ok_mset [of z "map strip_id rs'"] assms
  by (simp add: rrsets_ok_strip del: mset_map)

lemma ball_strip:
  assumes "mset (map strip_id rs) = mset (map strip_id rs')" "\<And>r. P (strip_id r) \<longleftrightarrow> P r"
  shows "(\<forall>r \<in> set rs. P r) \<longleftrightarrow> (\<forall>r \<in> set rs'. P r)"
proof -
  have "strip_id ` set rs = strip_id ` set rs'" using arg_cong [OF assms(1), of set_mset] by simp
  then show ?thesis using assms(2) by (metis (no_types, lifting) image_iff)
qed

lemma ValidateZone_perm:
  assumes "z_Name z' = z_Name z" "z_SOA z' = z_SOA z"
    and p: "mset (map strip_id (z_Records z')) = mset (map strip_id (z_Records z))"
  shows "ValidateZone (Some z') = None \<longleftrightarrow> ValidateZone (Some z) = None"
proof -
  let ?n = "z_Name z" and ?rs = "z_Records z" and ?rs' = "z_Records z'"
  have "cname_alone k ?rs' \<longleftrightarrow> cname_alone k ?rs" for k
    unfolding cname_alone_def
    by (subst ball_strip [OF p], simp, rule ball_cong [OF refl], rule ball_strip [OF p]) simp
  moreover have "apex_ns k ?rs' \<longleftrightarrow> apex_ns k ?rs" for k
    using ball_strip [OF p, of "\<lambda>r. \<not> (rec_owner k r = k \<and> r_Type r = RecordTypeNS)"] by (auto simp: apex_ns_def)
  moreover have "(\<forall>r \<in> set ?rs'. ValidateRecord r = None \<and> ValidateRecordNameInZone (r_Name r) ?n = None
      \<and> ValidateRecordValueInZone (r_Type r) (r_Value r) ?n = None) \<longleftrightarrow>
    (\<forall>r \<in> set ?rs. ValidateRecord r = None \<and> ValidateRecordNameInZone (r_Name r) ?n = None
      \<and> ValidateRecordValueInZone (r_Type r) (r_Value r) ?n = None)"
    by (rule ball_strip [OF p]) simp
  ultimately show ?thesis using assms(1,2) rrsets_ok_perm [OF p]
    by (simp add: ValidateZone_iff ValidateRecordSetConstraints_iff Let_def)
qed

subsection \<open>What the tables hold\<close>

text \<open>The rows of a zone, in the order of the query, and the zone that a row stands for.\<close>

definition zone_rows :: "db \<Rightarrow> zone_row \<Rightarrow> record_row list" where
  "zone_rows d row =
     sort_key (\<lambda>r. (rr_name r, rr_type r, rr_id r)) (filter (\<lambda>r. rr_zone_id r = zr_id row) (db_records d))"

definition full_zone :: "db \<Rightarrow> zone_row \<Rightarrow> Zone" where
  "full_zone d row = (scanZoneRow row)\<lparr>z_Records := map scan_record (zone_rows d row)\<rparr>"

definition sql_contents :: "db \<Rightarrow> string \<Rightarrow> Zone option" where
  "sql_contents d k = map_option (full_zone d) (select_zone d k)"

text \<open>
  Names and identifiers are unique, no identifier is above its counter, every record belongs to a
  zone, and every zone, with its records, would pass validation.
\<close>

definition sql_inv :: "db \<Rightarrow> bool" where
  "sql_inv d \<longleftrightarrow> distinct (map zr_name (db_zones d)) \<and> distinct (map zr_id (db_zones d))
     \<and> (\<forall>row \<in> set (db_zones d). zr_id row \<le> db_zone_seq d \<and> stored_ok (zr_name row, full_zone d row))
     \<and> distinct (map rr_id (db_records d)) \<and> int (db_record_seq d) \<le> MaxInt64
     \<and> (\<forall>r \<in> set (db_records d). 0 < rr_id r \<and> rr_id r \<le> db_record_seq d \<and> rr_zone_id r \<in> zr_id ` set (db_zones d))"

lemma select_zone_Some:
  "select_zone d k = Some row \<Longrightarrow> row \<in> set (db_zones d) \<and> zr_name row = k"
  by (auto simp: select_zone_def find_Some_iff)

lemma select_zone_None: "select_zone d k = None \<longleftrightarrow> k \<notin> zr_name ` set (db_zones d)"
  by (auto simp: select_zone_def find_None_iff)

lemma select_zone_eq:
  assumes "distinct (map zr_name (db_zones d))"
  shows "select_zone d k = Some row \<longleftrightarrow> row \<in> set (db_zones d) \<and> zr_name row = k"
  using select_zone_Some [of d k] select_zone_None [of d k] assms
  by (cases "select_zone d k") (auto simp: distinct_map inj_on_def)

lemma scanZoneRow_simps [simp]:
  "z_Name (scanZoneRow row) = zr_name row" "z_Version (scanZoneRow row) = zr_version row"
  "z_SOA (scanZoneRow row) = zr_soa row" "z_CreatedAt (scanZoneRow row) = zr_created_at row"
  by (simp_all add: scanZoneRow_def)

lemma full_zone_simps [simp]:
  "z_Name (full_zone d row) = zr_name row" "z_Version (full_zone d row) = zr_version row"
  "z_SOA (full_zone d row) = zr_soa row" "z_Records (full_zone d row) = map scan_record (zone_rows d row)"
  by (simp_all add: full_zone_def)

lemma sort_key_map: "sort_key f (map g xs) = map g (sort_key (\<lambda>x. f (g x)) xs)"
proof -
  have "insort_key f (g x) (map g ys) = map g (insort_key (\<lambda>x. f (g x)) x ys)" for x ys
    by (induction ys) auto
  then show ?thesis by (induction xs) auto
qed

lemma filter_product:
  "filter (\<lambda>(x, y). P x \<and> Q x y) (List.product xs ys) = concat (map (\<lambda>x. map (Pair x) (filter (Q x) ys)) (filter P xs))"
  by (induction xs) (auto simp: filter_map comp_def)

lemma filter_key_singleton:
  "distinct (map f xs) \<Longrightarrow> x \<in> set xs \<Longrightarrow> filter (\<lambda>y. f y = f x) xs = [x]"
proof (induction xs)
  case (Cons a xs)
  then show ?case by (cases "a = x") (auto simp: filter_empty_conv, metis image_eqI)
qed simp

lemma joined_zone:
  assumes "distinct (map zr_name (db_zones d))" "row \<in> set (db_zones d)"
  shows "filter (\<lambda>(z, _). zr_name z = zr_name row) (joined d) =
    map (Pair row) (filter (\<lambda>r. rr_zone_id r = zr_id row) (db_records d))"
proof -
  have "filter (\<lambda>z. zr_name z = zr_name row) (db_zones d) = [row]"
    using filter_key_singleton [OF assms] .
  moreover have "filter (\<lambda>(z, _). zr_name z = zr_name row) (joined d) =
      filter (\<lambda>(z, r). zr_name z = zr_name row \<and> rr_zone_id r = zr_id z) (List.product (db_zones d) (db_records d))"
    by (auto simp: joined_def intro!: filter_cong)
  ultimately show ?thesis by (simp add: filter_product)
qed

lemma loadRecordsDB_zone:
  assumes "distinct (map zr_name (db_zones d))" "row \<in> set (db_zones d)"
  shows "loadRecordsDB d (zr_name row) = map scan_record (zone_rows d row)"
  by (simp add: loadRecordsDB_def joined_zone [OF assms] sort_key_map zone_rows_def)

lemma sql_GetZone_spec:
  assumes "distinct (map zr_name (db_zones d))"
  shows "sql_GetZone d n =
    (case sql_contents d (NormalizeZoneName n) of None \<Rightarrow> Inl ErrZoneNotFound | Some z \<Rightarrow> Inr z)"
proof (cases "select_zone d (NormalizeZoneName n)")
  case (Some row)
  then show ?thesis using loadRecordsDB_zone [OF assms, of row] select_zone_Some [OF Some]
    by (simp add: sql_GetZone_def scanZone_def sql_contents_def full_zone_def)
qed (simp add: sql_GetZone_def scanZone_def sql_contents_def)

text \<open>A zone's rows depend only on the records with its identifier.\<close>

lemma full_zone_cong:
  assumes "zr_id row' = zr_id row" "scanZoneRow row' = scanZoneRow row"
    and "filter (\<lambda>r. rr_zone_id r = zr_id row) (db_records d') = filter (\<lambda>r. rr_zone_id r = zr_id row) (db_records d)"
  shows "full_zone d' row' = full_zone d row"
  using assms by (simp add: full_zone_def zone_rows_def)

lemma zone_rows_mset:
  "mset (map strip_id (map scan_record (zone_rows d row))) =
    mset (map (\<lambda>r. strip_id (scan_record r)) (filter (\<lambda>r. rr_zone_id r = zr_id row) (db_records d)))"
  by (simp add: zone_rows_def comp_def)

subsection \<open>Inserting records\<close>

lemma scan_record_values [simp]:
  "scan_record (record_values sha i zid r) = r\<lparr>r_ID := formatSQLRecordID i\<rparr>"
  "rr_id (record_values sha i zid r) = i" "rr_zone_id (record_values sha i zid r) = zid"
  by (cases "r_Priority r"; simp add: scan_record_def record_values_def)+

text \<open>
  The row of a record: it keeps its identifier if that was one of the zone's, and gets a new one
  otherwise.
\<close>

definition row_of :: "nat \<Rightarrow> nat list option \<Rightarrow> Record \<Rightarrow> record_row \<Rightarrow> bool" where
  "row_of zid allowed r row \<longleftrightarrow> rr_zone_id row = zid \<and> scan_record row = r\<lparr>r_ID := formatSQLRecordID (rr_id row)\<rparr>
     \<and> (\<forall>i. parseSQLRecordID (r_ID r) = Some i \<longrightarrow> allows allowed i \<longrightarrow> rr_id row = i)"

definition ids_ok :: "db \<Rightarrow> bool" where
  "ids_ok d \<longleftrightarrow> distinct (map rr_id (db_records d)) \<and> int (db_record_seq d) \<le> MaxInt64
     \<and> (\<forall>r \<in> set (db_records d). 0 < rr_id r \<and> rr_id r \<le> db_record_seq d)"

lemma parseSQLRecordID_pos: "parseSQLRecordID s = Some i \<Longrightarrow> 0 < i"
  by (auto simp: parseSQLRecordID_def Let_def split: if_splits option.splits)

lemma insertRecord_ok:
  assumes "insertRecord sha zid allowed r d = Some d'" "ids_ok d" "\<forall>i. allows allowed i \<longrightarrow> i \<le> db_record_seq d"
  shows "\<exists>row. d' = d\<lparr>db_records := db_records d @ [row], db_record_seq := max (db_record_seq d) (rr_id row)\<rparr>
    \<and> row_of zid allowed r row \<and> ids_ok d'"
proof -
  obtain i where i: "insert_row (record_values sha i zid r) d = Some d'" "0 < i"
      "\<forall>j. parseSQLRecordID (r_ID r) = Some j \<longrightarrow> allows allowed j \<longrightarrow> i = j"
      "int (max (db_record_seq d) i) \<le> MaxInt64"
    using assms parseSQLRecordID_pos
    by (fastforce simp: insertRecord_def ids_ok_def split: option.splits if_splits)
  let ?row = "record_values sha i zid r"
  have d': "d' = d\<lparr>db_records := db_records d @ [?row], db_record_seq := max (db_record_seq d) i\<rparr>"
    and fresh: "i \<notin> rr_id ` set (db_records d)"
    using i(1) by (auto simp: insert_row_def split: if_splits)
  have "ids_ok d'" using assms(2) fresh i(2,4) by (auto simp: d' ids_ok_def)
  then show ?thesis using d' i(3) by (intro exI [of _ ?row]) (auto simp: row_of_def)
qed

lemma insertRecordsTx_ok:
  assumes "insertRecordsTx sha zid allowed rs d = (None, d')" "ids_ok d"
    "\<forall>i. allows allowed i \<longrightarrow> i \<le> db_record_seq d"
  shows "\<exists>new. db_records d' = db_records d @ new \<and> list_all2 (row_of zid allowed) rs new
    \<and> db_zones d' = db_zones d \<and> db_zone_seq d' = db_zone_seq d \<and> ids_ok d'"
  using assms
proof (induction rs arbitrary: d)
  case (Cons r rs)
  then obtain d1 where d1: "insertRecord sha zid allowed r d = Some d1" "insertRecordsTx sha zid allowed rs d1 = (None, d')"
    by (auto split: option.splits)
  obtain row where row: "d1 = d\<lparr>db_records := db_records d @ [row], db_record_seq := max (db_record_seq d) (rr_id row)\<rparr>"
      "row_of zid allowed r row" "ids_ok d1"
    using insertRecord_ok [OF d1(1) Cons.prems(2,3)] by blast
  have "\<forall>i. allows allowed i \<longrightarrow> i \<le> db_record_seq d1" using Cons.prems(3) row(1) by (auto simp: max_def)
  from Cons.IH [OF d1(2) row(3) this] obtain new where "db_records d' = db_records d1 @ new"
      "list_all2 (row_of zid allowed) rs new" "db_zones d' = db_zones d1" "db_zone_seq d' = db_zone_seq d1" "ids_ok d'"
    by blast
  then show ?case using row by (intro exI [of _ "row # new"]) simp
qed simp

lemma rows_strip:
  "list_all2 (row_of zid allowed) rs new \<Longrightarrow> map (\<lambda>r. strip_id (scan_record r)) new = map strip_id rs"
  by (induction rule: list_all2_induct) (auto simp: row_of_def)

lemma rows_zone: "list_all2 (row_of zid allowed) rs new \<Longrightarrow> \<forall>r \<in> set new. rr_zone_id r = zid"
  by (induction rule: list_all2_induct) (auto simp: row_of_def)

subsection \<open>The operations\<close>

text \<open>
  The row \<open>row'\<close> and the records \<open>new\<close> take the place of what was stored under \<open>k\<close>; everything else is as
  before.
\<close>

lemma put_zone:
  assumes inv: "sql_inv d" and ok: "stored_ok (k, z)"
    and row': "zr_name row' = k" "zr_version row' = z_Version z" "zr_soa row' = z_SOA z"
    and zones: "set (db_zones d') = insert row' {r \<in> set (db_zones d). zr_name r \<noteq> k}"
      "distinct (map zr_name (db_zones d'))" "distinct (map zr_id (db_zones d'))"
      "\<forall>row \<in> set (db_zones d'). zr_id row \<le> db_zone_seq d'"
    and recs: "db_records d' = filter (\<lambda>r. rr_zone_id r \<noteq> zr_id row') (db_records d) @ new"
      "list_all2 (row_of (zr_id row') allowed) (z_Records z) new" "ids_ok d'"
    and other: "\<forall>r \<in> set (db_records d). rr_zone_id r \<noteq> zr_id row' \<longrightarrow>
      (\<exists>row \<in> set (db_zones d). zr_id row = rr_zone_id r \<and> zr_name row \<noteq> k)"
  shows "sql_inv d' \<and> sql_contents d' = (sql_contents d)(k \<mapsto> full_zone d' row')
    \<and> mset (map strip_id (z_Records (full_zone d' row'))) = mset (map strip_id (z_Records z))"
proof -
  have new: "\<forall>r \<in> set new. rr_zone_id r = zr_id row'" using rows_zone [OF recs(2)] .
  have "filter (\<lambda>r. rr_zone_id r = zr_id row') (db_records d') = new"
    using new by (auto simp: recs(1) filter_id_conv)
  then have m: "mset (map strip_id (z_Records (full_zone d' row'))) = mset (map strip_id (z_Records z))"
    using zone_rows_mset [of d' row'] rows_strip [OF recs(2)] by (simp del: mset_map)
  have full: "stored_ok (k, full_zone d' row')"
    using ok row' ValidateZone_perm [OF _ _ m] by (simp add: stored_ok_def)
  have same: "full_zone d' row = full_zone d row" if "row \<in> set (db_zones d)" "zr_name row \<noteq> k" for row
  proof (rule full_zone_cong [OF refl refl])
    have "row \<in> set (db_zones d')" "row' \<in> set (db_zones d')" "row \<noteq> row'"
      using zones(1) that row'(1) by auto
    then have "zr_id row \<noteq> zr_id row'" using zones(3) by (auto simp: distinct_map dest: inj_onD)
    then have "filter (\<lambda>r. rr_zone_id r = zr_id row) new = []"
      "filter (\<lambda>r. rr_zone_id r = zr_id row \<and> rr_zone_id r \<noteq> zr_id row') (db_records d) =
       filter (\<lambda>r. rr_zone_id r = zr_id row) (db_records d)"
      using new by (simp add: filter_empty_conv, intro filter_cong) auto
    then show "filter (\<lambda>r. rr_zone_id r = zr_id row) (db_records d') = filter (\<lambda>r. rr_zone_id r = zr_id row) (db_records d)"
      by (simp add: recs(1) conj_commute)
  qed
  have "sql_inv d'"
    unfolding sql_inv_def
  proof (intro conjI ballI)
    fix row assume row: "row \<in> set (db_zones d')"
    show "stored_ok (zr_name row, full_zone d' row)"
    proof (cases "row = row'")
      case True
      then show ?thesis using full row'(1) by simp
    next
      case False
      then have r: "row \<in> set (db_zones d)" "zr_name row \<noteq> k" using row zones(1) by auto
      then show ?thesis using same [OF r] inv by (simp add: sql_inv_def)
    qed
  next
    fix r assume r: "r \<in> set (db_records d')"
    show "rr_zone_id r \<in> zr_id ` set (db_zones d')"
    proof (cases "rr_zone_id r = zr_id row'")
      case True
      then show ?thesis using zones(1) by simp
    next
      case False
      then have "r \<in> set (db_records d)" using r new by (auto simp: recs(1))
      then obtain row where "row \<in> set (db_zones d)" "zr_id row = rr_zone_id r" "zr_name row \<noteq> k"
        using other False by blast
      then show ?thesis using zones(1) by (intro image_eqI [of _ _ row]) auto
    qed
  qed (use zones recs(3) in \<open>auto simp: ids_ok_def\<close>)
  moreover have "sql_contents d' n = ((sql_contents d)(k \<mapsto> full_zone d' row')) n" for n
  proof (cases "n = k")
    case True
    then show ?thesis using select_zone_eq [OF zones(2), of k row'] zones(1) row'(1) by (simp add: sql_contents_def)
  next
    case False
    have "distinct (map zr_name (db_zones d))" using inv by (simp add: sql_inv_def)
    then have "select_zone d' n = Some row \<longleftrightarrow> select_zone d n = Some row" for row
      using select_zone_eq [OF zones(2), of n row] select_zone_eq [of d n row] zones(1) row'(1) False by auto
    then have "select_zone d' n = select_zone d n" by (metis not_None_eq)
    then show ?thesis using same False select_zone_Some [of d n]
      by (cases "select_zone d n") (auto simp: sql_contents_def)
  qed
  ultimately show ?thesis using m by blast
qed

lemma strip_rdata: "mset (map strip_id rs) = mset (map strip_id rs') \<Longrightarrow> mset (rdata rs) = mset (rdata rs')"
proof -
  have "rdata rs = rdata (map strip_id rs)" for rs by (simp add: rdata_def)
  then show "mset (map strip_id rs) = mset (map strip_id rs') \<Longrightarrow> mset (rdata rs) = mset (rdata rs')"
    by (metis rdata_map mset_map)
qed

lemma set_dnssec_columns_simps [simp]:
  "zr_id (set_dnssec_columns c r) = zr_id r" "zr_name (set_dnssec_columns c r) = zr_name r"
  "zr_version (set_dnssec_columns c r) = zr_version r" "zr_soa (set_dnssec_columns c r) = zr_soa r"
  "zr_created_at (set_dnssec_columns c r) = zr_created_at r"
  by (simp_all add: set_dnssec_columns_def split: option.split)

lemma zone_values_simps [simp]:
  "zr_id (zone_values i z) = i" "zr_name (zone_values i z) = z_Name z"
  "zr_version (zone_values i z) = z_Version z" "zr_soa (zone_values i z) = z_SOA z"
  by (simp_all add: zone_values_def)

lemma update_values_simps [simp]:
  "zr_id (update_values z r) = zr_id r" "zr_name (update_values z r) = zr_name r"
  "zr_version (update_values z r) = z_Version z" "zr_soa (update_values z r) = z_SOA z"
  by (simp_all add: update_values_def)

lemma sql_CreateZone_ok:
  assumes "sql_inv d" "env_ok e" "sql_CreateZone sha e zp d = (Inr w, d')"
  shows "sql_inv d' \<and> (\<exists>z w'. zp = Some z \<and> created_from e z w' \<and> z_Name w = z_Name w'
    \<and> sql_contents d (z_Name w') = None \<and> sql_contents d' = (sql_contents d)(z_Name w' \<mapsto> w'))"
proof -
  let ?i = "Suc (db_zone_seq d)"
  let ?row = "zone_values ?i w"
  obtain d1 where p: "prepareZoneForCreate e NormalizeZoneName zp = Inr w" and n: "select_zone d (z_Name w) = None"
      and d1: "d1 = d\<lparr>db_zones := db_zones d @ [?row], db_zone_seq := ?i\<rparr>"
      and i: "insertRecordsTx sha ?i None (z_Records w) d1 = (None, d')"
    using assms(3) by (auto simp: sql_CreateZone_def tx_CreateZone_def insertZoneTx_def Let_def
        split: sum.splits prod.splits if_splits option.splits)
  obtain z where z: "zp = Some z" "created_from e z w" and ok: "stored_ok (z_Name w, w)"
    using prepareZoneForCreate_ok [OF p assms(2)] by blast
  have "ids_ok d1" using assms(1) by (simp add: d1 ids_ok_def sql_inv_def)
  then obtain new where new: "db_records d' = db_records d @ new" "list_all2 (row_of ?i None) (z_Records w) new"
      "db_zones d' = db_zones d @ [?row]" "db_zone_seq d' = ?i" "ids_ok d'"
    using insertRecordsTx_ok [OF i] by (auto simp: allows_def d1)
  have fresh: "\<forall>row \<in> set (db_zones d). zr_name row \<noteq> z_Name w" using n unfolding select_zone_None by (metis image_eqI)
  have ids: "\<forall>row \<in> set (db_zones d). zr_id row \<noteq> ?i" "\<forall>r \<in> set (db_records d). rr_zone_id r \<noteq> ?i"
    using assms(1) by (fastforce simp: sql_inv_def)+
  have put: "sql_inv d' \<and> sql_contents d' = (sql_contents d)(z_Name w \<mapsto> full_zone d' ?row)
      \<and> mset (map strip_id (z_Records (full_zone d' ?row))) = mset (map strip_id (z_Records w))"
  proof (rule put_zone [OF assms(1) ok, where new = new and allowed = None])
    show "db_records d' = filter (\<lambda>r. rr_zone_id r \<noteq> zr_id ?row) (db_records d) @ new"
      using new(1) ids(2) by (simp add: filter_id_conv)
    show "\<forall>r \<in> set (db_records d). rr_zone_id r \<noteq> zr_id ?row \<longrightarrow>
        (\<exists>row \<in> set (db_zones d). zr_id row = rr_zone_id r \<and> zr_name row \<noteq> z_Name w)"
      using assms(1) fresh by (force simp: sql_inv_def)
  qed (use new fresh ids assms(1) in \<open>auto simp: sql_inv_def\<close>)
  then have "mset (rdata (z_Records (full_zone d' ?row))) = mset (rdata (z_Records w))" using strip_rdata by blast
  then have "created_from e z (full_zone d' ?row)"
    using z(2) by (simp add: created_from_def del: full_zone_simps(4))
  moreover have "sql_contents d (z_Name w) = None" using n by (simp add: sql_contents_def)
  moreover have "z_Name (full_zone d' ?row) = z_Name w" by simp
  ultimately show ?thesis using put z(1) by metis
qed

lemma prepare_update_name:
  assumes "prepare_update e z row = Inr w"
  shows "z_Name w = NormalizeZoneName (z_Name z)"
proof -
  obtain z2 where v: "validateZoneForWrite (Some z2) = Inr w" "z_Name z2 = NormalizeZoneName (z_Name z)"
    using assms by (auto simp: prepare_update_def ensureZoneUpdateVersion_def Let_def bindE_def
        split: sum.splits if_splits option.splits)
  then show ?thesis by (subst validateZoneForWrite_ok(2) [OF v(1)]) simp
qed

lemma prepare_update_ok:
  assumes "prepare_update e z row = Inr w" "env_ok e" "zr_version row \<noteq> []"
  shows "z_Name w = NormalizeZoneName (z_Name z)" "stored_ok (z_Name w, w)"
    "version_after e z (zr_version row) (z_Version w)" "rdata (z_Records w) = rdata (z_Records z)"
    "map r_ID (z_Records w) = map r_ID (z_Records z)"
    "soa_Serial (z_SOA w) = updateSOASerial (e_date e) (soa_Serial (zr_soa row)) (soa_Serial (z_SOA z))"
proof -
  obtain z2 where v: "validateZoneForWrite (Some z2) = Inr w" "z_Name z2 = NormalizeZoneName (z_Name z)"
      "version_after e z (zr_version row) (z_Version z2)" "z_Records z2 = z_Records z"
      "soa_Serial (z_SOA z2) = updateSOASerial (e_date e) (soa_Serial (zr_soa row)) (soa_Serial (z_SOA z))"
    using assms(1) by (auto simp: prepare_update_def ensureZoneUpdateVersion_def version_after_def Let_def bindE_def
        split: sum.splits if_splits option.splits)
  note w = validateZoneForWrite_ok [OF v(1)]
  have f: "z_Name w = z_Name z2" "z_Version w = z_Version z2" "z_SOA w = z_SOA z2" by (subst w(2), simp)+
  have "z_Version w \<noteq> []" using v(3) f assms(2,3) by (auto simp: version_after_def env_ok_def split: if_splits)
  then show "z_Name w = NormalizeZoneName (z_Name z)" "stored_ok (z_Name w, w)"
    "version_after e z (zr_version row) (z_Version w)" "rdata (z_Records w) = rdata (z_Records z)"
    "soa_Serial (z_SOA w) = updateSOASerial (e_date e) (soa_Serial (zr_soa row)) (soa_Serial (z_SOA z))"
    using v f w by (auto simp: stored_ok_def NormalizeZoneName_idem)
  show "map r_ID (z_Records w) = map r_ID (z_Records z)"
    using v(1,4) normalize_records_ids
    by (auto simp: validateZoneForWrite_def NormalizeZoneDerivedFields_def okE_def bindE_def split: sum.splits option.splits)
qed

text \<open>What a successful update has done, statement by statement.\<close>

lemma sql_UpdateZone_cases:
  assumes "sql_inv d" "sql_UpdateZone sha e z v d = (Inr w, d')"
  obtains row d1 where "select_zone d (NormalizeZoneName (z_Name z)) = Some row" "prepare_update e z row = Inr w"
    "v = [] \<or> zr_version row = v"
    "d1 = d\<lparr>db_zones := map (\<lambda>r. if r = row then update_values w row else r) (db_zones d),
            db_records := filter (\<lambda>r. rr_zone_id r \<noteq> zr_id row) (db_records d)\<rparr>"
    "insertRecordsTx sha (zr_id row)
       (Some (map rr_id (filter (\<lambda>r. rr_zone_id r = zr_id row) (db_records d)))) (z_Records w) d1 = (None, d')"
proof -
  let ?k = "NormalizeZoneName (z_Name z)"
  obtain row d0 where row: "select_zone d ?k = Some row" and p: "prepare_update e z row = Inr w"
      and c: "cas_update w v d = (length (filter (cas_matches (z_Name w) v) (db_zones d)), d0)"
      and n: "filter (cas_matches (z_Name w) v) (db_zones d) \<noteq> []"
      and r: "replace_records sha w d0 = (None, d')"
    using assms(2) by (auto simp: sql_UpdateZone_def tx_UpdateZone_def Let_def cas_update_def
        split: prod.splits sum.splits option.splits if_splits)
  have nw: "z_Name w = ?k" using prepare_update_name [OF p] .
  have dn: "distinct (map zr_name (db_zones d))" using assms(1) by (simp add: sql_inv_def)
  have uniq: "r = row" if "r \<in> set (db_zones d)" "zr_name r = ?k" for r
    using that select_zone_eq [OF dn, of ?k r] row by simp
  have rowk: "row \<in> set (db_zones d)" "zr_name row = ?k" using select_zone_Some [OF row] by auto
  have m: "cas_matches (z_Name w) v row" using n uniq by (auto simp: filter_empty_conv cas_matches_def nw)
  then have cm: "cas_matches (z_Name w) v r \<longleftrightarrow> r = row" if "r \<in> set (db_zones d)" for r
    using uniq that by (auto simp: cas_matches_def nw)
  have d0: "d0 = d\<lparr>db_zones := map (\<lambda>r. if r = row then update_values w row else r) (db_zones d)\<rparr>"
    using c cm by (auto simp: cas_update_def)
  have "map zr_name (db_zones d0) = map zr_name (db_zones d)" by (auto simp: d0)
  moreover have "update_values w row \<in> set (db_zones d0)" using rowk(1) by (auto simp: d0)
  ultimately have "select_zone d0 (z_Name w) = Some (update_values w row)"
    using select_zone_eq [of d0 "z_Name w" "update_values w row"] dn rowk(2) nw by simp
  then have "insertRecordsTx sha (zr_id row)
      (Some (map rr_id (filter (\<lambda>r. rr_zone_id r = zr_id row) (db_records d)))) (z_Records w)
      (d0\<lparr>db_records := filter (\<lambda>r. rr_zone_id r \<noteq> zr_id row) (db_records d)\<rparr>) = (None, d')"
    using r by (simp add: replace_records_def d0)
  then show ?thesis using that [OF row p _ refl] m by (simp add: cas_matches_def d0)
qed

lemma sql_UpdateZone_put:
  assumes "sql_inv d" "env_ok e" "sql_UpdateZone sha e z v d = (Inr w, d')"
  obtains row new where "select_zone d (NormalizeZoneName (z_Name z)) = Some row" "prepare_update e z row = Inr w"
    "v = [] \<or> zr_version row = v"
    "list_all2 (row_of (zr_id row) (Some (map rr_id (filter (\<lambda>r. rr_zone_id r = zr_id row) (db_records d)))))
       (z_Records w) new"
    "filter (\<lambda>r. rr_zone_id r = zr_id row) (db_records d') = new"
    "sql_inv d'" "sql_contents d' = (sql_contents d)(z_Name w \<mapsto> full_zone d' (update_values w row))"
    "mset (map strip_id (z_Records (full_zone d' (update_values w row)))) = mset (map strip_id (z_Records w))"
proof -
  let ?k = "NormalizeZoneName (z_Name z)"
  obtain row d1 where row: "select_zone d ?k = Some row" and p: "prepare_update e z row = Inr w"
      and v: "v = [] \<or> zr_version row = v"
      and d1: "d1 = d\<lparr>db_zones := map (\<lambda>r. if r = row then update_values w row else r) (db_zones d),
            db_records := filter (\<lambda>r. rr_zone_id r \<noteq> zr_id row) (db_records d)\<rparr>"
      and ins: "insertRecordsTx sha (zr_id row)
        (Some (map rr_id (filter (\<lambda>r. rr_zone_id r = zr_id row) (db_records d)))) (z_Records w) d1 = (None, d')"
    using assms(1,3) by (rule sql_UpdateZone_cases)
  let ?row = "update_values w row"
  let ?al = "Some (map rr_id (filter (\<lambda>r. rr_zone_id r = zr_id row) (db_records d)))"
  have rowk: "row \<in> set (db_zones d)" "zr_name row = ?k" using select_zone_Some [OF row] by auto
  have dn: "distinct (map zr_name (db_zones d))" "distinct (map zr_id (db_zones d))"
    using assms(1) by (auto simp: sql_inv_def)
  have "stored_ok (zr_name row, full_zone d row)" using assms(1) rowk(1) by (simp add: sql_inv_def)
  then have "zr_version row \<noteq> []" by (simp add: stored_ok_def)
  note w = prepare_update_ok [OF p assms(2) this]
  have "ids_ok d1" "\<forall>i. allows ?al i \<longrightarrow> i \<le> db_record_seq d1"
    using assms(1) by (auto simp: d1 ids_ok_def sql_inv_def allows_def distinct_map_filter)
  then obtain new where new: "db_records d' = filter (\<lambda>r. rr_zone_id r \<noteq> zr_id row) (db_records d) @ new"
      "list_all2 (row_of (zr_id row) ?al) (z_Records w) new"
      "db_zones d' = map (\<lambda>r. if r = row then ?row else r) (db_zones d)" "db_zone_seq d' = db_zone_seq d" "ids_ok d'"
    using insertRecordsTx_ok [OF ins] by (auto simp: d1)
  have names: "map zr_name (db_zones d') = map zr_name (db_zones d)" "map zr_id (db_zones d') = map zr_id (db_zones d)"
    by (simp_all add: new(3))
  have others: "row' = row \<longleftrightarrow> zr_name row' = ?k" "row' = row \<longleftrightarrow> zr_id row' = zr_id row"
    if "row' \<in> set (db_zones d)" for row'
    using that rowk dn unfolding distinct_map by (metis inj_on_eq_iff)+
  have put: "sql_inv d' \<and> sql_contents d' = (sql_contents d)(z_Name w \<mapsto> full_zone d' ?row)
      \<and> mset (map strip_id (z_Records (full_zone d' ?row))) = mset (map strip_id (z_Records w))"
  proof (rule put_zone [OF assms(1) w(2), where new = new and allowed = ?al])
    show "set (db_zones d') = insert ?row {r \<in> set (db_zones d). zr_name r \<noteq> z_Name w}"
      using others(1) rowk w(1) by (auto simp: new(3))
    show "\<forall>row \<in> set (db_zones d'). zr_id row \<le> db_zone_seq d'"
      using assms(1) rowk(1) by (auto simp: new(3,4) sql_inv_def)
    show "\<forall>r \<in> set (db_records d). rr_zone_id r \<noteq> zr_id ?row \<longrightarrow>
        (\<exists>row \<in> set (db_zones d). zr_id row = rr_zone_id r \<and> zr_name row \<noteq> z_Name w)"
      using assms(1) others w(1) by (fastforce simp: sql_inv_def)
    show "distinct (map zr_name (db_zones d'))" "distinct (map zr_id (db_zones d'))" using names dn by simp_all
  qed (use new(1,2,5) rowk w(1) in auto)
  have "filter (\<lambda>r. rr_zone_id r = zr_id row) (db_records d') = new"
    using rows_zone [OF new(2)] by (auto simp: new(1) filter_id_conv)
  then show ?thesis using that [OF row p v new(2)] put by blast
qed

lemma sql_UpdateZone_ok:
  assumes "sql_inv d" "env_ok e" "sql_UpdateZone sha e z v d = (Inr w, d')"
  shows "sql_inv d' \<and> (\<exists>old w'. sql_contents d (NormalizeZoneName (z_Name z)) = Some old
    \<and> (v = [] \<or> z_Version old = v) \<and> z_Name w = NormalizeZoneName (z_Name z)
    \<and> sql_contents d' = (sql_contents d)(NormalizeZoneName (z_Name z) \<mapsto> w') \<and> updated_from e old z w')"
proof -
  let ?k = "NormalizeZoneName (z_Name z)"
  obtain row where row: "select_zone d ?k = Some row" and p: "prepare_update e z row = Inr w"
      and v: "v = [] \<or> zr_version row = v" and d': "sql_inv d'"
      "sql_contents d' = (sql_contents d)(z_Name w \<mapsto> full_zone d' (update_values w row))"
      and m: "mset (map strip_id (z_Records (full_zone d' (update_values w row)))) = mset (map strip_id (z_Records w))"
    using assms by (rule sql_UpdateZone_put)
  have "row \<in> set (db_zones d)" using select_zone_Some [OF row] by simp
  then have "stored_ok (zr_name row, full_zone d row)" using assms(1) by (simp add: sql_inv_def)
  then have "zr_version row \<noteq> []" by (simp add: stored_ok_def)
  note w = prepare_update_ok [OF p assms(2) this]
  have "updated_from e (full_zone d row) z (full_zone d' (update_values w row))"
    using w(3,4,6) strip_rdata [OF m] by (simp add: updated_from_def del: full_zone_simps(4))
  then show ?thesis using d' w(1) v row by (auto simp: sql_contents_def)
qed

lemma sql_errors_keep_state:
  "sql_CreateZone sha e zp d = (Inl err, d') \<Longrightarrow> d' = d"
  "sql_UpdateZone sha e z v d = (Inl err, d') \<Longrightarrow> d' = d"
  by (auto simp: sql_CreateZone_def sql_UpdateZone_def split: sum.splits prod.splits)

lemma sql_UpdateZone_missing:
  "sql_contents d (NormalizeZoneName (z_Name z)) = None \<Longrightarrow> sql_UpdateZone sha e z v d = (Inl ErrZoneNotFound, d)"
  by (simp add: sql_UpdateZone_def tx_UpdateZone_def sql_contents_def)

lemma sql_UpdateZone_stale:
  assumes "sql_inv d" "sql_contents d (NormalizeZoneName (z_Name z)) = Some old" "v \<noteq> []" "z_Version old \<noteq> v"
  shows "\<exists>err. sql_UpdateZone sha e z v d = (Inl err, d)"
proof (cases "fst (sql_UpdateZone sha e z v d)")
  case (Inl err)
  then show ?thesis using sql_errors_keep_state(2) by (metis prod.collapse)
next
  case (Inr w)
  then have u: "sql_UpdateZone sha e z v d = (Inr w, snd (sql_UpdateZone sha e z v d))" by (simp add: prod_eq_iff)
  from assms(1) this obtain row where "select_zone d (NormalizeZoneName (z_Name z)) = Some row" "v = [] \<or> zr_version row = v"
    by (rule sql_UpdateZone_cases)
  then show ?thesis using assms(2-4) by (auto simp: sql_contents_def)
qed

lemma sql_delete_rows:
  assumes "sql_inv d" "select_zone d k = Some row"
  obtains d' where "delete_rows k d = (1, d')" "sql_inv d'" "sql_contents d' = (sql_contents d)(k := None)"
proof -
  have rowk: "row \<in> set (db_zones d)" "zr_name row = k" using select_zone_Some [OF assms(2)] by auto
  have dn: "distinct (map zr_name (db_zones d))" "distinct (map zr_id (db_zones d))"
    using assms(1) by (auto simp: sql_inv_def)
  have gone: "filter (\<lambda>r. zr_name r = k) (db_zones d) = [row]"
    using filter_key_singleton [OF dn(1) rowk(1)] rowk(2) by simp
  let ?d = "d\<lparr>db_zones := filter (\<lambda>r. zr_name r \<noteq> k) (db_zones d),
    db_records := filter (\<lambda>r. rr_zone_id r \<noteq> zr_id row) (db_records d)\<rparr>"
  have id: "zr_id r \<noteq> zr_id row" if "r \<in> set (db_zones d)" "zr_name r \<noteq> k" for r
    using that rowk dn(2) unfolding distinct_map by (metis inj_on_eq_iff)
  have same: "full_zone ?d r = full_zone d r" if "r \<in> set (db_zones d)" "zr_name r \<noteq> k" for r
    using id [OF that] by (intro full_zone_cong) (auto intro!: filter_cong)
  have "sql_inv ?d"
    unfolding sql_inv_def
  proof (intro conjI ballI)
    fix r assume "r \<in> set (db_zones ?d)"
    then have r: "r \<in> set (db_zones d)" "zr_name r \<noteq> k" by auto
    show "stored_ok (zr_name r, full_zone ?d r)" unfolding same [OF r] using r(1) assms(1) by (simp add: sql_inv_def)
  next
    fix r assume "r \<in> set (db_records ?d)"
    then obtain z where z: "z \<in> set (db_zones d)" "zr_id z = rr_zone_id r" "rr_zone_id r \<noteq> zr_id row"
      using assms(1) by (auto simp: sql_inv_def)
    then have "z \<noteq> row" by auto
    then have "zr_name z \<noteq> k" using z(1) rowk dn(1) unfolding distinct_map by (metis inj_on_eq_iff)
    then show "rr_zone_id r \<in> zr_id ` set (db_zones ?d)" using z by (intro image_eqI [of _ _ z]) auto
  qed (use assms(1) in \<open>auto simp: sql_inv_def distinct_map_filter\<close>)
  moreover have "sql_contents ?d n = ((sql_contents d)(k := None)) n" for n
  proof (cases "n = k")
    case True
    then show ?thesis by (auto simp: sql_contents_def select_zone_None)
  next
    case False
    have "select_zone ?d n = Some r \<longleftrightarrow> select_zone d n = Some r" for r
      using select_zone_eq [of ?d n r] select_zone_eq [OF dn(1), of n r] dn(1) False by (auto simp: distinct_map_filter)
    then have "select_zone ?d n = select_zone d n" by (metis not_None_eq)
    then show ?thesis using same False select_zone_Some [of d n] by (cases "select_zone d n") (auto simp: sql_contents_def)
  qed
  then have "sql_contents ?d = (sql_contents d)(k := None)" by (rule ext)
  moreover have "delete_rows k d = (1, ?d)" by (simp add: delete_rows_def gone)
  ultimately show ?thesis using that by blast
qed

lemma sql_DeleteZoneWithVersion_spec:
  assumes "sql_inv d" "sql_DeleteZoneWithVersion n v d = (r, d')"
  shows "case sql_contents d (NormalizeZoneName n) of
      None \<Rightarrow> r = Some ErrZoneNotFound \<and> d' = d
    | Some z \<Rightarrow>
        if v \<noteq> [] \<and> z_Version z \<noteq> v then r = Some ErrConflict \<and> d' = d
        else r = None \<and> sql_inv d' \<and> sql_contents d' = (sql_contents d)(NormalizeZoneName n := None)"
proof (cases "select_zone d (NormalizeZoneName n)")
  case (Some row)
  then obtain d1 where "delete_rows (NormalizeZoneName n) d = (1, d1)" "sql_inv d1"
      "sql_contents d1 = (sql_contents d)(NormalizeZoneName n := None)"
    using assms(1) by (blast elim: sql_delete_rows)
  then show ?thesis using Some assms(2)
    by (auto simp: sql_DeleteZoneWithVersion_def deleteSQLiteZoneWithVersionTx_def sql_contents_def split: if_splits)
qed (use assms(2) in \<open>auto simp: sql_DeleteZoneWithVersion_def deleteSQLiteZoneWithVersionTx_def sql_contents_def\<close>)

lemma sql_stored:
  assumes "sql_inv d" "sql_contents d k = Some z"
  shows "stored_ok (k, z)"
proof -
  obtain row where row: "select_zone d k = Some row" "z = full_zone d row" using assms(2) by (auto simp: sql_contents_def)
  then have "row \<in> set (db_zones d)" "zr_name row = k" using select_zone_Some by auto
  then show ?thesis using assms(1) row(2) by (auto simp: sql_inv_def)
qed

interpretation sql: zone_store sql_GetZone "sql_CreateZone sha" "sql_UpdateZone sha" sql_DeleteZoneWithVersion
  sql_contents sql_inv for sha
proof (unfold_locales, goal_cases)
  case 1
  then show ?case using sql_GetZone_spec by (simp add: sql_inv_def)
next
  case (2 s k z)
  then show ?case using sql_stored [of s k z] by (simp add: stored_ok_def)
next
  case 3
  then show ?case using sql_CreateZone_ok by blast
next
  case 5
  then show ?case using sql_UpdateZone_ok by blast
next
  case 8
  then show ?case using sql_UpdateZone_stale by blast
next
  case 9
  then show ?case using sql_DeleteZoneWithVersion_spec by blast
qed (auto dest: sql_errors_keep_state sql_UpdateZone_missing)

subsection \<open>The batched listing is the listing\<close>

lemma sort_key_const: "sort_key (\<lambda>x. (c, f x)) xs = sort_key f xs"
proof -
  have "insort_key (\<lambda>x. (c, f x)) x ys = insort_key f x ys" for x ys by (induction ys) auto
  then show ?thesis by (induction xs) auto
qed

lemma batch_rows_zone:
  assumes "distinct (map zr_name (db_zones d))" "row \<in> set (db_zones d)" "zr_name row \<in> set names"
  shows "map snd (filter (\<lambda>nr. fst nr = zr_name row) (batch_rows d names)) = map scan_record (zone_rows d row)"
proof -
  have "filter (\<lambda>(z, r). zr_name z = zr_name row) (filter (\<lambda>(z, _). zr_name z \<in> set names) (joined d)) =
      filter (\<lambda>(z, _). zr_name z = zr_name row) (joined d)"
    using assms(3) by (auto simp: intro!: filter_cong)
  then show ?thesis
    by (simp add: batch_rows_def filter_map comp_def case_prod_unfold filter_sort joined_zone [OF assms(1,2), unfolded case_prod_unfold]
        sort_key_map sort_key_const zone_rows_def)
qed

lemma batch_rows_other:
  "n \<notin> set names \<Longrightarrow> filter (\<lambda>nr. fst nr = n) (batch_rows d names) = []"
  by (auto simp: batch_rows_def filter_empty_conv)

definition recs_at :: "(string \<rightharpoonup> Record list) \<Rightarrow> string \<Rightarrow> Record list" where
  "recs_at m n = (case m n of None \<Rightarrow> [] | Some rs \<Rightarrow> rs)"

lemma fold_append_record:
  "recs_at (fold append_record rows m) n = recs_at m n @ map snd (filter (\<lambda>nr. fst nr = n) rows)"
  by (induction rows arbitrary: m) (auto simp: append_record_def recs_at_def)

lemma load_batches_spec:
  assumes "distinct (map zr_name (db_zones d))" "distinct names" "row \<in> set (db_zones d)"
  shows "recs_at (load_batches d names start m) (zr_name row) =
    recs_at m (zr_name row) @ (if zr_name row \<in> set (drop start names) then map scan_record (zone_rows d row) else [])"
proof (induction "length names - start" arbitrary: start m rule: less_induct)
  case less
  show ?case
  proof (cases "start < length names")
    case True
    define e where "e = sqlBatchEnd start (length names)"
    define b where "b = take (e - start) (drop start names)"
    have e: "start < e" "e \<le> length names"
      using True by (auto simp: e_def sqlBatchEnd_def sqlBatchLoadZoneLimit_def Let_def)
    have "drop e names = drop (e - start) (drop start names)" using e by simp
    then have d: "drop start names = b @ drop e names" by (simp add: b_def del: drop_drop)
    have dis: "set b \<inter> set (drop e names) = {}"
      using distinct_drop [OF assms(2), of start] unfolding d by simp
    have "recs_at (load_batches d names start m) (zr_name row) =
        recs_at (fold append_record (batch_rows d b) m) (zr_name row)
        @ (if zr_name row \<in> set (drop e names) then map scan_record (zone_rows d row) else [])"
      using less [of e] e True by (subst load_batches.simps) (simp add: e_def b_def Let_def)
    also have "recs_at (fold append_record (batch_rows d b) m) (zr_name row) =
        recs_at m (zr_name row) @ (if zr_name row \<in> set b then map scan_record (zone_rows d row) else [])"
      using batch_rows_zone [OF assms(1,3), of b] batch_rows_other [of "zr_name row" b d]
      by (simp add: fold_append_record)
    finally show ?thesis using dis by (auto simp: d simp del: drop_drop)
  qed (simp add: load_batches.simps)
qed

lemma limit_offset_set: "set (limit_offset opts xs) \<subseteq> set xs"
  by (auto simp: limit_offset_def Let_def dest: in_set_takeD in_set_dropD)

lemma limit_offset_distinct: "distinct (map f xs) \<Longrightarrow> distinct (map f (limit_offset opts xs))"
  by (auto simp: limit_offset_def Let_def take_map [symmetric] drop_map [symmetric])

lemma sql_ListZones_spec:
  assumes "sql_inv d"
  shows "sql_ListZones d opts = map (full_zone d) (limit_offset opts (sort_key zr_name (db_zones d)))"
proof -
  let ?rows = "limit_offset opts (sort_key zr_name (db_zones d))"
  have dn: "distinct (map zr_name (db_zones d))" using assms by (simp add: sql_inv_def)
  then have ds: "distinct (map zr_name ?rows)" by (intro limit_offset_distinct) (simp add: distinct_map)
  let ?m = "load_batches d (map z_Name (map scanZoneRow ?rows)) 0 Map.empty"
  have "(case ?m (zr_name row) of Some rs \<Rightarrow> rs | None \<Rightarrow> []) = map scan_record (zone_rows d row)"
    if "row \<in> set ?rows" for row
  proof -
    have "row \<in> set (db_zones d)" using that limit_offset_set [of opts "sort_key zr_name (db_zones d)"] by auto
    from load_batches_spec [OF dn _ this, of "map zr_name ?rows" 0 Map.empty] ds that
    show ?thesis by (simp add: recs_at_def comp_def split: option.splits)
  qed
  then show ?thesis
    by (auto simp: sql_ListZones_def loadRecordsForZonesDB_def assignZoneRecords_def full_zone_def)
qed

subsection \<open>Identifiers of records\<close>

lemma parse_format_id:
  assumes "0 < i" "int i \<le> MaxInt64"
  shows "parseSQLRecordID (formatSQLRecordID i) = Some i"
proof -
  have "i < 2 ^ 63" using assms(2) by (simp add: MaxInt64_def)
  then show ?thesis using assms(1) no_space_TrimSpace [OF dec_string_no_space, of i] dec_string_nonempty [of i]
    by (simp add: parseSQLRecordID_def formatSQLRecordID_def)
qed

lemma list_all2_member:
  "list_all2 P xs ys \<Longrightarrow> x \<in> set xs \<Longrightarrow> \<exists>y \<in> set ys. P x y"
  by (induction rule: list_all2_induct) auto

lemma same_content_member:
  assumes "rdata rs = rdata rs'" "map r_ID rs = map r_ID rs'" "r \<in> set rs"
  shows "\<exists>r' \<in> set rs'. r_ID r' = r_ID r \<and> rdatum r' = rdatum r"
proof -
  have "list_all2 (\<lambda>r r'. r_ID r' = r_ID r \<and> rdatum r' = rdatum r) rs rs'"
    using assms(1,2) map_eq_imp_length_eq [OF assms(2)]
    by (auto simp: rdata_map list_all2_conv_all_nth) (metis nth_map)+
  from list_all2_member [OF this assms(3)] show ?thesis .
qed

lemma update_keeps_ids:
  assumes "sql_inv d" "env_ok e" "sql_UpdateZone sha e z v d = (Inr w, d')"
    and old: "sql_contents d (NormalizeZoneName (z_Name z)) = Some old"
    and r: "r \<in> set (z_Records z)" "r_ID r \<in> r_ID ` set (z_Records old)"
  shows "\<exists>new. sql_contents d' (NormalizeZoneName (z_Name z)) = Some new
    \<and> (\<exists>r' \<in> set (z_Records new). r_ID r' = r_ID r \<and> rdatum r' = rdatum r)"
proof -
  let ?k = "NormalizeZoneName (z_Name z)"
  obtain row new where row: "select_zone d ?k = Some row" and p: "prepare_update e z row = Inr w"
      and l: "list_all2 (row_of (zr_id row) (Some (map rr_id (filter (\<lambda>r. rr_zone_id r = zr_id row) (db_records d)))))
        (z_Records w) new"
      and f: "filter (\<lambda>r. rr_zone_id r = zr_id row) (db_records d') = new"
      and d': "sql_contents d' = (sql_contents d)(z_Name w \<mapsto> full_zone d' (update_values w row))"
    using assms(1-3) by (rule sql_UpdateZone_put)
  have "stored_ok (?k, full_zone d row)" using sql_stored [OF assms(1)] row by (simp add: sql_contents_def)
  then have "zr_version row \<noteq> []" by (simp add: stored_ok_def)
  note w = prepare_update_ok [OF p assms(2) this]
  obtain r2 where r2: "r2 \<in> set (z_Records w)" "r_ID r2 = r_ID r" "rdatum r2 = rdatum r"
    using same_content_member [OF w(4) [symmetric] w(5) [symmetric] r(1)] by blast
  obtain q where q: "q \<in> set (db_records d)" "rr_zone_id q = zr_id row" "r_ID r = formatSQLRecordID (rr_id q)"
    using r(2) old row by (auto simp: sql_contents_def zone_rows_def scan_record_def)
  have "parseSQLRecordID (r_ID r2) = Some (rr_id q)"
    using parse_format_id [of "rr_id q"] q(1,3) r2(2) assms(1) by (force simp: sql_inv_def)
  moreover have "rr_id q \<in> set (map rr_id (filter (\<lambda>r. rr_zone_id r = zr_id row) (db_records d)))" using q by simp
  moreover obtain n where "n \<in> set new" "row_of (zr_id row)
      (Some (map rr_id (filter (\<lambda>r. rr_zone_id r = zr_id row) (db_records d)))) r2 n"
    using list_all2_member [OF l r2(1)] by blast
  ultimately have n: "n \<in> set new" "rr_id n = rr_id q" "scan_record n = r2\<lparr>r_ID := r_ID r\<rparr>"
    using q(3) by (auto simp: row_of_def allows_def)
  then have "n \<in> set (zone_rows d' (update_values w row))" using f by (auto simp: zone_rows_def)
  then have "scan_record n \<in> set (z_Records (full_zone d' (update_values w row)))" by simp
  moreover have "r_ID (scan_record n) = r_ID r" "rdatum (scan_record n) = rdatum r"
    using n(3) r2(3) by (simp_all add: rdatum_def)
  ultimately show ?thesis using d' w(1) by (intro exI [of _ "full_zone d' (update_values w row)"]) auto
qed

subsection \<open>DNSSEC columns\<close>

text \<open>What is read back of a DNSSEC configuration: nothing unless it is enabled, and no zero expiration.\<close>

definition dnssec_read_back :: "DNSSECConfig option \<Rightarrow> DNSSECConfig option" where
  "dnssec_read_back c = (case c of None \<Rightarrow> None
     | Some x \<Rightarrow> if d_Enabled x then Some (x\<lparr>d_SignatureExpiration :=
         (if d_SignatureExpiration x = Some zeroTime then None else d_SignatureExpiration x)\<rparr>) else None)"

lemma scan_dnssec_columns:
  "scanZoneRow (set_dnssec_columns c r) = (scanZoneRow r)\<lparr>z_DNSSEC := dnssec_read_back c\<rparr>"
  by (auto simp: scanZoneRow_def set_dnssec_columns_def dnssec_read_back_def null_int_def null_string_def
      split: option.splits)

lemma scan_updated_at: "scanZoneRow (r\<lparr>zr_updated_at := t\<rparr>) = (scanZoneRow r)\<lparr>z_UpdatedAt := t\<rparr>"
  by (simp add: scanZoneRow_def)

lemma sql_UpdateDNSSECMetadata_ok:
  assumes "sql_inv d" "sql_contents d (NormalizeZoneName n) = Some old"
  shows "\<exists>d'. sql_UpdateDNSSECMetadata e n c d = (None, d') \<and> sql_inv d'
    \<and> sql_contents d' = (sql_contents d)(NormalizeZoneName n \<mapsto> old\<lparr>z_DNSSEC := dnssec_read_back c, z_UpdatedAt := e_now e\<rparr>)"
proof -
  let ?k = "NormalizeZoneName n"
  define f where "f = (\<lambda>r. if zr_name r = ?k then (set_dnssec_columns c r)\<lparr>zr_updated_at := e_now e\<rparr> else r)"
  let ?d = "d\<lparr>db_zones := map f (db_zones d)\<rparr>"
  obtain row where row: "select_zone d ?k = Some row" "old = full_zone d row" using assms(2) by (auto simp: sql_contents_def)
  have dn: "distinct (map zr_name (db_zones d))" using assms(1) by (simp add: sql_inv_def)
  have [simp]: "zr_name (f r) = zr_name r" "zr_id (f r) = zr_id r" "zr_version (f r) = zr_version r" "zr_soa (f r) = zr_soa r" for r
    by (simp_all add: f_def)
  have full: "full_zone ?d (f r) = (if zr_name r = ?k
      then (full_zone d r)\<lparr>z_DNSSEC := dnssec_read_back c, z_UpdatedAt := e_now e\<rparr> else full_zone d r)" for r
  proof -
    have "scanZoneRow ((set_dnssec_columns c r)\<lparr>zr_updated_at := e_now e\<rparr>) =
        (scanZoneRow r)\<lparr>z_DNSSEC := dnssec_read_back c, z_UpdatedAt := e_now e\<rparr>"
      by (simp add: scan_updated_at scan_dnssec_columns)
    then show ?thesis by (simp add: full_zone_def zone_rows_def f_def)
  qed
  have "stored_ok (zr_name r, full_zone ?d (f r)) \<longleftrightarrow> stored_ok (zr_name r, full_zone d r)" for r
    using ValidateZone_cong [of "(full_zone d r)\<lparr>z_DNSSEC := dnssec_read_back c, z_UpdatedAt := e_now e\<rparr>" "full_zone d r"]
    by (simp add: full stored_ok_def)
  then have inv: "sql_inv ?d" using assms(1) by (simp add: sql_inv_def comp_def image_image)
  have "find (\<lambda>r. zr_name r = m) (map f rs) = map_option f (find (\<lambda>r. zr_name r = m) rs)" for m rs
    by (induction rs) auto
  then have "select_zone ?d m = map_option f (select_zone d m)" for m by (simp add: select_zone_def)
  then have "sql_contents ?d m = ((sql_contents d)(?k \<mapsto> old\<lparr>z_DNSSEC := dnssec_read_back c, z_UpdatedAt := e_now e\<rparr>)) m" for m
    using full row select_zone_Some [of d m] by (cases "select_zone d m") (auto simp: sql_contents_def)
  then have "sql_contents ?d = (sql_contents d)(?k \<mapsto> old\<lparr>z_DNSSEC := dnssec_read_back c, z_UpdatedAt := e_now e\<rparr>)" by (rule ext)
  moreover have "sql_UpdateDNSSECMetadata e n c d = (None, ?d)"
    using select_zone_Some [OF row(1)] by (auto simp: sql_UpdateDNSSECMetadata_def list_ex_iff f_def Let_def)
  ultimately show ?thesis using inv by blast
qed

subsection \<open>Properties\<close>

abbreviation sql_run :: "(string \<Rightarrow> string) \<Rightarrow> store_op list \<Rightarrow> db \<Rightarrow> db" where
  "sql_run sha \<equiv> fold (run_op (sql_CreateZone sha) (sql_UpdateZone sha) sql_DeleteZoneWithVersion)"

text \<open>The database with the example zone, and a zone that updates it.\<close>

definition example_db :: db where
  "example_db = \<lparr>db_zones = [zone_values 1 (example_zone\<lparr>z_CreatedAt := 7, z_UpdatedAt := 7\<rparr>)],
     db_records = [record_values id 1 1 (z_Records example_zone ! 0), record_values id 2 1 (z_Records example_zone ! 1)],
     db_zone_seq = 1, db_record_seq = 2\<rparr>"

definition example_change :: Zone where
  "example_change = example_zone\<lparr>z_Records :=
     [example_record ''@'' ''NS'' ''ns'', (example_record ''ns'' ''A'' ''9.9.9.9'')\<lparr>r_ID := ''2''\<rparr>]\<rparr>"

lemma InitSchema_inv: "sql_inv InitSchema"
  by (simp add: sql_inv_def InitSchema_def MaxInt64_def)

lemma example_db_run: "sql_run id [OpCreate (example_env ''v1'') (Some example_zone)] InitSchema = example_db"
  by code_simp

lemma example_db_inv: "sql_inv example_db"
  using sql.run_inv [OF InitSchema_inv, of "[OpCreate (example_env ''v1'') (Some example_zone)]" id]
  by (simp add: example_env_ok example_db_run [symmetric])



text \<open>
  Listing zones, which loads records in batches of at most 500 zones, gives for each zone of
  the page exactly what \<open>GetZone\<close> gives.
\<close>

theorem sql_list_is_get:
  assumes "sql_inv d"
  shows "map Inr (sql_ListZones d opts) = map (\<lambda>s. sql_GetZone d (zs_Name s)) (sql_ListZoneSummaries d opts)"
proof -
  have dn: "distinct (map zr_name (db_zones d))" using assms by (simp add: sql_inv_def)
  have "sql_GetZone d (zr_name row) = Inr (full_zone d row)" if "row \<in> set (db_zones d)" for row
  proof -
    have "NormalizeZoneName (zr_name row) = zr_name row" using assms that by (auto simp: sql_inv_def stored_ok_def)
    moreover have "select_zone d (zr_name row) = Some row" using select_zone_eq [OF dn] that by simp
    ultimately show ?thesis by (simp add: sql_GetZone_spec [OF dn] sql_contents_def)
  qed
  then show ?thesis
    using limit_offset_set [of opts "sort_key zr_name (db_zones d)"]
    by (auto simp: sql_ListZones_spec [OF assms] sql_ListZoneSummaries_def)
qed

theorem sql_list_is_get_witness:
  "\<exists>z. map Inr (sql_ListZones example_db \<lparr>lo_Limit = 1, lo_Offset = 0, lo_Filter = []\<rparr>) = [sql_GetZone example_db ''ex.'']
    \<and> sql_GetZone example_db ''ex.'' = Inr z"
proof -
  have "map zs_Name (sql_ListZoneSummaries example_db \<lparr>lo_Limit = 1, lo_Offset = 0, lo_Filter = []\<rparr>) = [''ex.'']"
    "\<not> isl (sql_GetZone example_db ''ex.'')" by code_simp+
  with sql_list_is_get [OF example_db_inv, of "\<lparr>lo_Limit = 1, lo_Offset = 0, lo_Filter = []\<rparr>"]
  show ?thesis by (auto simp: isl_def map_eq_Cons_conv) (metis sum.exhaust)
qed

text \<open>
  A record that keeps its identifier over an update of the zone is found under the same
  identifier afterwards, with the content that the update gave it.
\<close>

theorem sql_ids_stable:
  assumes "sql_inv d" "env_ok e" "sql_UpdateZone sha e z v d = (Inr w, d')"
    and "sql_GetZone d (z_Name z) = Inr old" "r \<in> set (z_Records z)" "r_ID r \<in> r_ID ` set (z_Records old)"
  shows "\<exists>new. sql_GetZone d' (z_Name z) = Inr new
    \<and> (\<exists>r' \<in> set (z_Records new). r_ID r' = r_ID r \<and> rdatum r' = rdatum r)"
proof -
  have "sql_contents d (NormalizeZoneName (z_Name z)) = Some old" using assms(1,4) by (simp add: sql.get_Inr_iff)
  from update_keeps_ids [OF assms(1-3) this assms(5,6)] show ?thesis
    using sql_UpdateZone_ok [OF assms(1-3)] by (auto simp: sql.get_Inr_iff)
qed

theorem sql_ids_stable_witness:
  "\<exists>new. sql_GetZone (snd (sql_UpdateZone id (example_env ''v2'') example_change ''v1'' example_db)) ''ex.'' = Inr new
    \<and> (\<exists>r' \<in> set (z_Records new). r_ID r' = ''2'' \<and> r_Value r' = ''9.9.9.9'')"
proof -
  let ?u = "sql_UpdateZone id (example_env ''v2'') example_change ''v1'' example_db"
  let ?r = "(example_record ''ns'' ''A'' ''9.9.9.9'')\<lparr>r_ID := ''2''\<rparr>"
  have ok: "\<not> isl (fst ?u)" by code_simp
  then obtain w where w: "?u = (Inr w, snd ?u)" by (metis isl_def prod.collapse sum.exhaust_sel)
  have n: "z_Name example_change = ''ex.''" and r: "?r \<in> set (z_Records example_change)"
    by (simp_all add: example_change_def example_zone_def)
  have g: "\<not> isl (sql_GetZone example_db ''ex.'')"
    "list_ex (\<lambda>r. r_ID r = ''2'') (z_Records (projr (sql_GetZone example_db ''ex.'')))" by code_simp+
  then obtain old where old: "sql_GetZone example_db ''ex.'' = Inr old" by (metis isl_def sum.exhaust_sel)
  have "r_ID ?r \<in> r_ID ` set (z_Records old)" using g(2) old by (auto simp: list_ex_iff image_iff) metis
  from sql_ids_stable [OF example_db_inv example_env_ok w, of old ?r] this old r n
  show ?thesis by (auto simp: rdatum_def example_record_def)
qed

text \<open>
  Updating the DNSSEC metadata of a stored zone changes nothing else but its time stamp; an
  enabled configuration is read back as it was written, a disabled one as none.
\<close>

theorem sql_dnssec_metadata:
  assumes "sql_inv d" "sql_GetZone d n = Inr old"
  shows "\<exists>d'. sql_UpdateDNSSECMetadata e n c d = (None, d') \<and> sql_inv d'
    \<and> sql_GetZone d' n = Inr (old\<lparr>z_DNSSEC := dnssec_read_back c, z_UpdatedAt := e_now e\<rparr>)
    \<and> (\<forall>m. NormalizeZoneName m \<noteq> NormalizeZoneName n \<longrightarrow> sql_GetZone d' m = sql_GetZone d m)"
proof -
  have "sql_contents d (NormalizeZoneName n) = Some old" using assms by (simp add: sql.get_Inr_iff)
  from sql_UpdateDNSSECMetadata_ok [OF assms(1) this, of e c] obtain d' where
      "sql_UpdateDNSSECMetadata e n c d = (None, d')" "sql_inv d'"
      "sql_contents d' = (sql_contents d)(NormalizeZoneName n \<mapsto> old\<lparr>z_DNSSEC := dnssec_read_back c, z_UpdatedAt := e_now e\<rparr>)"
    by blast
  then show ?thesis using assms(1) by (intro exI [of _ d']) (simp add: sql.get_law)
qed

theorem sql_dnssec_metadata_witness:
  "\<exists>d'. sql_UpdateDNSSECMetadata (example_env ''v2'') ''EX'' None example_db = (None, d') \<and> sql_inv d'"
proof -
  have "\<not> isl (sql_GetZone example_db ''EX'')" by code_simp
  then obtain old where "sql_GetZone example_db ''EX'' = Inr old" by (metis isl_def sum.exhaust_sel)
  from sql_dnssec_metadata [OF example_db_inv this] show ?thesis by blast
qed

end
