(* ===== verification/Zone_Path.thy ===== *)
theory Zone_Path
  imports Name_Facts Go_Conv
begin

section \<open>Zone file names (pkg/util/zonepath.go, agent/sync/zonepath.go)\<close>

text \<open>
  The map from zone names to file names, used for zone files, signed artifacts and backups. It
  must never leave the zone directory and should give different zones different files. The hash
  (SHA-256 in hexadecimal) is a parameter of the model. The lemmas show that every result is a
  safe file name; that valid zone names of at most 200 bytes get the file that bears their name, so
  no two of them share one; and that a longer name can be made to share its file with a shorter
  one.
\<close>

subsection \<open>Definitions\<close>

definition maxSafeZoneFilenameLength :: nat where "maxSafeZoneFilenameLength = 200"
definition safeZoneFilenameHashChars :: nat where "safeZoneFilenameHashChars = 12"

text \<open>\<open>strings.TrimRight(s, ".")\<close>\<close>

definition TrimRight_dots :: "string \<Rightarrow> string" where
  "TrimRight_dots s = rev (dropWhile (\<lambda>c. c = CHR ''.'') (rev s))"

definition filename_char :: "char \<Rightarrow> bool" where
  "filename_char c \<longleftrightarrow> is_lower c \<or> is_digit c \<or> c = CHR ''.'' \<or> c = CHR ''_'' \<or> c = CHR ''-''"

text \<open>\<open>ReplaceAllString\<close> for \<open>[^a-z0-9._-]\<close>: each other rune, of any width, becomes one underscore.\<close>

function replace_invalid :: "string \<Rightarrow> string" where
  "replace_invalid s =
     (if s = [] then []
      else (if filename_char (hd s) then hd s else CHR ''_'')
           # replace_invalid (drop (snd (decode_rune s)) s))"
  by pat_completeness auto
termination
  by (relation "measure length") (use decode_rune_width_pos in auto)

declare replace_invalid.simps [simp del]

text \<open>\<open>strings.ReplaceAll(s, "..", "_")\<close>\<close>

fun replace_dotdot :: "string \<Rightarrow> string" where
  "replace_dotdot (a # b # s) =
     (if a = CHR ''.'' \<and> b = CHR ''.'' then CHR ''_'' # replace_dotdot s
      else a # replace_dotdot (b # s))"
| "replace_dotdot s = s"

definition safeZoneFilenameHash :: "(string \<Rightarrow> string) \<Rightarrow> string \<Rightarrow> string" where
  "safeZoneFilenameHash sha256hex name = take safeZoneFilenameHashChars (sha256hex name)"

definition SafeZoneFilename :: "(string \<Rightarrow> string) \<Rightarrow> string \<Rightarrow> string" where
  "SafeZoneFilename sha256hex zoneName =
     (let n = replace_dotdot (replace_invalid (ToLower (TrimRight_dots zoneName)));
          m = (if maxSafeZoneFilenameLength < length n
               then let suffix = ''-'' @ safeZoneFilenameHash sha256hex n
                    in take (maxSafeZoneFilenameLength - length suffix) n @ suffix
               else n)
      in if m = [] then ''unnamed'' else m)"

text \<open>The name of the zone file below the zone directory, and the prefix of its backups.\<close>

definition ZoneFileName :: "(string \<Rightarrow> string) \<Rightarrow> string \<Rightarrow> string" where
  "ZoneFileName sha256hex zoneName = SafeZoneFilename sha256hex zoneName @ ''.zone''"

definition ZoneBackupPrefix :: "(string \<Rightarrow> string) \<Rightarrow> string \<Rightarrow> string" where
  "ZoneBackupPrefix sha256hex zoneName = SafeZoneFilename sha256hex zoneName @ ''.zone.backup.''"

text \<open>What the hash promises: 64 lower-case hexadecimal digits.\<close>

definition hex_digest :: "(string \<Rightarrow> string) \<Rightarrow> bool" where
  "hex_digest h \<longleftrightarrow> (\<forall>s. length (h s) = 64 \<and> (\<forall>c \<in> set (h s). is_digit c \<or> CHR ''a'' = c \<or> c \<in> set ''bcdef''))"

subsection \<open>Every result is a safe file name\<close>

definition safe_filename :: "string \<Rightarrow> bool" where
  "safe_filename f \<longleftrightarrow> f \<noteq> [] \<and> length f \<le> 200 \<and> list_all filename_char f \<and> \<not> Contains f ''..''"

lemma filename_char_chars [simp]:
  "filename_char CHR ''_''" "filename_char CHR ''-''" "filename_char CHR ''.''"
  by (simp_all add: filename_char_def)

lemma replace_invalid_chars: "list_all filename_char (replace_invalid s)"
  by (induction s rule: replace_invalid.induct) (subst replace_invalid.simps, auto)

lemma replace_dotdot_chars: "list_all filename_char s \<Longrightarrow> list_all filename_char (replace_dotdot s)"
  by (induction s rule: replace_dotdot.induct) auto

lemma replace_dotdot_hd: "replace_dotdot s \<noteq> [] \<Longrightarrow> hd (replace_dotdot s) = CHR ''.'' \<Longrightarrow> hd s = CHR ''.''"
  by (cases s rule: replace_dotdot.cases) (auto split: if_splits)

lemma replace_dotdot_none: "\<not> Contains (replace_dotdot s) ''..''"
proof (induction s rule: replace_dotdot.induct)
  case (1 a b s)
  then show ?case using replace_dotdot_hd [of "b # s"]
    by (cases "replace_dotdot (b # s)") (auto simp: HasPrefix_def split: if_splits)
qed (auto simp: HasPrefix_def)

lemma Contains_take: "Contains (take n s) p \<Longrightarrow> Contains s p"
  by (metis Contains_iff append.assoc append_take_drop_id)

lemma Contains_dotdot_append:
  assumes "\<not> Contains a ''..''" "CHR ''.'' \<notin> set b"
  shows "\<not> Contains (a @ b) ''..''"
  using assms(1)
proof (induction a)
  case Nil
  have "Contains b ''..'' \<Longrightarrow> CHR ''.'' \<in> set b" by (auto simp: Contains_iff)
  then show ?case using assms(2) by auto
next
  case (Cons c a)
  have "HasPrefix (c # a @ b) ''..'' \<Longrightarrow> HasPrefix (c # a) ''..''"
    using assms(2) by (cases a; cases b) (auto simp: HasPrefix_def)
  then show ?case using Cons by auto
qed

lemma hash_suffix:
  assumes "hex_digest h"
  shows "length (safeZoneFilenameHash h n) = 12" "list_all filename_char (safeZoneFilenameHash h n)"
    "list_all is_alnum (safeZoneFilenameHash h n)" "CHR ''.'' \<notin> set (safeZoneFilenameHash h n)"
proof -
  have c: "is_digit c \<or> CHR ''a'' = c \<or> c \<in> set ''bcdef''" if "c \<in> set (safeZoneFilenameHash h n)" for c
    using assms that by (auto simp: hex_digest_def safeZoneFilenameHash_def dest!: in_set_takeD)
  show "length (safeZoneFilenameHash h n) = 12"
    using assms by (simp add: hex_digest_def safeZoneFilenameHash_def safeZoneFilenameHashChars_def)
  show "list_all filename_char (safeZoneFilenameHash h n)"
    unfolding list_all_iff using c by (fastforce simp: filename_char_def is_lower_def byte_def)
  show "list_all is_alnum (safeZoneFilenameHash h n)"
    unfolding list_all_iff using c by (fastforce simp: is_alnum_def is_lower_def byte_def)
  show "CHR ''.'' \<notin> set (safeZoneFilenameHash h n)" using c by (fastforce simp: is_digit_def byte_def)
qed

lemma SafeZoneFilename_is_safe:
  assumes "hex_digest h"
  shows "safe_filename (SafeZoneFilename h z)"
proof -
  let ?n = "replace_dotdot (replace_invalid (ToLower (TrimRight_dots z)))"
  have n: "list_all filename_char ?n" "\<not> Contains ?n ''..''"
    by (simp_all add: replace_dotdot_chars replace_invalid_chars replace_dotdot_none)
  have long: "safe_filename (take 187 ?n @ ''-'' @ safeZoneFilenameHash h ?n)" if "200 < length ?n"
    using n hash_suffix [OF assms, of ?n] that Contains_take [of 187 ?n "''..''"]
      Contains_dotdot_append [of "take 187 ?n" "''-'' @ safeZoneFilenameHash h ?n"]
    by (auto simp: safe_filename_def list_all_iff dest: in_set_takeD)
  have "safe_filename ''unnamed''"
    by (simp add: safe_filename_def filename_char_def is_lower_def byte_def HasPrefix_def)
  then show ?thesis using n long hash_suffix(1) [OF assms, of ?n]
    by (auto simp: SafeZoneFilename_def Let_def maxSafeZoneFilenameLength_def safe_filename_def)
qed

subsection \<open>Valid zone names\<close>

text \<open>The characters of a valid name in lower case, and the absence of empty labels.\<close>

lemma replace_invalid_id: "list_all filename_char s \<Longrightarrow> replace_invalid s = s"
proof (induction s)
  case (Cons c s)
  have "snd (decode_rune (c # s)) = 1"
    using Cons.prems by (auto simp: filename_char_def is_lower_def is_digit_def byte_def)
  then show ?case using Cons by (simp add: replace_invalid.simps [of "c # s"])
qed (simp add: replace_invalid.simps)

lemma replace_dotdot_id: "\<not> Contains s ''..'' \<Longrightarrow> replace_dotdot s = s"
  by (induction s rule: replace_dotdot.induct) (auto simp: HasPrefix_def)

lemma TrimRight_dots_id: "s \<noteq> [] \<Longrightarrow> last s \<noteq> CHR ''.'' \<Longrightarrow> TrimRight_dots s = s"
  by (cases s rule: rev_cases) (auto simp: TrimRight_dots_def)

lemma TrimRight_dots_snoc: "TrimRight_dots (s @ ''.'') = TrimRight_dots s"
  by (simp add: TrimRight_dots_def)

lemma labels_no_dotdot:
  assumes "list_all dns_label (split_on CHR ''.'' s)"
  shows "\<not> Contains s ''..''"
proof
  assume "Contains s ''..''"
  then obtain a b where s: "s = a @ CHR ''.'' # CHR ''.'' # b" by (auto simp: Contains_iff)
  have "[] \<in> set (tl (split_on CHR ''.'' (a @ CHR ''.'' # CHR ''.'' # b)))"
    by (induction a) (auto split: list.splits dest: list.set_sel(2) [rotated])
  then have "[] \<in> set (split_on CHR ''.'' s)" by (simp add: s list.set_sel(2))
  with assms show False by (auto simp: list_all_iff dns_label_def)
qed

lemma labels_filename_chars:
  assumes "list_all dns_label (split_on CHR ''.'' s)"
  shows "list_all filename_char (ToLower s)"
proof -
  have "filename_char (lower_char c)" if "c \<in> set s" for c
  proof (cases "c = CHR ''.''")
    case False
    with that obtain p where "p \<in> set (split_on CHR ''.'' s)" "c \<in> set p"
      using set_split_on [of "CHR ''.''" s] by blast
    then have "is_alnum c \<or> c = CHR ''-''"
      using assms by (auto simp: list_all_iff dns_label_def alnum_hyphen_def)
    then show ?thesis
      by (auto simp: filename_char_def is_alnum_def is_lower_def is_upper_def is_digit_def byte_lower_char)
         (simp_all add: lower_char_def is_upper_def byte_def)
  qed simp
  then show ?thesis by (auto simp: list_all_iff ToLower_def)
qed

lemma filename_core:
  assumes "domain_ok z"
  shows "replace_dotdot (replace_invalid (ToLower (TrimRight_dots z))) = ToLower (TrimSuffix z ''.'')"
proof -
  let ?t = "TrimSuffix z ''.''"
  have labels: "list_all dns_label (split_on CHR ''.'' ?t)" using assms by (simp add: domain_ok_def)
  have t: "?t \<noteq> []" using labels by (auto simp: dns_label_def)
  have "last ?t \<noteq> CHR ''.''" using split_last_nonempty [OF labels] t by (simp add: HasSuffix_single)
  moreover have "z = ?t \<or> z = ?t @ ''.''"
    by (cases "HasSuffix z ''.''") (auto simp: HasSuffix_iff TrimSuffix_id)
  ultimately have "TrimRight_dots z = ?t"
    using t TrimRight_dots_id TrimRight_dots_snoc by metis
  moreover have "\<not> Contains (ToLower ?t) ''..''"
    using labels_no_dotdot [of "ToLower ?t"] labels by (simp add: split_on_ToLower list_all_iff)
  ultimately show ?thesis using labels_filename_chars [OF labels]
    by (simp add: replace_invalid_id replace_dotdot_id)
qed

lemma SafeZoneFilename_short:
  assumes "domain_ok z" "length (TrimSuffix z ''.'') \<le> 200"
  shows "SafeZoneFilename h z = ToLower (TrimSuffix z ''.'')"
proof -
  have "TrimSuffix z ''.'' \<noteq> []" using assms(1) by (auto simp: domain_ok_def dns_label_def)
  then show ?thesis using assms filename_core [OF assms(1)]
    by (simp add: SafeZoneFilename_def Let_def maxSafeZoneFilenameLength_def)
qed

lemma NormalizeZoneName_TrimSuffix:
  "z \<noteq> [] \<Longrightarrow> NormalizeZoneName z = ToLower (TrimSuffix z ''.'') @ ''.''"
  by (cases "HasSuffix z ''.''") (auto simp: HasSuffix_iff NormalizeZoneName_undotted TrimSuffix_id)

lemma SafeZoneFilename_injective:
  assumes "domain_ok z" "domain_ok z'" "length (TrimSuffix z ''.'') \<le> 200" "length (TrimSuffix z' ''.'') \<le> 200"
  shows "SafeZoneFilename h z = SafeZoneFilename h z' \<longleftrightarrow> NormalizeZoneName z = NormalizeZoneName z'"
proof -
  have "z \<noteq> []" "z' \<noteq> []" using assms(1,2) by (auto simp: domain_ok_def)
  then show ?thesis using assms by (simp add: SafeZoneFilename_short NormalizeZoneName_TrimSuffix)
qed

text \<open>For evaluation: an ASCII byte is a rune of its own.\<close>

lemma replace_invalid_code [code]:
  "replace_invalid s =
     (case s of
        [] \<Rightarrow> []
      | c # t \<Rightarrow> (if filename_char c then c else CHR ''_'')
               # replace_invalid (if byte c < 128 then t else drop (snd (decode_rune s)) s))"
proof (cases s)
  case (Cons c t)
  have "byte c < 128 \<Longrightarrow> snd (decode_rune (c # t)) = 1" by simp
  then show ?thesis using replace_invalid.simps [of "c # t"] by (simp add: Cons del: decode_rune.simps)
qed (simp add: replace_invalid.simps)

subsection \<open>Long names\<close>

text \<open>
  The name that a long zone name is shortened to is itself a valid zone name, and it keeps its own
  file.
\<close>

definition long_prefix :: string where
  "long_prefix = replicate 63 CHR ''a'' @ ''.'' @ replicate 63 CHR ''a'' @ ''.'' @ replicate 30 CHR ''a'' @ ''.''"

definition long_zone :: string where
  "long_zone = long_prefix @ replicate 42 CHR ''a''"

definition shadow_zone :: "(string \<Rightarrow> string) \<Rightarrow> string" where
  "shadow_zone h = long_prefix @ replicate 28 CHR ''a'' @ ''-'' @ safeZoneFilenameHash h long_zone"

lemma dns_label_replicate: "0 < n \<Longrightarrow> n \<le> 63 \<Longrightarrow> dns_label (replicate n CHR ''a'')"
  by (simp add: dns_label_def list_all_iff alnum_hyphen_def char_class_defs)

lemma long_prefix_ok:
  assumes "dns_label p" "length p \<le> 60"
  shows "domain_ok (long_prefix @ p)" "TrimSuffix (long_prefix @ p) ''.'' = long_prefix @ p"
proof -
  have p: "p \<noteq> []" "CHR ''.'' \<notin> set p" using assms(1) dns_label_no_dot by (auto simp: dns_label_def)
  then have "last p \<noteq> CHR ''.''" using last_in_set by metis
  then show t: "TrimSuffix (long_prefix @ p) ''.'' = long_prefix @ p"
    using p by (intro TrimSuffix_id) (simp add: HasSuffix_single)
  have "split_on CHR ''.'' (long_prefix @ p) =
      [replicate 63 CHR ''a'', replicate 63 CHR ''a'', replicate 30 CHR ''a'', p]"
    using p by (simp add: long_prefix_def split_on_append split_on_single)
  then show "domain_ok (long_prefix @ p)"
    using assms p unfolding domain_ok_def t by (simp add: dns_label_replicate long_prefix_def)
qed

lemma long_zone_ok: "domain_ok long_zone" "TrimSuffix long_zone ''.'' = long_zone"
  unfolding long_zone_def by (intro long_prefix_ok dns_label_replicate; simp)+

lemma shadow_label_ok:
  assumes "hex_digest h"
  shows "dns_label (replicate 28 CHR ''a'' @ ''-'' @ safeZoneFilenameHash h long_zone)"
proof -
  note hs = hash_suffix [OF assms, of long_zone]
  have "safeZoneFilenameHash h long_zone \<noteq> []" using hs(1) by auto
  moreover from this have "is_alnum (last (safeZoneFilenameHash h long_zone))"
    using hs(3) by (auto simp: list_all_iff)
  moreover have "is_alnum CHR ''a''" "alnum_hyphen CHR ''a''" "alnum_hyphen CHR ''-''"
    by (simp_all add: char_class_defs alnum_hyphen_def)
  moreover have "list_all alnum_hyphen (safeZoneFilenameHash h long_zone)"
    using hs(3) by (auto simp: list_all_iff alnum_imp_alnum_hyphen)
  ultimately show ?thesis using hs(1)
    by (simp add: dns_label_def list_all_iff hd_append)
qed

lemma ToLower_replicate_a: "ToLower (replicate n CHR ''a'') = replicate n CHR ''a''"
  by (simp add: ToLower_def lower_char_def char_class_defs)

lemma ToLower_hash:
  assumes "hex_digest h"
  shows "ToLower (safeZoneFilenameHash h n) = safeZoneFilenameHash h n"
proof -
  have "lower_char c = c" if "c \<in> set (safeZoneFilenameHash h n)" for c
  proof -
    have "filename_char c" using hash_suffix(2) [OF assms] that by (auto simp: list_all_iff)
    then show ?thesis by (auto simp: filename_char_def lower_char_def char_class_defs)
  qed
  then show ?thesis by (simp add: ToLower_def map_idI)
qed

lemma long_zone_shadowed:
  assumes "hex_digest h"
  shows "domain_ok long_zone" "domain_ok (shadow_zone h)"
    "NormalizeZoneName long_zone \<noteq> NormalizeZoneName (shadow_zone h)"
    "SafeZoneFilename h long_zone = SafeZoneFilename h (shadow_zone h)"
proof -
  note hs = hash_suffix [OF assms, of long_zone]
  let ?p = "replicate 28 CHR ''a'' @ ''-'' @ safeZoneFilenameHash h long_zone"
  have sh: "domain_ok (shadow_zone h)" "TrimSuffix (shadow_zone h) ''.'' = shadow_zone h"
    using long_prefix_ok [OF shadow_label_ok [OF assms]] hs(1) by (simp_all add: shadow_zone_def)
  have lowp: "ToLower long_prefix = long_prefix" by (simp add: long_prefix_def ToLower_replicate_a)
  have low: "ToLower long_zone = long_zone" by (simp add: long_zone_def lowp ToLower_replicate_a)
  have lows: "ToLower (shadow_zone h) = shadow_zone h"
    by (simp add: shadow_zone_def lowp ToLower_replicate_a ToLower_hash [OF assms] lower_char_def char_class_defs)
  have len: "length long_prefix = 159" by (simp add: long_prefix_def)
  then have "length long_zone = 201" "length (shadow_zone h) = 200"
    using hs(1) by (simp_all add: long_zone_def shadow_zone_def)
  moreover have "take 187 long_zone = long_prefix @ replicate 28 CHR ''a''"
    by (simp add: long_zone_def len)
  ultimately show "SafeZoneFilename h long_zone = SafeZoneFilename h (shadow_zone h)"
    using hs(1) filename_core [OF long_zone_ok(1)] filename_core [OF sh(1)] sh(2) long_zone_ok(2) low lows
    by (simp add: SafeZoneFilename_def Let_def maxSafeZoneFilenameLength_def shadow_zone_def)
  show "domain_ok long_zone" "domain_ok (shadow_zone h)" by (fact long_zone_ok(1) sh(1))+
  have "length long_zone \<noteq> length (shadow_zone h)"
    using \<open>length long_zone = 201\<close> \<open>length (shadow_zone h) = 200\<close> by simp
  moreover have "long_zone \<noteq> []" "shadow_zone h \<noteq> []" by (simp_all add: long_zone_def shadow_zone_def)
  ultimately show "NormalizeZoneName long_zone \<noteq> NormalizeZoneName (shadow_zone h)"
    using sh(2) long_zone_ok(2) low lows by (auto simp: NormalizeZoneName_TrimSuffix)
qed

subsection \<open>Properties\<close>

text \<open>
  Whatever zone name comes in, the file name has 1 to 200 characters out of \<open>a-z0-9._-\<close> and
  contains no \<open>..\<close>, so no path is formed that leaves the zone directory.
\<close>

theorem filename_is_safe:
  assumes "hex_digest h"
  shows "safe_filename (SafeZoneFilename h z)"
  using assms by (rule SafeZoneFilename_is_safe)

theorem filename_is_safe_witness:
  "safe_filename (SafeZoneFilename (\<lambda>_. replicate 64 CHR ''0'') ''../../etc/passwd'')"
  by (rule filename_is_safe) (simp add: hex_digest_def is_digit_def byte_def)

text \<open>
  C38: Valid zones whose names have at most 200 bytes share a file only if they are the same zone.
\<close>

theorem filename_injective:
  assumes "ValidateZoneName z = None" "ValidateZoneName z' = None"
    "length (TrimSuffix z ''.'') \<le> 200" "length (TrimSuffix z' ''.'') \<le> 200"
  shows "SafeZoneFilename h z = SafeZoneFilename h z' \<longleftrightarrow> NormalizeZoneName z = NormalizeZoneName z'"
  using assms by (intro SafeZoneFilename_injective) (auto simp: ValidateZoneName_iff)

theorem filename_injective_witness:
  "SafeZoneFilename (\<lambda>_. replicate 64 CHR ''0'') ''a.b'' = SafeZoneFilename (\<lambda>_. replicate 64 CHR ''0'') ''A.b.''
    \<and> SafeZoneFilename (\<lambda>_. replicate 64 CHR ''0'') ''a.b'' \<noteq> SafeZoneFilename (\<lambda>_. replicate 64 CHR ''0'') ''a.c''"
proof -
  have ok: "ValidateZoneName ''a.b'' = None" "ValidateZoneName ''A.b.'' = None" "ValidateZoneName ''a.c'' = None"
    "NormalizeZoneName ''a.b'' = NormalizeZoneName ''A.b.''" "NormalizeZoneName ''a.b'' \<noteq> NormalizeZoneName ''a.c''"
    "length (TrimSuffix ''a.b'' ''.'') \<le> 200" "length (TrimSuffix ''A.b.'' ''.'') \<le> 200" "length (TrimSuffix ''a.c'' ''.'') \<le> 200"
    by code_simp+
  show ?thesis
    using filename_injective [of "''a.b''" "''A.b.''" "\<lambda>_. replicate 64 CHR ''0''"]
      filename_injective [of "''a.b''" "''a.c''" "\<lambda>_. replicate 64 CHR ''0''"] ok
    by blast
qed

text \<open>
  C39: Longer names do not keep this: for every hash function there are two different valid zone
  names with the same file name, because the shortened form of a long name is itself a valid name
  of 200 bytes.
\<close>

theorem filename_collision:
  assumes "hex_digest h"
  shows "\<exists>z z'. ValidateZoneName z = None \<and> ValidateZoneName z' = None
    \<and> NormalizeZoneName z \<noteq> NormalizeZoneName z' \<and> SafeZoneFilename h z = SafeZoneFilename h z'"
  using long_zone_shadowed [OF assms] by (auto simp: ValidateZoneName_iff)

theorem filename_collision_witness:
  "\<exists>z z'. NormalizeZoneName z \<noteq> NormalizeZoneName z'
    \<and> SafeZoneFilename (\<lambda>_. replicate 64 CHR ''0'') z = SafeZoneFilename (\<lambda>_. replicate 64 CHR ''0'') z'"
proof -
  have "hex_digest (\<lambda>_. replicate 64 CHR ''0'')" by (simp add: hex_digest_def is_digit_def byte_def)
  from filename_collision [OF this] show ?thesis by blast
qed

end
