(* ===== verification/Go_Base64.thy ===== *)
theory Go_Base64
  imports Go_Strings
begin

section \<open>Base64 (encoding/base64, StdEncoding)\<close>

text \<open>
  \<open>StdEncoding.EncodeToString\<close> and \<open>StdEncoding.DecodeString\<close> on byte strings. The decoder skips
  carriage returns and line feeds anywhere, wants the padding to complete the last quantum and
  nothing after it, and ignores the unused bits of the last digit. Decoding an encoded string gives
  the string back.
\<close>

definition b64_digit :: "nat \<Rightarrow> char" where
  "b64_digit n =
     (if n < 26 then char_of (65 + n) else if n < 52 then char_of (71 + n)
      else if n < 62 then char_of (n - 4) else if n = 62 then CHR ''+'' else CHR ''/'')"

definition b64_val :: "char \<Rightarrow> nat option" where
  "b64_val c =
     (if is_upper c then Some (byte c - 65) else if is_lower c then Some (byte c - 71)
      else if is_digit c then Some (byte c + 4) else if c = CHR ''+'' then Some 62
      else if c = CHR ''/'' then Some 63 else None)"

fun b64_encode :: "string \<Rightarrow> string" where
  "b64_encode [] = []"
| "b64_encode [x] = [b64_digit (byte x div 4), b64_digit (byte x mod 4 * 16), CHR ''='', CHR ''='']"
| "b64_encode [x, y] =
     [b64_digit (byte x div 4), b64_digit (byte x mod 4 * 16 + byte y div 16),
      b64_digit (byte y mod 16 * 4), CHR ''='']"
| "b64_encode (x # y # z # s) =
     [b64_digit (byte x div 4), b64_digit (byte x mod 4 * 16 + byte y div 16),
      b64_digit (byte y mod 16 * 4 + byte z div 64), b64_digit (byte z mod 64)] @ b64_encode s"

definition b64_byte1 :: "nat \<Rightarrow> nat \<Rightarrow> char" where
  "b64_byte1 a b = char_of (a * 4 + b div 16)"

definition b64_byte2 :: "nat \<Rightarrow> nat \<Rightarrow> char" where
  "b64_byte2 b c = char_of (b mod 16 * 16 + c div 4)"

definition b64_byte3 :: "nat \<Rightarrow> nat \<Rightarrow> char" where
  "b64_byte3 c d = char_of (c mod 4 * 64 + d)"

fun b64_quanta :: "string \<Rightarrow> string option" where
  "b64_quanta [] = Some []"
| "b64_quanta (p # q # r # t # s) =
     (case (b64_val p, b64_val q, b64_val r, b64_val t) of
        (Some a, Some b, Some c, Some d) \<Rightarrow>
          map_option (\<lambda>rest. [b64_byte1 a b, b64_byte2 b c, b64_byte3 c d] @ rest) (b64_quanta s)
      | (Some a, Some b, Some c, None) \<Rightarrow>
          if t = CHR ''='' \<and> s = [] then Some [b64_byte1 a b, b64_byte2 b c] else None
      | (Some a, Some b, None, None) \<Rightarrow>
          if r = CHR ''='' \<and> t = CHR ''='' \<and> s = [] then Some [b64_byte1 a b] else None
      | _ \<Rightarrow> None)"
| "b64_quanta _ = None"

definition b64_decode :: "string \<Rightarrow> string option" where
  "b64_decode s = b64_quanta (filter (\<lambda>c. byte c \<noteq> 10 \<and> byte c \<noteq> 13) s)"

lemma b64_val_digit [simp]: "n < 64 \<Longrightarrow> b64_val (b64_digit n) = Some n"
  by (auto simp: b64_val_def b64_digit_def is_upper_def is_lower_def is_digit_def)
     (auto simp: byte_def)

lemma b64_val_pad [simp]: "b64_val CHR ''='' = None"
  by (simp add: b64_val_def char_class_defs)

lemma b64_digit_byte: "n < 64 \<Longrightarrow> 43 \<le> byte (b64_digit n)" "n < 64 \<Longrightarrow> byte (b64_digit n) < 123"
  by (auto simp: b64_digit_def) (auto simp: byte_def)

lemma b64_bytes:
  "b64_byte1 (byte x div 4) (byte x mod 4 * 16 + byte y div 16) = x"
  "b64_byte1 (byte x div 4) (byte x mod 4 * 16) = x"
  "b64_byte2 (byte x mod 4 * 16 + byte y div 16) (byte y mod 16 * 4 + byte z div 64) = y"
  "b64_byte2 (byte x mod 4 * 16 + byte y div 16) (byte y mod 16 * 4) = y"
  "b64_byte3 (byte y mod 16 * 4 + byte z div 64) (byte z mod 64) = z"
proof -
  have "byte y < 16 * 16" "byte z < 4 * 64" using byte_less [of y] byte_less [of z] by linarith+
  then have d: "byte y div 16 < 16" "byte z div 64 < 4" using less_mult_imp_div_less by blast+
  have c: "char_of n = c" if "n = byte c" for n c using that by (simp add: byte_def)
  show "b64_byte1 (byte x div 4) (byte x mod 4 * 16 + byte y div 16) = x"
    "b64_byte1 (byte x div 4) (byte x mod 4 * 16) = x"
    unfolding b64_byte1_def using d by (auto intro!: c)
  have "(byte x mod 4 * 16 + byte y div 16) mod 16 = byte y div 16" using d by simp
  then show "b64_byte2 (byte x mod 4 * 16 + byte y div 16) (byte y mod 16 * 4 + byte z div 64) = y"
    "b64_byte2 (byte x mod 4 * 16 + byte y div 16) (byte y mod 16 * 4) = y"
    unfolding b64_byte2_def using d by (auto intro!: c)
  have "(byte y mod 16 * 4 + byte z div 64) mod 4 = byte z div 64" using d by simp
  then show "b64_byte3 (byte y mod 16 * 4 + byte z div 64) (byte z mod 64) = z"
    unfolding b64_byte3_def by (auto intro!: c)
qed

lemma b64_sextets [simp]:
  "byte x div 4 < 64" "byte x mod 4 * 16 < 64" "byte x mod 4 * 16 + byte y div 16 < 64"
  "byte y mod 16 * 4 < 64" "byte y mod 16 * 4 + byte z div 64 < 64" "byte z mod 64 < 64"
proof -
  have b: "byte x < 64 * 4" "byte y < 16 * 16" "byte z < 4 * 64"
    using byte_less [of x] byte_less [of y] byte_less [of z] by linarith+
  have "byte x div 4 < 64" "byte y div 16 < 16" "byte z div 64 < 4" "byte x mod 4 < 4" "byte y mod 16 < 16"
    using b [THEN less_mult_imp_div_less] by auto
  then show "byte x div 4 < 64" "byte x mod 4 * 16 < 64" "byte x mod 4 * 16 + byte y div 16 < 64"
    "byte y mod 16 * 4 < 64" "byte y mod 16 * 4 + byte z div 64 < 64" "byte z mod 64 < 64"
    by (linarith | simp)+
qed

lemma b64_encode_chars: "c \<in> set (b64_encode s) \<Longrightarrow> 43 \<le> byte c \<and> byte c < 123"
proof (induction s rule: b64_encode.induct)
  case (2 x) then show ?case by (auto simp: b64_digit_byte) (simp_all add: byte_def)
next
  case (3 x y) then show ?case by (auto simp: b64_digit_byte) (simp_all add: byte_def)
next
  case (4 x y z s) then show ?case by (auto simp: b64_digit_byte)
qed simp

lemma b64_quanta_encode: "b64_quanta (b64_encode s) = Some s"
  by (induction s rule: b64_encode.induct) (simp_all add: b64_bytes)

lemma b64_decode_encode [simp]: "b64_decode (b64_encode s) = Some s"
proof -
  have "filter (\<lambda>c. byte c \<noteq> 10 \<and> byte c \<noteq> 13) (b64_encode s) = b64_encode s"
    by (rule filter_True) (auto dest: b64_encode_chars)
  then show ?thesis by (simp add: b64_decode_def b64_quanta_encode)
qed

lemma b64_encode_nonempty [simp]: "b64_encode s = [] \<longleftrightarrow> s = []"
  by (cases s rule: b64_encode.cases) simp_all

lemma b64_encode_digits: "i < 4 * (length s div 3) \<Longrightarrow> b64_val (b64_encode s ! i) \<noteq> None"
proof (induction s arbitrary: i rule: b64_encode.induct)
  case (4 x y z s)
  have "length (x # y # z # s) div 3 = Suc (length s div 3)" by simp
  with "4.prems" have i: "i < 4 + 4 * (length s div 3)" by linarith
  show ?case
  proof (cases "i < 4")
    case True
    then have "i = 0 \<or> i = 1 \<or> i = 2 \<or> i = 3" by linarith
    then show ?thesis by auto
  next
    case False
    then obtain j where j: "i = 4 + j" using le_Suc_ex not_less by blast
    then have "b64_encode (x # y # z # s) ! i = b64_encode s ! j" by (simp add: nth_append)
    then show ?thesis using "4.IH" [of j] i j by simp
  qed
qed simp_all

end
