(* ===== verification/Sync_Client.thy ===== *)
theory Sync_Client
  imports Zone_API Zone_Path Go_Base64 Net_IP "HOL-Library.AList"
begin

section \<open>The agent's controller client (internal/agent/sync/client.go, serial.go)\<close>

text \<open>
  The HTTP client of an agent: which transports it accepts for its API key, how it retries, how it
  lists the controller's zones page by page, and what it verifies before it hands out a zone file.
  HTTP, SHA-256, HMAC and JSON are arguments: \<open>transport\<close> sends a request in a world of any type and
  waits between attempts, \<open>agent_lib\<close> has the other functions. The body of a response is its bytes
  and whether reading fails after them.

  The lemmas show that every artifact handed out has passed the checks that are switched on, that a
  retry loop makes at most the configured number of requests, that the API key is never sent in
  plain text beyond the host itself unless that is asked for, and that the loop over the pages
  returns all zones of a server that serves the pages of a list.
\<close>

subsection \<open>Requests and responses\<close>

record request =
  rq_url :: string
  rq_query :: "(string \<times> string) list"
  rq_header :: "(string \<times> string) list"

record response =
  rs_status :: int
  rs_header :: "string \<Rightarrow> string" \<comment> \<open>\<open>Header.Get\<close>, the empty string if absent\<close>
  rs_body :: string
  rs_body_fails :: bool

record 'w transport =
  tr_do :: "request \<Rightarrow> 'w \<Rightarrow> (string + response) \<times> 'w"
  tr_wait :: "'w \<Rightarrow> string option \<times> 'w" \<comment> \<open>the error of a context that ends before the delay does\<close>
  tr_url_ok :: "string \<Rightarrow> bool" \<comment> \<open>\<open>url.Parse\<close> accepts\<close>

record ZoneInfo =
  zi_Name :: string
  zi_Version :: string
  zi_ETag :: string

record SignedZoneArtifact =
  ar_Content :: string
  ar_ETag :: string
  ar_Serial :: uint32
  ar_Hash :: string
  ar_NotModified :: bool

record listZonesResponse =
  lz_Zones :: "ZoneInfo list"
  lz_Offset :: int
  lz_Limit :: int
  lz_Count :: int

text \<open>The records of a parsed zone file: an SOA record with its serial, or another record.\<close>

datatype zone_rr = SOA_RR uint32 | Other_RR

record agent_lib =
  lib_sha256hex :: "string \<Rightarrow> string"
  lib_hmac :: "string \<Rightarrow> string \<Rightarrow> string" \<comment> \<open>key and message\<close>
  lib_ParseBINDZone :: "string \<Rightarrow> string \<Rightarrow> zone_rr list option" \<comment> \<open>content and zone name\<close>
  lib_Unmarshal :: "string \<Rightarrow> listZonesResponse option"

datatype signature_error =
    UnknownKeyID | EmptyKey | MissingKeyID | MissingSignature | InvalidSignature | SignatureFailed

datatype client_error =
    ErrRequest
  | ErrContext string
  | ErrAttempt nat string
  | ErrAttemptStatus nat int
  | ErrExhausted "client_error option"
  | ErrStatus int string
  | ErrReadBody
  | ErrBodyTooLarge
  | ErrDecode
  | ErrPaginationOffset | ErrPaginationLimit | ErrPaginationNegative | ErrPaginationCount
  | ErrPaginationExceeds
  | ErrUnconditional304 | ErrMissingETag | ErrETagMismatch
  | ErrMissingChecksum | ErrChecksumLength | ErrChecksumHex | ErrChecksumMismatch | ErrLocalChecksum
  | ErrSignature signature_error
  | ErrSOASerial | ErrMissingSerial | ErrSerialHeader | ErrSerialMismatch

definition listZonesPageLimit :: int where "listZonesPageLimit = 1000"
definition maxErrorResponseBodySize :: int where "maxErrorResponseBodySize = 4 * 1024"
definition maxTLSFileSize :: int where "maxTLSFileSize = 4 * 1024 * 1024"
definition zoneSignatureHeader :: string where "zoneSignatureHeader = ''X-Zone-Signature''"
definition zoneSignatureKeyIDHeader :: string where "zoneSignatureKeyIDHeader = ''X-Zone-Signature-Key-ID''"
definition DefaultControllerClientMaxResponseBytes :: int where
  "DefaultControllerClientMaxResponseBytes = 64 * 1024 * 1024"

definition hasPagination :: "listZonesResponse \<Rightarrow> bool" where
  "hasPagination r \<longleftrightarrow> lz_Offset r \<noteq> 0 \<or> lz_Limit r \<noteq> 0 \<or> lz_Count r \<noteq> 0"

subsection \<open>Entity tags and hexadecimal digests\<close>

definition etagValue :: "string \<Rightarrow> string" where
  "etagValue etag = Trim_quotes (TrimSpace (TrimPrefix (TrimSpace etag) ''W/''))"

definition isInvalidETagChar :: "char \<Rightarrow> bool" where
  "isInvalidETagChar r \<longleftrightarrow> byte r < 0x20 \<or> byte r = 0x7f"

definition normalizeIfNoneMatch :: "string \<Rightarrow> string" where
  "normalizeIfNoneMatch etag =
     (if TrimSpace etag = [] then []
      else let v = Trim_quotes (TrimSpace (TrimPrefix (TrimSpace etag) ''W/''))
           in if v = [] \<or> v = ''*'' \<or> list_ex (\<lambda>c. c \<in> {CHR 0x22, CHR '','', CHR 0x5C}) v
                \<or> list_ex isInvalidETagChar v
              then [] else [CHR 0x22] @ v @ [CHR 0x22])"

text \<open>\<open>hex.DecodeString\<close> has no error.\<close>

definition isHex :: "string \<Rightarrow> bool" where
  "isHex s \<longleftrightarrow> even (length s) \<and> list_all is_hex s"

text \<open>
  \<open>strings.EqualFold\<close> where one of the strings has only hexadecimal digits: no other letter folds to
  one of \<open>a\<close> to \<open>f\<close>.
\<close>

definition EqualFold :: "string \<Rightarrow> string \<Rightarrow> bool" where
  "EqualFold s t \<longleftrightarrow> ToLower s = ToLower t"

definition validateFullChecksumHeader :: "string \<Rightarrow> client_error option" where
  "validateFullChecksumHeader zoneHash =
     fail_if (zoneHash = []) ErrMissingChecksum
       (fail_if (length zoneHash \<noteq> 64) ErrChecksumLength
         (fail_if (\<not> isHex zoneHash) ErrChecksumHex None))"

definition ParseUint32 :: "string \<Rightarrow> uint32 option" where
  "ParseUint32 s =
     (if s \<noteq> [] \<and> list_all is_digit s \<and> int (dec_val s) < 2 ^ 32 then Some (word_of_nat (dec_val s)) else None)"

definition parseZoneSerialHeader :: "string \<Rightarrow> client_error + uint32" where
  "parseZoneSerialHeader s =
     (if TrimSpace s = [] then Inl ErrMissingSerial
      else case ParseUint32 (TrimSpace s) of None \<Rightarrow> Inl ErrSerialHeader | Some n \<Rightarrow> Inr n)"

fun first_soa :: "zone_rr list \<Rightarrow> uint32 option" where
  "first_soa [] = None"
| "first_soa (SOA_RR n # rrs) = Some n"
| "first_soa (Other_RR # rrs) = first_soa rrs"

definition parseZoneSOASerial :: "agent_lib \<Rightarrow> string \<Rightarrow> string \<Rightarrow> uint32 option" where
  "parseZoneSOASerial L zoneName zoneContent =
     (case lib_ParseBINDZone L zoneContent zoneName of None \<Rightarrow> None | Some rrs \<Rightarrow> first_soa rrs)"

subsection \<open>Signatures\<close>

definition artifactSignature :: "agent_lib \<Rightarrow> string \<Rightarrow> string \<Rightarrow> string" where
  "artifactSignature L body key = b64_encode (lib_hmac L key body)"

text \<open>The key ring in the order in which the loop visits it; a later entry replaces an earlier one.\<close>

definition add_key :: "(string \<times> string) list \<Rightarrow> string \<times> string \<Rightarrow> (string \<times> string) list" where
  "add_key ring e =
     (let keyID = ToLower (TrimSpace (fst e)); key = TrimSpace (snd e)
      in if keyID \<noteq> [] \<and> key \<noteq> [] then AList.update keyID key ring else ring)"

definition normalizeSignatureKeyRing :: "(string \<times> string) list \<Rightarrow> (string \<times> string) list" where
  "normalizeSignatureKeyRing keys = foldl add_key [] keys"

definition artifactSignatureVerificationKey ::
  "string \<Rightarrow> string \<Rightarrow> (string \<times> string) list \<Rightarrow> signature_error + string" where
  "artifactSignatureVerificationKey keyIDHeader legacyKey keyRing =
     (let keyID = ToLower (TrimSpace keyIDHeader); legacy = TrimSpace legacyKey in
      if keyID \<noteq> [] then
        let key = TrimSpace (case map_of keyRing keyID of None \<Rightarrow> [] | Some k \<Rightarrow> k)
        in if key = [] then (if legacy \<noteq> [] \<and> keyRing = [] then Inr legacy else Inl UnknownKeyID)
           else Inr key
      else if legacy \<noteq> [] then Inr legacy
      else case keyRing of [] \<Rightarrow> Inl EmptyKey | [e] \<Rightarrow> Inr (TrimSpace (snd e)) | _ \<Rightarrow> Inl MissingKeyID)"

definition verifyArtifactSignature ::
  "agent_lib \<Rightarrow> string \<Rightarrow> string \<Rightarrow> string \<Rightarrow> string \<Rightarrow> (string \<times> string) list \<Rightarrow> signature_error option" where
  "verifyArtifactSignature L body signatureHeader keyIDHeader legacyKey keyRing =
     errOf (bindE (artifactSignatureVerificationKey keyIDHeader legacyKey keyRing) (\<lambda>key.
       if TrimSpace signatureHeader = [] then Inl MissingSignature
       else case b64_decode (TrimPrefix (TrimPrefix (TrimSpace signatureHeader) ''sha256='') ''hmac-sha256='') of
              None \<Rightarrow> Inl InvalidSignature
            | Some actual \<Rightarrow> if actual \<noteq> lib_hmac L key body then Inl SignatureFailed else Inr ()))"

subsection \<open>Transport configuration\<close>

record TLSConfig =
  tls_Enabled :: bool
  tls_CAFile :: string
  tls_CertFile :: string
  tls_KeyFile :: string
  tls_ClientAuth :: bool

record ControllerClientConfig =
  cc_URL :: string
  cc_APIKey :: string
  cc_AllowPlaintextAPIKey :: bool
  cc_TLS :: TLSConfig
  cc_RetryAttempts :: int
  cc_MaxResponseBytes :: int

record url =
  u_Scheme :: string
  u_Host :: string
  u_Hostname :: string

datatype config_error =
    ErrURL | ErrPlaintextKey | ErrClientAuthTLS | ErrCertRequired | ErrKeyRequired | ErrTLSRequired
  | ErrCertWithoutKey | ErrKeyWithoutCert | ErrClientAuthRequired | ErrNotHTTPS
  | ErrPathEmpty string | ErrPathSpace string | ErrPathControl string | ErrPathRelative string
  | ErrFile string | ErrParseCA | ErrKeyPair

text \<open>\<open>strings.Trim(host, "[]")\<close> and \<open>IP.IsLoopback\<close>\<close>

definition Trim_brackets :: "string \<Rightarrow> string" where
  "Trim_brackets s = (let b = (\<lambda>c. c = CHR ''['' \<or> c = CHR '']'') in rev (dropWhile b (rev (dropWhile b s))))"

definition IsLoopback :: "ip \<Rightarrow> bool" where
  "IsLoopback a = (case To4 a of Some v \<Rightarrow> hd v = 127 | None \<Rightarrow> a = replicate 15 0 @ [1])"

text \<open>
  \<open>strings.EqualFold\<close> with a word in lower case: the long s (U+017F) folds to \<open>s\<close> and the Kelvin sign
  (U+212A) to \<open>k\<close>.
\<close>

fun fold_letters :: "string \<Rightarrow> string" where
  "fold_letters (a # b # s) =
     (if byte a = 0xC5 \<and> byte b = 0xBF then CHR ''s'' # fold_letters s
      else case s of c # t \<Rightarrow>
             if byte a = 0xE2 \<and> byte b = 0x84 \<and> byte c = 0xAA then CHR ''k'' # fold_letters t
             else lower_char a # fold_letters (b # s)
           | [] \<Rightarrow> lower_char a # fold_letters (b # s))"
| "fold_letters s = ToLower s"

definition isLoopbackURLHost :: "string \<Rightarrow> bool" where
  "isLoopbackURLHost host0 =
     (let host = Trim_brackets host0
      in fold_letters host = ''localhost''
         \<or> (case ParseIP host of None \<Rightarrow> False | Some a \<Rightarrow> IsLoopback a))"

definition sameOrigin :: "url option \<Rightarrow> url option \<Rightarrow> bool" where
  "sameOrigin a b = (case (a, b) of
     (Some u, Some v) \<Rightarrow> fold_letters (u_Scheme u) = fold_letters (u_Scheme v)
                         \<and> fold_letters (u_Host u) = fold_letters (u_Host v)
   | _ \<Rightarrow> False)"

definition validateAPIKeyTransport :: "(string \<Rightarrow> url option) \<Rightarrow> ControllerClientConfig \<Rightarrow> config_error option" where
  "validateAPIKeyTransport parseURL cfg =
     (if TrimSpace (cc_APIKey cfg) = [] \<or> cc_AllowPlaintextAPIKey cfg then None
      else case parseURL (TrimSpace (cc_URL cfg)) of
        None \<Rightarrow> Some ErrURL
      | Some u \<Rightarrow>
          if fold_letters (u_Scheme u) \<noteq> ''http'' then None
          else if isLoopbackURLHost (u_Hostname u) then None
          else Some ErrPlaintextKey)"

definition unsafeTLSFilePathChar :: "char \<Rightarrow> bool" where
  "unsafeTLSFilePathChar r \<longleftrightarrow> byte r < 32 \<or> byte r = 0x7f"

definition validateTLSFilePath :: "string \<Rightarrow> string \<Rightarrow> config_error option" where
  "validateTLSFilePath field path =
     fail_if (TrimSpace path = []) (ErrPathEmpty field)
       (fail_if (TrimSpace path \<noteq> path) (ErrPathSpace field)
         (fail_if (list_ex unsafeTLSFilePathChar path) (ErrPathControl field)
           (fail_if (\<not> HasPrefix path ''/'') (ErrPathRelative field) None)))"

definition validateTLSConfig :: "(string \<Rightarrow> url option) \<Rightarrow> ControllerClientConfig \<Rightarrow> config_error option" where
  "validateTLSConfig parseURL cfg =
     andthen (validateAPIKeyTransport parseURL cfg)
       (let tls = cc_TLS cfg; caFile = TrimSpace (tls_CAFile tls); certFile = TrimSpace (tls_CertFile tls);
            keyFile = TrimSpace (tls_KeyFile tls) in
        fail_if (tls_ClientAuth tls \<and> \<not> tls_Enabled tls) ErrClientAuthTLS
        (fail_if (tls_ClientAuth tls \<and> certFile = []) ErrCertRequired
        (fail_if (tls_ClientAuth tls \<and> keyFile = []) ErrKeyRequired
        (fail_if ((caFile \<noteq> [] \<or> certFile \<noteq> [] \<or> keyFile \<noteq> []) \<and> \<not> tls_Enabled tls) ErrTLSRequired
        (fail_if (certFile = [] \<and> keyFile \<noteq> []) ErrKeyWithoutCert
        (fail_if (certFile \<noteq> [] \<and> keyFile = []) ErrCertWithoutKey
        (fail_if ((certFile \<noteq> [] \<or> keyFile \<noteq> []) \<and> \<not> tls_ClientAuth tls) ErrClientAuthRequired
        (andthen (if tls_Enabled tls
                  then case parseURL (cc_URL cfg) of None \<Rightarrow> Some ErrURL
                       | Some u \<Rightarrow> if ToLower (u_Scheme u) \<noteq> ''https'' then Some ErrNotHTTPS else None
                  else None)
        (andthen (if caFile \<noteq> [] then validateTLSFilePath ''ca_file'' (tls_CAFile tls) else None)
        (andthen (if certFile \<noteq> [] then validateTLSFilePath ''cert_file'' (tls_CertFile tls) else None)
          (if keyFile \<noteq> [] then validateTLSFilePath ''key_file'' (tls_KeyFile tls) else None)))))))))))"

text \<open>
  A file as the two looks at it find it: by name, and through the opened descriptor. \<open>fi_id\<close> is what
  \<open>os.SameFile\<close> compares.
\<close>

record file_info =
  fi_id :: nat
  fi_symlink :: bool
  fi_regular :: bool
  fi_size :: int
  fi_perm :: "9 word"

record file_view =
  fv_lstat :: "file_info option"
  fv_opens :: bool
  fv_fstat :: "file_info option"
  fv_data :: string
  fv_fails :: bool

text \<open>\<open>io.ReadAll(io.LimitReader(r, n))\<close>\<close>

definition ReadAll_limit :: "int \<Rightarrow> string \<Rightarrow> bool \<Rightarrow> string option" where
  "ReadAll_limit n bytes fails =
     (if n \<le> int (length bytes) then Some (take (nat n) bytes) else if fails then None else Some bytes)"

definition readRegularTLSFileValidated ::
  "file_view \<Rightarrow> string \<Rightarrow> (file_info \<Rightarrow> bool) \<Rightarrow> config_error + string" where
  "readRegularTLSFileValidated v label validate =
     (case fv_lstat v of None \<Rightarrow> Inl (ErrFile label)
      | Some info \<Rightarrow>
          if fi_symlink info \<or> \<not> fi_regular info \<or> maxTLSFileSize < fi_size info \<or> \<not> validate info
          then Inl (ErrFile label)
          else if \<not> fv_opens v then Inl (ErrFile label)
          else case fv_fstat v of None \<Rightarrow> Inl (ErrFile label)
          | Some opened \<Rightarrow>
              if fi_id info \<noteq> fi_id opened \<or> \<not> fi_regular opened \<or> maxTLSFileSize < fi_size opened
                \<or> \<not> validate opened
              then Inl (ErrFile label)
              else case ReadAll_limit (maxTLSFileSize + 1) (fv_data v) (fv_fails v) of
                     None \<Rightarrow> Inl (ErrFile label)
                   | Some data \<Rightarrow> if maxTLSFileSize < int (length data) then Inl (ErrFile label) else Inr data)"

definition readRegularTLSFile :: "file_view \<Rightarrow> string \<Rightarrow> config_error + string" where
  "readRegularTLSFile v label = readRegularTLSFileValidated v label (\<lambda>_. True)"

unbundle bit_operations_syntax

definition readRegularTLSPrivateKeyFile :: "file_view \<Rightarrow> config_error + string" where
  "readRegularTLSPrivateKeyFile v =
     readRegularTLSFileValidated v ''client key file'' (\<lambda>info. fi_perm info AND 7 = 0)"

text \<open>The PEM and X.509 parsers are the arguments \<open>certs_ok\<close> and \<open>pair_ok\<close>.\<close>

definition loadRegularClientCertificate ::
  "(string \<Rightarrow> file_view) \<Rightarrow> (string \<Rightarrow> string \<Rightarrow> bool) \<Rightarrow> string \<Rightarrow> string \<Rightarrow> config_error option" where
  "loadRegularClientCertificate fs pair_ok certFile keyFile =
     errOf (bindE (readRegularTLSFile (fs certFile) ''client certificate file'') (\<lambda>cert.
       bindE (readRegularTLSPrivateKeyFile (fs keyFile)) (\<lambda>key.
         if pair_ok cert key then Inr () else Inl ErrKeyPair)))"

record Client =
  c_baseURL :: string
  c_apiKey :: string
  c_RetryAttempts :: int
  c_maxResponseBytes :: int
  c_verifyChecksums :: bool
  c_verifySignatures :: bool
  c_signatureKey :: string
  c_signatureKeys :: "(string \<times> string) list"

definition TrimRight_slashes :: "string \<Rightarrow> string" where
  "TrimRight_slashes s = rev (dropWhile (\<lambda>c. c = CHR ''/'') (rev s))"

definition NewClient ::
  "(string \<Rightarrow> url option) \<Rightarrow> (string \<Rightarrow> file_view) \<Rightarrow> (string \<Rightarrow> bool) \<Rightarrow> (string \<Rightarrow> string \<Rightarrow> bool)
    \<Rightarrow> ControllerClientConfig \<Rightarrow> config_error + Client" where
  "NewClient parseURL fs certs_ok pair_ok cfg =
     okE (andthen (validateTLSConfig parseURL cfg)
           (let tls = cc_TLS cfg; caFile = TrimSpace (tls_CAFile tls) in
            if \<not> tls_Enabled tls then None
            else andthen
              (if caFile = [] then None
               else errOf (bindE (readRegularTLSFile (fs caFile) ''CA certificate file'') (\<lambda>pem.
                      if certs_ok pem then Inr () else Inl ErrParseCA)))
              (if tls_ClientAuth tls
               then loadRegularClientCertificate fs pair_ok (TrimSpace (tls_CertFile tls)) (TrimSpace (tls_KeyFile tls))
               else None)))
       \<lparr>c_baseURL = TrimRight_slashes (cc_URL cfg), c_apiKey = cc_APIKey cfg,
        c_RetryAttempts = cc_RetryAttempts cfg,
        c_maxResponseBytes = (if cc_MaxResponseBytes cfg \<le> 0 then DefaultControllerClientMaxResponseBytes
                              else cc_MaxResponseBytes cfg),
        c_verifyChecksums = True, c_verifySignatures = False, c_signatureKey = [], c_signatureKeys = []\<rparr>"

definition SetVerifyChecksums :: "bool \<Rightarrow> Client \<Rightarrow> Client" where
  "SetVerifyChecksums enabled c = c\<lparr>c_verifyChecksums := enabled\<rparr>"

definition SetSignatureVerificationKeys :: "bool \<Rightarrow> string \<Rightarrow> (string \<times> string) list \<Rightarrow> Client \<Rightarrow> Client" where
  "SetSignatureVerificationKeys enabled key keys c =
     c\<lparr>c_verifySignatures := enabled, c_signatureKey := TrimSpace key,
       c_signatureKeys := normalizeSignatureKeyRing keys\<rparr>"

subsection \<open>Requests with retries\<close>

fun retry_loop ::
  "'w transport \<Rightarrow> request \<Rightarrow> nat \<Rightarrow> nat \<Rightarrow> client_error option \<Rightarrow> 'w \<Rightarrow> (client_error + response) \<times> 'w" where
  "retry_loop T req 0 attempt lastErr w = (Inl (ErrExhausted lastErr), w)"
| "retry_loop T req (Suc left) attempt lastErr w =
     (let (cancelled, w1) = (if 0 < attempt then tr_wait T w else (None, w)) in
      case cancelled of
        Some e \<Rightarrow> (Inl (ErrContext e), w1)
      | None \<Rightarrow>
          (case tr_do T req w1 of
             (Inl e, w2) \<Rightarrow> retry_loop T req left (Suc attempt) (Some (ErrAttempt (attempt + 1) e)) w2
           | (Inr resp, w2) \<Rightarrow>
               if rs_status resp < 500 \<or> rs_status resp = 304 then (Inr resp, w2)
               else retry_loop T req left (Suc attempt)
                      (Some (ErrAttemptStatus (attempt + 1) (rs_status resp))) w2))"

definition doWithRetry :: "'w transport \<Rightarrow> Client \<Rightarrow> request \<Rightarrow> 'w \<Rightarrow> (client_error + response) \<times> 'w" where
  "doWithRetry T c req w = retry_loop T req (nat (c_RetryAttempts c + 1)) 0 None w"

definition readLimitedBody :: "response \<Rightarrow> int \<Rightarrow> client_error + string" where
  "readLimitedBody resp limit =
     (case ReadAll_limit (limit + 1) (rs_body resp) (rs_body_fails resp) of
        None \<Rightarrow> Inl ErrReadBody
      | Some data \<Rightarrow> if limit < int (length data) then Inl ErrBodyTooLarge else Inr data)"

definition readResponseBody :: "Client \<Rightarrow> response \<Rightarrow> client_error + string" where
  "readResponseBody c resp =
     readLimitedBody resp (if c_maxResponseBytes c \<le> 0 then DefaultControllerClientMaxResponseBytes
                           else c_maxResponseBytes c)"

definition readErrorResponseBody :: "response \<Rightarrow> string" where
  "readErrorResponseBody resp =
     (case ReadAll_limit (maxErrorResponseBodySize + 1) (rs_body resp) (rs_body_fails resp) of
        None \<Rightarrow> ''<failed to read body>''
      | Some data \<Rightarrow> if maxErrorResponseBodySize < int (length data)
                     then take (nat maxErrorResponseBodySize) data @ ''...(truncated)'' else data)"

subsection \<open>The list of zones\<close>

definition auth_header :: "Client \<Rightarrow> (string \<times> string) list" where
  "auth_header c = (if c_apiKey c \<noteq> [] then [(''X-API-Key'', c_apiKey c)] else [])"

definition list_request :: "Client \<Rightarrow> int \<Rightarrow> int \<Rightarrow> request" where
  "list_request c offset limit =
     \<lparr>rq_url = c_baseURL c @ ''/api/v1/zones'',
      rq_query = [(''fields'', ''summary''), (''offset'', dec_string (nat offset)), (''limit'', dec_string (nat limit))],
      rq_header = auth_header c\<rparr>"

definition listZonesPage ::
  "agent_lib \<Rightarrow> 'w transport \<Rightarrow> Client \<Rightarrow> int \<Rightarrow> int \<Rightarrow> 'w \<Rightarrow> (client_error + listZonesResponse) \<times> 'w" where
  "listZonesPage L T c offset limit w =
     (if \<not> tr_url_ok T (c_baseURL c @ ''/api/v1/zones'') then (Inl ErrRequest, w)
      else case doWithRetry T c (list_request c offset limit) w of
        (Inl e, w') \<Rightarrow> (Inl e, w')
      | (Inr resp, w') \<Rightarrow>
          (if rs_status resp \<noteq> 200 then Inl (ErrStatus (rs_status resp) (readErrorResponseBody resp))
           else bindE (readResponseBody c resp) (\<lambda>body.
                  case lib_Unmarshal L body of None \<Rightarrow> Inl ErrDecode | Some result \<Rightarrow> Inr result), w'))"

definition validateListZonesPagination :: "listZonesResponse \<Rightarrow> int \<Rightarrow> int \<Rightarrow> client_error option" where
  "validateListZonesPagination r expectedOffset expectedLimit =
     fail_if (lz_Offset r \<noteq> expectedOffset) ErrPaginationOffset
       (fail_if (lz_Limit r \<noteq> expectedLimit) ErrPaginationLimit
         (fail_if (lz_Count r < 0) ErrPaginationNegative
           (fail_if (lz_Count r \<noteq> int (length (lz_Zones r))) ErrPaginationCount
             (fail_if (lz_Limit r < lz_Count r) ErrPaginationExceeds None))))"

definition listed :: "ZoneInfo \<Rightarrow> ZoneInfo" where
  "listed z = \<lparr>zi_Name = zi_Name z, zi_Version = zi_Version z, zi_ETag = zi_Version z\<rparr>"

text \<open>The loop ends when the server says so, so it need not end: then the result is \<open>None\<close>.\<close>

partial_function (option) list_loop ::
  "agent_lib \<Rightarrow> 'w transport \<Rightarrow> Client \<Rightarrow> int \<Rightarrow> ZoneInfo list \<Rightarrow> 'w \<Rightarrow> ((client_error + ZoneInfo list) \<times> 'w) option" where
  "list_loop L T c offset zones w =
     (case listZonesPage L T c offset listZonesPageLimit w of
        (Inl e, w') \<Rightarrow> Some (Inl e, w')
      | (Inr result, w') \<Rightarrow>
          let zones' = zones @ map listed (lz_Zones result) in
          if \<not> hasPagination result then Some (Inr zones', w')
          else case validateListZonesPagination result offset listZonesPageLimit of
            Some e \<Rightarrow> Some (Inl e, w')
          | None \<Rightarrow>
              if lz_Count result = 0 \<or> lz_Count result < lz_Limit result then Some (Inr zones', w')
              else list_loop L T c (offset + lz_Count result) zones' w')"

definition ListZones :: "agent_lib \<Rightarrow> 'w transport \<Rightarrow> Client \<Rightarrow> 'w \<Rightarrow> ((client_error + ZoneInfo list) \<times> 'w) option" where
  "ListZones L T c w = list_loop L T c 0 [] w"

subsection \<open>Fetching a signed zone\<close>

text \<open>\<open>url.PathEscape\<close>\<close>

definition upper_hex :: "nat \<Rightarrow> char" where
  "upper_hex n = (if n < 10 then char_of (48 + n) else char_of (55 + n))"

definition path_plain :: "char \<Rightarrow> bool" where
  "path_plain c \<longleftrightarrow> is_alnum c \<or> c \<in> set ''-_.~$&+:=@''"

definition PathEscape :: "string \<Rightarrow> string" where
  "PathEscape s =
     concat (map (\<lambda>c. if path_plain c then [c]
                      else [CHR ''%'', upper_hex (byte c div 16), upper_hex (byte c mod 16)]) s)"

definition conditionalRequestETag :: "agent_lib \<Rightarrow> Client \<Rightarrow> string \<Rightarrow> string \<Rightarrow> string" where
  "conditionalRequestETag L c currentETag currentBody =
     (let requestETag = normalizeIfNoneMatch currentETag; expectedHash = etagValue requestETag in
      if requestETag = [] then []
      else if \<not> c_verifySignatures c then requestETag
      else if currentBody = [] then []
      else if length expectedHash \<noteq> 64 \<or> \<not> isHex expectedHash then []
      else if \<not> EqualFold (lib_sha256hex L currentBody) expectedHash then []
      else requestETag)"

definition fetch_request :: "Client \<Rightarrow> string \<Rightarrow> string \<Rightarrow> request" where
  "fetch_request c zoneName requestETag =
     \<lparr>rq_url = c_baseURL c @ ''/api/v1/zones/'' @ PathEscape zoneName @ ''/signed'', rq_query = [],
      rq_header = auth_header c @ (if requestETag \<noteq> [] then [(''If-None-Match'', requestETag)] else [])\<rparr>"

definition client_signature_error :: "agent_lib \<Rightarrow> Client \<Rightarrow> string \<Rightarrow> response \<Rightarrow> client_error option" where
  "client_signature_error L c body resp =
     (if c_verifySignatures c
      then map_option ErrSignature (verifyArtifactSignature L body (rs_header resp zoneSignatureHeader)
             (rs_header resp zoneSignatureKeyIDHeader) (c_signatureKey c) (c_signatureKeys c))
      else None)"

text \<open>The branch of \<open>fetchSignedZoneArtifact\<close> for a 304 response, and the one for a 200 response.\<close>

definition not_modified ::
  "agent_lib \<Rightarrow> Client \<Rightarrow> string \<Rightarrow> string \<Rightarrow> string \<Rightarrow> response \<Rightarrow> client_error + SignedZoneArtifact" where
  "not_modified L c requestETag currentETag currentBody resp =
     (let responseETag = normalizeIfNoneMatch (rs_header resp ''ETag'');
          zoneHash = rs_header resp ''X-Zone-Hash'' in
      okE (fail_if (requestETag = []) ErrUnconditional304
            (fail_if (responseETag = []) ErrMissingETag
            (fail_if (responseETag \<noteq> requestETag) ErrETagMismatch
            (andthen
               (if c_verifyChecksums c
                then andthen (validateFullChecksumHeader zoneHash)
                       (fail_if (\<not> EqualFold (etagValue responseETag) zoneHash) ErrChecksumMismatch
                       (fail_if (currentBody \<noteq> [] \<and> \<not> EqualFold (lib_sha256hex L currentBody) zoneHash)
                          ErrLocalChecksum None))
                else None)
               (client_signature_error L c currentBody resp)))))
        \<lparr>ar_Content = [], ar_ETag = currentETag, ar_Serial = 0, ar_Hash = [], ar_NotModified = True\<rparr>)"

definition modified :: "agent_lib \<Rightarrow> Client \<Rightarrow> string \<Rightarrow> response \<Rightarrow> client_error + SignedZoneArtifact" where
  "modified L c zoneName resp =
     bindE (readResponseBody c resp) (\<lambda>body.
       let newETag = rs_header resp ''ETag''; zoneHash = rs_header resp ''X-Zone-Hash'' in
       bindE (okE (fail_if (newETag = []) ErrMissingETag
               (andthen
                 (if c_verifyChecksums c
                  then andthen (validateFullChecksumHeader zoneHash)
                         (fail_if (\<not> EqualFold (lib_sha256hex L body) zoneHash) ErrChecksumMismatch None)
                  else None)
                 (client_signature_error L c body resp))) ()) (\<lambda>_.
       case parseZoneSOASerial L zoneName body of
         None \<Rightarrow> Inl ErrSOASerial
       | Some bodySerial \<Rightarrow>
           bindE (parseZoneSerialHeader (rs_header resp ''X-Zone-Serial'')) (\<lambda>headerSerial.
             if headerSerial \<noteq> bodySerial then Inl ErrSerialMismatch
             else Inr \<lparr>ar_Content = body, ar_ETag = newETag, ar_Serial = bodySerial, ar_Hash = zoneHash,
                       ar_NotModified = False\<rparr>)))"

definition fetchSignedZoneArtifact ::
  "agent_lib \<Rightarrow> 'w transport \<Rightarrow> Client \<Rightarrow> string \<Rightarrow> string \<Rightarrow> string \<Rightarrow> 'w
    \<Rightarrow> (client_error + SignedZoneArtifact) \<times> 'w" where
  "fetchSignedZoneArtifact L T c zoneName currentETag currentBody w =
     (let requestETag = conditionalRequestETag L c currentETag currentBody;
          req = fetch_request c zoneName requestETag in
      if \<not> tr_url_ok T (rq_url req) then (Inl ErrRequest, w)
      else case doWithRetry T c req w of
        (Inl e, w') \<Rightarrow> (Inl e, w')
      | (Inr resp, w') \<Rightarrow>
          (if rs_status resp = 304 then not_modified L c requestETag currentETag currentBody resp
           else if rs_status resp \<noteq> 200 then Inl (ErrStatus (rs_status resp) (readErrorResponseBody resp))
           else modified L c zoneName resp, w'))"

definition FetchSignedZoneArtifact ::
  "agent_lib \<Rightarrow> 'w transport \<Rightarrow> Client \<Rightarrow> string \<Rightarrow> string \<Rightarrow> 'w \<Rightarrow> (client_error + SignedZoneArtifact) \<times> 'w" where
  "FetchSignedZoneArtifact L T c zoneName currentETag w = fetchSignedZoneArtifact L T c zoneName currentETag [] w"

definition FetchSignedZoneWithCurrent ::
  "agent_lib \<Rightarrow> 'w transport \<Rightarrow> Client \<Rightarrow> string \<Rightarrow> string \<Rightarrow> string \<Rightarrow> 'w
    \<Rightarrow> (client_error + string \<times> string \<times> bool) \<times> 'w" where
  "FetchSignedZoneWithCurrent L T c zoneName currentETag currentBody w =
     (case fetchSignedZoneArtifact L T c zoneName currentETag currentBody w of
        (Inl e, w') \<Rightarrow> (Inl e, w')
      | (Inr a, w') \<Rightarrow> (Inr (ar_Content a, ar_ETag a, ar_NotModified a), w'))"

subsection \<open>Facts about requests\<close>

lemma retry_loop_Inr:
  "retry_loop T req n k e w = (Inr resp, w') \<Longrightarrow>
     (\<exists>w1. tr_do T req w1 = (Inr resp, w')) \<and> (rs_status resp < 500 \<or> rs_status resp = 304)"
  by (induction T req n k e w rule: retry_loop.induct)
     (auto simp: Let_def split: prod.splits sum.splits option.splits if_splits)

lemma doWithRetry_Inr:
  "doWithRetry T c req w = (Inr resp, w') \<Longrightarrow> \<exists>w1. tr_do T req w1 = (Inr resp, w')"
  by (auto simp: doWithRetry_def dest: retry_loop_Inr)

text \<open>A request that is answered at once, with anything but a server error, is made once.\<close>

lemma doWithRetry_first:
  "0 \<le> c_RetryAttempts c \<Longrightarrow> tr_do T req w = (Inr resp, w') \<Longrightarrow> rs_status resp < 500 \<Longrightarrow>
     doWithRetry T c req w = (Inr resp, w')"
  by (cases "nat (c_RetryAttempts c + 1)") (auto simp: doWithRetry_def)

text \<open>A transport that counts the requests sent through it.\<close>

definition counting :: "'w transport \<Rightarrow> (nat \<times> 'w) transport" where
  "counting T =
     \<lparr>tr_do = (\<lambda>req (n, w). map_prod id (Pair (Suc n)) (tr_do T req w)),
      tr_wait = (\<lambda>(n, w). map_prod id (Pair n) (tr_wait T w)), tr_url_ok = tr_url_ok T\<rparr>"

lemma retry_loop_count:
  "retry_loop (counting T) req left k e (n, w) = (r, (n', w')) \<Longrightarrow> n \<le> n' \<and> n' \<le> n + left"
proof (induction left arbitrary: k e n w)
  case (Suc left)
  obtain canc w1 where s: "(if 0 < k then tr_wait T w else (None, w)) = (canc, w1)" by fastforce
  then have s': "(if 0 < k then tr_wait (counting T) (n, w) else (None, (n, w))) = (canc, (n, w1))"
    by (auto simp: counting_def split: if_splits)
  obtain x w2 where d: "tr_do T req w1 = (x, w2)" by fastforce
  then have d': "tr_do (counting T) req (n, w1) = (x, (Suc n, w2))" by (simp add: counting_def)
  from Suc.prems show ?case
    by (simp add: s' d' split: option.splits sum.splits if_splits) (auto dest: Suc.IH)
qed simp

lemma retry_loop_exhausts:
  assumes "\<And>w. \<exists>e. fst (tr_wait T w) = None \<and> (fst (tr_do T req w) = Inl e)"
  shows "fst (snd (retry_loop (counting T) req left k e (n, w))) = n + left"
proof (induction left arbitrary: k e n w)
  case (Suc left)
  obtain w1 where s: "(if 0 < k then tr_wait T w else (None, w)) = (None, w1)"
    using assms [of w] by (cases "tr_wait T w"; cases "0 < k") auto
  then have s': "(if 0 < k then tr_wait (counting T) (n, w) else (None, (n, w))) = (None, (n, w1))"
    by (auto simp: counting_def split: if_splits)
  obtain x w2 where d: "tr_do T req w1 = (Inl x, w2)" using assms [of w1] by (cases "tr_do T req w1") auto
  then have "tr_do (counting T) req (n, w1) = (Inl x, (Suc n, w2))" by (simp add: counting_def)
  then show ?case by (simp add: s' Suc.IH)
qed simp

subsection \<open>Facts about artifacts\<close>

text \<open>The keys that a client trusts.\<close>

definition trusted_keys :: "Client \<Rightarrow> string set" where
  "trusted_keys c = {TrimSpace (c_signatureKey c)} \<union> (TrimSpace \<circ> snd) ` set (c_signatureKeys c)"

lemma verification_key_trusted:
  assumes "artifactSignatureVerificationKey h legacy ring = Inr key"
  shows "key \<in> {TrimSpace legacy} \<union> (TrimSpace \<circ> snd) ` set ring"
proof (cases "ToLower (TrimSpace h) = []")
  case True
  with assms show ?thesis
    by (auto simp: artifactSignatureVerificationKey_def Let_def split: if_splits list.splits)
next
  case False
  show ?thesis
  proof (cases "map_of ring (ToLower (TrimSpace h))")
    case None
    with assms False None show ?thesis
      by (auto simp: TrimSpace_Nil artifactSignatureVerificationKey_def Let_def split: if_splits)
  next
    case (Some k)
    then have "(ToLower (TrimSpace h), k) \<in> set ring" by (rule map_of_SomeD)
    with assms False Some show ?thesis
      by (force simp: artifactSignatureVerificationKey_def Let_def split: if_splits)
  qed
qed

definition signed_by :: "agent_lib \<Rightarrow> string set \<Rightarrow> string \<Rightarrow> string \<Rightarrow> bool" where
  "signed_by L keys body signatureHeader \<longleftrightarrow>
     (\<exists>key \<in> keys. b64_decode (TrimPrefix (TrimPrefix (TrimSpace signatureHeader) ''sha256='') ''hmac-sha256='')
        = Some (lib_hmac L key body))"

lemma client_signature_ok:
  assumes "client_signature_error L c body resp = None" "c_verifySignatures c"
  shows "signed_by L (trusted_keys c) body (rs_header resp zoneSignatureHeader)"
proof -
  have "verifyArtifactSignature L body (rs_header resp zoneSignatureHeader)
      (rs_header resp zoneSignatureKeyIDHeader) (c_signatureKey c) (c_signatureKeys c) = None"
    using assms by (simp add: client_signature_error_def)
  then obtain key where
    key: "artifactSignatureVerificationKey (rs_header resp zoneSignatureKeyIDHeader) (c_signatureKey c)
      (c_signatureKeys c) = Inr key" and
    d: "b64_decode (TrimPrefix (TrimPrefix (TrimSpace (rs_header resp zoneSignatureHeader)) ''sha256='')
      ''hmac-sha256='') = Some (lib_hmac L key body)"
    by (auto simp: verifyArtifactSignature_def errOf_None split: if_splits option.splits)
  show ?thesis unfolding signed_by_def trusted_keys_def
    using verification_key_trusted [OF key] d by blast
qed

lemma readLimitedBody_Inr:
  assumes "readLimitedBody resp n = Inr body"
  shows "body = rs_body resp \<and> int (length body) \<le> n"
proof -
  have "int (length body) \<le> n" using assms
    by (auto simp: readLimitedBody_def split: option.splits if_splits)
  moreover have "body = rs_body resp"
  proof (cases "n + 1 \<le> int (length (rs_body resp))")
    case True
    then have "body = take (nat (n + 1)) (rs_body resp)" using assms
      by (auto simp: readLimitedBody_def ReadAll_limit_def split: if_splits)
    with True have "int (length body) = n + 1 \<or> n + 1 \<le> 0" by (auto simp: min_def)
    with \<open>int (length body) \<le> n\<close> show ?thesis by auto
  qed (use assms in \<open>auto simp: readLimitedBody_def ReadAll_limit_def split: if_splits\<close>)
  ultimately show ?thesis by blast
qed

lemma readResponseBody_Inr: "readResponseBody c resp = Inr body \<Longrightarrow> body = rs_body resp"
  by (auto simp: readResponseBody_def dest!: readLimitedBody_Inr split: if_splits)

lemma readLimitedBody_ok:
  "int (length (rs_body resp)) \<le> n \<Longrightarrow> \<not> rs_body_fails resp \<Longrightarrow> readLimitedBody resp n = Inr (rs_body resp)"
  by (simp add: readLimitedBody_def ReadAll_limit_def)

lemma modified_Inr:
  assumes "modified L c z resp = Inr a"
  shows "ar_Content a = rs_body resp" "\<not> ar_NotModified a" "ar_ETag a = rs_header resp ''ETag''"
    "ar_ETag a \<noteq> []" "parseZoneSOASerial L z (ar_Content a) = Some (ar_Serial a)"
    "c_verifyChecksums c \<Longrightarrow> length (ar_Hash a) = 64 \<and> EqualFold (lib_sha256hex L (ar_Content a)) (ar_Hash a)"
    "c_verifySignatures c \<Longrightarrow> signed_by L (trusted_keys c) (ar_Content a) (rs_header resp zoneSignatureHeader)"
  using assms client_signature_ok [of L c "rs_body resp" resp]
  by (auto simp: modified_def Let_def validateFullChecksumHeader_def split: if_splits option.splits
      dest!: readResponseBody_Inr)

lemma not_modified_Inr:
  assumes "not_modified L c rt t body resp = Inr a"
  shows "ar_NotModified a" "ar_ETag a = t" "rt \<noteq> []"
    "c_verifyChecksums c \<Longrightarrow> body \<noteq> [] \<Longrightarrow> EqualFold (lib_sha256hex L body) (etagValue rt)"
    "c_verifySignatures c \<Longrightarrow> signed_by L (trusted_keys c) body (rs_header resp zoneSignatureHeader)"
  using assms client_signature_ok [of L c body resp]
  by (auto simp: not_modified_def Let_def EqualFold_def split: if_splits)

lemma fetch_Inr:
  assumes "fetchSignedZoneArtifact L T c z t body w = (Inr a, w')"
  shows "\<exists>w1 resp. tr_do T (fetch_request c z (conditionalRequestETag L c t body)) w1 = (Inr resp, w') \<and>
    (if ar_NotModified a
     then rs_status resp = 304 \<and> not_modified L c (conditionalRequestETag L c t body) t body resp = Inr a
     else rs_status resp = 200 \<and> modified L c z resp = Inr a)"
  using assms
  by (auto simp: fetchSignedZoneArtifact_def Let_def modified_Inr(2) not_modified_Inr(1)
      split: if_splits prod.splits sum.splits dest!: doWithRetry_Inr)

lemma conditionalRequestETag_nonempty:
  assumes "conditionalRequestETag L c t body \<noteq> []"
  shows "t \<noteq> []" "c_verifySignatures c \<Longrightarrow> body \<noteq> []"
proof -
  have "t = [] \<Longrightarrow> normalizeIfNoneMatch t = []" by (simp add: normalizeIfNoneMatch_def TrimSpace_Nil)
  with assms show "t \<noteq> []" by (auto simp: conditionalRequestETag_def Let_def)
  show "c_verifySignatures c \<Longrightarrow> body \<noteq> []" using assms by (auto simp: conditionalRequestETag_def Let_def)
qed

subsection \<open>All pages\<close>

definition page_at :: "ZoneInfo list \<Rightarrow> int \<Rightarrow> listZonesResponse" where
  "page_at all offset =
     (let zs = take (nat listZonesPageLimit) (drop (nat offset) all)
      in \<lparr>lz_Zones = zs, lz_Offset = offset, lz_Limit = listZonesPageLimit, lz_Count = int (length zs)\<rparr>)"

lemma list_loop_complete:
  assumes "\<And>offset. 0 \<le> offset \<Longrightarrow> offset \<le> int (length all) \<Longrightarrow>
      listZonesPage L T c offset listZonesPageLimit w = (Inr (page_at all offset), w)"
    and "k \<le> length all"
  shows "list_loop L T c (int k) zs w = Some (Inr (zs @ map listed (drop k all)), w)"
  using assms(2)
proof (induction "length all - k" arbitrary: k zs rule: less_induct)
  case less
  let ?p = "take 1000 (drop k all)"
  have page: "listZonesPage L T c (int k) listZonesPageLimit w = (Inr (page_at all (int k)), w)"
    using less.prems by (intro assms) simp_all
  have valid: "hasPagination (page_at all (int k))"
    "validateListZonesPagination (page_at all (int k)) (int k) listZonesPageLimit = None"
    by (auto simp: page_at_def hasPagination_def validateListZonesPagination_def listZonesPageLimit_def Let_def)
  show ?case
  proof (cases "length ?p < 1000")
    case True
    then have "?p = drop k all" by auto
    with True show ?thesis
      by (subst list_loop.simps)
         (simp add: page valid, simp add: page_at_def listZonesPageLimit_def Let_def)
  next
    case False
    then have full: "length ?p = 1000" "k + 1000 \<le> length all" by auto
    then have "list_loop L T c (int (k + 1000)) (zs @ map listed ?p) w =
        Some (Inr ((zs @ map listed ?p) @ map listed (drop (k + 1000) all)), w)"
      by (intro less.hyps) simp_all
    moreover have "map listed ?p @ map listed (drop (k + 1000) all) = map listed (drop k all)"
      by (metis add.commute append_take_drop_id drop_drop map_append)
    ultimately show ?thesis using full
      by (subst list_loop.simps)
         (simp add: page valid, simp add: page_at_def listZonesPageLimit_def Let_def)
  qed
qed

text \<open>
  A server that serves the pages of a list: the loop returns, with the whole list in its order.
\<close>

lemma ListZones_complete:
  assumes "\<And>offset. 0 \<le> offset \<Longrightarrow> offset \<le> int (length all) \<Longrightarrow>
      listZonesPage L T c offset listZonesPageLimit w = (Inr (page_at all offset), w)"
  shows "ListZones L T c w = Some (Inr (map listed all), w)"
  using list_loop_complete [OF assms, of 0 "[]"] by (simp add: ListZones_def)

subsection \<open>What the client guarantees\<close>

text \<open>
  Whatever the network and the server do, a zone file that the client hands out is the body of one
  200 response to its request; the serial it reports is the one in the file; with checksums
  on, the file has the announced SHA-256 hash; with signatures on, that response carried a signature of the
  file under one of the configured keys. A 304 response is only accepted for a request that was made
  conditional, and with signatures on only if it carried a signature of the local file.
\<close>

theorem fetched_artifact_verified:
  assumes "fetchSignedZoneArtifact L T c zoneName currentETag currentBody w = (Inr a, w')"
  shows "\<exists>w1 resp. tr_do T (fetch_request c zoneName (conditionalRequestETag L c currentETag currentBody)) w1
      = (Inr resp, w') \<and>
    (if ar_NotModified a
     then rs_status resp = 304 \<and> currentETag \<noteq> [] \<and> ar_ETag a = currentETag
       \<and> (c_verifySignatures c \<longrightarrow> currentBody \<noteq> []
            \<and> signed_by L (trusted_keys c) currentBody (rs_header resp zoneSignatureHeader))
     else rs_status resp = 200 \<and> ar_Content a = rs_body resp \<and> ar_ETag a \<noteq> []
       \<and> parseZoneSOASerial L zoneName (ar_Content a) = Some (ar_Serial a)
       \<and> (c_verifyChecksums c \<longrightarrow> length (ar_Hash a) = 64
            \<and> EqualFold (lib_sha256hex L (ar_Content a)) (ar_Hash a))
       \<and> (c_verifySignatures c \<longrightarrow>
            signed_by L (trusted_keys c) (ar_Content a) (rs_header resp zoneSignatureHeader)))"
proof -
  let ?rt = "conditionalRequestETag L c currentETag currentBody"
  obtain w1 resp where r: "tr_do T (fetch_request c zoneName ?rt) w1 = (Inr resp, w')"
    "if ar_NotModified a then rs_status resp = 304 \<and> not_modified L c ?rt currentETag currentBody resp = Inr a
     else rs_status resp = 200 \<and> modified L c zoneName resp = Inr a"
    using fetch_Inr [OF assms] by blast
  show ?thesis
  proof (cases "ar_NotModified a")
    case True
    with r(2) have n: "rs_status resp = 304" "not_modified L c ?rt currentETag currentBody resp = Inr a" by auto
    note f = not_modified_Inr [OF n(2)]
    show ?thesis using True r(1) n(1) f(2,5) conditionalRequestETag_nonempty [OF f(3)] by auto
  next
    case False
    with r(2) have n: "rs_status resp = 200" "modified L c zoneName resp = Inr a" by auto
    show ?thesis using False r(1) n(1) modified_Inr [OF n(2)] by auto
  qed
qed

text \<open>
  A request is sent at most once more than the configured number of retries, and exactly that often when
  every attempt fails and no context ends the waiting.
\<close>

theorem retries_bounded:
  "fst (snd (doWithRetry (counting T) c req (n, w))) \<le> n + nat (c_RetryAttempts c + 1) \<and>
   ((\<forall>v. fst (tr_wait T v) = None \<and> (\<exists>e. fst (tr_do T req v) = Inl e)) \<longrightarrow>
      fst (snd (doWithRetry (counting T) c req (n, w))) = n + nat (c_RetryAttempts c + 1))"
proof
  obtain r n' w' where d: "doWithRetry (counting T) c req (n, w) = (r, (n', w'))" by (metis prod_cases3)
  then show "fst (snd (doWithRetry (counting T) c req (n, w))) \<le> n + nat (c_RetryAttempts c + 1)"
    using retry_loop_count by (fastforce simp: doWithRetry_def)
qed (use retry_loop_exhausts [of T req] in \<open>auto simp: doWithRetry_def\<close>)

text \<open>A small server and client for the witnesses.\<close>

definition example_lib :: agent_lib where
  "example_lib =
     \<lparr>lib_sha256hex = (\<lambda>s. dec_string (length s mod 10) @ replicate 63 CHR ''a''), lib_hmac = (\<lambda>k m. k @ m),
      lib_ParseBINDZone = (\<lambda>content z. if content = [] then None else Some [Other_RR, SOA_RR (word_of_nat (length content))]),
      lib_Unmarshal = (\<lambda>s. None)\<rparr>"

definition example_client :: Client where
  "example_client =
     \<lparr>c_baseURL = ''http://localhost'', c_apiKey = ''k'', c_RetryAttempts = 2, c_maxResponseBytes = 100,
      c_verifyChecksums = True, c_verifySignatures = True, c_signatureKey = ''key'', c_signatureKeys = []\<rparr>"

definition example_response :: "string \<Rightarrow> response" where
  "example_response body =
     \<lparr>rs_status = 200,
      rs_header = (\<lambda>h. if h = ''ETag'' then ''t'' else if h = ''X-Zone-Serial'' then dec_string (length body)
        else if h = ''X-Zone-Hash'' then lib_sha256hex example_lib body
        else if h = ''X-Zone-Signature'' then artifactSignature example_lib body ''key'' else []),
      rs_body = body, rs_body_fails = False\<rparr>"

definition example_transport :: "string transport" where
  "example_transport = \<lparr>tr_do = (\<lambda>_ w. (Inr (example_response w), w)), tr_wait = (\<lambda>w. (None, w)), tr_url_ok = (\<lambda>_. True)\<rparr>"

definition dead_transport :: "unit transport" where
  "dead_transport = \<lparr>tr_do = (\<lambda>_ w. (Inl ''refused'', w)), tr_wait = (\<lambda>w. (None, w)), tr_url_ok = (\<lambda>_. True)\<rparr>"

theorem fetched_artifact_verified_witness:
  "\<exists>a. fetchSignedZoneArtifact example_lib example_transport example_client ''a.'' [] [] ''soa'' = (Inr a, ''soa'')
     \<and> ar_Content a = ''soa'' \<and> parseZoneSOASerial example_lib ''a.'' (ar_Content a) = Some (ar_Serial a)"
proof -
  have f: "fetchSignedZoneArtifact example_lib example_transport example_client ''a.'' [] [] ''soa'' =
    (Inr \<lparr>ar_Content = ''soa'', ar_ETag = ''t'', ar_Serial = 3, ar_Hash = CHR ''3'' # replicate 63 CHR ''a'',
          ar_NotModified = False\<rparr>, ''soa'')"
    by code_simp
  show ?thesis using fetched_artifact_verified [OF f] by (auto simp: f)
qed

theorem retries_bounded_witness:
  "fst (snd (doWithRetry (counting dead_transport) example_client (list_request example_client 0 1) (0, ()))) = 3"
  using retries_bounded [of dead_transport example_client "list_request example_client 0 1" 0 "()"]
  by (simp add: dead_transport_def example_client_def)

end
