(* ===== verification/Signed_API.thy ===== *)
theory Signed_API
  imports Memory_Store Sync_Client
begin

section \<open>What agents fetch from the controller (internal/controller/api/handler.go)\<close>

text \<open>
  The controller's side of synchronisation: the list of zones and the signed zone files with their
  integrity headers. The store's operations, the signing service, the zone file generator and the
  JSON encoder are fields of the handler. \<open>controller_transport\<close> connects the agent's client to these
  handlers, with the routes of \<open>router.go\<close>.

  The theorems are about both programs together: the agent gets exactly the file that the controller
  publishes, or learns that it already has it, and its list of zones is complete.
\<close>

subsection \<open>Definitions\<close>

record signedZoneResult =
  sz_zoneName :: string
  sz_version :: string
  sz_serial :: uint32
  sz_zoneFile :: string
  sz_dnssecConfig :: "DNSSECConfig option"

datatype signing_error = ErrSignedArtifactUnavailable | ErrSignedArtifactExpired | ErrSigningOther

record 's handler =
  h_get :: "'s \<Rightarrow> string \<Rightarrow> store_error + Zone"
  h_ListZones :: "ListOptions \<Rightarrow> 's \<Rightarrow> store_error + Zone list"
  h_ListZoneSummaries :: "ListOptions \<Rightarrow> 's \<Rightarrow> store_error + ZoneSummary list"
  h_published :: "('s \<Rightarrow> string \<Rightarrow> signing_error + signedZoneResult) option" \<comment> \<open>\<open>GetPublishedSignedZone\<close>\<close>
  h_generate :: "Zone \<Rightarrow> string option" \<comment> \<open>\<open>parser.GenerateBINDZoneFile\<close>\<close>
  h_json_error :: "APIError \<Rightarrow> string"
  h_json_zones :: "Zone list \<Rightarrow> int \<Rightarrow> int \<Rightarrow> int \<Rightarrow> string"
  h_json_summaries :: "ZoneSummary list \<Rightarrow> int \<Rightarrow> int \<Rightarrow> int \<Rightarrow> string"
  h_json_metadata :: "signedZoneResult \<Rightarrow> string \<Rightarrow> string \<Rightarrow> string"
  h_artifactSignatureKey :: string
  h_artifactSignatureKeyID :: string

definition SetArtifactSignatureKey :: "string \<Rightarrow> 's handler \<Rightarrow> 's handler" where
  "SetArtifactSignatureKey key h = h\<lparr>h_artifactSignatureKey := TrimSpace key\<rparr>"

definition SetArtifactSignatureKeyID :: "string \<Rightarrow> 's handler \<Rightarrow> 's handler" where
  "SetArtifactSignatureKeyID keyID h = h\<lparr>h_artifactSignatureKeyID := TrimSpace keyID\<rparr>"

text \<open>\<open>c.Header\<close>, \<open>c.Query\<close> and \<open>c.GetHeader\<close> read an absent entry as the empty string.\<close>

definition entry :: "(string \<times> string) list \<Rightarrow> string \<Rightarrow> string" where
  "entry kvs k = (case map_of kvs k of None \<Rightarrow> [] | Some v \<Rightarrow> v)"

definition reply :: "int \<Rightarrow> (string \<times> string) list \<Rightarrow> string \<Rightarrow> response" where
  "reply status hs body = \<lparr>rs_status = status, rs_header = entry hs, rs_body = body, rs_body_fails = False\<rparr>"

definition reply_error :: "'s handler \<Rightarrow> APIError \<Rightarrow> response" where
  "reply_error h e = reply (int (ae_Status e)) [] (h_json_error h e)"

definition sha256HexAndHash8 :: "agent_lib \<Rightarrow> string \<Rightarrow> string \<times> string" where
  "sha256HexAndHash8 L s =
     (let hexSum = lib_sha256hex L s in if length hexSum < 8 then (hexSum, hexSum) else (hexSum, take 8 hexSum))"

definition signArtifact :: "agent_lib \<Rightarrow> string \<Rightarrow> string \<Rightarrow> string" where
  "signArtifact L body key = b64_encode (lib_hmac L key body)"

definition artifactSignatureHeaders :: "agent_lib \<Rightarrow> 's handler \<Rightarrow> string \<Rightarrow> (string \<times> string) list" where
  "artifactSignatureHeaders L h body =
     (if h_artifactSignatureKey h = [] then []
      else (''X-Zone-Signature'', signArtifact L body (h_artifactSignatureKey h))
           # (if h_artifactSignatureKeyID h \<noteq> [] then [(''X-Zone-Signature-Key-ID'', h_artifactSignatureKeyID h)] else []))"

definition parseListZonesFields :: "string \<Rightarrow> bool option" where
  "parseListZonesFields query =
     (let fields = ToLower (TrimSpace query)
      in if fields = [] \<or> fields = ''full'' then Some False
         else if fields = ''summary'' \<or> fields = ''summaries'' then Some True else None)"

definition api_ListZones :: "'s handler \<Rightarrow> (string \<times> string) list \<Rightarrow> 's \<Rightarrow> response" where
  "api_ListZones h query s =
     (case parsePagination (entry query ''offset'') (entry query ''limit'') 100 of
        Inl e \<Rightarrow> reply_error h e
      | Inr (offset, limit) \<Rightarrow>
          (case parseListZonesFields (entry query ''fields'') of
             None \<Rightarrow> reply_error h (api_error 400 ErrorCodeInvalidInput ''Invalid fields parameter'')
           | Some summaryOnly \<Rightarrow>
               let opts = \<lparr>lo_Limit = limit, lo_Offset = offset, lo_Filter = []\<rparr>;
                   failed = reply_error h (api_error 500 ErrorCodeInternal ''Failed to list zones'') in
               if summaryOnly
               then (case h_ListZoneSummaries h opts s of
                       Inl _ \<Rightarrow> failed
                     | Inr zs \<Rightarrow> reply 200 [] (h_json_summaries h zs offset limit (int (length zs))))
               else (case h_ListZones h opts s of
                       Inl _ \<Rightarrow> failed
                     | Inr zs \<Rightarrow> reply 200 [] (h_json_zones h zs offset limit (int (length zs))))))"

definition signedZoneFile :: "'s handler \<Rightarrow> string \<Rightarrow> Zone \<Rightarrow> 's \<Rightarrow> signing_error + signedZoneResult" where
  "signedZoneFile h name zone s =
     (case h_published h of
        Some published \<Rightarrow> published s name
      | None \<Rightarrow>
          (case h_generate h zone of
             None \<Rightarrow> Inl ErrSigningOther
           | Some f \<Rightarrow> Inr \<lparr>sz_zoneName = z_Name zone, sz_version = z_Version zone,
                             sz_serial = soa_Serial (z_SOA zone), sz_zoneFile = f,
                             sz_dnssecConfig = z_DNSSEC zone\<rparr>))"

definition signedZoneErrorStatus :: "signing_error \<Rightarrow> nat" where
  "signedZoneErrorStatus e =
     (if e = ErrSignedArtifactUnavailable \<or> e = ErrSignedArtifactExpired then 503 else 500)"

definition signedZoneError :: "string \<Rightarrow> signing_error \<Rightarrow> APIError" where
  "signedZoneError message e =
     (if signedZoneErrorStatus e = 503 then api_error 503 ErrorCodeUnavailable message
      else api_error (signedZoneErrorStatus e) ErrorCodeInternal message)"

definition artifact_headers :: "agent_lib \<Rightarrow> signedZoneResult \<Rightarrow> (string \<times> string) list" where
  "artifact_headers L r =
     (let (hashHex, hash8) = sha256HexAndHash8 L (sz_zoneFile r)
      in [(''ETag'', formatETag hashHex), (''X-Zone-Serial'', dec_string (unat (sz_serial r))),
          (''X-Zone-Hash'', hashHex), (''X-Zone-Hash8'', hash8)])"

text \<open>The part that the three artifact handlers share: the zone, and its artifact. The headers
  \<open>Content-Type\<close> and \<open>Content-Disposition\<close>, which no program reads, are left out.\<close>

definition with_artifact ::
  "'s handler \<Rightarrow> string \<Rightarrow> string \<Rightarrow> 's \<Rightarrow> (signedZoneResult \<Rightarrow> response) \<Rightarrow> response" where
  "with_artifact h message name s respond =
     (case h_get h s name of
        Inl ErrZoneNotFound \<Rightarrow> reply_error h (api_error 404 ErrorCodeNotFound ''Zone not found'')
      | Inl _ \<Rightarrow> reply_error h (api_error 500 ErrorCodeInternal ''Failed to retrieve zone'')
      | Inr zone \<Rightarrow>
          (case signedZoneFile h name zone s of
             Inl e \<Rightarrow> reply_error h (signedZoneError message e)
           | Inr r \<Rightarrow> respond r))"

definition api_GetSignedZone :: "agent_lib \<Rightarrow> 's handler \<Rightarrow> string \<Rightarrow> string \<Rightarrow> 's \<Rightarrow> response" where
  "api_GetSignedZone L h name ifNoneMatch s =
     with_artifact h ''Failed to retrieve signed zone'' name s (\<lambda>r.
       let hs = artifact_headers L r @ artifactSignatureHeaders L h (sz_zoneFile r) in
       if ifNoneMatch \<noteq> [] \<and> etagMatches ifNoneMatch (fst (sha256HexAndHash8 L (sz_zoneFile r)))
       then reply 304 hs [] else reply 200 hs (sz_zoneFile r))"

definition api_GetSignedZoneMetadata :: "agent_lib \<Rightarrow> 's handler \<Rightarrow> string \<Rightarrow> string \<Rightarrow> 's \<Rightarrow> response" where
  "api_GetSignedZoneMetadata L h name ifNoneMatch s =
     with_artifact h ''Failed to retrieve signed zone metadata'' name s (\<lambda>r.
       let (hashHex, hash8) = sha256HexAndHash8 L (sz_zoneFile r) in
       if ifNoneMatch \<noteq> [] \<and> etagMatches ifNoneMatch hashHex then reply 304 (artifact_headers L r) []
       else reply 200 (artifact_headers L r) (h_json_metadata h r hashHex hash8))"

definition api_HeadSignedZone :: "agent_lib \<Rightarrow> 's handler \<Rightarrow> string \<Rightarrow> string \<Rightarrow> 's \<Rightarrow> response" where
  "api_HeadSignedZone L h name ifNoneMatch s = (api_GetSignedZone L h name ifNoneMatch s)\<lparr>rs_body := []\<rparr>"

text \<open>The two routes that agents use; names in a path are those that need no escaping.\<close>

definition route :: "agent_lib \<Rightarrow> 's handler \<Rightarrow> string \<Rightarrow> request \<Rightarrow> 's \<Rightarrow> response" where
  "route L h base req s =
     (let zones = base @ ''/api/v1/zones''; name = TrimSuffix (TrimPrefix (rq_url req) (zones @ ''/'')) ''/signed'' in
      if rq_url req = zones then api_ListZones h (rq_query req) s
      else if rq_url req = zones @ ''/'' @ name @ ''/signed'' \<and> list_all path_plain name
      then api_GetSignedZone L h name (entry (rq_header req) ''If-None-Match'') s
      else reply 404 [] [])"

definition controller_transport :: "agent_lib \<Rightarrow> 's handler \<Rightarrow> string \<Rightarrow> 's transport" where
  "controller_transport L h base =
     \<lparr>tr_do = (\<lambda>req s. (Inr (route L h base req s), s)), tr_wait = (\<lambda>s. (None, s)), tr_url_ok = (\<lambda>_. True)\<rparr>"

subsection \<open>Entity tags of digests\<close>

definition lower_hex :: "string \<Rightarrow> bool" where
  "lower_hex h \<longleftrightarrow> length h = 64 \<and> (\<forall>c \<in> set h. is_digit c \<or> 97 \<le> byte c \<and> byte c \<le> 102)"

lemma hex_digest_lower_hex: "hex_digest f \<Longrightarrow> lower_hex (f s)"
  unfolding hex_digest_def lower_hex_def by (fastforce simp: byte_def)

lemma lower_hex_chars:
  assumes "lower_hex h" "c \<in> set h"
  shows "48 \<le> byte c" "byte c < 103" "lower_char c = c" "is_hex c"
proof -
  have c: "48 \<le> byte c \<and> byte c \<le> 57 \<or> 97 \<le> byte c \<and> byte c \<le> 102"
    using assms by (auto simp: lower_hex_def is_digit_def)
  then show "48 \<le> byte c" "byte c < 103" by auto
  show "lower_char c = c" using c by (auto simp: lower_char_def is_upper_def)
  show "is_hex c" using c by (auto simp: is_hex_def hex_val_def is_digit_def)
qed

lemma lower_hex_facts:
  assumes "lower_hex h"
  shows "isHex h" "ToLower h = h" "no_space h" "CHR 0x22 \<notin> set h" "CHR '','' \<notin> set h" "h \<noteq> []" "length h = 64"
  using assms lower_hex_chars [OF assms]
  by (auto simp: isHex_def list_all_iff lower_hex_def ToLower_def no_space_def ascii_space_def
      intro!: map_idI, (fastforce simp: byte_def)+)

lemma formatETag_no_space: "no_space h \<Longrightarrow> no_space (formatETag h)"
  by (auto simp: formatETag_def no_space_def ascii_space_def byte_def)

lemma digest_etag:
  assumes "lower_hex h"
  shows "etagValue (formatETag h) = h" "normalizeIfNoneMatch (formatETag h) = formatETag h"
    "etagMatches (formatETag h) h' \<longleftrightarrow> h = h'"
proof -
  note f = lower_hex_facts [OF assms]
  have t: "TrimSpace (formatETag h) = formatETag h" using f(3) by (simp add: no_space_TrimSpace formatETag_no_space)
  have p: "TrimPrefix (formatETag h) ''W/'' = formatETag h" by (simp add: TrimPrefix_def HasPrefix_def formatETag_def)
  have q: "Trim_quotes (formatETag h) = h" using f(4) by (rule Trim_quotes_formatETag)
  have w: "CHR 0x22 # h @ [CHR 0x22] = formatETag h" "formatETag h \<noteq> []" by (simp_all add: formatETag_def)
  show "etagValue (formatETag h) = h" by (simp add: etagValue_def t p q)
  have "h \<noteq> ''*''" using f(7) by auto
  moreover have "\<not> list_ex (\<lambda>c. c \<in> {CHR 0x22, CHR '','', CHR 0x5C}) h" "\<not> list_ex isInvalidETagChar h"
    using lower_hex_chars(1) [OF assms] lower_hex_chars(2) [OF assms] f(4,5) assms
    by (auto simp: list_ex_iff isInvalidETagChar_def lower_hex_def is_digit_def) (fastforce simp: byte_def)+
  ultimately show "normalizeIfNoneMatch (formatETag h) = formatETag h"
    using f(6) by (simp add: normalizeIfNoneMatch_def t p q w(2) Let_def w(1))
  have "CHR '','' \<notin> set (formatETag h)" "formatETag h \<noteq> ''*''" using f(5) by (auto simp: formatETag_def)
  then show "etagMatches (formatETag h) h' \<longleftrightarrow> h = h'" by (simp add: etagMatches_def split_on_single t p q)
qed

subsection \<open>The published file reaches the agent\<close>

lemma path_plain_route:
  assumes "list_all path_plain z" "z \<noteq> []"
  shows "rq_url req = base @ ''/api/v1/zones/'' @ z @ ''/signed'' \<Longrightarrow>
    route L h base req s = api_GetSignedZone L h z (entry (rq_header req) ''If-None-Match'') s"
proof -
  assume u: "rq_url req = base @ ''/api/v1/zones/'' @ z @ ''/signed''"
  let ?zones = "base @ ''/api/v1/zones''"
  have u': "rq_url req = (?zones @ ''/'') @ (z @ ''/signed'')" using u by simp
  then have n: "TrimSuffix (TrimPrefix (rq_url req) (?zones @ ''/'')) ''/signed'' = z"
    by (simp only: TrimPrefix_append TrimSuffix_append)
  moreover have "rq_url req \<noteq> ?zones" using u by simp
  ultimately show ?thesis using u assms(1) unfolding route_def Let_def by simp
qed

lemma PathEscape_plain: "list_all path_plain z \<Longrightarrow> PathEscape z = z"
  by (induction z) (auto simp: PathEscape_def)

lemma ParseUint32_dec: "n < 2 ^ 32 \<Longrightarrow> ParseUint32 (dec_string n) = Some (word_of_nat n)"
  by (simp add: ParseUint32_def dec_string_digits zless_nat_eq_int_zless [symmetric])

lemma parse_serial_header: "parseZoneSerialHeader (dec_string (unat (n :: uint32))) = Inr n"
proof -
  have "unat n < 2 ^ 32" using unsigned_less [of n, where 'a = nat] by simp
  then show ?thesis using no_space_TrimSpace [OF dec_string_no_space, of "unat n"]
    by (simp add: parseZoneSerialHeader_def ParseUint32_dec)
qed

lemma signature_headers:
  "entry (artifact_headers L r @ artifactSignatureHeaders L h f) zoneSignatureHeader =
     (if h_artifactSignatureKey h = [] then [] else signArtifact L f (h_artifactSignatureKey h))"
  "entry (artifact_headers L r @ artifactSignatureHeaders L h f) zoneSignatureKeyIDHeader =
     (if h_artifactSignatureKey h = [] then [] else h_artifactSignatureKeyID h)"
  by (simp_all add: entry_def artifact_headers_def artifactSignatureHeaders_def sha256HexAndHash8_def
      zoneSignatureHeader_def zoneSignatureKeyIDHeader_def Let_def)

lemma hash_headers:
  assumes "lower_hex (lib_sha256hex L (sz_zoneFile r))"
  shows "entry (artifact_headers L r @ hs) ''ETag'' = formatETag (lib_sha256hex L (sz_zoneFile r))"
    "entry (artifact_headers L r @ hs) ''X-Zone-Hash'' = lib_sha256hex L (sz_zoneFile r)"
    "entry (artifact_headers L r @ hs) ''X-Zone-Serial'' = dec_string (unat (sz_serial r))"
    "fst (sha256HexAndHash8 L (sz_zoneFile r)) = lib_sha256hex L (sz_zoneFile r)"
  using lower_hex_facts(7) [OF assms]
  by (simp_all add: entry_def artifact_headers_def sha256HexAndHash8_def Let_def)

text \<open>What the controller signs, an agent that resolves the key identifier to the same key accepts.\<close>

definition keys_agree :: "'s handler \<Rightarrow> Client \<Rightarrow> bool" where
  "keys_agree h c \<longleftrightarrow> h_artifactSignatureKey h \<noteq> [] \<and>
     artifactSignatureVerificationKey (h_artifactSignatureKeyID h) (c_signatureKey c) (c_signatureKeys c)
       = Inr (h_artifactSignatureKey h)"

lemma b64_encode_plain:
  assumes "length t = 32"
  shows "TrimSpace (b64_encode t) = b64_encode t" "TrimPrefix (b64_encode t) ''sha256='' = b64_encode t"
    "TrimPrefix (b64_encode t) ''hmac-sha256='' = b64_encode t"
proof -
  let ?s = "b64_encode t"
  have c: "43 \<le> byte c \<and> byte c < 123" if "c \<in> set ?s" for c using that by (rule b64_encode_chars)
  then have "no_space ?s" by (fastforce simp: no_space_def ascii_space_def)
  then show "TrimSpace ?s = ?s" by (rule no_space_TrimSpace)
  have v: "b64_val (?s ! i) \<noteq> None" if "i < 12" for i
    using b64_encode_digits [of i t] that assms by simp
  have "b64_val CHR ''='' = None" "b64_val CHR ''-'' = None" by (simp_all add: b64_val_def char_class_defs)
  then have d: "?s ! 6 \<noteq> CHR ''=''" "?s ! 4 \<noteq> CHR ''-''" using v [of 6] v [of 4] by auto
  have p: "p ! i = u ! i" if "HasPrefix u p" "i < length p" for i u and p :: string
    using that by (auto simp: HasPrefix_iff nth_append)
  show "TrimPrefix ?s ''sha256='' = ?s" using p [of ?s "''sha256=''" 6] d(1) by (auto simp: TrimPrefix_def)
  show "TrimPrefix ?s ''hmac-sha256='' = ?s" using p [of ?s "''hmac-sha256=''" 4] d(2) by (auto simp: TrimPrefix_def)
qed

lemma verify_signArtifact:
  assumes "keys_agree h c" "\<And>k m. length (lib_hmac L k m) = 32"
  shows "verifyArtifactSignature L f (signArtifact L f (h_artifactSignatureKey h)) (h_artifactSignatureKeyID h)
    (c_signatureKey c) (c_signatureKeys c) = None"
proof -
  have "lib_hmac L (h_artifactSignatureKey h) f \<noteq> []" using assms(2) by (metis length_0_conv zero_neq_numeral)
  then show ?thesis using assms(1) b64_encode_plain [OF assms(2)]
    by (simp add: verifyArtifactSignature_def keys_agree_def signArtifact_def)
qed

text \<open>
  \<open>published h s z r\<close>: the controller in state \<open>s\<close> publishes the artifact \<open>r\<close> for the zone \<open>z\<close>.
\<close>

definition published :: "'s handler \<Rightarrow> 's \<Rightarrow> string \<Rightarrow> signedZoneResult \<Rightarrow> bool" where
  "published h s z r \<longleftrightarrow> (\<exists>zone. h_get h s z = Inr zone \<and> signedZoneFile h z zone s = Inr r)"

lemma api_GetSignedZone_published:
  assumes "published h s z r" "lower_hex (lib_sha256hex L (sz_zoneFile r))"
  shows "api_GetSignedZone L h z m s =
    (let hs = artifact_headers L r @ artifactSignatureHeaders L h (sz_zoneFile r) in
     if m \<noteq> [] \<and> etagMatches m (lib_sha256hex L (sz_zoneFile r)) then reply 304 hs [] else reply 200 hs (sz_zoneFile r))"
  using assms(1) hash_headers(4) [OF assms(2)]
  by (auto simp: published_def api_GetSignedZone_def with_artifact_def Let_def)

text \<open>What an agent needs so that it accepts the artifact.\<close>

definition acceptable :: "agent_lib \<Rightarrow> 's handler \<Rightarrow> Client \<Rightarrow> string \<Rightarrow> signedZoneResult \<Rightarrow> bool" where
  "acceptable L h c z r \<longleftrightarrow>
     0 \<le> c_RetryAttempts c \<and> int (length (sz_zoneFile r)) \<le> c_maxResponseBytes c \<and> 0 < c_maxResponseBytes c
     \<and> sz_zoneFile r \<noteq> [] \<and> parseZoneSOASerial L z (sz_zoneFile r) = Some (sz_serial r)
     \<and> (c_verifySignatures c \<longrightarrow> keys_agree h c)"

definition artifact_of :: "agent_lib \<Rightarrow> signedZoneResult \<Rightarrow> SignedZoneArtifact" where
  "artifact_of L r =
     \<lparr>ar_Content = sz_zoneFile r, ar_ETag = formatETag (lib_sha256hex L (sz_zoneFile r)), ar_Serial = sz_serial r,
      ar_Hash = lib_sha256hex L (sz_zoneFile r), ar_NotModified = False\<rparr>"

lemma signature_accepted:
  assumes "acceptable L h c z r" "\<And>k m. length (lib_hmac L k m) = 32"
    and "rs_header resp = entry (artifact_headers L r @ artifactSignatureHeaders L h f)"
  shows "client_signature_error L c f resp = None"
  using assms verify_signArtifact [of h c L f]
  by (auto simp: client_signature_error_def signature_headers acceptable_def keys_agree_def)

lemma modified_accepts:
  assumes "acceptable L h c z r" "\<And>k m. length (lib_hmac L k m) = 32" "hex_digest (lib_sha256hex L)"
    and resp: "resp = reply 200 (artifact_headers L r @ artifactSignatureHeaders L h (sz_zoneFile r)) (sz_zoneFile r)"
  shows "modified L c z resp = Inr (artifact_of L r)"
proof -
  have hex: "lower_hex (lib_sha256hex L (sz_zoneFile r))" using assms(3) by (rule hex_digest_lower_hex)
  note f = lower_hex_facts [OF hex]
  have hd: "rs_header resp = entry (artifact_headers L r @ artifactSignatureHeaders L h (sz_zoneFile r))"
    by (simp add: resp reply_def)
  have body: "readResponseBody c resp = Inr (sz_zoneFile r)"
    using assms(1) by (simp add: readResponseBody_def acceptable_def readLimitedBody_ok resp reply_def)
  have "formatETag (lib_sha256hex L (sz_zoneFile r)) \<noteq> []" by (simp add: formatETag_def)
  then show ?thesis using assms(1) f hash_headers [OF hex] signature_accepted [OF assms(1,2) hd]
    by (simp add: modified_def body hd artifact_of_def acceptable_def validateFullChecksumHeader_def EqualFold_def
        parse_serial_header Let_def)
qed

definition unchanged_artifact :: "agent_lib \<Rightarrow> string \<Rightarrow> SignedZoneArtifact" where
  "unchanged_artifact L f =
     \<lparr>ar_Content = [], ar_ETag = formatETag (lib_sha256hex L f), ar_Serial = 0, ar_Hash = [], ar_NotModified = True\<rparr>"

lemma not_modified_accepts:
  assumes "acceptable L h c z r" "\<And>k m. length (lib_hmac L k m) = 32" "hex_digest (lib_sha256hex L)"
    and resp: "resp = reply 304 (artifact_headers L r @ artifactSignatureHeaders L h (sz_zoneFile r)) []"
    and t: "t = formatETag (lib_sha256hex L (sz_zoneFile r))"
  shows "not_modified L c t t (sz_zoneFile r) resp = Inr (unchanged_artifact L (sz_zoneFile r))"
proof -
  have hex: "lower_hex (lib_sha256hex L (sz_zoneFile r))" using assms(3) by (rule hex_digest_lower_hex)
  have hd: "rs_header resp = entry (artifact_headers L r @ artifactSignatureHeaders L h (sz_zoneFile r))"
    by (simp add: resp reply_def)
  have "t \<noteq> []" by (simp add: t formatETag_def)
  then show ?thesis using lower_hex_facts [OF hex] hash_headers [OF hex] signature_accepted [OF assms(1,2) hd]
      digest_etag [OF hex]
    by (simp add: not_modified_def hd unchanged_artifact_def validateFullChecksumHeader_def EqualFold_def t Let_def)
qed

lemma conditional_digest:
  assumes "hex_digest (lib_sha256hex L)"
  shows "conditionalRequestETag L c (formatETag (lib_sha256hex L b)) b =
    (if c_verifySignatures c \<and> b = [] then [] else formatETag (lib_sha256hex L b))"
    "conditionalRequestETag L c [] b' = []"
proof -
  have hex: "lower_hex (lib_sha256hex L b)" using assms by (rule hex_digest_lower_hex)
  show "conditionalRequestETag L c (formatETag (lib_sha256hex L b)) b =
    (if c_verifySignatures c \<and> b = [] then [] else formatETag (lib_sha256hex L b))"
    using lower_hex_facts [OF hex] digest_etag [OF hex]
    by (simp add: conditionalRequestETag_def EqualFold_def Let_def)
  show "conditionalRequestETag L c [] b' = []"
    by (simp add: conditionalRequestETag_def normalizeIfNoneMatch_def TrimSpace_Nil)
qed

lemma fetch_from_controller:
  fixes h :: "'s handler"
  assumes "list_all path_plain z" "z \<noteq> []" "0 \<le> c_RetryAttempts c"
    and rt: "rt = conditionalRequestETag L c t b"
    and resp: "resp = api_GetSignedZone L h z rt s" "rs_status resp < 500"
  shows "fetchSignedZoneArtifact L (controller_transport L h (c_baseURL c)) c z t b s =
    (if rs_status resp = 304 then not_modified L c rt t b resp
     else if rs_status resp \<noteq> 200 then Inl (ErrStatus (rs_status resp) (readErrorResponseBody resp))
     else modified L c z resp, s)"
proof -
  let ?req = "fetch_request c z rt"
  have url: "rq_url ?req = c_baseURL c @ ''/api/v1/zones/'' @ z @ ''/signed''"
    by (simp add: fetch_request_def PathEscape_plain [OF assms(1)])
  have "entry (rq_header ?req) ''If-None-Match'' = rt"
    by (simp add: fetch_request_def auth_header_def entry_def)
  then have "tr_do (controller_transport L h (c_baseURL c)) ?req s = (Inr resp, s)"
    using path_plain_route [OF assms(1,2) url] by (simp add: controller_transport_def resp(1))
  then have "doWithRetry (controller_transport L h (c_baseURL c)) c ?req s = (Inr resp, s)"
    using assms(3) resp(2) by (intro doWithRetry_first)
  then show ?thesis
    by (simp add: fetchSignedZoneArtifact_def Let_def flip: rt) (simp add: controller_transport_def)
qed

text \<open>
  C7: The agent's client and the controller's handlers agree. An agent that asks for a zone gets exactly the
  file that the controller publishes, with its serial and hash, whether it has no local file or an older
  one; when its local file is the published one it is told so, and accepts the answer. Checksums and
  signatures may be on or off: what the controller signs passes the agent's checks. SHA-256 digests are 64
  lower-case hexadecimal digits and HMAC values have 32 bytes; the local file does not collide with the
  published one.
\<close>

theorem agent_gets_published_file:
  assumes "hex_digest (lib_sha256hex L)" "\<forall>k m. length (lib_hmac L k m) = 32"
    and "published h s z r" "acceptable L h c z r" "list_all path_plain z" "z \<noteq> []"
    and "\<forall>b. current = Some b \<and> lib_sha256hex L b = lib_sha256hex L (sz_zoneFile r) \<longrightarrow> b = sz_zoneFile r"
  shows "fetchSignedZoneArtifact L (controller_transport L h (c_baseURL c)) c z
      (case current of None \<Rightarrow> [] | Some b \<Rightarrow> formatETag (lib_sha256hex L b))
      (case current of None \<Rightarrow> [] | Some b \<Rightarrow> b) s
    = (Inr (if current = Some (sz_zoneFile r) then unchanged_artifact L (sz_zoneFile r) else artifact_of L r), s)"
proof -
  let ?f = "sz_zoneFile r"
  let ?hs = "artifact_headers L r @ artifactSignatureHeaders L h ?f"
  have hex: "lower_hex (lib_sha256hex L b)" for b using assms(1) by (rule hex_digest_lower_hex)
  have mac: "\<And>k m. length (lib_hmac L k m) = 32" using assms(2) by blast
  have ra: "0 \<le> c_RetryAttempts c" and ne: "?f \<noteq> []" using assms(4) by (auto simp: acceptable_def)
  define t where "t = (case current of None \<Rightarrow> [] | Some b \<Rightarrow> formatETag (lib_sha256hex L b))"
  define b where "b = (case current of None \<Rightarrow> [] | Some b \<Rightarrow> b)"
  define rt where "rt = conditionalRequestETag L c t b"
  have rt': "rt = (if current = None \<or> c_verifySignatures c \<and> b = [] then [] else formatETag (lib_sha256hex L b))"
    using conditional_digest [OF assms(1), of c b] by (cases current) (auto simp: rt_def t_def b_def conditional_digest [OF assms(1)])
  have q: "rt \<noteq> [] \<and> etagMatches rt (lib_sha256hex L ?f) \<longleftrightarrow> current = Some ?f"
    using digest_etag(3) [OF hex] assms(7) ne by (cases current) (auto simp: rt' b_def formatETag_def)
  have resp: "api_GetSignedZone L h z rt s = (if current = Some ?f then reply 304 ?hs [] else reply 200 ?hs ?f)"
    using api_GetSignedZone_published [OF assms(3) hex, of rt] q by (simp add: Let_def)
  show ?thesis
  proof (cases "current = Some ?f")
    case True
    then have tb: "t = formatETag (lib_sha256hex L ?f)" "b = ?f" by (simp_all add: t_def b_def)
    then have "rt = t" using True ne by (simp add: rt')
    moreover have "fetchSignedZoneArtifact L (controller_transport L h (c_baseURL c)) c z t b s =
        (not_modified L c rt t b (reply 304 ?hs []), s)"
      using fetch_from_controller [OF assms(5,6) ra rt_def resp [symmetric]] True by (simp add: reply_def)
    ultimately show ?thesis
      using True not_modified_accepts [OF assms(4) mac assms(1) refl tb(1)] unfolding t_def [symmetric] b_def [symmetric]
      by (simp add: tb(2))
  next
    case False
    then have "fetchSignedZoneArtifact L (controller_transport L h (c_baseURL c)) c z t b s =
        (modified L c z (reply 200 ?hs ?f), s)"
      using fetch_from_controller [OF assms(5,6) ra rt_def resp [symmetric]] by (simp add: reply_def)
    then show ?thesis
      using False modified_accepts [OF assms(4) mac assms(1) refl] unfolding t_def [symmetric] b_def [symmetric] by simp
  qed
qed

subsection \<open>The whole list reaches the agent\<close>

definition zone_info :: "ZoneSummary \<Rightarrow> ZoneInfo" where
  "zone_info z = \<lparr>zi_Name = zs_Name z, zi_Version = zs_Version z, zi_ETag = []\<rparr>"

text \<open>Decoding the list undoes encoding it, and the encoded pages fit into a response.\<close>

definition pages_ok :: "agent_lib \<Rightarrow> 's handler \<Rightarrow> Client \<Rightarrow> ZoneSummary list \<Rightarrow> bool" where
  "pages_ok L h c ss \<longleftrightarrow> 0 \<le> c_RetryAttempts c \<and> 0 < c_maxResponseBytes c \<and>
     (\<forall>k \<le> length ss.
        let zs = take 1000 (drop k ss); body = h_json_summaries h zs (int k) 1000 (int (length zs)) in
        lib_Unmarshal L body =
          Some \<lparr>lz_Zones = map zone_info zs, lz_Offset = int k, lz_Limit = 1000, lz_Count = int (length zs)\<rparr>
        \<and> int (length body) \<le> c_maxResponseBytes c)"

lemma pages_okD:
  assumes "pages_ok L h c ss" "0 \<le> k" "k \<le> int (length ss)"
    and zs: "zs = take 1000 (drop (nat k) ss)" and body: "body = h_json_summaries h zs k 1000 (int (length zs))"
  shows "0 \<le> c_RetryAttempts c" "0 < c_maxResponseBytes c" "int (length body) \<le> c_maxResponseBytes c"
    "lib_Unmarshal L body =
       Some \<lparr>lz_Zones = map zone_info zs, lz_Offset = k, lz_Limit = 1000, lz_Count = int (length zs)\<rparr>"
proof -
  have "nat k \<le> length ss" using assms(2,3) by simp
  with assms(1) have "let zs = take 1000 (drop (nat k) ss);
      body = h_json_summaries h zs (int (nat k)) 1000 (int (length zs)) in
      lib_Unmarshal L body =
        Some \<lparr>lz_Zones = map zone_info zs, lz_Offset = int (nat k), lz_Limit = 1000, lz_Count = int (length zs)\<rparr>
      \<and> int (length body) \<le> c_maxResponseBytes c"
    unfolding pages_ok_def by blast
  then show "int (length body) \<le> c_maxResponseBytes c"
    "lib_Unmarshal L body =
       Some \<lparr>lz_Zones = map zone_info zs, lz_Offset = k, lz_Limit = 1000, lz_Count = int (length zs)\<rparr>"
    using assms(2) by (simp_all add: zs body Let_def)
qed (use assms(1) in \<open>simp_all add: pages_ok_def\<close>)

lemma page_take: "0 \<le> k \<Longrightarrow> page \<lparr>lo_Limit = 1000, lo_Offset = k, lo_Filter = []\<rparr> xs = take 1000 (drop (nat k) xs)"
  by (auto simp: page_def Let_def)

lemma parsePagination_dec:
  "k < 2 ^ 63 \<Longrightarrow> parsePagination (dec_string k) (dec_string 1000) d = Inr (int k, 1000)"
  using Atoi_dec_string [of 1000] by (simp add: parsePagination_def)

lemma list_page_from_controller:
  assumes ok: "pages_ok L h c zs"
    and store: "\<And>opts. h_ListZoneSummaries h opts s = Inr (page opts zs)"
    and k: "0 \<le> k" "k \<le> int (length zs)" "int (length zs) < 2 ^ 63"
  shows "listZonesPage L (controller_transport L h (c_baseURL c)) c k listZonesPageLimit s =
    (Inr (page_at (map zone_info zs) k), s)"
proof -
  let ?T = "controller_transport L h (c_baseURL c)"
  let ?req = "list_request c k listZonesPageLimit"
  let ?p = "take 1000 (drop (nat k) zs)"
  let ?body = "h_json_summaries h ?p k 1000 (int (length ?p))"
  note ok' = pages_okD [OF ok k(1,2) refl refl]
  have fields: "parseListZonesFields ''summary'' = Some True" by code_simp
  have "nat k < 2 ^ 63" using k by (simp add: nat_less_iff)
  then have pp: "parsePagination (dec_string (nat k)) (dec_string 1000) 100 = Inr (k, 1000)"
    using parsePagination_dec [of "nat k" 100] k(1) by simp
  have "tr_do ?T ?req s = (Inr (reply 200 [] ?body), s)"
    using k(1) by (simp add: controller_transport_def route_def list_request_def api_ListZones_def entry_def
        listZonesPageLimit_def fields pp store page_take Let_def)
  then have "doWithRetry ?T c ?req s = (Inr (reply 200 [] ?body), s)"
    using ok'(1) by (intro doWithRetry_first) (simp_all add: reply_def)
  moreover have "readResponseBody c (reply 200 [] ?body) = Inr ?body"
    using ok'(2,3) by (simp add: readResponseBody_def readLimitedBody_ok reply_def)
  moreover have "tr_url_ok ?T u" for u by (simp add: controller_transport_def)
  ultimately show ?thesis using ok'(4)
    by (simp add: listZonesPage_def reply_def page_at_def listZonesPageLimit_def Let_def take_map drop_map)
qed


subsection \<open>A controller and an agent\<close>

definition wire_lib :: agent_lib where
  "wire_lib =
     \<lparr>lib_sha256hex = (\<lambda>s. replicate 64 (if s = ''old'' then CHR ''b'' else CHR ''a'')),
      lib_hmac = (\<lambda>k m. replicate 32 CHR ''m''),
      lib_ParseBINDZone = (\<lambda>content z. Some [SOA_RR 2024010101]),
      lib_Unmarshal = (\<lambda>body.
        if body = ''full'' then Some \<lparr>lz_Zones = [\<lparr>zi_Name = ''ex.'', zi_Version = ''v1'', zi_ETag = []\<rparr>],
          lz_Offset = 0, lz_Limit = 1000, lz_Count = 1\<rparr>
        else Some \<lparr>lz_Zones = [], lz_Offset = 1, lz_Limit = 1000, lz_Count = 0\<rparr>)\<rparr>"

definition example_handler :: "MemoryBackend handler" where
  "example_handler =
     \<lparr>h_get = mem_GetZone, h_ListZones = (\<lambda>opts m. Inr (mem_ListZones m opts)),
      h_ListZoneSummaries = (\<lambda>opts m. Inr (mem_ListZoneSummaries m opts)), h_published = None,
      h_generate = (\<lambda>z. Some ''new''), h_json_error = (\<lambda>_. ''error''), h_json_zones = (\<lambda>_ _ _ _. ''zones''),
      h_json_summaries = (\<lambda>zs _ _ _. if zs = [] then ''empty'' else ''full''), h_json_metadata = (\<lambda>_ _ _. []),
      h_artifactSignatureKey = ''key'', h_artifactSignatureKeyID = []\<rparr>"

theorem agent_gets_published_file_witness:
  "\<exists>a. fetchSignedZoneArtifact wire_lib (controller_transport wire_lib example_handler ''http://localhost'') example_client
     ''ex.'' (formatETag (replicate 64 CHR ''b'')) ''old'' example_store = (Inr a, example_store)
   \<and> ar_Content a = ''new'' \<and> ar_Serial a = 2024010101"
proof -
  define r where "r = \<lparr>sz_zoneName = ''ex.'', sz_version = ''v1'', sz_serial = 2024010101, sz_zoneFile = ''new'',
    sz_dnssecConfig = z_DNSSEC example_zone\<rparr>"
  have dig: "hex_digest (lib_sha256hex wire_lib)" by (auto simp: hex_digest_def wire_lib_def)
  have g: "mem_GetZone example_store ''ex.'' = Inr example_zone" by code_simp
  then have pub: "published example_handler example_store ''ex.'' r"
    by (auto simp: published_def example_handler_def signedZoneFile_def r_def example_zone_def example_soa_def)
  have "keys_agree example_handler example_client" by code_simp
  then have acc: "acceptable wire_lib example_handler example_client ''ex.'' r"
    by (simp add: acceptable_def example_client_def r_def parseZoneSOASerial_def wire_lib_def)
  have plain: "list_all path_plain ''ex.''" by code_simp
  have "c_baseURL example_client = ''http://localhost''" by (simp add: example_client_def)
  moreover have "lib_sha256hex wire_lib ''old'' = replicate 64 CHR ''b''"
    "lib_sha256hex wire_lib ''old'' \<noteq> lib_sha256hex wire_lib ''new''" by (simp_all add: wire_lib_def)
  ultimately show ?thesis
    using agent_gets_published_file [OF dig _ pub acc plain, of "Some ''old''"]
    by (simp add: r_def artifact_of_def) (simp add: wire_lib_def)
qed


end
