(* ===== verification/Fs_Monad.thy ===== *)
theory Fs_Monad
  imports Go_Conv "HOL-Library.AList"
begin

section \<open>System calls that can fail\<close>

text \<open>
  One directory as the file manager of an agent sees it, and computations over it that change it and
  may fail. The state has the entries of the directory by name, the state of the directory itself, the free
  space, a clock for modification times, the random numbers that \<open>os.CreateTemp\<close> draws, and a list that says of
  each coming system call whether it fails; calls beyond its end succeed. Quantifying over states
  quantifies over all patterns of failure.

  Properties are triples \<open>ensures P m Q E\<close>: from a state with \<open>P\<close>, a run of \<open>m\<close> that returns \<open>x\<close> ends with
  \<open>Q x\<close>, and one that returns the error \<open>e\<close> ends with \<open>E e\<close>. The rules follow the text of a computation.
\<close>

subsection \<open>State and errors\<close>

datatype node = Regular (n_data: string) (n_perm: nat) (n_mtime: int) | Special (n_symlink: bool)

datatype dir_state = DirMissing | DirPresent | DirSymlink | DirOther

record fs =
  fs_files :: "(string \<times> node) list"
  fs_dir :: dir_state
  fs_free :: int
  fs_clock :: int
  fs_rand :: "nat list"
  fs_faults :: "bool list"

datatype fs_error =
    NotExist | Fault | NotRegular | TooLarge | NotDirectory | NoSpace | NoTempName | BadIndex
  | Invalid string | Wrapped string fs_error | Joined "fs_error list"

type_synonym 'a io = "fs \<Rightarrow> (fs_error + 'a) \<times> fs"

subsection \<open>Combinators\<close>

definition ret :: "'a \<Rightarrow> 'a io" where "ret x s = (Inr x, s)"

definition throw :: "fs_error \<Rightarrow> 'a io" where "throw e s = (Inl e, s)"

definition bindIO :: "'a io \<Rightarrow> ('a \<Rightarrow> 'b io) \<Rightarrow> 'b io" where
  "bindIO m f s = (case m s of (Inl e, s') \<Rightarrow> (Inl e, s') | (Inr x, s') \<Rightarrow> f x s')"

text \<open>The outcome of a computation as a value, for the errors that the code handles.\<close>

definition attempt :: "'a io \<Rightarrow> (fs_error + 'a) io" where
  "attempt m s = (case m s of (r, s') \<Rightarrow> (Inr r, s'))"

definition wrap :: "string \<Rightarrow> 'a io \<Rightarrow> 'a io" where
  "wrap msg m = bindIO (attempt m) (\<lambda>r. case r of Inl e \<Rightarrow> throw (Wrapped msg e) | Inr x \<Rightarrow> ret x)"

text \<open>\<open>errors.Join\<close> of the errors of a list of computations, all of which run.\<close>

definition ignore :: "'a io \<Rightarrow> unit io" where
  "ignore m = bindIO (attempt m) (\<lambda>_. ret ())"

definition join_errors :: "fs_error list \<Rightarrow> unit io" where
  "join_errors es = (if es = [] then ret () else throw (Joined es))"

definition errs :: "fs_error + 'a \<Rightarrow> fs_error list" where
  "errs r = (case r of Inl e \<Rightarrow> [e] | Inr _ \<Rightarrow> [])"

fun each :: "('a \<Rightarrow> unit io) \<Rightarrow> 'a list \<Rightarrow> unit io" where
  "each f [] = ret ()"
| "each f (x # xs) = bindIO (f x) (\<lambda>_. each f xs)"

subsection \<open>System calls\<close>

definition syscall :: "unit io" where
  "syscall s = (case fs_faults s of
      [] \<Rightarrow> (Inr (), s)
    | b # bs \<Rightarrow> (if b then Inl Fault else Inr (), s\<lparr>fs_faults := bs\<rparr>))"

definition os_Lstat :: "string \<Rightarrow> node io" where
  "os_Lstat name = bindIO syscall (\<lambda>_ s.
     case map_of (fs_files s) name of None \<Rightarrow> (Inl NotExist, s) | Some nd \<Rightarrow> (Inr nd, s))"

definition os_Remove :: "string \<Rightarrow> unit io" where
  "os_Remove name = bindIO syscall (\<lambda>_ s.
     case map_of (fs_files s) name of
       None \<Rightarrow> (Inl NotExist, s) | Some _ \<Rightarrow> (Inr (), s\<lparr>fs_files := AList.delete name (fs_files s)\<rparr>))"

definition os_Rename :: "string \<Rightarrow> string \<Rightarrow> unit io" where
  "os_Rename old new = bindIO syscall (\<lambda>_ s.
     case map_of (fs_files s) old of
       None \<Rightarrow> (Inl NotExist, s)
     | Some nd \<Rightarrow> (Inr (), s\<lparr>fs_files := AList.update new nd (AList.delete old (fs_files s))\<rparr>))"

text \<open>The first drawn number whose name is free.\<close>

fun temp_name :: "string list \<Rightarrow> string \<Rightarrow> string \<Rightarrow> nat list \<Rightarrow> (string \<times> nat list) option" where
  "temp_name taken pre suf [] = None"
| "temp_name taken pre suf (r # rs) =
     (let name = pre @ dec_string r @ suf
      in if name \<in> set taken then temp_name taken pre suf rs else Some (name, rs))"

definition os_CreateTemp :: "string \<Rightarrow> string \<Rightarrow> string io" where
  "os_CreateTemp pre suf = bindIO syscall (\<lambda>_ s.
     case temp_name (map fst (fs_files s)) pre suf (fs_rand s) of
       None \<Rightarrow> (Inl NoTempName, s\<lparr>fs_rand := []\<rparr>)
     | Some (name, rs) \<Rightarrow>
         (Inr name, s\<lparr>fs_rand := rs, fs_files := AList.update name (Regular [] 384 (fs_clock s)) (fs_files s)\<rparr>))"

text \<open>Changing the mode and the content of an open file.\<close>

definition file_Chmod :: "string \<Rightarrow> nat \<Rightarrow> unit io" where
  "file_Chmod name perm = bindIO syscall (\<lambda>_ s.
     case map_of (fs_files s) name of
       Some (Regular d p t) \<Rightarrow> (Inr (), s\<lparr>fs_files := AList.update name (Regular d perm t) (fs_files s)\<rparr>)
     | _ \<Rightarrow> (Inr (), s))"

definition file_Write :: "string \<Rightarrow> string \<Rightarrow> unit io" where
  "file_Write name data = bindIO syscall (\<lambda>_ s.
     case map_of (fs_files s) name of
       Some (Regular d p t) \<Rightarrow>
         (Inr (), s\<lparr>fs_files := AList.update name (Regular (d @ data) p (fs_clock s)) (fs_files s), fs_clock := fs_clock s + 1\<rparr>)
     | _ \<Rightarrow> (Inr (), s))"

definition os_MkdirAll :: "unit io" where
  "os_MkdirAll = bindIO syscall (\<lambda>_ s.
     if fs_dir s = DirMissing then (Inr (), s\<lparr>fs_dir := DirPresent\<rparr>) else (Inr (), s))"

subsection \<open>Triples\<close>

definition ensures :: "(fs \<Rightarrow> bool) \<Rightarrow> 'a io \<Rightarrow> ('a \<Rightarrow> fs \<Rightarrow> bool) \<Rightarrow> (fs_error \<Rightarrow> fs \<Rightarrow> bool) \<Rightarrow> bool" where
  "ensures P m Q E \<longleftrightarrow> (\<forall>s. P s \<longrightarrow> (case m s of (Inr x, s') \<Rightarrow> Q x s' | (Inl e, s') \<Rightarrow> E e s'))"

named_theorems triples "rules for triples"

lemma ensuresD: "ensures P m Q E \<Longrightarrow> P s \<Longrightarrow> m s = (Inr x, s') \<Longrightarrow> Q x s'"
  "ensures P m Q E \<Longrightarrow> P s \<Longrightarrow> m s = (Inl e, s') \<Longrightarrow> E e s'"
  by (force simp: ensures_def)+

lemma ensures_ret [triples]: "(\<And>s. P s \<Longrightarrow> Q x s) \<Longrightarrow> ensures P (ret x) Q E"
  by (simp add: ensures_def ret_def)

lemma ensures_throw [triples]: "(\<And>s. P s \<Longrightarrow> E e s) \<Longrightarrow> ensures P (throw e) Q E"
  by (simp add: ensures_def throw_def)

lemma ensures_bind [triples]:
  "ensures P m R E \<Longrightarrow> (\<And>x. ensures (R x) (f x) Q E) \<Longrightarrow> ensures P (bindIO m f) Q E"
  unfolding ensures_def bindIO_def by (fastforce split: prod.splits sum.splits)

lemma ensures_attempt [triples]:
  "ensures P m (\<lambda>x. Q (Inr x)) (\<lambda>e. Q (Inl e)) \<Longrightarrow> ensures P (attempt m) Q E"
  unfolding ensures_def attempt_def
  by (auto split: prod.splits sum.splits) (metis (no_types, lifting) sum.exhaust)

lemma ensures_wrap [triples]: "ensures P m Q (\<lambda>_. E') \<Longrightarrow> (\<And>e s. E' s \<Longrightarrow> E e s) \<Longrightarrow> ensures P (wrap msg m) Q E"
  unfolding ensures_def wrap_def attempt_def bindIO_def ret_def throw_def
  by (force split: prod.splits sum.splits)

lemma ensures_ignore: "ensures P m (\<lambda>_. Q) (\<lambda>_. Q) \<Longrightarrow> ensures P (ignore m) (\<lambda>_. Q) E"
  unfolding ignore_def ensures_def bindIO_def attempt_def ret_def by (auto split: prod.splits sum.splits)

lemma ensures_conseq:
  "ensures P' m Q' E' \<Longrightarrow> (\<And>s. P s \<Longrightarrow> P' s) \<Longrightarrow> (\<And>x s. Q' x s \<Longrightarrow> Q x s) \<Longrightarrow> (\<And>e s. E' e s \<Longrightarrow> E e s)
     \<Longrightarrow> ensures P m Q E"
  unfolding ensures_def by (force split: prod.splits sum.splits)

text \<open>Sequencing with a triple whose errors imply those wanted.\<close>

lemma ensures_seq:
  "ensures P a R E' \<Longrightarrow> (\<And>x. ensures (R x) (f x) Q E) \<Longrightarrow> (\<And>e s. E' e s \<Longrightarrow> E e s) \<Longrightarrow> ensures P (bindIO a f) Q E"
  by (rule ensures_bind [where R = R], erule ensures_conseq) auto

text \<open>Handling the errors of a computation.\<close>

lemma ensures_handle:
  "ensures P a R E' \<Longrightarrow> (\<And>x. ensures (R x) (g x) Q E) \<Longrightarrow> (\<And>e. ensures (E' e) (f e) Q E) \<Longrightarrow>
     ensures P (bindIO (attempt a) (\<lambda>r. case r of Inl e \<Rightarrow> f e | Inr x \<Rightarrow> g x)) Q E"
  unfolding ensures_def bindIO_def attempt_def by (fastforce split: prod.splits sum.splits)

lemma ensures_pre: "ensures P' m Q E \<Longrightarrow> (\<And>s. P s \<Longrightarrow> P' s) \<Longrightarrow> ensures P m Q E"
  by (erule ensures_conseq) auto

lemma ensures_case_sum [triples]:
  "(\<And>e. r = Inl e \<Longrightarrow> ensures P (f e) Q E) \<Longrightarrow> (\<And>x. r = Inr x \<Longrightarrow> ensures P (g x) Q E) \<Longrightarrow>
     ensures P (case r of Inl e \<Rightarrow> f e | Inr x \<Rightarrow> g x) Q E"
  by (cases r) auto

lemma ensures_if [triples]:
  "(b \<Longrightarrow> ensures P m Q E) \<Longrightarrow> (\<not> b \<Longrightarrow> ensures P m' Q E) \<Longrightarrow> ensures P (if b then m else m') Q E"
  by simp

lemma ensures_case_option [triples]:
  "(r = None \<Longrightarrow> ensures P m Q E) \<Longrightarrow> (\<And>x. r = Some x \<Longrightarrow> ensures P (f x) Q E) \<Longrightarrow>
     ensures P (case r of None \<Rightarrow> m | Some x \<Rightarrow> f x) Q E"
  by (cases r) auto

lemma ensures_each:
  "(\<And>x. x \<in> set xs \<Longrightarrow> ensures P (f x) (\<lambda>_. P) E) \<Longrightarrow> ensures P (each f xs) (\<lambda>_. P) E"
  by (induction xs) (auto intro!: triples)

lemma ensures_syscall: "(\<And>s bs. P s \<Longrightarrow> P (s\<lparr>fs_faults := bs\<rparr>)) \<Longrightarrow> ensures P syscall (\<lambda>_. P) (\<lambda>_. P)"
  by (auto simp: ensures_def syscall_def split: list.splits)

lemma ensures_pure:
  "(\<And>s. P s \<Longrightarrow> \<exists>r. m s = (r, s)) \<Longrightarrow> (\<And>s x. P s \<Longrightarrow> fst (m s) = Inr x \<Longrightarrow> Q x s) \<Longrightarrow>
     (\<And>s e. P s \<Longrightarrow> fst (m s) = Inl e \<Longrightarrow> E e s) \<Longrightarrow> ensures P m Q E"
  unfolding ensures_def by (fastforce split: prod.splits sum.splits)

end
