(* ===== verification/File_Manager.thy ===== *)
theory File_Manager
  imports Fs_Monad Zone_Path Zone_Model "HOL-Library.List_Lexorder" "HOL-Library.Char_ord"
begin

section \<open>Zone files on an agent (internal/agent/sync/filemanager.go)\<close>

text \<open>
  The file manager: atomic writes of zone files with a backup of the previous file, the index of the
  zones that the agent manages, and the way back when a later step fails. Paths are names within the zone
  directory. \<open>fm_env\<close> has SHA-256 (for file names) and the JSON functions of the index. The comparison function
  that orders backups by age is modelled without failures of \<open>os.Stat\<close>; \<open>filepath.Glob\<close> reports only bad
  patterns, which file names never are, so listing backups has no error here.
\<close>

subsection \<open>Definitions\<close>

record managedZoneEntry =
  me_Name :: string
  me_File :: string

record managedZonesIndex =
  mi_Zones :: "string list"
  mi_Entries :: "managedZoneEntry list"

record fm_env =
  fe_sha256hex :: "string \<Rightarrow> string"
  fe_Marshal :: "managedZoneEntry list \<Rightarrow> string"
  fe_Unmarshal :: "string \<Rightarrow> managedZonesIndex option"

record FileManager =
  fm_backupVersions :: int
  fm_minFreeBytes :: int

definition managedZonesIndexFile :: string where "managedZonesIndexFile = ''.arca-dns-managed-zones.json''"

definition maxSyncFileSize :: int where "maxSyncFileSize = 64 * 1024 * 1024"

definition NewFileManagerWithMinFreeBytes :: "int \<Rightarrow> int \<Rightarrow> FileManager" where
  "NewFileManagerWithMinFreeBytes backupVersions minFreeBytes =
     \<lparr>fm_backupVersions = (if backupVersions < 0 then 0 else backupVersions),
      fm_minFreeBytes = (if minFreeBytes < 0 then 0 else minFreeBytes)\<rparr>"

abbreviation safe_name :: "fm_env \<Rightarrow> string \<Rightarrow> string" where
  "safe_name F zoneName \<equiv> SafeZoneFilename (fe_sha256hex F) zoneName"

definition GetZonePath :: "fm_env \<Rightarrow> string \<Rightarrow> string" where
  "GetZonePath F zoneName = ZoneFileName (fe_sha256hex F) zoneName"

paragraph \<open>The directory\<close>

text \<open>An unsupported \<open>fsync\<close> of a directory is no error, so only real failures count.\<close>

definition syncDir :: "unit io" where
  "syncDir = bindIO syscall (\<lambda>_. syscall)"

definition validateExistingZoneDirectory :: "unit io" where
  "validateExistingZoneDirectory = bindIO syscall (\<lambda>_ s.
     case fs_dir s of DirMissing \<Rightarrow> (Inl NotExist, s) | DirPresent \<Rightarrow> (Inr (), s) | _ \<Rightarrow> (Inl NotDirectory, s))"

definition validateZoneDirectoryIfExists :: "unit io" where
  "validateZoneDirectoryIfExists = bindIO (attempt validateExistingZoneDirectory) (\<lambda>r.
     case r of Inr _ \<Rightarrow> ret () | Inl e \<Rightarrow> if e = NotExist then ret () else throw (Wrapped ''stat zone directory'' e))"

definition make_directory :: "bool \<Rightarrow> unit io" where
  "make_directory existed =
     bindIO (wrap ''failed to create zone directory'' os_MkdirAll) (\<lambda>_.
     bindIO (wrap ''stat zone directory'' validateExistingZoneDirectory) (\<lambda>_.
     if existed then ret () else wrap ''fsync zone directory parent'' syncDir))"

definition ensureZoneDirectory :: "unit io" where
  "ensureZoneDirectory = bindIO (attempt validateExistingZoneDirectory) (\<lambda>r.
     case r of
       Inl e \<Rightarrow> if e \<noteq> NotExist then throw (Wrapped ''stat zone directory'' e) else make_directory False
     | Inr _ \<Rightarrow> make_directory True)"

definition checkDiskSpace :: "int \<Rightarrow> unit io" where
  "checkDiskSpace requiredBytes = bindIO syscall (\<lambda>_ s. (if fs_free s < requiredBytes then Inl NoSpace else Inr (), s))"

paragraph \<open>Reading and writing files\<close>

definition readRegularSyncFile :: "string \<Rightarrow> (string \<times> nat) io" where
  "readRegularSyncFile name = bindIO (os_Lstat name) (\<lambda>nd.
     case nd of
       Special _ \<Rightarrow> throw NotRegular
     | Regular data perm _ \<Rightarrow>
         if maxSyncFileSize < int (length data) then throw TooLarge
         else bindIO syscall (\<lambda>_. bindIO syscall (\<lambda>_. bindIO syscall (\<lambda>_. ret (data, perm)))))"

definition writeTempFileSync :: "string \<Rightarrow> string \<Rightarrow> string \<Rightarrow> nat \<Rightarrow> string io" where
  "writeTempFileSync pre suf data perm = bindIO (os_CreateTemp pre suf) (\<lambda>tmp.
     bindIO (attempt (bindIO (file_Chmod tmp perm) (\<lambda>_. bindIO (file_Write tmp data) (\<lambda>_.
               bindIO syscall (\<lambda>_. syscall))))) (\<lambda>r.
     case r of Inr _ \<Rightarrow> ret tmp | Inl e \<Rightarrow> bindIO (ignore (os_Remove tmp)) (\<lambda>_. throw e)))"

definition ZoneExists :: "fm_env \<Rightarrow> string \<Rightarrow> bool io" where
  "ZoneExists F zoneName = bindIO (attempt (bindIO validateZoneDirectoryIfExists (\<lambda>_. os_Lstat (GetZonePath F zoneName)))) (\<lambda>r.
     ret (case r of Inr (Regular _ _ _) \<Rightarrow> True | _ \<Rightarrow> False))"

definition ReadZoneFile :: "fm_env \<Rightarrow> string \<Rightarrow> string io" where
  "ReadZoneFile F zoneName = bindIO validateZoneDirectoryIfExists (\<lambda>_.
     wrap ''failed to read zone file'' (bindIO (readRegularSyncFile (GetZonePath F zoneName)) (\<lambda>(data, _). ret data)))"

type_synonym zoneFileSnapshot = "(string \<times> nat) option"

definition snapshotZoneFile :: "string \<Rightarrow> zoneFileSnapshot io" where
  "snapshotZoneFile path = bindIO (attempt (readRegularSyncFile path)) (\<lambda>r.
     case r of Inr x \<Rightarrow> ret (Some x) | Inl e \<Rightarrow> if e = NotExist then ret None else throw (Wrapped ''read active zone file'' e))"

definition restoreZoneFileSnapshot :: "string \<Rightarrow> zoneFileSnapshot \<Rightarrow> unit io" where
  "restoreZoneFileSnapshot path snapshot =
     (case snapshot of
        None \<Rightarrow> bindIO (attempt (os_Remove path)) (\<lambda>r.
          case r of
            Inr _ \<Rightarrow> wrap ''fsync rolled back zone directory'' syncDir
          | Inl e \<Rightarrow> if e = NotExist then ret () else throw (Wrapped ''remove rolled back zone file'' e))
      | Some (data, mode) \<Rightarrow>
          bindIO (wrap ''create zone directory for rollback'' os_MkdirAll) (\<lambda>_.
          bindIO (wrap ''write rollback zone file'' (writeTempFileSync (''.'' @ path @ ''.'') ''.rollback'' data mode)) (\<lambda>tmp.
          bindIO (attempt (os_Rename tmp path)) (\<lambda>r.
          case r of
            Inr _ \<Rightarrow> wrap ''fsync rollback zone directory'' syncDir
          | Inl e \<Rightarrow> bindIO (ignore (os_Remove tmp)) (\<lambda>_. throw (Wrapped ''rename rollback zone file'' e))))))"

definition removeRollbackBackup :: "string \<Rightarrow> unit io" where
  "removeRollbackBackup backupPath = bindIO (attempt (os_Remove backupPath)) (\<lambda>r.
     case r of
       Inr _ \<Rightarrow> wrap ''fsync rollback backup directory'' syncDir
     | Inl e \<Rightarrow> if e = NotExist then ret () else throw (Wrapped ''remove rollback backup'' e))"

definition rollbackZoneFileCommit :: "string \<Rightarrow> zoneFileSnapshot \<Rightarrow> string \<Rightarrow> unit io" where
  "rollbackZoneFileCommit targetPath snapshot backupPath =
     bindIO (attempt (restoreZoneFileSnapshot targetPath snapshot)) (\<lambda>r1.
     bindIO (if backupPath \<noteq> [] then attempt (removeRollbackBackup backupPath) else ret (Inr ())) (\<lambda>r2.
     join_errors (errs r1 @ errs r2)))"

paragraph \<open>Backups\<close>

definition backupFile :: "string \<Rightarrow> string io" where
  "backupFile path = bindIO (wrap ''failed to read file for backup'' (readRegularSyncFile path)) (\<lambda>(content, _).
     bindIO (wrap ''failed to write backup file'' (writeTempFileSync (path @ ''.backup.'') [] content 420)) (\<lambda>backupPath.
     bindIO (attempt syncDir) (\<lambda>r.
     case r of
       Inr _ \<Rightarrow> ret backupPath
     | Inl e \<Rightarrow> bindIO (ignore (os_Remove backupPath)) (\<lambda>_. throw (Wrapped ''failed to fsync backup directory'' e)))))"

definition listBackups :: "fm_env \<Rightarrow> string \<Rightarrow> fs \<Rightarrow> string list" where
  "listBackups F zoneName s =
     sort (filter (\<lambda>n. HasPrefix n (ZoneBackupPrefix (fe_sha256hex F) zoneName)) (map fst (fs_files s)))"

definition mtime_of :: "fs \<Rightarrow> string \<Rightarrow> int" where
  "mtime_of s n = (case map_of (fs_files s) n of Some (Regular _ _ t) \<Rightarrow> t | _ \<Rightarrow> 0)"

text \<open>\<open>deleted\<close> (\<open>changed\<close>) tells whether some removal succeeded.\<close>

fun remove_all :: "bool \<Rightarrow> string list \<Rightarrow> bool io" where
  "remove_all changed [] = ret changed"
| "remove_all changed (n # ns) =
     bindIO (attempt (os_Remove n)) (\<lambda>r. remove_all (changed \<or> \<not> isl r) ns)"

definition cleanupBackups :: "fm_env \<Rightarrow> FileManager \<Rightarrow> string \<Rightarrow> unit io" where
  "cleanupBackups F fm zoneName s =
     (let backups = listBackups F zoneName s; toDelete = int (length backups) - fm_backupVersions fm in
      if fm_backupVersions fm < int (length backups)
      then bindIO (remove_all False (take (nat toDelete) (sort_key (mtime_of s) backups))) (\<lambda>deleted.
             if deleted then wrap ''fsync zone directory after backup cleanup'' syncDir else ret ()) s
      else ret () s)"

definition delete_backups :: "fm_env \<Rightarrow> string \<Rightarrow> bool \<Rightarrow> unit io" where
  "delete_backups F zoneName changed0 s =
     bindIO (remove_all changed0 (listBackups F zoneName s)) (\<lambda>changed.
       if changed then wrap ''fsync zone directory after delete'' syncDir else ret ()) s"

definition deleteZoneFiles :: "fm_env \<Rightarrow> string \<Rightarrow> unit io" where
  "deleteZoneFiles F zoneName = bindIO (attempt (os_Remove (GetZonePath F zoneName))) (\<lambda>r.
     case r of
       Inl e \<Rightarrow> if e \<noteq> NotExist then throw (Wrapped ''failed to delete zone file'' e) else delete_backups F zoneName False
     | Inr _ \<Rightarrow> delete_backups F zoneName True)"

paragraph \<open>The index of managed zones\<close>

text \<open>The map from safe file names to zone names, as an association list.\<close>

type_synonym managed = "(string \<times> string) list"

definition add_entry :: "fm_env \<Rightarrow> managed \<Rightarrow> managedZoneEntry \<Rightarrow> managed" where
  "add_entry F zones entry =
     (let fileName = (if TrimSpace (me_File entry) = [] then me_Name entry else me_File entry);
          safeName = safe_name F fileName;
          zoneName = TrimSpace (me_Name entry) in
      if safeName = [] then zones
      else AList.update safeName (if zoneName = [] then safeName else NormalizeZoneName zoneName) zones)"

definition add_legacy :: "fm_env \<Rightarrow> managed \<Rightarrow> string \<Rightarrow> managed" where
  "add_legacy F zones zone =
     (let safeName = safe_name F zone in
      if safeName = [] then zones
      else if map_of zones safeName = None then AList.update safeName safeName zones else zones)"

definition index_zones :: "fm_env \<Rightarrow> managedZonesIndex \<Rightarrow> managed" where
  "index_zones F index = foldl (add_legacy F) (foldl (add_entry F) [] (mi_Entries index)) (mi_Zones index)"

definition readManagedZones :: "fm_env \<Rightarrow> managed io" where
  "readManagedZones F = bindIO validateZoneDirectoryIfExists (\<lambda>_.
     bindIO (attempt (readRegularSyncFile managedZonesIndexFile)) (\<lambda>r.
     case r of
       Inl e \<Rightarrow> if e = NotExist then ret [] else throw (Wrapped ''read managed zone index'' e)
     | Inr (data, _) \<Rightarrow>
         (case fe_Unmarshal F data of
            None \<Rightarrow> throw (Wrapped ''parse managed zone index'' BadIndex)
          | Some index \<Rightarrow> ret (index_zones F index))))"

definition index_entries :: "managed \<Rightarrow> managedZoneEntry list" where
  "index_entries zones =
     map (\<lambda>(safeName, zoneName). \<lparr>me_Name = zoneName, me_File = safeName\<rparr>) (sort_key fst zones)"

definition writeManagedZones :: "fm_env \<Rightarrow> managed \<Rightarrow> unit io" where
  "writeManagedZones F zones =
     (let data = fe_Marshal F (index_entries zones) @ [CHR 0x0A]; path = managedZonesIndexFile in
      bindIO ensureZoneDirectory (\<lambda>_.
      bindIO (wrap ''write managed zone index tmp'' (writeTempFileSync (''.'' @ path @ ''.'') ''.tmp'' data 420)) (\<lambda>tmp.
      bindIO (attempt (os_Rename tmp path)) (\<lambda>r.
      case r of
        Inl e \<Rightarrow> bindIO (ignore (os_Remove tmp)) (\<lambda>_. throw (Wrapped ''rename managed zone index'' e))
      | Inr _ \<Rightarrow> wrap ''fsync managed zone index directory'' syncDir))))"

text \<open>\<open>recordManagedZoneWithRollback\<close> returns what its closure captures, and \<open>rollbackManagedZone\<close> is the closure.\<close>

definition recordManagedZoneWithRollback :: "fm_env \<Rightarrow> string \<Rightarrow> string option io" where
  "recordManagedZoneWithRollback F zoneName = bindIO (readManagedZones F) (\<lambda>zones.
     bindIO (writeManagedZones F (AList.update (safe_name F zoneName) (NormalizeZoneName zoneName) zones)) (\<lambda>_.
     ret (map_of zones (safe_name F zoneName))))"

definition rollbackManagedZone :: "fm_env \<Rightarrow> string \<Rightarrow> string option \<Rightarrow> unit io" where
  "rollbackManagedZone F safeName previous = bindIO (readManagedZones F) (\<lambda>zones.
     writeManagedZones F (case previous of
        Some previousZoneName \<Rightarrow> AList.update safeName previousZoneName zones
      | None \<Rightarrow> AList.delete safeName zones))"

definition removeManagedZone :: "fm_env \<Rightarrow> string \<Rightarrow> unit io" where
  "removeManagedZone F zoneName = bindIO (readManagedZones F) (\<lambda>zones.
     writeManagedZones F (AList.delete (safe_name F zoneName) zones))"

text \<open>The references, as pairs of zone name and safe name.\<close>

definition listManagedZones :: "fm_env \<Rightarrow> (string \<times> string) list io" where
  "listManagedZones F = bindIO (readManagedZones F) (\<lambda>zones.
     ret (map (\<lambda>(safeName, zoneName). (zoneName, safeName)) (sort_key fst zones)))"

paragraph \<open>Writing and deleting zones\<close>

record rollback =
  rb_target :: string
  rb_snapshot :: zoneFileSnapshot
  rb_safeName :: string
  rb_previous :: "string option"
  rb_backup :: string

definition run_validate :: "(string \<Rightarrow> string option) option \<Rightarrow> string \<Rightarrow> unit io" where
  "run_validate validate tmp s =
     (case validate of
        None \<Rightarrow> (Inr (), s)
      | Some v \<Rightarrow>
          (case map_of (fs_files s) tmp of
             Some (Regular data _ _) \<Rightarrow>
               (case v data of None \<Rightarrow> (Inr (), s) | Some msg \<Rightarrow> (Inl (Wrapped ''zone validation failed'' (Invalid msg)), s))
           | _ \<Rightarrow> (Inl NotExist, s)))"

text \<open>The steps between the temporary file and its rename, and those after the rename.\<close>

definition prepare_publish :: "(string \<Rightarrow> string option) option \<Rightarrow> string \<Rightarrow> string \<Rightarrow> string io" where
  "prepare_publish validate targetPath tmp = bindIO (run_validate validate tmp) (\<lambda>_.
     bindIO (attempt (os_Lstat targetPath)) (\<lambda>r.
     bindIO (case r of Inr _ \<Rightarrow> wrap ''failed to backup old version'' (backupFile targetPath) | Inl _ \<Rightarrow> ret []) (\<lambda>backupPath.
     bindIO (wrap ''failed to rename temporary file'' (os_Rename tmp targetPath)) (\<lambda>_.
     ret backupPath))))"

text \<open>After the commit point an error of a step is returned together with those of the way back.\<close>

definition or_roll_back :: "string \<Rightarrow> string \<Rightarrow> zoneFileSnapshot \<Rightarrow> string \<Rightarrow> 'a io \<Rightarrow> 'a io" where
  "or_roll_back msg targetPath snapshot backupPath m = bindIO (attempt m) (\<lambda>r.
     case r of
       Inr x \<Rightarrow> ret x
     | Inl e \<Rightarrow> bindIO (attempt (rollbackZoneFileCommit targetPath snapshot backupPath)) (\<lambda>r2.
                 throw (Joined (Wrapped msg e # errs r2))))"

definition WriteZoneFileValidatedWithRollback ::
  "fm_env \<Rightarrow> FileManager \<Rightarrow> string \<Rightarrow> string \<Rightarrow> (string \<Rightarrow> string option) option \<Rightarrow> rollback io" where
  "WriteZoneFileValidatedWithRollback F fm zoneName content validate =
     (let targetPath = GetZonePath F zoneName in
      bindIO ensureZoneDirectory (\<lambda>_.
      bindIO (if 0 < fm_minFreeBytes fm then wrap ''insufficient disk space'' (checkDiskSpace (fm_minFreeBytes fm)) else ret ()) (\<lambda>_.
      bindIO (snapshotZoneFile targetPath) (\<lambda>snapshot.
      bindIO (wrap ''failed to write temporary file'' (writeTempFileSync (''.'' @ targetPath @ ''.'') ''.tmp'' content 420)) (\<lambda>tmp.
      bindIO (attempt (prepare_publish validate targetPath tmp)) (\<lambda>r.
      case r of
        Inl e \<Rightarrow> bindIO (ignore (os_Remove tmp)) (\<lambda>_. throw e)
      | Inr backupPath \<Rightarrow>
          bindIO (or_roll_back ''fsync zone directory'' targetPath snapshot backupPath syncDir) (\<lambda>_.
          bindIO (or_roll_back ''failed to record managed zone'' targetPath snapshot backupPath
                    (recordManagedZoneWithRollback F zoneName)) (\<lambda>previous.
          bindIO (ignore (cleanupBackups F fm zoneName)) (\<lambda>_.
          ret \<lparr>rb_target = targetPath, rb_snapshot = snapshot, rb_safeName = safe_name F zoneName,
               rb_previous = previous, rb_backup = backupPath\<rparr>)))))))))"

definition run_rollback :: "fm_env \<Rightarrow> rollback \<Rightarrow> unit io" where
  "run_rollback F rb =
     bindIO (attempt (restoreZoneFileSnapshot (rb_target rb) (rb_snapshot rb))) (\<lambda>r1.
     bindIO (attempt (wrap ''roll back managed zone index'' (rollbackManagedZone F (rb_safeName rb) (rb_previous rb)))) (\<lambda>r2.
     bindIO (if rb_backup rb \<noteq> [] then attempt (removeRollbackBackup (rb_backup rb)) else ret (Inr ())) (\<lambda>r3.
     join_errors (errs r1 @ errs r2 @ errs r3))))"

definition WriteZoneFile :: "fm_env \<Rightarrow> FileManager \<Rightarrow> string \<Rightarrow> string \<Rightarrow> unit io" where
  "WriteZoneFile F fm zoneName content =
     bindIO (WriteZoneFileValidatedWithRollback F fm zoneName content None) (\<lambda>_. ret ())"

definition DeleteZoneFile :: "fm_env \<Rightarrow> string \<Rightarrow> unit io" where
  "DeleteZoneFile F zoneName = bindIO validateZoneDirectoryIfExists (\<lambda>_.
     bindIO (deleteZoneFiles F zoneName) (\<lambda>_.
     wrap ''failed to update managed zone index'' (removeManagedZone F zoneName)))"

definition EnsureDirectory :: "unit io" where
  "EnsureDirectory = bindIO ensureZoneDirectory (\<lambda>_.
     bindIO (wrap ''zone directory is not writable'' (writeTempFileSync ''.write_test-'' [] ''test'' 420)) (\<lambda>testFile.
     bindIO (wrap ''failed to remove zone directory write test file'' (os_Remove testFile)) (\<lambda>_.
     wrap ''fsync zone directory after write test cleanup'' syncDir)))"

end
