(* ===== verification/File_Facts.thy ===== *)
theory File_Facts
  imports File_Manager
begin

section \<open>What the file manager guarantees under every pattern of failures\<close>

text \<open>
  Zone files end in \<open>.zone\<close>; the index has a name of its own; every other name is scratch space
  (temporary files and backups). \<open>sees K m s\<close> says that the directory in state \<open>s\<close> has exactly the entries \<open>m\<close>, up to
  modification times, when scratch names outside \<open>K\<close> are ignored. The triples say how each operation changes \<open>m\<close>.
\<close>

subsection \<open>Views of the directory\<close>

definition scratch :: "string \<Rightarrow> bool" where
  "scratch n \<longleftrightarrow> \<not> HasSuffix n ''.zone'' \<and> n \<noteq> managedZonesIndexFile"

fun erase :: "node \<Rightarrow> node" where
  "erase (Regular d p t) = Regular d p 0"
| "erase (Special b) = Special b"

lemma erase_Regular [simp]: "erase nd = Regular d p 0 \<longleftrightarrow> (\<exists>t. nd = Regular d p t)"
  by (cases nd) auto

definition view :: "string set \<Rightarrow> fs \<Rightarrow> string \<Rightarrow> node option" where
  "view K s n = (if scratch n \<and> n \<notin> K then None else map_option erase (map_of (fs_files s) n))"

definition sees :: "string set \<Rightarrow> (string \<Rightarrow> node option) \<Rightarrow> fs \<Rightarrow> bool" where
  "sees K m s \<longleftrightarrow> view K s = m \<and> K \<subseteq> dom m"

lemma view_frame [simp]:
  "view K (s\<lparr>fs_faults := bs\<rparr>) = view K s" "view K (s\<lparr>fs_rand := rs\<rparr>) = view K s" "view K (s\<lparr>fs_dir := d\<rparr>) = view K s"
  "view K (s\<lparr>fs_clock := c\<rparr>) = view K s" "view K (s\<lparr>fs_free := f\<rparr>) = view K s"
  by (simp_all add: view_def fun_eq_iff)

lemma sees_frame:
  "sees K m (s\<lparr>fs_faults := bs\<rparr>) = sees K m s" "sees K m (s\<lparr>fs_rand := rs\<rparr>) = sees K m s"
  "sees K m (s\<lparr>fs_dir := d\<rparr>) = sees K m s" "sees K m (s\<lparr>fs_clock := c\<rparr>) = sees K m s"
  by (simp_all add: sees_def)

lemma view_update:
  "view K (s\<lparr>fs_files := AList.update n nd (fs_files s)\<rparr>) =
     (if scratch n \<and> n \<notin> K then view K s else (view K s)(n \<mapsto> erase nd))"
  by (auto simp: view_def fun_eq_iff AList.update_conv')

lemma view_delete:
  "view K (s\<lparr>fs_files := AList.delete n (fs_files s)\<rparr>) = (view K s)(n := None)"
  by (auto simp: view_def fun_eq_iff AList.delete_conv')

lemma view_scratch: "scratch n \<Longrightarrow> n \<notin> K \<Longrightarrow> view K s n = None"
  by (simp add: view_def)

lemma seesD: "sees K m s \<Longrightarrow> m = view K s"
  by (simp add: sees_def)

lemma sees_regular:
  assumes "sees K m s" "\<not> scratch t \<or> t \<in> K" "m t = Some (Regular d p 0)"
  shows "\<exists>t'. map_of (fs_files s) t = Some (Regular d p t')"
proof -
  have "view K s t = Some (Regular d p 0)" using assms by (simp add: sees_def)
  then show ?thesis using assms(2) by (auto simp: view_def split: if_splits)
qed

lemma sees_entry: "sees K m s \<Longrightarrow> \<not> scratch n \<or> n \<in> K \<Longrightarrow> m n = map_option erase (map_of (fs_files s) n)"
  by (auto simp: sees_def view_def)

lemma sees_scratch: "sees K m s \<Longrightarrow> scratch n \<Longrightarrow> n \<notin> K \<Longrightarrow> m n = None"
  by (auto simp: sees_def view_def)

lemma sees_drop: "sees (insert t K) m s \<Longrightarrow> scratch t \<Longrightarrow> t \<notin> K \<Longrightarrow> sees K (m(t := None)) s"
proof -
  assume "sees (insert t K) m s" "scratch t" "t \<notin> K"
  then have "m = view (insert t K) s" "insert t K \<subseteq> dom m" by (simp_all add: sees_def)
  then show ?thesis using \<open>scratch t\<close> \<open>t \<notin> K\<close> by (auto simp: sees_def view_def fun_eq_iff split: if_splits)
qed

lemma sees_update:
  assumes "sees K m s" "t \<in> K"
  shows "sees K (m(t \<mapsto> erase nd)) (s\<lparr>fs_files := AList.update t nd (fs_files s)\<rparr>)"
    "sees K (m(t \<mapsto> erase nd)) (s\<lparr>fs_files := AList.update t nd (fs_files s), fs_clock := c\<rparr>)"
  using assms sees_frame(4) by (auto simp: sees_def view_update)

subsection \<open>Names\<close>

lemma HasSuffix_last: "HasSuffix s p \<Longrightarrow> p \<noteq> [] \<Longrightarrow> s \<noteq> [] \<and> last s = last p"
  by (auto simp: HasSuffix_iff)

lemma dec_string_last: "is_digit (last (dec_string r))"
  using dec_string_digits [of r] dec_string_nonempty [of r] by (auto simp: list_all_iff)

lemma scratch_names:
  "scratch (pre @ dec_string r @ ''.tmp'')" "scratch (pre @ dec_string r @ ''.rollback'')"
  "scratch (pre @ dec_string r)"
proof -
  have i: "last managedZonesIndexFile = CHR ''n''" "managedZonesIndexFile \<noteq> []" by (simp_all add: managedZonesIndexFile_def)
  have z: "last n = CHR ''e''" if "HasSuffix n ''.zone''" for n using HasSuffix_last [OF that] by simp
  show "scratch (pre @ dec_string r @ ''.tmp'')" "scratch (pre @ dec_string r @ ''.rollback'')"
    using z i(1) by (auto simp: scratch_def dest!: z arg_cong [where f = last])
  have "last (pre @ dec_string r) = last (dec_string r)" by simp
  moreover have "\<not> is_digit CHR ''e''" "\<not> is_digit CHR ''n''" by (simp_all add: is_digit_def byte_def)
  ultimately have "last (pre @ dec_string r) \<noteq> CHR ''e''" "last (pre @ dec_string r) \<noteq> CHR ''n''"
    using dec_string_last [of r] by metis+
  then show "scratch (pre @ dec_string r)" using z i(1) by (auto simp: scratch_def simp del: last_appendR)
qed

lemma zone_path_not_scratch: "\<not> scratch (GetZonePath F z)"
  by (simp add: scratch_def GetZonePath_def ZoneFileName_def)

lemma index_not_scratch: "\<not> scratch managedZonesIndexFile"
  by (simp add: scratch_def)

lemma zone_path_not_index: "GetZonePath F z \<noteq> managedZonesIndexFile"
proof
  assume "GetZonePath F z = managedZonesIndexFile"
  then have "last (GetZonePath F z) = last managedZonesIndexFile" by simp
  then show False by (simp add: GetZonePath_def ZoneFileName_def managedZonesIndexFile_def)
qed

lemma temp_name_Some:
  "temp_name taken pre suf rs = Some (name, rs') \<Longrightarrow> (\<exists>r. name = pre @ dec_string r @ suf) \<and> name \<notin> set taken"
  by (induction rs) (auto simp: Let_def split: if_splits)

subsection \<open>Triples for the system calls\<close>

lemma sees_syscall [triples]: "ensures (sees K m) syscall (\<lambda>_. sees K m) (\<lambda>e s. sees K m s \<and> e = Fault)"
  by (auto simp: ensures_def syscall_def sees_frame split: list.splits)

lemma sees_call:
  "ensures (sees K m) (f ()) Q E \<Longrightarrow> (\<And>s. sees K m s \<Longrightarrow> E Fault s) \<Longrightarrow> ensures (sees K m) (bindIO syscall f) Q E"
  by (rule ensures_bind [where R = "\<lambda>_. sees K m"], rule ensures_conseq [OF sees_syscall]) auto

lemma sees_Lstat:
  "ensures (sees K m) (os_Lstat n)
     (\<lambda>nd s. sees K m s \<and> (\<not> scratch n \<longrightarrow> m n = Some (erase nd)))
     (\<lambda>e s. sees K m s \<and> (e = NotExist \<and> \<not> scratch n \<longrightarrow> m n = None))"
  unfolding os_Lstat_def by (rule sees_call) (auto simp: ensures_def sees_entry split: option.splits)

lemma sees_Remove:
  assumes "n \<notin> K" "\<not> scratch n"
  shows "ensures (sees K m) (os_Remove n)
     (\<lambda>_. sees K (m(n := None))) (\<lambda>e s. sees K m s \<and> (e = NotExist \<longrightarrow> m n = None))"
  unfolding os_Remove_def
  by (rule sees_call) (use assms in \<open>auto simp: ensures_def sees_def view_delete view_def split: option.splits\<close>)

lemma sees_Remove_scratch:
  assumes "scratch n" "n \<notin> K"
  shows "ensures (sees K m) (os_Remove n) (\<lambda>_. sees K m) (\<lambda>_. sees K m)"
proof -
  have "(view K s)(n := None) = view K s" for s using assms by (simp add: fun_upd_idem_iff view_scratch)
  then show ?thesis unfolding os_Remove_def
    by (intro sees_call) (auto simp: ensures_def sees_def view_delete split: option.splits)
qed

lemma sees_Rename:
  assumes "old \<in> K" "\<not> scratch new" "scratch old"
  shows "ensures (sees K m) (os_Rename old new)
     (\<lambda>_. sees (K - {old}) (m(old := None, new := m old))) (\<lambda>_. sees K m)"
proof -
  have "sees (K - {old}) (m(old := None, new := m old)) (s\<lparr>fs_files := AList.update new nd (AList.delete old (fs_files s))\<rparr>)"
    if "sees K m s" "map_of (fs_files s) old = Some nd" for s nd
  proof -
    have "m = view K s" "K \<subseteq> dom m" using that(1) by (simp_all add: sees_def)
    then show ?thesis using that(2) assms
      by (auto simp: sees_def view_def fun_eq_iff AList.update_conv' AList.delete_conv' split: if_splits)
  qed
  moreover have "map_of (fs_files s) old \<noteq> None" if "sees K m s" for s
    using that assms(1) unfolding sees_def view_def by force
  ultimately show ?thesis unfolding os_Rename_def
    by (intro sees_call) (auto simp: ensures_def split: option.splits)
qed

lemma sees_CreateTemp:
  assumes "suf \<in> {[], ''.tmp'', ''.rollback''}"
  shows "ensures (sees K m) (os_CreateTemp pre suf)
     (\<lambda>t s. (scratch t \<and> t \<notin> K \<and> m t = None) \<and> sees (insert t K) (m(t \<mapsto> Regular [] 384 0)) s) (\<lambda>_. sees K m)"
proof -
  have "(scratch t \<and> t \<notin> K \<and> m t = None) \<and> sees (insert t K) (m(t \<mapsto> Regular [] 384 0))
      (s\<lparr>fs_rand := rs, fs_files := AList.update t (Regular [] 384 (fs_clock s)) (fs_files s)\<rparr>)"
    if "sees K m s" "temp_name (map fst (fs_files s)) pre suf (fs_rand s) = Some (t, rs)" for s t rs
  proof -
    have t: "scratch t" "t \<notin> set (map fst (fs_files s))"
      using temp_name_Some [OF that(2)] assms scratch_names by auto
    then have "map_of (fs_files s) t = None" by (metis domIff dom_map_of_conv_image_fst list.set_map)
    moreover from this have "t \<notin> K" using that(1) unfolding sees_def view_def by force
    moreover have "m = view K s" "K \<subseteq> dom m" using that(1) by (simp_all add: sees_def)
    ultimately show ?thesis using t(1)
      by (auto simp: sees_def view_def fun_eq_iff AList.update_conv' split: if_splits)
  qed
  then show ?thesis unfolding os_CreateTemp_def
    by (intro sees_call) (auto simp: ensures_def sees_frame split: option.splits)
qed

lemma sees_Chmod:
  assumes "t \<in> K" "m t = Some (Regular d p 0)"
  shows "ensures (sees K m) (file_Chmod t q) (\<lambda>_. sees K (m(t \<mapsto> Regular d q 0))) (\<lambda>_. sees K m)"
proof -
  have nd: "\<exists>t'. map_of (fs_files s) t = Some (Regular d p t')" if "sees K m s" for s
    using sees_regular [OF that, of t] assms by blast
  have "sees K (m(t \<mapsto> Regular d q 0)) (s\<lparr>fs_files := AList.update t (Regular a q x) (fs_files s)\<rparr>)"
    if "sees K m s" "map_of (fs_files s) t = Some (Regular a b x)" for s a b x
    using nd [OF that(1)] that(2) sees_update(1) [OF that(1) assms(1), of "Regular a q x"] by simp
  then show ?thesis unfolding file_Chmod_def
    by (intro sees_call) (auto simp: ensures_def split: option.split node.split dest: nd)
qed

lemma sees_Write:
  assumes "t \<in> K" "m t = Some (Regular d p 0)"
  shows "ensures (sees K m) (file_Write t e) (\<lambda>_. sees K (m(t \<mapsto> Regular (d @ e) p 0))) (\<lambda>_. sees K m)"
proof -
  have nd: "\<exists>t'. map_of (fs_files s) t = Some (Regular d p t')" if "sees K m s" for s
    using sees_regular [OF that, of t] assms by blast
  have "sees K (m(t \<mapsto> Regular (d @ e) p 0)) (s\<lparr>fs_files := AList.update t (Regular (a @ e) b x) (fs_files s), fs_clock := c\<rparr>)"
    if "sees K m s" "map_of (fs_files s) t = Some (Regular a b y)" for s a b x y c
    using nd [OF that(1)] that(2) sees_update(2) [OF that(1) assms(1), of "Regular (a @ e) b x" c] by simp
  then show ?thesis unfolding file_Write_def
    by (intro sees_call) (auto simp: ensures_def split: option.split node.split dest: nd)
qed

lemma sees_MkdirAll: "ensures (sees K m) os_MkdirAll (\<lambda>_. sees K m) (\<lambda>_. sees K m)"
  unfolding os_MkdirAll_def by (rule sees_call) (auto simp: ensures_def sees_frame)

subsection \<open>Computations that leave the view alone\<close>

abbreviation quiet :: "string set \<Rightarrow> (string \<Rightarrow> node option) \<Rightarrow> 'a io \<Rightarrow> bool" where
  "quiet K m a \<equiv> ensures (sees K m) a (\<lambda>_. sees K m) (\<lambda>_. sees K m)"

named_theorems quiets "computations that leave the view alone"

lemma quiet_intros [quiets]:
  "quiet K m (ret x)" "quiet K m (throw e)" "quiet K m syscall" "quiet K m os_MkdirAll"
  "quiet K m a \<Longrightarrow> (\<And>x. quiet K m (f x)) \<Longrightarrow> quiet K m (bindIO a f)"
  "quiet K m a \<Longrightarrow> quiet K m (attempt a)" "quiet K m a \<Longrightarrow> quiet K m (wrap msg a)"
  "quiet K m a \<Longrightarrow> quiet K m (ignore a)"
  by (auto intro!: ensures_ret ensures_throw ensures_attempt ensures_wrap ensures_ignore sees_MkdirAll
      intro: ensures_conseq [OF sees_syscall] ensures_bind)

lemma quiet_cases [quiets]:
  "(b \<Longrightarrow> quiet K m x) \<Longrightarrow> (\<not> b \<Longrightarrow> quiet K m y) \<Longrightarrow> quiet K m (if b then x else y)"
  "(\<And>e. quiet K m (f e)) \<Longrightarrow> (\<And>x. quiet K m (g x)) \<Longrightarrow> quiet K m (case r of Inl e \<Rightarrow> f e | Inr x \<Rightarrow> g x)"
  by (auto split: sum.split)

lemma ensures_fact: "(A \<Longrightarrow> ensures P a Q E) \<Longrightarrow> ensures (\<lambda>s. A \<and> P s) a Q E"
  by (auto simp: ensures_def)

lemma ensures_ex: "(\<And>y. A y \<Longrightarrow> ensures (P y) a Q E) \<Longrightarrow> ensures (\<lambda>s. \<exists>y. A y \<and> P y s) a Q E"
  unfolding ensures_def by (intro allI impI, elim exE conjE) simp

lemma ensures_or: "ensures P a Q E \<Longrightarrow> ensures P' a Q E \<Longrightarrow> ensures (\<lambda>s. P s \<or> P' s) a Q E"
  by (auto simp: ensures_def)

lemma sees_bind:
  "quiet K m a \<Longrightarrow> (\<And>x. ensures (sees K m) (f x) Q E) \<Longrightarrow> (\<And>e s. sees K m s \<Longrightarrow> E e s) \<Longrightarrow>
     ensures (sees K m) (bindIO a f) Q E"
  by (rule ensures_seq)

lemma quiet_read_only: "(\<And>s. \<exists>r. a s = (r, s)) \<Longrightarrow> quiet K m (bindIO syscall (\<lambda>_. a))"
  by (rule sees_call) (auto simp: ensures_def split: prod.splits sum.splits, (metis prod.inject)+)

lemma quiet_directory [quiets]:
  "quiet K m syncDir" "quiet K m validateExistingZoneDirectory" "quiet K m (checkDiskSpace n)"
  "quiet K m (os_Lstat path)"
proof -
  show "quiet K m syncDir" unfolding syncDir_def by (intro quiets)
qed (auto simp: validateExistingZoneDirectory_def checkDiskSpace_def os_Lstat_def
      intro!: quiet_read_only split: dir_state.split option.split)

lemma quiet_ensure [quiets]:
  "quiet K m validateZoneDirectoryIfExists" "quiet K m (make_directory b)"
  unfolding validateZoneDirectoryIfExists_def make_directory_def by (intro quiets)+

lemma quiet_ensureZoneDirectory [quiets]: "quiet K m ensureZoneDirectory"
  unfolding ensureZoneDirectory_def by (intro quiets)

lemma sees_readRegularSyncFile:
  assumes "\<not> scratch n"
  shows "ensures (sees K m) (readRegularSyncFile n)
     (\<lambda>(d, p) s. sees K m s \<and> m n = Some (Regular d p 0))
     (\<lambda>e s. sees K m s \<and> (e = NotExist \<longrightarrow> m n = None))"
proof -
  have c: "ensures (\<lambda>s. sees K m s \<and> A) syscall (\<lambda>_ s. sees K m s \<and> A) (\<lambda>e s. sees K m s \<and> (e = NotExist \<longrightarrow> B))" for A B
    by (auto simp: ensures_def syscall_def sees_frame split: list.splits)
  show ?thesis unfolding readRegularSyncFile_def
  proof (rule ensures_seq [OF sees_Lstat])
    fix nd
    show "ensures (\<lambda>s. sees K m s \<and> (\<not> scratch n \<longrightarrow> m n = Some (erase nd)))
      (case nd of Special _ \<Rightarrow> throw NotRegular
       | Regular data perm _ \<Rightarrow>
         if maxSyncFileSize < int (length data) then throw TooLarge
         else bindIO syscall (\<lambda>_. bindIO syscall (\<lambda>_. bindIO syscall (\<lambda>_. ret (data, perm)))))
      (\<lambda>(d, p) s. sees K m s \<and> m n = Some (Regular d p 0)) (\<lambda>e s. sees K m s \<and> (e = NotExist \<longrightarrow> m n = None))"
      using assms by (cases nd) (auto intro!: ensures_throw ensures_bind [OF c] ensures_ret)
  qed (use assms in auto)
qed

lemma quiet_read [quiets]: "\<not> scratch n \<Longrightarrow> quiet K m (readRegularSyncFile n)"
  by (rule ensures_conseq [OF sees_readRegularSyncFile]) auto

lemma quiet_case_prod [quiets]: "(\<And>x y. quiet K m (f x y)) \<Longrightarrow> quiet K m (case p of (x, y) \<Rightarrow> f x y)"
  by (cases p) simp

lemma quiet_zone_reads [quiets]: "quiet K m (ZoneExists F z)" "quiet K m (ReadZoneFile F z)"
  unfolding ZoneExists_def ReadZoneFile_def by (intro quiets zone_path_not_scratch)+

subsection \<open>Writing files\<close>

text \<open>A tracked temporary file can be forgotten.\<close>

lemma sees_forget:
  "sees (insert t K) (m(t \<mapsto> nd)) s \<Longrightarrow> scratch t \<and> t \<notin> K \<and> m t = None \<Longrightarrow> sees K m s"
  using sees_drop [of t K "m(t \<mapsto> nd)" s] by (simp add: fun_upd_idem)

lemma remove_forgotten:
  assumes "scratch t \<and> t \<notin> K \<and> m t = None"
  shows "ensures (\<lambda>s. \<exists>nd. sees (insert t K) (m(t \<mapsto> nd)) s) (ignore (os_Remove t)) (\<lambda>_. sees K m) (\<lambda>_. sees K m)"
  by (rule ensures_pre [where P' = "sees K m"], rule quiet_intros(8), rule sees_Remove_scratch)
     (use assms in \<open>auto dest: sees_forget\<close>)

lemma sees_writeTempFileSync:
  assumes suf: "suf \<in> {[], ''.tmp'', ''.rollback''}"
  shows "ensures (sees K m) (writeTempFileSync pre suf data perm)
     (\<lambda>t s. (scratch t \<and> t \<notin> K \<and> m t = None) \<and> sees (insert t K) (m(t \<mapsto> Regular data perm 0)) s) (\<lambda>_. sees K m)"
  unfolding writeTempFileSync_def
proof (rule ensures_seq [OF sees_CreateTemp [OF suf]], rule ensures_fact)
  fix t assume t: "scratch t \<and> t \<notin> K \<and> m t = None"
  let ?K = "insert t K"
  let ?left = "\<lambda>s. \<exists>nd. sees ?K (m(t \<mapsto> nd)) s"
  have fill: "ensures (sees ?K (m(t \<mapsto> Regular [] 384 0)))
      (bindIO (file_Chmod t perm) (\<lambda>_. bindIO (file_Write t data) (\<lambda>_. bindIO syscall (\<lambda>_. syscall))))
      (\<lambda>_. sees ?K (m(t \<mapsto> Regular data perm 0))) (\<lambda>_. ?left)"
  proof (rule ensures_seq [OF sees_Chmod])
    show "ensures (sees ?K (m(t \<mapsto> Regular [] 384 0, t \<mapsto> Regular [] perm 0)))
      (bindIO (file_Write t data) (\<lambda>_. bindIO syscall (\<lambda>_. syscall)))
      (\<lambda>_. sees ?K (m(t \<mapsto> Regular data perm 0))) (\<lambda>_. ?left)"
      by (rule ensures_seq [OF sees_Write], simp, simp)
         (auto intro!: ensures_conseq [OF quiet_intros(5) [OF quiet_intros(3) quiet_intros(3)]])
  qed auto
  show "ensures (sees ?K (m(t \<mapsto> Regular [] 384 0)))
     (bindIO (attempt (bindIO (file_Chmod t perm) (\<lambda>_. bindIO (file_Write t data) (\<lambda>_. bindIO syscall (\<lambda>_. syscall)))))
       (\<lambda>r. case r of Inr _ \<Rightarrow> ret t | Inl e \<Rightarrow> bindIO (ignore (os_Remove t)) (\<lambda>_. throw e)))
     (\<lambda>t s. (scratch t \<and> t \<notin> K \<and> m t = None) \<and> sees (insert t K) (m(t \<mapsto> Regular data perm 0)) s) (\<lambda>_. sees K m)"
    using t by (intro ensures_handle [OF fill] ensures_ret ensures_bind [OF remove_forgotten] ensures_throw) auto
qed auto

definition as_node :: "zoneFileSnapshot \<Rightarrow> node option" where
  "as_node snapshot = map_option (\<lambda>(d, p). Regular d p 0) snapshot"

lemma sees_publish:
  assumes t: "scratch t \<and> t \<notin> K \<and> m t = None" and path: "\<not> scratch path"
  shows "ensures (sees (insert t K) (m(t \<mapsto> nd))) (os_Rename t path)
     (\<lambda>_. sees K (m(path \<mapsto> nd))) (\<lambda>_. sees (insert t K) (m(t \<mapsto> nd)))"
proof -
  have "insert t K - {t} = K" "t \<noteq> path" "(m(t \<mapsto> nd))(t := None, path \<mapsto> nd) = m(path \<mapsto> nd)"
    using t path by (auto simp: fun_upd_idem)
  then show ?thesis using sees_Rename [of t "insert t K" path "m(t \<mapsto> nd)"] t path by simp
qed

lemma sees_remove_tolerant:
  assumes "n \<notin> K" "\<not> scratch n"
  shows "ensures (sees K m)
     (bindIO (attempt (os_Remove n)) (\<lambda>r. case r of
        Inr _ \<Rightarrow> wrap msg syncDir | Inl e \<Rightarrow> if e = NotExist then ret () else throw (Wrapped msg' e)))
     (\<lambda>_. sees K (m(n := None))) (\<lambda>_ s. sees K m s \<or> sees K (m(n := None)) s)"
proof (rule ensures_handle [OF sees_Remove [OF assms]])
  show "ensures (sees K (m(n := None))) (wrap msg syncDir) (\<lambda>_. sees K (m(n := None)))
      (\<lambda>_ s. sees K m s \<or> sees K (m(n := None)) s)"
    by (rule ensures_conseq [OF quiet_intros(7) [OF quiet_directory(1)]]) auto
  show "ensures (\<lambda>s. sees K m s \<and> (e = NotExist \<longrightarrow> m n = None)) (if e = NotExist then ret () else throw (Wrapped msg' e))
      (\<lambda>_. sees K (m(n := None))) (\<lambda>_ s. sees K m s \<or> sees K (m(n := None)) s)" for e
    by (auto intro!: ensures_ret ensures_throw simp: fun_upd_idem)
qed

lemma sees_restore:
  assumes path: "path \<notin> K" "\<not> scratch path"
  shows "ensures (sees K m) (restoreZoneFileSnapshot path snapshot)
     (\<lambda>_. sees K (m(path := as_node snapshot))) (\<lambda>_ s. sees K m s \<or> sees K (m(path := as_node snapshot)) s)"
proof (cases snapshot)
  case None
  then show ?thesis using sees_remove_tolerant [OF path]
    by (simp add: restoreZoneFileSnapshot_def as_node_def)
next
  case (Some sn)
  obtain d p where sn: "sn = (d, p)" by fastforce
  let ?n = "as_node snapshot" and ?nd = "Regular d p 0"
  let ?E = "\<lambda>_ s. sees K m s \<or> sees K (m(path := ?n)) s"
  have n: "?n = Some ?nd" by (simp add: as_node_def Some sn)
  have pub: "ensures (sees (insert t K) (m(t \<mapsto> ?nd)))
      (bindIO (attempt (os_Rename t path)) (\<lambda>r. case r of
         Inr _ \<Rightarrow> wrap ''fsync rollback zone directory'' syncDir
       | Inl e \<Rightarrow> bindIO (ignore (os_Remove t)) (\<lambda>_. throw (Wrapped ''rename rollback zone file'' e))))
      (\<lambda>_. sees K (m(path := ?n))) ?E" if t: "scratch t \<and> t \<notin> K \<and> m t = None" for t
  proof (rule ensures_handle [OF sees_publish [where m = m, OF t path(2)]])
    show "ensures (sees K (m(path \<mapsto> ?nd))) (wrap ''fsync rollback zone directory'' syncDir) (\<lambda>_. sees K (m(path := ?n))) ?E"
      by (rule ensures_conseq [OF quiet_intros(7) [OF quiet_directory(1)]]) (auto simp: n)
    show "ensures (sees (insert t K) (m(t \<mapsto> ?nd)))
        (bindIO (ignore (os_Remove t)) (\<lambda>_. throw (Wrapped ''rename rollback zone file'' e))) (\<lambda>_. sees K (m(path := ?n))) ?E" for e
      by (rule ensures_seq [OF ensures_pre [OF remove_forgotten [where m = m, OF t]]]) (auto intro!: ensures_throw)
  qed
  show ?thesis unfolding restoreZoneFileSnapshot_def Some sn option.case prod.case n [unfolded Some sn]
    by (rule sees_bind [OF quiet_intros(7) [OF quiet_intros(4)]],
        rule ensures_seq [OF ensures_wrap [OF sees_writeTempFileSync]])
       (use pub in \<open>auto simp: n [unfolded Some sn] Some sn intro!: ensures_fact\<close>)
qed

lemma quiet_removeRollbackBackup [quiets]:
  "scratch b \<Longrightarrow> b \<notin> K \<Longrightarrow> quiet K m (removeRollbackBackup b)"
  unfolding removeRollbackBackup_def by (intro quiets sees_Remove_scratch)

lemma sees_join_errors:
  assumes "\<And>s. P s \<Longrightarrow> es = [] \<Longrightarrow> Q () s" "\<And>s. P s \<Longrightarrow> es \<noteq> [] \<Longrightarrow> E (Joined es) s"
  shows "ensures P (join_errors es) Q E"
  unfolding join_errors_def using assms by (auto intro!: ensures_ret ensures_throw)

lemma errs_append [simp]: "errs (Inl e) = [e]" "errs (Inr x) = []"
  by (simp_all add: errs_def)

lemma sees_rollbackZoneFileCommit:
  assumes path: "path \<notin> K" "\<not> scratch path" and b: "b = [] \<or> scratch b \<and> b \<notin> K"
  shows "ensures (sees K m) (rollbackZoneFileCommit path snapshot b)
     (\<lambda>_. sees K (m(path := as_node snapshot))) (\<lambda>_ s. sees K m s \<or> sees K (m(path := as_node snapshot)) s)"
proof -
  let ?m = "m(path := as_node snapshot)"
  have q: "quiet K m' (if b \<noteq> [] then attempt (removeRollbackBackup b) else ret (Inr ()))" for m'
    using b by (auto intro!: quiets)
  have "ensures (case r1 of Inl e \<Rightarrow> \<lambda>s. sees K m s \<or> sees K ?m s | Inr _ \<Rightarrow> sees K ?m)
      (bindIO rm (\<lambda>r2. join_errors (errs r1 @ errs r2)))
      (\<lambda>_. sees K ?m) (\<lambda>_ s. sees K m s \<or> sees K ?m s)"
    if rm: "\<And>m'. quiet K m' rm" for r1 :: "fs_error + unit" and rm :: "(fs_error + unit) io"
    by (cases r1) (auto intro!: ensures_or sees_bind [OF rm] sees_join_errors)
  note rest = this [OF q]
  show ?thesis unfolding rollbackZoneFileCommit_def
    by (rule ensures_bind [OF ensures_attempt [where Q = "\<lambda>r. case r of Inl e \<Rightarrow> \<lambda>s. sees K m s \<or> sees K ?m s | Inr _ \<Rightarrow> sees K ?m"] rest])
       (simp add: sees_restore [OF path])
qed

lemma sees_backupFile:
  assumes "\<not> scratch path"
  shows "ensures (sees K m) (backupFile path) (\<lambda>b s. scratch b \<and> b \<notin> K \<and> sees K m s) (\<lambda>_. sees K m)"
proof -
  have tail: "ensures (sees (insert b K) (m(b \<mapsto> nd)))
      (bindIO (attempt syncDir) (\<lambda>r. case r of
         Inr _ \<Rightarrow> ret b
       | Inl e \<Rightarrow> bindIO (ignore (os_Remove b)) (\<lambda>_. throw (Wrapped ''failed to fsync backup directory'' e))))
      (\<lambda>b s. scratch b \<and> b \<notin> K \<and> sees K m s) (\<lambda>_. sees K m)"
    if b: "scratch b \<and> b \<notin> K \<and> m b = None" for b nd
    by (rule ensures_pre [where P' = "sees K m"], rule ensures_handle [OF quiet_directory(1)])
       (use b in \<open>auto intro!: ensures_ret sees_bind quiets ensures_throw sees_Remove_scratch dest: sees_forget\<close>)
  show ?thesis unfolding backupFile_def
  proof (rule sees_bind)
    fix x :: "string \<times> nat"
    obtain c p where x: "x = (c, p)" by fastforce
    show "ensures (sees K m)
      (case x of (content, _) \<Rightarrow>
        bindIO (wrap ''failed to write backup file'' (writeTempFileSync (path @ ''.backup.'') [] content 420)) (\<lambda>backupPath.
        bindIO (attempt syncDir) (\<lambda>r. case r of
           Inr _ \<Rightarrow> ret backupPath
         | Inl e \<Rightarrow> bindIO (ignore (os_Remove backupPath)) (\<lambda>_. throw (Wrapped ''failed to fsync backup directory'' e)))))
      (\<lambda>b s. scratch b \<and> b \<notin> K \<and> sees K m s) (\<lambda>_. sees K m)"
      unfolding x prod.case
      by (rule ensures_seq [OF ensures_wrap [OF sees_writeTempFileSync]]) (auto intro!: ensures_fact tail)
  qed (use assms in \<open>auto intro!: quiets\<close>)
qed

subsection \<open>Removing backups\<close>

text \<open>\<open>gone B m\<close>: as \<open>m\<close>, but entries whose names satisfy \<open>B\<close> may be missing.\<close>

definition lost :: "(string \<Rightarrow> bool) \<Rightarrow> (string \<Rightarrow> node option) \<Rightarrow> (string \<Rightarrow> node option) \<Rightarrow> bool" where
  "lost B m m' \<longleftrightarrow> (\<forall>n. m' n = m n \<or> B n \<and> m' n = None)"

definition gone :: "(string \<Rightarrow> bool) \<Rightarrow> (string \<Rightarrow> node option) \<Rightarrow> fs \<Rightarrow> bool" where
  "gone B m s \<longleftrightarrow> (\<exists>m'. lost B m m' \<and> sees {} m' s)"

lemma gone_refl: "sees {} m s \<Longrightarrow> gone B m s"
  by (auto simp: gone_def lost_def)

lemma gone_quiet: "(\<And>m'. quiet {} m' a) \<Longrightarrow> ensures (gone B m) a (\<lambda>_. gone B m) (\<lambda>_. gone B m)"
  unfolding gone_def ensures_def by (fastforce split: prod.splits sum.splits)

lemma gone_Remove:
  assumes "B n"
  shows "ensures (gone B m) (os_Remove n) (\<lambda>_. gone B m) (\<lambda>_. gone B m)"
proof (cases "scratch n")
  case True
  then show ?thesis by (intro gone_quiet sees_Remove_scratch) auto
next
  case False
  have l: "lost B m m' \<Longrightarrow> lost B m (m'(n := None))" for m' using assms by (auto simp: lost_def)
  have "ensures (sees {} m') (os_Remove n) (\<lambda>_. gone B m) (\<lambda>_. gone B m)" if "lost B m m'" for m'
    by (rule ensures_conseq [OF sees_Remove]) (use False l that in \<open>auto simp: gone_def\<close>)
  then show ?thesis unfolding gone_def [of B m, abs_def] by (rule ensures_ex)
qed

lemma gone_remove_all:
  "\<forall>n \<in> set ns. B n \<Longrightarrow> ensures (gone B m) (remove_all c ns) (\<lambda>_. gone B m) (\<lambda>_. gone B m)"
  by (induction ns arbitrary: c) (auto intro!: ensures_ret ensures_bind ensures_attempt gone_Remove)

abbreviation backup_of :: "fm_env \<Rightarrow> string \<Rightarrow> string \<Rightarrow> bool" where
  "backup_of F z n \<equiv> HasPrefix n (ZoneBackupPrefix (fe_sha256hex F) z)"

lemma listBackups_backup: "\<forall>n \<in> set (listBackups F z s). backup_of F z n"
  by (auto simp: listBackups_def)

lemma gone_wrap_sync: "ensures (gone B m) (if c then wrap msg syncDir else ret ()) (\<lambda>_. gone B m) (\<lambda>_. gone B m)"
  by (intro gone_quiet quiets)

lemma ensures_at: "(\<And>s0. P s0 \<Longrightarrow> ensures P (f s0) Q E) \<Longrightarrow> ensures P (\<lambda>s. f s s) Q E"
  by (simp add: ensures_def)

lemma gone_cleanupBackups:
  "ensures (gone (backup_of F z) m) (cleanupBackups F fm z) (\<lambda>_. gone (backup_of F z) m) (\<lambda>_. gone (backup_of F z) m)"
proof -
  have "ensures (gone (backup_of F z) m)
     (\<lambda>s. (let backups = listBackups F z s0; toDelete = int (length backups) - fm_backupVersions fm in
      if fm_backupVersions fm < int (length backups)
      then bindIO (remove_all False (take (nat toDelete) (sort_key (mtime_of s0) backups))) (\<lambda>deleted.
             if deleted then wrap ''fsync zone directory after backup cleanup'' syncDir else ret ()) s
      else ret () s)) (\<lambda>_. gone (backup_of F z) m) (\<lambda>_. gone (backup_of F z) m)" for s0
  proof -
    have "\<forall>n \<in> set (take k (sort_key (mtime_of s0) (listBackups F z s0))). backup_of F z n" for k
      using listBackups_backup [of F z s0] by (auto dest!: in_set_takeD)
    note r = gone_remove_all [OF this]
    show ?thesis unfolding Let_def
      by (cases "fm_backupVersions fm < int (length (listBackups F z s0))")
         (auto intro!: ensures_bind [OF r] gone_wrap_sync ensures_ret)
  qed
  from ensures_at [OF this] show ?thesis unfolding cleanupBackups_def by (simp add: fun_eq_iff)
qed

lemma gone_delete_backups:
  "ensures (gone (backup_of F z) m) (delete_backups F z c) (\<lambda>_. gone (backup_of F z) m) (\<lambda>_. gone (backup_of F z) m)"
proof -
  have "ensures (gone (backup_of F z) m)
     (\<lambda>s. bindIO (remove_all c (listBackups F z s0)) (\<lambda>changed.
       if changed then wrap ''fsync zone directory after delete'' syncDir else ret ()) s)
     (\<lambda>_. gone (backup_of F z) m) (\<lambda>_. gone (backup_of F z) m)" for s0
    by (auto intro!: ensures_bind [OF gone_remove_all] gone_wrap_sync listBackups_backup)
  from ensures_at [OF this] show ?thesis unfolding delete_backups_def .
qed

subsection \<open>The index\<close>

definition index_of :: "fm_env \<Rightarrow> node option \<Rightarrow> managed" where
  "index_of F nd =
     (case nd of
        Some (Regular d _ _) \<Rightarrow> (case fe_Unmarshal F d of Some index \<Rightarrow> index_zones F index | None \<Rightarrow> [])
      | _ \<Rightarrow> [])"

definition index_node :: "fm_env \<Rightarrow> managed \<Rightarrow> node" where
  "index_node F zones = Regular (fe_Marshal F (index_entries zones) @ [CHR 0x0A]) 420 0"

abbreviation index_file :: string where "index_file \<equiv> managedZonesIndexFile"

lemma sees_readManagedZones:
  "ensures (sees K m) (readManagedZones F) (\<lambda>zones s. zones = index_of F (m index_file) \<and> sees K m s) (\<lambda>_. sees K m)"
proof -
  have ok: "ensures (case x of (d, p) \<Rightarrow> \<lambda>s. sees K m s \<and> m index_file = Some (Regular d p 0))
      (case x of (data, _) \<Rightarrow> (case fe_Unmarshal F data of
         None \<Rightarrow> throw (Wrapped ''parse managed zone index'' BadIndex) | Some index \<Rightarrow> ret (index_zones F index)))
      (\<lambda>zones s. zones = index_of F (m index_file) \<and> sees K m s) (\<lambda>_. sees K m)" for x
    by (cases x) (auto intro!: ensures_throw ensures_ret split: option.split simp: index_of_def)
  have err: "ensures (\<lambda>s. sees K m s \<and> (e = NotExist \<longrightarrow> m index_file = None))
      (if e = NotExist then ret [] else throw (Wrapped ''read managed zone index'' e))
      (\<lambda>zones s. zones = index_of F (m index_file) \<and> sees K m s) (\<lambda>_. sees K m)" for e
    by (auto intro!: ensures_ret ensures_throw simp: index_of_def)
  show ?thesis unfolding readManagedZones_def
    by (rule sees_bind [OF quiet_ensure(1)], rule ensures_handle [OF sees_readRegularSyncFile [OF index_not_scratch]])
       (use ok err in \<open>auto simp: case_prod_unfold\<close>)
qed

lemma quiet_readManagedZones [quiets]: "quiet K m (readManagedZones F)"
  by (rule ensures_conseq [OF sees_readManagedZones]) auto

text \<open>The shape of every error after a rename: the old entry or the new one.\<close>

abbreviation either :: "string set \<Rightarrow> (string \<Rightarrow> node option) \<Rightarrow> string \<Rightarrow> node option \<Rightarrow> fs \<Rightarrow> bool" where
  "either K m n nd s \<equiv> sees K m s \<or> sees K (m(n := nd)) s"

lemma sees_writeManagedZones:
  assumes "index_file \<notin> K"
  shows "ensures (sees K m) (writeManagedZones F zones)
     (\<lambda>_. sees K (m(index_file \<mapsto> index_node F zones))) (\<lambda>_. either K m index_file (Some (index_node F zones)))"
proof -
  let ?nd = "index_node F zones"
  have pub: "ensures (sees (insert t K) (m(t \<mapsto> ?nd)))
      (bindIO (attempt (os_Rename t index_file)) (\<lambda>r. case r of
         Inl e \<Rightarrow> bindIO (ignore (os_Remove t)) (\<lambda>_. throw (Wrapped ''rename managed zone index'' e))
       | Inr _ \<Rightarrow> wrap ''fsync managed zone index directory'' syncDir))
      (\<lambda>_. sees K (m(index_file \<mapsto> ?nd))) (\<lambda>_. either K m index_file (Some ?nd))"
    if t: "scratch t \<and> t \<notin> K \<and> m t = None" for t
  proof (rule ensures_handle [OF sees_publish [where m = m, OF t index_not_scratch]])
    show "ensures (sees K (m(index_file \<mapsto> ?nd))) (wrap ''fsync managed zone index directory'' syncDir)
        (\<lambda>_. sees K (m(index_file \<mapsto> ?nd))) (\<lambda>_. either K m index_file (Some ?nd))"
      by (rule ensures_conseq [OF quiet_intros(7) [OF quiet_directory(1)]]) auto
    show "ensures (sees (insert t K) (m(t \<mapsto> ?nd)))
        (bindIO (ignore (os_Remove t)) (\<lambda>_. throw (Wrapped ''rename managed zone index'' e)))
        (\<lambda>_. sees K (m(index_file \<mapsto> ?nd))) (\<lambda>_. either K m index_file (Some ?nd))" for e
      by (rule ensures_seq [OF ensures_pre [OF remove_forgotten [where m = m, OF t]]]) (auto intro!: ensures_throw)
  qed
  show ?thesis unfolding writeManagedZones_def Let_def index_node_def [symmetric]
    by (rule sees_bind [OF quiet_ensureZoneDirectory],
        rule ensures_seq [OF ensures_wrap [OF sees_writeTempFileSync]])
       (use pub in \<open>auto simp: index_node_def intro!: ensures_fact\<close>)
qed

lemma sees_modify_index:
  assumes "index_file \<notin> K"
  shows "ensures (sees K m) (bindIO (readManagedZones F) (\<lambda>zones. writeManagedZones F (f zones)))
     (\<lambda>_. sees K (m(index_file \<mapsto> index_node F (f (index_of F (m index_file))))))
     (\<lambda>_. either K m index_file (Some (index_node F (f (index_of F (m index_file))))))"
  by (rule ensures_seq [OF sees_readManagedZones], rule ensures_fact)
     (auto intro!: sees_writeManagedZones [OF assms])

definition recorded :: "fm_env \<Rightarrow> string \<Rightarrow> (string \<Rightarrow> node option) \<Rightarrow> node" where
  "recorded F z m =
     index_node F (AList.update (safe_name F z) (NormalizeZoneName z) (index_of F (m index_file)))"

lemma sees_recordManagedZone:
  assumes "index_file \<notin> K"
  shows "ensures (sees K m) (recordManagedZoneWithRollback F z)
     (\<lambda>previous s. previous = map_of (index_of F (m index_file)) (safe_name F z) \<and> sees K (m(index_file \<mapsto> recorded F z m)) s)
     (\<lambda>_. either K m index_file (Some (recorded F z m)))"
  unfolding recordManagedZoneWithRollback_def
  by (rule ensures_seq [OF sees_readManagedZones], rule ensures_fact)
     (auto intro!: ensures_seq [OF sees_writeManagedZones [OF assms]] ensures_ret simp: recorded_def)

subsection \<open>Writing a zone file\<close>

lemma quiet_run_validate [quiets]: "quiet K m (run_validate v t)"
  by (auto simp: ensures_def run_validate_def split: option.split node.split)

lemma sees_prepare_publish:
  assumes t: "scratch t \<and> t \<notin> {} \<and> m t = None" and path: "\<not> scratch path"
  shows "ensures (sees {t} (m(t \<mapsto> nd))) (prepare_publish validate path t)
     (\<lambda>b s. (b = [] \<or> scratch b) \<and> sees {} (m(path \<mapsto> nd)) s) (\<lambda>_. sees {t} (m(t \<mapsto> nd)))"
proof -
  let ?m = "m(t \<mapsto> nd)"
  have bk: "ensures (sees {t} ?m)
      (case r of Inr _ \<Rightarrow> wrap ''failed to backup old version'' (backupFile path) | Inl _ \<Rightarrow> ret [])
      (\<lambda>b s. (b = [] \<or> scratch b) \<and> sees {t} ?m s) (\<lambda>_. sees {t} ?m)" for r :: "fs_error + node"
    by (cases r) (auto intro!: ensures_wrap ensures_ret intro: ensures_conseq [OF sees_backupFile [OF path]])
  have ren: "ensures (sees {t} ?m)
      (bindIO (wrap ''failed to rename temporary file'' (os_Rename t path)) (\<lambda>_. ret b))
      (\<lambda>b s. (b = [] \<or> scratch b) \<and> sees {} (m(path \<mapsto> nd)) s) (\<lambda>_. sees {t} ?m)" if "b = [] \<or> scratch b" for b
    by (rule ensures_seq [OF ensures_wrap [OF sees_publish [where m = m, OF t path]]])
       (use that in \<open>auto intro!: ensures_ret\<close>)
  show ?thesis unfolding prepare_publish_def
    by (rule sees_bind [OF quiet_run_validate], rule sees_bind [OF quiet_intros(6) [OF quiet_directory(4)]],
        rule ensures_seq [OF bk], rule ensures_fact, rule ren) auto
qed

text \<open>An error that carries a second one: the way back failed too.\<close>

definition rollback_failed :: "fs_error \<Rightarrow> bool" where
  "rollback_failed e \<longleftrightarrow> (\<exists>x y ys. e = Joined (x # y # ys))"

text \<open>
  A step after the commit point that fails: the previous file is back, unless the way back failed as
  well; then it is either file.
\<close>

lemma sees_or_roll_back:
  assumes path: "\<not> scratch path" and b: "b = [] \<or> scratch b"
    and step: "ensures (sees {} m) c Q (\<lambda>_ s. \<exists>i. I i \<and> sees {} (m(n := i)) s)" and n: "n \<noteq> path"
  shows "ensures (sees {} m) (or_roll_back msg path snapshot b c) Q
     (\<lambda>e s. \<exists>i. I i \<and> (sees {} (m(n := i, path := as_node snapshot)) s
        \<or> rollback_failed e \<and> sees {} (m(n := i)) s))"
proof -
  let ?E = "\<lambda>e s. \<exists>i. I i \<and> (sees {} (m(n := i, path := as_node snapshot)) s \<or> rollback_failed e \<and> sees {} (m(n := i)) s)"
  have undo: "ensures (sees {} (m(n := i)))
      (bindIO (attempt (rollbackZoneFileCommit path snapshot b)) (\<lambda>r2. throw (Joined (Wrapped msg e # errs r2)))) Q ?E"
    if i: "I i" for i e
  proof (rule ensures_bind, rule ensures_attempt)
    let ?R = "\<lambda>r :: fs_error + unit. case r of
        Inl _ \<Rightarrow> (\<lambda>s. sees {} (m(n := i)) s \<or> sees {} (m(n := i, path := as_node snapshot)) s)
      | Inr _ \<Rightarrow> sees {} (m(n := i, path := as_node snapshot))"
    show "ensures (sees {} (m(n := i))) (rollbackZoneFileCommit path snapshot b) (\<lambda>x. ?R (Inr x)) (\<lambda>e. ?R (Inl e))"
      using sees_rollbackZoneFileCommit [of path "{}" b "m(n := i)" snapshot] path b by simp
    show "ensures (?R r) (throw (Joined (Wrapped msg e # errs r))) Q ?E" for r
      using i by (cases r) (auto intro!: ensures_throw simp: rollback_failed_def)
  qed
  show ?thesis unfolding or_roll_back_def
    by (rule ensures_handle [OF step]) (auto intro!: ensures_ret ensures_ex undo)
qed

lemma sees_snapshot:
  assumes "\<not> scratch path"
  shows "ensures (sees K m) (snapshotZoneFile path) (\<lambda>sn s. m path = as_node sn \<and> sees K m s) (\<lambda>_. sees K m)"
  unfolding snapshotZoneFile_def
  by (rule ensures_handle [OF sees_readRegularSyncFile [OF assms]])
     (auto intro!: ensures_ret ensures_throw ensures_if simp: as_node_def)

lemma sees_WriteZoneFile:
  fixes content :: string
  defines "nd \<equiv> Regular content 420 0"
  assumes T: "T = GetZonePath F z"
  shows "ensures (sees {} m) (WriteZoneFileValidatedWithRollback F fm z content v)
    (\<lambda>rb s. (rb_target rb = T \<and> as_node (rb_snapshot rb) = m T \<and> rb_safeName rb = safe_name F z
        \<and> rb_previous rb = map_of (index_of F (m index_file)) (safe_name F z) \<and> (rb_backup rb = [] \<or> scratch (rb_backup rb)))
      \<and> gone (backup_of F z) (m(T \<mapsto> nd, index_file \<mapsto> recorded F z m)) s)
    (\<lambda>e s. \<exists>i. (i = m index_file \<or> i = Some (recorded F z m)) \<and>
      (sees {} (m(index_file := i)) s \<or> rollback_failed e \<and> sees {} (m(T \<mapsto> nd, index_file := i)) s))"
    (is "ensures _ _ ?Q ?E")
proof -
  have path: "\<not> scratch T" "T \<noteq> index_file" by (simp_all add: T zone_path_not_scratch zone_path_not_index)
  have E: "sees {} m s \<Longrightarrow> ?E e s" for e s by (intro exI [of _ "m index_file"]) simp
  let ?I = "\<lambda>i. i = m index_file \<or> i = Some (recorded F z m)"
  let ?m = "m(T \<mapsto> nd)"
  have rec: "recorded F z ?m = recorded F z m" using path(2) by (simp add: recorded_def)
  have finish: "ensures (\<lambda>s. previous = map_of (index_of F (?m index_file)) (safe_name F z) \<and> sees {} (?m(index_file \<mapsto> recorded F z ?m)) s)
      (bindIO (ignore (cleanupBackups F fm z)) (\<lambda>_.
          ret \<lparr>rb_target = T, rb_snapshot = sn, rb_safeName = safe_name F z, rb_previous = previous, rb_backup = bp\<rparr>)) ?Q ?E"
    if "m T = as_node sn" "bp = [] \<or> scratch bp" for previous sn bp
    by (rule ensures_fact, rule ensures_pre [where P' = "gone (backup_of F z) (?m(index_file \<mapsto> recorded F z ?m))"],
        rule ensures_seq [OF ensures_ignore [OF gone_cleanupBackups], where E' = "\<lambda>_ _. False"])
       (use that path(2) in \<open>auto intro!: ensures_ret gone_refl simp: rec\<close>)
  have commit: "ensures (sees {} ?m)
      (bindIO (or_roll_back ''fsync zone directory'' T sn bp syncDir) (\<lambda>_.
       bindIO (or_roll_back ''failed to record managed zone'' T sn bp (recordManagedZoneWithRollback F z)) (\<lambda>previous.
       bindIO (ignore (cleanupBackups F fm z)) (\<lambda>_.
          ret \<lparr>rb_target = T, rb_snapshot = sn, rb_safeName = safe_name F z, rb_previous = previous, rb_backup = bp\<rparr>)))) ?Q ?E"
    if sn: "m T = as_node sn" and bp: "bp = [] \<or> scratch bp" for sn bp
  proof -
    have sync: "ensures (sees {} ?m) syncDir (\<lambda>_. sees {} ?m) (\<lambda>_ s. \<exists>i. i = ?m index_file \<and> sees {} (?m(index_file := i)) s)"
      by (rule ensures_conseq [OF quiet_directory(1)]) (auto simp: fun_upd_idem)
    have reco: "ensures (sees {} ?m) (recordManagedZoneWithRollback F z)
        (\<lambda>previous s. previous = map_of (index_of F (?m index_file)) (safe_name F z) \<and> sees {} (?m(index_file \<mapsto> recorded F z ?m)) s)
        (\<lambda>_ s. \<exists>i. ?I i \<and> sees {} (?m(index_file := i)) s)"
      by (rule ensures_conseq [OF sees_recordManagedZone])
         (use path(2) in \<open>auto simp: rec fun_upd_idem intro: exI [of _ "m index_file"]\<close>)
    have upd: "?m(index_file := i, T := as_node sn) = m(index_file := i)" for i
      using path(2) sn by (auto simp: fun_eq_iff)
    show ?thesis
      by (rule ensures_seq [OF sees_or_roll_back [OF path(1) bp sync path(2) [symmetric]]],
          rule ensures_seq [OF sees_or_roll_back [OF path(1) bp reco path(2) [symmetric]] finish [OF sn bp]])
         (use path(2) in \<open>auto simp: upd\<close>)
  qed
  have publish: "ensures (sees {t} (m(t \<mapsto> nd)))
      (bindIO (attempt (prepare_publish v T t)) (\<lambda>r. case r of
         Inl e \<Rightarrow> bindIO (ignore (os_Remove t)) (\<lambda>_. throw e)
       | Inr bp \<Rightarrow>
           bindIO (or_roll_back ''fsync zone directory'' T sn bp syncDir) (\<lambda>_.
           bindIO (or_roll_back ''failed to record managed zone'' T sn bp (recordManagedZoneWithRollback F z)) (\<lambda>previous.
           bindIO (ignore (cleanupBackups F fm z)) (\<lambda>_.
             ret \<lparr>rb_target = T, rb_snapshot = sn, rb_safeName = safe_name F z, rb_previous = previous, rb_backup = bp\<rparr>)))))
      ?Q ?E" if sn: "m T = as_node sn" and t: "scratch t \<and> t \<notin> {} \<and> m t = None" for sn t
  proof (rule ensures_handle [OF sees_prepare_publish [where m = m, OF t path(1)]], rule ensures_fact, rule commit [OF sn])
    show "ensures (sees {t} (m(t \<mapsto> nd))) (bindIO (ignore (os_Remove t)) (\<lambda>_. throw e)) ?Q ?E" for e
      by (rule ensures_seq [OF ensures_pre [OF remove_forgotten [where m = m, OF t]]]) (auto intro!: ensures_throw E)
  qed
  have space: "quiet {} m (if 0 < fm_minFreeBytes fm then wrap ''insufficient disk space'' (checkDiskSpace (fm_minFreeBytes fm)) else ret ())"
    by (intro quiets)
  have temp: "ensures (sees {} m) (wrap msg (writeTempFileSync pre ''.tmp'' content 420))
      (\<lambda>t s. (scratch t \<and> t \<notin> {} \<and> m t = None) \<and> sees {t} (m(t \<mapsto> nd)) s) (\<lambda>_. sees {} m)" for msg pre
    unfolding nd_def by (rule ensures_wrap [OF sees_writeTempFileSync]) auto
  show ?thesis unfolding WriteZoneFileValidatedWithRollback_def Let_def T [symmetric]
    by (rule sees_bind [OF quiet_ensureZoneDirectory], rule sees_bind [OF space],
        rule ensures_seq [OF sees_snapshot [OF path(1)]], rule ensures_fact,
        rule ensures_seq [OF temp], rule ensures_fact, rule publish, assumption, assumption) (erule E)+
qed

subsection \<open>Rolling back and deleting\<close>

lemma quiet_ex:
  assumes "\<And>m'. quiet {} m' a"
  shows "ensures (\<lambda>s. \<exists>x. A x \<and> sees {} (g x) s) a (\<lambda>_ s. \<exists>x. A x \<and> sees {} (g x) s) (\<lambda>_ s. \<exists>x. A x \<and> sees {} (g x) s)"
  by (rule ensures_ex, rule ensures_conseq [OF assms]) blast+

definition unrecorded :: "fm_env \<Rightarrow> rollback \<Rightarrow> (string \<Rightarrow> node option) \<Rightarrow> node" where
  "unrecorded F rb m =
     index_node F (case rb_previous rb of
        Some p \<Rightarrow> AList.update (rb_safeName rb) p (index_of F (m index_file))
      | None \<Rightarrow> AList.delete (rb_safeName rb) (index_of F (m index_file)))"

lemma sees_rollbackManagedZone:
  "ensures (sees {} m) (rollbackManagedZone F (rb_safeName rb) (rb_previous rb))
     (\<lambda>_. sees {} (m(index_file \<mapsto> unrecorded F rb m))) (\<lambda>_. either {} m index_file (Some (unrecorded F rb m)))"
  unfolding rollbackManagedZone_def unrecorded_def by (rule sees_modify_index) simp

text \<open>Three steps that all run; no error means that all three succeeded.\<close>

lemma sees_join3:
  assumes a: "ensures P a (\<lambda>_. A) (\<lambda>_. A')" and b: "ensures A b (\<lambda>_. B) (\<lambda>_. B')" "ensures A' b (\<lambda>_. B') (\<lambda>_. B')"
    and c: "ensures B c (\<lambda>_. B) (\<lambda>_. B)" "ensures B' c (\<lambda>_. B') (\<lambda>_. B')" and imp: "\<And>s. B s \<Longrightarrow> B' s"
  shows "ensures P (bindIO (attempt a) (\<lambda>r1. bindIO (attempt b) (\<lambda>r2. bindIO c (\<lambda>r3.
      join_errors (errs r1 @ errs r2 @ errs r3))))) (\<lambda>_. B) (\<lambda>_. B')"
proof -
  have last: "ensures (if es = [] then B else B') (bindIO c (\<lambda>r3. join_errors (es @ errs r3))) (\<lambda>_. B) (\<lambda>_. B')" for es
    by (cases "es = []") (auto intro!: ensures_seq [OF c(1)] ensures_seq [OF c(2)] sees_join_errors imp)
  have mid: "ensures (case r1 of Inl _ \<Rightarrow> A' | Inr _ \<Rightarrow> A)
      (bindIO (attempt b) (\<lambda>r2. bindIO c (\<lambda>r3. join_errors (errs r1 @ errs r2 @ errs r3)))) (\<lambda>_. B) (\<lambda>_. B')"
    for r1 :: "fs_error + 'a"
  proof (rule ensures_bind, rule ensures_attempt)
    show "ensures (case r1 of Inl _ \<Rightarrow> A' | Inr _ \<Rightarrow> A) b
        (\<lambda>x. if errs r1 @ errs (Inr x :: fs_error + 'b) = [] then B else B')
        (\<lambda>e. if errs r1 @ errs (Inl e :: fs_error + 'b) = [] then B else B')"
      using b by (cases r1) auto
    show "ensures (if errs r1 @ errs r2 = [] then B else B') (bindIO c (\<lambda>r3. join_errors (errs r1 @ errs r2 @ errs r3)))
        (\<lambda>_. B) (\<lambda>_. B')" for r2
      using last [of "errs r1 @ errs r2"] by simp
  qed
  show ?thesis
    by (rule ensures_bind [OF ensures_attempt [where Q = "\<lambda>r. case r of Inl _ \<Rightarrow> A' | Inr _ \<Rightarrow> A"] mid]) (simp add: a)
qed

lemma sees_run_rollback:
  assumes T: "\<not> scratch (rb_target rb)" "rb_target rb \<noteq> index_file" and bk: "rb_backup rb = [] \<or> scratch (rb_backup rb)"
  shows "ensures (sees {} m) (run_rollback F rb)
     (\<lambda>_. sees {} (m(rb_target rb := as_node (rb_snapshot rb), index_file \<mapsto> unrecorded F rb m)))
     (\<lambda>_ s. \<exists>f i. (f = m (rb_target rb) \<or> f = as_node (rb_snapshot rb)) \<and> (i = m index_file \<or> i = Some (unrecorded F rb m))
        \<and> sees {} (m(rb_target rb := f, index_file := i)) s)"
proof -
  let ?T = "rb_target rb" and ?n = "as_node (rb_snapshot rb)" and ?u = "unrecorded F rb m"
  let ?B = "sees {} (m(?T := ?n, index_file \<mapsto> ?u))"
  let ?B' = "\<lambda>s. \<exists>f i. (f = m ?T \<or> f = ?n) \<and> (i = m index_file \<or> i = Some ?u) \<and> sees {} (m(?T := f, index_file := i)) s"
  have rm: "quiet {} m' (if rb_backup rb \<noteq> [] then attempt (removeRollbackBackup (rb_backup rb)) else ret (Inr ()))" for m'
    using bk by (auto intro!: quiets)
  have u: "unrecorded F rb (m(?T := f)) = ?u" for f using T(2) by (simp add: unrecorded_def split: option.split)
  have mid: "ensures (sees {} (m(?T := f))) (wrap msg (rollbackManagedZone F (rb_safeName rb) (rb_previous rb)))
      (\<lambda>_. sees {} (m(?T := f, index_file \<mapsto> ?u))) (\<lambda>_ s. \<exists>i. (i = m index_file \<or> i = Some ?u) \<and> sees {} (m(?T := f, index_file := i)) s)"
    for f msg
    by (rule ensures_wrap, rule ensures_conseq [OF sees_rollbackManagedZone])
       (use T(2) in \<open>auto simp: u fun_upd_idem intro: exI [of _ "m index_file"]\<close>)
  have m0: "m(?T := m ?T) = m" by simp
  show ?thesis unfolding run_rollback_def
  proof (rule sees_join3 [where A = "sees {} (m(?T := ?n))" and A' = "\<lambda>s. \<exists>f. (f = m ?T \<or> f = ?n) \<and> sees {} (m(?T := f)) s"])
    show "ensures (sees {} m) (restoreZoneFileSnapshot ?T (rb_snapshot rb)) (\<lambda>_. sees {} (m(?T := ?n)))
        (\<lambda>_ s. \<exists>f. (f = m ?T \<or> f = ?n) \<and> sees {} (m(?T := f)) s)"
      by (rule ensures_conseq [OF sees_restore]) (use T(1) m0 in \<open>auto intro: exI [of _ "m ?T"]\<close>)
    show "ensures (sees {} (m(?T := ?n))) (wrap ''roll back managed zone index'' (rollbackManagedZone F (rb_safeName rb) (rb_previous rb)))
        (\<lambda>_. ?B) (\<lambda>_. ?B')"
      by (rule ensures_conseq [OF mid]) auto
    show "ensures (\<lambda>s. \<exists>f. (f = m ?T \<or> f = ?n) \<and> sees {} (m(?T := f)) s)
        (wrap ''roll back managed zone index'' (rollbackManagedZone F (rb_safeName rb) (rb_previous rb))) (\<lambda>_. ?B') (\<lambda>_. ?B')"
      by (rule ensures_ex, rule ensures_conseq [OF mid]) blast+
    show "ensures ?B' (if rb_backup rb \<noteq> [] then attempt (removeRollbackBackup (rb_backup rb)) else ret (Inr ())) (\<lambda>_. ?B') (\<lambda>_. ?B')"
      by (rule ensures_conseq [OF quiet_ex [OF rm, where A = "\<lambda>(f, i). (f = m ?T \<or> f = ?n) \<and> (i = m index_file \<or> i = Some ?u)"
            and g = "\<lambda>(f, i). m(?T := f, index_file := i)"]]) auto
    show "quiet {} (m(?T := ?n, index_file \<mapsto> ?u)) (if rb_backup rb \<noteq> [] then attempt (removeRollbackBackup (rb_backup rb)) else ret (Inr ()))"
      by (rule rm)
  qed blast
qed

lemma sees_deleteZoneFiles:
  assumes T: "T = GetZonePath F z"
  shows "ensures (sees {} m) (deleteZoneFiles F z) (\<lambda>_. gone (backup_of F z) (m(T := None)))
     (\<lambda>_ s. sees {} m s \<or> gone (backup_of F z) (m(T := None)) s)"
proof -
  let ?G = "gone (backup_of F z) (m(T := None))"
  have "ensures ?G (delete_backups F z c) (\<lambda>_. ?G) (\<lambda>_ s. sees {} m s \<or> ?G s)" for c
    by (rule ensures_conseq [OF gone_delete_backups]) auto
  note d = ensures_pre [OF this]
  have "\<not> scratch T" by (simp add: T zone_path_not_scratch)
  then show ?thesis unfolding deleteZoneFiles_def T [symmetric]
    by (intro ensures_handle [OF sees_Remove] ensures_if d ensures_throw) (auto intro!: gone_refl simp: fun_upd_idem)
qed

lemma sees_removeManagedZone:
  "ensures (sees {} m) (removeManagedZone F z)
     (\<lambda>_. sees {} (m(index_file \<mapsto> index_node F (AList.delete (safe_name F z) (index_of F (m index_file))))))
     (\<lambda>_. either {} m index_file (Some (index_node F (AList.delete (safe_name F z) (index_of F (m index_file))))))"
  unfolding removeManagedZone_def by (rule sees_modify_index) simp

end
