(* ===== verification/Zone_Files.thy ===== *)
theory Zone_Files
  imports Go_Strings
begin

section \<open>What the agent's syncer needs of its file manager\<close>

text \<open>
  The operations on zone files as the syncer calls them, with the results it distinguishes, and their
  contract. Files and managed zones are named by safe file names. Every operation may fail in many ways; the
  contract says what a success means and what a failure can have changed at most: a file is never anything
  but its old or its new content. \<open>apart a n\<close> means that work on the file \<open>a\<close> never touches the file \<open>n\<close>.
\<close>

record ('f, 'r, 'e) file_ops =
  fo_exists :: "string \<Rightarrow> 'f \<Rightarrow> bool \<times> 'f"
  fo_read :: "string \<Rightarrow> 'f \<Rightarrow> ('e + string) \<times> 'f"
  fo_write :: "string \<Rightarrow> string \<Rightarrow> (string \<Rightarrow> string option) option \<Rightarrow> 'f \<Rightarrow> ('e + 'r) \<times> 'f"
  fo_rollback :: "'r \<Rightarrow> 'f \<Rightarrow> 'e option \<times> 'f"
  fo_delete :: "string \<Rightarrow> 'f \<Rightarrow> 'e option \<times> 'f"
  fo_remove :: "string \<Rightarrow> 'f \<Rightarrow> 'e option \<times> 'f"
  fo_list :: "'f \<Rightarrow> ('e + (string \<times> string) list) \<times> 'f"

locale zone_files =
  fixes ops :: "('f, 'r, 'e) file_ops"
    and safe :: "string \<Rightarrow> string"
    and apart :: "string \<Rightarrow> string \<Rightarrow> bool"
    and content :: "'f \<Rightarrow> string \<Rightarrow> string option"
    and managed :: "'f \<Rightarrow> string set"
    and inv :: "'f \<Rightarrow> bool"
    and undoes :: "'r \<Rightarrow> string \<Rightarrow> string option \<Rightarrow> bool \<Rightarrow> bool" \<comment> \<open>the file, its content and whether it was managed\<close>
    and name_ok :: "string \<Rightarrow> bool"
  assumes apart_irrefl: "apart a n \<Longrightarrow> n \<noteq> a"
    and exists_law:
      "inv s \<Longrightarrow> fo_exists ops z s = (b, s') \<Longrightarrow>
        inv s' \<and> content s' = content s \<and> managed s' = managed s \<and> (b \<longrightarrow> content s (safe z) \<noteq> None)"
    and read_law:
      "inv s \<Longrightarrow> fo_read ops z s = (rr, s') \<Longrightarrow>
        inv s' \<and> content s' = content s \<and> managed s' = managed s \<and> (\<forall>c. rr = Inr c \<longrightarrow> content s (safe z) = Some c)"
    and write_law:
      "inv s \<Longrightarrow> name_ok z \<Longrightarrow> fo_write ops z c v s = (rw, s') \<Longrightarrow>
        inv s' \<and> (\<forall>n. apart (safe z) n \<longrightarrow> content s' n = content s n)
        \<and> managed s \<subseteq> managed s' \<and> managed s' \<subseteq> insert (safe z) (managed s)
        \<and> (case rw of
             Inl _ \<Rightarrow> content s' (safe z) = content s (safe z) \<or> content s' (safe z) = Some c
           | Inr rb \<Rightarrow> content s' (safe z) = Some c \<and> safe z \<in> managed s' \<and> undoes rb (safe z) (content s (safe z)) (safe z \<in> managed s))"
    and rollback_law:
      "inv s \<Longrightarrow> undoes rb n old was \<Longrightarrow> fo_rollback ops rb s = (r, s') \<Longrightarrow>
        inv s' \<and> (\<forall>k. k \<noteq> n \<longrightarrow> content s' k = content s k \<and> (k \<in> managed s' \<longleftrightarrow> k \<in> managed s))
        \<and> (content s' n = content s n \<or> content s' n = old) \<and> (r = None \<longrightarrow> content s' n = old \<and> (n \<in> managed s' \<longleftrightarrow> was))"
    and delete_law:
      "inv s \<Longrightarrow> fo_delete ops z s = (r, s') \<Longrightarrow>
        inv s' \<and> (\<forall>n. apart (safe z) n \<longrightarrow> content s' n = content s n) \<and> managed s' = managed s
        \<and> (content s' (safe z) = content s (safe z) \<or> content s' (safe z) = None) \<and> (r = None \<longrightarrow> content s' (safe z) = None)"
    and remove_law:
      "inv s \<Longrightarrow> fo_remove ops z s = (r, s') \<Longrightarrow>
        inv s' \<and> content s' = content s \<and> (managed s' = managed s \<or> managed s' = managed s - {safe z})
        \<and> (r = None \<longrightarrow> managed s' = managed s - {safe z})"
    and list_law:
      "inv s \<Longrightarrow> fo_list ops s = (rl, s') \<Longrightarrow>
        inv s' \<and> content s' = content s \<and> managed s' = managed s
        \<and> (\<forall>refs. rl = Inr refs \<longrightarrow> snd ` set refs = managed s \<and> (\<forall>(z, n) \<in> set refs. safe z = n))"

end
