(* ===== verification/File_Laws.thy ===== *)
theory File_Laws
  imports File_Facts Zone_Files
begin

section \<open>The file manager keeps the contract\<close>

text \<open>
  The abstract state of the file manager: the content of each zone file and the set of managed file names.
  The index is well formed when every zone name in it belongs to its file name. With a JSON codec that
  round-trips, every operation keeps the contract of \<open>Zone_Files\<close>, under every pattern of failures.

  One clause of the contract is weaker than one would like: work on a zone can touch the file of another zone
  whose name continues with \<open>.zone.backup.\<close>, because such a file looks like a backup. The last theorem
  shows that this happens.
\<close>

subsection \<open>File names are their own safe names\<close>

lemma last_replace_invalid:
  "s \<noteq> [] \<Longrightarrow> last s \<noteq> CHR ''.'' \<Longrightarrow> replace_invalid s \<noteq> [] \<and> last (replace_invalid s) \<noteq> CHR ''.''"
proof (induction s rule: replace_invalid.induct)
  case (1 s)
  let ?w = "snd (decode_rune s)"
  let ?c = "if filename_char (hd s) then hd s else CHR ''_''"
  have step: "replace_invalid s = ?c # replace_invalid (drop ?w s)" using 1 by (subst replace_invalid.simps) simp
  show ?case
  proof (cases "drop ?w s = []")
    case True
    have "replace_invalid [] = []" by (subst replace_invalid.simps) simp
    moreover have "hd s \<noteq> CHR ''.''"
    proof
      assume dot: "hd s = CHR ''.''"
      then have "?w = 1" using 1(2) by (cases s) (auto simp: byte_def)
      with True 1(2) have "length s = 1" by (cases s) auto
      with dot 1(2,3) show False by (cases s) auto
    qed
    ultimately show ?thesis using step True by auto
  next
    case False
    then have "last (drop ?w s) = last s" by (simp add: last_drop)
    then show ?thesis using step 1(1) [OF 1(2) False] 1(3) False by auto
  qed
qed

lemma last_replace_dotdot:
  "s \<noteq> [] \<Longrightarrow> last s \<noteq> CHR ''.'' \<Longrightarrow> replace_dotdot s \<noteq> [] \<and> last (replace_dotdot s) \<noteq> CHR ''.''"
proof (induction s rule: replace_dotdot.induct)
  case (1 a b s)
  show ?case
  proof (cases "a = CHR ''.'' \<and> b = CHR ''.''")
    case True
    then show ?thesis using 1 by (cases "s = []") auto
  next
    case False
    then have "replace_dotdot (a # b # s) = a # replace_dotdot (b # s)" by simp
    moreover have "last (b # s) \<noteq> CHR ''.''" using "1.prems"(2) by simp
    ultimately show ?thesis using "1.IH"(2) [OF False] by simp
  qed
qed simp_all

lemma TrimRight_dots_last: "TrimRight_dots s = [] \<or> last (TrimRight_dots s) \<noteq> CHR ''.''"
  using hd_dropWhile [of "\<lambda>c. c = CHR ''.''" "rev s"]
  by (cases "dropWhile (\<lambda>c. c = CHR ''.'') (rev s) = []") (auto simp: TrimRight_dots_def last_rev)

lemma safe_filename_self:
  assumes "safe_filename f" "last f \<noteq> CHR ''.''"
  shows "SafeZoneFilename h f = f"
proof -
  have f: "f \<noteq> []" "length f \<le> 200" "list_all filename_char f" "\<not> Contains f ''..''"
    using assms(1) by (auto simp: safe_filename_def)
  have "lower_char c = c" if "c \<in> set f" for c
    using f(3) that by (auto simp: list_all_iff filename_char_def lower_char_def char_class_defs)
  then have "ToLower f = f" by (simp add: ToLower_def map_idI)
  then show ?thesis using f assms(2)
    by (simp add: SafeZoneFilename_def TrimRight_dots_id replace_invalid_id replace_dotdot_id Let_def maxSafeZoneFilenameLength_def)
qed

lemma SafeZoneFilename_last:
  assumes "hex_digest h"
  shows "last (SafeZoneFilename h z) \<noteq> CHR ''.''"
proof -
  let ?t = "ToLower (TrimRight_dots z)"
  let ?n = "replace_dotdot (replace_invalid ?t)"
  have "?t = [] \<or> last ?t \<noteq> CHR ''.''"
    using TrimRight_dots_last [of z] by (auto simp: ToLower_def last_map)
  then have n: "?n = [] \<or> last ?n \<noteq> CHR ''.''"
  proof
    assume "?t = []"
    then have "?n = []" by (simp add: replace_invalid.simps)
    then show ?thesis ..
  next
    assume t: "last ?t \<noteq> CHR ''.''"
    show ?thesis
    proof (cases "?t = []")
      case False
      with t have "replace_invalid ?t \<noteq> [] \<and> last (replace_invalid ?t) \<noteq> CHR ''.''" by (rule last_replace_invalid [rotated])
      then show ?thesis using last_replace_dotdot by blast
    qed (simp add: replace_invalid.simps)
  qed
  note hs = hash_suffix [OF assms, of ?n]
  have "safeZoneFilenameHash h ?n \<noteq> []" using hs(1) by auto
  then have "last (safeZoneFilenameHash h ?n) \<noteq> CHR ''.''" using hs(4) by (metis last_in_set)
  then show ?thesis using n \<open>safeZoneFilenameHash h ?n \<noteq> []\<close>
    by (auto simp: SafeZoneFilename_def Let_def)
qed

lemma SafeZoneFilename_idem: "hex_digest h \<Longrightarrow> SafeZoneFilename h (SafeZoneFilename h z) = SafeZoneFilename h z"
  by (intro safe_filename_self SafeZoneFilename_is_safe SafeZoneFilename_last)

lemma TrimRight_dots_Normalize: "TrimRight_dots (NormalizeZoneName z) = ToLower (TrimRight_dots z)"
proof -
  have low: "TrimRight_dots (ToLower z) = ToLower (TrimRight_dots z)"
    by (simp add: TrimRight_dots_def ToLower_def rev_map dropWhile_map comp_def)
  then show ?thesis by (auto simp: NormalizeZoneName_def Let_def TrimRight_dots_snoc TrimRight_dots_def)
qed

lemma SafeZoneFilename_Normalize: "SafeZoneFilename h (NormalizeZoneName z) = SafeZoneFilename h z"
  by (simp add: SafeZoneFilename_def TrimRight_dots_Normalize)

subsection \<open>The index\<close>

definition entry_ok :: "fm_env \<Rightarrow> string \<times> string \<Rightarrow> bool" where
  "entry_ok F e \<longleftrightarrow> safe_name F (snd e) = fst e \<and> no_space (snd e) \<and> snd e \<noteq> []"

definition fm_ok :: "fm_env \<Rightarrow> bool" where
  "fm_ok F \<longleftrightarrow> hex_digest (fe_sha256hex F) \<and>
     (\<forall>es. (\<forall>e \<in> set es. no_space (me_Name e) \<and> no_space (me_File e)) \<longrightarrow>
        fe_Unmarshal F (fe_Marshal F es @ [CHR 0x0A]) = Some \<lparr>mi_Zones = [], mi_Entries = es\<rparr>)"

lemma filename_char_no_space: "list_all filename_char f \<Longrightarrow> no_space f"
  by (auto simp: list_all_iff no_space_def filename_char_def is_lower_def is_digit_def ascii_space_def byte_def)

lemma safe_name_facts:
  assumes "fm_ok F"
  shows "no_space (safe_name F z)" "safe_name F z \<noteq> []" "safe_name F (safe_name F z) = safe_name F z"
  using assms SafeZoneFilename_is_safe [of "fe_sha256hex F" z] SafeZoneFilename_idem [of "fe_sha256hex F" z]
  by (auto simp: fm_ok_def safe_filename_def filename_char_no_space)

lemma no_space_Normalize: "no_space z \<Longrightarrow> no_space (NormalizeZoneName z)"
proof -
  assume z: "no_space z"
  have "byte (lower_char c) < 128 \<and> \<not> ascii_space (lower_char c)" if "c \<in> set z" for c
    using z that by (auto simp: no_space_def ascii_space_def byte_lower_char is_upper_def)
  then show ?thesis
    by (auto simp: no_space_def NormalizeZoneName_def Let_def ToLower_def) (simp_all add: byte_def ascii_space_def)
qed

lemma Normalize_nonempty [simp]: "NormalizeZoneName z = [] \<longleftrightarrow> z = []"
  by (auto simp: NormalizeZoneName_def Let_def)

lemma entry_ok_zone: "no_space z \<Longrightarrow> z \<noteq> [] \<Longrightarrow> entry_ok F (safe_name F z, NormalizeZoneName z)"
  by (simp add: entry_ok_def SafeZoneFilename_Normalize no_space_Normalize)

lemma set_AList_update: "set (AList.update k v al) \<subseteq> insert (k, v) (set al)"
  by (induction al) auto

lemma set_AList_delete: "set (AList.delete k al) = {e \<in> set al. fst e \<noteq> k}"
  by (auto simp: AList.delete_eq)

lemma add_entry_ok:
  assumes "fm_ok F" "entry_ok F (k, v)"
  shows "add_entry F zones \<lparr>me_Name = v, me_File = k\<rparr> = AList.update k (NormalizeZoneName v) zones"
proof -
  have v: "safe_name F v = k" "no_space v" "v \<noteq> []" using assms(2) by (auto simp: entry_ok_def)
  have k: "no_space k" "k \<noteq> []" "safe_name F k = k" using safe_name_facts [OF assms(1), of v] by (simp_all add: v(1))
  show ?thesis
    by (simp add: add_entry_def Let_def no_space_TrimSpace [OF k(1)] no_space_TrimSpace [OF v(2)] k v)
qed

lemma foldl_add_entry:
  assumes "fm_ok F" "\<forall>e \<in> set es. entry_ok F e" "\<forall>e \<in> set acc. entry_ok F e"
  shows "fst ` set (foldl (add_entry F) acc (map (\<lambda>(k, v). \<lparr>me_Name = v, me_File = k\<rparr>) es)) = fst ` set acc \<union> fst ` set es
    \<and> (\<forall>e \<in> set (foldl (add_entry F) acc (map (\<lambda>(k, v). \<lparr>me_Name = v, me_File = k\<rparr>) es)). entry_ok F e)"
  using assms(2,3)
proof (induction es arbitrary: acc)
  case (Cons e es)
  obtain k v where e: "e = (k, v)" by fastforce
  have ok: "entry_ok F (k, v)" using Cons.prems e by simp
  then have "entry_ok F (k, NormalizeZoneName v)"
    by (simp add: entry_ok_def SafeZoneFilename_Normalize no_space_Normalize)
  then have "\<forall>e \<in> set (AList.update k (NormalizeZoneName v) acc). entry_ok F e"
    using set_AList_update [of k "NormalizeZoneName v" acc] Cons.prems(2) by auto
  from Cons.IH [OF _ this] Cons.prems(1) show ?case
    by (simp add: e add_entry_ok [OF assms(1) ok] AList.dom_update)
qed simp

text \<open>Writing a well-formed index and reading it back gives the same file names, well formed.\<close>

lemma index_round_trip:
  assumes "fm_ok F" "\<forall>e \<in> set zones. entry_ok F e"
  shows "fst ` set (index_of F (Some (index_node F zones))) = fst ` set zones"
    "\<forall>e \<in> set (index_of F (Some (index_node F zones))). entry_ok F e"
proof -
  have sp: "no_space k \<and> no_space v" if "(k, v) \<in> set zones" for k v
  proof -
    have "safe_name F v = k" "no_space v" using assms(2) that by (auto simp: entry_ok_def)
    then show ?thesis using safe_name_facts(1) [OF assms(1), of v] by simp
  qed
  have "\<forall>e \<in> set (index_entries zones). no_space (me_Name e) \<and> no_space (me_File e)"
    by (auto simp: index_entries_def dest: sp)
  then have "fe_Unmarshal F (fe_Marshal F (index_entries zones) @ [CHR 0x0A]) =
      Some \<lparr>mi_Zones = [], mi_Entries = index_entries zones\<rparr>"
    using assms(1) unfolding fm_ok_def by blast
  then have i: "index_of F (Some (index_node F zones)) = foldl (add_entry F) [] (index_entries zones)"
    by (simp add: index_of_def index_node_def index_zones_def)
  have "fst ` set (foldl (add_entry F) [] (index_entries zones)) = fst ` set zones
      \<and> (\<forall>e \<in> set (foldl (add_entry F) [] (index_entries zones)). entry_ok F e)"
    using foldl_add_entry [OF assms(1), of "sort_key fst zones" "[]"] assms(2) by (simp add: index_entries_def)
  then show "fst ` set (index_of F (Some (index_node F zones))) = fst ` set zones"
    "\<forall>e \<in> set (index_of F (Some (index_node F zones))). entry_ok F e" by (simp_all add: i)
qed

subsection \<open>The abstract state\<close>

fun data_of :: "node option \<Rightarrow> string option" where
  "data_of (Some (Regular d p t)) = Some d"
| "data_of _ = None"

definition zone_content :: "fs \<Rightarrow> string \<Rightarrow> string option" where
  "zone_content s n = data_of (map_of (fs_files s) (n @ ''.zone''))"

definition managed_names :: "fm_env \<Rightarrow> fs \<Rightarrow> string set" where
  "managed_names F s = fst ` set (index_of F (view {} s index_file))"

definition fm_inv :: "fm_env \<Rightarrow> fs \<Rightarrow> bool" where
  "fm_inv F s \<longleftrightarrow> (\<forall>e \<in> set (index_of F (view {} s index_file)). entry_ok F e)"

text \<open>A zone file that does not look like a backup of the other zone.\<close>

definition apart_files :: "string \<Rightarrow> string \<Rightarrow> bool" where
  "apart_files a n \<longleftrightarrow> n \<noteq> a \<and> \<not> HasPrefix (n @ ''.zone'') (a @ ''.zone.backup.'')"

definition rb_undoes :: "fm_env \<Rightarrow> rollback \<Rightarrow> string \<Rightarrow> string option \<Rightarrow> bool \<Rightarrow> bool" where
  "rb_undoes F rb n old was \<longleftrightarrow> rb_target rb = n @ ''.zone'' \<and> rb_safeName rb = n
     \<and> map_option fst (rb_snapshot rb) = old \<and> (rb_backup rb = [] \<or> scratch (rb_backup rb))
     \<and> (\<forall>p. rb_previous rb = Some p \<longrightarrow> entry_ok F (n, p)) \<and> (rb_previous rb \<noteq> None \<longleftrightarrow> was)"

definition zone_name_ok :: "string \<Rightarrow> bool" where
  "zone_name_ok z \<longleftrightarrow> no_space z \<and> z \<noteq> []"

lemma data_of_erase [simp]: "data_of (map_option erase nd) = data_of nd"
  by (cases nd; cases "the nd") auto

lemma zone_content_view: "zone_content s n = data_of (view {} s (n @ ''.zone''))"
  by (simp add: zone_content_def view_def scratch_def)

lemma sees_abstract:
  assumes "sees {} m s"
  shows "zone_content s n = data_of (m (n @ ''.zone''))" "managed_names F s = fst ` set (index_of F (m index_file))"
    "fm_inv F s \<longleftrightarrow> (\<forall>e \<in> set (index_of F (m index_file)). entry_ok F e)"
  using assms by (simp_all add: zone_content_view managed_names_def fm_inv_def sees_def)

lemma sees_view: "sees {} (view {} s) s"
  by (simp add: sees_def)

lemma zone_file_not_index: "n @ ''.zone'' \<noteq> index_file"
proof
  assume "n @ ''.zone'' = index_file"
  then have "last (n @ ''.zone'') = last index_file" by simp
  then show False by (simp add: managedZonesIndexFile_def)
qed

lemma not_backup: "\<not> HasPrefix (a @ ''.zone'') (a @ ''.zone.backup.'')" "\<not> HasPrefix index_file (a @ ''.zone.backup.'')"
proof -
  show "\<not> HasPrefix (a @ ''.zone'') (a @ ''.zone.backup.'')" by (simp add: HasPrefix_def)
  have "\<not> Contains index_file ''.zone.backup.''" unfolding managedZonesIndexFile_def by code_simp
  then show "\<not> HasPrefix index_file (a @ ''.zone.backup.'')" by (auto simp: HasPrefix_iff Contains_iff)
qed

lemma data_as_node: "data_of (as_node sn) = map_option fst sn"
  by (cases sn) (auto simp: as_node_def)

subsection \<open>The laws\<close>

lemma run_triple:
  assumes "ensures (sees {} (view {} s)) a Q E" "a s = (r, s')"
  shows "case r of Inr x \<Rightarrow> Q x s' | Inl e \<Rightarrow> E e s'"
  using ensuresD [OF assms(1) sees_view] assms(2) by (cases r) auto

lemma quiet_law:
  assumes "quiet {} (view {} s) a" "a s = (r, s')"
  shows "view {} s' = view {} s" "zone_content s' = zone_content s" "managed_names F s' = managed_names F s"
    "fm_inv F s' = fm_inv F s"
proof -
  have "sees {} (view {} s) s'" using run_triple [OF assms] by (cases r) auto
  then show v: "view {} s' = view {} s" by (simp add: sees_def)
  then show "zone_content s' = zone_content s" "managed_names F s' = managed_names F s" "fm_inv F s' = fm_inv F s"
    by (simp_all add: zone_content_view managed_names_def fm_inv_def fun_eq_iff)
qed

lemma ZoneExists_law:
  assumes "ZoneExists F z s = (r, s')"
  shows "\<exists>b. r = Inr b \<and> (b \<longrightarrow> zone_content s (safe_name F z) \<noteq> None)"
proof -
  have "ensures (sees {} (view {} s)) (ZoneExists F z) (\<lambda>b s'. b \<longrightarrow> data_of (view {} s (GetZonePath F z)) \<noteq> None) (\<lambda>_ _. False)"
    unfolding ZoneExists_def
  proof (rule ensures_bind, rule ensures_attempt, rule sees_bind [OF quiet_ensure(1)])
    let ?R = "\<lambda>r :: fs_error + node. \<lambda>_ :: fs. \<forall>nd. r = Inr nd \<longrightarrow> view {} s (GetZonePath F z) = Some (erase nd)"
    show "ensures (sees {} (view {} s)) (os_Lstat (GetZonePath F z)) (\<lambda>nd. ?R (Inr nd)) (\<lambda>e. ?R (Inl e))"
      by (rule ensures_conseq [OF sees_Lstat]) (auto simp: zone_path_not_scratch)
    show "ensures (?R r) (ret (case r of Inr (Regular _ _ _) \<Rightarrow> True | _ \<Rightarrow> False))
        (\<lambda>b s'. b \<longrightarrow> data_of (view {} s (GetZonePath F z)) \<noteq> None) (\<lambda>_ _. False)" for r
      by (auto intro!: ensures_ret split: sum.splits node.splits)
  qed simp
  from run_triple [OF this assms] show ?thesis
    by (cases r) (auto simp: zone_content_view GetZonePath_def ZoneFileName_def)
qed

lemma ReadZoneFile_law:
  assumes "ReadZoneFile F z s = (Inr c, s')"
  shows "zone_content s (safe_name F z) = Some c"
proof -
  have "ensures (sees {} (view {} s)) (ReadZoneFile F z) (\<lambda>c s'. data_of (view {} s (GetZonePath F z)) = Some c) (\<lambda>_ _. True)"
    unfolding ReadZoneFile_def
    by (rule sees_bind [OF quiet_ensure(1)], rule ensures_wrap [where E' = "\<lambda>_. True"],
        rule ensures_seq [OF sees_readRegularSyncFile [OF zone_path_not_scratch]])
       (auto intro!: ensures_ret)
  from run_triple [OF this assms] show ?thesis by (simp add: zone_content_view GetZonePath_def ZoneFileName_def)
qed

lemma gone_at: "gone B m s \<Longrightarrow> \<not> B n \<Longrightarrow> \<not> scratch n \<Longrightarrow> view {} s n = m n"
  by (auto simp: gone_def lost_def sees_def)

lemma gone_abstract:
  assumes "gone (backup_of F z) m s"
  shows "apart_files (safe_name F z) n \<or> n = safe_name F z \<Longrightarrow> zone_content s n = data_of (m (n @ ''.zone''))"
    "managed_names F s = fst ` set (index_of F (m index_file))"
    "fm_inv F s \<longleftrightarrow> (\<forall>e \<in> set (index_of F (m index_file)). entry_ok F e)"
proof -
  have i: "view {} s index_file = m index_file"
    using gone_at [OF assms, of index_file] not_backup(2) by (simp add: index_not_scratch ZoneBackupPrefix_def)
  show "managed_names F s = fst ` set (index_of F (m index_file))"
    "fm_inv F s \<longleftrightarrow> (\<forall>e \<in> set (index_of F (m index_file)). entry_ok F e)"
    by (simp_all add: managed_names_def fm_inv_def i)
  assume n: "apart_files (safe_name F z) n \<or> n = safe_name F z"
  then have "\<not> backup_of F z (n @ ''.zone'')" using not_backup(1) by (auto simp: apart_files_def ZoneBackupPrefix_def)
  then have "view {} s (n @ ''.zone'') = m (n @ ''.zone'')" using gone_at [OF assms] by (simp add: scratch_def)
  then show "zone_content s n = data_of (m (n @ ''.zone''))" by (simp add: zone_content_view)
qed

lemma recorded_index:
  assumes "fm_ok F" "zone_name_ok z" "\<forall>e \<in> set (index_of F (m index_file)). entry_ok F e"
  shows "fst ` set (index_of F (Some (recorded F z m))) = insert (safe_name F z) (fst ` set (index_of F (m index_file)))"
    "\<forall>e \<in> set (index_of F (Some (recorded F z m))). entry_ok F e"
proof -
  have "\<forall>e \<in> set (AList.update (safe_name F z) (NormalizeZoneName z) (index_of F (m index_file))). entry_ok F e"
    using set_AList_update assms(2,3) entry_ok_zone [of z F] by (fastforce simp: zone_name_ok_def)
  note r = index_round_trip [OF assms(1) this]
  show "fst ` set (index_of F (Some (recorded F z m))) = insert (safe_name F z) (fst ` set (index_of F (m index_file)))"
    using r(1) by (simp add: recorded_def AList.dom_update)
  show "\<forall>e \<in> set (index_of F (Some (recorded F z m))). entry_ok F e" using r(2) by (simp add: recorded_def)
qed

lemma write_file_law:
  assumes "fm_ok F" "fm_inv F s" "zone_name_ok z" "WriteZoneFileValidatedWithRollback F fm z c v s = (r, s')"
  shows "fm_inv F s' \<and> (\<forall>n. apart_files (safe_name F z) n \<longrightarrow> zone_content s' n = zone_content s n)
    \<and> managed_names F s \<subseteq> managed_names F s' \<and> managed_names F s' \<subseteq> insert (safe_name F z) (managed_names F s)
    \<and> (case r of
         Inl e \<Rightarrow> zone_content s' (safe_name F z) = zone_content s (safe_name F z)
           \<or> rollback_failed e \<and> zone_content s' (safe_name F z) = Some c
       | Inr rb \<Rightarrow> zone_content s' (safe_name F z) = Some c \<and> safe_name F z \<in> managed_names F s'
           \<and> rb_undoes F rb (safe_name F z) (zone_content s (safe_name F z)) (safe_name F z \<in> managed_names F s))"
proof -
  let ?m = "view {} s" and ?T = "GetZonePath F z" and ?n = "safe_name F z"
  have T: "?T = ?n @ ''.zone''" by (simp add: GetZonePath_def ZoneFileName_def)
  have ok: "\<forall>e \<in> set (index_of F (?m index_file)). entry_ok F e" using assms(2) by (simp add: fm_inv_def)
  note rec = recorded_index [of F z ?m, OF assms(1,3) ok]
  note out = run_triple [OF sees_WriteZoneFile [OF refl] assms(4)]
  have zc: "zone_content s k = data_of (?m (k @ ''.zone''))" for k by (rule zone_content_view)
  have mn: "managed_names F s = fst ` set (index_of F (?m index_file))" by (simp add: managed_names_def)
  show ?thesis
  proof (cases r)
    case (Inr rb)
    with out have rb: "rb_target rb = ?T" "as_node (rb_snapshot rb) = ?m ?T" "rb_safeName rb = ?n"
      "rb_previous rb = map_of (index_of F (?m index_file)) ?n" "rb_backup rb = [] \<or> scratch (rb_backup rb)"
      and g: "gone (backup_of F z) (?m(?T \<mapsto> Regular c 420 0, index_file \<mapsto> recorded F z ?m)) s'" by auto
    have "entry_ok F (?n, p)" if "rb_previous rb = Some p" for p
      using that ok map_of_SomeD by (fastforce simp: rb(4))
    then have "rb_undoes F rb ?n (zone_content s ?n) (?n \<in> managed_names F s)"
      using rb data_as_node [of "rb_snapshot rb"]
      by (simp add: rb_undoes_def T zc mn map_of_eq_None_iff del: not_None_eq)
    then show ?thesis using gone_abstract [OF g] rec Inr
      by (auto simp: T zc mn zone_file_not_index apart_files_def)
  next
    case (Inl e)
    with out obtain i where i: "i = ?m index_file \<or> i = Some (recorded F z ?m)"
      and s': "sees {} (?m(index_file := i)) s' \<or> rollback_failed e \<and> sees {} (?m(?T \<mapsto> Regular c 420 0, index_file := i)) s'"
      by auto
    have "(\<forall>e \<in> set (index_of F i). entry_ok F e) \<and> fst ` set (index_of F (?m index_file)) \<subseteq> fst ` set (index_of F i)
        \<and> fst ` set (index_of F i) \<subseteq> insert ?n (fst ` set (index_of F (?m index_file)))"
      using i ok rec by auto
    then show ?thesis using s' Inl
      by (elim disjE conjE) (simp_all add: sees_abstract T zc mn zone_file_not_index apart_files_def)
  qed
qed

lemma unrecorded_index:
  assumes "fm_ok F" "rb_undoes F rb n old was" "\<forall>e \<in> set (index_of F (m index_file)). entry_ok F e"
  shows "fst ` set (index_of F (Some (unrecorded F rb m))) - {n} = fst ` set (index_of F (m index_file)) - {n}"
    "\<forall>e \<in> set (index_of F (Some (unrecorded F rb m))). entry_ok F e"
    "n \<in> fst ` set (index_of F (Some (unrecorded F rb m))) \<longleftrightarrow> was"
proof -
  define zones where "zones = (case rb_previous rb of
      Some p \<Rightarrow> AList.update (rb_safeName rb) p (index_of F (m index_file))
    | None \<Rightarrow> AList.delete (rb_safeName rb) (index_of F (m index_file)))"
  have rb: "rb_safeName rb = n" "\<And>p. rb_previous rb = Some p \<Longrightarrow> entry_ok F (n, p)"
    using assms(2) by (auto simp: rb_undoes_def)
  have "\<forall>e \<in> set zones. entry_ok F e"
  proof (cases "rb_previous rb")
    case (Some p)
    then show ?thesis using rb assms(3) set_AList_update [of n p "index_of F (m index_file)"] by (auto simp: zones_def)
  qed (use assms(3) in \<open>simp add: zones_def set_AList_delete\<close>)
  note r = index_round_trip [OF assms(1) this]
  have "fst ` set zones - {n} = fst ` set (index_of F (m index_file)) - {n}"
    by (force simp: zones_def rb(1) AList.dom_update set_AList_delete split: option.split)
  moreover have "n \<in> fst ` set zones \<longleftrightarrow> was"
    using assms(2) by (auto simp: zones_def rb(1) AList.dom_update set_AList_delete rb_undoes_def split: option.split)
  ultimately show "fst ` set (index_of F (Some (unrecorded F rb m))) - {n} = fst ` set (index_of F (m index_file)) - {n}"
    "\<forall>e \<in> set (index_of F (Some (unrecorded F rb m))). entry_ok F e"
    "n \<in> fst ` set (index_of F (Some (unrecorded F rb m))) \<longleftrightarrow> was"
    using r by (simp_all add: unrecorded_def zones_def)
qed

lemma rollback_file_law:
  assumes "fm_ok F" "fm_inv F s" "rb_undoes F rb n old was" "run_rollback F rb s = (r, s')"
  shows "fm_inv F s' \<and> (\<forall>k. k \<noteq> n \<longrightarrow> zone_content s' k = zone_content s k
      \<and> (k \<in> managed_names F s' \<longleftrightarrow> k \<in> managed_names F s))
    \<and> (zone_content s' n = zone_content s n \<or> zone_content s' n = old)
    \<and> (r = Inr () \<longrightarrow> zone_content s' n = old \<and> (n \<in> managed_names F s' \<longleftrightarrow> was))"
proof -
  let ?m = "view {} s"
  have rb: "rb_target rb = n @ ''.zone''" "data_of (as_node (rb_snapshot rb)) = old"
    "rb_backup rb = [] \<or> scratch (rb_backup rb)"
    using assms(3) by (auto simp: rb_undoes_def data_as_node)
  have ok: "\<forall>e \<in> set (index_of F (?m index_file)). entry_ok F e" using assms(2) by (simp add: fm_inv_def)
  note un = unrecorded_index [where m = ?m, OF assms(1,3) ok]
  have T: "\<not> scratch (rb_target rb)" "rb_target rb \<noteq> index_file" by (simp_all add: rb(1) scratch_def zone_file_not_index)
  note out = run_triple [OF sees_run_rollback [OF T rb(3)] assms(4)]
  have other: "k \<noteq> n \<Longrightarrow> k \<in> fst ` set (index_of F (Some (unrecorded F rb ?m))) \<longleftrightarrow> k \<in> fst ` set (index_of F (?m index_file))" for k
    using un(1) by blast
  have concl: ?thesis
    if "sees {} (?m(rb_target rb := f, index_file := i)) s'" "f = ?m (rb_target rb) \<or> f = as_node (rb_snapshot rb)"
      "i = ?m index_file \<or> i = Some (unrecorded F rb ?m)" "r = Inr () \<longrightarrow> f = as_node (rb_snapshot rb) \<and> i = Some (unrecorded F rb ?m)" for f i
    using that(2-4) ok un(2,3) other
    by (elim disjE) (simp_all add: sees_abstract [OF that(1)] zone_content_view [of s] managed_names_def [of F s]
        zone_file_not_index rb)
  show ?thesis
  proof (cases r)
    case (Inr u)
    with out have "sees {} (?m(rb_target rb := as_node (rb_snapshot rb), index_file \<mapsto> unrecorded F rb ?m)) s'" by simp
    then show ?thesis by (rule concl) auto
  next
    case (Inl e)
    with out obtain f i where "sees {} (?m(rb_target rb := f, index_file := i)) s'"
      "f = ?m (rb_target rb) \<or> f = as_node (rb_snapshot rb)" "i = ?m index_file \<or> i = Some (unrecorded F rb ?m)" by auto
    then show ?thesis by (rule concl) (simp add: Inl)
  qed
qed

lemma delete_file_law:
  assumes "fm_inv F s" "deleteZoneFiles F z s = (r, s')"
  shows "fm_inv F s' \<and> (\<forall>n. apart_files (safe_name F z) n \<longrightarrow> zone_content s' n = zone_content s n)
    \<and> managed_names F s' = managed_names F s
    \<and> (zone_content s' (safe_name F z) = zone_content s (safe_name F z) \<or> zone_content s' (safe_name F z) = None)
    \<and> (r = Inr () \<longrightarrow> zone_content s' (safe_name F z) = None)"
proof -
  let ?m = "view {} s" and ?n = "safe_name F z"
  have T: "GetZonePath F z = ?n @ ''.zone''" by (simp add: GetZonePath_def ZoneFileName_def)
  note out = run_triple [OF sees_deleteZoneFiles [OF refl] assms(2), unfolded T]
  have g: ?thesis if "gone (backup_of F z) (?m(?n @ ''.zone'' := None)) s'"
    using gone_abstract [OF that] assms(1)
    by (auto simp: zone_content_view [of s] managed_names_def [of F s] fm_inv_def [of F s] zone_file_not_index
        zone_file_not_index [symmetric] apart_files_def)
  have k: ?thesis if "sees {} ?m s'" "r \<noteq> Inr ()"
    using that assms(1)
    by (auto simp: sees_abstract [OF that(1)] zone_content_view [of s] managed_names_def [of F s] fm_inv_def [of F s])
  show ?thesis using out g k by (cases r) auto
qed

lemma remove_managed_law:
  assumes "fm_ok F" "fm_inv F s" "removeManagedZone F z s = (r, s')"
  shows "fm_inv F s' \<and> zone_content s' = zone_content s
    \<and> (managed_names F s' = managed_names F s \<or> managed_names F s' = managed_names F s - {safe_name F z})
    \<and> (r = Inr () \<longrightarrow> managed_names F s' = managed_names F s - {safe_name F z})"
proof -
  let ?m = "view {} s" and ?zones = "AList.delete (safe_name F z) (index_of F (view {} s index_file))"
  have "\<forall>e \<in> set ?zones. entry_ok F e" using assms(2) by (auto simp: fm_inv_def set_AList_delete)
  note i = index_round_trip [OF assms(1) this]
  have d: "fst ` set ?zones = fst ` set (index_of F (?m index_file)) - {safe_name F z}" by (force simp: set_AList_delete)
  note out = run_triple [OF sees_removeManagedZone assms(3)]
  have g: ?thesis if "sees {} (?m(index_file \<mapsto> index_node F ?zones)) s'"
    using sees_abstract [OF that] i d
    by (auto simp: zone_content_view [of s] managed_names_def [of F s] zone_file_not_index fun_eq_iff)
  have k: ?thesis if "sees {} ?m s'" "r \<noteq> Inr ()"
    using that assms(2)
    by (auto simp: sees_abstract [OF that(1)] zone_content_view [of s] managed_names_def [of F s] fm_inv_def [of F s] fun_eq_iff)
  show ?thesis using out g k by (cases r) auto
qed

lemma list_managed_law:
  assumes "fm_inv F s" "listManagedZones F s = (Inr refs, s')"
  shows "snd ` set refs = managed_names F s \<and> (\<forall>(z, n) \<in> set refs. safe_name F z = n)"
proof -
  have "ensures (sees {} (view {} s)) (listManagedZones F)
      (\<lambda>refs s'. refs = map (\<lambda>(a, b). (b, a)) (sort_key fst (index_of F (view {} s index_file)))) (\<lambda>_ _. True)"
    unfolding listManagedZones_def
    by (rule ensures_seq [OF sees_readManagedZones], rule ensures_fact) (auto intro!: ensures_ret)
  from run_triple [OF this assms(2)]
  have r: "refs = map (\<lambda>(a, b). (b, a)) (sort_key fst (index_of F (view {} s index_file)))" by simp
  have "\<forall>e \<in> set (index_of F (view {} s index_file)). safe_name F (snd e) = fst e"
    using assms(1) by (auto simp: fm_inv_def entry_ok_def)
  then show ?thesis by (force simp: r managed_names_def)
qed

subsection \<open>The interpretation\<close>

definition unit_error :: "(fs_error + unit) \<times> fs \<Rightarrow> fs_error option \<times> fs" where
  "unit_error r = (errOf (fst r), snd r)"

definition fm_ops :: "fm_env \<Rightarrow> FileManager \<Rightarrow> (fs, rollback, fs_error) file_ops" where
  "fm_ops F fm =
     \<lparr>fo_exists = (\<lambda>z s. case ZoneExists F z s of (r, s') \<Rightarrow> (case r of Inl _ \<Rightarrow> False | Inr b \<Rightarrow> b, s')),
      fo_read = ReadZoneFile F,
      fo_write = WriteZoneFileValidatedWithRollback F fm,
      fo_rollback = (\<lambda>rb s. unit_error (run_rollback F rb s)),
      fo_delete = (\<lambda>z s. unit_error (deleteZoneFiles F z s)),
      fo_remove = (\<lambda>z s. unit_error (removeManagedZone F z s)),
      fo_list = listManagedZones F\<rparr>"

lemma unit_error_eq: "unit_error x = (r, s') \<Longrightarrow> \<exists>y. x = (y, s') \<and> r = errOf y \<and> (r = None \<longleftrightarrow> y = Inr ())"
  by (cases x; cases "fst x") (auto simp: unit_error_def)

definition fm_good :: "fm_env \<Rightarrow> fs \<Rightarrow> bool" where
  "fm_good F s \<longleftrightarrow> fm_ok F \<and> fm_inv F s"

interpretation fmgr: zone_files "fm_ops F fm" "safe_name F" apart_files zone_content "managed_names F" "fm_good F"
  "rb_undoes F" zone_name_ok for F fm
proof
  fix s s' z b assume "fm_good F s" "fo_exists (fm_ops F fm) z s = (b, s')"
  then obtain r where r: "ZoneExists F z s = (r, s')" "b = (case r of Inl _ \<Rightarrow> False | Inr b \<Rightarrow> b)"
    by (auto simp: fm_ops_def split: prod.splits)
  show "fm_good F s' \<and> zone_content s' = zone_content s \<and> managed_names F s' = managed_names F s
      \<and> (b \<longrightarrow> zone_content s (safe_name F z) \<noteq> None)"
    using quiet_law [OF quiet_zone_reads(1) r(1)] ZoneExists_law [OF r(1)] r(2) \<open>fm_good F s\<close> by (auto simp: fm_good_def)
next
  fix s s' z r assume "fm_good F s" "fo_read (fm_ops F fm) z s = (r, s')"
  then have r: "ReadZoneFile F z s = (r, s')" by (simp add: fm_ops_def)
  show "fm_good F s' \<and> zone_content s' = zone_content s \<and> managed_names F s' = managed_names F s
      \<and> (\<forall>c. r = Inr c \<longrightarrow> zone_content s (safe_name F z) = Some c)"
    using quiet_law [OF quiet_zone_reads(2) r] ReadZoneFile_law [of F z s] r \<open>fm_good F s\<close> by (auto simp: fm_good_def)
next
  fix s z c v r s' assume "fm_good F s" "zone_name_ok z" "fo_write (fm_ops F fm) z c v s = (r, s')"
  then show "fm_good F s' \<and> (\<forall>n. apart_files (safe_name F z) n \<longrightarrow> zone_content s' n = zone_content s n)
      \<and> managed_names F s \<subseteq> managed_names F s' \<and> managed_names F s' \<subseteq> insert (safe_name F z) (managed_names F s)
      \<and> (case r of Inl e \<Rightarrow> zone_content s' (safe_name F z) = zone_content s (safe_name F z) \<or> zone_content s' (safe_name F z) = Some c
         | Inr rb \<Rightarrow> zone_content s' (safe_name F z) = Some c \<and> safe_name F z \<in> managed_names F s'
             \<and> rb_undoes F rb (safe_name F z) (zone_content s (safe_name F z)) (safe_name F z \<in> managed_names F s))"
    using write_file_law [of F s z fm c v r s'] by (auto simp: fm_good_def fm_ops_def split: sum.splits)
next
  fix s rb n old was r s' assume "fm_good F s" "rb_undoes F rb n old was" "fo_rollback (fm_ops F fm) rb s = (r, s')"
  then show "fm_good F s' \<and> (\<forall>k. k \<noteq> n \<longrightarrow> zone_content s' k = zone_content s k \<and> (k \<in> managed_names F s') = (k \<in> managed_names F s))
      \<and> (zone_content s' n = zone_content s n \<or> zone_content s' n = old) \<and> (r = None \<longrightarrow> zone_content s' n = old \<and> (n \<in> managed_names F s') = was)"
    using rollback_file_law [of F s rb n old was] by (auto simp: fm_good_def fm_ops_def dest!: unit_error_eq)
next
  fix s z r s' assume "fm_good F s" "fo_delete (fm_ops F fm) z s = (r, s')"
  then show "fm_good F s' \<and> (\<forall>n. apart_files (safe_name F z) n \<longrightarrow> zone_content s' n = zone_content s n)
      \<and> managed_names F s' = managed_names F s
      \<and> (zone_content s' (safe_name F z) = zone_content s (safe_name F z) \<or> zone_content s' (safe_name F z) = None)
      \<and> (r = None \<longrightarrow> zone_content s' (safe_name F z) = None)"
    using delete_file_law [of F s z] by (auto simp: fm_good_def fm_ops_def dest!: unit_error_eq)
next
  fix s z r s' assume "fm_good F s" "fo_remove (fm_ops F fm) z s = (r, s')"
  then show "fm_good F s' \<and> zone_content s' = zone_content s
      \<and> (managed_names F s' = managed_names F s \<or> managed_names F s' = managed_names F s - {safe_name F z})
      \<and> (r = None \<longrightarrow> managed_names F s' = managed_names F s - {safe_name F z})"
    using remove_managed_law [of F s z] by (auto simp: fm_good_def fm_ops_def dest!: unit_error_eq)
next
  fix s r s' assume "fm_good F s" "fo_list (fm_ops F fm) s = (r, s')"
  then have r: "listManagedZones F s = (r, s')" by (simp add: fm_ops_def)
  have "quiet {} (view {} s) (listManagedZones F)" unfolding listManagedZones_def by (intro quiets)
  from quiet_law [OF this r] list_managed_law [of F s] r \<open>fm_good F s\<close>
  show "fm_good F s' \<and> zone_content s' = zone_content s \<and> managed_names F s' = managed_names F s
      \<and> (\<forall>refs. r = Inr refs \<longrightarrow> snd ` set refs = managed_names F s \<and> (\<forall>(z, n) \<in> set refs. safe_name F z = n))"
    by (auto simp: fm_good_def)
qed (simp add: apart_files_def)

subsection \<open>What is promised to the agent\<close>

text \<open>
  C8: Writing a zone file is atomic, whichever system calls fail. A write that succeeds leaves the new content and
  records the zone in the index; one that fails leaves the previous content, or none if there was none,
  unless the way back failed too, which the error says, and then the file is still either the old or the
  new one. Files of zones that do not look like its backups are untouched, and no zone drops out of the index.
\<close>

theorem zone_write_atomic:
  assumes "fm_ok F" "fm_inv F s" "zone_name_ok z"
    and "WriteZoneFileValidatedWithRollback F fm z c v s = (r, s')"
  shows "(case r of
      Inr _ \<Rightarrow> zone_content s' (safe_name F z) = Some c \<and> safe_name F z \<in> managed_names F s'
    | Inl e \<Rightarrow> zone_content s' (safe_name F z) = zone_content s (safe_name F z)
        \<or> rollback_failed e \<and> zone_content s' (safe_name F z) = Some c)
    \<and> fm_inv F s' \<and> managed_names F s \<subseteq> managed_names F s'
    \<and> (\<forall>n. apart_files (safe_name F z) n \<longrightarrow> zone_content s' n = zone_content s n)"
  using write_file_law [OF assms] by (auto split: sum.splits)

text \<open>
  A write followed by its rollback changes nothing: when both succeed, the zone's file has its previous
  content again (or is gone again), it is in the index if it was before, and the other files
  and index entries are as before.
\<close>

theorem rollback_restores:
  assumes "fm_ok F" "fm_inv F s" "zone_name_ok z"
    and "WriteZoneFileValidatedWithRollback F fm z c v s = (Inr rb, s')" "run_rollback F rb s' = (Inr (), s'')"
  shows "zone_content s'' (safe_name F z) = zone_content s (safe_name F z) \<and> managed_names F s'' = managed_names F s
    \<and> (\<forall>n. apart_files (safe_name F z) n \<longrightarrow> zone_content s'' n = zone_content s n)"
proof -
  have w: "fm_inv F s'" "rb_undoes F rb (safe_name F z) (zone_content s (safe_name F z)) (safe_name F z \<in> managed_names F s)"
    "managed_names F s \<subseteq> managed_names F s'" "managed_names F s' \<subseteq> insert (safe_name F z) (managed_names F s)"
    "\<And>n. apart_files (safe_name F z) n \<Longrightarrow> zone_content s' n = zone_content s n"
    using write_file_law [OF assms(1-4)] by auto
  note b = rollback_file_law [OF assms(1) w(1,2) assms(5)]
  have "k \<in> managed_names F s'' \<longleftrightarrow> k \<in> managed_names F s" for k
    using b w(3,4) by (cases "k = safe_name F z") auto
  moreover have "apart_files (safe_name F z) n \<Longrightarrow> zone_content s'' n = zone_content s n" for n
    using b w(5) [of n] by (simp add: apart_files_def)
  ultimately show ?thesis using b by blast
qed

definition toy_Marshal :: "managedZoneEntry list \<Rightarrow> string" where
  "toy_Marshal es = join_with [CHR 0x0A] (concat (map (\<lambda>e. [me_Name e, me_File e]) es))"

fun pair_up :: "string list \<Rightarrow> managedZoneEntry list" where
  "pair_up (a # b # r) = \<lparr>me_Name = a, me_File = b\<rparr> # pair_up r"
| "pair_up _ = []"

definition toy_Unmarshal :: "string \<Rightarrow> managedZonesIndex option" where
  "toy_Unmarshal s =
     Some \<lparr>mi_Zones = [], mi_Entries = (if s = [CHR 0x0A] then [] else pair_up (split_on CHR 0x0A (butlast s)))\<rparr>"

definition toy_env :: fm_env where
  "toy_env = \<lparr>fe_sha256hex = (\<lambda>_. replicate 64 CHR ''0''), fe_Marshal = toy_Marshal, fe_Unmarshal = toy_Unmarshal\<rparr>"

definition example_fs :: fs where
  "example_fs = \<lparr>fs_files = [(''a.zone'', Regular ''old'' 420 0)], fs_dir = DirPresent, fs_free = 1000, fs_clock = 1,
     fs_rand = [1, 2, 3, 4, 5, 6, 7, 8], fs_faults = []\<rparr>"

definition example_fm :: FileManager where
  "example_fm = \<lparr>fm_backupVersions = 1, fm_minFreeBytes = 10\<rparr>"

lemma pair_up_concat: "pair_up (concat (map (\<lambda>e. [me_Name e, me_File e]) es)) = es"
  by (induction es) auto

lemma toy_env_ok: "fm_ok toy_env"
proof -
  have "toy_Unmarshal (toy_Marshal es @ [CHR 0x0A]) = Some \<lparr>mi_Zones = [], mi_Entries = es\<rparr>"
    if "\<forall>e \<in> set es. no_space (me_Name e) \<and> no_space (me_File e)" for es
  proof (cases "es = []")
    case False
    let ?ps = "concat (map (\<lambda>e. [me_Name e, me_File e]) es)"
    have "CHR 0x0A \<notin> set p" if "p \<in> set ?ps" for p
      using that \<open>\<forall>e \<in> set es. _ e\<close> by (fastforce simp: no_space_def ascii_space_def byte_def)
    moreover have "?ps \<noteq> []" using False by (cases es) auto
    ultimately have "split_on CHR 0x0A (toy_Marshal es) = ?ps" by (simp add: toy_Marshal_def split_join)
    moreover from this have "toy_Marshal es \<noteq> []" using False by (cases es) auto
    ultimately show ?thesis by (simp add: toy_Unmarshal_def pair_up_concat)
  qed (simp add: toy_Marshal_def toy_Unmarshal_def)
  then show ?thesis by (simp add: fm_ok_def toy_env_def hex_digest_def is_digit_def byte_def)
qed

lemma example_fs_inv: "fm_inv toy_env example_fs"
proof -
  have "view {} example_fs index_file = None"
    by (simp add: view_def example_fs_def managedZonesIndexFile_def)
  then show ?thesis by (simp add: fm_inv_def index_of_def)
qed

lemma example_write:
  obtains rb s' where "WriteZoneFileValidatedWithRollback toy_env example_fm ''a.'' ''new'' None example_fs = (Inr rb, s')"
    "\<exists>s''. run_rollback toy_env rb s' = (Inr (), s'')"
proof -
  have "case WriteZoneFileValidatedWithRollback toy_env example_fm ''a.'' ''new'' None example_fs of
      (Inr rb, s') \<Rightarrow> fst (run_rollback toy_env rb s') = Inr () | (Inl _, _) \<Rightarrow> False" by code_simp
  then show ?thesis using that by (auto split: prod.splits sum.splits) (metis prod.collapse)
qed

lemma example_name_ok: "zone_name_ok ''a.''" "safe_name toy_env ''a.'' = ''a''" "zone_content example_fs ''a'' = Some ''old''"
  by code_simp+

theorem zone_write_atomic_witness:
  "\<exists>rb s'. WriteZoneFileValidatedWithRollback toy_env example_fm ''a.'' ''new'' None example_fs = (Inr rb, s')
     \<and> zone_content s' ''a'' = Some ''new'' \<and> ''a'' \<in> managed_names toy_env s'"
proof -
  obtain rb s' where w: "WriteZoneFileValidatedWithRollback toy_env example_fm ''a.'' ''new'' None example_fs = (Inr rb, s')"
    by (rule example_write)
  show ?thesis using zone_write_atomic [OF toy_env_ok example_fs_inv example_name_ok(1) w] w by (simp add: example_name_ok(2))
qed

theorem rollback_restores_witness:
  "\<exists>rb s' s''. WriteZoneFileValidatedWithRollback toy_env example_fm ''a.'' ''new'' None example_fs = (Inr rb, s')
     \<and> run_rollback toy_env rb s' = (Inr (), s'') \<and> zone_content s'' ''a'' = Some ''old''"
proof -
  obtain rb s' s'' where w: "WriteZoneFileValidatedWithRollback toy_env example_fm ''a.'' ''new'' None example_fs = (Inr rb, s')"
    "run_rollback toy_env rb s' = (Inr (), s'')" by (metis example_write)
  show ?thesis using rollback_restores [OF toy_env_ok example_fs_inv example_name_ok(1) w] w by (auto simp: example_name_ok)
qed

text \<open>
  C36: Deleting a zone can delete the file of another one. The files of backups are found by the pattern
  \<open><zone>.zone.backup.*\<close>, which the zone file of a zone called \<open><zone>.zone.backup.<label>\<close> matches as well; both
  names are valid, and the deletion reports success.
\<close>

theorem delete_takes_other_zone:
  "\<exists>z z' s s'. ValidateZoneName z = None \<and> ValidateZoneName z' = None \<and> NormalizeZoneName z \<noteq> NormalizeZoneName z'
     \<and> deleteZoneFiles F z s = (Inr (), s')
     \<and> zone_content s (safe_name F z') = Some c \<and> zone_content s' (safe_name F z') = None"
proof -
  let ?z = "''a.''" and ?z' = "''a.zone.backup.b.''"
  let ?s = "\<lparr>fs_files = [(''a.zone'', Regular c 420 0), (''a.zone.backup.b.zone'', Regular c 420 0)], fs_dir = DirPresent,
    fs_free = 0, fs_clock = 0, fs_rand = [], fs_faults = []\<rparr>"
  have v: "ValidateZoneName ?z = None" "ValidateZoneName ?z' = None" "NormalizeZoneName ?z \<noteq> NormalizeZoneName ?z'"
    "ToLower (TrimSuffix ?z ''.'') = ''a''" "ToLower (TrimSuffix ?z' ''.'') = ''a.zone.backup.b''"
    "length (TrimSuffix ?z ''.'') \<le> 200" "length (TrimSuffix ?z' ''.'') \<le> 200" by code_simp+
  then have n: "safe_name F ?z = ''a''" "safe_name F ?z' = ''a.zone.backup.b''"
    using SafeZoneFilename_short ValidateZoneName_iff by (metis (no_types, lifting))+
  have p: "HasPrefix ''a.zone.backup.b.zone'' ''a.zone.backup.''" by code_simp
  have "deleteZoneFiles F ?z ?s = (Inr (), ?s\<lparr>fs_files := []\<rparr>)"
    using n(1) p by (simp add: deleteZoneFiles_def GetZonePath_def ZoneFileName_def os_Remove_def bindIO_def attempt_def
        syscall_def delete_backups_def listBackups_def ZoneBackupPrefix_def wrap_def syncDir_def ret_def)
  moreover have "zone_content ?s ''a.zone.backup.b'' = Some c" "zone_content (?s\<lparr>fs_files := []\<rparr>) ''a.zone.backup.b'' = None"
    by (simp_all add: zone_content_def)
  ultimately show ?thesis using v(1-3) n(2) by (intro exI conjI) auto
qed

end
