(* ===== verification/Zone_Sync.thy ===== *)
theory Zone_Sync
  imports Signed_API File_Laws
begin

section \<open>Synchronisation of an agent (internal/agent/sync/sync.go)\<close>

text \<open>
  The syncer: it lists the controller's zones, fetches each one that changed, refuses serials that go
  back, writes the file, reloads the name server through hooks and rolls back when a hook fails, and
  deletes the zones that are no longer listed. The file manager is a value of \<open>file_ops\<close> with a state of any type; the
  hooks and the network act on a world of any type. A lock protects the states of the zones, so each access
  is atomic. The validator of zone files is a function of the zone and the content.
\<close>

subsection \<open>State\<close>

record ZoneSyncState =
  zst_ZoneName :: string
  zst_Version :: string
  zst_LastSync :: "go_time option"
  zst_LastAttempt :: "go_time option"
  zst_FailCount :: int

record ('f, 'w) Syncer =
  sy_zoneStates :: "(string \<times> ZoneSyncState) list"
  sy_lastSuccess :: "go_time option" \<comment> \<open>none is the zero time\<close>
  sy_files :: 'f
  sy_world :: 'w

record SyncConfig =
  sc_SyncInterval :: int \<comment> \<open>nanoseconds\<close>
  sc_Jitter :: int
  sc_MaxStaleness :: int
  sc_VerifyChecksums :: bool
  sc_VerifySignatures :: bool
  sc_ControllerSignatureKey :: string
  sc_ControllerSignatureKeys :: "(string \<times> string) list"

record ('f, 'r, 'e, 'w) sync_env =
  se_ops :: "('f, 'r, 'e) file_ops"
  se_safe :: "string \<Rightarrow> string"
  se_lib :: agent_lib
  se_transport :: "'w transport"
  se_client :: Client
  se_config :: SyncConfig
  se_now :: "'w \<Rightarrow> go_time"
  se_onZoneApplied :: "(string \<Rightarrow> 'w \<Rightarrow> string option \<times> 'w) option"
  se_onZoneApplyRollback :: "(string \<Rightarrow> bool \<Rightarrow> 'w \<Rightarrow> string option \<times> 'w) option"
  se_onZoneDeleted :: "(string \<Rightarrow> 'w \<Rightarrow> string option \<times> 'w) option"
  se_onZoneDeleteRollback :: "(string \<Rightarrow> 'w \<Rightarrow> string option \<times> 'w) option"
  se_validateZoneFile :: "(string \<Rightarrow> string \<Rightarrow> string option) option"

datatype 'e sync_error =
    ErrZoneName
  | ErrDuplicateZone
  | ErrListZones client_error
  | ErrFetchZone client_error
  | ErrStaleSerial uint32 uint32
  | ErrWriteZone 'e
  | ErrApplied string "'e option" "string option" \<comment> \<open>the hook's error, and those of the two rollbacks\<close>
  | ErrDeleteHook string
  | ErrDeleteFiles 'e "string option"
  | ErrRemoveManaged 'e
  | ErrZonesFailed nat nat
  | ErrZoneNotListed

text \<open>A hook that is not set does nothing.\<close>

definition run_hook :: "('a \<Rightarrow> 'w \<Rightarrow> string option \<times> 'w) option \<Rightarrow> 'a \<Rightarrow> 'w \<Rightarrow> string option \<times> 'w" where
  "run_hook h x w = (case h of None \<Rightarrow> (None, w) | Some f \<Rightarrow> f x w)"

definition emptyZoneSyncState :: "string \<Rightarrow> ZoneSyncState" where
  "emptyZoneSyncState z =
     \<lparr>zst_ZoneName = z, zst_Version = [], zst_LastSync = None, zst_LastAttempt = None, zst_FailCount = 0\<rparr>"

text \<open>The client with the checks of the configuration switched on or off, and the empty state.\<close>

definition NewSyncer :: "SyncConfig \<Rightarrow> Client \<Rightarrow> 'f \<Rightarrow> 'w \<Rightarrow> Client \<times> ('f, 'w) Syncer" where
  "NewSyncer cfg c f w =
     (SetSignatureVerificationKeys (sc_VerifySignatures cfg) (sc_ControllerSignatureKey cfg)
        (sc_ControllerSignatureKeys cfg) (SetVerifyChecksums (sc_VerifyChecksums cfg) c),
      \<lparr>sy_zoneStates = [], sy_lastSuccess = None, sy_files = f, sy_world = w\<rparr>)"

definition getOrCreateStateLocked :: "string \<Rightarrow> ('f, 'w) Syncer \<Rightarrow> ZoneSyncState" where
  "getOrCreateStateLocked z s = (case map_of (sy_zoneStates s) z of None \<Rightarrow> emptyZoneSyncState z | Some st \<Rightarrow> st)"

definition put_state :: "string \<Rightarrow> ZoneSyncState \<Rightarrow> ('f, 'w) Syncer \<Rightarrow> ('f, 'w) Syncer" where
  "put_state z st s = s\<lparr>sy_zoneStates := AList.update z st (sy_zoneStates s)\<rparr>"

definition recordZoneSyncFailure :: "string \<Rightarrow> go_time \<Rightarrow> ('f, 'w) Syncer \<Rightarrow> ('f, 'w) Syncer" where
  "recordZoneSyncFailure z now s =
     (let st = getOrCreateStateLocked z s
      in put_state z (st\<lparr>zst_FailCount := zst_FailCount st + 1, zst_LastAttempt := Some now\<rparr>) s)"

definition recordZoneSyncSuccess :: "string \<Rightarrow> go_time \<Rightarrow> ('f, 'w) Syncer \<Rightarrow> ('f, 'w) Syncer" where
  "recordZoneSyncSuccess z now s =
     (let st = getOrCreateStateLocked z s
      in put_state z (st\<lparr>zst_LastSync := Some now, zst_LastAttempt := Some now, zst_FailCount := 0\<rparr>) s)"

definition recordSyncSuccess :: "go_time \<Rightarrow> ('f, 'w) Syncer \<Rightarrow> ('f, 'w) Syncer" where
  "recordSyncSuccess now s = s\<lparr>sy_lastSuccess := Some now\<rparr>"

definition GetZoneState :: "('f, 'w) Syncer \<Rightarrow> string \<Rightarrow> ZoneSyncState option" where
  "GetZoneState s z = map_of (sy_zoneStates s) z"

definition FailedZoneCount :: "('f, 'w) Syncer \<Rightarrow> nat" where
  "FailedZoneCount s = length (filter (\<lambda>(_, st). 0 < zst_FailCount st) (sy_zoneStates s))"

text \<open>\<open>time.Since\<close> saturates at the largest duration, which is what it gives for the zero time.\<close>

definition maxDuration :: int where
  "maxDuration = 2 ^ 63 - 1"

definition IsStale :: "SyncConfig \<Rightarrow> go_time \<Rightarrow> ('f, 'w) Syncer \<Rightarrow> bool" where
  "IsStale cfg now s \<longleftrightarrow>
     sc_MaxStaleness cfg < (case sy_lastSuccess s of None \<Rightarrow> maxDuration | Some t \<Rightarrow> min maxDuration (now - t))"

subsection \<open>One zone\<close>

definition validateControllerZoneName :: "string \<Rightarrow> string option" where
  "validateControllerZoneName zoneName =
     (let normalized = NormalizeZoneName zoneName
      in if ValidateZoneName normalized = None then Some normalized else None)"

definition localZoneFileForState ::
  "('f, 'r, 'e, 'w) sync_env \<Rightarrow> string \<Rightarrow> string \<Rightarrow> 'f \<Rightarrow> (string \<times> bool) \<times> 'f" where
  "localZoneFileForState E zoneName currentETag f =
     (case fo_exists (se_ops E) zoneName f of (there, f1) \<Rightarrow>
      if \<not> there then (([], False), f1)
      else let expectedHash = etagValue currentETag in
        if length expectedHash \<noteq> 64 \<or> \<not> isHex expectedHash then (([], True), f1)
        else case fo_read (se_ops E) zoneName f1 of
          (Inl _, f2) \<Rightarrow> (([], False), f2)
        | (Inr content, f2) \<Rightarrow>
            if lib_sha256hex (se_lib E) content \<noteq> expectedHash then (([], False), f2) else ((content, True), f2))"

definition localZoneSerial :: "('f, 'r, 'e, 'w) sync_env \<Rightarrow> string \<Rightarrow> 'f \<Rightarrow> uint32 option \<times> 'f" where
  "localZoneSerial E zoneName f =
     (case fo_exists (se_ops E) zoneName f of (there, f1) \<Rightarrow>
      if \<not> there then (None, f1)
      else case fo_read (se_ops E) zoneName f1 of
        (Inl _, f2) \<Rightarrow> (None, f2)
      | (Inr content, f2) \<Rightarrow> (parseZoneSOASerial (se_lib E) zoneName content, f2))"

text \<open>What a synchronisation finds locally: the entity tag and the body to offer, and the serial.\<close>

definition local_state ::
  "('f, 'r, 'e, 'w) sync_env \<Rightarrow> string \<Rightarrow> ('f, 'w) Syncer \<Rightarrow> (string \<times> string \<times> uint32 option) \<times> 'f" where
  "local_state E zoneName s =
     (let tag = (case map_of (sy_zoneStates s) zoneName of None \<Rightarrow> [] | Some st \<Rightarrow> zst_Version st);
          ((body, tag', _), f1) =
            (if tag = [] then (([], [], True), sy_files s)
             else case localZoneFileForState E zoneName tag (sy_files s) of
               ((b, same), f) \<Rightarrow> (if same then (b, tag, True) else ([], [], False), f));
          (serial, f2) = localZoneSerial E zoneName f1
      in ((tag', body, serial), f2))"

definition rollbackAppliedZone ::
  "('f, 'r, 'e, 'w) sync_env \<Rightarrow> string \<Rightarrow> bool \<Rightarrow> 'w \<Rightarrow> string option \<times> 'w" where
  "rollbackAppliedZone E zoneName hadPrevious w =
     (case se_onZoneApplyRollback E of None \<Rightarrow> (None, w) | Some hook \<Rightarrow> hook zoneName hadPrevious w)"

text \<open>The errors of the two rollbacks, of the file and of the service references.\<close>

definition rollbackFailedApply ::
  "('f, 'r, 'e, 'w) sync_env \<Rightarrow> string \<Rightarrow> bool \<Rightarrow> 'r \<Rightarrow> 'f \<Rightarrow> 'w \<Rightarrow> ('e option \<times> string option) \<times> 'f \<times> 'w" where
  "rollbackFailedApply E zoneName hadPrevious rb f w =
     (if hadPrevious
      then case fo_rollback (se_ops E) rb f of (e1, f') \<Rightarrow>
           case rollbackAppliedZone E zoneName hadPrevious w of (e2, w') \<Rightarrow> ((e1, e2), f', w')
      else case rollbackAppliedZone E zoneName hadPrevious w of
             (Some e, w') \<Rightarrow> ((None, Some e), f, w')
           | (None, w') \<Rightarrow> (case fo_rollback (se_ops E) rb f of (e1, f') \<Rightarrow> ((e1, None), f', w')))"

definition apply_artifact ::
  "('f, 'r, 'e, 'w) sync_env \<Rightarrow> string \<Rightarrow> SignedZoneArtifact \<Rightarrow> ('f, 'w) Syncer \<Rightarrow> 'e sync_error option \<times> ('f, 'w) Syncer" where
  "apply_artifact E zoneName artifact s =
     (let validate = map_option (\<lambda>v. v zoneName) (se_validateZoneFile E) in
      case fo_exists (se_ops E) zoneName (sy_files s) of (hadPrevious, f1) \<Rightarrow>
      case fo_write (se_ops E) zoneName (ar_Content artifact) validate f1 of
        (Inl e, f2) \<Rightarrow> (Some (ErrWriteZone e), s\<lparr>sy_files := f2\<rparr>)
      | (Inr rb, f2) \<Rightarrow>
          (case run_hook (se_onZoneApplied E) zoneName (sy_world s) of
             (Some e, w1) \<Rightarrow>
               (case rollbackFailedApply E zoneName hadPrevious rb f2 w1 of
                  ((e1, e2), f3, w2) \<Rightarrow> (Some (ErrApplied e e1 e2), s\<lparr>sy_files := f3, sy_world := w2\<rparr>))
           | (None, w1) \<Rightarrow>
               let s' = s\<lparr>sy_files := f2, sy_world := w1\<rparr>;
                   st = getOrCreateStateLocked zoneName s'
               in (None, put_state zoneName (st\<lparr>zst_Version := ar_ETag artifact\<rparr>) s')))"

definition syncZone ::
  "('f, 'r, 'e, 'w) sync_env \<Rightarrow> ZoneInfo \<Rightarrow> ('f, 'w) Syncer \<Rightarrow> 'e sync_error option \<times> ('f, 'w) Syncer" where
  "syncZone E zone s =
     (if validateControllerZoneName (zi_Name zone) = None then (Some ErrZoneName, s)
      else case local_state E (zi_Name zone) s of ((tag, body, serial), f1) \<Rightarrow>
        case fetchSignedZoneArtifact (se_lib E) (se_transport E) (se_client E) (zi_Name zone) tag body (sy_world s) of
          (Inl e, w1) \<Rightarrow> (Some (ErrFetchZone e), s\<lparr>sy_files := f1, sy_world := w1\<rparr>)
        | (Inr artifact, w1) \<Rightarrow>
            let s1 = s\<lparr>sy_files := f1, sy_world := w1\<rparr> in
            if ar_NotModified artifact then (None, s1)
            else case serial of
              Some currentSerial \<Rightarrow>
                if zoneSerialBefore (ar_Serial artifact) currentSerial
                then (Some (ErrStaleSerial (ar_Serial artifact) currentSerial), s1)
                else apply_artifact E (zi_Name zone) artifact s1
            | None \<Rightarrow> apply_artifact E (zi_Name zone) artifact s1)"

subsection \<open>Removed zones\<close>

definition delete_state :: "string \<Rightarrow> ('f, 'w) Syncer \<Rightarrow> ('f, 'w) Syncer" where
  "delete_state z s = s\<lparr>sy_zoneStates := AList.delete z (sy_zoneStates s)\<rparr>"

definition rollbackDeletedZone :: "('f, 'r, 'e, 'w) sync_env \<Rightarrow> string \<Rightarrow> 'w \<Rightarrow> string option \<times> 'w" where
  "rollbackDeletedZone E zoneName w = run_hook (se_onZoneDeleteRollback E) zoneName w"

definition deleteRemovedZone ::
  "('f, 'r, 'e, 'w) sync_env \<Rightarrow> string \<Rightarrow> ('f, 'w) Syncer \<Rightarrow> 'e sync_error option \<times> ('f, 'w) Syncer" where
  "deleteRemovedZone E zoneName s =
     (case run_hook (se_onZoneDeleted E) zoneName (sy_world s) of
        (Some e, w1) \<Rightarrow> (Some (ErrDeleteHook e), s\<lparr>sy_world := w1\<rparr>)
      | (None, w1) \<Rightarrow>
          case fo_delete (se_ops E) zoneName (sy_files s) of
            (Some e, f1) \<Rightarrow>
              (case rollbackDeletedZone E zoneName w1 of
                 (e', w2) \<Rightarrow> (Some (ErrDeleteFiles e e'), s\<lparr>sy_files := f1, sy_world := w2\<rparr>))
          | (None, f1) \<Rightarrow>
              (case fo_remove (se_ops E) zoneName f1 of
                 (Some e, f2) \<Rightarrow> (Some (ErrRemoveManaged e), s\<lparr>sy_files := f2, sy_world := w1\<rparr>)
               | (None, f2) \<Rightarrow> (None, delete_state zoneName (s\<lparr>sy_files := f2, sy_world := w1\<rparr>))))"

definition recordDeleteFailure :: "('f, 'r, 'e, 'w) sync_env \<Rightarrow> string \<Rightarrow> ('f, 'w) Syncer \<Rightarrow> ('f, 'w) Syncer" where
  "recordDeleteFailure E zoneName s = recordZoneSyncFailure zoneName (se_now E (sy_world s)) s"

text \<open>The two loops have the same body; the counts are of deletions and of errors.\<close>

fun delete_zones ::
  "('f, 'r, 'e, 'w) sync_env \<Rightarrow> string list \<Rightarrow> ('f, 'w) Syncer \<Rightarrow> (nat \<times> nat) \<times> ('f, 'w) Syncer" where
  "delete_zones E [] s = ((0, 0), s)"
| "delete_zones E (z # zs) s =
     (case deleteRemovedZone E z s of
        (Some _, s') \<Rightarrow> (case delete_zones E zs (recordDeleteFailure E z s') of ((d, e), s'') \<Rightarrow> ((d, e + 1), s''))
      | (None, s') \<Rightarrow> (case delete_zones E zs s' of ((d, e), s'') \<Rightarrow> ((d + 1, e), s'')))"

definition deleteRemovedZones ::
  "('f, 'r, 'e, 'w) sync_env \<Rightarrow> string list \<Rightarrow> string list \<Rightarrow> ('f, 'w) Syncer \<Rightarrow> (nat \<times> nat) \<times> ('f, 'w) Syncer" where
  "deleteRemovedZones E controllerZones controllerZoneFiles s =
     (let gone = filter (\<lambda>z. z \<notin> set controllerZones) (map fst (sy_zoneStates s));
          staleAliases = filter (\<lambda>z. se_safe E z \<in> set controllerZoneFiles) gone;
          staleStateZones = filter (\<lambda>z. se_safe E z \<notin> set controllerZoneFiles) gone;
          s1 = fold delete_state (sort staleAliases) s;
          attemptedFiles = map (se_safe E) staleStateZones
      in case delete_zones E (sort staleStateZones) s1 of ((deleted, errors), s2) \<Rightarrow>
         case fo_list (se_ops E) (sy_files s2) of
           (Inl _, f) \<Rightarrow> ((deleted, errors + 1), s2\<lparr>sy_files := f\<rparr>)
         | (Inr managedZones, f) \<Rightarrow>
             case delete_zones E
                 (map fst (filter (\<lambda>(_, n). n \<notin> set controllerZoneFiles \<and> n \<notin> set attemptedFiles) managedZones))
                 (s2\<lparr>sy_files := f\<rparr>) of
               ((deleted', errors'), s3) \<Rightarrow> ((deleted + deleted', errors + errors'), s3))"

subsection \<open>All zones\<close>

fun check_list :: "string list \<Rightarrow> ZoneInfo list \<Rightarrow> 'e sync_error option" where
  "check_list seen [] = None"
| "check_list seen (zone # zones) =
     (case validateControllerZoneName (zi_Name zone) of
        None \<Rightarrow> Some ErrZoneName
      | Some normalized \<Rightarrow> if normalized \<in> set seen then Some ErrDuplicateZone else check_list (normalized # seen) zones)"

definition validateControllerZoneList :: "ZoneInfo list \<Rightarrow> 'e sync_error option" where
  "validateControllerZoneList zones = check_list [] zones"

text \<open>The loop over the zones, with the counts of successes and of errors.\<close>

fun sync_zones ::
  "('f, 'r, 'e, 'w) sync_env \<Rightarrow> ZoneInfo list \<Rightarrow> ('f, 'w) Syncer \<Rightarrow> (nat \<times> nat) \<times> ('f, 'w) Syncer" where
  "sync_zones E [] s = ((0, 0), s)"
| "sync_zones E (zone # zones) s =
     (case syncZone E zone s of
        (Some _, s') \<Rightarrow>
          (case sync_zones E zones (recordZoneSyncFailure (zi_Name zone) (se_now E (sy_world s')) s') of
             ((ok, bad), s'') \<Rightarrow> ((ok, bad + 1), s''))
      | (None, s') \<Rightarrow>
          (case sync_zones E zones (recordZoneSyncSuccess (zi_Name zone) (se_now E (sy_world s')) s') of
             ((ok, bad), s'') \<Rightarrow> ((ok + 1, bad), s'')))"

text \<open>One cycle; not returning is only possible while the pages of the zone list are read.\<close>

definition SyncAll :: "('f, 'r, 'e, 'w) sync_env \<Rightarrow> ('f, 'w) Syncer \<Rightarrow> ('e sync_error option \<times> ('f, 'w) Syncer) option" where
  "SyncAll E s =
     (case ListZones (se_lib E) (se_transport E) (se_client E) (sy_world s) of
        None \<Rightarrow> None
      | Some (Inl e, w) \<Rightarrow> Some (Some (ErrListZones e), s\<lparr>sy_world := w\<rparr>)
      | Some (Inr zones, w) \<Rightarrow>
          (case validateControllerZoneList zones of
             Some e \<Rightarrow> Some (Some e, s\<lparr>sy_world := w\<rparr>)
           | None \<Rightarrow>
               (case sync_zones E zones (s\<lparr>sy_world := w\<rparr>) of ((successCount, zoneErrorCount), s1) \<Rightarrow>
                case deleteRemovedZones E (map zi_Name zones) (map (se_safe E \<circ> zi_Name) zones) s1 of
                  ((deleteCount, deleteErrorCount), s2) \<Rightarrow>
                let s3 = (if zoneErrorCount + deleteErrorCount = 0 \<and> (successCount + deleteCount > 0 \<or> zones = [])
                          then recordSyncSuccess (se_now E (sy_world s2)) s2 else s2)
                in Some (if zoneErrorCount > 0 \<or> deleteErrorCount > 0
                         then Some (ErrZonesFailed zoneErrorCount deleteErrorCount) else None, s3))))"

definition SyncZone ::
  "('f, 'r, 'e, 'w) sync_env \<Rightarrow> string \<Rightarrow> ('f, 'w) Syncer \<Rightarrow> ('e sync_error option \<times> ('f, 'w) Syncer) option" where
  "SyncZone E zoneName s =
     (let failed = (\<lambda>e w s. Some (Some e, recordZoneSyncFailure zoneName (se_now E w) (s\<lparr>sy_world := w\<rparr>))) in
      if validateControllerZoneName zoneName = None then Some (Some ErrZoneName, s)
      else case ListZones (se_lib E) (se_transport E) (se_client E) (sy_world s) of
        None \<Rightarrow> None
      | Some (Inl e, w) \<Rightarrow> failed (ErrListZones e) w s
      | Some (Inr zones, w) \<Rightarrow>
          (case validateControllerZoneList zones of
             Some e \<Rightarrow> failed e w s
           | None \<Rightarrow>
               (case find (\<lambda>z. zi_Name z = zoneName) zones of
                  None \<Rightarrow> failed ErrZoneNotListed w s
                | Some zone \<Rightarrow>
                    (case syncZone E zone (s\<lparr>sy_world := w\<rparr>) of
                       (Some e, s') \<Rightarrow> failed e (sy_world s') s'
                     | (None, s') \<Rightarrow>
                         let now = se_now E (sy_world s')
                         in Some (None, recordSyncSuccess now (recordZoneSyncSuccess (zi_Name zone) now s'))))))"

subsection \<open>The loop\<close>

text \<open>\<open>rand.Int63n n\<close> is an argument; durations are 64-bit, with Go's division toward zero.\<close>

definition addJitter :: "(int \<Rightarrow> int) \<Rightarrow> SyncConfig \<Rightarrow> int \<Rightarrow> int" where
  "addJitter Int63n cfg duration =
     (if duration \<le> 0 then 1
      else if sc_Jitter cfg \<le> 0 then duration
      else let randomJitter = Int63n (sc_Jitter cfg) - sc_Jitter cfg div 2;
               after = duration + randomJitter;
               minDuration = (if duration div 2 \<le> 0 then 1 else duration div 2)
           in if after < minDuration then minDuration else after)"

text \<open>
  The loop up to a given number of ticks, after which its context ends: the first cycle, and one for each tick, whose
  wait comes from \<open>wait\<close>. Errors of a cycle are only logged.
\<close>

fun sync_ticks :: "('f, 'r, 'e, 'w) sync_env \<Rightarrow> ('w \<Rightarrow> 'w) list \<Rightarrow> ('f, 'w) Syncer \<Rightarrow> ('f, 'w) Syncer option" where
  "sync_ticks E [] s = Some s"
| "sync_ticks E (wait # ticks) s =
     (case SyncAll E (s\<lparr>sy_world := wait (sy_world s)\<rparr>) of None \<Rightarrow> None | Some (_, s') \<Rightarrow> sync_ticks E ticks s')"

definition syncer_Run :: "('f, 'r, 'e, 'w) sync_env \<Rightarrow> ('w \<Rightarrow> 'w) list \<Rightarrow> ('f, 'w) Syncer \<Rightarrow> ('f, 'w) Syncer option" where
  "syncer_Run E ticks s = (case SyncAll E s of None \<Rightarrow> None | Some (_, s') \<Rightarrow> sync_ticks E ticks s')"

end
