(* ===== verification/Sync_Laws.thy ===== *)
theory Sync_Laws
  imports Zone_Sync
begin

section \<open>What synchronisation guarantees\<close>

text \<open>
  The locale \<open>syncing\<close> adds a syncer to a file manager that keeps the contract of \<open>zone_files\<close>; its lemmas say what one
  zone, one cycle and the whole loop can do to the files, whatever the network, the hooks and the system calls do.
  They are interpreted on the agent's file manager, and the theorems at the end are about that instance.
\<close>

subsection \<open>Laws for every file manager that keeps the contract\<close>

lemma states_frame [simp]:
  "sy_files (recordZoneSyncFailure z now s) = sy_files s" "sy_world (recordZoneSyncFailure z now s) = sy_world s"
  "sy_files (recordZoneSyncSuccess z now s) = sy_files s" "sy_world (recordZoneSyncSuccess z now s) = sy_world s"
  "sy_files (recordSyncSuccess now s) = sy_files s" "sy_zoneStates (recordSyncSuccess now s) = sy_zoneStates s"
  "sy_files (recordDeleteFailure E z s) = sy_files s" "sy_files (delete_state z s) = sy_files s"
  "sy_zoneStates (delete_state z s) = AList.delete z (sy_zoneStates s)"
  by (simp_all add: recordZoneSyncFailure_def recordZoneSyncSuccess_def recordSyncSuccess_def recordDeleteFailure_def
      delete_state_def put_state_def Let_def)

lemma record_keys [simp]:
  "fst ` set (sy_zoneStates (recordZoneSyncFailure z now s)) = insert z (fst ` set (sy_zoneStates s))"
  "fst ` set (sy_zoneStates (recordZoneSyncSuccess z now s)) = insert z (fst ` set (sy_zoneStates s))"
  "fst ` set (sy_zoneStates (put_state z st s)) = insert z (fst ` set (sy_zoneStates s))"
  by (simp_all add: recordZoneSyncFailure_def recordZoneSyncSuccess_def put_state_def Let_def dom_update)

lemma delete_keys: "fst ` set (AList.delete z xs) = fst ` set xs - {z}"
  by (metis AList.delete_keys list.set_map set_removeAll)

lemma safe_names_of_refs:
  "\<forall>(z, n) \<in> set refs. safe z = n \<Longrightarrow> safe ` set (map fst (filter (\<lambda>(_, n). P n) refs)) = {n \<in> snd ` set refs. P n}"
  by (force simp: image_iff)

locale syncing =
  zone_files ops safe apart content managed inv undoes name_ok
  for ops :: "('f, 'r, 'e) file_ops" and safe apart content managed inv undoes name_ok +
  fixes E :: "('f, 'r, 'e, 'w) sync_env"
  assumes env_ops: "se_ops E = ops"
    and env_safe: "se_safe E = safe"
    and valid_name_ok: "validateControllerZoneName z \<noteq> None \<Longrightarrow> name_ok z"
begin

text \<open>A file name that no other zone's backups are mistaken for.\<close>

definition plain :: "string \<Rightarrow> bool" where
  "plain n \<longleftrightarrow> (\<forall>a. a \<noteq> n \<longrightarrow> apart a n)"

lemma localZoneFileForState_law:
  assumes "inv f" "localZoneFileForState E z tag f = ((b, same), f')"
  shows "inv f' \<and> content f' = content f \<and> managed f' = managed f \<and> (same \<longrightarrow> content f (safe z) \<noteq> None)
    \<and> (b \<noteq> [] \<longrightarrow> content f (safe z) = Some b)"
proof -
  obtain there f1 where e: "fo_exists ops z f = (there, f1)" by fastforce
  obtain r f2 where r: "fo_read ops z f1 = (r, f2)" by fastforce
  note x = exists_law [OF assms(1) e]
  then show ?thesis using assms(2) read_law [OF _ r] e r
    by (auto simp: localZoneFileForState_def env_ops Let_def split: if_splits sum.splits)
qed

lemma localZoneSerial_law:
  assumes "inv f" "localZoneSerial E z f = (n, f')"
  shows "inv f' \<and> content f' = content f \<and> managed f' = managed f
    \<and> (\<forall>k. n = Some k \<longrightarrow> (\<exists>c. content f (safe z) = Some c \<and> parseZoneSOASerial (se_lib E) z c = Some k))"
proof -
  obtain there f1 where e: "fo_exists ops z f = (there, f1)" by fastforce
  obtain r f2 where r: "fo_read ops z f1 = (r, f2)" by fastforce
  note x = exists_law [OF assms(1) e]
  then show ?thesis using assms(2) read_law [OF _ r] e r
    by (auto simp: localZoneSerial_def env_ops split: if_splits sum.splits)
qed

lemma local_state_law:
  assumes "inv (sy_files s)" "local_state E z s = ((tag, b, n), f')"
  shows "inv f' \<and> content f' = content (sy_files s) \<and> managed f' = managed (sy_files s)
    \<and> (tag \<noteq> [] \<longrightarrow> content (sy_files s) (safe z) \<noteq> None)
    \<and> (b \<noteq> [] \<longrightarrow> content (sy_files s) (safe z) = Some b)
    \<and> (\<forall>k. n = Some k \<longrightarrow> (\<exists>c. content (sy_files s) (safe z) = Some c \<and> parseZoneSOASerial (se_lib E) z c = Some k))"
proof -
  let ?tag = "case map_of (sy_zoneStates s) z of None \<Rightarrow> [] | Some st \<Rightarrow> zst_Version st"
  obtain b1 same f1 where l: "localZoneFileForState E z ?tag (sy_files s) = ((b1, same), f1)" by (metis prod.collapse)
  obtain n1 f2 where k1: "localZoneSerial E z f1 = (n1, f2)" by fastforce
  obtain n0 f0 where k0: "localZoneSerial E z (sy_files s) = (n0, f0)" by fastforce
  note x = localZoneFileForState_law [OF assms(1) l]
  show ?thesis
  proof (cases "?tag = []")
    case True
    then show ?thesis using assms(2) k0 localZoneSerial_law [OF assms(1) k0] by (auto simp: local_state_def)
  next
    case False
    then show ?thesis using assms(2) l k1 x localZoneSerial_law [OF _ k1]
      by (auto simp: local_state_def Let_def split: if_splits)
  qed
qed

lemma rollbackFailedApply_law:
  assumes "inv f" "undoes rb n old was" "rollbackFailedApply E z had rb f w = ((e1, e2), f', w')"
  shows "inv f' \<and> (\<forall>k. k \<noteq> n \<longrightarrow> content f' k = content f k \<and> (k \<in> managed f' \<longleftrightarrow> k \<in> managed f))
    \<and> (content f' n = content f n \<or> content f' n = old)
    \<and> (e1 = None \<longrightarrow> e2 = None \<longrightarrow> content f' n = old \<and> (n \<in> managed f' \<longleftrightarrow> was))"
proof -
  obtain r f1 where r: "fo_rollback ops rb f = (r, f1)" by fastforce
  obtain h w1 where h: "rollbackAppliedZone E z had w = (h, w1)" by fastforce
  show ?thesis using assms(1,3) r h rollback_law [OF assms(1,2) r]
    by (auto simp: rollbackFailedApply_def env_ops split: if_splits option.splits)
qed

text \<open>What working on one zone leaves alone.\<close>

definition frame :: "string \<Rightarrow> ('f, 'w) Syncer \<Rightarrow> ('f, 'w) Syncer \<Rightarrow> bool" where
  "frame z s s' \<longleftrightarrow> inv (sy_files s') \<and> (\<forall>n. apart (safe z) n \<longrightarrow> content (sy_files s') n = content (sy_files s) n)
     \<and> (\<forall>n. n \<noteq> safe z \<longrightarrow> (n \<in> managed (sy_files s') \<longleftrightarrow> n \<in> managed (sy_files s)))
     \<and> fst ` set (sy_zoneStates s') \<subseteq> insert z (fst ` set (sy_zoneStates s))"

lemma frame_plain: "frame z s s' \<Longrightarrow> plain n \<Longrightarrow> n \<noteq> safe z \<Longrightarrow> content (sy_files s') n = content (sy_files s) n"
  unfolding frame_def plain_def by metis

lemma apply_cases:
  assumes "inv (sy_files s)" "name_ok z" "apply_artifact E z a s = (r, s')"
  obtains (unwritten) f2 err where "r = Some (ErrWriteZone err)" "s' = s\<lparr>sy_files := f2\<rparr>" "frame z s s'"
      "content f2 (safe z) = content (sy_files s) (safe z) \<or> content f2 (safe z) = Some (ar_Content a)"
  | (hook) f2 w2 err e1 e2 where "r = Some (ErrApplied err e1 e2)" "s' = s\<lparr>sy_files := f2, sy_world := w2\<rparr>" "frame z s s'"
      "content f2 (safe z) = content (sy_files s) (safe z) \<or> content f2 (safe z) = Some (ar_Content a)"
      "e1 = None \<Longrightarrow> e2 = None \<Longrightarrow> content f2 (safe z) = content (sy_files s) (safe z) \<and> managed f2 = managed (sy_files s)"
  | (applied) f2 w2 st where "r = None" "s' = put_state z (st\<lparr>zst_Version := ar_ETag a\<rparr>) (s\<lparr>sy_files := f2, sy_world := w2\<rparr>)"
      "frame z s s'" "content f2 (safe z) = Some (ar_Content a)" "safe z \<in> managed f2"
proof -
  let ?v = "map_option (\<lambda>v. v z) (se_validateZoneFile E)"
  obtain had f1 where e: "fo_exists ops z (sy_files s) = (had, f1)" by fastforce
  note x = exists_law [OF assms(1) e]
  obtain rw f2 where w: "fo_write ops z (ar_Content a) ?v f1 = (rw, f2)" by fastforce
  note wl = write_law [OF conjunct1 [OF x] assms(2) w]
  obtain h w1 where h: "run_hook (se_onZoneApplied E) z (sy_world s) = (h, w1)" by fastforce
  have m: "n \<noteq> safe z \<Longrightarrow> n \<in> managed f2 \<longleftrightarrow> n \<in> managed (sy_files s)" for n using wl x by auto
  consider (a) err where "rw = Inl err" "r = Some (ErrWriteZone err)" "s' = s\<lparr>sy_files := f2\<rparr>"
    | (b) rb err e1 e2 f3 w2 where "rw = Inr rb" "rollbackFailedApply E z had rb f2 w1 = ((e1, e2), f3, w2)"
        "r = Some (ErrApplied err e1 e2)" "s' = s\<lparr>sy_files := f3, sy_world := w2\<rparr>"
    | (c) rb st where "rw = Inr rb" "r = None"
        "s' = put_state z (st\<lparr>zst_Version := ar_ETag a\<rparr>) (s\<lparr>sy_files := f2, sy_world := w1\<rparr>)"
    using assms(3) e w h by (auto simp: apply_artifact_def env_ops Let_def split: sum.splits option.splits prod.splits)
  then show thesis
  proof cases
    case a
    then show thesis using wl x m by (intro unwritten) (auto simp: frame_def)
  next
    case b
    have u: "undoes rb (safe z) (content f1 (safe z)) (safe z \<in> managed f1)" "inv f2" using wl b(1) by auto
    note rl = rollbackFailedApply_law [OF u(2,1) b(2)]
    have c: "content f2 (safe z) = Some (ar_Content a)" using wl b(1) by simp
    have "k \<in> managed f3 \<longleftrightarrow> k \<in> managed (sy_files s)" if "e1 = None" "e2 = None" for k
      using rl that m [of k] x by (cases "k = safe z") auto
    then have ok: "e1 = None \<Longrightarrow> e2 = None \<Longrightarrow> content f3 (safe z) = content (sy_files s) (safe z) \<and> managed f3 = managed (sy_files s)"
      using rl x by (simp add: set_eq_iff)
    have "content f3 n = content (sy_files s) n" if "apart (safe z) n" for n
    proof -
      have "content f3 n = content f2 n" using rl apart_irrefl [OF that] by blast
      also have "\<dots> = content f1 n" using wl that by blast
      finally show ?thesis using x by simp
    qed
    then have "frame z s s'" using rl m b(4) by (simp add: frame_def subset_insertI)
    moreover have "content f3 (safe z) = content (sy_files s) (safe z) \<or> content f3 (safe z) = Some (ar_Content a)"
      using rl c x by auto
    ultimately show thesis using hook [OF b(3,4)] ok by simp
  next
    case c
    then show thesis using wl x m by (intro applied) (auto simp: frame_def put_state_def dom_update)
  qed
qed

end

text \<open>
  Content that arrived as the body of a 200 response to the request for a zone and passed the checks that are
  switched on.
\<close>

definition authentic :: "('f, 'r, 'e, 'w) sync_env \<Rightarrow> string \<Rightarrow> string \<Rightarrow> bool" where
  "authentic E z c \<longleftrightarrow>
     (\<exists>tag w w' resp. tr_do (se_transport E) (fetch_request (se_client E) z tag) w = (Inr resp, w')
        \<and> rs_status resp = 200 \<and> rs_body resp = c \<and> parseZoneSOASerial (se_lib E) z c \<noteq> None
        \<and> (c_verifySignatures (se_client E) \<longrightarrow>
             signed_by (se_lib E) (trusted_keys (se_client E)) c (rs_header resp zoneSignatureHeader)))"

lemma fetched_authentic:
  assumes "fetchSignedZoneArtifact (se_lib E) (se_transport E) (se_client E) z tag b w = (Inr a, w')" "\<not> ar_NotModified a"
  shows "authentic E z (ar_Content a)" "parseZoneSOASerial (se_lib E) z (ar_Content a) = Some (ar_Serial a)"
  using fetch_Inr [OF assms(1)] assms(2) modified_Inr(1,5,7) by (fastforce simp: authentic_def)+

lemma fetched_not_modified:
  assumes "fetchSignedZoneArtifact L T c z tag b w = (Inr a, w')" "ar_NotModified a"
  shows "tag \<noteq> []"
  using fetch_Inr [OF assms(1)] assms(2) not_modified_Inr(3) conditionalRequestETag_nonempty(1) by fastforce

context syncing
begin

text \<open>How a synchronisation of one zone can end.\<close>

lemma syncZone_cases:
  assumes "inv (sy_files s)" "syncZone E zone s = (r, s')"
  obtains (same) "frame (zi_Name zone) s s'" "content (sy_files s') = content (sy_files s)" "managed (sy_files s') = managed (sy_files s)"
      "sy_zoneStates s' = sy_zoneStates s" "r = None \<Longrightarrow> content (sy_files s) (safe (zi_Name zone)) \<noteq> None"
      "\<And>e e1 e2. r \<noteq> Some (ErrApplied e e1 e2)"
  | (new) a tag b serial f1 s1 where "local_state E (zi_Name zone) s = ((tag, b, serial), f1)"
      "authentic E (zi_Name zone) (ar_Content a)" "parseZoneSOASerial (se_lib E) (zi_Name zone) (ar_Content a) = Some (ar_Serial a)"
      "\<And>k. serial = Some k \<Longrightarrow> \<not> zoneSerialBefore (ar_Serial a) k"
      "name_ok (zi_Name zone)" "inv (sy_files s1)" "content (sy_files s1) = content (sy_files s)"
      "managed (sy_files s1) = managed (sy_files s)" "sy_zoneStates s1 = sy_zoneStates s"
      "apply_artifact E (zi_Name zone) a s1 = (r, s')"
proof (cases "validateControllerZoneName (zi_Name zone) = None")
  case True
  then show thesis using assms by (intro same) (auto simp: syncZone_def frame_def)
next
  case False
  obtain tag b serial f1 where l: "local_state E (zi_Name zone) s = ((tag, b, serial), f1)" by (metis prod.collapse)
  note ll = local_state_law [OF assms(1) l]
  obtain ra w1 where f: "fetchSignedZoneArtifact (se_lib E) (se_transport E) (se_client E) (zi_Name zone) tag b (sy_world s)
    = (ra, w1)" by fastforce
  let ?s1 = "s\<lparr>sy_files := f1, sy_world := w1\<rparr>"
  have s1: "inv (sy_files ?s1)" "content (sy_files ?s1) = content (sy_files s)" "managed (sy_files ?s1) = managed (sy_files s)"
    "sy_zoneStates ?s1 = sy_zoneStates s" using ll by simp_all
  have stay: thesis if "s' = ?s1" "r = None \<Longrightarrow> tag \<noteq> []" "\<And>e e1 e2. r \<noteq> Some (ErrApplied e e1 e2)"
    using that ll by (intro same) (auto simp: frame_def)
  show thesis
  proof (cases ra)
    case (Inl e)
    then show thesis using assms(2) False l f by (intro stay) (auto simp: syncZone_def)
  next
    case (Inr a)
    consider "ar_NotModified a" "r = None" "s' = ?s1"
      | "\<not> ar_NotModified a" "\<exists>m k. r = Some (ErrStaleSerial m k)" "s' = ?s1"
      | "\<not> ar_NotModified a" "\<And>k. serial = Some k \<Longrightarrow> \<not> zoneSerialBefore (ar_Serial a) k"
          "apply_artifact E (zi_Name zone) a ?s1 = (r, s')"
      using assms(2) False l f Inr by (auto simp: syncZone_def Let_def split: if_splits option.splits)
    then show thesis
    proof cases
      case 1
      then show thesis using fetched_not_modified [OF f [unfolded Inr]] by (intro stay) auto
    next
      case 2
      then show thesis by (intro stay) auto
    next
      case 3
      then show thesis using fetched_authentic [OF f [unfolded Inr]] l s1 valid_name_ok [OF False] by (intro new) auto
    qed
  qed
qed

lemma syncZone_law:
  assumes "inv (sy_files s)" "syncZone E zone s = (r, s')"
  shows "frame (zi_Name zone) s s'"
    and "content (sy_files s') (safe (zi_Name zone)) = content (sy_files s) (safe (zi_Name zone))
      \<or> (\<exists>c. content (sy_files s') (safe (zi_Name zone)) = Some c \<and> authentic E (zi_Name zone) c)"
    and "r = None \<Longrightarrow> content (sy_files s') (safe (zi_Name zone)) \<noteq> None"
    and "r = Some (ErrApplied e None None) \<Longrightarrow> content (sy_files s') (safe (zi_Name zone)) = content (sy_files s) (safe (zi_Name zone))
      \<and> managed (sy_files s') = managed (sy_files s) \<and> sy_zoneStates s' = sy_zoneStates s"
    and "local_state E (zi_Name zone) s = ((tag, b, Some k), f1) \<Longrightarrow>
      content (sy_files s') (safe (zi_Name zone)) = content (sy_files s) (safe (zi_Name zone))
      \<or> (\<exists>c m. content (sy_files s') (safe (zi_Name zone)) = Some c \<and> parseZoneSOASerial (se_lib E) (zi_Name zone) c = Some m
           \<and> \<not> zoneSerialBefore m k)"
proof -
  let ?n = "safe (zi_Name zone)"
  have "frame (zi_Name zone) s s' \<and>
    (content (sy_files s') ?n = content (sy_files s) ?n \<or>
      (\<exists>c m. content (sy_files s') ?n = Some c \<and> authentic E (zi_Name zone) c \<and>
        parseZoneSOASerial (se_lib E) (zi_Name zone) c = Some m \<and>
        (\<forall>tag b k f1. local_state E (zi_Name zone) s = ((tag, b, Some k), f1) \<longrightarrow> \<not> zoneSerialBefore m k))) \<and>
    (r = None \<longrightarrow> content (sy_files s') ?n \<noteq> None) \<and>
    (\<forall>e. r = Some (ErrApplied e None None) \<longrightarrow> content (sy_files s') ?n = content (sy_files s) ?n
      \<and> managed (sy_files s') = managed (sy_files s) \<and> sy_zoneStates s' = sy_zoneStates s)"
  proof (rule syncZone_cases [OF assms])
    fix a tag b serial f1 s1
    assume n: "local_state E (zi_Name zone) s = ((tag, b, serial), f1)"
      "authentic E (zi_Name zone) (ar_Content a)" "parseZoneSOASerial (se_lib E) (zi_Name zone) (ar_Content a) = Some (ar_Serial a)"
      "\<And>k. serial = Some k \<Longrightarrow> \<not> zoneSerialBefore (ar_Serial a) k"
      "name_ok (zi_Name zone)" "inv (sy_files s1)" "content (sy_files s1) = content (sy_files s)"
      "managed (sy_files s1) = managed (sy_files s)" "sy_zoneStates s1 = sy_zoneStates s"
      "apply_artifact E (zi_Name zone) a s1 = (r, s')"
    have fr: "frame (zi_Name zone) s1 s' \<Longrightarrow> frame (zi_Name zone) s s'" using n(7-9) by (simp add: frame_def)
    have new: "content (sy_files s') ?n = Some (ar_Content a) \<Longrightarrow>
      \<exists>c m. content (sy_files s') ?n = Some c \<and> authentic E (zi_Name zone) c \<and>
        parseZoneSOASerial (se_lib E) (zi_Name zone) c = Some m \<and>
        (\<forall>tag b k f1. local_state E (zi_Name zone) s = ((tag, b, Some k), f1) \<longrightarrow> \<not> zoneSerialBefore m k)"
      using n(1-4) by auto
    from n(6,5,10) show ?thesis
    proof (cases rule: apply_cases)
      case unwritten
      then show ?thesis using fr new n(7) by auto
    next
      case hook
      then show ?thesis using fr new n(7-9) by auto
    next
      case applied
      then have "content (sy_files s') ?n = Some (ar_Content a)" by (simp add: put_state_def)
      then show ?thesis using fr [OF applied(3)] applied(1) new by simp
    qed
  qed simp
  then show "frame (zi_Name zone) s s'"
    and "content (sy_files s') ?n = content (sy_files s) ?n
      \<or> (\<exists>c. content (sy_files s') ?n = Some c \<and> authentic E (zi_Name zone) c)"
    and "r = None \<Longrightarrow> content (sy_files s') ?n \<noteq> None"
    and "r = Some (ErrApplied e None None) \<Longrightarrow> content (sy_files s') ?n = content (sy_files s) ?n
      \<and> managed (sy_files s') = managed (sy_files s) \<and> sy_zoneStates s' = sy_zoneStates s"
    and "local_state E (zi_Name zone) s = ((tag, b, Some k), f1) \<Longrightarrow> content (sy_files s') ?n = content (sy_files s) ?n
      \<or> (\<exists>c m. content (sy_files s') ?n = Some c \<and> parseZoneSOASerial (se_lib E) (zi_Name zone) c = Some m \<and> \<not> zoneSerialBefore m k)"
    by blast+
qed

lemma deleteRemovedZone_law:
  assumes "inv (sy_files s)" "deleteRemovedZone E z s = (r, s')"
  shows "frame z s s'"
    and "content (sy_files s') (safe z) = content (sy_files s) (safe z) \<or> content (sy_files s') (safe z) = None"
    and "r = None \<Longrightarrow> content (sy_files s') (safe z) = None \<and> managed (sy_files s') = managed (sy_files s) - {safe z}
      \<and> sy_zoneStates s' = AList.delete z (sy_zoneStates s)"
proof -
  obtain h w1 where h: "run_hook (se_onZoneDeleted E) z (sy_world s) = (h, w1)" by fastforce
  obtain d f1 where d: "fo_delete ops z (sy_files s) = (d, f1)" by fastforce
  obtain m f2 where m: "fo_remove ops z f1 = (m, f2)" by fastforce
  obtain e w2 where e: "rollbackDeletedZone E z w1 = (e, w2)" by fastforce
  note dl = delete_law [OF assms(1) d]
  note ml = remove_law [OF conjunct1 [OF dl] m]
  consider (hook) x where "r = Some (ErrDeleteHook x)" "s' = s\<lparr>sy_world := w1\<rparr>"
    | (undeleted) x where "r = Some (ErrDeleteFiles x e)" "s' = s\<lparr>sy_files := f1, sy_world := w2\<rparr>"
    | (listed) x where "r = Some (ErrRemoveManaged x)" "s' = s\<lparr>sy_files := f2, sy_world := w1\<rparr>"
    | (gone) "r = None" "d = None" "m = None" "s' = delete_state z (s\<lparr>sy_files := f2, sy_world := w1\<rparr>)"
    using assms(2) h d m e by (auto simp: deleteRemovedZone_def env_ops split: option.splits)
  then have "frame z s s' \<and> (content (sy_files s') (safe z) = content (sy_files s) (safe z) \<or> content (sy_files s') (safe z) = None)
    \<and> (r = None \<longrightarrow> content (sy_files s') (safe z) = None \<and> managed (sy_files s') = managed (sy_files s) - {safe z}
         \<and> sy_zoneStates s' = AList.delete z (sy_zoneStates s))"
  proof cases
    case hook
    then show ?thesis using assms(1) by (auto simp: frame_def)
  next
    case undeleted
    then show ?thesis using dl by (auto simp: frame_def)
  next
    case listed
    then show ?thesis using dl ml by (auto simp: frame_def)
  next
    case gone
    then show ?thesis using dl ml by (auto simp: frame_def delete_keys)
  qed
  then show "frame z s s'"
    and "content (sy_files s') (safe z) = content (sy_files s) (safe z) \<or> content (sy_files s') (safe z) = None"
    and "r = None \<Longrightarrow> content (sy_files s') (safe z) = None \<and> managed (sy_files s') = managed (sy_files s) - {safe z}
      \<and> sy_zoneStates s' = AList.delete z (sy_zoneStates s)"
    by simp_all
qed

text \<open>What any sequence of steps can have done to the file of a name that no backup is mistaken for.\<close>

definition evolves :: "('f, 'w) Syncer \<Rightarrow> ('f, 'w) Syncer \<Rightarrow> bool" where
  "evolves s s' \<longleftrightarrow> inv (sy_files s') \<and>
     (\<forall>n. plain n \<longrightarrow> content (sy_files s') n = content (sy_files s) n \<or> content (sy_files s') n = None
        \<or> (\<exists>z c. safe z = n \<and> content (sy_files s') n = Some c \<and> authentic E z c))"

lemma evolves_refl: "inv (sy_files s) \<Longrightarrow> evolves s s"
  by (simp add: evolves_def)

lemma evolves_trans: "evolves s t \<Longrightarrow> evolves t u \<Longrightarrow> evolves s u"
  unfolding evolves_def by metis

lemma evolves_files: "sy_files t = sy_files s' \<Longrightarrow> evolves s s' \<Longrightarrow> evolves s t" "sy_files t = sy_files s' \<Longrightarrow> evolves s' u \<Longrightarrow> evolves t u"
  by (simp_all add: evolves_def)

lemma evolves_world [simp]: "evolves (s\<lparr>sy_world := w\<rparr>) t \<longleftrightarrow> evolves s t"
  by (simp add: evolves_def)

lemma syncZone_evolves:
  assumes "inv (sy_files s)" "syncZone E zone s = (r, s')"
  shows "evolves s s'"
proof -
  have "content (sy_files s') n = content (sy_files s) n" if "plain n" "n \<noteq> safe (zi_Name zone)" for n
    using syncZone_law(1) [OF assms] that by (simp add: plain_def frame_def)
  then show ?thesis using syncZone_law(1,2) [OF assms] unfolding evolves_def frame_def by metis
qed

lemma deleteRemovedZone_evolves:
  assumes "inv (sy_files s)" "deleteRemovedZone E z s = (r, s')"
  shows "evolves s s'"
proof -
  have "content (sy_files s') n = content (sy_files s) n" if "plain n" "n \<noteq> safe z" for n
    using deleteRemovedZone_law(1) [OF assms] that by (simp add: plain_def frame_def)
  then show ?thesis using deleteRemovedZone_law(1,2) [OF assms] unfolding evolves_def frame_def by metis
qed

lemma evolves_inv: "evolves s s' \<Longrightarrow> inv (sy_files s')"
  by (simp add: evolves_def)

lemma delete_zones_evolves: "inv (sy_files s) \<Longrightarrow> delete_zones E zs s = (r, s') \<Longrightarrow> evolves s s'"
proof (induction zs arbitrary: s r)
  case (Cons z zs)
  obtain r1 s1 where d: "deleteRemovedZone E z s = (r1, s1)" by fastforce
  note e = deleteRemovedZone_evolves [OF Cons.prems(1) d]
  have "\<exists>t r'. sy_files t = sy_files s1 \<and> delete_zones E zs t = (r', s')"
    using Cons.prems(2) d by (auto split: option.splits prod.splits) (metis states_frame(7))
  then show ?case using Cons.IH e evolves_files evolves_trans evolves_inv by metis
qed (simp add: evolves_refl)

lemma sync_zones_evolves: "inv (sy_files s) \<Longrightarrow> sync_zones E zs s = (r, s') \<Longrightarrow> evolves s s'"
proof (induction zs arbitrary: s r)
  case (Cons z zs)
  obtain r1 s1 where d: "syncZone E z s = (r1, s1)" by fastforce
  note e = syncZone_evolves [OF Cons.prems(1) d]
  have "\<exists>t r'. sy_files t = sy_files s1 \<and> sync_zones E zs t = (r', s')"
    using Cons.prems(2) d by (auto split: option.splits prod.splits) (metis states_frame(1,3))+
  then show ?case using Cons.IH e evolves_files evolves_trans evolves_inv by metis
qed (simp add: evolves_refl)

lemma fold_delete_state: "sy_files (fold delete_state zs s) = sy_files s"
  "sy_zoneStates (fold delete_state zs s) = fold AList.delete zs (sy_zoneStates s)"
  by (induction zs arbitrary: s) simp_all

lemma deleteRemovedZones_evolves:
  assumes "inv (sy_files s)" "deleteRemovedZones E zs ns s = (r, s')"
  shows "evolves s s'"
proof -
  let ?s1 = "fold delete_state (sort (filter (\<lambda>z. se_safe E z \<in> set ns) (filter (\<lambda>z. z \<notin> set zs) (map fst (sy_zoneStates s))))) s"
  obtain d e s2 where z: "delete_zones E (sort (filter (\<lambda>z. se_safe E z \<notin> set ns) (filter (\<lambda>z. z \<notin> set zs)
    (map fst (sy_zoneStates s))))) ?s1 = ((d, e), s2)" by (metis prod.collapse)
  have e2: "evolves s s2" using delete_zones_evolves [OF _ z] assms(1) evolves_files(2) fold_delete_state(1) by metis
  obtain rl f where l: "fo_list ops (sy_files s2) = (rl, f)" by fastforce
  note ll = list_law [OF evolves_inv [OF e2] l]
  have e3: "evolves s (s2\<lparr>sy_files := f\<rparr>)" using e2 ll by (simp add: evolves_def)
  show ?thesis
  proof (cases rl)
    case (Inl x)
    then show ?thesis using assms(2) z l e3 by (simp add: deleteRemovedZones_def env_ops Let_def)
  next
    case (Inr refs)
    then have "\<exists>zs' r'. delete_zones E zs' (s2\<lparr>sy_files := f\<rparr>) = (r', s')"
      using assms(2) z l by (auto simp: deleteRemovedZones_def env_ops Let_def split: prod.splits)
    then show ?thesis using e3 delete_zones_evolves evolves_trans evolves_inv by metis
  qed
qed

text \<open>How a cycle can end.\<close>

lemma SyncAll_cases:
  assumes "SyncAll E s = Some (r, s')"
  obtains (refused) e w where "r = Some e" "s' = s\<lparr>sy_world := w\<rparr>"
  | (cycle) zones w ok bad s1 d e s2 where
      "ListZones (se_lib E) (se_transport E) (se_client E) (sy_world s) = Some (Inr zones, w)"
      "validateControllerZoneList zones = (None :: 'e sync_error option)"
      "sync_zones E zones (s\<lparr>sy_world := w\<rparr>) = ((ok, bad), s1)"
      "deleteRemovedZones E (map zi_Name zones) (map (safe \<circ> zi_Name) zones) s1 = ((d, e), s2)"
      "r = None \<longleftrightarrow> bad = 0 \<and> e = 0" "sy_files s' = sy_files s2" "sy_zoneStates s' = sy_zoneStates s2"
      "r = None \<Longrightarrow> (ok > 0 \<or> zones = []) \<Longrightarrow> sy_lastSuccess s' = Some (se_now E (sy_world s2))"
proof -
  obtain lr w where l: "ListZones (se_lib E) (se_transport E) (se_client E) (sy_world s) = Some (lr, w)"
    using assms by (auto simp: SyncAll_def split: option.splits)
  show thesis
  proof (cases lr)
    case (Inl e)
    then show thesis using assms l by (intro refused) (auto simp: SyncAll_def)
  next
    case (Inr zones)
    obtain ok bad s1 where z: "sync_zones E zones (s\<lparr>sy_world := w\<rparr>) = ((ok, bad), s1)" by (metis prod.collapse)
    obtain d e s2 where d: "deleteRemovedZones E (map zi_Name zones) (map (safe \<circ> zi_Name) zones) s1 = ((d, e), s2)"
      by (metis prod.collapse)
    show thesis
    proof (cases "validateControllerZoneList zones :: 'e sync_error option")
      case None
      then have "SyncAll E s = Some (if 0 < bad \<or> 0 < e then Some (ErrZonesFailed bad e) else None,
        if bad + e = 0 \<and> (0 < ok + d \<or> zones = []) then recordSyncSuccess (se_now E (sy_world s2)) s2 else s2)"
        using l Inr z d by (simp add: SyncAll_def env_safe Let_def)
      then show thesis using assms l Inr
        by (intro cycle [OF _ None z d]) (auto simp: recordSyncSuccess_def split: if_splits)
    next
      case (Some x)
      then show thesis using assms l Inr by (intro refused [of x w]) (simp_all add: SyncAll_def)
    qed
  qed
qed

lemma SyncAll_evolves:
  assumes "inv (sy_files s)" "SyncAll E s = Some (r, s')"
  shows "evolves s s'"
  using assms(2)
proof (cases rule: SyncAll_cases)
  case refused
  then show ?thesis using evolves_refl [OF assms(1)] evolves_files(1) by simp
next
  case (cycle zones w ok bad s1 d e s2)
  have "evolves s s1" using sync_zones_evolves [OF _ cycle(3)] assms(1) evolves_files(2) by simp
  then have "evolves s s2" using deleteRemovedZones_evolves [OF evolves_inv cycle(4)] evolves_trans by blast
  then show ?thesis using cycle(6) evolves_files(1) by blast
qed

lemma sync_ticks_evolves: "inv (sy_files s) \<Longrightarrow> sync_ticks E ticks s = Some s' \<Longrightarrow> evolves s s'"
proof (induction ticks arbitrary: s)
  case (Cons wait ticks)
  obtain r s1 where a: "SyncAll E (s\<lparr>sy_world := wait (sy_world s)\<rparr>) = Some (r, s1)" "sync_ticks E ticks s1 = Some s'"
    using Cons.prems(2) by (auto split: option.splits)
  have "evolves s s1" using SyncAll_evolves [OF _ a(1)] Cons.prems(1) evolves_files(2) by simp
  then show ?case using Cons.IH [OF evolves_inv a(2)] evolves_trans by blast
qed (simp add: evolves_refl)

lemma syncer_Run_evolves:
  assumes "inv (sy_files s)" "syncer_Run E ticks s = Some s'"
  shows "evolves s s'"
proof -
  obtain r s1 where a: "SyncAll E s = Some (r, s1)" "sync_ticks E ticks s1 = Some s'"
    using assms(2) by (auto simp: syncer_Run_def split: option.splits)
  show ?thesis using SyncAll_evolves [OF assms(1) a(1)] sync_ticks_evolves [OF evolves_inv a(2)] evolves_trans by blast
qed

text \<open>A clean pass over the zones: every one has a file, and nothing else becomes or stops being managed.\<close>

lemma syncZone_keeps_file:
  assumes "inv (sy_files s)" "syncZone E zone s = (r, s')" "plain n" "content (sy_files s) n \<noteq> None"
  shows "content (sy_files s') n \<noteq> None"
proof (cases "n = safe (zi_Name zone)")
  case True
  then show ?thesis using syncZone_law(2) [OF assms(1,2)] assms(4) by auto
next
  case False
  then show ?thesis using syncZone_law(1) [OF assms(1,2)] assms(3,4) by (simp add: plain_def frame_def)
qed

lemma sync_zones_keeps_file:
  "inv (sy_files s) \<Longrightarrow> sync_zones E zs s = (r, s') \<Longrightarrow> plain n \<Longrightarrow> content (sy_files s) n \<noteq> None \<Longrightarrow> content (sy_files s') n \<noteq> None"
proof (induction zs arbitrary: s r)
  case (Cons z zs)
  obtain r1 s1 where d: "syncZone E z s = (r1, s1)" by fastforce
  have "\<exists>t r'. sy_files t = sy_files s1 \<and> sync_zones E zs t = (r', s')"
    using Cons.prems(2) d by (auto split: option.splits prod.splits) (metis states_frame(1,3))+
  then show ?case
    using Cons.IH Cons.prems(3) syncZone_keeps_file [OF Cons.prems(1) d Cons.prems(3,4)] evolves_inv [OF syncZone_evolves [OF Cons.prems(1) d]]
    by metis
qed simp

lemma sync_zones_clean:
  assumes "inv (sy_files s)" "sync_zones E zs s = ((ok, 0), s')"
  shows "(\<forall>z \<in> set zs. plain (safe (zi_Name z)) \<longrightarrow> content (sy_files s') (safe (zi_Name z)) \<noteq> None)
    \<and> (\<forall>n. n \<notin> safe ` zi_Name ` set zs \<longrightarrow> (n \<in> managed (sy_files s') \<longleftrightarrow> n \<in> managed (sy_files s)))
    \<and> fst ` set (sy_zoneStates s') \<subseteq> zi_Name ` set zs \<union> fst ` set (sy_zoneStates s) \<and> ok = length zs"
  using assms
proof (induction zs arbitrary: s ok)
  case (Cons z zs)
  obtain r s1 where d: "syncZone E z s = (r, s1)" by fastforce
  note y = syncZone_law [OF Cons.prems(1) d]
  let ?t = "recordZoneSyncSuccess (zi_Name z) (se_now E (sy_world s1)) s1"
  have r: "r = None" using Cons.prems(2) d by (cases r) (auto split: prod.splits)
  then obtain k where k: "sync_zones E zs ?t = ((k, 0), s')" "ok = k + 1"
    using Cons.prems(2) d by (auto split: prod.splits)
  have i: "inv (sy_files ?t)" using y(1) by (simp add: frame_def)
  note ih = Cons.IH [OF i k(1)]
  have "plain (safe (zi_Name z)) \<Longrightarrow> content (sy_files s') (safe (zi_Name z)) \<noteq> None"
    using sync_zones_keeps_file [OF i k(1)] y(3) [OF r] by simp
  moreover have "fst ` set (sy_zoneStates ?t) \<subseteq> insert (zi_Name z) (fst ` set (sy_zoneStates s))"
    using y(1) by (auto simp: frame_def)
  with ih have "fst ` set (sy_zoneStates s') \<subseteq> zi_Name ` set (z # zs) \<union> fst ` set (sy_zoneStates s)" by (simp del: record_keys) blast
  moreover have "n \<notin> safe ` zi_Name ` set (z # zs) \<Longrightarrow> n \<in> managed (sy_files ?t) \<longleftrightarrow> n \<in> managed (sy_files s)" for n
    using y(1) by (simp add: frame_def)
  ultimately show ?case using ih k(2) by (simp del: record_keys)
qed simp

lemma delete_zones_clean:
  assumes "inv (sy_files s)" "delete_zones E zs s = ((d, 0), s')"
  shows "(\<forall>n. plain n \<longrightarrow> n \<in> safe ` set zs \<longrightarrow> content (sy_files s') n = None)
    \<and> (\<forall>n. plain n \<longrightarrow> n \<notin> safe ` set zs \<longrightarrow> content (sy_files s') n = content (sy_files s) n)
    \<and> managed (sy_files s') = managed (sy_files s) - safe ` set zs
    \<and> fst ` set (sy_zoneStates s') = fst ` set (sy_zoneStates s) - set zs"
  using assms
proof (induction zs arbitrary: s d)
  case (Cons z zs)
  obtain r s1 where e: "deleteRemovedZone E z s = (r, s1)" by fastforce
  note y = deleteRemovedZone_law [OF Cons.prems(1) e]
  have r: "r = None" using Cons.prems(2) e by (cases r) (auto split: prod.splits)
  then obtain k where k: "delete_zones E zs s1 = ((k, 0), s')" using Cons.prems(2) e by (auto split: prod.splits)
  have "inv (sy_files s1)" using y(1) by (simp add: frame_def)
  note ih = Cons.IH [OF this k]
  have "content (sy_files s') n = content (sy_files s) n" if "plain n" "n \<notin> safe ` set (z # zs)" for n
    using ih that frame_plain [OF y(1)] by simp
  moreover have "content (sy_files s') n = None" if "plain n" "n \<in> safe ` set (z # zs)" for n
    using ih that y(3) [OF r] by (cases "n \<in> safe ` set zs") auto
  moreover have "managed (sy_files s') = managed (sy_files s) - safe ` set (z # zs)"
    "fst ` set (sy_zoneStates s') = fst ` set (sy_zoneStates s) - set (z # zs)"
    using ih y(3) [OF r] by (auto simp: delete_keys)
  ultimately show ?case by blast
qed simp

lemma fold_delete_keys: "fst ` set (fold AList.delete zs xs) = fst ` set xs - set zs"
  by (induction zs arbitrary: xs) (auto simp: delete_keys)

lemma deleteRemovedZones_clean:
  assumes "inv (sy_files s)" "deleteRemovedZones E zs ns s = ((d, 0), s')" "ns = map safe zs"
  shows "managed (sy_files s') = managed (sy_files s) \<inter> set ns" "fst ` set (sy_zoneStates s') = fst ` set (sy_zoneStates s) \<inter> set zs"
    "plain n \<Longrightarrow> n \<in> set ns \<Longrightarrow> content (sy_files s') n = content (sy_files s) n"
    "plain n \<Longrightarrow> n \<in> managed (sy_files s) \<Longrightarrow> n \<notin> set ns \<Longrightarrow> content (sy_files s') n = None"
proof -
  let ?gone = "filter (\<lambda>z. z \<notin> set zs) (map fst (sy_zoneStates s))"
  let ?al = "sort (filter (\<lambda>z. safe z \<in> set ns) ?gone)" and ?st = "sort (filter (\<lambda>z. safe z \<notin> set ns) ?gone)"
  let ?s1 = "fold delete_state ?al s"
  obtain d1 e1 s2 where z: "delete_zones E ?st ?s1 = ((d1, e1), s2)" by (metis prod.collapse)
  obtain rl f where l: "fo_list ops (sy_files s2) = (rl, f)" by fastforce
  let ?s3 = "s2\<lparr>sy_files := f\<rparr>"
  note df = assms(2) [unfolded deleteRemovedZones_def Let_def env_ops env_safe] z l
  obtain refs where rl: "rl = Inr refs" using df by (cases rl) auto
  let ?or = "map fst (filter (\<lambda>(_, n). n \<notin> set ns \<and> n \<notin> set (map safe (filter (\<lambda>z. safe z \<notin> set ns) ?gone))) refs)"
  obtain d2 where o: "e1 = 0" "delete_zones E ?or ?s3 = ((d2, 0), s')" using df rl by (auto split: prod.splits)
  have i1: "inv (sy_files ?s1)" using assms(1) by (simp add: fold_delete_state)
  note c1 = delete_zones_clean [OF i1 z [unfolded o(1)]]
  have i2: "inv (sy_files s2)" using delete_zones_evolves [OF i1 z] evolves_inv by blast
  note ll = list_law [OF i2 l]
  note c2 = delete_zones_clean [OF _ o(2)]
  have i3: "inv (sy_files ?s3)" using ll by simp
  have m: "snd ` set refs = managed (sy_files s2)" "\<And>a n. (a, n) \<in> set refs \<Longrightarrow> safe a = n" using ll rl by auto
  have at: "set (map safe (filter (\<lambda>z. safe z \<notin> set ns) ?gone)) = safe ` set ?st" by simp
  have "\<forall>(a, n) \<in> set refs. safe a = n" using m(2) by blast
  note r = safe_names_of_refs [where P = "\<lambda>n. n \<notin> set ns \<and> n \<notin> set (map safe (filter (\<lambda>z. safe z \<notin> set ns) ?gone))", OF this]
  have ors: "safe ` set ?or = managed (sy_files s2) - set ns - safe ` set ?st"
    by (rule trans [OF r]) (simp only: at m(1) set_eq_iff mem_Collect_eq Diff_iff simp_thms conj_assoc)
  then have ors2: "\<And>z. z \<in> set ?or \<Longrightarrow> safe z \<notin> set ns" by blast
  have st: "set ?st = {z \<in> fst ` set (sy_zoneStates s). z \<notin> set zs \<and> safe z \<notin> set ns}"
    "set ?al = {z \<in> fst ` set (sy_zoneStates s). z \<notin> set zs \<and> safe z \<in> set ns}" by auto
  have m2: "managed (sy_files s2) = managed (sy_files s) - safe ` set ?st" using c1 by (simp add: fold_delete_state)
  have m3: "managed (sy_files s') = managed (sy_files s2) - safe ` set ?or" using c2 [OF i3] ll by simp
  have k2: "fst ` set (sy_zoneStates s2) = fst ` set (sy_zoneStates s) - set ?al - set ?st"
    using c1 unfolding fold_delete_state fold_delete_keys by blast
  have k3: "fst ` set (sy_zoneStates s') = fst ` set (sy_zoneStates s2) - set ?or" using c2 [OF i3] by simp
  have f1: "plain n \<Longrightarrow> n \<in> safe ` set ?st \<Longrightarrow> content f n = None" "plain n \<Longrightarrow> n \<notin> safe ` set ?st \<Longrightarrow> content f n = content (sy_files s) n" for n
    using c1 ll unfolding fold_delete_state by metis+
  have f2: "plain n \<Longrightarrow> n \<in> safe ` set ?or \<Longrightarrow> content (sy_files s') n = None"
    "plain n \<Longrightarrow> n \<notin> safe ` set ?or \<Longrightarrow> content (sy_files s') n = content f n" for n
    using c2 [OF i3] by simp_all
  have ns: "z \<in> set zs \<Longrightarrow> safe z \<in> set ns" for z using assms(3) by simp
  show "managed (sy_files s') = managed (sy_files s) \<inter> set ns"
    unfolding m3 ors m2 unfolding st by blast
  show "fst ` set (sy_zoneStates s') = fst ` set (sy_zoneStates s) \<inter> set zs"
    unfolding k3 k2 unfolding st using ors2 ns by blast
  show "content (sy_files s') n = content (sy_files s) n" if "plain n" "n \<in> set ns"
  proof -
    have "n \<notin> safe ` set ?or" "n \<notin> safe ` set ?st" using that(2) ors unfolding st by blast+
    then show ?thesis using f1(2) f2(2) that(1) by simp
  qed
  show "content (sy_files s') n = None" if "plain n" "n \<in> managed (sy_files s)" "n \<notin> set ns"
  proof (cases "n \<in> safe ` set ?st")
    case True
    show ?thesis using f2 [OF that(1)] f1(1) [OF that(1) True] by (cases "n \<in> safe ` set ?or") simp_all
  next
    case False
    then have "n \<in> safe ` set ?or" unfolding ors m2 using that(2,3) by (intro DiffI)
    then show ?thesis by (rule f2(1) [OF that(1)])
  qed
qed

lemma SyncAll_clean:
  assumes "inv (sy_files s)" "SyncAll E s = Some (None, s')"
  obtains zones w where "ListZones (se_lib E) (se_transport E) (se_client E) (sy_world s) = Some (Inr zones, w)"
    "\<And>z. z \<in> set zones \<Longrightarrow> plain (safe (zi_Name z)) \<Longrightarrow> content (sy_files s') (safe (zi_Name z)) \<noteq> None"
    "managed (sy_files s') \<subseteq> safe ` zi_Name ` set zones" "fst ` set (sy_zoneStates s') \<subseteq> zi_Name ` set zones"
    "\<And>n. plain n \<Longrightarrow> n \<in> managed (sy_files s) \<Longrightarrow> n \<notin> safe ` zi_Name ` set zones \<Longrightarrow> content (sy_files s') n = None"
    "sy_lastSuccess s' \<noteq> None"
  using assms(2)
proof (cases rule: SyncAll_cases)
  case refused
  then show thesis by simp
next
  case (cycle zones w ok bad s1 d e s2)
  have z: "bad = 0" "e = 0" using cycle(5) by auto
  have i: "inv (sy_files (s\<lparr>sy_world := w\<rparr>))" using assms(1) by simp
  note c = sync_zones_clean [OF i cycle(3) [unfolded z]]
  have i1: "inv (sy_files s1)" using sync_zones_evolves [OF i cycle(3)] evolves_inv by blast
  note r = deleteRemovedZones_clean [OF i1 cycle(4) [unfolded z]]
  have names: "set (map (safe \<circ> zi_Name) zones) = safe ` zi_Name ` set zones" "map (safe \<circ> zi_Name) zones = map safe (map zi_Name zones)"
    by (simp_all add: image_comp)
  show thesis
  proof (rule that [OF cycle(1)])
    show "content (sy_files s') (safe (zi_Name z)) \<noteq> None" if "z \<in> set zones" "plain (safe (zi_Name z))" for z
    proof -
      have "content (sy_files s2) (safe (zi_Name z)) = content (sy_files s1) (safe (zi_Name z))"
        using r(3) [OF names(2) that(2)] that(1) names(1) by simp
      then show ?thesis using c that cycle(6) by simp
    qed
    show "managed (sy_files s') \<subseteq> safe ` zi_Name ` set zones" using r(1) [OF names(2)] names(1) cycle(6) by simp
    show "fst ` set (sy_zoneStates s') \<subseteq> zi_Name ` set zones" using r(2) [OF names(2)] cycle(7) by simp
    show "content (sy_files s') n = None" if "plain n" "n \<in> managed (sy_files s)" "n \<notin> safe ` zi_Name ` set zones" for n
      using r(4) [OF names(2) that(1)] that(2,3) c names(1) cycle(6) by simp
    show "sy_lastSuccess s' \<noteq> None" using cycle(8) c by (cases zones) auto
  qed
qed

end

subsection \<open>The agent\<close>

definition agent_env ::
  "fm_env \<Rightarrow> FileManager \<Rightarrow> (fs, rollback, fs_error, 'w) sync_env \<Rightarrow> (fs, rollback, fs_error, 'w) sync_env" where
  "agent_env F fm E = E\<lparr>se_ops := fm_ops F fm, se_safe := safe_name F\<rparr>"

lemma agent_env_simps [simp]:
  "se_ops (agent_env F fm E) = fm_ops F fm" "se_safe (agent_env F fm E) = safe_name F" "se_lib (agent_env F fm E) = se_lib E"
  "se_transport (agent_env F fm E) = se_transport E" "se_client (agent_env F fm E) = se_client E"
  by (simp_all add: agent_env_def)

lemma domain_ok_no_space: "domain_ok name \<Longrightarrow> no_space name"
proof -
  assume ok: "domain_ok name"
  have "byte c < 128 \<and> \<not> ascii_space c" if "c \<in> set name" for c
    using domain_ok_chars [OF ok that]
    by (auto simp: alnum_hyphen_def is_alnum_def is_lower_def is_upper_def is_digit_def ascii_space_def) (simp_all add: byte_def)
  then show ?thesis by (simp add: no_space_def)
qed

lemma no_space_Normalize_iff: "no_space (NormalizeZoneName z) \<longleftrightarrow> no_space z"
proof
  assume n: "no_space (NormalizeZoneName z)"
  have "set (ToLower z) \<subseteq> set (NormalizeZoneName z)" by (auto simp: NormalizeZoneName_def Let_def ToLower_def)
  then have "byte (lower_char c) < 128 \<and> \<not> ascii_space (lower_char c)" if "c \<in> set z" for c
    using n that unfolding no_space_def ToLower_def by auto
  then have "byte c < 128 \<and> \<not> ascii_space c" if "c \<in> set z" for c
    using that by (fastforce simp: ascii_space_def byte_lower_char is_upper_def split: if_splits)
  then show "no_space z" by (simp add: no_space_def)
qed (rule no_space_Normalize)

lemma controller_name_ok:
  assumes "validateControllerZoneName z \<noteq> None"
  shows "zone_name_ok z"
proof -
  have ok: "domain_ok (NormalizeZoneName z)"
    using assms by (simp add: validateControllerZoneName_def Let_def ValidateZoneName_iff split: if_splits)
  then have "NormalizeZoneName z \<noteq> []" by (auto simp: domain_ok_def)
  then show ?thesis using domain_ok_no_space [OF ok] by (simp add: zone_name_ok_def no_space_Normalize_iff)
qed

interpretation agent: syncing "fm_ops F fm" "safe_name F" apart_files zone_content "managed_names F" "fm_good F" "rb_undoes F"
  zone_name_ok "agent_env F fm E" for F fm E
  by unfold_locales (simp_all add: controller_name_ok)

text \<open>A file name that cannot be taken for a backup.\<close>

definition backup_free :: "string \<Rightarrow> bool" where
  "backup_free n \<longleftrightarrow> \<not> Contains (n @ ''.zone'') ''.zone.backup.''"

lemma backup_free_plain: "backup_free n \<Longrightarrow> agent.plain n"
  by (auto simp: agent.plain_def apart_files_def backup_free_def HasPrefix_iff Contains_iff)

subsection \<open>Theorems\<close>

text \<open>
  C5: A zone never goes back. If the local file could be read and its serial is \<open>k\<close>, then after a synchronisation of the
  zone, whatever its outcome, the file is the same as before or has a serial that is not before \<open>k\<close> in the
  sequence space of serials; files that do not look like backups of the zone are untouched.
\<close>

theorem sync_never_goes_back:
  assumes "fm_good F (sy_files s)" "syncZone (agent_env F fm E) zone s = (r, s')"
    and "local_state (agent_env F fm E) (zi_Name zone) s = ((tag, b, Some k), f1)"
  shows "\<exists>c. zone_content (sy_files s) (safe_name F (zi_Name zone)) = Some c \<and> parseZoneSOASerial (se_lib E) (zi_Name zone) c = Some k
      \<and> (\<exists>c' m. zone_content (sy_files s') (safe_name F (zi_Name zone)) = Some c'
           \<and> parseZoneSOASerial (se_lib E) (zi_Name zone) c' = Some m \<and> (c' = c \<or> \<not> zoneSerialBefore m k))
      \<and> (\<forall>n. apart_files (safe_name F (zi_Name zone)) n \<longrightarrow> zone_content (sy_files s') n = zone_content (sy_files s) n)"
proof -
  obtain c where c: "zone_content (sy_files s) (safe_name F (zi_Name zone)) = Some c"
    "parseZoneSOASerial (se_lib E) (zi_Name zone) c = Some k"
    using agent.local_state_law [OF assms(1,3)] by auto
  have "\<exists>c' m. zone_content (sy_files s') (safe_name F (zi_Name zone)) = Some c'
      \<and> parseZoneSOASerial (se_lib E) (zi_Name zone) c' = Some m \<and> (c' = c \<or> \<not> zoneSerialBefore m k)"
    using agent.syncZone_law(5) [OF assms] c by auto
  then show ?thesis using c agent.syncZone_law(1) [OF assms(1,2)] by (auto simp: agent.frame_def)
qed


text \<open>
  When the reload after a new zone file fails and both rollbacks succeed, the zone's file has its previous content
  (or is gone again), the index of managed zones is as before, and the recorded version is as before, so that the next cycle
  tries again.
\<close>

theorem failed_apply_undone:
  assumes "fm_good F (sy_files s)" "syncZone (agent_env F fm E) zone s = (Some (ErrApplied e None None), s')"
  shows "zone_content (sy_files s') (safe_name F (zi_Name zone)) = zone_content (sy_files s) (safe_name F (zi_Name zone))
    \<and> managed_names F (sy_files s') = managed_names F (sy_files s) \<and> sy_zoneStates s' = sy_zoneStates s"
  using agent.syncZone_law(4) [OF assms] by blast


text \<open>An agent whose directory holds an older file of the only zone, and its controller.\<close>

definition example_sync :: "(fs, rollback, fs_error, string) sync_env" where
  "example_sync =
     \<lparr>se_ops = fm_ops toy_env example_fm, se_safe = safe_name toy_env,
      se_lib = example_lib\<lparr>lib_Unmarshal := (\<lambda>_. Some \<lparr>lz_Zones = [\<lparr>zi_Name = ''a.'', zi_Version = [], zi_ETag = []\<rparr>],
        lz_Offset = 0, lz_Limit = 0, lz_Count = 0\<rparr>)\<rparr>,
      se_transport = example_transport, se_client = example_client,
      se_config = \<lparr>sc_SyncInterval = 10, sc_Jitter = 2, sc_MaxStaleness = 100, sc_VerifyChecksums = True,
        sc_VerifySignatures = True, sc_ControllerSignatureKey = ''key'', sc_ControllerSignatureKeys = []\<rparr>,
      se_now = (\<lambda>_. 1), se_onZoneApplied = None, se_onZoneApplyRollback = None, se_onZoneDeleted = None,
      se_onZoneDeleteRollback = None, se_validateZoneFile = None\<rparr>"

definition example_syncer :: "(fs, string) Syncer" where
  "example_syncer = \<lparr>sy_zoneStates = [], sy_lastSuccess = None, sy_files = example_fs, sy_world = ''newer''\<rparr>"

definition example_listed :: ZoneInfo where
  "example_listed = \<lparr>zi_Name = ''a.'', zi_Version = [], zi_ETag = []\<rparr>"

lemma example_good: "fm_good toy_env (sy_files example_syncer)"
  using toy_env_ok example_fs_inv by (simp add: fm_good_def example_syncer_def)

abbreviation example_agent :: "(fs, rollback, fs_error, string) sync_env" where
  "example_agent \<equiv> agent_env toy_env example_fm example_sync"

lemma example_list: "ListZones (se_lib example_sync) (se_transport example_sync) (se_client example_sync) ''newer''
    = Some (Inr [example_listed], ''newer'')"
  unfolding ListZones_def by (subst list_loop.simps) code_simp

lemma example_synced:
  obtains s' where "syncZone example_agent example_listed example_syncer = (None, s')" "zone_content (sy_files s') ''a'' = Some ''newer''"
proof -
  have "case syncZone example_agent example_listed example_syncer of (r, s) \<Rightarrow> r = None \<and> zone_content (sy_files s) ''a'' = Some ''newer''"
    by code_simp
  then show thesis using that by (auto split: prod.splits)
qed

lemma example_local:
  obtains tag b f1 where "local_state example_agent (zi_Name example_listed) example_syncer = ((tag, b, Some 3), f1)"
proof -
  have "case local_state example_agent (zi_Name example_listed) example_syncer of ((_, _, n), _) \<Rightarrow> n = Some 3" by code_simp
  then show thesis using that by (auto split: prod.splits)
qed

lemma example_cycle:
  obtains s' where "SyncAll example_agent example_syncer = Some (None, s')" "zone_content (sy_files s') ''a'' = Some ''newer''"
proof -
  have v: "validateControllerZoneList [example_listed] = (None :: fs_error sync_error option)" by code_simp
  have w: "sy_world example_syncer = ''newer''" by (simp add: example_syncer_def)
  obtain ok bad s1 where z: "sync_zones example_agent [example_listed] example_syncer = ((ok, bad), s1)" by (metis prod.collapse)
  obtain d e s2 where d: "deleteRemovedZones example_agent (map zi_Name [example_listed]) (map (safe_name toy_env \<circ> zi_Name) [example_listed]) s1
    = ((d, e), s2)" by (metis prod.collapse)
  have "case sync_zones example_agent [example_listed] example_syncer of ((ok, bad), s1) \<Rightarrow>
      (case deleteRemovedZones example_agent (map zi_Name [example_listed]) (map (safe_name toy_env \<circ> zi_Name) [example_listed]) s1 of
        ((d, e), s2) \<Rightarrow> bad = 0 \<and> e = 0 \<and> zone_content (sy_files s2) ''a'' = Some ''newer'')"
    by code_simp
  then have c: "bad = 0" "e = 0" "zone_content (sy_files s2) ''a'' = Some ''newer''"
    unfolding z prod.case d by simp_all
  have x: "example_syncer\<lparr>sy_world := ''newer''\<rparr> = example_syncer" by (simp add: example_syncer_def)
  have "SyncAll example_agent example_syncer = Some (None,
    if 0 < ok + d then recordSyncSuccess (se_now example_agent (sy_world s2)) s2 else s2)"
    unfolding SyncAll_def agent_env_simps w example_list option.case prod.case sum.case v x z d by (simp add: c Let_def)
  then show thesis by (rule that) (simp add: c(3))
qed

lemma example_safe: "safe_name toy_env ''a.'' = ''a''" "zi_Name example_listed = ''a.''" "zone_content (sy_files example_syncer) ''a'' = Some ''old''"
  by code_simp+

theorem sync_never_goes_back_witness:
  "\<exists>s' m. syncZone example_agent example_listed example_syncer = (None, s') \<and> zone_content (sy_files s') ''a'' = Some ''newer''
     \<and> parseZoneSOASerial (se_lib example_sync) ''a.'' ''newer'' = Some m \<and> \<not> zoneSerialBefore m 3"
proof -
  obtain s' where y: "syncZone example_agent example_listed example_syncer = (None, s')" "zone_content (sy_files s') ''a'' = Some ''newer''"
    by (rule example_synced)
  obtain tag b f1 where l: "local_state example_agent (zi_Name example_listed) example_syncer = ((tag, b, Some 3), f1)"
    by (rule example_local)
  show ?thesis using sync_never_goes_back [OF example_good y(1) l] y by (auto simp: example_safe)
qed


definition example_failing :: "(fs, rollback, fs_error, string) sync_env" where
  "example_failing = example_sync\<lparr>se_onZoneApplied := Some (\<lambda>_ w. (Some ''reload'', w))\<rparr>"

theorem failed_apply_undone_witness:
  "\<exists>s'. syncZone (agent_env toy_env example_fm example_failing) example_listed example_syncer
       = (Some (ErrApplied ''reload'' None None), s') \<and> zone_content (sy_files s') ''a'' = Some ''old''"
proof -
  have "fst (syncZone (agent_env toy_env example_fm example_failing) example_listed example_syncer) = Some (ErrApplied ''reload'' None None)"
    by code_simp
  then obtain s' where f: "syncZone (agent_env toy_env example_fm example_failing) example_listed example_syncer
    = (Some (ErrApplied ''reload'' None None), s')" by (metis prod.collapse)
  show ?thesis using failed_apply_undone [OF example_good f] f by (auto simp: example_safe)
qed


end
