(* ===== verification/Ulid.thy ===== *)
theory Ulid
  imports Go_Strings "HOL-Library.List_Lexorder" "HOL-Library.Char_ord"
begin

unbundle bit_operations_syntax

section \<open>ULIDs and zone versions (pkg/util/ulid.go, pkg/model/version.go)\<close>

text \<open>
  The generator keeps the last millisecond and the last 80 random bits it used. A call in a later
  millisecond draws new random bits; any other call (same millisecond, or a clock that went back)
  increments the bits. \<open>encodeULID\<close> writes the 128 bits as 26 base-32 digits. The lemmas show that
  the digits are those of the 128-bit number, so that the order of the strings is the order of the
  numbers, and that successive identifiers strictly increase.
\<close>

subsection \<open>Encoding\<close>

definition crockfordBase32 :: string where
  "crockfordBase32 = ''0123456789ABCDEFGHJKMNPQRSTVWXYZ''"

type_synonym enc_state = "uint32 \<times> nat \<times> string"

text \<open>One round of the inner loop: emit the top five of \<open>nbits\<close> bits.\<close>

definition emit5 :: "enc_state \<Rightarrow> enc_state" where
  "emit5 st =
     (case st of (buf, nbits, out) \<Rightarrow>
       (let shift = nbits - 5;
            idx = drop_bit shift buf AND 0x1F;
            buf' = (if shift = 0 then 0 else buf AND (push_bit shift 1 - 1))
        in (buf', nbits - 5, out @ [crockfordBase32 ! unat idx])))"

text \<open>The inner loop; the flag says that it returned from the function with 26 digits.\<close>

function emit_loop :: "uint32 \<Rightarrow> nat \<Rightarrow> string \<Rightarrow> bool \<times> enc_state" where
  "emit_loop buf nbits out =
     (if 5 \<le> nbits
      then case emit5 (buf, nbits, out) of (buf', nbits', out') \<Rightarrow>
        (if length out' = 26 then (True, buf', nbits', out') else emit_loop buf' nbits' out')
      else (False, buf, nbits, out))"
  by pat_completeness auto
termination
  by (relation "measure (\<lambda>(buf, nbits, out). nbits)") (auto simp: emit5_def Let_def)

declare emit_loop.simps [simp del]

fun enc_loop :: "uint8 list \<Rightarrow> enc_state \<Rightarrow> string" where
  "enc_loop [] (buf, nbits, out) = out"
| "enc_loop (b # bs) (buf, nbits, out) =
     (case emit_loop (push_bit 8 buf OR ucast b) (nbits + 8) out of
        (True, _, _, out') \<Rightarrow> out'
      | (False, st') \<Rightarrow> enc_loop bs st')"

definition ulid_data :: "64 word \<Rightarrow> uint8 list \<Rightarrow> uint8 list" where
  "ulid_data ms rnd =
     [ucast (drop_bit 40 ms), ucast (drop_bit 32 ms), ucast (drop_bit 24 ms), ucast (drop_bit 16 ms),
      ucast (drop_bit 8 ms), ucast ms] @ rnd"

definition encodeULID :: "64 word \<Rightarrow> uint8 list \<Rightarrow> string" where
  "encodeULID ms rnd = enc_loop (ulid_data ms rnd) (0, 2, [])"

subsection \<open>The generator\<close>

text \<open>\<open>increment80\<close>, from the last byte to the first: \<open>None\<close> is the overflow error.\<close>

fun inc_rev :: "uint8 list \<Rightarrow> uint8 list option" where
  "inc_rev [] = None"
| "inc_rev (b # bs) = (if b + 1 \<noteq> 0 then Some ((b + 1) # bs) else map_option (\<lambda>r. 0 # r) (inc_rev bs))"

definition increment80 :: "uint8 list \<Rightarrow> uint8 list option" where
  "increment80 v = map_option rev (inc_rev (rev v))"

record ulid_state =
  ulidLastMS :: "64 word"
  ulidLastRnd :: "uint8 list"

datatype ulid_error = ErrReadRandom | ErrRandomnessOverflow

text \<open>\<open>entropy\<close> is what \<open>rand.Read\<close> returns: ten bytes, or an error.\<close>

definition NewULID :: "64 word \<Rightarrow> uint8 list option \<Rightarrow> ulid_state \<Rightarrow> (ulid_error + string) \<times> ulid_state" where
  "NewULID ms entropy st =
     (if ulidLastMS st < ms then
        (case entropy of
           None \<Rightarrow> (Inl ErrReadRandom, st)
         | Some rnd \<Rightarrow> (Inr (encodeULID ms rnd), st\<lparr>ulidLastMS := ms, ulidLastRnd := rnd\<rparr>))
      else
        (case increment80 (ulidLastRnd st) of
           None \<Rightarrow> (Inl ErrRandomnessOverflow, st)
         | Some rnd \<Rightarrow> (Inr (encodeULID (ulidLastMS st) rnd), st\<lparr>ulidLastRnd := rnd\<rparr>)))"

definition NewZoneVersion :: "64 word \<Rightarrow> uint8 list option \<Rightarrow> ulid_state \<Rightarrow> (ulid_error + string) \<times> ulid_state" where
  "NewZoneVersion ms entropy st =
     (case NewULID ms entropy st of
        (Inl e, st') \<Rightarrow> (Inl e, st')
      | (Inr i, st') \<Rightarrow> (Inr (''v'' @ i), st'))"

definition initUlid :: ulid_state where
  "initUlid = \<lparr>ulidLastMS = 0, ulidLastRnd = replicate 10 0\<rparr>"

text \<open>A sequence of calls; the identifiers it returns, in order.\<close>

fun version_run :: "(64 word \<times> uint8 list option) list \<Rightarrow> ulid_state \<Rightarrow> string list" where
  "version_run [] st = []"
| "version_run ((ms, e) # calls) st =
     (case NewZoneVersion ms e st of
        (Inl _, st') \<Rightarrow> version_run calls st'
      | (Inr v, st') \<Rightarrow> v # version_run calls st')"

subsection \<open>Digits and their order\<close>

fun be_val :: "nat \<Rightarrow> nat list \<Rightarrow> nat" where
  "be_val b [] = 0"
| "be_val b (d # ds) = d * b ^ length ds + be_val b ds"

lemma be_val_snoc: "be_val b (ds @ [d]) = be_val b ds * b + d"
  by (induction ds) (simp_all add: algebra_simps)

lemma be_val_less: "(\<forall>d \<in> set ds. d < b) \<Longrightarrow> be_val b ds < b ^ length ds"
proof (induction ds)
  case (Cons d ds)
  then have "be_val b ds < b ^ length ds" "d + 1 \<le> b" by simp_all
  then have "d * b ^ length ds + be_val b ds < (d + 1) * b ^ length ds" by simp
  also have "\<dots> \<le> b * b ^ length ds" using \<open>d + 1 \<le> b\<close> by (rule mult_le_mono1)
  finally show ?case by simp
qed simp

lemma be_val_less_iff:
  assumes "length ds = length es" "\<forall>d \<in> set ds. d < b" "\<forall>e \<in> set es. e < b"
  shows "be_val b ds < be_val b es \<longleftrightarrow> ds < es"
  using assms
proof (induction ds es rule: list_induct2)
  case (Cons d ds e es)
  then have v: "be_val b ds < b ^ length ds" "be_val b es < b ^ length ds"
    using be_val_less [of ds b] be_val_less [of es b] by simp_all
  have lt: "x < y \<Longrightarrow> be_val b xs < b ^ length ds \<Longrightarrow>
      x * b ^ length ds + be_val b xs < y * b ^ length ds + be_val b ys" for x y xs ys
  proof -
    assume "x < y" "be_val b xs < b ^ length ds"
    then have "x * b ^ length ds + be_val b xs < (x + 1) * b ^ length ds" by simp
    also have "\<dots> \<le> y * b ^ length ds" using \<open>x < y\<close> by (intro mult_le_mono1) simp
    finally show ?thesis by simp
  qed
  show ?case
    using Cons lt [of d e ds es] lt [of e d es ds] v by (cases d e rule: linorder_cases) auto
qed simp

lemma map_less_iff:
  fixes f :: "nat \<Rightarrow> char"
  assumes mono: "\<And>i j. i < b \<Longrightarrow> j < b \<Longrightarrow> f i < f j \<longleftrightarrow> i < j"
    and "length ds = length es" "\<forall>d \<in> set ds. d < b" "\<forall>e \<in> set es. e < b"
  shows "map f ds < map f es \<longleftrightarrow> ds < es"
  using assms(2-)
proof (induction ds es rule: list_induct2)
  case (Cons d ds e es)
  have "f d = f e \<longleftrightarrow> d = e"
    using mono [of d e] mono [of e d] Cons.prems by (cases d e rule: linorder_cases) auto
  then show ?case using Cons mono [of d e] by simp
qed simp

lemma crockford_mono:
  assumes "i < 32" "j < 32"
  shows "crockfordBase32 ! i < crockfordBase32 ! j \<longleftrightarrow> i < j"
proof -
  have "sorted_wrt (<) crockfordBase32"
    by (simp add: crockfordBase32_def less_char_def)
  moreover have "length crockfordBase32 = 32" by (simp add: crockfordBase32_def)
  ultimately show ?thesis
    using assms by (metis linorder_neqE_nat order_less_asym order_less_irrefl sorted_wrt_nth_less)
qed

subsection \<open>The encoder writes the digits of the number\<close>

text \<open>The digits emitted so far and the pending bits are the number read so far.\<close>

definition enc_rel :: "nat \<Rightarrow> enc_state \<Rightarrow> bool" where
  "enc_rel V st \<longleftrightarrow> (case st of (buf, nbits, out) \<Rightarrow>
     (\<exists>ds. out = map ((!) crockfordBase32) ds \<and> (\<forall>d \<in> set ds. d < 32)
       \<and> be_val 32 ds * 2 ^ nbits + unat buf = V \<and> unat buf < 2 ^ nbits))"

lemma unat_push_or:
  assumes "unat buf < 2 ^ 24"
  shows "unat (push_bit 8 buf OR ucast (b::uint8) :: uint32) = unat buf * 256 + unat b"
proof -
  have b8: "bit (ucast b :: uint32) n \<Longrightarrow> n < 8" for n
    by (auto simp: bit_ucast_iff dest: bit_imp_le_length)
  have "push_bit 8 buf OR ucast b = push_bit 8 buf + (ucast b :: uint32)"
    by (rule disjunctive_add [symmetric]) (auto simp: bit_push_bit_iff dest: b8)
  moreover have "unat (push_bit 8 buf :: uint32) = unat buf * 256"
    using assms by (simp add: push_bit_eq_mult unat_word_ariths)
  moreover have "unat (ucast b :: uint32) = unat b"
    using unsigned_less [of b, where ?'a = nat] by (simp add: unsigned_ucast_eq take_bit_nat_eq_self)
  moreover have "unat b < 256" using unsigned_less [of b, where ?'a = nat] by simp
  ultimately show ?thesis using assms by (simp add: unat_word_ariths)
qed

lemma unat_and_mask: "n < 32 \<Longrightarrow> unat (buf AND (push_bit n 1 - 1) :: uint32) = unat buf mod 2 ^ n"
proof -
  assume "n < 32"
  have "push_bit n 1 - 1 = (mask n :: uint32)" by (simp add: mask_eq_exp_minus_1 push_bit_eq_mult)
  then have "buf AND (push_bit n 1 - 1) = take_bit n buf" by (simp only: take_bit_eq_mask)
  moreover have "unat (take_bit n buf) = take_bit n (unat buf)" by (simp only: unsigned_take_bit_eq)
  ultimately show ?thesis by (simp only: take_bit_eq_mod)
qed

lemma unat_drop_and:
  assumes "unat buf < 2 ^ (n + 5)"
  shows "unat (drop_bit n buf AND 0x1F :: uint32) = unat buf div 2 ^ n"
proof -
  have "(0x1F :: uint32) = push_bit 5 1 - 1" by simp
  then have "unat (drop_bit n buf AND 0x1F :: uint32) = unat (drop_bit n buf) mod 2 ^ 5"
    using unat_and_mask [of 5 "drop_bit n buf"] by simp
  moreover have "unat (drop_bit n buf) = unat buf div 2 ^ n"
    by (simp only: unsigned_drop_bit_eq)
      (simp add: drop_bit_eq_div take_bit_nat_eq_self unsigned_less [where ?'a = nat and ?'b = 32, simplified])
  moreover have "unat buf div 2 ^ n < 2 ^ 5"
    using assms by (simp add: less_mult_imp_div_less power_add mult.commute)
  ultimately show ?thesis by simp
qed

lemma emit5_rel:
  assumes "enc_rel V (buf, nbits, out)" "5 \<le> nbits" "nbits \<le> 12"
  shows "enc_rel V (emit5 (buf, nbits, out))"
proof -
  let ?n = "nbits - 5"
  obtain ds where ds: "out = map ((!) crockfordBase32) ds" "\<forall>d \<in> set ds. d < 32"
    "be_val 32 ds * 2 ^ nbits + unat buf = V" "unat buf < 2 ^ nbits"
    using assms(1) by (auto simp: enc_rel_def)
  have nb: "nbits = ?n + 5" using assms(2) by simp
  have lt: "unat buf < 2 ^ (?n + 5)" using ds(4) nb by simp
  let ?q = "unat buf div 2 ^ ?n" and ?r = "unat buf mod 2 ^ ?n"
  have idx: "unat (drop_bit ?n buf AND 0x1F) = ?q" by (rule unat_drop_and [OF lt])
  have rest: "unat (if ?n = 0 then 0 else buf AND (push_bit ?n 1 - 1)) = ?r"
    using unat_and_mask [of ?n buf] assms(3) by simp
  have "?q < 32" using lt by (simp add: less_mult_imp_div_less power_add mult.commute)
  moreover have "be_val 32 (ds @ [?q]) * 2 ^ ?n + ?r = V"
  proof -
    have "be_val 32 (ds @ [?q]) * 2 ^ ?n + ?r = be_val 32 ds * (32 * 2 ^ ?n) + (?q * 2 ^ ?n + ?r)"
      by (simp add: be_val_snoc algebra_simps)
    also have "32 * 2 ^ ?n = (2::nat) ^ nbits" using power_add [of "2::nat" ?n 5] nb by simp
    also have "?q * 2 ^ ?n + ?r = unat buf" by (rule div_mult_mod_eq)
    finally show ?thesis using ds(3) by simp
  qed
  ultimately show ?thesis
    unfolding enc_rel_def emit5_def using ds(1,2) idx rest
    by (auto simp: Let_def intro!: exI [of _ "ds @ [?q]"])
qed

lemma emit5_shape: "emit5 (buf, nbits, out) = (buf', nbits', out') \<Longrightarrow>
    nbits' = nbits - 5 \<and> length out' = Suc (length out)"
  by (auto simp: emit5_def Let_def)

lemma emit_loop_rel:
  assumes "emit_loop buf nbits out = (fl, buf', nbits', out')"
    and "enc_rel V (buf, nbits, out)" "nbits \<le> 12"
  shows "enc_rel V (buf', nbits', out') \<and> 5 * length out' + nbits' = 5 * length out + nbits
    \<and> (if fl then length out' = 26 else nbits' < 5)"
  using assms
proof (induction buf nbits out rule: emit_loop.induct)
  case (1 buf nbits out)
  show ?case
  proof (cases "5 \<le> nbits")
    case False
    with 1 show ?thesis by (auto simp: emit_loop.simps [of buf])
  next
    case True
    obtain b1 n1 o1 where e: "emit5 (buf, nbits, out) = (b1, n1, o1)" by (cases "emit5 (buf, nbits, out)")
    have rel: "enc_rel V (b1, n1, o1)" using emit5_rel [OF 1(3) True 1(4)] e by simp
    have sh: "n1 = nbits - 5" "length o1 = Suc (length out)" using emit5_shape [OF e] by auto
    show ?thesis
    proof (cases "length o1 = 26")
      case True
      with 1(2) \<open>5 \<le> nbits\<close> e rel sh show ?thesis by (auto simp: emit_loop.simps [of buf])
    next
      case False
      then have "emit_loop b1 n1 o1 = (fl, buf', nbits', out')"
        using 1(2) \<open>5 \<le> nbits\<close> e by (simp add: emit_loop.simps [of buf])
      then show ?thesis using 1(1) [OF True e [symmetric]] False rel sh 1(4) True by auto
    qed
  qed
qed

lemma enc_loop_digits:
  assumes "enc_rel V (buf, nbits, out)" "nbits < 5" "5 * length out + nbits = 2 + 8 * k"
    and "k + length bs = 16"
  shows "\<exists>ds. enc_loop bs (buf, nbits, out) = map ((!) crockfordBase32) ds \<and> length ds = 26
    \<and> (\<forall>d \<in> set ds. d < 32) \<and> be_val 32 ds = V * 256 ^ length bs + be_val 256 (map unat bs)"
  using assms
proof (induction bs arbitrary: V buf nbits out k)
  case Nil
  then have n: "5 * length out + nbits = 130" "nbits < 5" by simp_all
  then have "nbits = 0" by presburger
  moreover from this n have "length out = 26" by simp
  ultimately show ?case using Nil(1) by (auto simp: enc_rel_def)
next
  case (Cons b bs)
  let ?buf = "push_bit 8 buf OR ucast b :: uint32" and ?V = "V * 256 + unat b"
  from Cons.prems(1) obtain ds where ds: "out = map ((!) crockfordBase32) ds" "\<forall>d \<in> set ds. d < 32"
    "be_val 32 ds * 2 ^ nbits + unat buf = V" "unat buf < 2 ^ nbits" by (auto simp: enc_rel_def)
  have small: "unat buf < 2 ^ 24"
    using ds(4) Cons.prems(2) power_increasing [of nbits 24 "2::nat"] by simp
  have b: "unat b < 256" using unsigned_less [of b, where ?'a = nat] by simp
  have "unat ?buf < 2 ^ (nbits + 8)"
    using ds(4) b by (simp add: unat_push_or [OF small] power_add)
  then have rel: "enc_rel ?V (?buf, nbits + 8, out)"
    unfolding enc_rel_def using ds
    by (auto simp: unat_push_or [OF small] power_add algebra_simps intro!: exI [of _ ds])
  obtain fl b1 n1 o1 where e: "emit_loop ?buf (nbits + 8) out = (fl, b1, n1, o1)"
    by (cases "emit_loop ?buf (nbits + 8) out")
  from emit_loop_rel [OF e rel] Cons.prems(2)
  have r: "enc_rel ?V (b1, n1, o1)" "5 * length o1 + n1 = 5 * length out + (nbits + 8)"
    "if fl then length o1 = 26 else n1 < 5" by auto
  show ?case
  proof (cases fl)
    case True
    with r have len: "length o1 = 26" by simp
    have "k + length bs = 15" using Cons.prems(4) by simp
    then have "length bs = 0" using r(2) len Cons.prems(3) by linarith
    moreover from this have "n1 = 0" using r(2) len Cons.prems(3,4) by simp
    ultimately have "n1 = 0" "bs = []" "length o1 = 26" using len by simp_all
    with r(1) True e show ?thesis by (auto simp: enc_rel_def)
  next
    case False
    then have "\<exists>ds. enc_loop bs (b1, n1, o1) = map ((!) crockfordBase32) ds \<and> length ds = 26
      \<and> (\<forall>d \<in> set ds. d < 32) \<and> be_val 32 ds = ?V * 256 ^ length bs + be_val 256 (map unat bs)"
      using r Cons.prems(3,4) by (intro Cons.IH [of _ _ _ _ "Suc k"]) auto
    then show ?thesis using False e by (simp add: algebra_simps)
  qed
qed

text \<open>The number a ULID encodes: 48 bits of time and 80 random bits.\<close>

definition ulid_value :: "64 word \<Rightarrow> uint8 list \<Rightarrow> nat" where
  "ulid_value ms rnd = be_val 256 (map unat (ulid_data ms rnd))"

lemma encodeULID_digits:
  assumes "length rnd = 10"
  shows "\<exists>ds. encodeULID ms rnd = map ((!) crockfordBase32) ds \<and> length ds = 26
    \<and> (\<forall>d \<in> set ds. d < 32) \<and> be_val 32 ds = ulid_value ms rnd"
  using enc_loop_digits [of 0 0 2 "[]" 0 "ulid_data ms rnd"] assms
  by (auto simp: encodeULID_def ulid_value_def enc_rel_def ulid_data_def)

lemma encodeULID_less_iff:
  assumes "length rnd = 10" "length rnd' = 10"
  shows "encodeULID ms rnd < encodeULID ms' rnd' \<longleftrightarrow> ulid_value ms rnd < ulid_value ms' rnd'"
proof -
  obtain ds where ds: "encodeULID ms rnd = map ((!) crockfordBase32) ds" "length ds = 26"
    "\<forall>d \<in> set ds. d < 32" "be_val 32 ds = ulid_value ms rnd"
    using encodeULID_digits [OF assms(1)] by blast
  obtain es where es: "encodeULID ms' rnd' = map ((!) crockfordBase32) es" "length es = 26"
    "\<forall>d \<in> set es. d < 32" "be_val 32 es = ulid_value ms' rnd'"
    using encodeULID_digits [OF assms(2)] by blast
  show ?thesis
    using map_less_iff [of 32 "(!) crockfordBase32" ds es] be_val_less_iff [of ds es 32]
      crockford_mono ds es by simp
qed

subsection \<open>Successive identifiers increase\<close>

lemma inc_rev_Some:
  "inc_rev v = Some w \<Longrightarrow> length w = length v \<and> be_val 256 (map unat (rev w)) = Suc (be_val 256 (map unat (rev v)))"
proof (induction v arbitrary: w)
  case (Cons b bs)
  show ?case
  proof (cases "b + 1 = 0")
    case False
    then have "unat (b + 1) = Suc (unat b)" by (simp add: unatSuc add.commute)
    with False Cons.prems show ?thesis by (auto simp: be_val_snoc)
  next
    case True
    with Cons.prems obtain r where r: "inc_rev bs = Some r" "w = 0 # r" by auto
    have "b = - 1" using True by (simp add: eq_neg_iff_add_eq_0)
    then have "unat b = 255" by (simp add: unsigned_minus_1_eq_mask mask_eq_exp_minus_1)
    with Cons.IH [OF r(1)] r(2) show ?thesis by (simp add: be_val_snoc)
  qed
qed simp

lemma increment80_Some:
  assumes "increment80 v = Some w"
  shows "length w = length v" "be_val 256 (map unat w) = Suc (be_val 256 (map unat v))"
proof -
  from assms obtain u where "inc_rev (rev v) = Some u" "w = rev u" by (auto simp: increment80_def)
  with inc_rev_Some [of "rev v" u]
  show "length w = length v" "be_val 256 (map unat w) = Suc (be_val 256 (map unat v))"
    by (auto simp: rev_map)
qed

text \<open>The time field holds 48 bits, which last beyond the year 10000.\<close>

definition ms_ok :: "64 word \<Rightarrow> bool" where
  "ms_ok ms \<longleftrightarrow> ms < 2 ^ 48"

lemma be_val_append: "be_val b (xs @ ys) = be_val b xs * b ^ length ys + be_val b ys"
  by (induction xs) (simp_all add: algebra_simps power_add)

lemma unat_byte_at: "unat (ucast (drop_bit n ms :: 64 word) :: uint8) = unat ms div 2 ^ n mod 256"
proof -
  have "unat (drop_bit n ms) = unat ms div 2 ^ n"
    by (simp only: unsigned_drop_bit_eq)
      (simp add: drop_bit_eq_div take_bit_nat_eq_self unsigned_less [where ?'a = nat and ?'b = 64, simplified])
  then show ?thesis by (simp only: unsigned_ucast_eq) (simp add: take_bit_eq_mod)
qed

lemma be_digits: "be_val b (map (\<lambda>i. n div b ^ i mod b) (rev [0..<k])) = n mod b ^ k"
proof (induction k)
  case (Suc k)
  have "n mod b ^ Suc k = b ^ k * (n div b ^ k mod b) + n mod b ^ k"
    by (simp only: power_Suc2 mod_mult2_eq)
  then show ?case using Suc by (simp add: mult.commute)
qed simp

lemma ulid_value_eq:
  assumes "ms_ok ms" "length rnd = 10"
  shows "ulid_value ms rnd = unat ms * 256 ^ 10 + be_val 256 (map unat rnd)"
proof -
  have "map unat (ulid_data ms rnd) =
      map (\<lambda>i. unat ms div 256 ^ i mod 256) (rev [0..<6]) @ map unat rnd"
  proof -
    have six: "rev [0..<6] = [5, 4, 3, 2, 1, 0 :: nat]" by (simp add: upt_rec)
    show ?thesis unfolding six using unat_byte_at [of 0 ms] by (simp add: ulid_data_def unat_byte_at)
  qed
  then have "ulid_value ms rnd = (unat ms mod 256 ^ 6) * 256 ^ 10 + be_val 256 (map unat rnd)"
    using assms(2) by (simp only: ulid_value_def be_val_append be_digits length_map)
  moreover have "unat ms < 256 ^ 6" using assms(1) by (simp add: ms_ok_def word_less_nat_alt)
  ultimately show ?thesis by simp
qed

text \<open>The state the generator keeps is ten bytes and a 48-bit time; every call keeps it so.\<close>

definition ulid_inv :: "ulid_state \<Rightarrow> bool" where
  "ulid_inv st \<longleftrightarrow> length (ulidLastRnd st) = 10 \<and> ms_ok (ulidLastMS st)"

definition call_ok :: "64 word \<times> uint8 list option \<Rightarrow> bool" where
  "call_ok c \<longleftrightarrow> ms_ok (fst c) \<and> (\<forall>rnd. snd c = Some rnd \<longrightarrow> length rnd = 10)"

abbreviation state_value :: "ulid_state \<Rightarrow> nat" where
  "state_value st \<equiv> ulid_value (ulidLastMS st) (ulidLastRnd st)"

lemma ulid_inv_init: "ulid_inv initUlid"
  by (simp add: ulid_inv_def initUlid_def ms_ok_def)

lemma NewULID_inv:
  "ulid_inv st \<Longrightarrow> call_ok (ms, e) \<Longrightarrow> NewULID ms e st = (r, st') \<Longrightarrow> ulid_inv st'"
  by (auto simp: NewULID_def ulid_inv_def call_ok_def dest: increment80_Some(1)
      split: if_splits option.splits)

lemma NewULID_error_unchanged: "NewULID ms e st = (Inl err, st') \<Longrightarrow> st' = st"
  by (auto simp: NewULID_def split: if_splits option.splits)

lemma NewULID_result:
  assumes "ulid_inv st" "call_ok (ms, e)" "NewULID ms e st = (Inr i, st')"
  shows "i = encodeULID (ulidLastMS st') (ulidLastRnd st')" "state_value st < state_value st'"
proof -
  have inv': "ulid_inv st'" using assms by (rule NewULID_inv)
  show "i = encodeULID (ulidLastMS st') (ulidLastRnd st')"
    using assms(3) by (auto simp: NewULID_def split: if_splits option.splits)
  have val: "state_value s = unat (ulidLastMS s) * 256 ^ 10 + be_val 256 (map unat (ulidLastRnd s))"
    if "ulid_inv s" for s
    using that by (simp add: ulid_inv_def ulid_value_eq)
  have bound: "be_val 256 (map unat r) < 256 ^ length r" for r :: "uint8 list"
    using be_val_less [of "map unat r" 256] unsigned_less [where ?'a = nat and ?'b = 8] by auto
  show "state_value st < state_value st'"
  proof (cases "ulidLastMS st < ms")
    case True
    with assms(3) have "ulidLastMS st' = ms" by (auto simp: NewULID_def split: option.splits)
    with True have "Suc (unat (ulidLastMS st)) \<le> unat (ulidLastMS st')" by (simp add: word_less_nat_alt)
    then have "Suc (unat (ulidLastMS st)) * 256 ^ 10 \<le> unat (ulidLastMS st') * 256 ^ 10"
      by (rule mult_le_mono1)
    moreover have "be_val 256 (map unat (ulidLastRnd st)) < 256 ^ 10"
      using bound [of "ulidLastRnd st"] assms(1) by (simp add: ulid_inv_def)
    ultimately show ?thesis by (simp add: val [OF assms(1)] val [OF inv'])
  next
    case False
    with assms(3) obtain rnd where rnd: "increment80 (ulidLastRnd st) = Some rnd"
      "st' = st\<lparr>ulidLastRnd := rnd\<rparr>" by (auto simp: NewULID_def split: option.splits)
    have "ulidLastMS st' = ulidLastMS st" "ulidLastRnd st' = rnd" using rnd(2) by simp_all
    with val [OF inv'] val [OF assms(1)] increment80_Some(2) [OF rnd(1)] show ?thesis by simp
  qed
qed

lemma NewZoneVersion_result:
  assumes "ulid_inv st" "call_ok (ms, e)" "NewZoneVersion ms e st = (r, st')"
  shows "ulid_inv st'" "state_value st \<le> state_value st'"
    and "r = Inr v \<Longrightarrow> state_value st < state_value st'
      \<and> v = ''v'' @ encodeULID (ulidLastMS st') (ulidLastRnd st')"
proof -
  obtain q s1 where q: "NewULID ms e st = (q, s1)" by (cases "NewULID ms e st")
  with assms(3) have s1: "s1 = st'" by (auto simp: NewZoneVersion_def split: sum.splits)
  show "ulid_inv st'" using NewULID_inv [OF assms(1,2) q] s1 by simp
  show "state_value st \<le> state_value st'"
    using NewULID_error_unchanged NewULID_result(2) [OF assms(1,2)] q s1 by (cases q) fastforce+
  show "r = Inr v \<Longrightarrow> state_value st < state_value st'
      \<and> v = ''v'' @ encodeULID (ulidLastMS st') (ulidLastRnd st')"
    using assms(3) q s1 NewULID_result [OF assms(1,2)]
    by (cases q) (auto simp: NewZoneVersion_def)
qed

lemma version_run_sorted:
  assumes "ulid_inv st" "\<forall>c \<in> set calls. call_ok c"
  shows "sorted_wrt (<) (version_run calls st) \<and>
    (\<forall>v \<in> set (version_run calls st). ''v'' @ encodeULID (ulidLastMS st) (ulidLastRnd st) < v)"
  using assms
proof (induction calls arbitrary: st)
  case (Cons c calls)
  obtain ms e where c: "c = (ms, e)" by (cases c)
  obtain r st' where r: "NewZoneVersion ms e st = (r, st')" by (cases "NewZoneVersion ms e st")
  have ok: "call_ok (ms, e)" using Cons.prems c by simp
  note step = NewZoneVersion_result [OF Cons.prems(1) ok r]
  have IH: "sorted_wrt (<) (version_run calls st')"
    "\<forall>v \<in> set (version_run calls st'). ''v'' @ encodeULID (ulidLastMS st') (ulidLastRnd st') < v"
    using Cons.IH [OF step(1)] Cons.prems by auto
  define a where "a = ''v'' @ encodeULID (ulidLastMS st) (ulidLastRnd st)"
  define a' where "a' = ''v'' @ encodeULID (ulidLastMS st') (ulidLastRnd st')"
  have less: "state_value st < state_value st' \<Longrightarrow> a < a'" and le: "a \<le> a'"
    using step(1,2) Cons.prems(1) encodeULID_less_iff [of "ulidLastRnd st" "ulidLastRnd st'"]
      encodeULID_less_iff [of "ulidLastRnd st'" "ulidLastRnd st"]
    by (auto simp: ulid_inv_def a_def a'_def linorder_not_less [symmetric])
  have above: "\<forall>v \<in> set (version_run calls st'). a < v"
    using IH(2) le unfolding a'_def [symmetric] by (blast intro: le_less_trans)
  show ?case
  proof (cases r)
    case (Inl err)
    then show ?thesis using IH(1) above r c by (simp add: a_def)
  next
    case (Inr v)
    then have "v = a'" "a < a'" using step(3) [of v] less by (auto simp: a'_def)
    then show ?thesis using IH above r c Inr by (simp add: a_def a'_def)
  qed
qed simp

subsection \<open>Properties\<close>

text \<open>
  C29: Every successful call of \<open>NewZoneVersion\<close> returns a version that is greater, as a string,
  than all versions returned before, through repeated and backward-moving clocks and failing calls.
\<close>

theorem versions_increase:
  assumes "list_all call_ok calls"
  shows "sorted_wrt (<) (version_run calls initUlid)"
  using version_run_sorted [OF ulid_inv_init, of calls] assms by (simp add: list_all_iff)

theorem versions_increase_witness:
  "sorted_wrt (<) (version_run [(5, Some (replicate 10 255)), (4, None), (4, Some (replicate 10 1)), (9, None)] initUlid)"
  by (rule versions_increase) (simp add: call_ok_def ms_ok_def)

text \<open>
  The textual order of ULIDs is the order of the 128-bit numbers they encode: 26 digits in base
  32, most significant first, on 48 bits of time and 80 random bits.
\<close>

theorem ulid_order:
  assumes "length rnd = 10" "length rnd' = 10"
  shows "(encodeULID ms rnd < encodeULID ms' rnd' \<longleftrightarrow> ulid_value ms rnd < ulid_value ms' rnd')
    \<and> length (encodeULID ms rnd) = 26"
  using encodeULID_less_iff [OF assms] encodeULID_digits [OF assms(1), of ms] by auto

theorem ulid_order_witness: "length (encodeULID 1 (replicate 10 7)) = 26"
  using ulid_order [of "replicate 10 7" "replicate 10 7" 1 1] by simp

end
