(* ===== verification/Zone_Hash.thy ===== *)
theory Zone_Hash
  imports Zone_Validation "HOL-Library.List_Lexorder" "HOL-Library.Char_ord"
    "HOL-Library.Product_Lexorder" "HOL-Library.Multiset"
begin

section \<open>Content hashes of zones (pkg/backend/version.go)\<close>

text \<open>
  \<open>NormalizeZoneForHashing\<close> builds a canonical form of a zone, which is then serialised and hashed.
  The canonical form is modelled; the serialisation (\<open>encoding/json\<close>) and the digest
  (\<open>crypto/sha256\<close>) are parameters of the hash functions. The lemmas show what the hash does not
  depend on: the order of the records, the spelling of names, and the metadata.
\<close>

subsection \<open>The canonical form\<close>

text \<open>A normalised record is the tuple the source sorts by: name, type, ttl, value.\<close>

type_synonym normalizedRecord = "string \<times> string \<times> uint32 \<times> string"

record normalizedZone =
  n_Name :: string
  n_SOA :: SOARecord
  n_Records :: "normalizedRecord list"
  n_DNSSEC :: "DNSSECConfig option"

definition expandOwnerName :: "string \<Rightarrow> string \<Rightarrow> string" where
  "expandOwnerName name zoneOrigin = NormalizeRecordOwnerName name zoneOrigin"

definition normalizeRecordValue :: "string \<Rightarrow> string \<Rightarrow> string \<Rightarrow> string" where
  "normalizeRecordValue recordType value zoneName =
     (if recordType \<in> {RecordTypeNS, RecordTypeCNAME, RecordTypePTR}
      then NormalizeDomainTargetName value zoneName
      else if recordType = RecordTypeMX then
        (case Fields value of
           [p, t] \<Rightarrow> p @ '' '' @ NormalizeDomainTargetName t zoneName
         | _ \<Rightarrow> value)
      else if recordType = RecordTypeSRV then
        (case Fields value of
           [p, w, q, t] \<Rightarrow> p @ '' '' @ w @ '' '' @ q @ '' '' @ NormalizeDomainTargetName t zoneName
         | _ \<Rightarrow> value)
      else value)"

definition normalize_record :: "string \<Rightarrow> Record \<Rightarrow> normalizedRecord" where
  "normalize_record zoneName rec =
     (expandOwnerName (r_Name rec) zoneName, r_Type rec, r_TTL rec,
      normalizeRecordValue (r_Type rec) (r_Value rec) zoneName)"

text \<open>
  The comparison of \<open>sort.Slice\<close> is the lexicographic order of the tuples, which is total, so the
  sorted list is unique.
\<close>

definition NormalizeZoneForHashing :: "Zone \<Rightarrow> normalizedZone" where
  "NormalizeZoneForHashing zone =
     (let zoneName = NormalizeZoneName (z_Name zone); soa = z_SOA zone in
      \<lparr>n_Name = zoneName,
       n_SOA = soa\<lparr>soa_MName := NormalizeDomainTargetName (soa_MName soa) zoneName,
                   soa_RName := NormalizeDomainTargetName (soa_RName soa) zoneName\<rparr>,
       n_Records = sort (map (normalize_record zoneName) (z_Records zone)),
       n_DNSSEC = map_option (\<lambda>d. d\<lparr>d_SignatureExpiration := None\<rparr>) (z_DNSSEC zone)\<rparr>)"

definition ComputeZoneHash :: "(normalizedZone \<Rightarrow> string) \<Rightarrow> (string \<Rightarrow> string) \<Rightarrow> Zone \<Rightarrow> string" where
  "ComputeZoneHash marshal sha256hex zone = sha256hex (marshal (NormalizeZoneForHashing zone))"

definition ComputeZoneHash8 ::
  "(normalizedZone \<Rightarrow> string) \<Rightarrow> (string \<Rightarrow> string) \<Rightarrow> Zone \<Rightarrow> string option" where
  "ComputeZoneHash8 marshal sha256hex zone =
     (let hashHex = ComputeZoneHash marshal sha256hex zone
      in if length hashHex < 8 then None else Some (take 8 hashHex))"

definition ComputeZoneVersion ::
  "(normalizedZone \<Rightarrow> string) \<Rightarrow> (string \<Rightarrow> string) \<Rightarrow> Zone \<Rightarrow> string option" where
  "ComputeZoneVersion marshal sha256hex zone =
     map_option (\<lambda>h. ''v'' @ dec_string (unat (soa_Serial (z_SOA zone))) @ ''-'' @ h)
       (ComputeZoneHash8 marshal sha256hex zone)"

subsection \<open>What the form does not depend on\<close>

lemma NormalizeDomainName_idem: "NormalizeDomainName (NormalizeDomainName n) = NormalizeDomainName n"
proof (cases "HasPrefix n ''*.''")
  case True
  then obtain t where "n = ''*.'' @ t" by (auto simp: HasPrefix_iff)
  then show ?thesis by (auto simp: NormalizeDomainName_def HasPrefix_def NormalizeZoneName_idem)
next
  case False
  show ?thesis
  proof (cases "n = [] \<or> n = ''@''")
    case True
    then show ?thesis by (auto simp: NormalizeDomainName_def)
  next
    case f: False
    have star: "\<not> is_upper CHR ''*''" "\<not> is_lower CHR ''*''"
      by (simp_all add: is_upper_def is_lower_def byte_def)
    have "HasPrefix (NormalizeZoneName n) ''*.'' \<Longrightarrow> n = ''*''"
      using False by (cases n; cases "tl n")
        (auto simp: HasPrefix_def NormalizeZoneName_def Let_def lower_char_fixed [OF star] split: if_splits)
    moreover have "NormalizeZoneName n \<noteq> ''@''"
      using NormalizeZoneName_absolute [of n] f by (auto simp: absolute_def HasSuffix_def)
    moreover have "NormalizeZoneName n \<noteq> []" using f by simp
    moreover have "NormalizeZoneName ''*'' = ''*.''"
      by (simp add: NormalizeZoneName_def HasSuffix_def lower_char_def is_upper_def byte_def)
    ultimately show ?thesis using f False
      by (cases "n = ''*''") (auto simp: NormalizeDomainName_def NormalizeZoneName_idem HasPrefix_def)
  qed
qed

lemma NormalizeZoneForHashing_perm:
  assumes "mset (z_Records z') = mset (z_Records z)"
  shows "NormalizeZoneForHashing (z\<lparr>z_Records := z_Records z'\<rparr>) = NormalizeZoneForHashing z"
proof -
  have "sort (map f (z_Records z')) = sort (map f (z_Records z))" for f :: "Record \<Rightarrow> normalizedRecord"
    using assms by (intro properties_for_sort) (auto simp: mset_map)
  then show ?thesis by (simp add: NormalizeZoneForHashing_def Let_def)
qed

lemma NormalizeZoneForHashing_metadata:
  "NormalizeZoneForHashing (z\<lparr>z_Version := v, z_CreatedAt := c, z_UpdatedAt := u\<rparr>) = NormalizeZoneForHashing z"
  by (simp add: NormalizeZoneForHashing_def Let_def)

lemma NormalizeZoneForHashing_name:
  "NormalizeZoneName n = NormalizeZoneName (z_Name z) \<Longrightarrow>
     NormalizeZoneForHashing (z\<lparr>z_Name := n\<rparr>) = NormalizeZoneForHashing z"
  by (simp add: NormalizeZoneForHashing_def Let_def)

lemma normalize_record_backend_fields:
  "normalize_record zn (r\<lparr>r_ID := i, r_Priority := p\<rparr>) = normalize_record zn r"
  by (simp add: normalize_record_def)

text \<open>Expanding an owner name that is already expanded changes nothing.\<close>

lemma expandOwnerName_idem:
  "n \<noteq> [] \<Longrightarrow> z \<noteq> [] \<Longrightarrow> expandOwnerName (expandOwnerName n z) z = expandOwnerName n z"
  by (simp add: expandOwnerName_def NormalizeRecordOwnerName_of_absolute NormalizeRecordOwnerName_absolute)

subsection \<open>Properties\<close>

text \<open>
  The hash of a zone does not depend on the order of its records, on the spelling of the zone's
  name, or on its version and time stamps.
\<close>

theorem hash_invariant:
  assumes "mset (z_Records z') = mset (z_Records z)" "NormalizeZoneName n = NormalizeZoneName (z_Name z)"
  shows "ComputeZoneHash marshal sha256hex
      (z\<lparr>z_Name := n, z_Records := z_Records z', z_Version := v, z_CreatedAt := c, z_UpdatedAt := u\<rparr>) =
    ComputeZoneHash marshal sha256hex z"
  using NormalizeZoneForHashing_perm [of z' "z\<lparr>z_Name := n\<rparr>"] assms
    NormalizeZoneForHashing_name [of n z]
    NormalizeZoneForHashing_metadata [where z = "z\<lparr>z_Name := n, z_Records := z_Records z'\<rparr>" and v = v and c = c and u = u]
  by (simp add: ComputeZoneHash_def)

theorem hash_invariant_witness:
  "ComputeZoneHash (\<lambda>n. n_Name n) id
     \<lparr>z_Name = ''EX.'', z_Version = ''v2'', z_SOA = DefaultSOA ''a.'' ''b.'', z_Records = [], z_DNSSEC = None,
      z_CreatedAt = 1, z_UpdatedAt = 2\<rparr> =
   ComputeZoneHash (\<lambda>n. n_Name n) id
     \<lparr>z_Name = ''ex.'', z_Version = ''v1'', z_SOA = DefaultSOA ''a.'' ''b.'', z_Records = [], z_DNSSEC = None,
      z_CreatedAt = 0, z_UpdatedAt = 0\<rparr>"
proof -
  have "NormalizeZoneName ''EX.'' = NormalizeZoneName ''ex.''" by code_simp
  then show ?thesis
    using hash_invariant [where n = "''EX.''" and v = "''v2''" and c = 1 and u = 2 and marshal = "\<lambda>n. n_Name n"
      and sha256hex = id and z = "\<lparr>z_Name = ''ex.'', z_Version = ''v1'', z_SOA = DefaultSOA ''a.'' ''b.'',
        z_Records = [], z_DNSSEC = None, z_CreatedAt = 0, z_UpdatedAt = 0\<rparr>"
      and z' = "\<lparr>z_Name = ''ex.'', z_Version = ''v1'', z_SOA = DefaultSOA ''a.'' ''b.'',
        z_Records = [], z_DNSSEC = None, z_CreatedAt = 0, z_UpdatedAt = 0\<rparr>"]
    by simp
qed

end
