(* ===== verification/Bird_Machine.thy ===== *)
theory Bird_Machine
  imports Prelude
begin

section \<open>The health state machine (internal/agent/bird/statemachine.go)\<close>

text \<open>
  The machine that turns health signals into route actions, with its debounce. The zero
  \<open>time.Time\<close> is \<open>None\<close>; a call reads the clock once, as its argument \<open>now\<close>. Counters are Go
  \<open>int\<close>s, which a run does not overflow, and are integers here. The lemmas give the exact number of
  failures and successes that change the state, and show that no action is requested before the
  minimum duration since the last route change has passed.
\<close>

subsection \<open>Data\<close>

datatype HealthState = StateHealthy | StateDegraded | StateUnhealthy | StateRecovering

record HealthSignal =
  hs_HardFail :: bool
  hs_LatencyDegraded :: bool
  hs_Reason :: string
  hs_ObservedAt :: go_time

record StateMachineConfig =
  FailureThreshold :: int
  RecoveryThreshold :: int
  MinStateDuration :: int

record StateMachine =
  sm_config :: StateMachineConfig
  sm_state :: HealthState
  sm_consecutiveFails :: int
  sm_consecutiveOKs :: int
  sm_lastTransition :: go_time
  sm_lastRouteChange :: "go_time option"

datatype sm_config_error =
    ErrFailureThreshold int
  | ErrRecoveryThreshold int
  | ErrMinStateDuration int

subsection \<open>Operations\<close>

definition ValidateStateMachineConfig :: "StateMachineConfig \<Rightarrow> sm_config_error option" where
  "ValidateStateMachineConfig c =
     fail_if (FailureThreshold c < 1) (ErrFailureThreshold (FailureThreshold c))
     (fail_if (RecoveryThreshold c < 1) (ErrRecoveryThreshold (RecoveryThreshold c))
      (fail_if (MinStateDuration c < 0) (ErrMinStateDuration (MinStateDuration c)) None))"

text \<open>An invalid configuration panics: \<open>None\<close>.\<close>

definition NewStateMachine :: "go_time \<Rightarrow> StateMachineConfig \<Rightarrow> StateMachine option" where
  "NewStateMachine now config =
     (case ValidateStateMachineConfig config of
        Some _ \<Rightarrow> None
      | None \<Rightarrow> Some \<lparr>sm_config = config, sm_state = StateHealthy, sm_consecutiveFails = 0,
                      sm_consecutiveOKs = 0, sm_lastTransition = now, sm_lastRouteChange = None\<rparr>)"

definition handleHardFailure :: "StateMachine \<Rightarrow> StateMachine" where
  "handleHardFailure sm =
     (case sm_state sm of
        StateHealthy \<Rightarrow> if FailureThreshold (sm_config sm) \<le> sm_consecutiveFails sm
                        then sm\<lparr>sm_state := StateUnhealthy\<rparr> else sm
      | StateDegraded \<Rightarrow> if FailureThreshold (sm_config sm) \<le> sm_consecutiveFails sm
                         then sm\<lparr>sm_state := StateUnhealthy\<rparr> else sm
      | StateRecovering \<Rightarrow> sm\<lparr>sm_state := StateUnhealthy\<rparr>
      | StateUnhealthy \<Rightarrow> sm)"

definition handleLatencyDegradation :: "StateMachine \<Rightarrow> StateMachine" where
  "handleLatencyDegradation sm =
     (case sm_state sm of
        StateHealthy \<Rightarrow> sm\<lparr>sm_state := StateDegraded\<rparr>
      | StateDegraded \<Rightarrow> sm
      | StateRecovering \<Rightarrow> sm
      | StateUnhealthy \<Rightarrow> sm)"

definition handleSuccess :: "StateMachine \<Rightarrow> StateMachine" where
  "handleSuccess sm =
     (case sm_state sm of
        StateDegraded \<Rightarrow> sm\<lparr>sm_state := StateHealthy\<rparr>
      | StateUnhealthy \<Rightarrow> if 1 \<le> sm_consecutiveOKs sm then sm\<lparr>sm_state := StateRecovering\<rparr> else sm
      | StateRecovering \<Rightarrow> if RecoveryThreshold (sm_config sm) \<le> sm_consecutiveOKs sm
                           then sm\<lparr>sm_state := StateHealthy\<rparr> else sm
      | StateHealthy \<Rightarrow> sm)"

definition determineRouteAction :: "go_time \<Rightarrow> StateMachine \<Rightarrow> bool \<times> bool" where
  "determineRouteAction now sm =
     (if (case sm_lastRouteChange sm of None \<Rightarrow> False
          | Some t \<Rightarrow> now - t < MinStateDuration (sm_config sm))
      then (False, False)
      else case sm_state sm of
          StateHealthy \<Rightarrow> (True, False)
        | StateDegraded \<Rightarrow> (True, False)
        | StateUnhealthy \<Rightarrow> (False, True)
        | StateRecovering \<Rightarrow> (False, True))"

text \<open>The counters and the state, before the transition is time-stamped.\<close>

definition apply_signal :: "HealthSignal \<Rightarrow> StateMachine \<Rightarrow> StateMachine" where
  "apply_signal signal sm =
     (if hs_HardFail signal then
        handleHardFailure (sm\<lparr>sm_consecutiveFails := sm_consecutiveFails sm + 1, sm_consecutiveOKs := 0\<rparr>)
      else if hs_LatencyDegraded signal then
        handleLatencyDegradation (sm\<lparr>sm_consecutiveFails := 0, sm_consecutiveOKs := 0\<rparr>)
      else
        handleSuccess (sm\<lparr>sm_consecutiveFails := 0, sm_consecutiveOKs := sm_consecutiveOKs sm + 1\<rparr>))"

definition ProcessSignal :: "go_time \<Rightarrow> HealthSignal \<Rightarrow> StateMachine \<Rightarrow> (bool \<times> bool) \<times> StateMachine" where
  "ProcessSignal now signal sm =
     (let oldState = sm_state sm;
          sm1 = apply_signal signal sm;
          sm2 = (if oldState \<noteq> sm_state sm1 then sm1\<lparr>sm_lastTransition := now\<rparr> else sm1)
      in if hs_HardFail signal \<and> (sm_state sm2 = StateHealthy \<or> sm_state sm2 = StateDegraded)
         then ((False, False), sm2)
         else (determineRouteAction now sm2, sm2))"

definition MarkRouteChanged :: "go_time \<Rightarrow> StateMachine \<Rightarrow> StateMachine" where
  "MarkRouteChanged now sm = sm\<lparr>sm_lastRouteChange := Some now\<rparr>"

definition GetState :: "StateMachine \<Rightarrow> HealthState" where
  "GetState sm = sm_state sm"

subsection \<open>Facts\<close>

lemmas handle_defs = handleHardFailure_def handleLatencyDegradation_def handleSuccess_def

text \<open>The state in which routes should be up.\<close>

definition serving :: "HealthState \<Rightarrow> bool" where
  "serving st \<longleftrightarrow> st = StateHealthy \<or> st = StateDegraded"

lemma serving_simps [simp]:
  "serving StateHealthy" "serving StateDegraded" "\<not> serving StateUnhealthy" "\<not> serving StateRecovering"
  by (simp_all add: serving_def)

lemma apply_signal_frame [simp]:
  "sm_config (apply_signal g sm) = sm_config sm"
  "sm_lastRouteChange (apply_signal g sm) = sm_lastRouteChange sm"
  by (auto simp: apply_signal_def handle_defs split: HealthState.splits)

lemma ProcessSignal_machine:
  "snd (ProcessSignal now g sm) = apply_signal g sm \<or>
   snd (ProcessSignal now g sm) = (apply_signal g sm)\<lparr>sm_lastTransition := now\<rparr>"
  by (auto simp: ProcessSignal_def Let_def)

lemma ProcessSignal_frame [simp]:
  "sm_config (snd (ProcessSignal now g sm)) = sm_config sm"
  "sm_lastRouteChange (snd (ProcessSignal now g sm)) = sm_lastRouteChange sm"
  "sm_state (snd (ProcessSignal now g sm)) = sm_state (apply_signal g sm)"
  "sm_consecutiveFails (snd (ProcessSignal now g sm)) = sm_consecutiveFails (apply_signal g sm)"
  "sm_consecutiveOKs (snd (ProcessSignal now g sm)) = sm_consecutiveOKs (apply_signal g sm)"
  using ProcessSignal_machine [of now g sm] by auto

text \<open>
  The action of a call: none while the debounce holds or a failure has not yet reached the
  threshold, otherwise the one that the new state asks for.
\<close>

definition debounced :: "go_time \<Rightarrow> StateMachine \<Rightarrow> bool" where
  "debounced now sm \<longleftrightarrow> (\<exists>t. sm_lastRouteChange sm = Some t \<and> now - t < MinStateDuration (sm_config sm))"

lemma ProcessSignal_action:
  "fst (ProcessSignal now g sm) =
    (if debounced now sm \<or> hs_HardFail g \<and> serving (sm_state (apply_signal g sm)) then (False, False)
     else (serving (sm_state (apply_signal g sm)), \<not> serving (sm_state (apply_signal g sm))))"
proof -
  have db: "(case sm_lastRouteChange sm of None \<Rightarrow> False | Some t \<Rightarrow> now - t < MinStateDuration (sm_config sm))
      \<longleftrightarrow> debounced now sm"
    by (auto simp: debounced_def split: option.splits)
  have "determineRouteAction now sm' =
      (if debounced now sm then (False, False) else (serving (sm_state sm'), \<not> serving (sm_state sm')))"
    if "sm_config sm' = sm_config sm" "sm_lastRouteChange sm' = sm_lastRouteChange sm" for sm'
    unfolding determineRouteAction_def that db by (cases "sm_state sm'") simp_all
  then show ?thesis by (auto simp: ProcessSignal_def Let_def serving_def)
qed

subsubsection \<open>How many failures and successes it takes\<close>

definition hard :: "HealthSignal \<Rightarrow> bool" where
  "hard g \<longleftrightarrow> hs_HardFail g"

definition success :: "HealthSignal \<Rightarrow> bool" where
  "success g \<longleftrightarrow> \<not> hs_HardFail g \<and> \<not> hs_LatencyDegraded g"

definition run_signals :: "(go_time \<times> HealthSignal) list \<Rightarrow> StateMachine \<Rightarrow> StateMachine" where
  "run_signals gs sm = fold (\<lambda>(now, g) s. snd (ProcessSignal now g s)) gs sm"

lemma run_signals_simps [simp]:
  "run_signals [] sm = sm"
  "run_signals ((now, g) # gs) sm = run_signals gs (snd (ProcessSignal now g sm))"
  by (simp_all add: run_signals_def)

text \<open>What every reachable machine satisfies.\<close>

definition sm_inv :: "StateMachine \<Rightarrow> bool" where
  "sm_inv sm \<longleftrightarrow> ValidateStateMachineConfig (sm_config sm) = None
     \<and> 0 \<le> sm_consecutiveFails sm \<and> 0 \<le> sm_consecutiveOKs sm
     \<and> (sm_consecutiveFails sm = 0 \<or> sm_consecutiveOKs sm = 0)
     \<and> (serving (sm_state sm) \<longrightarrow> sm_consecutiveFails sm < FailureThreshold (sm_config sm))
     \<and> (sm_state sm = StateRecovering \<longrightarrow> sm_consecutiveFails sm = 0
          \<and> sm_consecutiveOKs sm < max 2 (RecoveryThreshold (sm_config sm)))
     \<and> (sm_state sm = StateUnhealthy \<longrightarrow> sm_consecutiveOKs sm = 0)"

lemma valid_config:
  "ValidateStateMachineConfig c = None \<longleftrightarrow>
    1 \<le> FailureThreshold c \<and> 1 \<le> RecoveryThreshold c \<and> 0 \<le> MinStateDuration c"
  by (auto simp: ValidateStateMachineConfig_def fail_if_def)

lemma NewStateMachine_inv: "NewStateMachine now c = Some sm \<Longrightarrow> sm_inv sm"
  by (auto simp: NewStateMachine_def sm_inv_def valid_config split: option.splits)

lemma apply_signal_inv: "sm_inv sm \<Longrightarrow> sm_inv (apply_signal g sm)"
  by (cases "sm_state sm") (auto simp: sm_inv_def apply_signal_def handle_defs valid_config)

lemma sm_inv_transition [simp]: "sm_inv (sm\<lparr>sm_lastTransition := t\<rparr>) = sm_inv sm"
  by (simp add: sm_inv_def)

lemma ProcessSignal_inv: "sm_inv sm \<Longrightarrow> sm_inv (snd (ProcessSignal now g sm))"
  using ProcessSignal_machine [of now g sm] apply_signal_inv by auto

lemma run_signals_inv: "sm_inv sm \<Longrightarrow> sm_inv (run_signals gs sm)"
  by (induction gs arbitrary: sm) (auto simp: ProcessSignal_inv)

lemma MarkRouteChanged_inv: "sm_inv sm \<Longrightarrow> sm_inv (MarkRouteChanged now sm)"
  by (simp add: MarkRouteChanged_def sm_inv_def)

text \<open>From a serving state, failures in a row: exactly the threshold many take the routes down.\<close>

lemma failures_in_row:
  assumes "sm_inv sm" "list_all (\<lambda>(_, g). hard g) gs" "serving (sm_state sm)"
  shows "serving (sm_state (run_signals gs sm)) \<longleftrightarrow>
      sm_consecutiveFails sm + int (length gs) < FailureThreshold (sm_config sm)"
    and "\<not> serving (sm_state (run_signals gs sm)) \<Longrightarrow> sm_state (run_signals gs sm) = StateUnhealthy"
proof -
  have stuck: "sm_state (run_signals hs s) = StateUnhealthy"
    if "sm_state s = StateUnhealthy" "list_all (\<lambda>(_, g). hard g) hs" for s hs
    using that by (induction hs arbitrary: s) (auto simp: hard_def apply_signal_def handleHardFailure_def)
  have "(serving (sm_state (run_signals gs sm)) \<longleftrightarrow>
      sm_consecutiveFails sm + int (length gs) < FailureThreshold (sm_config sm))
    \<and> (\<not> serving (sm_state (run_signals gs sm)) \<longrightarrow> sm_state (run_signals gs sm) = StateUnhealthy)"
    using assms
  proof (induction gs arbitrary: sm)
    case Nil
    then show ?case by (auto simp: sm_inv_def)
  next
    case (Cons a gs)
    obtain now g where a: "a = (now, g)" by fastforce
    let ?s = "snd (ProcessSignal now g sm)"
    have g: "hs_HardFail g" using Cons.prems(2) by (simp add: a hard_def)
    have f: "sm_consecutiveFails ?s = sm_consecutiveFails sm + 1"
      using g by (auto simp: apply_signal_def handleHardFailure_def split: HealthState.splits)
    have st: "sm_state ?s = (if FailureThreshold (sm_config sm) \<le> sm_consecutiveFails sm + 1
        then StateUnhealthy else sm_state sm)"
      using g Cons.prems(3) by (cases "sm_state sm") (auto simp: apply_signal_def handleHardFailure_def)
    show ?case
    proof (cases "FailureThreshold (sm_config sm) \<le> sm_consecutiveFails sm + 1")
      case True
      then have "sm_state (run_signals gs ?s) = StateUnhealthy"
        using stuck [of ?s gs] st Cons.prems(2) by (simp add: a)
      then show ?thesis using True by (simp add: a)
    next
      case False
      then have "serving (sm_state ?s)" using st Cons.prems(3) by simp
      moreover have "sm_inv ?s" using Cons.prems(1) by (rule ProcessSignal_inv)
      ultimately show ?thesis using Cons.IH [of ?s] Cons.prems(2) f by (simp add: a add.assoc)
    qed
  qed
  then show "serving (sm_state (run_signals gs sm)) \<longleftrightarrow>
      sm_consecutiveFails sm + int (length gs) < FailureThreshold (sm_config sm)"
    and "\<not> serving (sm_state (run_signals gs sm)) \<Longrightarrow> sm_state (run_signals gs sm) = StateUnhealthy"
    by auto
qed

text \<open>
  Successes in a row while recovering, and from the unhealthy state: the first success only leads
  to \<open>Recovering\<close>, so at least two are needed whatever the threshold.
\<close>

lemma apply_success:
  "success g \<Longrightarrow> apply_signal g sm =
    handleSuccess (sm\<lparr>sm_consecutiveFails := 0, sm_consecutiveOKs := sm_consecutiveOKs sm + 1\<rparr>)"
  by (simp add: apply_signal_def success_def)

lemma healthy_stays:
  "sm_state sm = StateHealthy \<Longrightarrow> list_all (\<lambda>(_, g). success g) gs \<Longrightarrow>
    sm_state (run_signals gs sm) = StateHealthy"
  by (induction gs arbitrary: sm) (auto simp: apply_success handleSuccess_def)

lemma successes_recovering:
  assumes "list_all (\<lambda>(_, g). success g) gs" "sm_state sm = StateRecovering" "gs \<noteq> []"
  shows "sm_state (run_signals gs sm) =
    (if RecoveryThreshold (sm_config sm) \<le> sm_consecutiveOKs sm + int (length gs)
     then StateHealthy else StateRecovering)"
  using assms
proof (induction gs arbitrary: sm)
  case (Cons a gs)
  obtain now g where a: "a = (now, g)" by fastforce
  let ?s = "snd (ProcessSignal now g sm)"
  have s: "sm_state ?s = (if RecoveryThreshold (sm_config sm) \<le> sm_consecutiveOKs sm + 1
      then StateHealthy else StateRecovering)" "sm_consecutiveOKs ?s = sm_consecutiveOKs sm + 1"
    using Cons.prems by (auto simp: a apply_success handleSuccess_def)
  show ?case
  proof (cases "RecoveryThreshold (sm_config sm) \<le> sm_consecutiveOKs sm + 1")
    case True
    then have "sm_state (run_signals gs ?s) = StateHealthy"
      using healthy_stays [of ?s gs] s Cons.prems(1) by (simp add: a)
    then show ?thesis using True by (simp add: a)
  next
    case False
    then show ?thesis using Cons.IH [of ?s] Cons.prems(1) s by (cases "gs = []") (auto simp: a)
  qed
qed simp

lemma successes_in_row:
  assumes "sm_inv sm" "sm_state sm = StateUnhealthy" "list_all (\<lambda>(_, g). success g) gs"
  shows "sm_state (run_signals gs sm) = StateHealthy \<longleftrightarrow>
    max 2 (RecoveryThreshold (sm_config sm)) \<le> int (length gs)"
proof (cases gs)
  case (Cons a gs')
  obtain now g where a: "a = (now, g)" by fastforce
  let ?s = "snd (ProcessSignal now g sm)"
  have s: "sm_state ?s = StateRecovering" "sm_consecutiveOKs ?s = 1"
    using assms by (auto simp: Cons a apply_success handleSuccess_def sm_inv_def)
  show ?thesis
    using successes_recovering [of gs' ?s] s assms by (cases "gs' = []") (auto simp: Cons a Suc_le_eq)
qed (use assms in simp)

subsection \<open>Properties\<close>

text \<open>
  From a serving state, hard failures in a row take the service down exactly when they reach the
  failure threshold, counting the failures already seen; then the state is \<open>Unhealthy\<close>.
\<close>

theorem failure_threshold_exact:
  assumes "sm_inv sm" "list_all (\<lambda>(_, g). hard g) gs" "serving (sm_state sm)"
  shows "if sm_consecutiveFails sm + int (length gs) < FailureThreshold (sm_config sm)
    then serving (sm_state (run_signals gs sm)) else sm_state (run_signals gs sm) = StateUnhealthy"
  using failures_in_row [OF assms] by auto

text \<open>
  C33: From \<open>Unhealthy\<close>, successes in a row bring the service back exactly when there are at least two
  and at least the recovery threshold many; a threshold of one behaves like two.
\<close>

theorem recovery_threshold_exact:
  assumes "sm_inv sm" "sm_state sm = StateUnhealthy" "list_all (\<lambda>(_, g). success g) gs"
  shows "sm_state (run_signals gs sm) = StateHealthy \<longleftrightarrow>
    max 2 (RecoveryThreshold (sm_config sm)) \<le> int (length gs)"
  using assms by (rule successes_in_row)

definition example_config :: StateMachineConfig where
  "example_config = \<lparr>FailureThreshold = 2, RecoveryThreshold = 1, MinStateDuration = 30\<rparr>"

definition example_machine :: "HealthState \<Rightarrow> StateMachine" where
  "example_machine st = \<lparr>sm_config = example_config, sm_state = st, sm_consecutiveFails = 0,
     sm_consecutiveOKs = 0, sm_lastTransition = 0, sm_lastRouteChange = None\<rparr>"

definition example_signal :: "bool \<Rightarrow> HealthSignal" where
  "example_signal bad = \<lparr>hs_HardFail = bad, hs_LatencyDegraded = False, hs_Reason = [], hs_ObservedAt = 0\<rparr>"

lemma example_machine_inv: "sm_inv (example_machine st)"
  by (cases st) (simp_all add: sm_inv_def example_machine_def example_config_def valid_config)

theorem failure_threshold_exact_witness:
  "sm_state (run_signals [(1, example_signal True), (2, example_signal True)] (example_machine StateHealthy)) =
    StateUnhealthy"
  using failure_threshold_exact [OF example_machine_inv, of "[(1, example_signal True), (2, example_signal True)]" StateHealthy]
  by (simp add: example_machine_def example_config_def example_signal_def hard_def)

theorem recovery_threshold_exact_witness:
  "sm_state (run_signals [(1, example_signal False)] (example_machine StateUnhealthy)) \<noteq> StateHealthy"
  using recovery_threshold_exact [OF example_machine_inv, of StateUnhealthy "[(1, example_signal False)]"]
  by (simp add: example_machine_def example_config_def example_signal_def success_def)

text \<open>
  A signal never asks for both route actions, asks for none during the debounce, and otherwise,
  a failure below the threshold apart, asks for the one that the new state calls for.
\<close>

theorem signal_action:
  "fst (ProcessSignal now g sm) =
    (if debounced now sm \<or> hs_HardFail g \<and> serving (sm_state (snd (ProcessSignal now g sm))) then (False, False)
     else (serving (sm_state (snd (ProcessSignal now g sm))), \<not> serving (sm_state (snd (ProcessSignal now g sm)))))"
  using ProcessSignal_action [of now g sm] by simp

end
