(* ===== verification/Bird_Routes.thy ===== *)
theory Bird_Routes
  imports Bird_Machine Go_Conv Regex
begin

section \<open>Route management and the control loop (internal/agent/bird: routes.go, loop.go, protocol.go)\<close>

text \<open>
  The BIRD control protocol's responses, the route manager that enables and disables the BGP
  protocols through a client, and the loop that connects it to the state machine. The BIRD daemon
  behind the client is not part of the repository: \<open>exec\<close>, a parameter, runs one command on a
  state of the daemon and gives a response or an error. What is relied upon of it is the predicate
  \<open>bird_obeys\<close>. The lemmas show that the manager's cached flags never claim more than the daemon's
  state, through partial failures and roll-backs too, and what the loop leaves behind.
\<close>

subsection \<open>Responses\<close>

record Response =
  resp_Code :: int
  resp_Lines :: "string list"
  resp_RawText :: string

definition IsSuccess :: "Response \<Rightarrow> bool" where
  "IsSuccess r \<longleftrightarrow> resp_Code r < 8000"

definition IsError :: "Response \<Rightarrow> bool" where
  "IsError r \<longleftrightarrow> 8000 \<le> resp_Code r"

text \<open>
  The body of the scanning loop, on the lines that the scanner gives; \<open>True\<close> as first component is
  the \<open>break\<close> at the terminator.
\<close>

definition parse_line :: "string \<Rightarrow> string list \<times> int \<Rightarrow> bool \<times> string list \<times> int" where
  "parse_line line st =
     (let (ls, lastCode) = st in
      if length line < 4 then (False, ls, lastCode)
      else case Atoi (take 4 line) of
        None \<Rightarrow> (False, ls, lastCode)
      | Some code \<Rightarrow>
        (let separator = (if 4 < length line then take 1 (drop 4 line) else '' '');
             content = (if 5 < length line then drop 5 line else []);
             ls' = ls @ [content]
         in if separator = '' '' then (if code = 0 then (True, ls', lastCode) else (False, ls', code))
            else (False, ls', lastCode)))"

text \<open>Whether the terminator was reached, the raw lines read, and the lines and code collected.\<close>

fun parse_loop :: "string list \<Rightarrow> string list \<Rightarrow> string list \<times> int \<Rightarrow> bool \<times> string list \<times> string list \<times> int" where
  "parse_loop [] raw st = (False, raw, st)"
| "parse_loop (line # rest) raw st =
     (let (stop, st') = parse_line line st
      in if stop then (True, raw @ [line], st') else parse_loop rest (raw @ [line]) st')"

text \<open>
  \<open>scanErr\<close> is the error with which the scanner stops after the lines it gives, \<open>None\<close> at the end of
  the input; the loop does not get there when it meets the terminator.
\<close>

definition ParseResponse :: "string list \<Rightarrow> string option \<Rightarrow> string + Response" where
  "ParseResponse input scanErr =
     (let (stopped, raw, ls, code) = parse_loop input [] ([], 0) in
      case (if stopped then None else scanErr) of
        Some e \<Rightarrow> Inl e
      | None \<Rightarrow> Inr \<lparr>resp_Code = code, resp_Lines = ls, resp_RawText = join_with [CHR 0x0A] raw\<rparr>)"

definition ParseGreeting :: "string list \<Rightarrow> string option \<Rightarrow> string + string" where
  "ParseGreeting input scanErr =
     (case ParseResponse input scanErr of
        Inl e \<Rightarrow> Inl e
      | Inr r \<Rightarrow> (case resp_Lines r of [] \<Rightarrow> Inl ''empty greeting'' | l # _ \<Rightarrow> Inr l))"

subsection \<open>Reading the state of a protocol\<close>

definition word_break :: "char \<Rightarrow> bool" where
  "word_break c \<longleftrightarrow> c = CHR '' '' \<or> c = CHR 0x09"

definition containsWord :: "string \<Rightarrow> string \<Rightarrow> bool" where
  "containsWord s word \<longleftrightarrow>
     list_ex (\<lambda>i. i + length word \<le> length s \<and> take (length word) (drop i s) = word
        \<and> (i = 0 \<or> word_break (s ! (i - 1)))
        \<and> (i + length word = length s \<or> word_break (s ! (i + length word)))) [0..<length s]"

definition protocolEnabledFromShowProtocols :: "string \<Rightarrow> bool" where
  "protocolEnabledFromShowProtocols output =
     (\<not> list_ex (\<lambda>line. line \<noteq> [] \<and> (containsWord line ''Disabled'' \<or> containsWord line ''disabled''))
        (map TrimSpace (split_on (CHR 0x0A) output)))"

subsection \<open>The route manager\<close>

datatype bird_error =
    ExecFailed string string \<comment> \<open>the command and the client's error\<close>
  | BirdError string int string \<comment> \<open>the command, the response's code and raw text\<close>
  | Joined "bird_error list"
  | RollbackFailed bird_error
  | NoProtocols
  | InvalidIdentifier string

definition birdIdentifierRE :: rexp where
  "birdIdentifierRE =
     RSeq (RClass (\<lambda>c. is_upper c \<or> is_lower c \<or> c = CHR ''_''))
      (RStar (RClass (\<lambda>c. is_alnum c \<or> c = CHR ''_'')))"

definition validateBIRDIdentifier :: "string \<Rightarrow> bird_error option" where
  "validateBIRDIdentifier name = (if matches birdIdentifierRE name then None else Some (InvalidIdentifier name))"

fun validateBIRDIdentifiers :: "string list \<Rightarrow> bird_error option" where
  "validateBIRDIdentifiers [] = None"
| "validateBIRDIdentifiers (n # ns) = andthen (validateBIRDIdentifier n) (validateBIRDIdentifiers ns)"

record RouteManager =
  rm_protocolNames :: "string list"
  rm_announced :: bool
  rm_needsWithdraw :: bool
  rm_lastChange :: "go_time option"

type_synonym 'w client = "string \<Rightarrow> 'w \<Rightarrow> (string + Response) \<times> 'w"

definition NewRouteManager :: "string list \<Rightarrow> bird_error + RouteManager" where
  "NewRouteManager protocolNames =
     (case validateBIRDIdentifiers protocolNames of
        Some e \<Rightarrow> Inl e
      | None \<Rightarrow> Inr \<lparr>rm_protocolNames = protocolNames, rm_announced = False, rm_needsWithdraw = True,
                     rm_lastChange = None\<rparr>)"

text \<open>One command: the error of the client, the error of a refusing response, or the response.\<close>

definition run_cmd :: "'w client \<Rightarrow> string \<Rightarrow> 'w \<Rightarrow> (bird_error + Response) \<times> 'w" where
  "run_cmd exec cmd w =
     (case exec cmd w of
        (Inl e, w') \<Rightarrow> (Inl (ExecFailed cmd e), w')
      | (Inr resp, w') \<Rightarrow>
        (if IsError resp then (Inl (BirdError cmd (resp_Code resp) (resp_RawText resp)), w')
         else (Inr resp, w')))"

fun withdraw_loop :: "'w client \<Rightarrow> string list \<Rightarrow> 'w \<Rightarrow> bird_error list \<times> 'w" where
  "withdraw_loop exec [] w = ([], w)"
| "withdraw_loop exec (name # names) w =
     (case run_cmd exec (''disable '' @ name) w of
        (Inl e, w1) \<Rightarrow> (let (es, w2) = withdraw_loop exec names w1 in (e # es, w2))
      | (Inr _, w1) \<Rightarrow> withdraw_loop exec names w1)"

definition withdrawRoutesLocked :: "'w client \<Rightarrow> RouteManager \<Rightarrow> 'w \<Rightarrow> bird_error option \<times> 'w" where
  "withdrawRoutesLocked exec rm w =
     (let (errs, w') = withdraw_loop exec (rm_protocolNames rm) w
      in (if errs = [] then None else Some (Joined errs), w'))"

fun enable_loop :: "'w client \<Rightarrow> string list \<Rightarrow> 'w \<Rightarrow> bird_error option \<times> 'w" where
  "enable_loop exec [] w = (None, w)"
| "enable_loop exec (name # names) w =
     (case run_cmd exec (''enable '' @ name) w of
        (Inl e, w1) \<Rightarrow> (Some e, w1)
      | (Inr _, w1) \<Rightarrow> enable_loop exec names w1)"

definition rollbackAnnounceFailure ::
  "'w client \<Rightarrow> go_time \<Rightarrow> bird_error \<Rightarrow> RouteManager \<Rightarrow> 'w \<Rightarrow> bird_error \<times> RouteManager \<times> 'w" where
  "rollbackAnnounceFailure exec now cause rm w =
     (let rm0 = rm\<lparr>rm_announced := False\<rparr> in
      case withdrawRoutesLocked exec rm0 w of
        (Some err, w') \<Rightarrow> (Joined [cause, RollbackFailed err], rm0\<lparr>rm_needsWithdraw := True\<rparr>, w')
      | (None, w') \<Rightarrow> (cause, rm0\<lparr>rm_needsWithdraw := False, rm_lastChange := Some now\<rparr>, w'))"

definition AnnounceRoutesChanged ::
  "'w client \<Rightarrow> go_time \<Rightarrow> RouteManager \<Rightarrow> 'w \<Rightarrow> (bird_error + bool) \<times> RouteManager \<times> 'w" where
  "AnnounceRoutesChanged exec now rm w =
     (if rm_announced rm then (Inr False, rm, w)
      else case enable_loop exec (rm_protocolNames rm) w of
        (Some cause, w1) \<Rightarrow>
          (let (err, rm', w2) = rollbackAnnounceFailure exec now cause rm w1 in (Inl err, rm', w2))
      | (None, w1) \<Rightarrow>
          (Inr True, rm\<lparr>rm_announced := True, rm_needsWithdraw := False, rm_lastChange := Some now\<rparr>, w1))"

definition ForceWithdrawRoutes ::
  "'w client \<Rightarrow> go_time \<Rightarrow> RouteManager \<Rightarrow> 'w \<Rightarrow> bird_error option \<times> RouteManager \<times> 'w" where
  "ForceWithdrawRoutes exec now rm w =
     (case withdrawRoutesLocked exec rm w of
        (Some err, w') \<Rightarrow> (Some err, rm\<lparr>rm_announced := False, rm_needsWithdraw := True\<rparr>, w')
      | (None, w') \<Rightarrow>
          (None, rm\<lparr>rm_announced := False, rm_needsWithdraw := False, rm_lastChange := Some now\<rparr>, w'))"

definition WithdrawRoutesChanged ::
  "'w client \<Rightarrow> go_time \<Rightarrow> RouteManager \<Rightarrow> 'w \<Rightarrow> (bird_error + bool) \<times> RouteManager \<times> 'w" where
  "WithdrawRoutesChanged exec now rm w =
     (if \<not> rm_announced rm \<and> \<not> rm_needsWithdraw rm then (Inr False, rm, w)
      else case withdrawRoutesLocked exec rm w of
        (Some err, w') \<Rightarrow> (Inl err, rm\<lparr>rm_announced := False, rm_needsWithdraw := True\<rparr>, w')
      | (None, w') \<Rightarrow>
          (Inr True, rm\<lparr>rm_announced := False, rm_needsWithdraw := False, rm_lastChange := Some now\<rparr>, w'))"

text \<open>\<open>(allEnabled, anyEnabled)\<close> over the configured protocols.\<close>

fun show_loop :: "'w client \<Rightarrow> string list \<Rightarrow> bool \<times> bool \<Rightarrow> 'w \<Rightarrow> (bird_error + bool \<times> bool) \<times> 'w" where
  "show_loop exec [] flags w = (Inr flags, w)"
| "show_loop exec (name # names) flags w =
     (case run_cmd exec (''show protocols '' @ name) w of
        (Inl e, w1) \<Rightarrow> (Inl e, w1)
      | (Inr resp, w1) \<Rightarrow>
        (if protocolEnabledFromShowProtocols (resp_RawText resp)
         then show_loop exec names (fst flags, True) w1
         else show_loop exec names (False, snd flags) w1))"

definition Reconcile :: "'w client \<Rightarrow> RouteManager \<Rightarrow> 'w \<Rightarrow> bird_error option \<times> RouteManager \<times> 'w" where
  "Reconcile exec rm w =
     (if rm_protocolNames rm = [] then (Some NoProtocols, rm, w)
      else case show_loop exec (rm_protocolNames rm) (True, False) w of
        (Inl e, w') \<Rightarrow> (Some e, rm, w')
      | (Inr (allEnabled, anyEnabled), w') \<Rightarrow>
          (None, rm\<lparr>rm_announced := allEnabled, rm_needsWithdraw := anyEnabled \<and> \<not> allEnabled\<rparr>, w'))"

fun status_loop :: "'w client \<Rightarrow> string list \<Rightarrow> string list \<Rightarrow> 'w \<Rightarrow> (bird_error + string list) \<times> 'w" where
  "status_loop exec [] out w = (Inr out, w)"
| "status_loop exec (name # names) out w =
     (case run_cmd exec (''show protocols '' @ name) w of
        (Inl e, w1) \<Rightarrow> (Inl e, w1)
      | (Inr resp, w1) \<Rightarrow> status_loop exec names (out @ [resp_RawText resp]) w1)"

definition GetStatus :: "'w client \<Rightarrow> RouteManager \<Rightarrow> 'w \<Rightarrow> (bird_error + string) \<times> 'w" where
  "GetStatus exec rm w =
     (case status_loop exec (rm_protocolNames rm) [] w of
        (Inl e, w') \<Rightarrow> (Inl e, w')
      | (Inr out, w') \<Rightarrow> (Inr (join_with [CHR 0x0A] out), w'))"

subsection \<open>The control loop\<close>

record 'w ControlLoop =
  cl_machine :: StateMachine
  cl_routes :: RouteManager
  cl_bird :: 'w

definition mark_if :: "go_time \<Rightarrow> bird_error + bool \<Rightarrow> StateMachine \<Rightarrow> StateMachine" where
  "mark_if now r sm = (case r of Inr True \<Rightarrow> MarkRouteChanged now sm | _ \<Rightarrow> sm)"

definition announce_step :: "'w client \<Rightarrow> go_time \<Rightarrow> 'w ControlLoop \<Rightarrow> 'w ControlLoop" where
  "announce_step exec now cl =
     (let (r, rm, w) = AnnounceRoutesChanged exec now (cl_routes cl) (cl_bird cl)
      in \<lparr>cl_machine = mark_if now r (cl_machine cl), cl_routes = rm, cl_bird = w\<rparr>)"

definition withdraw_step :: "'w client \<Rightarrow> go_time \<Rightarrow> 'w ControlLoop \<Rightarrow> 'w ControlLoop" where
  "withdraw_step exec now cl =
     (let (r, rm, w) = WithdrawRoutesChanged exec now (cl_routes cl) (cl_bird cl)
      in \<lparr>cl_machine = mark_if now r (cl_machine cl), cl_routes = rm, cl_bird = w\<rparr>)"

definition processSignal :: "'w client \<Rightarrow> go_time \<Rightarrow> HealthSignal \<Rightarrow> 'w ControlLoop \<Rightarrow> 'w ControlLoop" where
  "processSignal exec now signal cl =
     (let ((shouldAnnounce, shouldWithdraw), sm) = ProcessSignal now signal (cl_machine cl);
          cl1 = cl\<lparr>cl_machine := sm\<rparr>;
          cl2 = (if shouldAnnounce then announce_step exec now cl1 else cl1)
      in if shouldWithdraw then withdraw_step exec now cl2 else cl2)"

definition shutdown :: "'w client \<Rightarrow> go_time \<Rightarrow> 'w ControlLoop \<Rightarrow> 'w ControlLoop" where
  "shutdown exec now cl =
     (let (r, rm, w) = WithdrawRoutesChanged exec now (cl_routes cl) (cl_bird cl)
      in cl\<lparr>cl_routes := rm, cl_bird := w\<rparr>)"

text \<open>The signals received until the context ends or the channel closes, and the shutdown.\<close>

definition Run :: "'w client \<Rightarrow> (go_time \<times> HealthSignal) list \<Rightarrow> go_time \<Rightarrow> 'w ControlLoop \<Rightarrow> 'w ControlLoop" where
  "Run exec signals stop cl = shutdown exec stop (fold (\<lambda>(now, g). processSignal exec now g) signals cl)"

subsection \<open>What is relied upon of BIRD\<close>

text \<open>
  \<open>enabled w n\<close>: the daemon in state \<open>w\<close> has the protocol \<open>n\<close> enabled. A confirmed \<open>enable\<close> or
  \<open>disable\<close> has had its effect; neither touches other protocols, even when it fails; and
  \<open>show protocols\<close> changes nothing and reports the truth.
\<close>

definition bird_obeys :: "'w client \<Rightarrow> ('w \<Rightarrow> string \<Rightarrow> bool) \<Rightarrow> bool" where
  "bird_obeys exec enabled \<longleftrightarrow>
     (\<forall>w w' n r. run_cmd exec (''enable '' @ n) w = (r, w') \<longrightarrow>
        (\<forall>m. m \<noteq> n \<longrightarrow> enabled w' m = enabled w m) \<and> (isl r \<or> enabled w' n))
   \<and> (\<forall>w w' n r. run_cmd exec (''disable '' @ n) w = (r, w') \<longrightarrow>
        (\<forall>m. m \<noteq> n \<longrightarrow> enabled w' m = enabled w m) \<and> (isl r \<or> \<not> enabled w' n))
   \<and> (\<forall>w w' n r. run_cmd exec (''show protocols '' @ n) w = (r, w') \<longrightarrow>
        enabled w' = enabled w
        \<and> (isl r \<or> protocolEnabledFromShowProtocols (resp_RawText (projr r)) = enabled w n))"

lemma bird_obeysD:
  assumes "bird_obeys exec enabled"
  shows "run_cmd exec (''enable '' @ n) w = (r, w') \<Longrightarrow> m \<noteq> n \<Longrightarrow> enabled w' m = enabled w m"
    "run_cmd exec (''enable '' @ n) w = (Inr x, w') \<Longrightarrow> enabled w' n"
    "run_cmd exec (''disable '' @ n) w = (r, w') \<Longrightarrow> m \<noteq> n \<Longrightarrow> enabled w' m = enabled w m"
    "run_cmd exec (''disable '' @ n) w = (Inr x, w') \<Longrightarrow> \<not> enabled w' n"
    "run_cmd exec (''show protocols '' @ n) w = (r, w') \<Longrightarrow> enabled w' = enabled w"
    "run_cmd exec (''show protocols '' @ n) w = (Inr x, w') \<Longrightarrow>
       protocolEnabledFromShowProtocols (resp_RawText x) = enabled w n"
  using assms unfolding bird_obeys_def by (blast, fastforce, blast, fastforce, blast, fastforce)

text \<open>The flags of the manager claim nothing that is not so.\<close>

definition rm_sound :: "('w \<Rightarrow> string \<Rightarrow> bool) \<Rightarrow> RouteManager \<Rightarrow> 'w \<Rightarrow> bool" where
  "rm_sound enabled rm w \<longleftrightarrow>
     (rm_announced rm \<longrightarrow> \<not> rm_needsWithdraw rm \<and> (\<forall>n \<in> set (rm_protocolNames rm). enabled w n))
   \<and> (\<not> rm_announced rm \<and> \<not> rm_needsWithdraw rm \<longrightarrow> (\<forall>n \<in> set (rm_protocolNames rm). \<not> enabled w n))"

lemma NewRouteManager_sound: "NewRouteManager ns = Inr rm \<Longrightarrow> rm_sound enabled rm w"
  by (auto simp: NewRouteManager_def rm_sound_def split: option.splits)

lemma withdraw_loop_frame:
  assumes "bird_obeys exec enabled" "withdraw_loop exec names w = (es, w')" "m \<notin> set names"
  shows "enabled w' m = enabled w m"
  using assms(2,3)
proof (induction names arbitrary: w es)
  case (Cons n ns)
  obtain r w1 where r: "run_cmd exec (''disable '' @ n) w = (r, w1)" by fastforce
  obtain es1 where "withdraw_loop exec ns w1 = (es1, w')"
    using Cons.prems(1) r by (cases r) (auto split: prod.splits)
  then show ?case using Cons bird_obeysD(3) [OF assms(1) r] by auto
qed simp

lemma withdraw_loop_ok:
  assumes "bird_obeys exec enabled" "withdraw_loop exec names w = ([], w')" "m \<in> set names"
  shows "\<not> enabled w' m"
  using assms(2,3)
proof (induction names arbitrary: w)
  case (Cons n ns)
  obtain r w1 where r: "run_cmd exec (''disable '' @ n) w = (r, w1)" by fastforce
  then obtain x where x: "r = Inr x" and l: "withdraw_loop exec ns w1 = ([], w')"
    using Cons.prems(1) by (cases r) (auto split: prod.splits)
  show ?case
  proof (cases "m \<in> set ns")
    case True
    then show ?thesis using Cons.IH [OF l] by simp
  next
    case False
    then have "m = n" using Cons.prems(2) by simp
    then show ?thesis using bird_obeysD(4) [OF assms(1)] r x withdraw_loop_frame [OF assms(1) l False] by simp
  qed
qed simp

lemma enable_loop_keeps:
  assumes "bird_obeys exec enabled" "enable_loop exec names w = (None, w')" "enabled w m"
  shows "enabled w' m"
  using assms(2,3)
proof (induction names arbitrary: w)
  case (Cons n ns)
  obtain r w1 where r: "run_cmd exec (''enable '' @ n) w = (r, w1)" by fastforce
  then obtain x where "r = Inr x" "enable_loop exec ns w1 = (None, w')"
    using Cons.prems(1) by (cases r) auto
  then show ?case
    using Cons bird_obeysD(1) [OF assms(1) r, of m] bird_obeysD(2) [OF assms(1), of n w x w1] r
    by (cases "m = n") auto
qed simp

lemma enable_loop_ok:
  assumes "bird_obeys exec enabled" "enable_loop exec names w = (None, w')" "m \<in> set names"
  shows "enabled w' m"
  using assms(2,3)
proof (induction names arbitrary: w)
  case (Cons n ns)
  obtain r w1 where r: "run_cmd exec (''enable '' @ n) w = (r, w1)" by fastforce
  then obtain x where "r = Inr x" "enable_loop exec ns w1 = (None, w')"
    using Cons.prems(1) by (cases r) auto
  then show ?case
    using Cons bird_obeysD(2) [OF assms(1), of n w x w1] r enable_loop_keeps [OF assms(1), of ns w1 w' n]
    by auto
qed simp

text \<open>\<open>withdrawRoutesLocked\<close> without an error has disabled every protocol.\<close>

lemma withdrawRoutesLocked_ok:
  "bird_obeys exec enabled \<Longrightarrow> withdrawRoutesLocked exec rm w = (None, w') \<Longrightarrow>
    n \<in> set (rm_protocolNames rm) \<Longrightarrow> \<not> enabled w' n"
  by (auto simp: withdrawRoutesLocked_def Let_def withdraw_loop_ok split: prod.splits if_splits)

lemma show_loop_flags:
  assumes "bird_obeys exec enabled" "show_loop exec names (a, b) w = (Inr (a', b'), w')"
  shows "a' \<longleftrightarrow> a \<and> (\<forall>n \<in> set names. enabled w n)" "b' \<longleftrightarrow> b \<or> (\<exists>n \<in> set names. enabled w n)"
    "enabled w' = enabled w"
proof -
  have "(a' \<longleftrightarrow> a \<and> (\<forall>n \<in> set names. enabled w n)) \<and> (b' \<longleftrightarrow> b \<or> (\<exists>n \<in> set names. enabled w n))
      \<and> enabled w' = enabled w"
    using assms(2)
  proof (induction names arbitrary: a b w)
    case (Cons n ns)
    obtain r w1 where r: "run_cmd exec (''show protocols '' @ n) w = (r, w1)" by fastforce
    then obtain x where x: "r = Inr x" using Cons.prems by (cases r) auto
    note o = bird_obeysD(5) [OF assms(1) r] bird_obeysD(6) [OF assms(1) r [unfolded x]]
    have st: "show_loop exec ns (if enabled w n then (a, True) else (False, b)) w1 = (Inr (a', b'), w')"
      using Cons.prems r x o(2) by (simp split: if_splits)
    show ?case
    proof (cases "enabled w n")
      case True
      with st Cons.IH [of a True w1] show ?thesis using o(1) by simp
    next
      case False
      with st Cons.IH [of False b w1] show ?thesis using o(1) by simp
    qed
  qed simp
  then show "a' \<longleftrightarrow> a \<and> (\<forall>n \<in> set names. enabled w n)" "b' \<longleftrightarrow> b \<or> (\<exists>n \<in> set names. enabled w n)"
    "enabled w' = enabled w"
    by auto
qed

lemma show_loop_frame:
  assumes "bird_obeys exec enabled" "show_loop exec names fl w = (r, w')"
  shows "enabled w' = enabled w"
  using assms(2)
proof (induction names arbitrary: fl w)
  case (Cons n ns)
  obtain q w1 where q: "run_cmd exec (''show protocols '' @ n) w = (q, w1)" by fastforce
  then show ?case using Cons bird_obeysD(5) [OF assms(1) q] by (cases q) (auto split: if_splits)
qed simp

subsection \<open>Every operation keeps the flags sound\<close>

lemma Reconcile_sound:
  assumes "bird_obeys exec enabled" "rm_sound enabled rm w" "Reconcile exec rm w = (r, rm', w')"
  shows "rm_sound enabled rm' w'" "rm_protocolNames rm' = rm_protocolNames rm"
proof -
  obtain q w1 where q: "show_loop exec (rm_protocolNames rm) (True, False) w = (q, w1)" by fastforce
  note fr = show_loop_frame [OF assms(1) q]
  show "rm_sound enabled rm' w'"
  proof (cases q)
    case (Inr fl)
    then obtain a b where ab: "q = Inr (a, b)" by (cases fl) auto
    note f = show_loop_flags [OF assms(1) q [unfolded ab]]
    show ?thesis
    proof (cases "rm_protocolNames rm = []")
      case False
      then have "rm' = rm\<lparr>rm_announced := a, rm_needsWithdraw := b \<and> \<not> a\<rparr>" "w' = w1"
        using assms(3) q ab by (auto simp: Reconcile_def)
      then show ?thesis using f by (auto simp: rm_sound_def)
    qed (use assms(2,3) in \<open>auto simp: Reconcile_def\<close>)
  qed (use assms(2,3) q fr in \<open>auto simp: Reconcile_def rm_sound_def split: if_splits\<close>)
  show "rm_protocolNames rm' = rm_protocolNames rm"
    using assms(3) by (auto simp: Reconcile_def split: if_splits prod.splits sum.splits)
qed

lemma WithdrawRoutesChanged_sound:
  assumes "bird_obeys exec enabled" "rm_sound enabled rm w"
    and "WithdrawRoutesChanged exec now rm w = (r, rm', w')"
  shows "rm_sound enabled rm' w'" "rm_protocolNames rm' = rm_protocolNames rm" "\<not> rm_announced rm'"
  using assms(2,3) withdrawRoutesLocked_ok [OF assms(1)]
  by (auto simp: WithdrawRoutesChanged_def rm_sound_def split: if_splits prod.splits option.splits)

lemma ForceWithdrawRoutes_sound:
  assumes "bird_obeys exec enabled" "ForceWithdrawRoutes exec now rm w = (r, rm', w')"
  shows "rm_sound enabled rm' w'" "rm_protocolNames rm' = rm_protocolNames rm"
    "r = None \<Longrightarrow> n \<in> set (rm_protocolNames rm) \<Longrightarrow> \<not> enabled w' n"
  using assms(2) withdrawRoutesLocked_ok [OF assms(1)]
  by (auto simp: ForceWithdrawRoutes_def rm_sound_def split: if_splits prod.splits option.splits)

lemma rollbackAnnounceFailure_sound:
  assumes "bird_obeys exec enabled" "rollbackAnnounceFailure exec now cause rm w = (e, rm', w')"
  shows "rm_sound enabled rm' w'" "rm_protocolNames rm' = rm_protocolNames rm" "\<not> rm_announced rm'"
  using assms(2) withdrawRoutesLocked_ok [OF assms(1), of "rm\<lparr>rm_announced := False\<rparr>"]
  by (auto simp: rollbackAnnounceFailure_def Let_def rm_sound_def split: prod.splits option.splits)

lemma AnnounceRoutesChanged_sound:
  assumes "bird_obeys exec enabled" "rm_sound enabled rm w"
    and "AnnounceRoutesChanged exec now rm w = (r, rm', w')"
  shows "rm_sound enabled rm' w'" "rm_protocolNames rm' = rm_protocolNames rm"
    "rm_announced rm' \<longleftrightarrow> \<not> isl r"
proof -
  have "rm_sound enabled rm' w' \<and> rm_protocolNames rm' = rm_protocolNames rm \<and> (rm_announced rm' \<longleftrightarrow> \<not> isl r)"
  proof (cases "rm_announced rm")
    case True
    then show ?thesis using assms(2,3) by (auto simp: AnnounceRoutesChanged_def)
  next
    case False
    obtain c w1 where c: "enable_loop exec (rm_protocolNames rm) w = (c, w1)" by fastforce
    show ?thesis
    proof (cases c)
      case None
      have "\<forall>n \<in> set (rm_protocolNames rm). enabled w1 n"
        using enable_loop_ok [OF assms(1) c [unfolded None]] by blast
      moreover have "r = Inr True" "w' = w1"
        "rm' = rm\<lparr>rm_announced := True, rm_needsWithdraw := False, rm_lastChange := Some now\<rparr>"
        using False c None assms(3) by (auto simp: AnnounceRoutesChanged_def)
      ultimately show ?thesis by (simp add: rm_sound_def)
    next
      case (Some cause)
      obtain e where "r = Inl e" "rollbackAnnounceFailure exec now cause rm w1 = (e, rm', w')"
        using False c Some assms(3) by (auto simp: AnnounceRoutesChanged_def split: prod.splits)
      then show ?thesis using rollbackAnnounceFailure_sound [OF assms(1)] by auto
    qed
  qed
  then show "rm_sound enabled rm' w'" "rm_protocolNames rm' = rm_protocolNames rm"
    "rm_announced rm' \<longleftrightarrow> \<not> isl r" by auto
qed

subsection \<open>The loop\<close>

definition cl_sound :: "('w \<Rightarrow> string \<Rightarrow> bool) \<Rightarrow> 'w ControlLoop \<Rightarrow> bool" where
  "cl_sound enabled cl \<longleftrightarrow> rm_sound enabled (cl_routes cl) (cl_bird cl) \<and> sm_inv (cl_machine cl)"

lemma mark_if_simps [simp]:
  "sm_state (mark_if now r sm) = sm_state sm" "sm_config (mark_if now r sm) = sm_config sm"
  "sm_inv sm \<Longrightarrow> sm_inv (mark_if now r sm)"
  by (auto simp: mark_if_def MarkRouteChanged_def MarkRouteChanged_inv [unfolded MarkRouteChanged_def]
      split: sum.splits bool.splits)

lemma announce_step_sound:
  assumes "bird_obeys exec enabled" "cl_sound enabled cl"
  shows "cl_sound enabled (announce_step exec now cl)"
    "rm_protocolNames (cl_routes (announce_step exec now cl)) = rm_protocolNames (cl_routes cl)"
proof -
  obtain r rm w where u: "AnnounceRoutesChanged exec now (cl_routes cl) (cl_bird cl) = (r, rm, w)"
    by (metis prod_cases3)
  have "rm_sound enabled (cl_routes cl) (cl_bird cl)" using assms(2) by (simp add: cl_sound_def)
  note s = AnnounceRoutesChanged_sound [OF assms(1) this u]
  show "cl_sound enabled (announce_step exec now cl)"
    "rm_protocolNames (cl_routes (announce_step exec now cl)) = rm_protocolNames (cl_routes cl)"
    using s assms(2) by (simp_all add: announce_step_def u cl_sound_def)
qed

lemma withdraw_step_sound:
  assumes "bird_obeys exec enabled" "cl_sound enabled cl"
  shows "cl_sound enabled (withdraw_step exec now cl)"
    "rm_protocolNames (cl_routes (withdraw_step exec now cl)) = rm_protocolNames (cl_routes cl)"
    "\<not> rm_announced (cl_routes (withdraw_step exec now cl))"
proof -
  obtain r rm w where u: "WithdrawRoutesChanged exec now (cl_routes cl) (cl_bird cl) = (r, rm, w)"
    by (metis prod_cases3)
  have "rm_sound enabled (cl_routes cl) (cl_bird cl)" using assms(2) by (simp add: cl_sound_def)
  note s = WithdrawRoutesChanged_sound [OF assms(1) this u]
  show "cl_sound enabled (withdraw_step exec now cl)"
    "rm_protocolNames (cl_routes (withdraw_step exec now cl)) = rm_protocolNames (cl_routes cl)"
    "\<not> rm_announced (cl_routes (withdraw_step exec now cl))"
    using s assms(2) by (simp_all add: withdraw_step_def u cl_sound_def)
qed

text \<open>One signal does at most one of the two route actions.\<close>

lemma processSignal_cases:
  fixes cl :: "'w ControlLoop"
  defines "cl1 \<equiv> \<lambda>now g. cl\<lparr>cl_machine := snd (ProcessSignal now g (cl_machine cl))\<rparr>"
  shows "processSignal exec now g cl =
    (if debounced now (cl_machine cl) \<or> hs_HardFail g \<and> serving (sm_state (apply_signal g (cl_machine cl)))
     then cl1 now g
     else if serving (sm_state (apply_signal g (cl_machine cl))) then announce_step exec now (cl1 now g)
     else withdraw_step exec now (cl1 now g))"
  unfolding cl1_def using ProcessSignal_action [of now g "cl_machine cl"]
  by (auto simp: processSignal_def Let_def split: prod.splits)

lemma cl1_sound:
  "cl_sound enabled cl \<Longrightarrow> cl_sound enabled (cl\<lparr>cl_machine := snd (ProcessSignal now g (cl_machine cl))\<rparr>)"
  by (simp add: cl_sound_def ProcessSignal_inv)

lemma processSignal_sound:
  assumes "bird_obeys exec enabled" "cl_sound enabled cl"
  shows "cl_sound enabled (processSignal exec now g cl)"
    "rm_protocolNames (cl_routes (processSignal exec now g cl)) = rm_protocolNames (cl_routes cl)"
  using announce_step_sound [OF assms(1) cl1_sound] withdraw_step_sound [OF assms(1) cl1_sound]
    cl1_sound assms
  by (auto simp: processSignal_cases)

lemma processSignal_frame [simp]:
  "sm_state (cl_machine (processSignal exec now g cl)) = sm_state (apply_signal g (cl_machine cl))"
  "sm_config (cl_machine (processSignal exec now g cl)) = sm_config (cl_machine cl)"
  by (auto simp: processSignal_cases announce_step_def withdraw_step_def split: prod.splits)

text \<open>
  When the service is down and the debounce is over, a signal leaves no route up: every protocol
  is disabled, or the manager remembers that it still has to withdraw.
\<close>

lemma processSignal_down:
  assumes "bird_obeys exec enabled" "cl_sound enabled cl" "\<not> debounced now (cl_machine cl)"
    and "\<not> serving (sm_state (cl_machine (processSignal exec now g cl)))"
    and "\<not> rm_needsWithdraw (cl_routes (processSignal exec now g cl))"
    and "n \<in> set (rm_protocolNames (cl_routes cl))"
  shows "\<not> enabled (cl_bird (processSignal exec now g cl)) n"
proof -
  let ?cl1 = "cl\<lparr>cl_machine := snd (ProcessSignal now g (cl_machine cl))\<rparr>"
  have p: "processSignal exec now g cl = withdraw_step exec now ?cl1"
    using assms(3) assms(4) [unfolded processSignal_frame] by (simp add: processSignal_cases [of exec now g cl])
  have "cl_sound enabled ?cl1" using assms(2) by (rule cl1_sound)
  from withdraw_step_sound [OF assms(1) this, of now] show ?thesis
    using assms(5,6) by (auto simp: p cl_sound_def rm_sound_def)
qed

lemma run_sound:
  assumes "bird_obeys exec enabled" "cl_sound enabled cl"
  shows "cl_sound enabled (fold (\<lambda>(now, g). processSignal exec now g) gs cl)"
    "rm_protocolNames (cl_routes (fold (\<lambda>(now, g). processSignal exec now g) gs cl)) =
      rm_protocolNames (cl_routes cl)"
proof -
  have "cl_sound enabled (fold (\<lambda>(now, g). processSignal exec now g) gs cl)
      \<and> rm_protocolNames (cl_routes (fold (\<lambda>(now, g). processSignal exec now g) gs cl)) =
        rm_protocolNames (cl_routes cl)"
    using assms(2)
  proof (induction gs arbitrary: cl)
    case (Cons a gs)
    then show ?case using processSignal_sound [OF assms(1) Cons.prems] by (cases a) simp
  qed simp
  then show "cl_sound enabled (fold (\<lambda>(now, g). processSignal exec now g) gs cl)"
    "rm_protocolNames (cl_routes (fold (\<lambda>(now, g). processSignal exec now g) gs cl)) =
      rm_protocolNames (cl_routes cl)" by auto
qed

lemma Run_leaves_no_route:
  assumes "bird_obeys exec enabled" "cl_sound enabled cl" "n \<in> set (rm_protocolNames (cl_routes cl))"
    and "\<not> rm_needsWithdraw (cl_routes (Run exec gs stop cl))"
  shows "\<not> enabled (cl_bird (Run exec gs stop cl)) n"
proof -
  let ?c = "fold (\<lambda>(now, g). processSignal exec now g) gs cl"
  obtain r rm w where u: "WithdrawRoutesChanged exec stop (cl_routes ?c) (cl_bird ?c) = (r, rm, w)"
    by (metis prod_cases3)
  note s = WithdrawRoutesChanged_sound [OF assms(1) _ u] run_sound [OF assms(1,2), of gs]
  then show ?thesis using assms(3,4) u by (auto simp: Run_def shutdown_def rm_sound_def cl_sound_def)
qed

subsubsection \<open>Debounce\<close>

text \<open>
  For the minimum duration after a route change, signals reach neither the routes nor the daemon.
\<close>

lemma processSignal_debounced:
  assumes "debounced now (cl_machine cl)"
  shows "cl_routes (processSignal exec now g cl) = cl_routes cl"
    "cl_bird (processSignal exec now g cl) = cl_bird cl"
    "sm_lastRouteChange (cl_machine (processSignal exec now g cl)) = sm_lastRouteChange (cl_machine cl)"
  using assms by (simp_all add: processSignal_cases)

lemma run_debounced:
  assumes "sm_lastRouteChange (cl_machine cl) = Some t"
    and "list_all (\<lambda>(now, _). now - t < MinStateDuration (sm_config (cl_machine cl))) gs"
  shows "cl_routes (fold (\<lambda>(now, g). processSignal exec now g) gs cl) = cl_routes cl"
    "cl_bird (fold (\<lambda>(now, g). processSignal exec now g) gs cl) = cl_bird cl"
proof -
  have "cl_routes (fold (\<lambda>(now, g). processSignal exec now g) gs cl) = cl_routes cl
      \<and> cl_bird (fold (\<lambda>(now, g). processSignal exec now g) gs cl) = cl_bird cl"
    using assms
  proof (induction gs arbitrary: cl)
    case (Cons a gs)
    obtain now g where a: "a = (now, g)" by fastforce
    have d: "debounced now (cl_machine cl)" using Cons.prems by (simp add: a debounced_def)
    show ?case using Cons.IH [of "processSignal exec now g cl"] Cons.prems
        processSignal_debounced [OF d, of exec g] by (simp add: a)
  qed simp
  then show "cl_routes (fold (\<lambda>(now, g). processSignal exec now g) gs cl) = cl_routes cl"
    "cl_bird (fold (\<lambda>(now, g). processSignal exec now g) gs cl) = cl_bird cl" by auto
qed

text \<open>A successful change by the loop starts the next debounce.\<close>

lemma withdraw_step_marks:
  "WithdrawRoutesChanged exec now (cl_routes cl) (cl_bird cl) = (Inr True, rm, w) \<Longrightarrow>
    sm_lastRouteChange (cl_machine (withdraw_step exec now cl)) = Some now"
  by (simp add: withdraw_step_def mark_if_def MarkRouteChanged_def)

lemma announce_step_marks:
  "AnnounceRoutesChanged exec now (cl_routes cl) (cl_bird cl) = (Inr True, rm, w) \<Longrightarrow>
    sm_lastRouteChange (cl_machine (announce_step exec now cl)) = Some now"
  by (simp add: announce_step_def mark_if_def MarkRouteChanged_def)

subsection \<open>Properties\<close>

text \<open>A daemon that keeps a list of enabled protocols and obeys every command.\<close>

definition toy_bird :: "string list client" where
  "toy_bird cmd w =
     (if HasPrefix cmd ''enable '' then
        (Inr \<lparr>resp_Code = 0, resp_Lines = [], resp_RawText = []\<rparr>, TrimPrefix cmd ''enable '' # w)
      else if HasPrefix cmd ''disable '' then
        (Inr \<lparr>resp_Code = 0, resp_Lines = [], resp_RawText = []\<rparr>, removeAll (TrimPrefix cmd ''disable '') w)
      else
        (Inr \<lparr>resp_Code = 0, resp_Lines = [],
             resp_RawText = (if TrimPrefix cmd ''show protocols '' \<in> set w then ''up'' else ''Disabled'')\<rparr>, w))"

definition listed :: "string list \<Rightarrow> string \<Rightarrow> bool" where
  "listed w n \<longleftrightarrow> n \<in> set w"

lemma toy_bird_obeys: "bird_obeys toy_bird listed"
proof -
  have "protocolEnabledFromShowProtocols ''up''" "\<not> protocolEnabledFromShowProtocols ''Disabled''"
    by code_simp+
  then show ?thesis
    by (auto simp: bird_obeys_def run_cmd_def toy_bird_def listed_def IsError_def HasPrefix_def TrimPrefix_def
        split: if_splits)
qed

definition example_loop :: "string list ControlLoop" where
  "example_loop = \<lparr>cl_machine = example_machine StateHealthy,
     cl_routes = \<lparr>rm_protocolNames = [''p'', ''q''], rm_announced = False, rm_needsWithdraw = True, rm_lastChange = None\<rparr>,
     cl_bird = [''q'']\<rparr>"

lemma example_loop_sound: "cl_sound listed example_loop"
  by (simp add: cl_sound_def rm_sound_def example_loop_def example_machine_inv)

text \<open>
  C26: Through any sequence of signals, with commands failing at any point, the manager's flags stay
  truthful: "announced" means that every configured protocol is enabled, and "nothing to withdraw"
  without it that every one is disabled. So the shortcuts that skip commands are safe.
\<close>

theorem route_flags_truthful:
  assumes "bird_obeys exec enabled" "NewRouteManager names = Inr (cl_routes cl)" "sm_inv (cl_machine cl)"
  shows "rm_sound enabled (cl_routes (fold (\<lambda>(now, g). processSignal exec now g) gs cl))
    (cl_bird (fold (\<lambda>(now, g). processSignal exec now g) gs cl))"
proof -
  have "cl_sound enabled cl" using NewRouteManager_sound [OF assms(2)] assms(3) by (simp add: cl_sound_def)
  from run_sound(1) [OF assms(1) this, of gs] show ?thesis by (simp add: cl_sound_def)
qed

theorem route_flags_truthful_witness:
  "rm_sound listed (cl_routes (processSignal toy_bird 1 (example_signal False) example_loop))
    (cl_bird (processSignal toy_bird 1 (example_signal False) example_loop))"
proof -
  have "NewRouteManager [''p'', ''q''] = Inr (cl_routes example_loop)" by code_simp
  from route_flags_truthful [OF toy_bird_obeys this, of "[(1, example_signal False)]"] show ?thesis
    by (simp add: example_loop_def example_machine_inv)
qed

text \<open>
  C32: When the service is down and the debounce is over, one signal leaves no route up: every
  protocol is disabled, or the manager has recorded that it still has to withdraw.
\<close>

theorem down_means_withdrawn:
  assumes "bird_obeys exec enabled" "cl_sound enabled cl" "\<not> debounced now (cl_machine cl)"
    and "\<not> serving (sm_state (cl_machine (processSignal exec now g cl)))"
    and "n \<in> set (rm_protocolNames (cl_routes cl))"
  shows "\<not> enabled (cl_bird (processSignal exec now g cl)) n
    \<or> rm_needsWithdraw (cl_routes (processSignal exec now g cl))"
  using processSignal_down [OF assms(1-4) _ assms(5)] by blast

theorem down_means_withdrawn_witness:
  "\<not> listed (cl_bird (processSignal toy_bird 1 (example_signal True)
      (example_loop\<lparr>cl_machine := example_machine StateUnhealthy\<rparr>))) ''q''"
proof -
  let ?cl = "example_loop\<lparr>cl_machine := example_machine StateUnhealthy\<rparr>"
  have "cl_sound listed ?cl" using example_loop_sound by (simp add: cl_sound_def example_machine_inv)
  moreover have "\<not> debounced 1 (cl_machine ?cl)" by (simp add: debounced_def example_machine_def)
  moreover have "\<not> serving (sm_state (cl_machine (processSignal toy_bird 1 (example_signal True) ?cl)))"
    "\<not> rm_needsWithdraw (cl_routes (processSignal toy_bird 1 (example_signal True) ?cl))"
    by code_simp+
  moreover have "''q'' \<in> set (rm_protocolNames (cl_routes ?cl))" by (simp add: example_loop_def)
  ultimately show ?thesis using down_means_withdrawn [OF toy_bird_obeys, of ?cl 1 "example_signal True" "''q''"] by blast
qed

text \<open>
  For the minimum duration after a route change no signal changes the routes or sends the daemon
  a command.
\<close>

theorem debounce_holds:
  assumes "sm_lastRouteChange (cl_machine cl) = Some t"
    and "list_all (\<lambda>(now, _). now - t < MinStateDuration (sm_config (cl_machine cl))) gs"
  shows "cl_routes (fold (\<lambda>(now, g). processSignal exec now g) gs cl) = cl_routes cl
    \<and> cl_bird (fold (\<lambda>(now, g). processSignal exec now g) gs cl) = cl_bird cl"
  using run_debounced [OF assms] by blast

theorem debounce_holds_witness:
  "cl_bird (processSignal toy_bird 35 (example_signal True)
     (example_loop\<lparr>cl_machine := MarkRouteChanged 10 (example_machine StateUnhealthy)\<rparr>)) = [''q'']"
  using debounce_holds [of "example_loop\<lparr>cl_machine := MarkRouteChanged 10 (example_machine StateUnhealthy)\<rparr>" 10
      "[(35, example_signal True)]" toy_bird]
  by (simp add: MarkRouteChanged_def example_machine_def example_config_def example_loop_def)

text \<open>
  When the control loop ends, routes are never left announced: unless a withdrawal failed and is
  still recorded as pending, every configured protocol is disabled.
\<close>

theorem shutdown_withdraws:
  assumes "bird_obeys exec enabled" "cl_sound enabled cl" "n \<in> set (rm_protocolNames (cl_routes cl))"
  shows "\<not> enabled (cl_bird (Run exec gs stop cl)) n \<or> rm_needsWithdraw (cl_routes (Run exec gs stop cl))"
  using Run_leaves_no_route [OF assms] by blast

theorem shutdown_withdraws_witness:
  "\<not> listed (cl_bird (Run toy_bird [(1, example_signal False)] 2 example_loop)) ''p''"
proof -
  have "\<not> rm_needsWithdraw (cl_routes (Run toy_bird [(1, example_signal False)] 2 example_loop))" by code_simp
  then show ?thesis
    using shutdown_withdraws [OF toy_bird_obeys example_loop_sound, of "''p''" "[(1, example_signal False)]" 2]
    by (simp add: example_loop_def)
qed

end
