(* ===== verification/Health.thy ===== *)
theory Health
  imports Bird_Machine Go_Conv "HOL-Library.AList"
begin

section \<open>Health checks (internal/agent/health: checker.go, engine.go)\<close>

text \<open>
  The checker runs the DNS probes and combines them; the engine turns a combined status into a
  signal for the state machine. A probe goes through the DNS client library, so its result is a
  parameter, as is the library's \<open>Fqdn\<close>; what the agent decides on the answer (\<open>validateDNSResponse\<close>, the latency
  threshold) is modelled. The texts of errors, which are only logged, are abbreviated. The engine visits a Go map in an unspecified order: the checks are an
  association list in the order of the visit, and a lemma shows that the order cannot change the
  kind of the signal. Engine and machine composed give the number of failing checks after which
  routes are withdrawn.
\<close>

subsection \<open>Data\<close>

datatype CheckType = CheckTypeQuery | CheckTypeFullPath | CheckTypeLatency | CheckTypeSync

record CheckResult =
  ck_Type :: CheckType
  ck_Success :: bool
  ck_Latency :: int
  ck_Error :: "string option"

record HealthStatus =
  st_Healthy :: bool
  st_Checks :: "(CheckType \<times> CheckResult) list"

subsection \<open>Checker\<close>

text \<open>The answer of the DNS library: the code, the AA bit, and the owner and type of each answer.\<close>

record dns_msg =
  m_Rcode :: nat
  m_Authoritative :: bool
  m_Answer :: "(string \<times> nat) list"

datatype response_error = ErrNilResponse | ErrRcode nat | ErrNotAuthoritative | ErrMissingAnswer

definition validateDNSResponse ::
  "(string \<Rightarrow> string) \<Rightarrow> dns_msg option \<Rightarrow> string \<Rightarrow> nat \<Rightarrow> CheckType \<Rightarrow> response_error option" where
  "validateDNSResponse fqdn resp questionName questionType checkType =
     (case resp of None \<Rightarrow> Some ErrNilResponse
      | Some m \<Rightarrow>
        (if m_Rcode m \<noteq> 0 then Some (ErrRcode (m_Rcode m))
         else if checkType = CheckTypeQuery \<and> \<not> m_Authoritative m then Some ErrNotAuthoritative
         else if list_ex (\<lambda>(n, t). fqdn n = questionName \<and> t = questionType) (m_Answer m) then None
         else Some ErrMissingAnswer))"

record Checker =
  c_testZone :: string
  c_testZoneSet :: bool
  c_testRecord :: string
  c_latencyThreshold :: int
  c_checkAuthoritative :: bool
  c_checkResolver :: bool

definition questionName :: "(string \<Rightarrow> string) \<Rightarrow> Checker \<Rightarrow> string" where
  "questionName fqdn c =
     (let record0 = TrimSpace (c_testRecord c);
          record = (if record0 = [] then ''localhost.'' else record0)
      in if record = ''@'' then fqdn (c_testZone c)
         else if HasSuffix record ''.'' then fqdn record
         else let zone = TrimSpace (c_testZone c)
              in if zone = [] \<or> \<not> c_testZoneSet c \<and> Contains record ''.'' then fqdn record
                 else fqdn (record @ ''.'' @ TrimSuffix zone ''.''))"

text \<open>The outcome of one exchange: an error, or the message and the round-trip time.\<close>

type_synonym exchange = "string + dns_msg option \<times> int"

definition TypeA :: nat where "TypeA = 1"

definition checkDNSQuery :: "(string \<Rightarrow> string) \<Rightarrow> Checker \<Rightarrow> exchange \<Rightarrow> int \<Rightarrow> CheckType \<Rightarrow> CheckResult" where
  "checkDNSQuery fqdn c x elapsed checkType =
     (case x of
        Inl e \<Rightarrow> \<lparr>ck_Type = checkType, ck_Success = False, ck_Latency = elapsed, ck_Error = Some e\<rparr>
      | Inr (resp, _) \<Rightarrow>
        (case validateDNSResponse fqdn resp (questionName fqdn c) TypeA checkType of
           Some _ \<Rightarrow> \<lparr>ck_Type = checkType, ck_Success = False, ck_Latency = elapsed,
                      ck_Error = Some ''DNS response''\<rparr>
         | None \<Rightarrow> \<lparr>ck_Type = checkType, ck_Success = True, ck_Latency = elapsed, ck_Error = None\<rparr>))"

definition checkLatency :: "(string \<Rightarrow> string) \<Rightarrow> Checker \<Rightarrow> exchange \<Rightarrow> int \<Rightarrow> CheckResult" where
  "checkLatency fqdn c x elapsed =
     (case x of
        Inl e \<Rightarrow> \<lparr>ck_Type = CheckTypeLatency, ck_Success = False, ck_Latency = elapsed, ck_Error = Some e\<rparr>
      | Inr (resp, rtt) \<Rightarrow>
        (case validateDNSResponse fqdn resp (questionName fqdn c) TypeA CheckTypeLatency of
           Some _ \<Rightarrow> \<lparr>ck_Type = CheckTypeLatency, ck_Success = False, ck_Latency = rtt,
                      ck_Error = Some ''DNS response''\<rparr>
         | None \<Rightarrow>
           (if c_latencyThreshold c < rtt
            then \<lparr>ck_Type = CheckTypeLatency, ck_Success = False, ck_Latency = rtt,
                  ck_Error = Some ''latency exceeds threshold''\<rparr>
            else \<lparr>ck_Type = CheckTypeLatency, ck_Success = True, ck_Latency = rtt, ck_Error = None\<rparr>)))"

text \<open>The probes of one round: the exchange with NSD, the two with Unbound, the additional checks.\<close>

record probes =
  p_nsd :: "exchange \<times> int"
  p_unbound :: "exchange \<times> int"
  p_latency :: "exchange \<times> int"
  p_additional :: "CheckResult list"

fun add_checks :: "CheckResult list \<Rightarrow> bool \<times> (CheckType \<times> CheckResult) list \<Rightarrow> bool \<times> (CheckType \<times> CheckResult) list" where
  "add_checks [] acc = acc"
| "add_checks (r # rs) (healthy, checks) =
     add_checks rs (healthy \<and> ck_Success r, AList.update (ck_Type r) r checks)"

definition CheckAll :: "(string \<Rightarrow> string) \<Rightarrow> Checker \<Rightarrow> probes \<Rightarrow> HealthStatus" where
  "CheckAll fqdn c p =
     (let q = checkDNSQuery fqdn c (fst (p_nsd p)) (snd (p_nsd p)) CheckTypeQuery;
          f = checkDNSQuery fqdn c (fst (p_unbound p)) (snd (p_unbound p)) CheckTypeFullPath;
          l = checkLatency fqdn c (fst (p_latency p)) (snd (p_latency p));
          acc0 = (True, []);
          acc1 = (if c_checkAuthoritative c then (fst acc0 \<and> ck_Success q, AList.update CheckTypeQuery q (snd acc0)) else acc0);
          acc2 = (if c_checkResolver c
                  then (fst acc1 \<and> ck_Success f \<and> ck_Success l,
                        AList.update CheckTypeLatency l (AList.update CheckTypeFullPath f (snd acc1)))
                  else acc1);
          dnsChecksRun = (if c_checkAuthoritative c then 1 else 0) + (if c_checkResolver c then 2 else (0::nat));
          acc3 = add_checks (p_additional p) acc2
      in \<lparr>st_Healthy = (fst acc3 \<and> dnsChecksRun \<noteq> 0), st_Checks = snd acc3\<rparr>)"

subsection \<open>Engine\<close>

record Engine =
  e_failureThreshold :: int
  e_recoveryThreshold :: int
  e_consecutiveFails :: int
  e_consecutiveOKs :: int
  e_lastSignalType :: string

definition NewEngine :: "int \<Rightarrow> int \<Rightarrow> Engine" where
  "NewEngine f r = \<lparr>e_failureThreshold = f, e_recoveryThreshold = r, e_consecutiveFails = 0,
     e_consecutiveOKs = 0, e_lastSignalType = []\<rparr>"

text \<open>The loop over the checks, with its \<open>break\<close>: hard failure, latency issue, reason.\<close>

fun scan_checks :: "(CheckType \<times> CheckResult) list \<Rightarrow> bool \<Rightarrow> bool \<times> bool \<times> string" where
  "scan_checks [] lat = (False, lat, [])"
| "scan_checks ((name, check) # rest) lat =
     (if ck_Success check then scan_checks rest lat
      else if name = CheckTypeLatency then scan_checks rest True
      else (True, lat, case ck_Error check of Some e \<Rightarrow> e | None \<Rightarrow> ''Unknown error''))"

definition classify :: "HealthStatus \<Rightarrow> bool \<times> bool \<times> string" where
  "classify status =
     (let (hardFail, latency, reason) = scan_checks (st_Checks status) False
      in if \<not> st_Healthy status \<and> \<not> hardFail \<and> \<not> latency then (True, latency, ''Health status is unhealthy'')
         else (hardFail, latency, reason))"

text \<open>\<open>Some\<close> signal where \<open>shouldSend\<close> is set.\<close>

definition processHealthStatus :: "go_time \<Rightarrow> HealthStatus \<Rightarrow> Engine \<Rightarrow> HealthSignal option \<times> Engine" where
  "processHealthStatus now status e =
     (let (hasHardFailure, hasLatencyIssue, failureReason) = classify status in
      if hasHardFailure then
        (let e1 = e\<lparr>e_consecutiveFails := e_consecutiveFails e + 1, e_consecutiveOKs := 0\<rparr>
         in if e_failureThreshold e1 \<le> e_consecutiveFails e1
            then (Some \<lparr>hs_HardFail = True, hs_LatencyDegraded = False, hs_Reason = failureReason, hs_ObservedAt = now\<rparr>,
                  e1\<lparr>e_lastSignalType := ''hard_fail''\<rparr>)
            else (None, e1))
      else if hasLatencyIssue then
        (Some \<lparr>hs_HardFail = False, hs_LatencyDegraded = True, hs_Reason = ''Latency threshold exceeded'', hs_ObservedAt = now\<rparr>,
         e\<lparr>e_consecutiveFails := 0, e_consecutiveOKs := 0, e_lastSignalType := ''latency_degraded''\<rparr>)
      else
        (let e1 = e\<lparr>e_consecutiveFails := 0, e_consecutiveOKs := e_consecutiveOKs e + 1\<rparr>
         in if e_recoveryThreshold e1 \<le> e_consecutiveOKs e1
            then (Some \<lparr>hs_HardFail = False, hs_LatencyDegraded = False, hs_Reason = ''All health checks passed'', hs_ObservedAt = now\<rparr>,
                  e1\<lparr>e_lastSignalType := ''healthy''\<rparr>)
            else (None, e1)))"

text \<open>\<open>RunWithStatus\<close>: the signals sent for the statuses received, in order.\<close>

fun RunWithStatus :: "(go_time \<times> HealthStatus) list \<Rightarrow> Engine \<Rightarrow> (go_time \<times> HealthSignal) list \<times> Engine" where
  "RunWithStatus [] e = ([], e)"
| "RunWithStatus ((now, s) # ss) e =
     (let (sig, e1) = processHealthStatus now s e; (sigs, e2) = RunWithStatus ss e1
      in (case sig of None \<Rightarrow> sigs | Some g \<Rightarrow> (now, g) # sigs, e2))"

subsection \<open>Facts\<close>

text \<open>What the checks say, whatever the order in which they are visited.\<close>

definition hard_failing :: "HealthStatus \<Rightarrow> bool" where
  "hard_failing s \<longleftrightarrow> (\<exists>(t, r) \<in> set (st_Checks s). \<not> ck_Success r \<and> t \<noteq> CheckTypeLatency)
     \<or> \<not> st_Healthy s \<and> (\<forall>(t, r) \<in> set (st_Checks s). ck_Success r)"

definition slow :: "HealthStatus \<Rightarrow> bool" where
  "slow s \<longleftrightarrow> \<not> hard_failing s \<and> (\<exists>(t, r) \<in> set (st_Checks s). \<not> ck_Success r)"

lemma scan_checks_hard:
  "fst (scan_checks cs lat) \<longleftrightarrow> (\<exists>(t, r) \<in> set cs. \<not> ck_Success r \<and> t \<noteq> CheckTypeLatency)"
  by (induction cs lat rule: scan_checks.induct) auto

lemma scan_checks_latency:
  "\<not> fst (scan_checks cs lat) \<Longrightarrow>
    fst (snd (scan_checks cs lat)) \<longleftrightarrow> lat \<or> (\<exists>(t, r) \<in> set cs. \<not> ck_Success r)"
  by (induction cs lat rule: scan_checks.induct) (auto split: if_splits)

lemma classify_spec:
  "fst (classify s) \<longleftrightarrow> hard_failing s" "\<not> hard_failing s \<Longrightarrow> fst (snd (classify s)) \<longleftrightarrow> slow s"
proof -
  obtain h l r where s: "scan_checks (st_Checks s) False = (h, l, r)" by (metis prod_cases3)
  have h: "h \<longleftrightarrow> (\<exists>(t, r) \<in> set (st_Checks s). \<not> ck_Success r \<and> t \<noteq> CheckTypeLatency)"
    using scan_checks_hard [of "st_Checks s" False] s by simp
  have l: "\<not> h \<Longrightarrow> l \<longleftrightarrow> (\<exists>(t, r) \<in> set (st_Checks s). \<not> ck_Success r)"
    using scan_checks_latency [of "st_Checks s" False] s by simp
  have "fst (classify s) \<longleftrightarrow> h \<or> \<not> st_Healthy s \<and> \<not> h \<and> \<not> l" by (auto simp: classify_def s)
  then show hf: "fst (classify s) \<longleftrightarrow> hard_failing s" using h l unfolding hard_failing_def by blast
  show "\<not> hard_failing s \<Longrightarrow> fst (snd (classify s)) \<longleftrightarrow> slow s"
    using hf l h unfolding slow_def by (auto simp: classify_def s split: if_splits)
qed

text \<open>The kind of a signal: hard, degraded or success.\<close>

lemma processHealthStatus_spec:
  "processHealthStatus now s e =
    (if hard_failing s then
       (if e_failureThreshold e \<le> e_consecutiveFails e + 1
        then (Some \<lparr>hs_HardFail = True, hs_LatencyDegraded = False, hs_Reason = snd (snd (classify s)), hs_ObservedAt = now\<rparr>,
              e\<lparr>e_consecutiveFails := e_consecutiveFails e + 1, e_consecutiveOKs := 0, e_lastSignalType := ''hard_fail''\<rparr>)
        else (None, e\<lparr>e_consecutiveFails := e_consecutiveFails e + 1, e_consecutiveOKs := 0\<rparr>))
     else if slow s then
       (Some \<lparr>hs_HardFail = False, hs_LatencyDegraded = True, hs_Reason = ''Latency threshold exceeded'', hs_ObservedAt = now\<rparr>,
        e\<lparr>e_consecutiveFails := 0, e_consecutiveOKs := 0, e_lastSignalType := ''latency_degraded''\<rparr>)
     else if e_recoveryThreshold e \<le> e_consecutiveOKs e + 1
     then (Some \<lparr>hs_HardFail = False, hs_LatencyDegraded = False, hs_Reason = ''All health checks passed'', hs_ObservedAt = now\<rparr>,
           e\<lparr>e_consecutiveFails := 0, e_consecutiveOKs := e_consecutiveOKs e + 1, e_lastSignalType := ''healthy''\<rparr>)
     else (None, e\<lparr>e_consecutiveFails := 0, e_consecutiveOKs := e_consecutiveOKs e + 1\<rparr>))"
proof -
  obtain h l r where c: "classify s = (h, l, r)" by (metis prod_cases3)
  have "h = hard_failing s" "\<not> hard_failing s \<Longrightarrow> l = slow s" using classify_spec [of s] c by auto
  then show ?thesis by (simp add: processHealthStatus_def c Let_def)
qed

lemma signal_order_irrelevant:
  assumes "set (st_Checks s) = set (st_Checks s')" "st_Healthy s = st_Healthy s'"
  shows "map_option (\<lambda>g. (hs_HardFail g, hs_LatencyDegraded g)) (fst (processHealthStatus now s e)) =
      map_option (\<lambda>g. (hs_HardFail g, hs_LatencyDegraded g)) (fst (processHealthStatus now s' e))"
    "snd (processHealthStatus now s e) = snd (processHealthStatus now s' e)"
proof -
  have "hard_failing s = hard_failing s'" "slow s = slow s'"
    using assms by (simp_all add: hard_failing_def slow_def)
  then show "map_option (\<lambda>g. (hs_HardFail g, hs_LatencyDegraded g)) (fst (processHealthStatus now s e)) =
      map_option (\<lambda>g. (hs_HardFail g, hs_LatencyDegraded g)) (fst (processHealthStatus now s' e))"
    "snd (processHealthStatus now s e) = snd (processHealthStatus now s' e)"
    by (simp_all add: processHealthStatus_spec)
qed

text \<open>Failing statuses in a row: the engine swallows the first ones and passes on the rest.\<close>

lemma RunWithStatus_failing:
  assumes "list_all (\<lambda>(_, s). hard_failing s) ss" "0 \<le> e_consecutiveFails e"
  shows "list_all (\<lambda>(_, g). hard g) (fst (RunWithStatus ss e))"
    "int (length (fst (RunWithStatus ss e))) =
      int (length ss) - min (int (length ss)) (max 0 (e_failureThreshold e - 1 - e_consecutiveFails e))"
proof -
  have "list_all (\<lambda>(_, g). hard g) (fst (RunWithStatus ss e)) \<and>
    int (length (fst (RunWithStatus ss e))) =
      int (length ss) - min (int (length ss)) (max 0 (e_failureThreshold e - 1 - e_consecutiveFails e))"
    using assms
  proof (induction ss arbitrary: e)
    case (Cons a ss)
    obtain now s where a: "a = (now, s)" by fastforce
    have h: "hard_failing s" using Cons.prems(1) by (simp add: a)
    let ?e1 = "snd (processHealthStatus now s e)"
    have e1: "e_consecutiveFails ?e1 = e_consecutiveFails e + 1" "e_failureThreshold ?e1 = e_failureThreshold e"
      using h by (simp_all add: processHealthStatus_spec)
    have IH: "list_all (\<lambda>(_, g). hard g) (fst (RunWithStatus ss ?e1))"
      "int (length (fst (RunWithStatus ss ?e1))) =
        int (length ss) - min (int (length ss)) (max 0 (e_failureThreshold e - 2 - e_consecutiveFails e))"
      using Cons.IH [of ?e1] Cons.prems e1 by (simp_all add: a algebra_simps)
    show ?case
      using IH h by (auto simp: a processHealthStatus_spec hard_def Let_def split: prod.splits)
  qed simp
  then show "list_all (\<lambda>(_, g). hard g) (fst (RunWithStatus ss e))"
    "int (length (fst (RunWithStatus ss e))) =
      int (length ss) - min (int (length ss)) (max 0 (e_failureThreshold e - 1 - e_consecutiveFails e))"
    by auto
qed

text \<open>
  Engine and machine together, from their start: the service goes down with the failing check
  number \<open>f + F - 1\<close>, for the engine's threshold \<open>f\<close> and the machine's threshold \<open>F\<close>, and not before.
\<close>

lemma checks_until_down:
  assumes "1 \<le> f" "NewStateMachine t0 c = Some sm" "list_all (\<lambda>(_, s). hard_failing s) ss"
  shows "serving (sm_state (run_signals (fst (RunWithStatus ss (NewEngine f r))) sm)) \<longleftrightarrow>
    int (length ss) < f + FailureThreshold c - 1"
proof -
  let ?gs = "fst (RunWithStatus ss (NewEngine f r))"
  have sm: "sm_inv sm" "sm_state sm = StateHealthy" "sm_consecutiveFails sm = 0" "sm_config sm = c"
    using NewStateMachine_inv [OF assms(2)] assms(2) by (auto simp: NewStateMachine_def split: option.splits)
  have c: "1 \<le> FailureThreshold c" using sm by (auto simp: sm_inv_def valid_config)
  have e: "0 \<le> e_consecutiveFails (NewEngine f r)" by (simp add: NewEngine_def)
  have "serving (sm_state (run_signals ?gs sm)) \<longleftrightarrow> int (length ?gs) < FailureThreshold c"
    using failures_in_row(1) [OF sm(1) RunWithStatus_failing(1) [OF assms(3) e]] sm by simp
  moreover have "int (length ?gs) = int (length ss) - min (int (length ss)) (f - 1)"
    using RunWithStatus_failing(2) [OF assms(3) e] assms(1) by (simp add: NewEngine_def)
  ultimately show ?thesis using c by linarith
qed

text \<open>An agent on which no DNS check runs is never healthy, whatever its additional checks say.\<close>

lemma CheckAll_no_dns: "\<not> c_checkAuthoritative c \<Longrightarrow> \<not> c_checkResolver c \<Longrightarrow> \<not> st_Healthy (CheckAll fqdn c p)"
  by (simp add: CheckAll_def Let_def)

lemma add_checks_healthy: "fst (add_checks rs acc) \<longleftrightarrow> fst acc \<and> list_all ck_Success rs"
  by (induction rs acc rule: add_checks.induct) auto

lemma CheckAll_healthy_iff:
  "st_Healthy (CheckAll fqdn c p) \<longleftrightarrow>
    (c_checkAuthoritative c \<or> c_checkResolver c)
    \<and> (c_checkAuthoritative c \<longrightarrow> ck_Success (checkDNSQuery fqdn c (fst (p_nsd p)) (snd (p_nsd p)) CheckTypeQuery))
    \<and> (c_checkResolver c \<longrightarrow>
        ck_Success (checkDNSQuery fqdn c (fst (p_unbound p)) (snd (p_unbound p)) CheckTypeFullPath)
        \<and> ck_Success (checkLatency fqdn c (fst (p_latency p)) (snd (p_latency p))))
    \<and> list_all ck_Success (p_additional p)"
  by (auto simp: CheckAll_def Let_def add_checks_healthy)

subsection \<open>Properties\<close>

text \<open>
  The order in which the checks are visited, which Go leaves open, does not change whether a
  signal is sent, its kind, or the engine's state.
\<close>

theorem visit_order_irrelevant:
  assumes "set (st_Checks s) = set (st_Checks s')" "st_Healthy s = st_Healthy s'"
  shows "map_option (\<lambda>g. (hs_HardFail g, hs_LatencyDegraded g)) (fst (processHealthStatus now s e)) =
      map_option (\<lambda>g. (hs_HardFail g, hs_LatencyDegraded g)) (fst (processHealthStatus now s' e))
    \<and> snd (processHealthStatus now s e) = snd (processHealthStatus now s' e)"
  using signal_order_irrelevant [OF assms] by blast

definition example_check :: "CheckType \<Rightarrow> bool \<Rightarrow> CheckType \<times> CheckResult" where
  "example_check t ok = (t, \<lparr>ck_Type = t, ck_Success = ok, ck_Latency = 1, ck_Error = None\<rparr>)"

definition example_status :: "(CheckType \<times> CheckResult) list \<Rightarrow> HealthStatus" where
  "example_status cs = \<lparr>st_Healthy = False, st_Checks = cs\<rparr>"

theorem visit_order_irrelevant_witness:
  "snd (processHealthStatus 1 (example_status [example_check CheckTypeQuery False, example_check CheckTypeLatency False]) (NewEngine 1 1)) =
   snd (processHealthStatus 1 (example_status [example_check CheckTypeLatency False, example_check CheckTypeQuery False]) (NewEngine 1 1))"
  using visit_order_irrelevant [of
    "example_status [example_check CheckTypeQuery False, example_check CheckTypeLatency False]"
    "example_status [example_check CheckTypeLatency False, example_check CheckTypeQuery False]" 1 "NewEngine 1 1"]
  by (auto simp: example_status_def)

text \<open>
  Engine and state machine together: from the start, the service goes down with hard-failing
  check number \<open>f + F - 1\<close>, for the engine's threshold \<open>f\<close> and the machine's \<open>F\<close>, and not before.
\<close>

theorem failing_checks_until_down:
  assumes "1 \<le> f" "NewStateMachine t0 c = Some sm" "list_all (\<lambda>(_, s). hard_failing s) ss"
  shows "serving (sm_state (run_signals (fst (RunWithStatus ss (NewEngine f r))) sm)) \<longleftrightarrow>
    int (length ss) < f + FailureThreshold c - 1"
  using assms by (rule checks_until_down)

theorem failing_checks_until_down_witness:
  "\<not> serving (sm_state (run_signals (fst (RunWithStatus
      (replicate 3 (1, example_status [example_check CheckTypeQuery False])) (NewEngine 2 1))) (example_machine StateHealthy)))"
proof -
  have "NewStateMachine 0 example_config = Some (example_machine StateHealthy)" by code_simp
  from failing_checks_until_down [OF _ this, of 2 "replicate 3 (1, example_status [example_check CheckTypeQuery False])" 1]
  show ?thesis
    by (simp add: hard_failing_def example_status_def example_check_def example_config_def list_all_iff)
qed

text \<open>
  The agent is healthy exactly when at least one DNS path is checked and every enabled check, the
  additional ones included, succeeds; additional checks alone never make it healthy.
\<close>

theorem healthy_iff:
  "st_Healthy (CheckAll fqdn c p) =
    ((c_checkAuthoritative c \<or> c_checkResolver c)
    \<and> (if c_checkAuthoritative c
       then ck_Success (checkDNSQuery fqdn c (fst (p_nsd p)) (snd (p_nsd p)) CheckTypeQuery) else True)
    \<and> (if c_checkResolver c
       then ck_Success (checkDNSQuery fqdn c (fst (p_unbound p)) (snd (p_unbound p)) CheckTypeFullPath)
         \<and> ck_Success (checkLatency fqdn c (fst (p_latency p)) (snd (p_latency p))) else True)
    \<and> list_all ck_Success (p_additional p))"
  using CheckAll_healthy_iff [of fqdn c p] by auto

end
