(* ===== verification/Resign_Scheduler.thy ===== *)
theory Resign_Scheduler
  imports Zone_Model "HOL-Library.AList"
begin

section \<open>The signature freshness scheduler (pkg/dnssec/scheduler.go)\<close>

text \<open>
  Once per interval the scheduler looks at the earliest expiration of every signed zone, re-signs
  the zones that are due and backs off exponentially, per zone, after failures. Times and durations
  are integers in nanoseconds. The signer is a parameter: \<open>expiration\<close> reads the earliest expiration
  as seconds since the epoch, \<open>resign\<close> signs a zone in the signer's state. \<open>rnd zone n\<close> stands for
  \<open>rand.Int63n(n)\<close>. The lemmas give the delay in closed form, which also shows that the doubling
  cannot overflow, and the zones that a run re-signs.
\<close>

subsection \<open>Definitions\<close>

record SchedulerConfig =
  sc_CheckInterval :: int
  sc_ResignThreshold :: int
  sc_InitialJitter :: int
  sc_FailureBackoffMin :: int
  sc_FailureBackoffMax :: int

definition minute :: int where "minute = 60 * 1000000000"
definition hour :: int where "hour = 60 * minute"

definition DefaultSchedulerConfig :: SchedulerConfig where
  "DefaultSchedulerConfig =
     \<lparr>sc_CheckInterval = 1 * hour, sc_ResignThreshold = 7 * 24 * hour, sc_InitialJitter = 5 * minute,
      sc_FailureBackoffMin = 5 * minute, sc_FailureBackoffMax = 6 * hour\<rparr>"

record backoffState =
  bo_failures :: nat
  bo_nextAllowed :: go_time

type_synonym backoff_map = "(string \<times> backoffState) list"

datatype expiration_error = ErrSignatureExpirationUnavailable | ErrExpirationOther string

text \<open>The doubling loop, with the number of rounds that are left.\<close>

fun backoff_loop :: "int \<Rightarrow> int \<Rightarrow> nat \<Rightarrow> int" where
  "backoff_loop maxDelay delay 0 = delay"
| "backoff_loop maxDelay delay (Suc i) =
     (if maxDelay - delay < delay then maxDelay else backoff_loop maxDelay (delay * 2) i)"

definition failureBackoffDelay :: "int \<Rightarrow> int \<Rightarrow> nat \<Rightarrow> int" where
  "failureBackoffDelay minDelay maxDelay failures =
     (if failures = 0 \<or> minDelay \<le> 0 then 0
      else if maxDelay \<le> 0 then minDelay
      else if maxDelay \<le> minDelay then maxDelay
      else backoff_loop maxDelay minDelay failures)"

definition isBackedOff :: "string \<Rightarrow> go_time \<Rightarrow> backoff_map \<Rightarrow> bool" where
  "isBackedOff zoneName now bo =
     (case map_of bo zoneName of None \<Rightarrow> False | Some state \<Rightarrow> now < bo_nextAllowed state)"

text \<open>The delay with its jitter; durations are non-negative here, so \<open>div\<close> is Go's division.\<close>

definition jittered :: "(int \<Rightarrow> int) \<Rightarrow> int \<Rightarrow> int \<Rightarrow> int" where
  "jittered rnd maxDelay delay =
     (let jitterLimit = delay div 10
      in if 0 < jitterLimit \<and> delay < maxDelay
         then delay + rnd (min jitterLimit (maxDelay - delay)) else delay)"

definition recordFailure ::
  "SchedulerConfig \<Rightarrow> (string \<Rightarrow> int \<Rightarrow> int) \<Rightarrow> string \<Rightarrow> go_time \<Rightarrow> backoff_map \<Rightarrow> backoff_map" where
  "recordFailure config rnd zoneName now bo =
     (let failures = Suc (case map_of bo zoneName of None \<Rightarrow> 0 | Some s \<Rightarrow> bo_failures s);
          delay = failureBackoffDelay (sc_FailureBackoffMin config) (sc_FailureBackoffMax config) failures
      in AList.update zoneName
           \<lparr>bo_failures = failures,
            bo_nextAllowed = now + jittered (rnd zoneName) (sc_FailureBackoffMax config) delay\<rparr> bo)"

definition clearBackoff :: "string \<Rightarrow> backoff_map \<Rightarrow> backoff_map" where
  "clearBackoff zoneName bo = AList.delete zoneName bo"

datatype attempt = Resigned | ResignFailed | Skipped

definition attemptResign ::
  "SchedulerConfig \<Rightarrow> (string \<Rightarrow> int \<Rightarrow> int) \<Rightarrow> (string \<Rightarrow> 's \<Rightarrow> bool \<times> 's) \<Rightarrow> string \<Rightarrow> go_time \<Rightarrow>
   backoff_map \<times> 's \<Rightarrow> attempt \<times> backoff_map \<times> 's" where
  "attemptResign config rnd resign zoneName now st =
     (let (bo, s) = st in
      if isBackedOff zoneName now bo then (Skipped, bo, s)
      else case resign zoneName s of
        (False, s') \<Rightarrow> (ResignFailed, recordFailure config rnd zoneName now bo, s')
      | (True, s') \<Rightarrow> (Resigned, clearBackoff zoneName bo, s'))"

definition dnssec_on :: "Zone \<Rightarrow> bool" where
  "dnssec_on zone \<longleftrightarrow> (case z_DNSSEC zone of None \<Rightarrow> False | Some d \<Rightarrow> d_Enabled d)"

text \<open>\<open>time.Unix(int64(expiration), 0)\<close> in nanoseconds.\<close>

definition expiration_time :: "uint32 \<Rightarrow> go_time" where
  "expiration_time x = uint x * 1000000000"

text \<open>The zone has to be re-signed: its signatures expire soon, or none are known.\<close>

definition due :: "SchedulerConfig \<Rightarrow> (string \<Rightarrow> expiration_error + uint32) \<Rightarrow> go_time \<Rightarrow> Zone \<Rightarrow> bool" where
  "due config expiration now zone \<longleftrightarrow>
     (case expiration (z_Name zone) of
        Inl ErrSignatureExpirationUnavailable \<Rightarrow> True
      | Inl (ErrExpirationOther _) \<Rightarrow> False
      | Inr x \<Rightarrow> expiration_time x - now < sc_ResignThreshold config)"

text \<open>
  What a run keeps: the back-off map and the signer's state, the attempts made (newest first), and
  the earliest expiration seen.
\<close>

record 's run_state =
  rs_backoff :: backoff_map
  rs_signer :: 's
  rs_attempts :: "(string \<times> attempt) list"
  rs_earliest :: "go_time option"

definition attempt_zone ::
  "SchedulerConfig \<Rightarrow> (string \<Rightarrow> int \<Rightarrow> int) \<Rightarrow> (string \<Rightarrow> 's \<Rightarrow> bool \<times> 's) \<Rightarrow> go_time \<Rightarrow> string \<Rightarrow>
   's run_state \<Rightarrow> 's run_state" where
  "attempt_zone config rnd resign now name rs =
     (let (a, bo, s) = attemptResign config rnd resign name now (rs_backoff rs, rs_signer rs)
      in rs\<lparr>rs_backoff := bo, rs_signer := s, rs_attempts := (name, a) # rs_attempts rs\<rparr>)"

definition run_zone ::
  "SchedulerConfig \<Rightarrow> (string \<Rightarrow> expiration_error + uint32) \<Rightarrow> (string \<Rightarrow> int \<Rightarrow> int) \<Rightarrow>
   (string \<Rightarrow> 's \<Rightarrow> bool \<times> 's) \<Rightarrow> go_time \<Rightarrow> Zone \<Rightarrow> 's run_state \<Rightarrow> 's run_state" where
  "run_zone config expiration rnd resign now zone rs =
     (if \<not> dnssec_on zone then rs
      else case expiration (z_Name zone) of
        Inl ErrSignatureExpirationUnavailable \<Rightarrow> attempt_zone config rnd resign now (z_Name zone) rs
      | Inl (ErrExpirationOther _) \<Rightarrow> rs
      | Inr x \<Rightarrow>
        (let t = expiration_time x;
             rs1 = (case rs_earliest rs of
                      None \<Rightarrow> rs\<lparr>rs_earliest := Some t\<rparr>
                    | Some e \<Rightarrow> if t < e then rs\<lparr>rs_earliest := Some t\<rparr> else rs)
         in if t - now < sc_ResignThreshold config
            then attempt_zone config rnd resign now (z_Name zone) rs1 else rs1))"

definition run_cycle ::
  "SchedulerConfig \<Rightarrow> (string \<Rightarrow> expiration_error + uint32) \<Rightarrow> (string \<Rightarrow> int \<Rightarrow> int) \<Rightarrow>
   (string \<Rightarrow> 's \<Rightarrow> bool \<times> 's) \<Rightarrow> go_time \<Rightarrow> Zone list \<Rightarrow> backoff_map \<Rightarrow> 's \<Rightarrow> 's run_state" where
  "run_cycle config expiration rnd resign now zones bo s =
     fold (run_zone config expiration rnd resign now) zones
       \<lparr>rs_backoff = bo, rs_signer = s, rs_attempts = [], rs_earliest = None\<rparr>"

subsection \<open>The delay\<close>

lemma backoff_loop_closed:
  "0 < d \<Longrightarrow> d \<le> m \<Longrightarrow> backoff_loop m d k = min m (d * 2 ^ k)"
proof (induction k arbitrary: d)
  case (Suc k)
  show ?case
  proof (cases "m - d < d")
    case True
    have "d * 2 \<le> d * 2 ^ Suc k" using Suc.prems(1) by simp
    then show ?thesis using True by (simp add: min_def)
  next
    case False
    then have "backoff_loop m (d * 2) k = min m (d * 2 * 2 ^ k)" using Suc.prems by (intro Suc.IH) auto
    then show ?thesis using False by (simp add: mult.assoc)
  qed
qed (simp add: min_def)

lemma failureBackoffDelay_closed:
  assumes "0 < minDelay" "0 < maxDelay" "0 < k"
  shows "failureBackoffDelay minDelay maxDelay k = min maxDelay (minDelay * 2 ^ k)"
proof (cases "maxDelay \<le> minDelay")
  case True
  have "minDelay \<le> minDelay * 2 ^ k" using assms(1) mult_left_mono [of 1 "2 ^ k" minDelay] by simp
  then have "maxDelay \<le> minDelay * 2 ^ k" using True by linarith
  then show ?thesis using True assms by (simp add: failureBackoffDelay_def min_def)
next
  case False
  then show ?thesis using assms by (simp add: failureBackoffDelay_def backoff_loop_closed)
qed

lemma jittered_bounds:
  assumes "\<And>n. 0 < n \<Longrightarrow> 0 \<le> rnd n \<and> rnd n < n" "0 \<le> delay" "delay \<le> maxDelay"
  shows "delay \<le> jittered rnd maxDelay delay" "jittered rnd maxDelay delay \<le> maxDelay"
    "jittered rnd maxDelay delay \<le> delay + delay div 10"
  using assms(1) [of "min (delay div 10) (maxDelay - delay)"] assms(2,3)
  by (auto simp: jittered_def Let_def)

text \<open>After a failure the zone is left alone for the delay, and for no more than the maximum.\<close>

lemma recordFailure_window:
  assumes "\<And>z n. 0 < n \<Longrightarrow> 0 \<le> rnd z n \<and> rnd z n < n"
    and "0 < sc_FailureBackoffMin c" "sc_FailureBackoffMin c \<le> sc_FailureBackoffMax c"
  shows "now \<le> t \<Longrightarrow> t < now + sc_FailureBackoffMin c \<Longrightarrow> isBackedOff z t (recordFailure c rnd z now bo)"
    "now + sc_FailureBackoffMax c \<le> t \<Longrightarrow> \<not> isBackedOff z t (recordFailure c rnd z now bo)"
proof -
  let ?k = "Suc (case map_of bo z of None \<Rightarrow> 0 | Some s \<Rightarrow> bo_failures s)"
  let ?d = "failureBackoffDelay (sc_FailureBackoffMin c) (sc_FailureBackoffMax c) ?k"
  have m: "0 < sc_FailureBackoffMax c" using assms(2,3) by simp
  have d: "?d = min (sc_FailureBackoffMax c) (sc_FailureBackoffMin c * 2 ^ ?k)"
    using failureBackoffDelay_closed [OF assms(2) m, of ?k] by simp
  have "sc_FailureBackoffMin c * 1 \<le> sc_FailureBackoffMin c * 2 ^ ?k"
    using assms(2) by (intro mult_left_mono one_le_power) auto
  then have b: "sc_FailureBackoffMin c \<le> ?d" "?d \<le> sc_FailureBackoffMax c" using d assms(3) by auto
  note j = jittered_bounds [of "rnd z" ?d "sc_FailureBackoffMax c", OF assms(1)]
  have r: "map_of (recordFailure c rnd z now bo) z =
      Some \<lparr>bo_failures = ?k, bo_nextAllowed = now + jittered (rnd z) (sc_FailureBackoffMax c) ?d\<rparr>"
    by (simp add: recordFailure_def Let_def update_conv')
  show "now \<le> t \<Longrightarrow> t < now + sc_FailureBackoffMin c \<Longrightarrow> isBackedOff z t (recordFailure c rnd z now bo)"
    using b j assms(2) by (simp add: isBackedOff_def r)
  show "now + sc_FailureBackoffMax c \<le> t \<Longrightarrow> \<not> isBackedOff z t (recordFailure c rnd z now bo)"
    using b j assms(2) by (simp add: isBackedOff_def r)
qed

subsection \<open>A run\<close>

lemma isBackedOff_other:
  assumes "attemptResign c rnd resign z now (bo, s) = (a, bo', s')" "y \<noteq> z"
  shows "isBackedOff y t bo' = isBackedOff y t bo"
  using assms
  by (auto simp: attemptResign_def recordFailure_def clearBackoff_def isBackedOff_def Let_def
      update_conv' delete_conv' split: if_splits prod.splits bool.splits)

lemma attempt_zone_attempts:
  "map fst (rs_attempts (attempt_zone c rnd resign now z rs)) = z # map fst (rs_attempts rs)"
  by (simp add: attempt_zone_def split: prod.splits)

text \<open>The zones of a run that get an attempt are the signed ones that are due, in order.\<close>

lemma run_zone_attempts:
  "map fst (rs_attempts (run_zone c ex rnd resign now zone rs)) =
    (if dnssec_on zone \<and> due c ex now zone then [z_Name zone] else []) @ map fst (rs_attempts rs)"
  by (auto simp: run_zone_def due_def attempt_zone_attempts Let_def
      split: sum.splits expiration_error.splits option.splits)

lemma run_attempts:
  "map fst (rs_attempts (fold (run_zone c ex rnd resign now) zones rs)) =
    rev (map z_Name (filter (\<lambda>z. dnssec_on z \<and> due c ex now z) zones)) @ map fst (rs_attempts rs)"
  by (induction zones arbitrary: rs) (simp_all add: run_zone_attempts)

lemma run_zone_backoff_other:
  "y \<noteq> z_Name zone \<Longrightarrow>
    isBackedOff y t (rs_backoff (run_zone c ex rnd resign now zone rs)) = isBackedOff y t (rs_backoff rs)"
  by (auto simp: run_zone_def attempt_zone_def Let_def isBackedOff_other
      split: sum.splits expiration_error.splits option.splits prod.splits)

lemma run_backoff_other:
  "y \<notin> z_Name ` set zones \<Longrightarrow>
    isBackedOff y t (rs_backoff (fold (run_zone c ex rnd resign now) zones rs)) = isBackedOff y t (rs_backoff rs)"
  by (induction zones arbitrary: rs) (simp_all add: run_zone_backoff_other)

lemma run_zone_skips:
  "(y, Skipped) \<in> set (rs_attempts (run_zone c ex rnd resign now zone rs)) \<longleftrightarrow>
    (y, Skipped) \<in> set (rs_attempts rs)
    \<or> y = z_Name zone \<and> dnssec_on zone \<and> due c ex now zone \<and> isBackedOff y now (rs_backoff rs)"
  by (auto simp: run_zone_def attempt_zone_def due_def attemptResign_def Let_def
      split: sum.splits expiration_error.splits option.splits prod.splits if_splits bool.splits)

text \<open>A zone is skipped exactly when it is due but backed off before the run.\<close>

lemma run_skips:
  assumes "distinct (map z_Name zones)"
  shows "(y, Skipped) \<in> set (rs_attempts (fold (run_zone c ex rnd resign now) zones rs)) \<longleftrightarrow>
    (y, Skipped) \<in> set (rs_attempts rs)
    \<or> (\<exists>z \<in> set zones. y = z_Name z \<and> dnssec_on z \<and> due c ex now z \<and> isBackedOff y now (rs_backoff rs))"
  using assms
proof (induction zones arbitrary: rs)
  case (Cons z zs)
  have "isBackedOff y now (rs_backoff (run_zone c ex rnd resign now z rs)) = isBackedOff y now (rs_backoff rs)"
    if "y \<in> z_Name ` set zs"
  proof -
    have "z_Name z \<notin> z_Name ` set zs" using Cons.prems by simp
    with that have "y \<noteq> z_Name z" by metis
    then show ?thesis by (rule run_zone_backoff_other)
  qed
  then show ?case using Cons by (auto simp: run_zone_skips)
qed simp

subsection \<open>Properties\<close>

text \<open>
  The back-off after \<open>k\<close> failures is the minimum delay doubled \<open>k\<close> times, capped at the maximum.
  The loop never computes a delay above the maximum, so the doubling does not overflow.
\<close>

theorem backoff_closed_form:
  assumes "0 < minDelay" "0 < maxDelay" "0 < k"
  shows "failureBackoffDelay minDelay maxDelay k = min maxDelay (minDelay * 2 ^ k)"
  using assms by (rule failureBackoffDelay_closed)

theorem backoff_closed_form_witness: "failureBackoffDelay 5 60 3 = 40"
  using backoff_closed_form [of 5 60 3] by simp

text \<open>
  After a failed re-signing the zone is left alone for at least the minimum delay and is tried
  again at the latest after the maximum delay, whatever the random jitter.
\<close>

theorem backoff_window:
  assumes "\<forall>z n. 0 < n \<longrightarrow> 0 \<le> rnd z n \<and> rnd z n < n"
    and "0 < sc_FailureBackoffMin c" "sc_FailureBackoffMin c \<le> sc_FailureBackoffMax c" "now \<le> t"
  shows "(t < now + sc_FailureBackoffMin c \<longrightarrow> isBackedOff z t (recordFailure c rnd z now bo))
    \<and> (now + sc_FailureBackoffMax c \<le> t \<longrightarrow> \<not> isBackedOff z t (recordFailure c rnd z now bo))"
  using recordFailure_window [of rnd c now t z bo] assms by blast

theorem backoff_window_witness:
  "isBackedOff ''ex.'' 100 (recordFailure DefaultSchedulerConfig (\<lambda>_ n. n - 1) ''ex.'' 99 [])"
  using backoff_window [of "\<lambda>_ n. n - 1" DefaultSchedulerConfig 99 100 "''ex.''" "[]"]
  by (simp add: DefaultSchedulerConfig_def minute_def hour_def)

text \<open>
  One run attempts, in order, exactly the zones with DNSSEC enabled whose signatures expire within
  the threshold or are unknown, a failing zone not stopping the others; of these it skips exactly
  those that were backed off when the run began.
\<close>

theorem run_resigns_due_zones:
  assumes "distinct (map z_Name zones)"
  shows "rev (map fst (rs_attempts (run_cycle c ex rnd resign now zones bo s))) =
      map z_Name (filter (\<lambda>z. dnssec_on z \<and> due c ex now z) zones)
    \<and> ((y, Skipped) \<in> set (rs_attempts (run_cycle c ex rnd resign now zones bo s)) \<longleftrightarrow>
        y \<in> z_Name ` set (filter (\<lambda>z. dnssec_on z \<and> due c ex now z) zones) \<and> isBackedOff y now bo)"
  using run_skips [OF assms, of y c ex rnd resign now
      "\<lparr>rs_backoff = bo, rs_signer = s, rs_attempts = [], rs_earliest = None\<rparr>"]
  by (auto simp: run_cycle_def run_attempts)

definition example_signed_zone :: Zone where
  "example_signed_zone =
     \<lparr>z_Name = ''ex.'', z_Version = [], z_SOA = DefaultSOA [] [], z_Records = [],
      z_DNSSEC = Some \<lparr>d_Enabled = True, d_Algorithm = 13, d_KSKKeyTag = 1, d_ZSKKeyTag = 2, d_NSEC3Enabled = False,
        d_NSEC3Iterations = 0, d_NSEC3Salt = [], d_SignatureExpiration = None\<rparr>,
      z_CreatedAt = 0, z_UpdatedAt = 0\<rparr>"

lemma example_signed_zone_due: "due DefaultSchedulerConfig (\<lambda>_. Inr 5) 0 example_signed_zone" "dnssec_on example_signed_zone"
  by (simp_all add: due_def dnssec_on_def expiration_time_def DefaultSchedulerConfig_def hour_def minute_def
      example_signed_zone_def)

theorem run_resigns_due_zones_witness:
  "rev (map fst (rs_attempts (run_cycle DefaultSchedulerConfig (\<lambda>_. Inr 5) (\<lambda>_ n. 0) (\<lambda>_ s. (False, s)) 0
     [example_signed_zone] [] ()))) = [''ex.'']"
  using run_resigns_due_zones [of "[example_signed_zone]" DefaultSchedulerConfig "\<lambda>_. Inr 5" "\<lambda>_ n. 0"
      "\<lambda>_ s. (False, s)" 0 "[]" "()"] example_signed_zone_due
  by (simp add: example_signed_zone_def)

end
