(* ===== verification/Artifact_Cache.thy ===== *)
theory Artifact_Cache
  imports File_Manager
begin

section \<open>The cache of signed zone files (internal/controller/service/signer.go)\<close>

text \<open>
  The files of the signing service: one directory per zone below the artifact directory, with one file per version of
  the zone. A state of type \<open>fs\<close> is the directory of one zone, in which any system call may fail. The artifact
  directory itself exists and is a directory; each check of it is a system call that may fail. The laws say what each
  operation does to the files that end in \<open>.zone.signed\<close>, whatever fails.
\<close>

subsection \<open>Definitions\<close>

definition maxArtifactVersionFilenameLength :: nat where "maxArtifactVersionFilenameLength = 200"

definition maxSignedArtifactFileSize :: int where "maxSignedArtifactFileSize = 64 * 1024 * 1024"

definition version_char :: "char \<Rightarrow> bool" where
  "version_char c \<longleftrightarrow> is_alnum c \<or> c = CHR ''-'' \<or> c = CHR ''_'' \<or> c = CHR ''.''"

text \<open>The loop over the runes: each rune that is not allowed becomes one underscore.\<close>

function replace_version_runes :: "string \<Rightarrow> string" where
  "replace_version_runes s =
     (if s = [] then []
      else (if version_char (hd s) then hd s else CHR ''_'') # replace_version_runes (drop (snd (decode_rune s)) s))"
  by pat_completeness auto
termination
  by (relation "measure length") (use decode_rune_width_pos in auto)

declare replace_version_runes.simps [simp del]

definition Trim_dots :: "string \<Rightarrow> string" where
  "Trim_dots s = TrimRight_dots (dropWhile (\<lambda>c. c = CHR ''.'') s)"

definition safeArtifactVersionFilename :: "string \<Rightarrow> string" where
  "safeArtifactVersionFilename version =
     (let v = TrimSpace version in
      if v = [] then ''unknown''
      else let safe0 = Trim_dots (replace_dotdot (replace_version_runes v));
               safe = (if safe0 = [] then ''unknown'' else safe0)
           in take maxArtifactVersionFilenameLength safe)"

text \<open>The name of an artifact within the directory of its zone, and the name of that directory.\<close>

definition artifact_file :: "string \<Rightarrow> string" where
  "artifact_file version = safeArtifactVersionFilename version @ ''.zone.signed''"

definition artifactZoneDir :: "(string \<Rightarrow> string) \<Rightarrow> string \<Rightarrow> string" where
  "artifactZoneDir sha256hex zoneName = SafeZoneFilename sha256hex zoneName"

definition validateExistingArtifactDirectory :: "unit io" where
  "validateExistingArtifactDirectory = bindIO syscall (\<lambda>_ s.
     case fs_dir s of DirMissing \<Rightarrow> (Inl NotExist, s) | DirPresent \<Rightarrow> (Inr (), s) | _ \<Rightarrow> (Inl NotDirectory, s))"

definition cache_directory_check :: "unit io" where
  "cache_directory_check = wrap ''stat artifact cache directory'' syscall"

definition validateArtifactZoneDirectoryIfExists :: "unit io" where
  "validateArtifactZoneDirectoryIfExists = bindIO cache_directory_check (\<lambda>_.
     bindIO (attempt validateExistingArtifactDirectory) (\<lambda>r.
     case r of Inr _ \<Rightarrow> ret () | Inl e \<Rightarrow> if e = NotExist then ret () else throw (Wrapped ''stat artifact zone directory'' e)))"

definition make_artifact_directory :: "bool \<Rightarrow> unit io" where
  "make_artifact_directory existed =
     bindIO (wrap ''mkdir artifact zone directory'' os_MkdirAll) (\<lambda>_.
     bindIO (wrap ''stat artifact zone directory'' validateExistingArtifactDirectory) (\<lambda>_.
     if existed then ret () else wrap ''sync artifact zone directory parent'' syncDir))"

definition ensureArtifactDirectory :: "unit io" where
  "ensureArtifactDirectory = bindIO (attempt validateExistingArtifactDirectory) (\<lambda>r.
     case r of
       Inl e \<Rightarrow> if e \<noteq> NotExist then throw (Wrapped ''stat artifact zone directory'' e) else make_artifact_directory False
     | Inr _ \<Rightarrow> make_artifact_directory True)"

definition ensureArtifactZoneDirectory :: "unit io" where
  "ensureArtifactZoneDirectory =
     bindIO cache_directory_check (\<lambda>_. bindIO (wrap ''mkdir artifact cache directory'' syscall) (\<lambda>_.
     bindIO cache_directory_check (\<lambda>_. ensureArtifactDirectory)))"

text \<open>
  The temporary file is written by the same calls as \<open>writeTempFileSync\<close> of the file manager: create, change the
  mode, write, sync, close, and removal when one of them fails. One message stands for the messages of these five errors.
\<close>

definition storeArtifact :: "string \<Rightarrow> string \<Rightarrow> unit io" where
  "storeArtifact version contents =
     bindIO ensureArtifactZoneDirectory (\<lambda>_.
     bindIO (wrap ''write temp artifact'' (writeTempFileSync (''.'' @ artifact_file version @ ''.'') ''.tmp'' contents 420)) (\<lambda>tmp.
     bindIO (attempt (os_Rename tmp (artifact_file version))) (\<lambda>r.
     case r of
       Inl e \<Rightarrow> bindIO (ignore (os_Remove tmp)) (\<lambda>_. throw (Wrapped ''rename artifact'' e))
     | Inr _ \<Rightarrow> wrap ''sync artifact dir'' syncDir)))"

text \<open>Nothing replaces a file between the checks of its name and of the opened file, so the second checks are calls that may fail.\<close>

definition readRegularArtifactFile :: "string \<Rightarrow> string io" where
  "readRegularArtifactFile name = bindIO (os_Lstat name) (\<lambda>nd.
     case nd of
       Special _ \<Rightarrow> throw NotRegular
     | Regular data perm _ \<Rightarrow>
         if maxSignedArtifactFileSize < int (length data) then throw TooLarge
         else bindIO syscall (\<lambda>_. bindIO syscall (\<lambda>_. bindIO syscall (\<lambda>_. ret data))))"

definition loadArtifact :: "string \<Rightarrow> string io" where
  "loadArtifact version = bindIO validateArtifactZoneDirectoryIfExists (\<lambda>_. readRegularArtifactFile (artifact_file version))"

definition removeSignedZoneArtifact :: "string \<Rightarrow> unit io" where
  "removeSignedZoneArtifact version = bindIO validateArtifactZoneDirectoryIfExists (\<lambda>_.
     bindIO (attempt (os_Remove (artifact_file version))) (\<lambda>r.
     case r of Inr _ \<Rightarrow> ret () | Inl e \<Rightarrow> if e = NotExist then ret () else throw e))"

text \<open>\<open>os.RemoveAll\<close>: a failure may leave part of the entries behind.\<close>

fun remove_entries :: "string list \<Rightarrow> unit io" where
  "remove_entries [] = ret ()"
| "remove_entries (n # ns) = bindIO (os_Remove n) (\<lambda>_. remove_entries ns)"

definition os_RemoveAll :: "unit io" where
  "os_RemoveAll s = bindIO (remove_entries (map fst (fs_files s))) (\<lambda>_. bindIO syscall (\<lambda>_ s'.
     (Inr (), s'\<lparr>fs_dir := DirMissing\<rparr>))) s"

definition removeZoneArtifacts :: "unit io" where
  "removeZoneArtifacts = bindIO validateArtifactZoneDirectoryIfExists (\<lambda>_. wrap ''remove artifact directory'' os_RemoveAll)"

text \<open>The artifacts of the directory, oldest first; \<open>os.ReadDir\<close> gives the names in order, and each is examined once.\<close>

definition is_artifact :: "string \<Rightarrow> bool" where
  "is_artifact n \<longleftrightarrow> HasSuffix n ''.zone.signed''"

definition os_ReadDir :: "string list io" where
  "os_ReadDir = bindIO syscall (\<lambda>_ s. (if fs_dir s = DirMissing then Inl NotExist else Inr (sort (map fst (fs_files s))), s))"

definition older :: "fs \<Rightarrow> string \<Rightarrow> string \<Rightarrow> bool" where
  "older s m n \<longleftrightarrow> (if mtime_of s m = mtime_of s n then m < n else mtime_of s m < mtime_of s n)"

fun sort_older :: "fs \<Rightarrow> string list \<Rightarrow> string list" where
  "sort_older s [] = []"
| "sort_older s (n # ns) = (let ms = sort_older s ns in takeWhile (\<lambda>m. older s m n) ms @ n # dropWhile (\<lambda>m. older s m n) ms)"

fun prune_loop :: "string list \<Rightarrow> unit io" where
  "prune_loop [] = ret ()"
| "prune_loop (n # ns) = bindIO (attempt (os_Remove n)) (\<lambda>r.
     case r of Inl e \<Rightarrow> if e = NotExist then prune_loop ns else throw (Wrapped ''remove artifact'' e) | Inr _ \<Rightarrow> prune_loop ns)"

text \<open>An entry that is neither a regular file nor a symbolic link counts as a directory.\<close>

definition kept_kind :: "fs \<Rightarrow> string \<Rightarrow> bool" where
  "kept_kind s n \<longleftrightarrow> is_artifact n \<and> map_of (fs_files s) n \<noteq> Some (Special False)"

definition to_prune :: "int \<Rightarrow> fs \<Rightarrow> string list" where
  "to_prune maxArtifacts s =
     (let artifacts = filter (kept_kind s) (sort (map fst (fs_files s)))
      in take (length artifacts - nat maxArtifacts) (sort_older s artifacts))"

definition pruneArtifacts :: "int \<Rightarrow> unit io" where
  "pruneArtifacts maxArtifacts =
     (if maxArtifacts \<le> 0 then ret ()
      else bindIO validateArtifactZoneDirectoryIfExists (\<lambda>_.
        bindIO (attempt os_ReadDir) (\<lambda>r.
        case r of
          Inl e \<Rightarrow> if e = NotExist then ret () else throw (Wrapped ''read artifact dir'' e)
        | Inr entries \<Rightarrow> (\<lambda>s.
            bindIO (wrap ''stat artifact'' (each (\<lambda>_. syscall) (filter (kept_kind s) entries))) (\<lambda>_.
              prune_loop (to_prune maxArtifacts s)) s))))"

subsection \<open>The files that an operation can change\<close>

text \<open>\<open>arts s\<close> are the artifacts of a directory; everything else is scratch space.\<close>

definition art_map :: "(string \<times> node) list \<Rightarrow> string \<Rightarrow> node option" where
  "art_map files n = (if is_artifact n then map_of files n else None)"

abbreviation arts :: "fs \<Rightarrow> string \<Rightarrow> node option" where
  "arts s \<equiv> art_map (fs_files s)"

lemma art_map_update [simp]: "art_map (AList.update n nd files) = (if is_artifact n then (art_map files)(n \<mapsto> nd) else art_map files)"
  by (auto simp: art_map_def fun_eq_iff AList.update_conv')

lemma art_map_delete [simp]: "art_map (AList.delete n files) = (art_map files)(n := None)"
  by (auto simp: art_map_def fun_eq_iff AList.delete_conv')

lemma art_map_scratch: "\<not> is_artifact n \<Longrightarrow> art_map files n = None"
  by (simp add: art_map_def)

lemma artifact_file_artifact [simp]: "is_artifact (artifact_file v)"
  by (simp add: is_artifact_def artifact_file_def)

end
