(* ===== verification/Artifact_Laws.thy ===== *)
theory Artifact_Laws
  imports Artifact_Cache File_Facts "HOL-Library.Multiset"
begin

section \<open>The cache of signed zone files under every pattern of failures\<close>

text \<open>
  Triples for the operations of \<open>Artifact_Cache\<close>: what each does to the artifacts of a zone when it returns, and when it
  fails. Storing adds one artifact and changes no other; loading returns exactly what was stored; removing takes
  away one; pruning takes away some, but never the newest.
\<close>

subsection \<open>What the operations do to the artifacts\<close>

text \<open>
  \<open>cache m s\<close>: the artifacts of the directory are \<open>m\<close>, and all of them are older than the clock. Files of other names are
  scratch space.
\<close>

definition age :: "node option \<Rightarrow> int" where
  "age n = (case n of Some (Regular _ _ t) \<Rightarrow> t | _ \<Rightarrow> 0)"

definition cache :: "(string \<Rightarrow> node option) \<Rightarrow> fs \<Rightarrow> bool" where
  "cache m s \<longleftrightarrow> arts s = m \<and> 0 < fs_clock s \<and> (\<forall>n. age (m n) < fs_clock s) \<and> distinct (map fst (fs_files s))"

abbreviation steady :: "(string \<Rightarrow> node option) \<Rightarrow> 'a io \<Rightarrow> bool" where
  "steady m a \<equiv> ensures (cache m) a (\<lambda>_. cache m) (\<lambda>_. cache m)"

named_theorems steadies "computations that leave the artifacts alone"

lemma age_simps [simp]: "age None = 0" "age (Some (Regular d p t)) = t"
  by (simp_all add: age_def)

lemma cache_frame [simp]:
  "cache m (s\<lparr>fs_faults := bs\<rparr>) = cache m s" "cache m (s\<lparr>fs_rand := rs\<rparr>) = cache m s" "cache m (s\<lparr>fs_dir := d\<rparr>) = cache m s"
  by (simp_all add: cache_def)

lemma steady_syscall [steadies]: "steady m syscall"
  by (rule ensures_syscall) simp

lemma steady_intros [steadies]:
  "steady m (ret x)" "steady m (throw e)"
  "steady m a \<Longrightarrow> (\<And>x. steady m (f x)) \<Longrightarrow> steady m (bindIO a f)"
  "steady m a \<Longrightarrow> steady m (attempt a)" "steady m a \<Longrightarrow> steady m (ignore a)" "steady m a \<Longrightarrow> steady m (wrap msg a)"
  by (auto intro!: ensures_ret ensures_throw ensures_attempt ensures_wrap ensures_ignore intro: ensures_bind)

lemma steady_cases [steadies]:
  "(\<And>e. steady m (f e)) \<Longrightarrow> (\<And>x. steady m (g x)) \<Longrightarrow> steady m (case r of Inl e \<Rightarrow> f e | Inr x \<Rightarrow> g x)"
  "steady m a \<Longrightarrow> steady m b \<Longrightarrow> steady m (if c then a else b)"
  by (auto split: sum.split)

lemma steady_each [steadies]: "(\<And>x. steady m (f x)) \<Longrightarrow> steady m (each f xs)"
  by (induction xs) (auto intro!: steadies)

lemma cache_call:
  "ensures (cache m) (f ()) Q E \<Longrightarrow> (\<And>e s. cache m s \<Longrightarrow> E e s) \<Longrightarrow> ensures (cache m) (bindIO syscall f) Q E"
  by (rule ensures_seq [OF steady_syscall]) auto

lemma steady_dirs [steadies]:
  "steady m validateExistingArtifactDirectory" "steady m os_MkdirAll" "steady m (os_Lstat n)" "steady m os_ReadDir"
  unfolding validateExistingArtifactDirectory_def os_MkdirAll_def os_Lstat_def os_ReadDir_def
  by (rule cache_call, simp add: ensures_def split: dir_state.split option.split, simp)+

lemma steady_checks [steadies]:
  "steady m cache_directory_check" "steady m validateArtifactZoneDirectoryIfExists" "steady m ensureArtifactZoneDirectory" "steady m syncDir"
  unfolding cache_directory_check_def validateArtifactZoneDirectoryIfExists_def ensureArtifactZoneDirectory_def ensureArtifactDirectory_def
    make_artifact_directory_def syncDir_def
  by (intro steadies)+

subsection \<open>Writing the temporary file\<close>

lemma temp_not_artifact: "\<not> is_artifact (p @ ''.tmp'')"
  using HasSuffix_iff [of "p @ ''.tmp''" "''.zone.signed''"] by (auto simp: is_artifact_def)

text \<open>The scratch file \<open>t\<close> has a given content, and it is newer than every artifact; once \<open>written\<close>, it is older than the clock.\<close>

definition with_temp :: "(string \<Rightarrow> node option) \<Rightarrow> bool \<Rightarrow> string \<Rightarrow> string \<Rightarrow> nat \<Rightarrow> fs \<Rightarrow> bool" where
  "with_temp m written t d p s \<longleftrightarrow> cache m s \<and> \<not> is_artifact t \<and>
     (\<exists>ti. map_of (fs_files s) t = Some (Regular d p ti) \<and> (\<forall>n. age (m n) < ti) \<and> (written \<longrightarrow> ti < fs_clock s))"

lemma cache_scratch:
  "cache m s \<Longrightarrow> \<not> is_artifact t \<Longrightarrow> fs_clock s \<le> c \<Longrightarrow> cache m (s\<lparr>fs_files := AList.update t nd (fs_files s), fs_clock := c\<rparr>)"
  by (auto simp: cache_def distinct_update intro: order_less_le_trans)

lemma with_temp_calls:
  "ensures (with_temp m w t d p) syscall (\<lambda>_. with_temp m w t d p) (\<lambda>_. with_temp m w t d p)"
  "ensures (with_temp m w t d p) (file_Chmod t q) (\<lambda>_. with_temp m w t d q) (\<lambda>_. with_temp m w t d p)"
  "ensures (with_temp m w t d p) (file_Write t x) (\<lambda>_. with_temp m True t (d @ x) p) (\<lambda>_. with_temp m w t d p)"
proof -
  show call: "ensures (with_temp m w t d p) syscall (\<lambda>_. with_temp m w t d p) (\<lambda>_. with_temp m w t d p)"
    by (rule ensures_syscall) (simp add: with_temp_def)
  show "ensures (with_temp m w t d p) (file_Chmod t q) (\<lambda>_. with_temp m w t d q) (\<lambda>_. with_temp m w t d p)"
    unfolding file_Chmod_def
    by (intro ensures_seq [OF call]) (auto simp: ensures_def with_temp_def cache_def AList.update_conv' distinct_update)
  show "ensures (with_temp m w t d p) (file_Write t x) (\<lambda>_. with_temp m True t (d @ x) p) (\<lambda>_. with_temp m w t d p)"
    unfolding file_Write_def
    by (intro ensures_seq [OF call]) (auto simp: ensures_def with_temp_def AList.update_conv' cache_scratch, auto simp: cache_def)
qed

lemma temp_created:
  "ensures (cache m) (os_CreateTemp pre ''.tmp'') (\<lambda>t. with_temp m False t [] 384) (\<lambda>_. cache m)"
proof -
  have "\<not> is_artifact t" if "temp_name taken pre ''.tmp'' rs = Some (t, rs')" for taken rs t rs'
    using temp_name_Some [OF that] temp_not_artifact [of "pre @ dec_string _"] by auto
  then show ?thesis unfolding os_CreateTemp_def
    by (intro cache_call) (auto simp: ensures_def with_temp_def cache_def AList.update_conv' distinct_update split: option.splits)
qed

lemma remove_scratch: "\<not> is_artifact t \<Longrightarrow> steady m (os_Remove t)"
  unfolding os_Remove_def
  by (intro cache_call) (auto simp: ensures_def cache_def art_map_scratch fun_upd_idem distinct_delete split: option.split)

lemma temp_dropped:
  "ensures (\<lambda>s. \<exists>b d p. with_temp m b t d p s) (bindIO (ignore (os_Remove t)) (\<lambda>_. throw e)) Q (\<lambda>_. cache m)"
proof (cases "is_artifact t")
  case True
  then show ?thesis by (simp add: ensures_def with_temp_def)
next
  case False
  from steady_intros(5) [OF remove_scratch [OF this]] show ?thesis
    by (rule ensures_bind [OF ensures_pre]) (auto simp: with_temp_def intro: ensures_throw)
qed

lemma temp_written:
  "ensures (cache m) (writeTempFileSync pre ''.tmp'' d p) (\<lambda>t. with_temp m True t d p) (\<lambda>_. cache m)"
  unfolding writeTempFileSync_def
proof (rule ensures_bind [OF temp_created])
  fix t
  let ?bad = "\<lambda>s. \<exists>b d p. with_temp m b t d p s"
  have fill: "ensures (with_temp m False t [] 384)
      (bindIO (file_Chmod t p) (\<lambda>_. bindIO (file_Write t d) (\<lambda>_. bindIO syscall (\<lambda>_. syscall)))) (\<lambda>_. with_temp m True t d p) (\<lambda>_. ?bad)"
    using with_temp_calls(3) [of m False t "[]" p d]
    by (intro ensures_seq [OF with_temp_calls(2)] ensures_seq [OF with_temp_calls(3)] ensures_seq [OF with_temp_calls(1)]
        ensures_conseq [OF with_temp_calls(1)]) auto
  show "ensures (with_temp m False t [] 384)
     (bindIO (attempt (bindIO (file_Chmod t p) (\<lambda>_. bindIO (file_Write t d) (\<lambda>_. bindIO syscall (\<lambda>_. syscall)))))
       (\<lambda>r. case r of Inr _ \<Rightarrow> ret t | Inl e \<Rightarrow> bindIO (ignore (os_Remove t)) (\<lambda>_. throw e)))
     (\<lambda>t. with_temp m True t d p) (\<lambda>_. cache m)"
    by (intro ensures_handle [OF fill] ensures_ret temp_dropped)
qed

subsection \<open>The operations\<close>

text \<open>\<open>added m f d s\<close>: the artifact \<open>f\<close> with the content \<open>d\<close> is there, it is the newest, and the others are those of \<open>m\<close>.\<close>

definition added :: "(string \<Rightarrow> node option) \<Rightarrow> string \<Rightarrow> string \<Rightarrow> fs \<Rightarrow> bool" where
  "added m f d s \<longleftrightarrow> (\<exists>ti. cache (m(f \<mapsto> Regular d 420 ti)) s \<and> (\<forall>n. age (m n) < ti))"

lemma renamed_temp:
  assumes "is_artifact f"
  shows "ensures (with_temp m True t d 420) (os_Rename t f) (\<lambda>_. added m f d) (\<lambda>_. with_temp m True t d 420)"
  unfolding os_Rename_def
proof (rule ensures_seq [OF with_temp_calls(1)])
  have "(arts s)(t := None, f \<mapsto> nd) = (arts s)(f \<mapsto> nd)" if "\<not> is_artifact t" for s nd
    using that by (simp add: art_map_scratch fun_upd_idem)
  then show "ensures (with_temp m True t d 420) (\<lambda>s. case map_of (fs_files s) t of None \<Rightarrow> (Inl NotExist, s)
      | Some nd \<Rightarrow> (Inr (), s\<lparr>fs_files := AList.update f nd (AList.delete t (fs_files s))\<rparr>)) (\<lambda>_. added m f d) (\<lambda>_. with_temp m True t d 420)"
    using assms by (auto simp: ensures_def with_temp_def added_def cache_def distinct_update distinct_delete intro!: exI)
qed

lemma store_triple:
  "ensures (cache m) (storeArtifact v c) (\<lambda>_. added m (artifact_file v) c)
     (\<lambda>_ s. cache m s \<or> added m (artifact_file v) c s)"
proof -
  let ?new = "added m (artifact_file v) c"
  let ?any = "\<lambda>_ s. cache m s \<or> ?new s"
  have sync: "ensures ?new (wrap msg syncDir) (\<lambda>_. ?new) ?any" for msg
  proof -
    have "ensures (\<lambda>s. \<exists>ti. (\<forall>n. age (m n) < ti) \<and> cache (m(artifact_file v \<mapsto> Regular c 420 ti)) s) (wrap msg syncDir) (\<lambda>_. ?new) ?any"
    proof (rule ensures_ex)
      fix ti
      assume "\<forall>n. age (m n) < ti"
      then show "ensures (cache (m(artifact_file v \<mapsto> Regular c 420 ti))) (wrap msg syncDir) (\<lambda>_. ?new) ?any"
        by (intro ensures_conseq [OF steady_intros(6) [OF steady_checks(4)]]) (auto simp: added_def)
    qed
    then show ?thesis by (rule ensures_pre) (auto simp: added_def)
  qed
  have drop: "ensures (with_temp m True t c 420) (bindIO (ignore (os_Remove t)) (\<lambda>_. throw e)) (\<lambda>_. ?new) ?any" for t e
    by (rule ensures_conseq [OF temp_dropped]) auto
  have install: "ensures (with_temp m True t c 420) (bindIO (attempt (os_Rename t (artifact_file v))) (\<lambda>r.
       case r of Inl e \<Rightarrow> bindIO (ignore (os_Remove t)) (\<lambda>_. throw (Wrapped ''rename artifact'' e)) | Inr _ \<Rightarrow> wrap ''sync artifact dir'' syncDir))
       (\<lambda>_. ?new) ?any" for t
    by (rule ensures_handle [OF renamed_temp]) (simp_all add: sync drop)
  have dir: "ensures (cache m) ensureArtifactZoneDirectory (\<lambda>_. cache m) ?any"
    by (rule ensures_conseq [OF steady_checks(3)]) auto
  have temp: "ensures (cache m) (wrap msg (writeTempFileSync pre ''.tmp'' c 420)) (\<lambda>t. with_temp m True t c 420) ?any" for msg pre
    by (rule ensures_conseq [OF ensures_wrap [OF temp_written]]) auto
  show ?thesis
    unfolding storeArtifact_def by (rule ensures_bind [OF dir], rule ensures_bind [OF temp], rule install)
qed

lemma load_triple:
  "ensures (cache m) (loadArtifact v)
     (\<lambda>d s. cache m s \<and> (\<exists>p ti. m (artifact_file v) = Some (Regular d p ti)) \<and> int (length d) \<le> maxSignedArtifactFileSize)
     (\<lambda>_. cache m)"
proof -
  let ?f = "artifact_file v"
  let ?Q = "\<lambda>d s. cache m s \<and> (\<exists>p ti. m ?f = Some (Regular d p ti)) \<and> int (length d) \<le> maxSignedArtifactFileSize"
  have lstat: "ensures (cache m) (os_Lstat ?f) (\<lambda>nd s. m ?f = Some nd \<and> cache m s) (\<lambda>_. cache m)"
    unfolding os_Lstat_def by (rule cache_call) (auto simp: ensures_def cache_def art_map_def split: option.split)
  have read: "ensures (\<lambda>s. m ?f = Some nd \<and> cache m s) (case nd of
       Special _ \<Rightarrow> throw NotRegular
     | Regular data perm _ \<Rightarrow>
         if maxSignedArtifactFileSize < int (length data) then throw TooLarge
         else bindIO syscall (\<lambda>_. bindIO syscall (\<lambda>_. bindIO syscall (\<lambda>_. ret data)))) ?Q (\<lambda>_. cache m)" for nd
    by (cases nd) (auto intro!: ensures_fact ensures_throw ensures_ret cache_call)
  show ?thesis unfolding loadArtifact_def readRegularArtifactFile_def
    by (rule ensures_bind [OF steady_checks(2)], rule ensures_bind [OF lstat], rule read)
qed

lemma fault_syscall: "ensures (cache m) syscall (\<lambda>_. cache m) (\<lambda>e s. cache m s \<and> e = Fault)"
  by (auto simp: ensures_def syscall_def split: list.splits)

lemma cache_Remove:
  "is_artifact f \<Longrightarrow> ensures (cache m) (os_Remove f) (\<lambda>_. cache (m(f := None))) (\<lambda>e s. cache m s \<and> (e = NotExist \<longrightarrow> m f = None))"
  unfolding os_Remove_def
  by (rule ensures_seq [OF fault_syscall]) (auto simp: ensures_def cache_def art_map_def distinct_delete split: option.splits)

lemma remove_triple:
  "ensures (cache m) (removeSignedZoneArtifact v) (\<lambda>_. cache (m(artifact_file v := None))) (\<lambda>_. cache m)"
proof -
  let ?f = "artifact_file v"
  have "ensures (\<lambda>s. cache m s \<and> (e = NotExist \<longrightarrow> m ?f = None)) (if e = NotExist then ret () else throw e)
      (\<lambda>_. cache (m(?f := None))) (\<lambda>_. cache m)" for e
    by (auto simp: fun_upd_idem intro!: ensures_ret ensures_throw)
  then have "ensures (cache m) (bindIO (attempt (os_Remove ?f)) (\<lambda>r.
     case r of Inl e \<Rightarrow> if e = NotExist then ret () else throw e | Inr _ \<Rightarrow> ret ())) (\<lambda>_. cache (m(?f := None))) (\<lambda>_. cache m)"
    by (intro ensures_handle [OF cache_Remove]) (auto intro: ensures_ret)
  then show ?thesis unfolding removeSignedZoneArtifact_def by (rule ensures_bind [OF steady_checks(2)])
qed

text \<open>Some of the artifacts are gone, but none of those in \<open>K\<close>.\<close>

definition thinned :: "string set \<Rightarrow> (string \<Rightarrow> node option) \<Rightarrow> fs \<Rightarrow> bool" where
  "thinned K m s \<longleftrightarrow> (\<exists>m'. m' \<subseteq>\<^sub>m m \<and> (\<forall>n \<in> K. m' n = m n) \<and> cache m' s)"

lemma thinned_refl: "cache m s \<Longrightarrow> thinned K m s"
  by (auto simp: thinned_def intro: map_le_refl)

lemma thinned_Remove: "f \<notin> K \<Longrightarrow> ensures (thinned K m) (os_Remove f) (\<lambda>_. thinned K m) (\<lambda>_. thinned K m)"
proof -
  assume f: "f \<notin> K"
  have "ensures (cache m') (os_Remove f) (\<lambda>_. thinned K m) (\<lambda>_. thinned K m)" if "m' \<subseteq>\<^sub>m m \<and> (\<forall>n \<in> K. m' n = m n)" for m'
  proof (cases "is_artifact f")
    case True
    have "m'(f := None) \<subseteq>\<^sub>m m" using that by (auto simp: map_le_def)
    then show ?thesis using f that
      by (intro ensures_conseq [OF cache_Remove [OF True]]) (auto simp: thinned_def)
  next
    case False
    then show ?thesis using that by (intro ensures_conseq [OF remove_scratch]) (auto simp: thinned_def)
  qed
  then have "ensures (\<lambda>s. \<exists>m'. (m' \<subseteq>\<^sub>m m \<and> (\<forall>n \<in> K. m' n = m n)) \<and> cache m' s) (os_Remove f) (\<lambda>_. thinned K m) (\<lambda>_. thinned K m)"
    by (rule ensures_ex)
  then show ?thesis by (rule ensures_pre) (simp add: thinned_def)
qed

lemma thinned_loop: "K \<inter> set ns = {} \<Longrightarrow> ensures (thinned K m) (prune_loop ns) (\<lambda>_. thinned K m) (\<lambda>_. thinned K m)"
proof (induction ns)
  case (Cons n ns)
  then show ?case
    by (simp, intro ensures_handle [OF thinned_Remove]) (auto intro!: ensures_throw)
qed (auto intro: ensures_ret)

lemma ensures_state: "(\<And>s0. P s0 \<Longrightarrow> ensures P (f s0) Q E) \<Longrightarrow> ensures P (\<lambda>s. f s s) Q E"
  by (simp add: ensures_def)

lemma thinned_mono: "m' \<subseteq>\<^sub>m m \<Longrightarrow> thinned {} m' s \<Longrightarrow> thinned {} m s"
  by (auto simp: thinned_def intro: map_le_trans)

lemma remove_entries_triple:
  "dom m \<subseteq> set ns \<Longrightarrow> ensures (cache m) (remove_entries ns) (\<lambda>_. cache Map.empty) (\<lambda>_. thinned {} m)"
proof (induction ns arbitrary: m)
  case Nil
  then show ?case by (auto intro!: ensures_ret)
next
  case (Cons n ns)
  show ?case
  proof (cases "is_artifact n")
    case True
    let ?m = "m(n := None)"
    have le: "?m \<subseteq>\<^sub>m m" by (auto simp: map_le_def)
    have "dom ?m \<subseteq> set ns" using Cons.prems by (auto split: if_splits)
    from Cons.IH [of ?m, OF this] have "ensures (cache ?m) (remove_entries ns) (\<lambda>_. cache Map.empty) (\<lambda>_. thinned {} m)"
      by (rule ensures_conseq) (use thinned_mono [OF le] in \<open>auto simp: fun_upd_def\<close>)
    then show ?thesis
      by (simp, intro ensures_seq [OF cache_Remove [OF True]]) (auto intro: thinned_refl)
  next
    case False
    show ?thesis
    proof (cases "n \<in> dom m")
      case True
      then show ?thesis using False by (auto simp: ensures_def cache_def art_map_def)
    next
      case out: False
      then have "dom m \<subseteq> set ns" using Cons.prems by auto
      from Cons.IH [OF this] show ?thesis
        by (simp, intro ensures_seq [OF remove_scratch [OF False]]) (auto intro: thinned_refl)
    qed
  qed
qed

lemma removeZoneArtifacts_triple:
  "ensures (cache m) removeZoneArtifacts (\<lambda>_. cache Map.empty) (\<lambda>_. thinned {} m)"
proof -
  have gone: "ensures (cache Map.empty) (bindIO syscall (\<lambda>_ s'. (Inr (), s'\<lparr>fs_dir := DirMissing\<rparr>))) (\<lambda>_. cache Map.empty) (\<lambda>_. thinned {} m)"
    by (rule cache_call) (auto simp: ensures_def thinned_def intro!: exI [of _ Map.empty])
  have "dom m \<subseteq> set (map fst (fs_files s0))" if "cache m s0" for s0
    using that by (auto simp: cache_def art_map_def split: if_splits) (metis fst_conv image_eqI map_of_SomeD)
  then have step: "ensures (cache m) (bindIO (remove_entries (map fst (fs_files s0))) (\<lambda>_. bindIO syscall (\<lambda>_ s'.
     (Inr (), s'\<lparr>fs_dir := DirMissing\<rparr>)))) (\<lambda>_. cache Map.empty) (\<lambda>_. thinned {} m)" if "cache m s0" for s0
    using that by (intro ensures_bind [OF remove_entries_triple] gone) simp
  have "ensures (cache m) os_RemoveAll (\<lambda>_. cache Map.empty) (\<lambda>_. thinned {} m)"
    unfolding os_RemoveAll_def [abs_def] by (rule ensures_state) (rule step)
  then have "ensures (cache m) (wrap msg os_RemoveAll) (\<lambda>_. cache Map.empty) (\<lambda>_. thinned {} m)" for msg
    by (rule ensures_wrap)
  then show ?thesis unfolding removeZoneArtifacts_def
    by (intro ensures_seq [OF steady_checks(2)]) (auto intro: thinned_refl)
qed

subsection \<open>Pruning keeps the newest artifact\<close>

lemma sort_older_mset: "mset (sort_older s ns) = mset ns"
proof (induction ns)
  case (Cons n ns)
  have "mset (takeWhile P ms) + mset (dropWhile P ms) = mset ms" for P and ms :: "string list"
    by (metis mset_append takeWhile_dropWhile_id)
  then show ?case using Cons by (simp add: Let_def)
qed simp

lemma older_asym: "older s m n \<Longrightarrow> \<not> older s n m"
  by (auto simp: older_def split: if_splits)

lemma sort_older_last:
  assumes "f \<in> set ns" "\<forall>n \<in> set ns. n \<noteq> f \<longrightarrow> older s n f" "distinct ns"
  shows "sort_older s ns \<noteq> [] \<and> last (sort_older s ns) = f"
  using assms
proof (induction ns)
  case (Cons n ns)
  let ?ms = "sort_older s ns"
  have ms: "set ?ms = set ns" using sort_older_mset [of s ns] by (metis set_mset_mset)
  show ?case
  proof (cases "n = f")
    case True
    then have "dropWhile (\<lambda>m. older s m n) ?ms = []" using Cons.prems ms by (auto simp: dropWhile_eq_Nil_conv)
    then show ?thesis using True by (simp add: Let_def)
  next
    case False
    then have l: "?ms \<noteq> []" "last ?ms = f" using Cons by auto
    have "\<not> older s f n" using Cons.prems False older_asym by auto
    then have "dropWhile (\<lambda>m. older s m n) ?ms \<noteq> []" using l by (metis dropWhile_eq_Nil_conv last_in_set)
    moreover from this have "last (dropWhile (\<lambda>m. older s m n) ?ms) = last ?ms"
      by (subst (2) takeWhile_dropWhile_id [where P = "\<lambda>m. older s m n", symmetric]) (rule last_appendR [symmetric])
    ultimately show ?thesis using l by (auto simp: Let_def)
  qed
qed simp

lemma last_not_in_take: "distinct xs \<Longrightarrow> 0 < k \<Longrightarrow> last xs \<notin> set (take (length xs - k) xs)"
  by (cases xs rule: rev_cases) (auto dest: in_set_takeD)

definition newest :: "(string \<Rightarrow> node option) \<Rightarrow> string \<Rightarrow> bool" where
  "newest m f \<longleftrightarrow> (\<exists>d p t. m f = Some (Regular d p t)) \<and> (\<forall>n. n \<noteq> f \<longrightarrow> age (m n) < age (m f))"

lemma newest_not_pruned:
  assumes "cache m s" "newest m f" "0 < k"
  shows "f \<notin> set (to_prune k s)"
proof -
  let ?a = "filter (kept_kind s) (sort (map fst (fs_files s)))"
  have c: "arts s = m" "distinct (map fst (fs_files s))" using assms(1) by (simp_all add: cache_def)
  obtain d p t where f: "m f = Some (Regular d p t)" using assms(2) by (auto simp: newest_def)
  then have "is_artifact f" "map_of (fs_files s) f = Some (Regular d p t)" using c(1) by (auto simp: art_map_def split: if_splits)
  then have fa: "f \<in> set ?a" by (auto simp: kept_kind_def) (metis fst_conv image_eqI map_of_SomeD)
  have "age (m n) = mtime_of s n" if "is_artifact n" for n
    using that c(1) by (auto simp: age_def mtime_of_def art_map_def)
  then have "older s n f" if "n \<in> set ?a" "n \<noteq> f" for n
    using assms(2) that \<open>is_artifact f\<close> by (auto simp: older_def newest_def kept_kind_def)
  then have last: "last (sort_older s ?a) = f" using sort_older_last [OF fa] c(2) by simp
  have m: "mset (sort_older s ?a) = mset ?a" by (rule sort_older_mset)
  then have "length (sort_older s ?a) = length ?a" by (metis size_mset)
  moreover have "distinct (sort_older s ?a)" using m c(2) by (metis distinct_filter distinct_sort mset_eq_imp_distinct_iff)
  ultimately show ?thesis using last_not_in_take [of "sort_older s ?a" "nat k"] last assms(3) by (simp add: to_prune_def Let_def)
qed

lemma prune_triple:
  "ensures (cache m) (pruneArtifacts k) (\<lambda>_. thinned (Collect (newest m)) m) (\<lambda>_. thinned (Collect (newest m)) m)"
proof (cases "0 < k")
  case False
  then show ?thesis by (auto simp: pruneArtifacts_def intro!: ensures_ret thinned_refl)
next
  case k: True
  let ?K = "Collect (newest m)"
  let ?T = "\<lambda>_. thinned ?K m"
  have keep: "ensures (cache m) (wrap msg (each (\<lambda>_. syscall) xs)) (\<lambda>_. cache m) ?T" for msg and xs :: "string list"
    by (rule ensures_conseq [OF steady_intros(6) [OF steady_each [OF steady_syscall]]]) (auto intro: thinned_refl)
  have loop: "ensures (cache m) (prune_loop (to_prune k s0)) ?T ?T" if "cache m s0" for s0
    using newest_not_pruned [OF that _ k] by (intro ensures_pre [OF thinned_loop]) (auto intro: thinned_refl)
  have body: "ensures (cache m) (\<lambda>s. bindIO (wrap ''stat artifact'' (each (\<lambda>_. syscall) (filter (kept_kind s) entries)))
      (\<lambda>_. prune_loop (to_prune k s)) s) ?T ?T" for entries
    by (rule ensures_state, rule ensures_bind [OF keep], rule loop)
  have failed: "ensures (cache m) (if e = NotExist then ret () else throw (Wrapped ''read artifact dir'' e)) ?T ?T" for e
    by (auto intro!: ensures_ret ensures_throw thinned_refl)
  have read: "ensures (cache m) (bindIO (attempt os_ReadDir) (\<lambda>r. case r of
          Inl e \<Rightarrow> if e = NotExist then ret () else throw (Wrapped ''read artifact dir'' e)
        | Inr entries \<Rightarrow> (\<lambda>s. bindIO (wrap ''stat artifact'' (each (\<lambda>_. syscall) (filter (kept_kind s) entries)))
              (\<lambda>_. prune_loop (to_prune k s)) s))) ?T ?T"
    by (rule ensures_handle [OF steady_dirs(4)], rule body, rule failed)
  have "ensures (cache m) validateArtifactZoneDirectoryIfExists (\<lambda>_. cache m) ?T"
    by (rule ensures_conseq [OF steady_checks(2)]) (auto intro: thinned_refl)
  from ensures_bind [OF this read] show ?thesis using k by (simp add: pruneArtifacts_def)
qed

subsection \<open>The directory exists\<close>

definition same_dir :: "'a io \<Rightarrow> bool" where
  "same_dir a \<longleftrightarrow> (\<forall>s. fs_dir (snd (a s)) = fs_dir s)"

named_theorems dir_keepers "computations that leave the directory itself alone"

lemma same_dir_simple [dir_keepers]: "same_dir syscall" "same_dir (ret x)" "same_dir (throw e)"
  by (auto simp: same_dir_def syscall_def ret_def throw_def split: list.split)

lemma same_dir_bind [dir_keepers]: "same_dir a \<Longrightarrow> (\<And>x. same_dir (f x)) \<Longrightarrow> same_dir (bindIO a f)"
  by (auto simp: same_dir_def bindIO_def split: prod.split sum.split) (metis snd_conv)+

lemma same_dir_attempt [dir_keepers]: "same_dir a \<Longrightarrow> same_dir (attempt a)"
  by (auto simp: same_dir_def attempt_def split: prod.split) (metis snd_conv)

lemma same_dir_cases [dir_keepers]:
  "same_dir b \<Longrightarrow> same_dir c \<Longrightarrow> same_dir (if p then b else c)"
  "(\<And>e. same_dir (f e)) \<Longrightarrow> (\<And>x. same_dir (g x)) \<Longrightarrow> same_dir (case r of Inl e \<Rightarrow> f e | Inr x \<Rightarrow> g x)"
  by (auto split: sum.split)

lemma same_dir_handlers [dir_keepers]: "same_dir a \<Longrightarrow> same_dir (ignore a)" "same_dir a \<Longrightarrow> same_dir (wrap msg a)"
  unfolding ignore_def wrap_def by (intro dir_keepers; assumption)+

lemma same_dir_calls [dir_keepers]:
  "same_dir (os_Remove n)" "same_dir (os_Rename n n')" "same_dir (os_CreateTemp pre suf)" "same_dir (file_Chmod n p)"
  "same_dir (file_Write n d)" "same_dir os_ReadDir" "same_dir validateExistingArtifactDirectory"
  unfolding os_Remove_def os_Rename_def os_CreateTemp_def file_Chmod_def file_Write_def os_ReadDir_def validateExistingArtifactDirectory_def
  by (intro same_dir_bind same_dir_simple, simp add: same_dir_def split: option.split node.split prod.split dir_state.split)+

lemma same_dir_each [dir_keepers]: "(\<And>x. same_dir (f x)) \<Longrightarrow> same_dir (each f xs)"
  by (induction xs) (auto intro!: dir_keepers)

lemma same_dir_prune_loop [dir_keepers]: "same_dir (prune_loop ns)"
  by (induction ns) (auto intro!: dir_keepers)

lemma same_dir_prune: "same_dir (pruneArtifacts k)"
proof -
  have "same_dir (\<lambda>s. bindIO (wrap ''stat artifact'' (each (\<lambda>_. syscall) (filter (kept_kind s) entries)))
      (\<lambda>_. prune_loop (to_prune k s)) s)" for entries
  proof -
    have "same_dir (bindIO (wrap ''stat artifact'' (each (\<lambda>_. syscall) (filter (kept_kind s) entries))) (\<lambda>_. prune_loop (to_prune k s)))" for s
      by (intro dir_keepers)
    then show ?thesis by (simp add: same_dir_def)
  qed
  then show ?thesis unfolding pruneArtifacts_def validateArtifactZoneDirectoryIfExists_def cache_directory_check_def
    by (intro dir_keepers)
qed

lemma same_dirD: "same_dir a \<Longrightarrow> ensures (\<lambda>s. fs_dir s = D) a (\<lambda>_ s. fs_dir s = D) (\<lambda>_ _. True)"
  by (auto simp: ensures_def same_dir_def split: prod.split sum.split) (metis snd_conv)

lemma store_present: "ensures (\<lambda>_. True) (storeArtifact v c) (\<lambda>_ s. fs_dir s = DirPresent) (\<lambda>_ _. True)"
proof -
  let ?P = "\<lambda>_ :: unit. \<lambda>s. fs_dir s = DirPresent"
  have check: "ensures (\<lambda>_. True) (wrap msg validateExistingArtifactDirectory) ?P (\<lambda>_ _. True)" for msg
    unfolding validateExistingArtifactDirectory_def
    by (intro ensures_wrap ensures_bind [where R = "\<lambda>_ _. True"]) (auto simp: ensures_def split: prod.split sum.split dir_state.split)
  have any: "ensures (\<lambda>_. True) a (\<lambda>_ _. True) (\<lambda>_ _. True)" for a :: "'b io"
    by (simp add: ensures_def split: prod.split sum.split)
  have make: "ensures (\<lambda>_. True) (make_artifact_directory b) ?P (\<lambda>_ _. True)" for b
    unfolding make_artifact_directory_def syncDir_def
    by (rule ensures_bind [OF any], rule ensures_bind [OF check], rule same_dirD, intro dir_keepers)
  have ensure: "ensures (\<lambda>_. True) ensureArtifactZoneDirectory ?P (\<lambda>_ _. True)"
    unfolding ensureArtifactZoneDirectory_def ensureArtifactDirectory_def
    by (intro ensures_bind [OF any] ensures_case_sum ensures_if make) (auto intro: ensures_throw)
  have "same_dir (bindIO (wrap ''write temp artifact'' (writeTempFileSync (''.'' @ artifact_file v @ ''.'') ''.tmp'' c 420)) (\<lambda>tmp.
     bindIO (attempt (os_Rename tmp (artifact_file v))) (\<lambda>r.
     case r of
       Inl e \<Rightarrow> bindIO (ignore (os_Remove tmp)) (\<lambda>_. throw (Wrapped ''rename artifact'' e))
     | Inr _ \<Rightarrow> wrap ''sync artifact dir'' syncDir)))"
    unfolding writeTempFileSync_def syncDir_def by (intro dir_keepers)
  from ensures_bind [OF ensure same_dirD [OF this]] show ?thesis unfolding storeArtifact_def .
qed

text \<open>Loading when no call fails.\<close>

lemma load_artifact_ok:
  assumes "fs_faults s = []" "fs_dir s = DirPresent" "map_of (fs_files s) (artifact_file v) = Some (Regular d p t)"
    and "int (length d) \<le> maxSignedArtifactFileSize"
  shows "loadArtifact v s = (Inr d, s)"
proof -
  have c: "syscall s = (Inr (), s)" using assms(1) by (simp add: syscall_def)
  show ?thesis using assms
    by (simp add: loadArtifact_def validateArtifactZoneDirectoryIfExists_def cache_directory_check_def validateExistingArtifactDirectory_def
        readRegularArtifactFile_def os_Lstat_def wrap_def attempt_def bindIO_def ret_def throw_def c)
qed

subsection \<open>File names\<close>

text \<open>A version of letters and digits names its file, so different versions have different files.\<close>

lemma replace_version_runes_alnum: "list_all is_alnum v \<Longrightarrow> replace_version_runes v = v"
proof (induction v)
  case (Cons c v)
  then have "byte c < 128" by (auto simp: is_alnum_def char_class_defs)
  then have "snd (decode_rune (c # v)) = 1" by simp
  then show ?case using Cons by (subst replace_version_runes.simps) (simp add: version_char_def del: decode_rune.simps)
qed (simp add: replace_version_runes.simps)

lemma artifact_file_plain:
  assumes "list_all is_alnum v" "v \<noteq> []" "length v \<le> 200"
  shows "artifact_file v = v @ ''.zone.signed''"
proof -
  have c: "c \<noteq> CHR ''.'' \<and> \<not> ascii_space c \<and> byte c < 128" if "c \<in> set v" for c
    using assms(1) that by (auto simp: list_all_iff is_alnum_def char_class_defs ascii_space_def byte_def)
  have "TrimSpace v = v" using c by (intro no_space_TrimSpace) (auto simp: no_space_def)
  moreover have "replace_dotdot v = v" using c by (induction v rule: replace_dotdot.induct) auto
  moreover have "dropWhile (\<lambda>c. c = CHR ''.'') v = v" "dropWhile (\<lambda>c. c = CHR ''.'') (rev v) = rev v"
    using c assms(2) by (auto simp: dropWhile_eq_self_iff hd_rev)
  ultimately show ?thesis using assms replace_version_runes_alnum
    by (simp add: artifact_file_def safeArtifactVersionFilename_def Trim_dots_def TrimRight_dots_def maxArtifactVersionFilenameLength_def Let_def)
qed

lemma artifact_files_distinct:
  assumes "list_all is_alnum v" "list_all is_alnum w" "v \<noteq> []" "w \<noteq> []" "length v \<le> 200" "length w \<le> 200" "v \<noteq> w"
  shows "artifact_file v \<noteq> artifact_file w"
  using assms by (simp add: artifact_file_plain)

end
