(* ===== verification/Resource_Records.thy ===== *)
theory Resource_Records
  imports Zone_Validation "HOL-Library.List_Lexorder" "HOL-Library.Char_ord" "HOL-Library.Product_Lexorder" "HOL-Library.Multiset"
begin

section \<open>Resource records and zone files (pkg/parser)\<close>

text \<open>
  Resource records as \<open>github.com/miekg/dns\<close> holds them, the conversion of a zone to resource records
  and to the text of a zone file (\<open>generator.go\<close>), and the way back: the checks before parsing
  (\<open>bind.go\<close>), the normalisation of parsed records to a zone (\<open>normalize.go\<close>) and the entry points
  (\<open>convert.go\<close>). The two functions of the library that turn a record into text and text into records are the
  fields of \<open>dns_text\<close>; a parse gives the records before the first error, and that error if there is one.
  \<open>strings.ToUpper\<close> and \<open>strings.EqualFold\<close> are exact on ASCII, as \<open>ToLower\<close> is.
\<close>

subsection \<open>Records\<close>

record RRSIG_data =
  rs_TypeCovered :: uint16
  rs_Algorithm :: uint8
  rs_Labels :: uint8
  rs_OrigTtl :: uint32
  rs_Expiration :: uint32
  rs_Inception :: uint32
  rs_KeyTag :: uint16
  rs_SignerName :: string
  rs_Signature :: string

record DNSKEY_data =
  dk_Flags :: uint16
  dk_Protocol :: uint8
  dk_Algorithm :: uint8
  dk_PublicKey :: string

record NSEC3_data =
  n3_Hash :: uint8
  n3_Flags :: uint8
  n3_Iterations :: uint16
  n3_SaltLength :: uint8
  n3_Salt :: string
  n3_HashLength :: uint8
  n3_NextDomain :: string
  n3_TypeBitMap :: "uint16 list"

record NSEC3PARAM_data =
  np_Hash :: uint8
  np_Flags :: uint8
  np_Iterations :: uint16
  np_SaltLength :: uint8
  np_Salt :: string

text \<open>An IP address is the list of its bytes, empty for \<open>nil\<close>. \<open>RR_Other\<close> stands for every other type.\<close>

datatype rdata =
    RR_SOA SOARecord
  | RR_A "nat list"
  | RR_AAAA "nat list"
  | RR_NS string
  | RR_CNAME string
  | RR_PTR string
  | RR_MX uint16 string
  | RR_TXT "string list"
  | RR_SRV uint16 uint16 uint16 string
  | RR_CAA uint8 string string
  | RR_DNSKEY DNSKEY_data
  | RR_RRSIG RRSIG_data
  | RR_NSEC string "uint16 list"
  | RR_NSEC3 NSEC3_data
  | RR_NSEC3PARAM NSEC3PARAM_data
  | RR_Other string

record RR =
  rr_Name :: string
  rr_Rrtype :: uint16
  rr_Class :: uint16
  rr_Ttl :: uint32
  rr_Data :: rdata

definition ClassINET :: uint16 where "ClassINET = 1"
definition TypeA :: uint16 where "TypeA = 1"
definition TypeNS :: uint16 where "TypeNS = 2"
definition TypeCNAME :: uint16 where "TypeCNAME = 5"
definition TypeSOA :: uint16 where "TypeSOA = 6"
definition TypePTR :: uint16 where "TypePTR = 12"
definition TypeMX :: uint16 where "TypeMX = 15"
definition TypeTXT :: uint16 where "TypeTXT = 16"
definition TypeAAAA :: uint16 where "TypeAAAA = 28"
definition TypeSRV :: uint16 where "TypeSRV = 33"
definition TypeRRSIG :: uint16 where "TypeRRSIG = 46"
definition TypeNSEC :: uint16 where "TypeNSEC = 47"
definition TypeDNSKEY :: uint16 where "TypeDNSKEY = 48"
definition TypeNSEC3 :: uint16 where "TypeNSEC3 = 50"
definition TypeNSEC3PARAM :: uint16 where "TypeNSEC3PARAM = 51"
definition TypeCAA :: uint16 where "TypeCAA = 257"

lemmas rr_type_defs = ClassINET_def TypeA_def TypeNS_def TypeCNAME_def TypeSOA_def TypePTR_def TypeMX_def TypeTXT_def
  TypeAAAA_def TypeSRV_def TypeRRSIG_def TypeNSEC_def TypeDNSKEY_def TypeNSEC3_def TypeNSEC3PARAM_def TypeCAA_def

definition rr :: "string \<Rightarrow> uint16 \<Rightarrow> uint32 \<Rightarrow> rdata \<Rightarrow> RR" where
  "rr name t ttl d = \<lparr>rr_Name = name, rr_Rrtype = t, rr_Class = ClassINET, rr_Ttl = ttl, rr_Data = d\<rparr>"

lemma rr_simps [simp]:
  "rr_Name (rr n t l d) = n" "rr_Rrtype (rr n t l d) = t" "rr_Class (rr n t l d) = ClassINET"
  "rr_Ttl (rr n t l d) = l" "rr_Data (rr n t l d) = d"
  by (simp_all add: rr_def)

subsection \<open>Errors\<close>

datatype parser_error =
    NilZone | ConvertFailed string parser_error | BadValue model_error | UnsupportedType string
  | NoRRs | OriginMissing | FileTooLarge int | GenerateUnsupported nat | IncludeForbidden nat
  | IncludeRepeated nat | LineTooLong | ParseFailed string | NoRecords
  | MultipleSOA | NoSOA | UnsupportedRR uint16 string | ValidationFailed model_error
  | OriginAtSign | NoOrigin

subsection \<open>Sorting with a comparison function\<close>

text \<open>\<open>sort.Slice\<close>, where ties may come in any order; here they keep their order.\<close>

fun insert_by :: "('a \<Rightarrow> 'a \<Rightarrow> bool) \<Rightarrow> 'a \<Rightarrow> 'a list \<Rightarrow> 'a list" where
  "insert_by lt x [] = [x]"
| "insert_by lt x (y # ys) = (if lt y x then y # insert_by lt x ys else x # y # ys)"

definition sort_Slice :: "('a \<Rightarrow> 'a \<Rightarrow> bool) \<Rightarrow> 'a list \<Rightarrow> 'a list" where
  "sort_Slice lt xs = foldr (insert_by lt) xs []"

lemma sort_Slice_key:
  assumes "\<And>x y. x \<in> set xs \<Longrightarrow> y \<in> set xs \<Longrightarrow> lt x y \<longleftrightarrow> (key x :: 'k :: linorder) < key y"
  shows "sort_Slice lt xs = sort_key key xs"
proof -
  have i: "insert_by lt x ys = insort_key key x ys" if "x \<in> set xs" "set ys \<subseteq> set xs" for x ys
    using that by (induction ys) (auto simp: assms not_less)
  have "foldr (insert_by lt) zs [] = foldr (insort_key key) zs [] \<and> set (foldr (insort_key key) zs []) = set zs"
    if "set zs \<subseteq> set xs" for zs
    using that by (induction zs) (auto simp: i set_insort_key)
  then show ?thesis by (simp add: sort_Slice_def sort_key_def)
qed

lemma mset_sort_Slice [simp]: "mset (sort_Slice lt xs) = mset xs"
proof -
  have "mset (insert_by lt x ys) = add_mset x (mset ys)" for x ys by (induction ys) auto
  then show ?thesis by (induction xs) (auto simp: sort_Slice_def)
qed

lemma set_sort_Slice [simp]: "set (sort_Slice lt xs) = set xs"
  using mset_sort_Slice [of lt xs] by (rule mset_eq_setD)

subsection \<open>Writing zone files (generator.go)\<close>

record dns_text =
  dt_String :: "RR \<Rightarrow> string"
  dt_parse :: "string \<Rightarrow> string \<Rightarrow> uint32 \<Rightarrow> bool \<Rightarrow> RR list \<times> string option"

definition LF :: char where "LF = CHR 0x0A"

definition ip_of :: "string \<Rightarrow> nat list" where
  "ip_of value = (case ParseIP value of None \<Rightarrow> [] | Some a \<Rightarrow> a)"

definition ip_To4 :: "nat list \<Rightarrow> nat list" where
  "ip_To4 a = (if length a = 4 then a else case To4 a of None \<Rightarrow> [] | Some q \<Rightarrow> q)"

definition convertRecordToRR :: "string \<Rightarrow> Record \<Rightarrow> parser_error + RR" where
  "convertRecordToRR origin record =
     (let hdr = rr (NormalizeRecordOwnerName (r_Name record) origin); ttl = r_TTL record;
          value = r_Value record; target = (\<lambda>t. NormalizeDomainTargetName t origin) in
      if r_Type record = RecordTypeA then Inr (hdr TypeA ttl (RR_A (ip_To4 (ip_of value))))
      else if r_Type record = RecordTypeAAAA then Inr (hdr TypeAAAA ttl (RR_AAAA (ip_of value)))
      else if r_Type record = RecordTypeCNAME then Inr (hdr TypeCNAME ttl (RR_CNAME (target value)))
      else if r_Type record = RecordTypeNS then Inr (hdr TypeNS ttl (RR_NS (target value)))
      else if r_Type record = RecordTypeMX then
        (case ParseMXValue value of
           Inl e \<Rightarrow> Inl (BadValue e)
         | Inr d \<Rightarrow> Inr (hdr TypeMX ttl (RR_MX (mx_Priority d) (target (mx_Target d)))))
      else if r_Type record = RecordTypeTXT then Inr (hdr TypeTXT ttl (RR_TXT (SplitTXTValue value)))
      else if r_Type record = RecordTypePTR then Inr (hdr TypePTR ttl (RR_PTR (target value)))
      else if r_Type record = RecordTypeSRV then
        (case ParseSRVValue value of
           Inl e \<Rightarrow> Inl (BadValue e)
         | Inr d \<Rightarrow> Inr (hdr TypeSRV ttl (RR_SRV (srv_Priority d) (srv_Weight d) (srv_Port d) (target (srv_Target d)))))
      else if r_Type record = RecordTypeCAA then
        (case ParseCAAValue value of
           Inl e \<Rightarrow> Inl (BadValue e)
         | Inr d \<Rightarrow> Inr (hdr TypeCAA ttl (RR_CAA (caa_Flags d) (caa_Tag d) (caa_Value d))))
      else Inl (UnsupportedType (r_Type record)))"

text \<open>The records of a loop that stops at the first error.\<close>

fun convert_all :: "(Record \<Rightarrow> parser_error + RR) \<Rightarrow> Record list \<Rightarrow> parser_error + RR list" where
  "convert_all f [] = Inr []"
| "convert_all f (r # rs) =
     (case f r of
        Inl e \<Rightarrow> Inl (ConvertFailed (r_Name r) e)
      | Inr x \<Rightarrow> bindE (convert_all f rs) (\<lambda>xs. Inr (x # xs)))"

definition soa_rr :: "string \<Rightarrow> SOARecord \<Rightarrow> RR" where
  "soa_rr origin soa = rr origin TypeSOA (soa_Minimum soa)
     (RR_SOA (soa\<lparr>soa_MName := NormalizeDomainTargetName (soa_MName soa) origin,
                 soa_RName := NormalizeDomainTargetName (soa_RName soa) origin\<rparr>))"

definition zone_text :: "dns_text \<Rightarrow> string \<Rightarrow> string \<Rightarrow> string \<Rightarrow> RR list \<Rightarrow> string" where
  "zone_text D generated origin version rrs =
     ''; Zone: '' @ origin @ [LF] @ generated @ [LF] @ ''; Version: '' @ version @ [LF] @ [LF]
     @ ''$ORIGIN '' @ origin @ [LF] @ [LF] @ concat (map (\<lambda>x. dt_String D x @ [LF]) rrs)"

definition GenerateBINDZoneFile :: "dns_text \<Rightarrow> Zone option \<Rightarrow> parser_error + string" where
  "GenerateBINDZoneFile D zp =
     (case zp of
        None \<Rightarrow> Inl NilZone
      | Some zone \<Rightarrow>
        (let origin = NormalizeZoneName (z_Name zone)
         in bindE (convert_all (convertRecordToRR origin) (z_Records zone))
              (\<lambda>rrs. Inr (zone_text D ''; Generated by arca-dns'' origin (z_Version zone)
                           (soa_rr origin (z_SOA zone) # rrs)))))"

definition GenerateBINDZoneFileFromRRs :: "dns_text \<Rightarrow> string \<Rightarrow> string \<Rightarrow> RR list \<Rightarrow> parser_error + string" where
  "GenerateBINDZoneFileFromRRs D zoneName version rrs =
     (if rrs = [] then Inl NoRRs
      else Inr (zone_text D ''; Generated by arca-dns (DNSSEC-signed)'' zoneName version rrs))"

subsection \<open>Reading zone files (bind.go)\<close>

record ParsedZone =
  pz_Origin :: string
  pz_DefaultTTL :: uint32
  pz_Records :: "RR list"

record ParseOptions =
  po_AllowIncludes :: bool
  po_DefaultTTL :: uint32
  po_MaxBytes :: int

definition DefaultMaxZoneFileSize :: int where "DefaultMaxZoneFileSize = 10 * 1024 * 1024"

definition DefaultParseOptions :: ParseOptions where
  "DefaultParseOptions = \<lparr>po_AllowIncludes = False, po_DefaultTTL = 3600, po_MaxBytes = DefaultMaxZoneFileSize\<rparr>"

definition readZoneFile :: "string \<Rightarrow> ParseOptions \<Rightarrow> parser_error + string" where
  "readZoneFile content opts =
     (let maxBytes = (if po_MaxBytes opts = 0 then DefaultMaxZoneFileSize else po_MaxBytes opts) in
      if maxBytes < 0 then Inr content
      else if maxBytes < int (length content) then Inl (FileTooLarge maxBytes)
      else Inr content)"

definition directiveScanMaxTokenSize :: "ParseOptions \<Rightarrow> int" where
  "directiveScanMaxTokenSize opts =
     (let maxBytes = (if po_MaxBytes opts = 0 then DefaultMaxZoneFileSize else po_MaxBytes opts);
          maxInt = 2 ^ 63 - 1
      in if maxBytes < 0 \<or> maxInt < maxBytes then maxInt else maxBytes)"

definition upper_char :: "char \<Rightarrow> char" where
  "upper_char c = (if is_lower c then char_of (byte c - 32) else c)"

definition ToUpper :: "string \<Rightarrow> string" where "ToUpper s = map upper_char s"

text \<open>
  The scan of the lines. A line as long as the buffer may grow is an error of the scanner; the empty piece
  after a final newline is no line, but is skipped like any empty line.
\<close>

fun scan_directives :: "bool \<Rightarrow> int \<Rightarrow> nat \<Rightarrow> nat \<Rightarrow> string list \<Rightarrow> parser_error option" where
  "scan_directives allowIncludes maxToken lineNum includeCount [] = None"
| "scan_directives allowIncludes maxToken lineNum includeCount (l # ls) =
     (if maxToken \<le> int (length l) then Some LineTooLong
      else let line = TrimSpace l; n = Suc lineNum in
        if line = [] \<or> HasPrefix line '';'' then scan_directives allowIncludes maxToken n includeCount ls
        else case Fields line of
          [] \<Rightarrow> scan_directives allowIncludes maxToken n includeCount ls
        | f # _ \<Rightarrow>
          (let directive = ToUpper f in
           if directive = ''$GENERATE'' then Some (GenerateUnsupported n)
           else if directive = ''$INCLUDE'' then
             (if \<not> allowIncludes then Some (IncludeForbidden n)
              else if 1 < Suc includeCount then Some (IncludeRepeated n)
              else scan_directives allowIncludes maxToken n (Suc includeCount) ls)
           else scan_directives allowIncludes maxToken n includeCount ls))"

definition validateDirectives :: "string \<Rightarrow> ParseOptions \<Rightarrow> parser_error option" where
  "validateDirectives content opts =
     scan_directives (po_AllowIncludes opts) (directiveScanMaxTokenSize opts) 0 0 (split_on LF content)"

definition ParseBINDZone :: "dns_text \<Rightarrow> string \<Rightarrow> string \<Rightarrow> ParseOptions \<Rightarrow> parser_error + ParsedZone" where
  "ParseBINDZone D raw origin opts =
     (if origin = [] then Inl OriginMissing
      else let o' = (if HasSuffix origin ''.'' then origin else origin @ ''.'') in
        bindE (readZoneFile raw opts) (\<lambda>content.
          case validateDirectives content opts of
            Some e \<Rightarrow> Inl e
          | None \<Rightarrow>
            (case dt_parse D content o' (po_DefaultTTL opts) (po_AllowIncludes opts) of
               (_, Some msg) \<Rightarrow> Inl (ParseFailed msg)
             | (rrs, None) \<Rightarrow>
               if rrs = [] then Inl NoRecords
               else Inr \<lparr>pz_Origin = o',
                         pz_DefaultTTL = (case filter (\<lambda>x. 0 < rr_Ttl x) rrs of [] \<Rightarrow> po_DefaultTTL opts | x # _ \<Rightarrow> rr_Ttl x),
                         pz_Records = rrs\<rparr>)))"

subsection \<open>From records to a zone (normalize.go)\<close>

record NormalizeOptions =
  no_Canonicalize :: bool
  no_Deduplicate :: bool
  no_SortRecords :: bool

definition DefaultNormalizeOptions :: NormalizeOptions where
  "DefaultNormalizeOptions = \<lparr>no_Canonicalize = True, no_Deduplicate = True, no_SortRecords = True\<rparr>"

definition canonicalizeDomain :: "string \<Rightarrow> string" where
  "canonicalizeDomain name =
     (let n = ToLower name in if HasSuffix n ''.'' then n else n @ ''.'')"

text \<open>\<open>net.IP.String\<close>\<close>

definition IP_String :: "nat list \<Rightarrow> string" where
  "IP_String a =
     (if a = [] then ''<nil>''
      else if length a = 4 then ip_string (v4_prefix @ a)
      else if length a = 16 then ip_string a
      else ''?'' @ concat (map (\<lambda>b. [hex_digit (b div 16), hex_digit (b mod 16)]) a))"

definition imported :: "string \<Rightarrow> string \<Rightarrow> uint32 \<Rightarrow> string \<Rightarrow> Record" where
  "imported name t ttl value =
     \<lparr>r_ID = [], r_Name = name, r_Type = t, r_TTL = ttl, r_Value = value, r_Priority = None\<rparr>"

definition quoted :: "string \<Rightarrow> string" where
  "quoted v = [CHR 0x22] @ v @ [CHR 0x22]"

text \<open>The switch over the type of a record: the SOA record, a record of the zone, or an error.\<close>

definition record_of_rr :: "bool \<Rightarrow> uint32 \<Rightarrow> RR \<Rightarrow> parser_error + (SOARecord + Record)" where
  "record_of_rr canonicalize defaultTTL x =
     (let ttl = (if rr_Ttl x = 0 then defaultTTL else rr_Ttl x);
          canon = (\<lambda>n. if canonicalize then canonicalizeDomain n else n);
          name = canon (rr_Name x);
          rec = (\<lambda>t value. Inr (Inr (imported name t ttl value)))
      in case rr_Data x of
        RR_SOA soa \<Rightarrow> Inr (Inl (soa\<lparr>soa_MName := canon (soa_MName soa), soa_RName := canon (soa_RName soa)\<rparr>))
      | RR_NS v \<Rightarrow> rec ''NS'' (canon v)
      | RR_A a \<Rightarrow> rec ''A'' (IP_String a)
      | RR_AAAA a \<Rightarrow> rec ''AAAA'' (IP_String a)
      | RR_CNAME v \<Rightarrow> rec ''CNAME'' (canon v)
      | RR_MX p v \<Rightarrow> rec ''MX'' (dec_string (unat p) @ '' '' @ canon v)
      | RR_TXT ts \<Rightarrow> rec ''TXT'' (concat ts)
      | RR_PTR v \<Rightarrow> rec ''PTR'' (canon v)
      | RR_SRV p w q v \<Rightarrow> rec ''SRV''
          (dec_string (unat p) @ '' '' @ dec_string (unat w) @ '' '' @ dec_string (unat q) @ '' '' @ canon v)
      | RR_CAA f t v \<Rightarrow> rec ''CAA'' (dec_string (unat f) @ '' '' @ t @ '' '' @ quoted v)
      | _ \<Rightarrow> Inl (UnsupportedRR (rr_Rrtype x) name))"

fun collect_records :: "bool \<Rightarrow> uint32 \<Rightarrow> RR list \<Rightarrow> SOARecord option \<Rightarrow> Record list
    \<Rightarrow> parser_error + SOARecord option \<times> Record list" where
  "collect_records canonicalize defaultTTL [] soa records = Inr (soa, records)"
| "collect_records canonicalize defaultTTL (x # xs) soa records =
     (case record_of_rr canonicalize defaultTTL x of
        Inl e \<Rightarrow> Inl e
      | Inr (Inl s) \<Rightarrow> if soa \<noteq> None then Inl MultipleSOA else collect_records canonicalize defaultTTL xs (Some s) records
      | Inr (Inr r) \<Rightarrow> collect_records canonicalize defaultTTL xs soa (records @ [r]))"

definition dedup_key :: "Record \<Rightarrow> string" where
  "dedup_key r = join_with ''|'' [r_Name r, r_Type r, dec_string (unat (r_TTL r)), r_Value r]"

fun dedup_loop :: "string list \<Rightarrow> Record list \<Rightarrow> nat \<Rightarrow> Record list \<Rightarrow> Record list \<times> nat" where
  "dedup_loop seen result duplicates [] = (result, duplicates)"
| "dedup_loop seen result duplicates (r # rs) =
     (if dedup_key r \<in> set seen then dedup_loop seen result (Suc duplicates) rs
      else dedup_loop (dedup_key r # seen) (result @ [r]) duplicates rs)"

definition deduplicateRecordsWithCount :: "Record list \<Rightarrow> Record list \<times> nat" where
  "deduplicateRecordsWithCount records = dedup_loop [] [] 0 records"

definition record_less :: "Record \<Rightarrow> Record \<Rightarrow> bool" where
  "record_less a b \<longleftrightarrow>
     (if r_Name a \<noteq> r_Name b then r_Name a < r_Name b
      else if r_Type a \<noteq> r_Type b then r_Type a < r_Type b
      else r_Value a < r_Value b)"

definition sortRecords :: "Record list \<Rightarrow> Record list" where
  "sortRecords records = sort_Slice record_less records"

text \<open>The result is the zone with the number of duplicates, which is the metadata.\<close>

definition NormalizeParsedZoneWithMetadata ::
  "ParsedZone option \<Rightarrow> NormalizeOptions \<Rightarrow> parser_error + Zone \<times> nat" where
  "NormalizeParsedZoneWithMetadata pp opts =
     (case pp of
        None \<Rightarrow> Inl NilZone
      | Some parsed \<Rightarrow>
        (let origin = (if no_Canonicalize opts then canonicalizeDomain (pz_Origin parsed) else pz_Origin parsed) in
         case collect_records (no_Canonicalize opts) (pz_DefaultTTL parsed) (pz_Records parsed) None [] of
           Inl e \<Rightarrow> Inl e
         | Inr (None, _) \<Rightarrow> Inl NoSOA
         | Inr (Some soa, records) \<Rightarrow>
           (let (rs, dups) = (if no_Deduplicate opts then deduplicateRecordsWithCount records else (records, 0));
                rs' = (if no_SortRecords opts then sortRecords rs else rs)
            in Inr (\<lparr>z_Name = origin, z_Version = [], z_SOA = soa, z_Records = rs', z_DNSSEC = None,
                     z_CreatedAt = 0, z_UpdatedAt = 0\<rparr>, dups))))"

subsection \<open>Entry points (convert.go)\<close>

definition BindToModelWithMetadata :: "dns_text \<Rightarrow> string \<Rightarrow> string \<Rightarrow> parser_error + Zone \<times> nat" where
  "BindToModelWithMetadata D raw origin =
     bindE (ParseBINDZone D raw origin DefaultParseOptions) (\<lambda>parsed.
       bindE (NormalizeParsedZoneWithMetadata (Some parsed) DefaultNormalizeOptions) (\<lambda>(zone, dups).
         case ValidateZone (Some zone) of Some e \<Rightarrow> Inl (ValidationFailed e) | None \<Rightarrow> Inr (zone, dups)))"

definition BindToModel :: "dns_text \<Rightarrow> string \<Rightarrow> string \<Rightarrow> parser_error + Zone" where
  "BindToModel D raw origin = bindE (BindToModelWithMetadata D raw origin) (\<lambda>(zone, _). Inr zone)"

definition ModelToBind :: "dns_text \<Rightarrow> Zone option \<Rightarrow> parser_error + string" where
  "ModelToBind D zp =
     (case zp of
        None \<Rightarrow> Inl NilZone
      | Some zone \<Rightarrow>
        (case ValidateZone (Some zone) of
           Some e \<Rightarrow> Inl (ValidationFailed e) | None \<Rightarrow> GenerateBINDZoneFile D (Some zone)))"

definition EqualFold :: "string \<Rightarrow> string \<Rightarrow> bool" where
  "EqualFold s t \<longleftrightarrow> ToLower s = ToLower t"

definition with_dot :: "string \<Rightarrow> string" where
  "with_dot origin = (if HasSuffix origin ''.'' then origin else origin @ ''.'')"

fun origin_in_lines :: "string list \<Rightarrow> parser_error + string" where
  "origin_in_lines [] = Inl NoOrigin"
| "origin_in_lines (l # ls) =
     (let line = TrimSpace l in
      if line = [] \<or> HasPrefix line '';'' then origin_in_lines ls
      else case Fields line of
        [] \<Rightarrow> origin_in_lines ls
      | p # ps \<Rightarrow>
        (if EqualFold p ''$ORIGIN'' \<and> ps \<noteq> [] then Inr (with_dot (hd ps))
         else if HasPrefix p ''$'' then origin_in_lines ls
         else if list_ex (\<lambda>q. EqualFold q ''SOA'') ps
         then (if p = ''@'' then Inl OriginAtSign else Inr (with_dot p))
         else origin_in_lines ls))"

definition extractOrigin :: "string \<Rightarrow> parser_error + string" where
  "extractOrigin raw = origin_in_lines (split_on LF raw)"

definition BindToModelWithDefaultsMetadata :: "dns_text \<Rightarrow> string \<Rightarrow> parser_error + Zone \<times> nat" where
  "BindToModelWithDefaultsMetadata D raw = bindE (extractOrigin raw) (BindToModelWithMetadata D raw)"

end
