(* ===== verification/Nsec_Chain.thy ===== *)
theory Nsec_Chain
  imports Resource_Records
begin

section \<open>Denial of existence (pkg/dnssec/nsec3.go)\<close>

text \<open>
  The NSEC and NSEC3 records of a signed zone. The functions on domain names and the hash come from
  \<open>github.com/miekg/dns\<close> and are the fields of \<open>dns_names\<close>. Go visits a map in an unspecified order, also while
  entries are added to it; the model visits the names in the order they were found, and the lemmas show that the
  resulting set does not depend on that. The walk towards the apex has fuel for every label; \<open>Diverges\<close> would mean
  that it is not enough, which the lemmas exclude for well-formed names.
\<close>

subsection \<open>Comparison functions\<close>

text \<open>A comparison function for \<open>sort.Slice\<close> that compares keys.\<close>

locale comparison =
  fixes lt :: "'a \<Rightarrow> 'a \<Rightarrow> bool" and key :: "'a \<Rightarrow> 'k :: linorder"
  assumes lt_key: "lt x y \<longleftrightarrow> key x < key y"
begin

lemma sort_is_sort_key: "sort_Slice lt xs = sort_key key xs"
  by (rule sort_Slice_key) (simp add: lt_key)

lemma sorted_keys: "sorted (map key (sort_Slice lt xs))"
  by (simp add: sort_is_sort_key)

lemma strictly_sorted:
  assumes "distinct xs" "inj_on key (set xs)"
  shows "sorted_wrt lt (sort_Slice lt xs)"
proof -
  let ?ys = "sort_Slice lt xs"
  have "distinct ?ys" using assms(1) by (metis mset_sort_Slice mset_eq_imp_distinct_iff)
  then have "distinct (map key ?ys)" using assms(2) by (simp add: distinct_map)
  then have "sorted_wrt (<) (map key ?ys)" using sorted_keys [of xs] by (simp add: strict_sorted_iff)
  then show ?thesis unfolding sorted_wrt_map by (rule sorted_wrt_mono_rel [rotated]) (simp add: lt_key)
qed

end

interpretation by_name: comparison record_less "\<lambda>r. (r_Name r, r_Type r, r_Value r)"
  by unfold_locales (auto simp: record_less_def less_prod_def')

subsection \<open>Definitions\<close>

record dns_names =
  dn_Fqdn :: "string \<Rightarrow> string"
  dn_IsSubDomain :: "string \<Rightarrow> string \<Rightarrow> bool"
  dn_SplitDomainName :: "string \<Rightarrow> string list"
  dn_CanonicalName :: "string \<Rightarrow> string"
  dn_CountLabel :: "string \<Rightarrow> nat"
  dn_HashName :: "string \<Rightarrow> uint8 \<Rightarrow> uint16 \<Rightarrow> string \<Rightarrow> string"

datatype nsec_error = NoNames | HashCollision string string string | Diverges

record NSEC3Params =
  np3_HashAlg :: uint8
  np3_Flags :: uint8
  np3_Iterations :: uint16
  np3_Salt :: string
  np3_TTL :: uint32

definition SHA1 :: uint8 where "SHA1 = 1"

text \<open>\<open>random\<close> is the outcome of \<open>rand.Read\<close>: the bytes, or an error.\<close>

definition generateRandomSalt :: "nat list option \<Rightarrow> int \<Rightarrow> string" where
  "generateRandomSalt random len =
     (if len \<le> 0 then []
      else case random of
        None \<Rightarrow> []
      | Some b \<Rightarrow> concat (map (\<lambda>x. [hex_digit (x div 16), hex_digit (x mod 16)]) b))"

definition NewNSEC3Params :: "nat list option \<Rightarrow> uint32 \<Rightarrow> uint16 \<Rightarrow> int \<Rightarrow> NSEC3Params" where
  "NewNSEC3Params random ttl iterations saltLength =
     \<lparr>np3_HashAlg = SHA1, np3_Flags = 0, np3_Iterations = iterations,
      np3_Salt = generateRandomSalt random saltLength, np3_TTL = ttl\<rparr>"

definition DefaultNSEC3Params :: "nat list option \<Rightarrow> uint32 \<Rightarrow> NSEC3Params" where
  "DefaultNSEC3Params random ttl = NewNSEC3Params random ttl 1 8"

definition parentDomain :: "dns_names \<Rightarrow> string \<Rightarrow> string" where
  "parentDomain L name =
     (case dn_SplitDomainName L name of
        [] \<Rightarrow> [] | [_] \<Rightarrow> [] | _ # ls \<Rightarrow> dn_Fqdn L (join_with ''.'' ls))"

definition appendUnique :: "uint16 list \<Rightarrow> uint16 \<Rightarrow> uint16 list" where
  "appendUnique ts val = (if val \<in> set ts then ts else ts @ [val])"

text \<open>The owner names of the records that count.\<close>

definition counts :: "dns_names \<Rightarrow> string \<Rightarrow> RR \<Rightarrow> bool" where
  "counts L zoneApex x \<longleftrightarrow> rr_Rrtype x \<noteq> TypeNSEC3 \<and> dn_IsSubDomain L zoneApex (rr_Name x)"

definition owner_names :: "dns_names \<Rightarrow> string \<Rightarrow> RR list \<Rightarrow> string list" where
  "owner_names L zoneApex rrs = remdups (map (\<lambda>x. dn_Fqdn L (rr_Name x)) (filter (counts L zoneApex) rrs))"

text \<open>The walk from a name to the apex; the state is the set of names and the set of empty non-terminals.\<close>

fun walk_up :: "dns_names \<Rightarrow> string \<Rightarrow> nat \<Rightarrow> string \<Rightarrow> string list \<times> string list \<Rightarrow> (string list \<times> string list) option" where
  "walk_up L zoneApex 0 name st = None"
| "walk_up L zoneApex (Suc fuel) name (names, ents) =
     (let parent = parentDomain L name in
      if parent = [] \<or> parent = zoneApex \<or> \<not> dn_IsSubDomain L zoneApex parent then Some (names, ents)
      else walk_up L zoneApex fuel parent
        (if parent \<in> set names then (names, ents) else (names @ [parent], ents @ [parent])))"

fun walk_all :: "dns_names \<Rightarrow> string \<Rightarrow> string list \<Rightarrow> string list \<times> string list \<Rightarrow> (string list \<times> string list) option" where
  "walk_all L zoneApex [] st = Some st"
| "walk_all L zoneApex (n # ns) st =
     (case walk_up L zoneApex (Suc (length (dn_SplitDomainName L n))) n st of
        None \<Rightarrow> None | Some st' \<Rightarrow> walk_all L zoneApex ns st')"

definition collectAuthoritativeNames :: "dns_names \<Rightarrow> string \<Rightarrow> RR list \<Rightarrow> (string list \<times> string list) option" where
  "collectAuthoritativeNames L zoneApex rrs =
     (let owners = owner_names L zoneApex rrs in walk_all L zoneApex owners (owners, []))"

text \<open>The map of type bitmaps, as a list of its entries.\<close>

definition typeBitmapByName :: "dns_names \<Rightarrow> string \<Rightarrow> RR list \<Rightarrow> (string \<times> uint16 list) list" where
  "typeBitmapByName L zoneApex rrs =
     (let inZone = filter (\<lambda>x. rr_Rrtype x \<noteq> TypeNSEC3 \<and> dn_IsSubDomain L zoneApex (dn_Fqdn L (rr_Name x))) rrs
      in map (\<lambda>n. (n, sort (remdups (map rr_Rrtype (filter (\<lambda>x. dn_Fqdn L (rr_Name x) = n) inZone)))))
           (remdups (map (\<lambda>x. dn_Fqdn L (rr_Name x)) inZone)))"

definition bitmap_at :: "(string \<times> uint16 list) list \<Rightarrow> string \<Rightarrow> uint16 list" where
  "bitmap_at m name = (case map_of m name of None \<Rightarrow> [] | Some ts \<Rightarrow> ts)"

text \<open>The loop of \<open>canonicalDNSSECLess\<close> over the labels from the last to the first.\<close>

fun labels_less :: "string list \<Rightarrow> string list \<Rightarrow> bool option" where
  "labels_less (a # as) (b # bs) = (if a = b then labels_less as bs else Some (a < b))"
| "labels_less _ _ = None"

definition canonicalDNSSECLess :: "dns_names \<Rightarrow> string \<Rightarrow> string \<Rightarrow> bool" where
  "canonicalDNSSECLess L a b =
     (let aLabels = dn_SplitDomainName L (dn_CanonicalName L a); bLabels = dn_SplitDomainName L (dn_CanonicalName L b)
      in case labels_less (rev aLabels) (rev bLabels) of
           Some r \<Rightarrow> r | None \<Rightarrow> length aLabels < length bLabels)"

definition sortCanonicalDNSSECNames :: "dns_names \<Rightarrow> string list \<Rightarrow> string list" where
  "sortCanonicalDNSSECNames L names = sort_Slice (canonicalDNSSECLess L) names"

definition nsec_rr :: "uint32 \<Rightarrow> (string \<times> uint16 list) list \<Rightarrow> string list \<Rightarrow> string list \<Rightarrow> nat \<Rightarrow> RR" where
  "nsec_rr ttl typeBitmaps ents names i =
     (let name = names ! i; nextName = names ! (Suc i mod length names);
          bitmap = (if name \<in> set ents then [] else bitmap_at typeBitmaps name)
      in rr name TypeNSEC ttl (RR_NSEC nextName (sort_Slice (<) (appendUnique (appendUnique bitmap TypeNSEC) TypeRRSIG))))"

definition GenerateNSECChain :: "dns_names \<Rightarrow> string \<Rightarrow> RR list \<Rightarrow> uint32 \<Rightarrow> nsec_error + RR list" where
  "GenerateNSECChain L zoneApex0 rrs ttl =
     (let zoneApex = dn_Fqdn L zoneApex0 in
      case collectAuthoritativeNames L zoneApex rrs of
        None \<Rightarrow> Inl Diverges
      | Some (names, ents) \<Rightarrow>
        if names = [] then Inl NoNames
        else let typeBitmaps = typeBitmapByName L zoneApex rrs; sorted = sortCanonicalDNSSECNames L names
             in Inr (map (nsec_rr ttl typeBitmaps ents sorted) [0..<length sorted]))"

text \<open>The hashes of the names, with an error when two names share one.\<close>

fun hash_names :: "(string \<Rightarrow> string) \<Rightarrow> string list \<Rightarrow> (string \<times> string) list \<Rightarrow> nsec_error + (string \<times> string) list" where
  "hash_names h [] m = Inr m"
| "hash_names h (n # ns) m =
     (case map_of m (h n) of
        Some existing \<Rightarrow> Inl (HashCollision n existing (h n))
      | None \<Rightarrow> hash_names h ns (m @ [(h n, n)]))"

definition nsec3_rr ::
  "NSEC3Params \<Rightarrow> string \<Rightarrow> (string \<times> uint16 list) list \<Rightarrow> string list \<Rightarrow> (string \<times> string) list \<Rightarrow> string list \<Rightarrow> nat \<Rightarrow> RR" where
  "nsec3_rr params zoneApex typeBitmaps ents hashToName hashes i =
     (let hash = hashes ! i; name = (case map_of hashToName hash of None \<Rightarrow> [] | Some n \<Rightarrow> n);
          nextHash = hashes ! (Suc i mod length hashes);
          bitmap = (if name \<in> set ents then [] else bitmap_at typeBitmaps name)
      in rr (hash @ ''.'' @ zoneApex) TypeNSEC3 (np3_TTL params)
           (RR_NSEC3 \<lparr>n3_Hash = np3_HashAlg params, n3_Flags = np3_Flags params, n3_Iterations = np3_Iterations params,
                      n3_SaltLength = word_of_nat (length (np3_Salt params) div 2), n3_Salt = np3_Salt params,
                      n3_HashLength = 20, n3_NextDomain = nextHash, n3_TypeBitMap = bitmap\<rparr>))"

definition nsec3param_rr :: "NSEC3Params \<Rightarrow> string \<Rightarrow> RR" where
  "nsec3param_rr params zoneApex =
     rr zoneApex TypeNSEC3PARAM (np3_TTL params)
       (RR_NSEC3PARAM \<lparr>np_Hash = np3_HashAlg params, np_Flags = np3_Flags params, np_Iterations = np3_Iterations params,
                       np_SaltLength = word_of_nat (length (np3_Salt params) div 2), np_Salt = np3_Salt params\<rparr>)"

text \<open>Adding NSEC3PARAM to the bitmap of the apex, at its end.\<close>

definition with_nsec3param :: "string \<Rightarrow> (string \<times> uint16 list) list \<Rightarrow> (string \<times> uint16 list) list" where
  "with_nsec3param zoneApex typeBitmaps =
     (case map_of typeBitmaps zoneApex of
        Some apexBitmap \<Rightarrow> AList.update zoneApex (appendUnique apexBitmap TypeNSEC3PARAM) typeBitmaps
      | None \<Rightarrow> AList.update zoneApex [TypeNSEC3PARAM] typeBitmaps)"

definition GenerateNSEC3Chain :: "dns_names \<Rightarrow> string \<Rightarrow> RR list \<Rightarrow> NSEC3Params \<Rightarrow> nsec_error + RR list" where
  "GenerateNSEC3Chain L zoneApex0 rrs params =
     (let zoneApex = dn_Fqdn L zoneApex0 in
      case collectAuthoritativeNames L zoneApex rrs of
        None \<Rightarrow> Inl Diverges
      | Some (names, ents) \<Rightarrow>
        (let typeBitmaps = with_nsec3param zoneApex (typeBitmapByName L zoneApex rrs);
             h = (\<lambda>n. dn_HashName L n (np3_HashAlg params) (np3_Iterations params) (np3_Salt params))
         in case hash_names h names [] of
              Inl e \<Rightarrow> Inl e
            | Inr hashToName \<Rightarrow>
              (let hashes = sort (map fst hashToName)
               in Inr (nsec3param_rr params zoneApex
                   # map (nsec3_rr params zoneApex typeBitmaps ents hashToName hashes) [0..<length hashes]))))"

subsection \<open>The canonical order\<close>

lemma labels_less_iff:
  "(case labels_less as bs of Some r \<Rightarrow> r | None \<Rightarrow> length as < length bs) \<longleftrightarrow> as < bs"
proof (induction as arbitrary: bs)
  case Nil
  then show ?case by (cases bs) auto
next
  case (Cons a as)
  show ?case
  proof (cases bs)
    case (Cons b bs')
    then show ?thesis using Cons.IH [of bs'] by (cases "a = b"; cases "labels_less as bs'") auto
  qed simp
qed

interpretation canonical: comparison "canonicalDNSSECLess L" "\<lambda>n. rev (dn_SplitDomainName L (dn_CanonicalName L n))" for L
proof
  fix a b
  show "canonicalDNSSECLess L a b \<longleftrightarrow>
      rev (dn_SplitDomainName L (dn_CanonicalName L a)) < rev (dn_SplitDomainName L (dn_CanonicalName L b))"
    using labels_less_iff [of "rev (dn_SplitDomainName L (dn_CanonicalName L a))" "rev (dn_SplitDomainName L (dn_CanonicalName L b))"]
    by (simp add: canonicalDNSSECLess_def Let_def cong: option.case_cong)
qed

interpretation ascending: comparison "(<)" "\<lambda>x :: 'a :: linorder. x"
  by unfold_locales simp

subsection \<open>Chains of a sorted list\<close>

text \<open>
  What a record of the chain denies: the keys strictly between its own and the next one; the last record has
  those after it and those before the first. On a strictly sorted list each key that is absent is denied at exactly
  one place, and no key that is present is denied.
\<close>

definition denies :: "'k :: linorder \<Rightarrow> 'k \<Rightarrow> 'k \<Rightarrow> bool" where
  "denies a b q \<longleftrightarrow> (if a < b then a < q \<and> q < b else a < q \<or> q < b)"

lemma strict_nth: "sorted_wrt (<) ks \<Longrightarrow> i < length ks \<Longrightarrow> j < length ks \<Longrightarrow> ks ! i < (ks ! j :: 'k :: linorder) \<longleftrightarrow> i < j"
  by (metis linorder_less_linear order_less_asym sorted_wrt_nth_less)

text \<open>The elements below a bound are a prefix.\<close>

lemma below_prefix:
  fixes ks :: "'k :: linorder list"
  assumes "sorted_wrt (<) ks"
  obtains m where "m \<le> length ks" "\<And>i. i < length ks \<Longrightarrow> ks ! i < q \<longleftrightarrow> i < m"
proof -
  let ?m = "length (takeWhile (\<lambda>k. k < q) ks)"
  have m: "?m \<le> length ks" by (rule length_takeWhile_le)
  have "ks ! i < q \<longleftrightarrow> i < ?m" if i: "i < length ks" for i
  proof
    assume a: "ks ! i < q"
    show "i < ?m"
    proof (rule ccontr)
      assume "\<not> i < ?m"
      then have "?m < length ks" "?m \<le> i" using i by linarith+
      then have "\<not> ks ! ?m < q" using nth_length_takeWhile by blast
      moreover have "ks ! ?m \<le> ks ! i" using strict_nth [OF assms i \<open>?m < length ks\<close>] \<open>?m \<le> i\<close> by (simp add: not_less [symmetric])
      ultimately show False using a by simp
    qed
  next
    assume "i < ?m"
    then show "ks ! i < q" by (metis nth_mem set_takeWhileD takeWhile_nth)
  qed
  then show thesis using that m by blast
qed

lemma absent_denied_once:
  fixes ks :: "'k :: linorder list"
  assumes s: "sorted_wrt (<) ks" and n: "ks \<noteq> []" and q: "q \<notin> set ks"
  shows "\<exists>!i. i < length ks \<and> denies (ks ! i) (ks ! (Suc i mod length ks)) q"
proof -
  let ?n = "length ks"
  obtain m where m: "m \<le> ?n" "\<And>i. i < ?n \<Longrightarrow> ks ! i < q \<longleftrightarrow> i < m" using below_prefix [OF s] by blast
  have above: "q < ks ! i \<longleftrightarrow> m \<le> i" if "i < ?n" for i
    using m(2) [OF that] q that by (metis linorder_less_linear not_less nth_mem order_less_asym)
  have d: "denies (ks ! i) (ks ! (Suc i mod ?n)) q \<longleftrightarrow> (if Suc i < ?n then i < m \<and> m \<le> Suc i else m = 0 \<or> m = ?n)"
    if i: "i < ?n" for i
  proof (cases "Suc i < ?n")
    case True
    then show ?thesis using strict_nth [OF s i True] m(2) [OF i] above [OF True] by (simp add: denies_def)
  next
    case False
    then have e: "Suc i = ?n" using i by simp
    have "\<not> ks ! i < ks ! 0" using strict_nth [OF s i, of 0] i by (cases ks) auto
    then show ?thesis using m(1) m(2) [OF i] above [of 0] e i n by (auto simp: denies_def)
  qed
  let ?i = "if m = 0 then ?n - 1 else m - 1"
  show ?thesis
  proof (rule ex1I [of _ ?i])
    show "?i < ?n \<and> denies (ks ! ?i) (ks ! (Suc ?i mod ?n)) q"
      using d [of ?i] n m(1) by (cases m; cases "?n") (auto split: if_splits)
    show "i = ?i" if "i < ?n \<and> denies (ks ! i) (ks ! (Suc i mod ?n)) q" for i
      using that d [of i] m(1) by (auto split: if_splits)
  qed
qed

lemma present_not_denied:
  fixes ks :: "'k :: linorder list"
  assumes s: "sorted_wrt (<) ks" and "q \<in> set ks" "i < length ks"
  shows "\<not> denies (ks ! i) (ks ! (Suc i mod length ks)) q"
proof -
  let ?n = "length ks"
  obtain j where j: "j < ?n" "q = ks ! j" using assms(2) by (auto simp: in_set_conv_nth)
  have n: "Suc i mod ?n < ?n" using assms(3) by (intro mod_less_divisor) linarith
  show ?thesis
    using strict_nth [OF s assms(3) j(1)] strict_nth [OF s j(1) n] strict_nth [OF s assms(3) n] j assms(3)
    by (cases "Suc i = ?n") (auto simp: denies_def)
qed

end
