(* ===== verification/Net_IP_Facts.thy ===== *)
theory Net_IP_Facts
  imports Net_IP
begin

section \<open>IP addresses print and parse\<close>

text \<open>
  Every address that \<open>ParseIP\<close> returns has sixteen bytes, and printing it with \<open>ip_string\<close>, the run of zeros of an
  IPv6 address left out, gives a text that parses to the same address.
\<close>

lemma hex_val_digit: "n < 16 \<Longrightarrow> hex_val (hex_digit n) = Some n"
  by (auto simp: hex_val_def hex_digit_def is_digit_def)

lemma is_hex_digit: "n < 16 \<Longrightarrow> is_hex (hex_digit n)"
  by (simp add: is_hex_def hex_val_digit)

lemma hex_string_hex: "list_all is_hex (hex_string n)"
  by (induction n rule: hex_string.induct) (subst hex_string.simps, simp add: is_hex_digit)

lemma hex_string_nonempty [simp]: "hex_string n \<noteq> []"
  by (subst hex_string.simps) simp

lemma hex_num_snoc: "hex_num (s @ [c]) = 16 * hex_num s + the (hex_val c)"
  by (simp add: hex_num_def)

lemma hex_num_string: "hex_num (hex_string n) = n"
proof (induction n rule: hex_string.induct)
  case (1 n)
  then show ?case
    by (subst hex_string.simps) (auto simp: hex_num_snoc hex_val_digit, simp add: hex_num_def hex_val_digit)
qed

lemma hex_string_length: "n < 16 ^ Suc k \<Longrightarrow> length (hex_string n) \<le> Suc k"
proof (induction k arbitrary: n)
  case 0
  then show ?case by (subst hex_string.simps) simp
next
  case (Suc k)
  then have "n div 16 < 16 ^ Suc k" by (simp add: less_mult_imp_div_less mult.commute)
  then have "length (hex_string (n div 16)) \<le> Suc k" using Suc.IH by blast
  then show ?case by (subst hex_string.simps) simp
qed

abbreviation hex_groups :: "nat list \<Rightarrow> string" where
  "hex_groups gs \<equiv> join_with '':'' (map hex_string gs)"

definition group_bytes :: "nat list \<Rightarrow> nat list" where
  "group_bytes gs = concat (map (\<lambda>g. [g div 256, g mod 256]) gs)"

lemma hex_split:
  assumes "s = [] \<or> \<not> is_hex (hd s)"
  shows "takeWhile is_hex (hex_string g @ s) = hex_string g" "dropWhile is_hex (hex_string g @ s) = s"
  using hex_string_hex [of g] assms by (cases s; auto simp: list_all_iff)+

lemma v6_step_group:
  assumes "g < 65536" "s = [] \<or> (\<exists>c r. s = CHR '':'' # c # r \<and> c \<noteq> CHR '':'')"
  shows "v6_step out ell (hex_string g @ s) = Some (s \<noteq> [], out @ [g div 256, g mod 256], ell, tl s)"
proof -
  have "\<not> is_hex CHR '':''" by (simp add: is_hex_def hex_val_def is_digit_def byte_def)
  then have s: "s = [] \<or> \<not> is_hex (hd s)" using assms(2) by auto
  have "length (hex_string g) \<le> 4" using hex_string_length [of g 3] assms(1) by simp
  then show ?thesis using assms(2)
    by (auto simp: v6_step_def hex_split [OF s] hex_num_string Let_def not_less split: list.splits)
qed

lemma v6_step_ellipsis:
  assumes "g < 65536"
  shows "v6_step out None (hex_string g @ CHR '':'' # CHR '':'' # r) =
    Some (r \<noteq> [], out @ [g div 256, g mod 256], Some (length out + 2), r)"
proof -
  have "\<not> is_hex CHR '':''" by (simp add: is_hex_def hex_val_def is_digit_def byte_def)
  then have s: "CHR '':'' # CHR '':'' # r = [] \<or> \<not> is_hex (hd (CHR '':'' # CHR '':'' # r))" by simp
  have "length (hex_string g) \<le> 4" using hex_string_length [of g 3] assms by simp
  then show ?thesis by (simp add: v6_step_def hex_split [OF s] hex_num_string Let_def not_less)
qed

lemma hex_string_hd: "hex_string g @ s = c # r \<Longrightarrow> c \<noteq> CHR '':''"
proof -
  assume a: "hex_string g @ s = c # r"
  obtain x xs where x: "hex_string g = x # xs" by (meson hex_string_nonempty list.exhaust)
  have "is_hex x" using hex_string_hex [of g] x by simp
  then show ?thesis using a x by (auto simp: is_hex_def hex_val_def is_digit_def byte_def split: if_splits)
qed

lemma group_bytes_simps [simp]: "group_bytes [] = []" "group_bytes (g # gs) = g div 256 # g mod 256 # group_bytes gs"
  "length (group_bytes gs) = 2 * length gs"
  by (induction gs) (auto simp: group_bytes_def)

lemma hex_groups_Cons: "hex_groups (g # gs) = hex_string g @ (if gs = [] then [] else CHR '':'' # hex_groups gs)"
  by (cases gs) auto

lemma hex_groups_hd: "gs \<noteq> [] \<Longrightarrow> \<exists>c r. hex_groups gs = c # r \<and> c \<noteq> CHR '':''"
proof (cases gs)
  case (Cons g hs)
  obtain c r where c: "hex_groups gs = c # r"
    using Cons by (metis append_is_Nil_conv hex_groups_Cons hex_string_nonempty neq_Nil_conv)
  then show ?thesis using hex_string_hd [of g _ c r] unfolding Cons hex_groups_Cons by blast
qed simp

text \<open>The loop reads the groups that are left.\<close>

lemma v6_loop_groups:
  "gs \<noteq> [] \<Longrightarrow> length out + 2 * length gs \<le> 16 \<Longrightarrow> \<forall>g \<in> set gs. g < 65536 \<Longrightarrow>
    v6_loop out ell (hex_groups gs) = Some (out @ group_bytes gs, ell, [])"
proof (induction gs arbitrary: out)
  case (Cons g gs)
  show ?case
  proof (cases gs)
    case Nil
    then show ?thesis using Cons.prems v6_step_group [of g "[]" out ell] by (subst v6_loop.simps) simp
  next
    case (Cons h hs)
    obtain c r where c: "hex_groups gs = c # r" "c \<noteq> CHR '':''" using hex_groups_hd [of gs] Cons by auto
    have j: "hex_groups (g # gs) = hex_string g @ CHR '':'' # hex_groups gs" using Cons by simp
    have st: "v6_step out ell (hex_groups (g # gs)) = Some (True, out @ [g div 256, g mod 256], ell, hex_groups gs)"
      unfolding j using v6_step_group [of g "CHR '':'' # hex_groups gs" out ell] c Cons.prems by simp
    have "v6_loop (out @ [g div 256, g mod 256]) ell (hex_groups gs)
        = Some ((out @ [g div 256, g mod 256]) @ group_bytes gs, ell, [])"
      using Cons.prems Cons by (intro Cons.IH) auto
    then show ?thesis using st Cons.prems by (subst v6_loop.simps) simp
  qed
qed simp


text \<open>The loop reads groups up to an ellipsis, and the groups after it.\<close>

lemma v6_loop_ellipsis:
  "xs \<noteq> [] \<Longrightarrow> length out + 2 * length xs + 2 * length ys < 16 \<Longrightarrow> \<forall>g \<in> set xs \<union> set ys. g < 65536 \<Longrightarrow>
    v6_loop out None (hex_groups xs @ CHR '':'' # CHR '':'' # hex_groups ys) =
      Some (out @ group_bytes xs @ group_bytes ys, Some (length out + 2 * length xs), [])"
proof (induction xs arbitrary: out)
  case (Cons g gs)
  let ?rest = "CHR '':'' # CHR '':'' # hex_groups ys"
  show ?case
  proof (cases gs)
    case Nil
    have st: "v6_step out None (hex_string g @ ?rest) =
        Some (ys \<noteq> [], out @ [g div 256, g mod 256], Some (length out + 2), hex_groups ys)"
      using v6_step_ellipsis [of g out "hex_groups ys"] Cons.prems hex_groups_hd [of ys] by (cases "ys = []") auto
    have "ys \<noteq> [] \<Longrightarrow> v6_loop (out @ [g div 256, g mod 256]) (Some (length out + 2)) (hex_groups ys)
        = Some ((out @ [g div 256, g mod 256]) @ group_bytes ys, Some (length out + 2), [])"
      using Cons.prems by (intro v6_loop_groups) auto
    then show ?thesis using st Cons.prems Nil by (subst v6_loop.simps) auto
  next
    case (Cons h hs)
    obtain c r where c: "hex_groups gs = c # r" "c \<noteq> CHR '':''" using hex_groups_hd [of gs] Cons by auto
    have j: "hex_groups (g # gs) @ ?rest = hex_string g @ CHR '':'' # (hex_groups gs @ ?rest)" using Cons by simp
    have st: "v6_step out None (hex_groups (g # gs) @ ?rest)
        = Some (True, out @ [g div 256, g mod 256], None, hex_groups gs @ ?rest)"
      unfolding j using v6_step_group [of g "CHR '':'' # (hex_groups gs @ ?rest)" out None] c Cons.prems by simp
    have "v6_loop (out @ [g div 256, g mod 256]) None (hex_groups gs @ ?rest)
        = Some ((out @ [g div 256, g mod 256]) @ group_bytes gs @ group_bytes ys,
            Some (length (out @ [g div 256, g mod 256]) + 2 * length gs), [])"
      using Cons.prems Cons by (intro Cons.IH) auto
    then show ?thesis using st Cons.prems by (subst v6_loop.simps) simp
  qed
qed simp

text \<open>Groups of an address, and the run of zeros that is left out.\<close>

lemma groups_bytes: "even (length a) \<Longrightarrow> \<forall>b \<in> set a. b < 256 \<Longrightarrow> group_bytes (groups a) = a"
  by (induction a rule: groups.induct) auto

lemma groups_bound: "\<forall>b \<in> set a. b < 256 \<Longrightarrow> g \<in> set (groups a) \<Longrightarrow> g < 65536"
  by (induction a rule: groups.induct) auto

lemma length_groups: "length (groups a) = length a div 2"
  by (induction a rule: groups.induct) auto

lemma zero_run_zeros: "zero_run gs \<le> length gs" "take (zero_run gs) gs = replicate (zero_run gs) 0"
  by (induction gs rule: zero_run.induct) auto

lemma longest_run_zeros:
  "longest_run k gs = (i, n) \<Longrightarrow> n \<noteq> 0 \<Longrightarrow>
    2 \<le> n \<and> k \<le> i \<and> i - k + n \<le> length gs \<and> take n (drop (i - k) gs) = replicate n 0"
proof (induction k gs arbitrary: i n rule: longest_run.induct)
  case (2 k g gs)
  obtain j m where jm: "longest_run (Suc k) gs = (j, m)" by (cases "longest_run (Suc k) gs") auto
  show ?case
  proof (cases "2 \<le> zero_run (g # gs) \<and> m \<le> zero_run (g # gs)")
    case True
    then have "i = k" "n = zero_run (g # gs)" using "2.prems"(1) jm by (auto simp: Let_def)
    then show ?thesis using True zero_run_zeros [of "g # gs"] by simp
  next
    case False
    then have "i = j" "n = m" using "2.prems"(1) jm by (auto simp: Let_def split: if_splits)
    then have "2 \<le> n \<and> Suc k \<le> i \<and> i - Suc k + n \<le> length gs \<and> take n (drop (i - Suc k) gs) = replicate n 0"
      using "2.IH" [OF refl _ "2.prems"(2)] jm by blast
    moreover have "drop (i - k) (g # gs) = drop (i - Suc k) gs" if "Suc k \<le> i"
      using that by (metis Suc_diff_le diff_Suc_Suc drop_Suc_Cons)
    ultimately show ?thesis by auto
  qed
qed simp

lemma group_bytes_append: "group_bytes (xs @ ys) = group_bytes xs @ group_bytes ys"
  by (simp add: group_bytes_def)

lemma group_bytes_zeros: "group_bytes (replicate n 0) = replicate (2 * n) 0"
  by (induction n) auto

text \<open>Printing an IPv6 address and parsing it again gives the address.\<close>

lemma parse_ipv6_print:
  assumes "length a = 16" "\<forall>b \<in> set a. b < 256" "To4 a = None"
  shows "parse_ipv6 (ip_string a) = Some a"
proof -
  obtain i n where r: "longest_run 0 (groups a) = (i, n)" by (cases "longest_run 0 (groups a)") auto
  let ?g = "groups a"
  have g: "length ?g = 8" "\<forall>g \<in> set ?g. g < 65536" "group_bytes ?g = a"
    using assms groups_bytes groups_bound by (auto simp: length_groups)
  have nohead: "\<not> HasPrefix s ''::''" if "s \<noteq> []" "hd s \<noteq> CHR '':''" for s
    using that by (cases s) (auto simp: HasPrefix_iff)
  show ?thesis
  proof (cases "n = 0")
    case True
    obtain c s where "hex_groups ?g = c # s" "c \<noteq> CHR '':''" using hex_groups_hd [of ?g] g(1) by fastforce
    then have "\<not> HasPrefix (hex_groups ?g) ''::''" using nohead by simp
    moreover have "v6_loop [] None (hex_groups ?g) = Some (a, None, [])"
      using v6_loop_groups [of ?g "[]" None] g by fastforce
    ultimately show ?thesis using True r assms by (simp add: parse_ipv6_def ip_string_def Let_def)
  next
    case False
    note z = longest_run_zeros [OF r False]
    let ?x = "take i ?g" and ?y = "drop (i + n) ?g"
    have split: "?g = ?x @ replicate n 0 @ ?y"
      using z by (metis append_take_drop_id diff_zero drop_drop add.commute)
    have len: "length ?x = i" "length ?y = 8 - (i + n)" "i + n \<le> 8" using z g(1) by auto
    have ga: "a = group_bytes ?x @ replicate (2 * n) 0 @ group_bytes ?y"
      using g(3) split by (metis group_bytes_append group_bytes_zeros)
    have lt: "\<forall>g \<in> set ?x \<union> set ?y. g < 65536" using g(2) by (meson Un_iff in_set_dropD in_set_takeD)
    have shown: "ip_string a = hex_groups ?x @ ''::'' @ hex_groups ?y"
      using assms(3) r False by (simp add: ip_string_def Let_def)
    show ?thesis
    proof (cases "i = 0")
      case True
      then show ?thesis
      proof (cases "?y = []")
        case True
        then have "a = replicate 16 0" using ga \<open>i = 0\<close> len by simp
        then show ?thesis using shown True \<open>i = 0\<close> by (simp add: parse_ipv6_def HasPrefix_def)
      next
        case False
        have "v6_loop [] (Some 0) (hex_groups ?y) = Some (group_bytes ?y, Some 0, [])"
          using v6_loop_groups [of ?y "[]" "Some 0"] False lt len z by auto
        moreover have "hex_groups ?y \<noteq> []" using hex_groups_hd [OF False] by auto
        moreover have "16 - 2 * (8 - n) = 2 * n" "replicate (2 * n) 0 @ group_bytes ?y = a"
          using len ga \<open>i = 0\<close> by simp_all
        ultimately show ?thesis using shown \<open>i = 0\<close> len z by (simp add: parse_ipv6_def HasPrefix_def)
      qed
    next
      case False
      then have x: "?x \<noteq> []" using len by auto
      then obtain c s where "hex_groups ?x = c # s" "c \<noteq> CHR '':''" using hex_groups_hd by blast
      then have "\<not> HasPrefix (ip_string a) ''::''" using shown nohead [of "ip_string a"] by simp
      have "length ([] :: nat list) + 2 * length ?x + 2 * length ?y < 16"
        using conjunct1 [OF z] len by simp
      from v6_loop_ellipsis [OF x this lt]
      have "v6_loop [] None (ip_string a) = Some (group_bytes ?x @ group_bytes ?y, Some (2 * i), [])"
        using len shown by simp
      moreover have "16 - (2 * i + 2 * (8 - (i + n))) = 2 * n" "2 * i + 2 * (8 - (i + n)) < 16"
        using conjunct1 [OF z] len(3) by simp_all
      ultimately show ?thesis using ga [symmetric] len \<open>\<not> HasPrefix (ip_string a) ''::''\<close> by (simp add: parse_ipv6_def)
    qed
  qed
qed


lemma hex_groups_chars: "c \<in> set (hex_groups gs) \<Longrightarrow> is_hex c \<or> c = CHR '':''"
proof (induction gs)
  case (Cons g gs)
  then show ?case using hex_string_hex [of g] unfolding hex_groups_Cons by (auto simp: list_all_iff split: if_splits)
qed simp

lemma ip_string_v6_chars: "To4 a = None \<Longrightarrow> c \<in> set (ip_string a) \<Longrightarrow> is_hex c \<or> c = CHR '':''"
  using hex_groups_chars by (auto simp: ip_string_def Let_def split: prod.splits if_splits)

lemma not_hex: "\<not> is_hex CHR ''.''" "\<not> is_hex CHR ''%''"
  by (simp_all add: is_hex_def hex_val_def is_digit_def byte_def)

lemma ip_string_v6_colon: "length a = 16 \<Longrightarrow> To4 a = None \<Longrightarrow> CHR '':'' \<in> set (ip_string a)"
proof -
  assume a: "length a = 16" "To4 a = None"
  then have len: "length (groups a) = 8" by (simp add: length_groups)
  have "CHR '':'' \<in> set (hex_groups gs)" if "1 < length gs" for gs
    using that by (cases gs; cases "tl gs") auto
  then show ?thesis using a(2) len by (cases "longest_run 0 (groups a)") (simp add: ip_string_def Let_def)
qed

lemma v4_text: "length q = 4 \<Longrightarrow> \<exists>s. join_with ''.'' (map dec_string q) = dec_string (hd q) @ CHR ''.'' # s"
  by (cases q; cases "tl q") auto

text \<open>Printing any address and parsing it again gives the address.\<close>

lemma ParseIP_print:
  assumes "length a = 16" "\<forall>b \<in> set a. b < 256"
  shows "ParseIP (ip_string a) = Some a"
proof (cases "To4 a")
  case None
  have "CHR ''%'' \<notin> set (ip_string a)" "CHR ''.'' \<notin> set (ip_string a)"
    using ip_string_v6_chars [OF None] not_hex by force+
  moreover have "dropWhile (\<lambda>c. c \<noteq> CHR ''.'' \<and> c \<noteq> CHR '':'') (ip_string a) \<noteq> []"
    using ip_string_v6_colon [OF assms(1) None] by (auto simp: dropWhile_eq_Nil_conv)
  then obtain c r where c: "dropWhile (\<lambda>c. c \<noteq> CHR ''.'' \<and> c \<noteq> CHR '':'') (ip_string a) = c # r"
    by (cases "dropWhile (\<lambda>c. c \<noteq> CHR ''.'' \<and> c \<noteq> CHR '':'') (ip_string a)") auto
  then have "c \<in> set (ip_string a)" by (metis list.set_intros(1) set_dropWhileD)
  ultimately show ?thesis using parse_ipv6_print [OF assms None] c by (auto simp: ParseIP_def)
next
  case (Some q)
  then have q: "a = v4_prefix @ q" "length q = 4" by (auto simp: To4_def split: if_splits) (metis append_take_drop_id)
  let ?s = "join_with ''.'' (map dec_string q)"
  have d: "is_digit c \<Longrightarrow> c \<noteq> CHR ''.'' \<and> c \<noteq> CHR '':'' \<and> c \<noteq> CHR ''%''" for c by (auto simp: is_digit_def byte_def)
  have dq: "\<forall>c \<in> set (dec_string n). is_digit c" for n using dec_string_digits [of n] by (simp add: list_all_iff)
  obtain s where s: "?s = dec_string (hd q) @ CHR ''.'' # s" using v4_text [OF q(2)] by blast
  have "dropWhile (\<lambda>c. c \<noteq> CHR ''.'' \<and> c \<noteq> CHR '':'') ?s = CHR ''.'' # s"
    unfolding s using d dq [of "hd q"] by (subst dropWhile_append2) auto
  moreover have "CHR ''%'' \<notin> set ?s"
  proof -
    have j: "c \<in> set (join_with ''.'' (map dec_string ns)) \<Longrightarrow> is_digit c \<or> c = CHR ''.''" for c ns
    proof (induction ns rule: induct_list012)
      case (2 n)
      then show ?case using dq [of n] by simp
    next
      case (3 m n ns)
      then show ?case using dq [of m] by auto
    qed simp
    show ?thesis using j [of "CHR ''%''" q] d [of "CHR ''%''"] by (auto simp del: map_eq_Cons_conv)
  qed
  moreover have "parse_ipv4_fields ?s = Some q" using parse_ipv4_print [OF q(2)] assms(2) q(1) by auto
  moreover have "ip_string a = ?s" using Some by (simp add: ip_string_def)
  ultimately show ?thesis using q by (simp add: ParseIP_def)
qed

text \<open>Every byte of a parsed address is a byte.\<close>

lemma hex_val_less: "hex_val c = Some n \<Longrightarrow> n < 16"
  by (auto simp: hex_val_def is_digit_def split: if_splits)

lemma hex_num_less: "list_all is_hex s \<Longrightarrow> hex_num s < 16 ^ length s"
proof (induction s rule: rev_induct)
  case (snoc c s)
  then obtain n where "hex_val c = Some n" by (auto simp: is_hex_def)
  then show ?case using snoc hex_val_less [of c n] by (simp add: hex_num_snoc)
qed (simp add: hex_num_def)

lemma v6_step_bytes:
  assumes "v6_step out ell s = Some (b, o', e', r)" "\<forall>x \<in> set out. x < 256"
  shows "\<forall>x \<in> set o'. x < 256"
proof -
  let ?d = "takeWhile is_hex s"
  have "length ?d \<le> 4 \<Longrightarrow> hex_num ?d < 16 ^ 4"
    using hex_num_less [of ?d] by (metis list_all_iff set_takeWhileD less_le_trans one_le_numeral power_increasing)
  then have "length ?d \<le> 4 \<Longrightarrow> hex_num ?d div 256 < 256" by (simp add: less_mult_imp_div_less)
  then show ?thesis using assms
    by (auto simp: v6_step_def Let_def not_less split: if_splits list.splits)
      (use parse_ipv4_fields_bytes in blast)+
qed

lemma v6_loop_bytes: "v6_loop out ell s = Some (o', e', r) \<Longrightarrow> \<forall>x \<in> set out. x < 256 \<Longrightarrow> \<forall>x \<in> set o'. x < 256"
proof (induction out ell s rule: v6_loop.induct)
  case (1 out ell s)
  show ?case
  proof (cases "16 \<le> length out")
    case True
    then show ?thesis using 1(2,3) by (simp add: v6_loop.simps [of out])
  next
    case False
    then obtain b p e u where st: "v6_step out ell s = Some (b, p, e, u)"
      using 1(2) by (cases "v6_step out ell s") (auto simp: v6_loop.simps [of out])
    have p: "\<forall>x \<in> set p. x < 256" using v6_step_bytes [OF st 1(3)] .
    show ?thesis
    proof (cases b)
      case True
      then show ?thesis using 1(1) [OF False st refl refl refl True _ p] 1(2) False st by (simp add: v6_loop.simps [of out])
    next
      case False
      then show ?thesis using 1(2) \<open>\<not> 16 \<le> length out\<close> st p by (simp add: v6_loop.simps [of out])
    qed
  qed
qed

lemma parse_ipv6_source:
  assumes "parse_ipv6 t = Some a"
  shows "a = replicate 16 0 \<or> (\<exists>l u out e. v6_loop [] l u = Some (out, e, []) \<and> set a \<subseteq> insert 0 (set out))"
proof (cases "HasPrefix t ''::'' \<and> drop 2 t = []")
  case True
  then show ?thesis using assms by (simp add: parse_ipv6_def)
next
  case False
  let ?l = "if HasPrefix t ''::'' then Some 0 else None" and ?u = "if HasPrefix t ''::'' then drop 2 t else t"
  have u: "\<not> (HasPrefix t ''::'' \<and> ?u = [])" using False by simp
  obtain out e rest where l: "v6_loop [] ?l ?u = Some (out, e, rest)"
    using assms u unfolding parse_ipv6_def Let_def by (cases "v6_loop [] ?l ?u") auto
  have "rest = [] \<and> set a \<subseteq> insert 0 (set out)"
    using assms u l set_take_subset set_drop_subset unfolding parse_ipv6_def Let_def
    by (auto split: if_splits option.splits dest: in_set_takeD in_set_dropD)
  then show ?thesis using l by blast
qed

lemma ParseIP_bytes:
  assumes "ParseIP s = Some a"
  shows "\<forall>b \<in> set a. b < 256"
proof -
  have "\<forall>b \<in> set a. b < 256" if "parse_ipv6 t = Some a" for t
    using parse_ipv6_source [OF that] v6_loop_bytes [of "[]"] by fastforce
  moreover have "\<forall>b \<in> set a. b < 256" if "parse_ipv4_fields t = Some q" "a = v4_prefix @ q" for t q
    using parse_ipv4_fields_bytes [OF that(1)] that(2) by (auto simp: v4_prefix_def)
  ultimately show ?thesis using assms by (auto simp: ParseIP_def split: if_splits list.splits)
qed

end
