(* ===== verification/Zone_Signer.thy ===== *)
theory Zone_Signer
  imports Nsec_Chain Net_IP_Facts "HOL-Library.Monad_Syntax"
begin

section \<open>Signing a zone (pkg/dnssec/signer.go, pkg/dnssec/types.go)\<close>

text \<open>
  The conversion of a zone to resource records, the grouping into RRsets, one signature per RRset, the denial chain
  with its signatures and the final order. Times are nanoseconds since 1970. The keys and the cryptography are
  parameters: \<open>'k\<close> is the type of private keys, and \<open>signing_lib\<close> has the functions of the DNS library that
  depend on them. The order in which Go visits the RRsets of a map is unspecified; here it is the order in which they
  first occur.
\<close>

subsection \<open>Names and files of keys (types.go)\<close>

datatype KeyRole = KeyRoleKSK | KeyRoleZSK

record KeyID =
  ki_Zone :: string
  ki_Algorithm :: uint8
  ki_KeyTag :: uint16

record 'k KeyPair =
  kp_ID :: KeyID
  kp_Role :: KeyRole
  kp_DNSKEY :: RR
  kp_Private :: 'k

datatype signer_error =
    SE_NilZone | SE_ZoneEmpty | SE_ZoneName model_error | SE_KeysMissing | SE_Keys string | SE_Convert string signer_error
  | SE_IP string | SE_NotIPv4 string | SE_NotIPv6 string | SE_MX string | SE_MXPriority string | SE_SRV string
  | SE_CAA string | SE_CAAFlag string | SE_Type string
  | SE_TTL string uint32 uint32 | SE_Class string uint16 uint16
  | SE_EmptyRRset | SE_Inconsistent | SE_NotSigner | SE_Sign string | SE_RRset string uint16 signer_error
  | SE_Chain nsec_error | SE_ChainRecord string signer_error | SE_NoRRSIG

definition NormalizeZoneFQDN :: "string \<Rightarrow> signer_error + string" where
  "NormalizeZoneFQDN zone0 =
     (let zone1 = TrimSpace zone0 in
      if zone1 = [] then Inl SE_ZoneEmpty
      else let zone2 = ToLower zone1; zone = (if HasSuffix zone2 ''.'' then zone2 else zone2 @ ''.'')
           in case ValidateZoneName zone of Some e \<Rightarrow> Inl (SE_ZoneName e) | None \<Rightarrow> Inr zone)"

definition ZoneNameForFile :: "string \<Rightarrow> signer_error + string" where
  "ZoneNameForFile zone = bindE (NormalizeZoneFQDN zone) (\<lambda>z. Inr (TrimSuffix z ''.''))"

text \<open>The verbs \<open>%03d\<close> and \<open>%05d\<close>.\<close>

definition zero_padded :: "nat \<Rightarrow> nat \<Rightarrow> string" where
  "zero_padded width n = replicate (width - length (dec_string n)) CHR ''0'' @ dec_string n"

definition MakeKeyFilenames :: "string \<Rightarrow> uint8 \<Rightarrow> uint16 \<Rightarrow> signer_error + string \<times> string" where
  "MakeKeyFilenames zone alg keyTag =
     bindE (ZoneNameForFile zone) (\<lambda>zoneName.
       let base = ''K'' @ zoneName @ ''.+'' @ zero_padded 3 (unat alg) @ ''+'' @ zero_padded 5 (unat keyTag)
       in Inr (base @ ''.key'', base @ ''.private.enc''))"

definition AlgorithmName :: "uint8 \<Rightarrow> string" where
  "AlgorithmName alg =
     (if alg = 8 then ''RSASHA256'' else if alg = 13 then ''ECDSAP256SHA256''
      else ''UNKNOWN('' @ dec_string (unat alg) @ '')'')"

definition ValidateAlgorithm :: "uint8 \<Rightarrow> bool" where
  "ValidateAlgorithm alg \<longleftrightarrow> alg = 8 \<or> alg = 13"

subsection \<open>Scanning with \<open>fmt.Sscanf\<close>\<close>

text \<open>
  White space is skipped before a value, but a newline is an error. A space of the format needs white space in the
  input, or its end. \<open>%d\<close> takes the longest run of digits, \<open>%s\<close> everything up to white space; what follows the
  last verb is ignored.
\<close>

function skip_space :: "string \<Rightarrow> string option" where
  "skip_space s =
     (if HasPrefix s [CHR 0x0A] then None
      else if HasPrefix s [CHR 0x0D, CHR 0x0A] then None
      else if ws_len s = 0 then Some s else skip_space (drop (ws_len s) s))"
  by pat_completeness auto
termination
proof (relation "measure length", goal_cases)
  case (2 s)
  then show ?case using ws_len_le [of s] by (cases s) auto
qed simp

declare skip_space.simps [simp del]

definition scan_uint16 :: "string \<Rightarrow> (uint16 \<times> string) option" where
  "scan_uint16 s =
     (case skip_space s of
        None \<Rightarrow> None
      | Some t \<Rightarrow>
        (let tok = takeWhile is_digit t in
         if tok = [] \<or> 65535 < dec_val tok then None
         else Some (word_of_nat (dec_val tok), dropWhile is_digit t)))"

function scan_format_space :: "string \<Rightarrow> string" where
  "scan_format_space s =
     (if HasPrefix s [CHR 0x0A] \<or> ws_len s = 0 then s else scan_format_space (drop (ws_len s) s))"
  by pat_completeness auto
termination
proof (relation "measure length", goal_cases)
  case (2 s)
  then show ?case using ws_len_le [of s] by (cases s) auto
qed simp

declare scan_format_space.simps [simp del]

definition format_space :: "string \<Rightarrow> string option" where
  "format_space s =
     (if s = [] then Some []
      else if ws_len s = 0 \<or> HasPrefix s [CHR 0x0A] then None else Some (scan_format_space s))"

function scan_until_space :: "string \<Rightarrow> string" where
  "scan_until_space s = (if s = [] \<or> 0 < ws_len s then [] else hd s # scan_until_space (tl s))"
  by pat_completeness auto
termination
  by (relation "measure length") auto

declare scan_until_space.simps [simp del]

definition scan_word :: "string \<Rightarrow> string option" where
  "scan_word s = (case skip_space s of None \<Rightarrow> None | Some [] \<Rightarrow> None | Some t \<Rightarrow> Some (scan_until_space t))"

text \<open>\<open>fmt.Sscanf(value, "%d %d %d %s", ...)\<close> and \<open>fmt.Sscanf(value, "%d", ...)\<close>\<close>

definition scan_srv :: "string \<Rightarrow> (uint16 \<times> uint16 \<times> uint16 \<times> string) option" where
  "scan_srv value = do {
     (priority, s1) \<leftarrow> scan_uint16 value; s2 \<leftarrow> format_space s1;
     (weight, s3) \<leftarrow> scan_uint16 s2; s4 \<leftarrow> format_space s3;
     (port, s5) \<leftarrow> scan_uint16 s4; s6 \<leftarrow> format_space s5;
     target \<leftarrow> scan_word s6;
     Some (priority, weight, port, target) }"

text \<open>\<open>strings.Trim(value, "\"")\<close>\<close>

definition trim_quotes :: "string \<Rightarrow> string" where
  "trim_quotes v = rev (dropWhile (\<lambda>c. c = CHR 0x22) (rev (dropWhile (\<lambda>c. c = CHR 0x22) v)))"

subsection \<open>Records\<close>

definition recordToRR :: "string \<Rightarrow> Record \<Rightarrow> signer_error + RR" where
  "recordToRR origin record =
     (let hdr = rr (NormalizeRecordOwnerName (r_Name record) origin); ttl = r_TTL record;
          value = r_Value record; target = (\<lambda>t. NormalizeDomainTargetName t origin) in
      if r_Type record = RecordTypeA then
        (case ParseIP value of
           None \<Rightarrow> Inl (SE_IP value)
         | Some ip \<Rightarrow> (case To4 ip of None \<Rightarrow> Inl (SE_NotIPv4 value) | Some v4 \<Rightarrow> Inr (hdr TypeA ttl (RR_A v4))))
      else if r_Type record = RecordTypeAAAA then
        (case ParseIP value of
           None \<Rightarrow> Inl (SE_IP value)
         | Some ip \<Rightarrow> if To4 ip \<noteq> None then Inl (SE_NotIPv6 value) else Inr (hdr TypeAAAA ttl (RR_AAAA ip)))
      else if r_Type record = RecordTypeNS then Inr (hdr TypeNS ttl (RR_NS (target value)))
      else if r_Type record = RecordTypeCNAME then Inr (hdr TypeCNAME ttl (RR_CNAME (target value)))
      else if r_Type record = RecordTypeMX then
        (case Fields value of
           [p, t] \<Rightarrow>
             (case scan_uint16 p of
                None \<Rightarrow> Inl (SE_MXPriority p)
              | Some (prio, _) \<Rightarrow> Inr (hdr TypeMX ttl (RR_MX prio (target t))))
         | _ \<Rightarrow> Inl (SE_MX value))
      else if r_Type record = RecordTypeTXT then Inr (hdr TypeTXT ttl (RR_TXT (SplitTXTValue value)))
      else if r_Type record = RecordTypePTR then Inr (hdr TypePTR ttl (RR_PTR (target value)))
      else if r_Type record = RecordTypeSRV then
        (case scan_srv value of
           None \<Rightarrow> Inl (SE_SRV value)
         | Some (priority, weight, port, t) \<Rightarrow> Inr (hdr TypeSRV ttl (RR_SRV priority weight port (target t))))
      else if r_Type record = RecordTypeCAA then
        (case Fields value of
           f # tag # v # vs \<Rightarrow>
             (case Atoi f of
                None \<Rightarrow> Inl (SE_CAAFlag f)
              | Some flag \<Rightarrow>
                if flag < 0 \<or> 255 < flag then Inl (SE_CAAFlag f)
                else Inr (hdr TypeCAA ttl (RR_CAA (word_of_int flag) tag (trim_quotes (join_with '' '' (v # vs))))))
         | _ \<Rightarrow> Inl (SE_CAA value))
      else Inl (SE_Type (r_Type record)))"

fun records_to_rrs :: "string \<Rightarrow> Record list \<Rightarrow> signer_error + RR list" where
  "records_to_rrs origin [] = Inr []"
| "records_to_rrs origin (r # rs) =
     (case recordToRR origin r of
        Inl e \<Rightarrow> Inl (SE_Convert (r_Name r) e)
      | Inr x \<Rightarrow> bindE (records_to_rrs origin rs) (\<lambda>xs. Inr (x # xs)))"

definition modelToRRs :: "Zone \<Rightarrow> string \<Rightarrow> signer_error + RR list" where
  "modelToRRs zone normalizedZoneName =
     bindE (records_to_rrs normalizedZoneName (z_Records zone))
       (\<lambda>rrs. Inr (soa_rr normalizedZoneName (z_SOA zone) # rrs))"

subsection \<open>RRsets\<close>

definition rrset_key :: "RR \<Rightarrow> string" where
  "rrset_key x = rr_Name x @ ''/'' @ dec_string (unat (rr_Rrtype x))"

definition rrset_groups :: "RR list \<Rightarrow> RR list list" where
  "rrset_groups rrs = map (\<lambda>k. filter (\<lambda>x. rrset_key x = k) rrs) (remdups (map rrset_key rrs))"

fun check_rrset :: "string \<Rightarrow> RR \<Rightarrow> RR list \<Rightarrow> signer_error option" where
  "check_rrset key first [] = None"
| "check_rrset key first (x # xs) =
     (if rr_Ttl x \<noteq> rr_Ttl first then Some (SE_TTL key (rr_Ttl first) (rr_Ttl x))
      else if rr_Class x \<noteq> rr_Class first then Some (SE_Class key (rr_Class first) (rr_Class x))
      else check_rrset key first xs)"

fun check_groups :: "RR list list \<Rightarrow> signer_error option" where
  "check_groups [] = None"
| "check_groups (g # gs) =
     (case check_rrset (rrset_key (hd g)) (hd g) (tl g) of Some e \<Rightarrow> Some e | None \<Rightarrow> check_groups gs)"

definition groupRRsets :: "RR list \<Rightarrow> signer_error + RR list list" where
  "groupRRsets rrs = (case check_groups (rrset_groups rrs) of Some e \<Rightarrow> Inl e | None \<Rightarrow> Inr (rrset_groups rrs))"

subsection \<open>Signatures\<close>

record 'k signing_lib =
  sl_IsRRset :: "RR list \<Rightarrow> bool"
  sl_KeyTag :: "RR \<Rightarrow> uint16"
  sl_Signer :: "'k \<Rightarrow> bool"
  sl_Sign :: "'k \<Rightarrow> RRSIG_data \<Rightarrow> RR list \<Rightarrow> string + RRSIG_data"

record SignerOptions =
  so_Inception :: int
  so_Expiration :: int
  so_ResignThreshold :: int
  so_NSEC3Enabled :: bool
  so_NSEC3Iterations :: uint16
  so_NSEC3SaltLength :: int

definition second :: int where "second = 1000000000"

definition DefaultSignerOptions :: SignerOptions where
  "DefaultSignerOptions =
     \<lparr>so_Inception = - (3600 * second), so_Expiration = 30 * 24 * 3600 * second, so_ResignThreshold = 7 * 24 * 3600 * second,
      so_NSEC3Enabled = True, so_NSEC3Iterations = 1, so_NSEC3SaltLength = 8\<rparr>"

definition NewZoneSigner :: "SignerOptions \<Rightarrow> SignerOptions" where
  "NewZoneSigner opts0 =
     (let opts1 = (if opts0 = \<lparr>so_Inception = 0, so_Expiration = 0, so_ResignThreshold = 0, so_NSEC3Enabled = False,
                              so_NSEC3Iterations = 0, so_NSEC3SaltLength = 0\<rparr> then DefaultSignerOptions else opts0);
          opts2 = (if so_Expiration opts1 \<le> 0 then opts1\<lparr>so_Expiration := so_Expiration DefaultSignerOptions\<rparr> else opts1)
      in if so_ResignThreshold opts2 < 0 then opts2\<lparr>so_ResignThreshold := 0\<rparr> else opts2)"

definition unix32 :: "int \<Rightarrow> uint32" where
  "unix32 t = word_of_int (t div second)"

definition dnskey_algorithm :: "RR \<Rightarrow> uint8" where
  "dnskey_algorithm x = (case rr_Data x of RR_DNSKEY d \<Rightarrow> dk_Algorithm d | _ \<Rightarrow> 0)"

definition rrsigLabelCount :: "dns_names \<Rightarrow> string \<Rightarrow> uint8" where
  "rrsigLabelCount L owner =
     (let labels = dn_CountLabel L owner
      in word_of_nat (if HasPrefix owner ''*.'' \<and> 0 < labels then labels - 1 else labels))"

definition rrsig_template :: "dns_names \<Rightarrow> 'k signing_lib \<Rightarrow> SignerOptions \<Rightarrow> int \<Rightarrow> RR \<Rightarrow> 'k KeyPair \<Rightarrow> string \<Rightarrow> RRSIG_data" where
  "rrsig_template L S opts now x key zoneName =
     \<lparr>rs_TypeCovered = rr_Rrtype x, rs_Algorithm = dnskey_algorithm (kp_DNSKEY key),
      rs_Labels = rrsigLabelCount L (rr_Name x), rs_OrigTtl = rr_Ttl x,
      rs_Expiration = unix32 (now + so_Expiration opts), rs_Inception = unix32 (now + so_Inception opts),
      rs_KeyTag = sl_KeyTag S (kp_DNSKEY key), rs_SignerName = zoneName, rs_Signature = []\<rparr>"

definition signRRset ::
  "dns_names \<Rightarrow> 'k signing_lib \<Rightarrow> SignerOptions \<Rightarrow> int \<Rightarrow> RR list \<Rightarrow> 'k KeyPair \<Rightarrow> string \<Rightarrow> signer_error + RR" where
  "signRRset L S opts now rrset key zoneName =
     (case rrset of
        [] \<Rightarrow> Inl SE_EmptyRRset
      | x # _ \<Rightarrow>
        if \<not> sl_IsRRset S rrset then Inl SE_Inconsistent
        else if \<not> sl_Signer S (kp_Private key) then Inl SE_NotSigner
        else case sl_Sign S (kp_Private key) (rrsig_template L S opts now x key zoneName) rrset of
          Inl msg \<Rightarrow> Inl (SE_Sign msg)
        | Inr sig \<Rightarrow> Inr (rr (rr_Name x) TypeRRSIG (rr_Ttl x) (RR_RRSIG sig)))"

definition createDNSKEYRecords :: "'k KeyPair \<Rightarrow> 'k KeyPair \<Rightarrow> RR list" where
  "createDNSKEYRecords ksk zsk = [kp_DNSKEY ksk, kp_DNSKEY zsk]"

text \<open>The loop over the RRsets; the clock is read for each signature.\<close>

fun sign_groups ::
  "(RR list \<Rightarrow> signer_error + RR) \<Rightarrow> (RR list \<Rightarrow> signer_error + RR) \<Rightarrow> RR list list \<Rightarrow> signer_error + RR list" where
  "sign_groups ksk zsk [] = Inr []"
| "sign_groups ksk zsk (g # gs) =
     (if rr_Rrtype (hd g) = TypeRRSIG then sign_groups ksk zsk gs
      else case (if rr_Rrtype (hd g) = TypeDNSKEY then ksk else zsk) g of
        Inl e \<Rightarrow> Inl (SE_RRset (rr_Name (hd g)) (rr_Rrtype (hd g)) e)
      | Inr rrsig \<Rightarrow> bindE (sign_groups ksk zsk gs) (\<lambda>rest. Inr (g @ [rrsig] @ rest)))"

fun sign_chain :: "(RR list \<Rightarrow> signer_error + RR) \<Rightarrow> RR list \<Rightarrow> signer_error + RR list" where
  "sign_chain zsk [] = Inr []"
| "sign_chain zsk (x # xs) =
     (case zsk [x] of
        Inl e \<Rightarrow> Inl (SE_ChainRecord (rr_Name x) e)
      | Inr rrsig \<Rightarrow> bindE (sign_chain zsk xs) (\<lambda>rest. Inr (x # rrsig # rest)))"

definition sortRRs :: "(RR \<Rightarrow> string) \<Rightarrow> RR list \<Rightarrow> RR list" where
  "sortRRs str rrs = sort_Slice (\<lambda>x y.
     if rr_Name x \<noteq> rr_Name y then rr_Name x < rr_Name y
     else if rr_Rrtype x \<noteq> rr_Rrtype y then rr_Rrtype x < rr_Rrtype y
     else str x < str y) rrs"

text \<open>The loop that keeps the smallest expiration, where 0 means that there is none yet.\<close>

fun earliest_loop :: "uint32 \<Rightarrow> RR list \<Rightarrow> uint32" where
  "earliest_loop earliest [] = earliest"
| "earliest_loop earliest (x # xs) =
     (case rr_Data x of
        RR_RRSIG d \<Rightarrow> earliest_loop (if earliest = 0 \<or> rs_Expiration d < earliest then rs_Expiration d else earliest) xs
      | _ \<Rightarrow> earliest_loop earliest xs)"

definition earliestRRSIGExpiration :: "RR list \<Rightarrow> go_time option" where
  "earliestRRSIGExpiration rrs =
     (let e = earliest_loop 0 rrs in if e = 0 then None else Some (int (unat e) * second))"

definition rrsToModel ::
  "'k signing_lib \<Rightarrow> int \<Rightarrow> Zone \<Rightarrow> RR list \<Rightarrow> 'k KeyPair \<Rightarrow> 'k KeyPair \<Rightarrow> string \<Rightarrow> signer_error + Zone" where
  "rrsToModel S now originalZone signedRRs ksk zsk normalizedZoneName =
     (case earliestRRSIGExpiration signedRRs of
        None \<Rightarrow> Inl SE_NoRRSIG
      | Some expiration \<Rightarrow>
        Inr (originalZone\<lparr>z_Name := normalizedZoneName, z_UpdatedAt := now, z_DNSSEC := Some
             \<lparr>d_Enabled = True, d_Algorithm = dnskey_algorithm (kp_DNSKEY ksk), d_KSKKeyTag = sl_KeyTag S (kp_DNSKEY ksk),
              d_ZSKKeyTag = sl_KeyTag S (kp_DNSKEY zsk), d_NSEC3Enabled = False, d_NSEC3Iterations = 0, d_NSEC3Salt = [],
              d_SignatureExpiration = Some expiration\<rparr>\<rparr>))"

text \<open>
  The clock is read before every signature and at the end; the model has one time for the whole run. \<open>random\<close> is the
  outcome of reading the random salt.
\<close>

definition denial_chain ::
  "dns_names \<Rightarrow> SignerOptions \<Rightarrow> nat list option \<Rightarrow> Zone \<Rightarrow> string \<Rightarrow> RR list \<Rightarrow> nsec_error + RR list \<times> NSEC3Params option" where
  "denial_chain L opts random zone normalizedZoneName signedRRs =
     (if so_NSEC3Enabled opts then
        (let params = NewNSEC3Params random (soa_Minimum (z_SOA zone)) (so_NSEC3Iterations opts) (so_NSEC3SaltLength opts)
         in bindE (GenerateNSEC3Chain L normalizedZoneName signedRRs params) (\<lambda>c. Inr (c, Some params)))
      else bindE (GenerateNSECChain L normalizedZoneName signedRRs (soa_Minimum (z_SOA zone))) (\<lambda>c. Inr (c, None)))"

definition signZoneWithKeys ::
  "dns_names \<Rightarrow> (RR \<Rightarrow> string) \<Rightarrow> 'k signing_lib \<Rightarrow> SignerOptions \<Rightarrow> nat list option \<Rightarrow> int \<Rightarrow>
   Zone \<Rightarrow> string \<Rightarrow> 'k KeyPair \<Rightarrow> 'k KeyPair \<Rightarrow> signer_error + Zone \<times> RR list" where
  "signZoneWithKeys L str S opts random now zone normalizedZoneName ksk zsk =
     bindE (modelToRRs zone normalizedZoneName) (\<lambda>rrs.
     bindE (groupRRsets (rrs @ createDNSKEYRecords ksk zsk)) (\<lambda>rrsets.
     bindE (sign_groups (\<lambda>g. signRRset L S opts now g ksk normalizedZoneName)
              (\<lambda>g. signRRset L S opts now g zsk normalizedZoneName) rrsets) (\<lambda>signed.
     case denial_chain L opts random zone normalizedZoneName signed of
       Inl e \<Rightarrow> Inl (SE_Chain e)
     | Inr (chain, params) \<Rightarrow>
       bindE (sign_chain (\<lambda>g. signRRset L S opts now g zsk normalizedZoneName) chain) (\<lambda>signedChain.
       let signedRRs = sortRRs str (signed @ signedChain)
       in bindE (rrsToModel S now zone signedRRs ksk zsk normalizedZoneName) (\<lambda>signedZone.
          Inr (case params of
                 None \<Rightarrow> signedZone
               | Some p \<Rightarrow> signedZone\<lparr>z_DNSSEC := map_option (\<lambda>d. d\<lparr>d_NSEC3Enabled := True,
                   d_NSEC3Iterations := np3_Iterations p, d_NSEC3Salt := np3_Salt p\<rparr>) (z_DNSSEC signedZone)\<rparr>,
               signedRRs))))))"

definition SignZoneWithKeys ::
  "dns_names \<Rightarrow> (RR \<Rightarrow> string) \<Rightarrow> 'k signing_lib \<Rightarrow> SignerOptions \<Rightarrow> nat list option \<Rightarrow> int \<Rightarrow>
   Zone option \<Rightarrow> 'k KeyPair option \<Rightarrow> 'k KeyPair option \<Rightarrow> signer_error + Zone \<times> RR list" where
  "SignZoneWithKeys L str S opts random now zonep kskp zskp =
     (case zonep of
        None \<Rightarrow> Inl SE_NilZone
      | Some zone \<Rightarrow>
        (case (kskp, zskp) of
           (Some ksk, Some zsk) \<Rightarrow>
             bindE (NormalizeZoneFQDN (z_Name zone)) (\<lambda>name. signZoneWithKeys L str S opts random now zone name ksk zsk)
         | _ \<Rightarrow> Inl SE_KeysMissing))"

text \<open>\<open>ensure\<close> is \<open>KeyManager.EnsureZoneKeysContext\<close>.\<close>

definition SignZoneContext ::
  "dns_names \<Rightarrow> (RR \<Rightarrow> string) \<Rightarrow> 'k signing_lib \<Rightarrow> SignerOptions \<Rightarrow> nat list option \<Rightarrow> int \<Rightarrow>
   (string \<Rightarrow> string + 'k KeyPair \<times> 'k KeyPair) \<Rightarrow> Zone option \<Rightarrow> signer_error + Zone \<times> RR list" where
  "SignZoneContext L str S opts random now ensure zonep =
     (case zonep of
        None \<Rightarrow> Inl SE_NilZone
      | Some zone \<Rightarrow>
        bindE (NormalizeZoneFQDN (z_Name zone)) (\<lambda>name.
          case ensure name of
            Inl msg \<Rightarrow> Inl (SE_Keys msg)
          | Inr (ksk, zsk) \<Rightarrow> signZoneWithKeys L str S opts random now zone name ksk zsk))"

text \<open>\<open>rfc3339\<close> is the formatting of a time.\<close>

definition GenerateSignedZoneFile :: "(go_time \<Rightarrow> string) \<Rightarrow> (RR \<Rightarrow> string) \<Rightarrow> Zone \<Rightarrow> RR list \<Rightarrow> string" where
  "GenerateSignedZoneFile rfc3339 str signedZone signedRRs =
     ''; Zone: '' @ z_Name signedZone @ [LF] @ ''; Signed by arca-dns'' @ [LF] @ ''; Version: '' @ z_Version signedZone @ [LF]
     @ (case Option.bind (z_DNSSEC signedZone) d_SignatureExpiration of
          None \<Rightarrow> [] | Some t \<Rightarrow> ''; Signatures valid until: '' @ rfc3339 t @ [LF])
     @ [LF] @ ''$ORIGIN '' @ z_Name signedZone @ [LF] @ [LF] @ concat (map (\<lambda>x. str x @ [LF]) signedRRs)"

end
