(* ===== verification/Signing_Service.thy ===== *)
theory Signing_Service
  imports Artifact_Laws Zone_Signer Zone_Store
begin

section \<open>The signing service (internal/controller/service/signer.go)\<close>

text \<open>
  The service that signs zones, keeps the signed files in its cache, publishes them with the zone in the store, and
  serves them. Its state has the store, the cache directories by name, the locks that are held and the audit log. The operations of
  the store, the key manager and the DNS library are fields of the service. \<open>sign_env\<close> is what one call finds outside: the
  clock, a new version, randomness, the environment of the store, and whether its context has ended.

  A call that finds the lock of its zone held waits; here no other call runs meanwhile, so it returns only when its
  context ends. Unlocking a lock that is not held panics, which the state records. Metrics and messages of the log are left out,
  except for the audit line of a signed write.
\<close>

subsection \<open>Data\<close>

record NSEC3Metadata =
  nm_Enabled :: bool
  nm_HashAlg :: uint8
  nm_Flags :: uint8
  nm_Iterations :: uint16
  nm_Salt :: string

record SigningMetadata =
  md_KSKKeyTag :: uint16
  md_ZSKKeyTag :: uint16
  md_Algorithm :: uint8
  md_Inception :: uint32
  md_Expiration :: uint32
  md_NSEC3Params :: "NSEC3Metadata option"

record SignedZoneArtifact =
  sa_ZoneName :: string
  sa_Version :: string
  sa_Serial :: uint32
  sa_SignedZone :: string
  sa_UnsignedRRs :: "RR list"
  sa_SignedRRs :: "RR list"
  sa_Metadata :: SigningMetadata
  sa_DNSSEC :: "DNSSECConfig option"

record SignedZoneWrite =
  sw_artifact :: SignedZoneArtifact
  sw_lock :: string
  sw_done :: bool
  sw_stored :: bool
  sw_committed :: bool

datatype service_error =
    SvStore store_error | SvPersist store_error | SvVersion | SvUnsigned parser_error | SvKeys string | SvSign signer_error
  | SvGenerate parser_error | SvStoreArtifact string string fs_error | SvFiles fs_error | SvCacheDisabled | SvNoVersion
  | SvParse parser_error | SvNoSignatures | SvUnavailable service_error | SvExpired string string uint32 | SvNotEnabled string
  | SvNoMetadata string | SvNoMetadataStore | SvLock | SvNoExpiration string service_error | SvZoneName model_error
  | SvRemoveArtifacts fs_error | SvRemoveKeys string | SvDS nat

record ('s, 'k) SigningService =
  ss_GetZone :: "'s \<Rightarrow> string \<Rightarrow> store_error + Zone"
  ss_UpdateZone :: "env \<Rightarrow> Zone \<Rightarrow> string \<Rightarrow> 's \<Rightarrow> (store_error + Zone) \<times> 's"
  ss_UpdateDNSSECMetadata :: "(env \<Rightarrow> string \<Rightarrow> DNSSECConfig option \<Rightarrow> 's \<Rightarrow> store_error option \<times> 's) option"
  ss_EnsureZoneKeys :: "string \<Rightarrow> string + 'k KeyPair \<times> 'k KeyPair"
  ss_RemoveZoneKeys :: "(string \<Rightarrow> string option) option"
  ss_ToDS :: "RR \<Rightarrow> nat \<Rightarrow> string option"
  ss_names :: dns_names
  ss_text :: dns_text
  ss_lib :: "'k signing_lib"
  ss_sha256hex :: "string \<Rightarrow> string"
  ss_artifactDir :: string
  ss_maxArtifacts :: int
  ss_options :: SignerOptions

record 's service_state =
  sv_store :: 's
  sv_dirs :: "string \<Rightarrow> fs"
  sv_locks :: "string set"
  sv_panicked :: bool
  sv_log :: "(string \<times> string \<times> int \<times> int \<times> int \<times> int) list"

record sign_env =
  g_ended :: bool
  g_now :: go_time
  g_date :: date
  g_version :: "string option"
  g_random :: "nat list option"
  g_store :: env

type_synonym ('s, 'a) svc = "'s service_state \<Rightarrow> (service_error + 'a) \<times> 's service_state"

definition sbind :: "('s, 'a) svc \<Rightarrow> ('a \<Rightarrow> ('s, 'b) svc) \<Rightarrow> ('s, 'b) svc" where
  "sbind m f st = (case m st of (Inl e, st') \<Rightarrow> (Inl e, st') | (Inr x, st') \<Rightarrow> f x st')"

definition SetMaxArtifactsPerZone :: "int \<Rightarrow> ('s, 'k) SigningService \<Rightarrow> ('s, 'k) SigningService" where
  "SetMaxArtifactsPerZone maxArtifacts sv = sv\<lparr>ss_maxArtifacts := (if maxArtifacts < 0 then 0 else maxArtifacts)\<rparr>"

subsection \<open>Locks\<close>

definition acquireZoneLock :: "sign_env \<Rightarrow> string \<Rightarrow> ('s, string) svc" where
  "acquireZoneLock e zoneName st =
     (let k = NormalizeZoneName zoneName in
      if g_ended e \<or> k \<in> sv_locks st then (Inl SvLock, st)
      else (Inr k, st\<lparr>sv_locks := insert k (sv_locks st)\<rparr>))"

definition Unlock :: "string \<Rightarrow> 's service_state \<Rightarrow> 's service_state" where
  "Unlock k st = (if k \<in> sv_locks st then st\<lparr>sv_locks := sv_locks st - {k}\<rparr> else st\<lparr>sv_panicked := True\<rparr>)"

text \<open>Acquire the lock, and \<open>defer lock.Unlock()\<close>.\<close>

definition with_zone_lock :: "sign_env \<Rightarrow> string \<Rightarrow> ('s, 'a) svc \<Rightarrow> ('s, 'a) svc" where
  "with_zone_lock e zoneName body =
     sbind (acquireZoneLock e zoneName) (\<lambda>k st. case body st of (r, st') \<Rightarrow> (r, Unlock k st'))"

subsection \<open>Files\<close>

definition on_dir :: "('s, 'k) SigningService \<Rightarrow> string \<Rightarrow> 'a io \<Rightarrow> 's service_state \<Rightarrow> (fs_error + 'a) \<times> 's service_state" where
  "on_dir sv zoneName m st =
     (let d = artifactZoneDir (ss_sha256hex sv) zoneName
      in case m (sv_dirs st d) of (r, f) \<Rightarrow> (r, st\<lparr>sv_dirs := (sv_dirs st)(d := f)\<rparr>))"

definition storeSignedZoneArtifact :: "('s, 'k) SigningService \<Rightarrow> SignedZoneArtifact \<Rightarrow> ('s, unit) svc" where
  "storeSignedZoneArtifact sv artifact st =
     (if ss_artifactDir sv = [] then (Inr (), st)
      else case on_dir sv (sa_ZoneName artifact) (storeArtifact (sa_Version artifact) (sa_SignedZone artifact)) st of
        (Inl err, st') \<Rightarrow> (Inl (SvStoreArtifact (sa_ZoneName artifact) (sa_Version artifact) err), st')
      | (Inr _, st') \<Rightarrow> (Inr (), st'))"

text \<open>Both callers log an error of the removal and go on.\<close>

definition discard_artifact :: "('s, 'k) SigningService \<Rightarrow> SignedZoneArtifact \<Rightarrow> 's service_state \<Rightarrow> 's service_state" where
  "discard_artifact sv artifact st =
     (if ss_artifactDir sv = [] then st
      else snd (on_dir sv (sa_ZoneName artifact) (removeSignedZoneArtifact (sa_Version artifact)) st))"

definition pruneSignedZoneArtifacts :: "('s, 'k) SigningService \<Rightarrow> string \<Rightarrow> 's service_state \<Rightarrow> 's service_state" where
  "pruneSignedZoneArtifacts sv zoneName st =
     (if ss_artifactDir sv = [] then st else snd (on_dir sv zoneName (pruneArtifacts (ss_maxArtifacts sv)) st))"

subsection \<open>The audit log\<close>

definition countRRTypes :: "RR list \<Rightarrow> uint16 \<Rightarrow> int" where
  "countRRTypes rrs t = int (length (filter (\<lambda>x. rr_Rrtype x = t) rrs))"

definition diffDNSSECTypes :: "RR list \<Rightarrow> RR list \<Rightarrow> int \<times> int \<times> int \<times> int" where
  "diffDNSSECTypes unsignedRRs signedRRs =
     (let added = (\<lambda>t. let n = countRRTypes signedRRs t - countRRTypes unsignedRRs t in if n < 0 then 0 else n)
      in (added TypeDNSKEY, added TypeRRSIG, added TypeNSEC3, added TypeNSEC3PARAM))"

definition logSignedZoneWrite :: "SignedZoneArtifact \<Rightarrow> 's service_state \<Rightarrow> 's service_state" where
  "logSignedZoneWrite a st =
     st\<lparr>sv_log := (sa_ZoneName a, sa_Version a, diffDNSSECTypes (sa_UnsignedRRs a) (sa_SignedRRs a)) # sv_log st\<rparr>"

definition completeSignedZoneWrite :: "('s, 'k) SigningService \<Rightarrow> SignedZoneArtifact \<Rightarrow> 's service_state \<Rightarrow> 's service_state" where
  "completeSignedZoneWrite sv artifact st = logSignedZoneWrite artifact (pruneSignedZoneArtifacts sv (sa_ZoneName artifact) st)"

subsection \<open>Signing\<close>

definition unsignedRRsFromZone :: "dns_text \<Rightarrow> Zone \<Rightarrow> parser_error + RR list" where
  "unsignedRRsFromZone D zone =
     bindE (GenerateBINDZoneFile D (Some zone)) (\<lambda>zoneFile.
     bindE (ParseBINDZone D zoneFile (z_Name zone) DefaultParseOptions) (\<lambda>parsed. Inr (pz_Records parsed)))"

text \<open>The loops over the signatures: the smallest value, where 0 means that there is none yet.\<close>

definition smaller :: "uint32 \<Rightarrow> uint32 \<Rightarrow> uint32" where
  "smaller current new = (if current = 0 \<or> new < current then new else current)"

fun signature_times :: "uint32 \<times> uint32 \<Rightarrow> RR list \<Rightarrow> uint32 \<times> uint32" where
  "signature_times (i, x) [] = (i, x)"
| "signature_times (i, x) (r # rs) =
     (case rr_Data r of
        RR_RRSIG d \<Rightarrow> signature_times (smaller i (rs_Inception d), smaller x (rs_Expiration d)) rs
      | _ \<Rightarrow> signature_times (i, x) rs)"

definition SHA1 :: uint8 where "SHA1 = 1"

definition nsec3_config :: "DNSSECConfig option \<Rightarrow> NSEC3Metadata option" where
  "nsec3_config c =
     (case c of
        Some d \<Rightarrow> if d_NSEC3Enabled d
          then Some \<lparr>nm_Enabled = True, nm_HashAlg = SHA1, nm_Flags = 0, nm_Iterations = d_NSEC3Iterations d, nm_Salt = d_NSEC3Salt d\<rparr>
          else None
      | None \<Rightarrow> None)"

definition SignZone :: "('s, 'k) SigningService \<Rightarrow> sign_env \<Rightarrow> Zone \<Rightarrow> service_error + SignedZoneArtifact" where
  "SignZone sv e zone =
     (case unsignedRRsFromZone (ss_text sv) zone of
        Inl err \<Rightarrow> Inl (SvUnsigned err)
      | Inr unsignedRRs \<Rightarrow>
        (case ss_EnsureZoneKeys sv (z_Name zone) of
           Inl msg \<Rightarrow> Inl (SvKeys msg)
         | Inr (ksk, zsk) \<Rightarrow>
           (case SignZoneWithKeys (ss_names sv) (dt_String (ss_text sv)) (ss_lib sv) (NewZoneSigner (ss_options sv)) (g_random e) (g_now e)
                   (Some zone) (Some ksk) (Some zsk) of
              Inl err \<Rightarrow> Inl (SvSign err)
            | Inr (signedZone, signedRRs) \<Rightarrow>
              (case GenerateBINDZoneFileFromRRs (ss_text sv) (z_Name zone) (z_Version signedZone) signedRRs of
                 Inl err \<Rightarrow> Inl (SvGenerate err)
               | Inr signedZoneFile \<Rightarrow>
                 (let (inception, expiration) = signature_times (0, 0) signedRRs
                  in Inr \<lparr>sa_ZoneName = z_Name zone, sa_Version = z_Version signedZone, sa_Serial = soa_Serial (z_SOA signedZone),
                          sa_SignedZone = signedZoneFile, sa_UnsignedRRs = unsignedRRs, sa_SignedRRs = signedRRs,
                          sa_Metadata = \<lparr>md_KSKKeyTag = ki_KeyTag (kp_ID ksk), md_ZSKKeyTag = ki_KeyTag (kp_ID zsk),
                            md_Algorithm = ki_Algorithm (kp_ID ksk), md_Inception = inception, md_Expiration = expiration,
                            md_NSEC3Params = nsec3_config (z_DNSSEC signedZone)\<rparr>,
                          sa_DNSSEC = cloneDNSSECConfig (z_DNSSEC signedZone)\<rparr>)))))"

subsection \<open>Reading the cache\<close>

fun metadata_step :: "(RR \<Rightarrow> uint16) \<Rightarrow> RR \<Rightarrow> SigningMetadata \<Rightarrow> SigningMetadata" where
  "metadata_step keyTag x md =
     (case rr_Data x of
        RR_RRSIG d \<Rightarrow> md\<lparr>md_Algorithm := (if md_Algorithm md = 0 then rs_Algorithm d else md_Algorithm md),
                        md_Inception := smaller (md_Inception md) (rs_Inception d),
                        md_Expiration := smaller (md_Expiration md) (rs_Expiration d)\<rparr>
      | RR_DNSKEY d \<Rightarrow>
          (let md1 = md\<lparr>md_Algorithm := (if md_Algorithm md = 0 then dk_Algorithm d else md_Algorithm md)\<rparr> in
           if dk_Flags d = 257 then (if md_KSKKeyTag md1 = 0 then md1\<lparr>md_KSKKeyTag := keyTag x\<rparr> else md1)
           else if dk_Flags d = 256 then (if md_ZSKKeyTag md1 = 0 then md1\<lparr>md_ZSKKeyTag := keyTag x\<rparr> else md1)
           else md1)
      | RR_NSEC3PARAM d \<Rightarrow> md\<lparr>md_NSEC3Params := Some \<lparr>nm_Enabled = True, nm_HashAlg = np_Hash d, nm_Flags = np_Flags d,
                                nm_Iterations = np_Iterations d, nm_Salt = np_Salt d\<rparr>\<rparr>
      | _ \<Rightarrow> md)"

definition signingMetadataFromRRs :: "(RR \<Rightarrow> uint16) \<Rightarrow> RR list \<Rightarrow> DNSSECConfig option \<Rightarrow> SigningMetadata" where
  "signingMetadataFromRRs keyTag rrs dnssecConfig =
     (let md = fold (metadata_step keyTag) rrs
            \<lparr>md_KSKKeyTag = 0, md_ZSKKeyTag = 0, md_Algorithm = 0, md_Inception = 0, md_Expiration = 0, md_NSEC3Params = None\<rparr>
      in if md_NSEC3Params md = None then md\<lparr>md_NSEC3Params := nsec3_config dnssecConfig\<rparr> else md)"

definition signedArtifactFromCache :: "('s, 'k) SigningService \<Rightarrow> Zone \<Rightarrow> string \<Rightarrow> service_error + SignedZoneArtifact" where
  "signedArtifactFromCache sv zone data =
     (case ParseBINDZone (ss_text sv) data (z_Name zone) DefaultParseOptions of
        Inl err \<Rightarrow> Inl (SvParse err)
      | Inr parsed \<Rightarrow>
        (let metadata = signingMetadataFromRRs (sl_KeyTag (ss_lib sv)) (pz_Records parsed) (z_DNSSEC zone) in
         if md_Expiration metadata = 0 then Inl SvNoSignatures
         else Inr \<lparr>sa_ZoneName = z_Name zone, sa_Version = z_Version zone, sa_Serial = soa_Serial (z_SOA zone),
                   sa_SignedZone = data, sa_UnsignedRRs = [], sa_SignedRRs = pz_Records parsed, sa_Metadata = metadata,
                   sa_DNSSEC = cloneDNSSECConfig (z_DNSSEC zone)\<rparr>))"

definition loadCachedSignedZoneArtifact :: "('s, 'k) SigningService \<Rightarrow> Zone \<Rightarrow> ('s, SignedZoneArtifact) svc" where
  "loadCachedSignedZoneArtifact sv zone st =
     (if ss_artifactDir sv = [] then (Inl SvCacheDisabled, st)
      else if z_Version zone = [] then (Inl SvNoVersion, st)
      else case on_dir sv (z_Name zone) (loadArtifact (z_Version zone)) st of
        (Inl err, st') \<Rightarrow> (Inl (SvFiles err), st')
      | (Inr data, st') \<Rightarrow> (signedArtifactFromCache sv zone data, st'))"

definition expiration_at :: "SignedZoneArtifact \<Rightarrow> go_time" where
  "expiration_at a = int (unat (md_Expiration (sa_Metadata a))) * second"

definition cachedArtifactUsable :: "go_time \<Rightarrow> SignedZoneArtifact \<Rightarrow> bool" where
  "cachedArtifactUsable now artifact \<longleftrightarrow> md_Expiration (sa_Metadata artifact) \<noteq> 0 \<and> now < expiration_at artifact"

definition cachedArtifactFresh :: "('s, 'k) SigningService \<Rightarrow> go_time \<Rightarrow> SignedZoneArtifact \<Rightarrow> bool" where
  "cachedArtifactFresh sv now artifact \<longleftrightarrow>
     md_Expiration (sa_Metadata artifact) \<noteq> 0
     \<and> now + (if so_ResignThreshold (ss_options sv) < 0 then 0 else so_ResignThreshold (ss_options sv)) < expiration_at artifact"

text \<open>\<open>None\<close> when there is no artifact that can be served.\<close>

definition cachedSignedZoneArtifact ::
  "('s, 'k) SigningService \<Rightarrow> sign_env \<Rightarrow> Zone \<Rightarrow> 's service_state \<Rightarrow> SignedZoneArtifact option \<times> 's service_state" where
  "cachedSignedZoneArtifact sv e zone st =
     (case loadCachedSignedZoneArtifact sv zone st of
        (Inl _, st') \<Rightarrow> (None, st')
      | (Inr a, st') \<Rightarrow> (if cachedArtifactFresh sv (g_now e) a then Some a else None, st'))"

subsection \<open>Writing\<close>

definition cloneZone :: "Zone \<Rightarrow> Zone" where
  "cloneZone zone =
     zone\<lparr>z_Records := map (\<lambda>r. r\<lparr>r_Priority := (case r_Priority r of None \<Rightarrow> None | Some p \<Rightarrow> Some p)\<rparr>) (z_Records zone),
          z_DNSSEC := cloneDNSSECConfig (z_DNSSEC zone)\<rparr>"

definition persistDNSSECMetadata :: "('s, 'k) SigningService \<Rightarrow> sign_env \<Rightarrow> string \<Rightarrow> DNSSECConfig option \<Rightarrow> ('s, unit) svc" where
  "persistDNSSECMetadata sv e zoneName dnssec st =
     (if \<not> (case dnssec of Some d \<Rightarrow> d_Enabled d | None \<Rightarrow> False) then (Inl (SvNoMetadata zoneName), st)
      else case ss_UpdateDNSSECMetadata sv of
        None \<Rightarrow> (Inl SvNoMetadataStore, st)
      | Some update \<Rightarrow>
        (case update (g_store e) zoneName (cloneDNSSECConfig dnssec) (sv_store st) of
           (Some err, s) \<Rightarrow> (Inl (SvStore err), st\<lparr>sv_store := s\<rparr>)
         | (None, s) \<Rightarrow> (Inr (), st\<lparr>sv_store := s\<rparr>)))"

text \<open>The zone of the caller with its new DNSSEC metadata.\<close>

definition persistSignedZoneArtifactAndMetadata ::
  "('s, 'k) SigningService \<Rightarrow> sign_env \<Rightarrow> Zone \<Rightarrow> SignedZoneArtifact \<Rightarrow> ('s, Zone) svc" where
  "persistSignedZoneArtifactAndMetadata sv e zone artifact =
     sbind (storeSignedZoneArtifact sv artifact) (\<lambda>_ st.
       case persistDNSSECMetadata sv e (z_Name zone) (sa_DNSSEC artifact) st of
         (Inl err, st1) \<Rightarrow> (Inl err, discard_artifact sv artifact st1)
       | (Inr _, st1) \<Rightarrow>
           (Inr (zone\<lparr>z_DNSSEC := cloneDNSSECConfig (sa_DNSSEC artifact)\<rparr>), completeSignedZoneWrite sv artifact st1))"

definition signAndStoreZoneLocked :: "('s, 'k) SigningService \<Rightarrow> sign_env \<Rightarrow> Zone \<Rightarrow> ('s, Zone) svc" where
  "signAndStoreZoneLocked sv e zone st =
     (case SignZone sv e zone of
        Inl err \<Rightarrow> (Inl err, st)
      | Inr artifact \<Rightarrow> persistSignedZoneArtifactAndMetadata sv e zone artifact st)"

definition SignAndStoreZone :: "('s, 'k) SigningService \<Rightarrow> sign_env \<Rightarrow> Zone \<Rightarrow> ('s, Zone) svc" where
  "SignAndStoreZone sv e zone = with_zone_lock e (z_Name zone) (signAndStoreZoneLocked sv e zone)"

text \<open>The zone that a re-signing publishes, before and after its signature.\<close>

definition resigned_zone :: "sign_env \<Rightarrow> string \<Rightarrow> Zone \<Rightarrow> Zone" where
  "resigned_zone e newVersion zone =
     (let z = cloneZone zone
      in z\<lparr>z_Version := newVersion, z_SOA := (z_SOA z)\<lparr>soa_Serial := NextSOASerial (g_date e) (soa_Serial (z_SOA zone))\<rparr>\<rparr>)"

definition publish_resigned :: "('s, 'k) SigningService \<Rightarrow> sign_env \<Rightarrow> Zone \<Rightarrow> string \<Rightarrow> SignedZoneArtifact \<Rightarrow> ('s, SignedZoneArtifact) svc" where
  "publish_resigned sv e resignedZone currentVersion artifact =
     sbind (storeSignedZoneArtifact sv artifact) (\<lambda>_ st.
       case ss_UpdateZone sv (g_store e) (resignedZone\<lparr>z_DNSSEC := cloneDNSSECConfig (sa_DNSSEC artifact)\<rparr>) currentVersion (sv_store st) of
         (Inl err, s) \<Rightarrow> (Inl (SvPersist err), discard_artifact sv artifact (st\<lparr>sv_store := s\<rparr>))
       | (Inr _, s) \<Rightarrow> (Inr artifact, completeSignedZoneWrite sv artifact (st\<lparr>sv_store := s\<rparr>)))"

definition resignAndStoreZoneLocked :: "('s, 'k) SigningService \<Rightarrow> sign_env \<Rightarrow> Zone \<Rightarrow> ('s, SignedZoneArtifact) svc" where
  "resignAndStoreZoneLocked sv e zone st =
     (case g_version e of
        None \<Rightarrow> (Inl SvVersion, st)
      | Some newVersion \<Rightarrow>
        (case SignZone sv e (resigned_zone e newVersion zone) of
           Inl err \<Rightarrow> (Inl err, st)
         | Inr artifact \<Rightarrow> publish_resigned sv e (resigned_zone e newVersion zone) (z_Version zone) artifact st))"

text \<open>\<open>defer lock.Unlock()\<close> for a read of the store under the lock.\<close>

definition store_read :: "('s, 'k) SigningService \<Rightarrow> string \<Rightarrow> ('s, Zone) svc" where
  "store_read sv zoneName st = (case ss_GetZone sv (sv_store st) zoneName of Inl err \<Rightarrow> Inl (SvStore err) | Inr z \<Rightarrow> Inr z, st)"

definition dnssec_enabled :: "Zone \<Rightarrow> bool" where
  "dnssec_enabled zone \<longleftrightarrow> (case z_DNSSEC zone of Some d \<Rightarrow> d_Enabled d | None \<Rightarrow> False)"

definition ResignZone :: "('s, 'k) SigningService \<Rightarrow> sign_env \<Rightarrow> string \<Rightarrow> ('s, unit) svc" where
  "ResignZone sv e zoneName =
     with_zone_lock e zoneName (sbind (store_read sv zoneName) (\<lambda>zone.
       if \<not> dnssec_enabled zone then (\<lambda>st. (Inl (SvNotEnabled zoneName), st))
       else sbind (resignAndStoreZoneLocked sv e zone) (\<lambda>_ st. (Inr (), st))))"

text \<open>Both branches of \<open>getSignedZoneLocked\<close> re-sign.\<close>

definition getSignedZoneLocked :: "('s, 'k) SigningService \<Rightarrow> sign_env \<Rightarrow> Zone \<Rightarrow> ('s, SignedZoneArtifact) svc" where
  "getSignedZoneLocked sv e zone =
     (if \<not> dnssec_enabled zone then resignAndStoreZoneLocked sv e zone else resignAndStoreZoneLocked sv e zone)"

definition cached_or :: "('s, 'k) SigningService \<Rightarrow> sign_env \<Rightarrow> Zone \<Rightarrow> ('s, SignedZoneArtifact) svc \<Rightarrow> ('s, SignedZoneArtifact) svc" where
  "cached_or sv e zone otherwise st =
     (case cachedSignedZoneArtifact sv e zone st of (Some a, st') \<Rightarrow> (Inr a, st') | (None, st') \<Rightarrow> otherwise st')"

definition GetSignedZone :: "('s, 'k) SigningService \<Rightarrow> sign_env \<Rightarrow> string \<Rightarrow> ('s, SignedZoneArtifact) svc" where
  "GetSignedZone sv e zoneName =
     sbind (store_read sv zoneName) (\<lambda>zone.
       cached_or sv e zone (with_zone_lock e (z_Name zone)
         (sbind (store_read sv zoneName) (\<lambda>zone'. cached_or sv e zone' (getSignedZoneLocked sv e zone')))))"

definition GetPublishedSignedZone :: "('s, 'k) SigningService \<Rightarrow> sign_env \<Rightarrow> string \<Rightarrow> ('s, SignedZoneArtifact) svc" where
  "GetPublishedSignedZone sv e zoneName =
     sbind (store_read sv zoneName) (\<lambda>zone. with_zone_lock e (z_Name zone)
       (sbind (store_read sv zoneName) (\<lambda>zone' st.
         case loadCachedSignedZoneArtifact sv zone' st of
           (Inl err, st') \<Rightarrow> (Inl (SvUnavailable err), st')
         | (Inr a, st') \<Rightarrow>
             if \<not> cachedArtifactUsable (g_now e) a
             then (Inl (SvExpired (sa_ZoneName a) (sa_Version a) (md_Expiration (sa_Metadata a))), st')
             else (Inr a, st'))))"

text \<open>The zero value of \<open>time.Time\<close>, the first second of the year 1.\<close>

definition zero_time :: go_time where "zero_time = - 62135596800 * second"

definition GetEarliestExpiration :: "('s, 'k) SigningService \<Rightarrow> string \<Rightarrow> ('s, uint32) svc" where
  "GetEarliestExpiration sv zoneName =
     sbind (store_read sv zoneName) (\<lambda>zone st.
       case z_DNSSEC zone of
         None \<Rightarrow> (Inl (SvNotEnabled zoneName), st)
       | Some d \<Rightarrow>
         if \<not> d_Enabled d then (Inl (SvNotEnabled zoneName), st)
         else let persisted = (case d_SignatureExpiration d of None \<Rightarrow> 0 | Some t \<Rightarrow> if t = zero_time then 0 else unix32 t) in
           (case loadCachedSignedZoneArtifact sv zone st of
              (Inl err, st') \<Rightarrow> (Inl (SvNoExpiration zoneName err), st')
            | (Inr a, st') \<Rightarrow>
                (Inr (if persisted \<noteq> 0 \<and> persisted < md_Expiration (sa_Metadata a) then persisted else md_Expiration (sa_Metadata a)), st')))"

fun export_ds :: "(nat \<Rightarrow> string option) \<Rightarrow> nat list \<Rightarrow> service_error + string list" where
  "export_ds ds [] = Inr []"
| "export_ds ds (t # ts) = (case ds t of None \<Rightarrow> Inl (SvDS t) | Some x \<Rightarrow> bindE (export_ds ds ts) (\<lambda>xs. Inr (x # xs)))"

text \<open>The digest types are SHA-256 and SHA-384.\<close>

definition GetDSRecords :: "('s, 'k) SigningService \<Rightarrow> sign_env \<Rightarrow> string \<Rightarrow> ('s, string list) svc" where
  "GetDSRecords sv e zoneName =
     with_zone_lock e zoneName (\<lambda>st.
       (case ss_EnsureZoneKeys sv zoneName of
          Inl msg \<Rightarrow> Inl (SvKeys msg)
        | Inr (ksk, _) \<Rightarrow> export_ds (ss_ToDS sv (kp_DNSKEY ksk)) [2, 4], st))"

text \<open>Errors of removing the keys come after the artifacts are gone.\<close>

definition CleanupZone :: "('s, 'k) SigningService \<Rightarrow> sign_env \<Rightarrow> string \<Rightarrow> ('s, unit) svc" where
  "CleanupZone sv e zoneName st0 =
     (let name = NormalizeZoneName zoneName in
      case ValidateZoneName name of
        Some err \<Rightarrow> (Inl (SvZoneName err), st0)
      | None \<Rightarrow> with_zone_lock e name (\<lambda>st.
          case (if ss_artifactDir sv = [] then (Inr (), st) else on_dir sv name removeZoneArtifacts st) of
            (Inl err, st') \<Rightarrow> (Inl (SvRemoveArtifacts err), st')
          | (Inr _, st') \<Rightarrow>
              (case ss_RemoveZoneKeys sv of
                 None \<Rightarrow> (Inr (), st')
               | Some remove \<Rightarrow> (case remove name of Some msg \<Rightarrow> (Inl (SvRemoveKeys msg), st') | None \<Rightarrow> (Inr (), st')))) st0)"

subsection \<open>Signed writes of the API\<close>

definition PrepareSignedZoneWrite :: "('s, 'k) SigningService \<Rightarrow> sign_env \<Rightarrow> Zone \<Rightarrow> ('s, SignedZoneWrite \<times> Zone) svc" where
  "PrepareSignedZoneWrite sv e zone =
     sbind (acquireZoneLock e (z_Name zone)) (\<lambda>k st.
       case SignZone sv e zone of
         Inl err \<Rightarrow> (Inl err, Unlock k st)
       | Inr artifact \<Rightarrow>
           (Inr (\<lparr>sw_artifact = artifact, sw_lock = k, sw_done = False, sw_stored = False, sw_committed = False\<rparr>,
                 zone\<lparr>z_DNSSEC := cloneDNSSECConfig (sa_DNSSEC artifact)\<rparr>), st))"

text \<open>The operations of a write return an error or nothing, and the write and the state as they leave them.\<close>

type_synonym 's write_step = "SignedZoneWrite \<Rightarrow> 's service_state \<Rightarrow> service_error option \<times> SignedZoneWrite \<times> 's service_state"

definition write_Store :: "('s, 'k) SigningService \<Rightarrow> 's write_step" where
  "write_Store sv w st =
     (if sw_stored w then (None, w, st)
      else case storeSignedZoneArtifact sv (sw_artifact w) st of
        (Inl err, st') \<Rightarrow> (Some err, w, st')
      | (Inr _, st') \<Rightarrow> (None, w\<lparr>sw_stored := True\<rparr>, st'))"

definition write_Commit :: "('s, 'k) SigningService \<Rightarrow> 's write_step" where
  "write_Commit sv w st =
     (case write_Store sv w st of
        (Some err, w', st') \<Rightarrow> (Some err, w', st')
      | (None, w', st') \<Rightarrow>
          if sw_committed w' then (None, w', st')
          else (None, w'\<lparr>sw_committed := True\<rparr>, completeSignedZoneWrite sv (sw_artifact w') st'))"

definition write_Complete :: "('s, 'k) SigningService \<Rightarrow> 's write_step" where
  "write_Complete sv w st =
     (if sw_done w then (None, w, st)
      else case write_Commit sv w st of (err, w', st') \<Rightarrow> (err, w'\<lparr>sw_done := True\<rparr>, Unlock (sw_lock w') st'))"

definition write_Abort :: "('s, 'k) SigningService \<Rightarrow> 's write_step" where
  "write_Abort sv w st =
     (if sw_done w then (None, w, st)
      else (None, w\<lparr>sw_done := True\<rparr>,
            Unlock (sw_lock w) (if sw_stored w \<and> \<not> sw_committed w then discard_artifact sv (sw_artifact w) st else st)))"

end
