(* ===== verification/Service_Facts.thy ===== *)
theory Service_Facts
  imports Signing_Service Memory_Store
begin

section \<open>How the signing service changes its state\<close>

text \<open>
  What each operation of \<open>Signing_Service\<close> leaves alone; the locks of the service under every sequence of calls (\<open>service_step\<close>); what publishing a
  re-signed zone does to the files and to the store when it succeeds and when it fails. The locale \<open>signing_store\<close> puts the service on any
  store that keeps the contract of \<open>zone_store\<close>.
\<close>

subsection \<open>What the operations leave alone\<close>

abbreviation zdir :: "('s, 'k) SigningService \<Rightarrow> string \<Rightarrow> string" where
  "zdir sv n \<equiv> artifactZoneDir (ss_sha256hex sv) n"

text \<open>Everything but the directory \<open>d\<close> is the same.\<close>

definition only_dir :: "string \<Rightarrow> 's service_state \<Rightarrow> 's service_state \<Rightarrow> bool" where
  "only_dir d st st' \<longleftrightarrow> (\<exists>f. st' = st\<lparr>sv_dirs := (sv_dirs st)(d := f)\<rparr>)"

lemma only_dirD:
  "only_dir d st st' \<Longrightarrow> sv_store st' = sv_store st" "only_dir d st st' \<Longrightarrow> sv_locks st' = sv_locks st"
  "only_dir d st st' \<Longrightarrow> sv_panicked st' = sv_panicked st" "only_dir d st st' \<Longrightarrow> d' \<noteq> d \<Longrightarrow> sv_dirs st' d' = sv_dirs st d'"
  by (auto simp: only_dir_def)

lemma only_dir_refl [simp]: "only_dir d st st"
proof -
  have "st = st\<lparr>sv_dirs := (sv_dirs st)(d := sv_dirs st d)\<rparr>" by simp
  then show ?thesis unfolding only_dir_def by blast
qed

lemma only_dir_on_dir: "on_dir sv n m st = (r, st') \<Longrightarrow> only_dir (zdir sv n) st st'"
  by (auto simp: on_dir_def only_dir_def Let_def split: prod.splits)

lemma only_dir_files:
  "storeSignedZoneArtifact sv a st = (r, st') \<Longrightarrow> only_dir (zdir sv (sa_ZoneName a)) st st'"
  "only_dir (zdir sv (sa_ZoneName a)) st (discard_artifact sv a st)"
  "only_dir (zdir sv n) st (pruneSignedZoneArtifacts sv n st)"
  "loadCachedSignedZoneArtifact sv z st = (r', st') \<Longrightarrow> only_dir (zdir sv (z_Name z)) st st'"
  by (auto simp: storeSignedZoneArtifact_def discard_artifact_def pruneSignedZoneArtifacts_def loadCachedSignedZoneArtifact_def
      dest: only_dir_on_dir split: if_splits prod.splits sum.splits)
    (metis only_dir_on_dir prod.collapse)+

lemma completeSignedZoneWrite_frame [simp]:
  "sv_store (completeSignedZoneWrite sv a st) = sv_store st" "sv_locks (completeSignedZoneWrite sv a st) = sv_locks st"
  "sv_panicked (completeSignedZoneWrite sv a st) = sv_panicked st"
  using only_dirD(1-3) [OF only_dir_files(3)] by (simp_all add: completeSignedZoneWrite_def logSignedZoneWrite_def)

lemma discard_artifact_frame [simp]:
  "sv_store (discard_artifact sv a st) = sv_store st" "sv_locks (discard_artifact sv a st) = sv_locks st"
  "sv_panicked (discard_artifact sv a st) = sv_panicked st"
  by (fact only_dirD(1-3) [OF only_dir_files(2)])+

subsection \<open>Locks\<close>

text \<open>Computations that leave the locks as they found them, without a panic.\<close>

definition keeps_locks :: "('s service_state \<Rightarrow> 'a \<times> 's service_state) \<Rightarrow> bool" where
  "keeps_locks m \<longleftrightarrow> (\<forall>st r st'. m st = (r, st') \<longrightarrow> sv_locks st' = sv_locks st \<and> sv_panicked st' = sv_panicked st)"

named_theorems lock_keepers "computations that leave the locks alone"

lemma keeps_locksD:
  "keeps_locks m \<Longrightarrow> m st = (r, st') \<Longrightarrow> sv_locks st' = sv_locks st" "keeps_locks m \<Longrightarrow> m st = (r, st') \<Longrightarrow> sv_panicked st' = sv_panicked st"
  by (simp_all add: keeps_locks_def)

lemma keeps_sbind [lock_keepers]: "keeps_locks m \<Longrightarrow> (\<And>x. keeps_locks (f x)) \<Longrightarrow> keeps_locks (sbind m f)"
  by (fastforce simp: keeps_locks_def sbind_def split: prod.splits sum.splits)

lemma keeps_with_zone_lock [lock_keepers]: "keeps_locks m \<Longrightarrow> keeps_locks (with_zone_lock e n m)"
  unfolding keeps_locks_def [of "with_zone_lock e n m"]
proof (intro allI impI)
  fix st r st'
  assume m: "keeps_locks m" and r: "with_zone_lock e n m st = (r, st')"
  let ?k = "NormalizeZoneName n"
  show "sv_locks st' = sv_locks st \<and> sv_panicked st' = sv_panicked st"
  proof (cases "g_ended e \<or> ?k \<in> sv_locks st")
    case True
    then show ?thesis using r by (auto simp: with_zone_lock_def sbind_def acquireZoneLock_def Let_def)
  next
    case False
    obtain r1 st1 where b: "m (st\<lparr>sv_locks := insert ?k (sv_locks st)\<rparr>) = (r1, st1)" by fastforce
    then have "st' = Unlock ?k st1" using False r by (simp add: with_zone_lock_def sbind_def acquireZoneLock_def Let_def)
    moreover have "sv_locks st1 = insert ?k (sv_locks st)" "sv_panicked st1 = sv_panicked st" using keeps_locksD [OF m b] by simp_all
    ultimately show ?thesis using False by (simp add: Unlock_def)
  qed
qed

lemma keeps_only_dir: "(\<And>st r st'. m st = (r, st') \<Longrightarrow> only_dir d st st') \<Longrightarrow> keeps_locks m"
  unfolding keeps_locks_def using only_dirD(2,3) [of d] by blast

lemma keeps_files [lock_keepers]:
  "keeps_locks (storeSignedZoneArtifact sv a)" "keeps_locks (loadCachedSignedZoneArtifact sv z)" "keeps_locks (on_dir sv n m)"
  "keeps_locks (\<lambda>st. (g st, st))"
proof -
  show "keeps_locks (\<lambda>st. (g st, st))" by (simp add: keeps_locks_def)
qed (rule keeps_only_dir, erule only_dir_files only_dir_on_dir)+

lemma keeps_store_read [lock_keepers]: "keeps_locks (store_read sv n)"
  unfolding store_read_def [abs_def] by (rule keeps_files)

lemma keeps_cached_or [lock_keepers]:
  assumes "keeps_locks m"
  shows "keeps_locks (cached_or sv e z m)"
  unfolding keeps_locks_def
  by (auto simp: cached_or_def cachedSignedZoneArtifact_def dest: keeps_locksD [OF assms] keeps_locksD [OF keeps_files(2)]
      split: prod.splits sum.splits if_splits option.splits)

lemma keeps_writing [lock_keepers]:
  "keeps_locks (persistSignedZoneArtifactAndMetadata sv e z a)" "keeps_locks (publish_resigned sv e z v a)"
  unfolding persistSignedZoneArtifactAndMetadata_def publish_resigned_def
  subgoal
    by (rule keeps_sbind [OF keeps_files(1)])
      (auto simp: keeps_locks_def persistDNSSECMetadata_def split: prod.splits sum.splits option.splits if_splits)
  subgoal by (rule keeps_sbind [OF keeps_files(1)]) (auto simp: keeps_locks_def split: prod.splits sum.splits)
  done

lemma keeps_locked_bodies [lock_keepers]:
  "keeps_locks (signAndStoreZoneLocked sv e z)" "keeps_locks (resignAndStoreZoneLocked sv e z)" "keeps_locks (getSignedZoneLocked sv e z)"
proof -
  show "keeps_locks (signAndStoreZoneLocked sv e z)"
    by (auto simp: keeps_locks_def signAndStoreZoneLocked_def dest: keeps_locksD [OF keeps_writing(1)] split: sum.splits)
  show r: "keeps_locks (resignAndStoreZoneLocked sv e z)"
    by (auto simp: keeps_locks_def resignAndStoreZoneLocked_def dest: keeps_locksD [OF keeps_writing(2)] split: sum.splits option.splits)
  then show "keeps_locks (getSignedZoneLocked sv e z)" by (simp add: getSignedZoneLocked_def)
qed

lemma keeps_operations [lock_keepers]:
  "keeps_locks (SignAndStoreZone sv e z)" "keeps_locks (ResignZone sv e n)" "keeps_locks (GetSignedZone sv e n)"
  "keeps_locks (GetEarliestExpiration sv n)" "keeps_locks (GetDSRecords sv e n)"
  unfolding SignAndStoreZone_def ResignZone_def GetSignedZone_def GetEarliestExpiration_def GetDSRecords_def
  subgoal by (intro lock_keepers)
  subgoal by (intro keeps_with_zone_lock keeps_sbind keeps_store_read)
      (auto simp: keeps_files(4) intro!: keeps_sbind keeps_locked_bodies(2) keeps_files(4))
  subgoal by (intro lock_keepers)
  subgoal by (intro keeps_sbind keeps_store_read)
      (auto simp: keeps_locks_def Let_def dest: keeps_locksD [OF keeps_files(2)] split: option.splits prod.splits sum.splits if_splits)
  subgoal by (intro keeps_with_zone_lock keeps_files(4))
  done

lemma keeps_GetPublishedSignedZone [lock_keepers]: "keeps_locks (GetPublishedSignedZone sv e n)"
  unfolding GetPublishedSignedZone_def
  by (intro keeps_sbind keeps_store_read keeps_with_zone_lock)
    (auto simp: keeps_locks_def dest: keeps_locksD [OF keeps_files(2)] split: prod.splits sum.splits if_splits)

lemma keeps_CleanupZone [lock_keepers]: "keeps_locks (CleanupZone sv e n)"
proof -
  have "keeps_locks (\<lambda>st.
          case (if ss_artifactDir sv = [] then (Inr (), st) else on_dir sv name removeZoneArtifacts st) of
            (Inl err, st') \<Rightarrow> (Inl (SvRemoveArtifacts err), st')
          | (Inr _, st') \<Rightarrow>
              (case ss_RemoveZoneKeys sv of
                 None \<Rightarrow> (Inr (), st')
               | Some remove \<Rightarrow> (case remove name of Some msg \<Rightarrow> (Inl (SvRemoveKeys msg), st') | None \<Rightarrow> (Inr (), st'))))" for name
    by (auto simp: keeps_locks_def dest: keeps_locksD [OF keeps_files(3)] split: if_splits prod.splits sum.splits option.splits)
  from keeps_locksD [OF keeps_with_zone_lock [OF this]] show ?thesis
    unfolding keeps_locks_def CleanupZone_def by (auto simp: Let_def split: option.splits)
qed

text \<open>
  The calls of all clients, one after the other, with the writes that the API has prepared so far. A write takes part in any
  number of calls of its four operations.
\<close>

inductive service_step ::
  "('s, 'k) SigningService \<Rightarrow> SignedZoneWrite list \<times> 's service_state \<Rightarrow> SignedZoneWrite list \<times> 's service_state \<Rightarrow> bool"
  for sv where
  st_resign: "ResignZone sv e n st = (r, st') \<Longrightarrow> service_step sv (ws, st) (ws, st')"
| st_sign: "SignAndStoreZone sv e z st = (r, st') \<Longrightarrow> service_step sv (ws, st) (ws, st')"
| st_get: "GetSignedZone sv e n st = (r, st') \<Longrightarrow> service_step sv (ws, st) (ws, st')"
| st_published: "GetPublishedSignedZone sv e n st = (r, st') \<Longrightarrow> service_step sv (ws, st) (ws, st')"
| st_expiration: "GetEarliestExpiration sv n st = (r, st') \<Longrightarrow> service_step sv (ws, st) (ws, st')"
| st_ds: "GetDSRecords sv e n st = (r, st') \<Longrightarrow> service_step sv (ws, st) (ws, st')"
| st_cleanup: "CleanupZone sv e n st = (r, st') \<Longrightarrow> service_step sv (ws, st) (ws, st')"
| st_refused: "PrepareSignedZoneWrite sv e z st = (Inl err, st') \<Longrightarrow> service_step sv (ws, st) (ws, st')"
| st_prepare: "PrepareSignedZoneWrite sv e z st = (Inr (w, z'), st') \<Longrightarrow> service_step sv (ws, st) (w # ws, st')"
| st_write: "op \<in> {write_Store, write_Commit, write_Complete, write_Abort} \<Longrightarrow> op sv w st = (r, w', st') \<Longrightarrow>
    service_step sv (us @ w # ws, st) (us @ w' # ws, st')"

text \<open>The locks that are held are those of the writes that are still open, one each.\<close>

definition locks_ok :: "SignedZoneWrite list \<times> 's service_state \<Rightarrow> bool" where
  "locks_ok c \<longleftrightarrow> \<not> sv_panicked (snd c) \<and> distinct (map sw_lock (filter (\<lambda>w. \<not> sw_done w) (fst c)))
     \<and> sv_locks (snd c) = sw_lock ` {w \<in> set (fst c). \<not> sw_done w}"

lemma locks_ok_kept: "keeps_locks m \<Longrightarrow> m st = (r, st') \<Longrightarrow> locks_ok (ws, st) \<Longrightarrow> locks_ok (ws, st')"
  using keeps_locksD [of m st r st'] by (simp add: locks_ok_def)

lemma Prepare_cases:
  assumes "PrepareSignedZoneWrite sv e z st = (r, st')"
  shows "isl r \<and> sv_locks st' = sv_locks st \<and> sv_panicked st' = sv_panicked st
    \<or> (\<exists>w z'. r = Inr (w, z') \<and> sw_lock w \<notin> sv_locks st \<and> \<not> sw_done w \<and> st' = st\<lparr>sv_locks := insert (sw_lock w) (sv_locks st)\<rparr>)"
  using assms by (auto simp: PrepareSignedZoneWrite_def sbind_def acquireZoneLock_def Unlock_def Let_def split: if_splits sum.splits)

lemma write_Commit_frame:
  assumes "write_Commit sv w st = (r, w', st')"
  shows "sv_locks st' = sv_locks st \<and> sv_panicked st' = sv_panicked st \<and> sw_lock w' = sw_lock w \<and> sw_done w' = sw_done w"
  using assms by (auto simp: write_Commit_def write_Store_def dest: keeps_locksD [OF keeps_files(1)] split: if_splits prod.splits sum.splits option.splits)

lemma write_frame:
  assumes "op \<in> {write_Store, write_Commit, write_Complete, write_Abort}" "op sv w st = (r, w', st')"
  shows "sw_lock w' = sw_lock w \<and> (sw_done w' = sw_done w \<and> sv_locks st' = sv_locks st \<and> sv_panicked st' = sv_panicked st
    \<or> \<not> sw_done w \<and> sw_done w' \<and> (sw_lock w \<in> sv_locks st \<longrightarrow> sv_locks st' = sv_locks st - {sw_lock w} \<and> sv_panicked st' = sv_panicked st))"
proof -
  consider "op = write_Store" | "op = write_Commit" | "op = write_Complete" | "op = write_Abort" using assms(1) by auto
  then show ?thesis
  proof cases
    case 1
    then show ?thesis using assms(2)
      by (auto simp: write_Store_def dest: keeps_locksD [OF keeps_files(1)] split: if_splits prod.splits sum.splits)
  next
    case 2
    then show ?thesis using assms(2) write_Commit_frame [of sv w st r w' st'] by simp
  next
    case 3
    show ?thesis
    proof (cases "sw_done w")
      case False
      obtain r1 w1 st1 where c: "write_Commit sv w st = (r1, w1, st1)" by (cases "write_Commit sv w st")
      then have "w' = w1\<lparr>sw_done := True\<rparr>" "st' = Unlock (sw_lock w1) st1" using 3 False assms(2) by (simp_all add: write_Complete_def)
      then show ?thesis using write_Commit_frame [OF c] False by (simp add: Unlock_def)
    qed (use 3 assms(2) in \<open>simp add: write_Complete_def\<close>)
  next
    case 4
    then show ?thesis using assms(2) by (auto simp: write_Abort_def Unlock_def split: if_splits)
  qed
qed

lemma open_locks: "sw_lock ` {x \<in> set (us @ v # ws). \<not> sw_done x} = (if sw_done v then {} else {sw_lock v}) \<union> sw_lock ` {x \<in> set (us @ ws). \<not> sw_done x}"
  by auto

lemma locks_ok_write:
  assumes "locks_ok (us @ w # ws, st)" "sw_lock w' = sw_lock w"
    and "sw_done w' = sw_done w \<and> sv_locks st' = sv_locks st \<and> sv_panicked st' = sv_panicked st
      \<or> \<not> sw_done w \<and> sw_done w' \<and> (sw_lock w \<in> sv_locks st \<longrightarrow> sv_locks st' = sv_locks st - {sw_lock w} \<and> sv_panicked st' = sv_panicked st)"
  shows "locks_ok (us @ w' # ws, st')"
  using assms(3)
proof
  assume "sw_done w' = sw_done w \<and> sv_locks st' = sv_locks st \<and> sv_panicked st' = sv_panicked st"
  then show ?thesis using assms(1,2) open_locks [of us _ ws] by (cases "sw_done w") (simp_all add: locks_ok_def del: set_append)
next
  assume d: "\<not> sw_done w \<and> sw_done w' \<and> (sw_lock w \<in> sv_locks st \<longrightarrow> sv_locks st' = sv_locks st - {sw_lock w} \<and> sv_panicked st' = sv_panicked st)"
  have l: "sv_locks st = sw_lock ` {x \<in> set (us @ w # ws). \<not> sw_done x}"
    and dist: "sw_lock w \<notin> sw_lock ` {x \<in> set (us @ ws). \<not> sw_done x}" "distinct (map sw_lock (filter (\<lambda>x. \<not> sw_done x) (us @ ws)))"
    using assms(1) d by (auto simp: locks_ok_def)
  have "sw_lock w \<in> sv_locks st" using l d by simp
  moreover have "sv_locks st - {sw_lock w} = sw_lock ` {x \<in> set (us @ ws). \<not> sw_done x}"
    unfolding l open_locks using dist(1) d by simp
  moreover have "{x \<in> set (us @ w' # ws). \<not> sw_done x} = {x \<in> set (us @ ws). \<not> sw_done x}" using d by auto
  ultimately show ?thesis using assms(1) d dist(2) by (simp add: locks_ok_def)
qed

lemma locks_ok_step: "service_step sv c c' \<Longrightarrow> locks_ok c \<Longrightarrow> locks_ok c'"
proof (induction rule: service_step.induct)
  case (st_refused e z st err st' ws)
  then show ?case using Prepare_cases [OF st_refused(1)] by (auto simp: locks_ok_def)
next
  case (st_prepare e z st w z' st' ws)
  then show ?case using Prepare_cases [OF st_prepare(1)] by (auto simp: locks_ok_def)
next
  case (st_write op w st r w' st' us ws)
  from write_frame [OF st_write(1,2)] show ?case by (elim conjE) (rule locks_ok_write [OF st_write(3)])
qed (erule (1) locks_ok_kept [rotated], rule lock_keepers)+

lemma locks_ok_reachable: "(service_step sv)\<^sup>*\<^sup>* c c' \<Longrightarrow> locks_ok c \<Longrightarrow> locks_ok c'"
  by (induction rule: rtranclp_induct) (auto intro: locks_ok_step)

subsection \<open>The files of a zone\<close>

lemma on_dir_ensures:
  assumes "ensures P m Q E" "P (sv_dirs st (zdir sv n))" "on_dir sv n m st = (r, st')"
  shows "case r of Inr x \<Rightarrow> Q x (sv_dirs st' (zdir sv n)) | Inl e \<Rightarrow> E e (sv_dirs st' (zdir sv n))"
  using ensuresD [OF assms(1,2)] assms(3) by (auto simp: on_dir_def Let_def split: prod.splits sum.splits)

lemma stored_artifact:
  assumes "cache m (sv_dirs st (zdir sv (sa_ZoneName a)))" "ss_artifactDir sv \<noteq> []" "storeSignedZoneArtifact sv a st = (r, st')"
  defines "f \<equiv> sv_dirs st' (zdir sv (sa_ZoneName a))" and "new \<equiv> added m (artifact_file (sa_Version a)) (sa_SignedZone a)"
  shows "case r of Inr _ \<Rightarrow> new f \<and> fs_dir f = DirPresent | Inl _ \<Rightarrow> cache m f \<or> new f"
proof -
  obtain r0 where r0: "on_dir sv (sa_ZoneName a) (storeArtifact (sa_Version a) (sa_SignedZone a)) st = (r0, st')"
      "isl r0 = isl r"
    using assms(2,3) by (auto simp: storeSignedZoneArtifact_def split: prod.splits sum.splits)
  show ?thesis
    using on_dir_ensures [OF store_triple assms(1) r0(1)] on_dir_ensures [OF store_present _ r0(1)] r0(2)
    by (auto simp: f_def new_def split: sum.splits)
qed

lemma discarded_artifact:
  assumes "cache m (sv_dirs st (zdir sv (sa_ZoneName a)))" "ss_artifactDir sv \<noteq> []"
  shows "\<exists>m'. cache m' (sv_dirs (discard_artifact sv a st) (zdir sv (sa_ZoneName a))) \<and> (\<forall>n. n \<noteq> artifact_file (sa_Version a) \<longrightarrow> m' n = m n)"
proof -
  obtain r st' where r: "on_dir sv (sa_ZoneName a) (removeSignedZoneArtifact (sa_Version a)) st = (r, st')" by fastforce
  then have "discard_artifact sv a st = st'" using assms(2) by (simp add: discard_artifact_def)
  then show ?thesis using on_dir_ensures [OF remove_triple assms(1) r]
    by (cases r) (auto intro: exI [of _ m] exI [of _ "m(artifact_file (sa_Version a) := None)"])
qed

lemma completed_write:
  assumes "added m f d (sv_dirs st (zdir sv n))" "fs_dir (sv_dirs st (zdir sv n)) = DirPresent"
    and "sa_ZoneName a = n"
  defines "g \<equiv> sv_dirs (completeSignedZoneWrite sv a st) (zdir sv n)"
  shows "\<exists>m' ti. cache m' g \<and> m' \<subseteq>\<^sub>m m(f \<mapsto> Regular d 420 ti) \<and> m' f = Some (Regular d 420 ti) \<and> fs_dir g = DirPresent"
proof -
  obtain ti where c: "cache (m(f \<mapsto> Regular d 420 ti)) (sv_dirs st (zdir sv n))" "\<forall>n. age (m n) < ti"
    using assms(1) by (auto simp: added_def)
  let ?m = "m(f \<mapsto> Regular d 420 ti)"
  have new: "newest ?m f" using c(2) by (simp add: newest_def)
  have g: "g = sv_dirs (pruneSignedZoneArtifacts sv n st) (zdir sv n)"
    by (simp add: g_def completeSignedZoneWrite_def logSignedZoneWrite_def assms(3))
  show ?thesis
  proof (cases "ss_artifactDir sv = []")
    case True
    then show ?thesis using c(1) assms(2) g by (intro exI [of _ ?m] exI [of _ ti]) (simp add: pruneSignedZoneArtifacts_def)
  next
    case False
    obtain r st' where r: "on_dir sv n (pruneArtifacts (ss_maxArtifacts sv)) st = (r, st')" by fastforce
    then have g': "g = sv_dirs st' (zdir sv n)" using False g by (simp add: pruneSignedZoneArtifacts_def)
    have "thinned (Collect (newest ?m)) ?m g" using on_dir_ensures [OF prune_triple c(1) r] g' by (auto split: sum.splits)
    then obtain m' where m': "m' \<subseteq>\<^sub>m ?m" "\<forall>n \<in> Collect (newest ?m). m' n = ?m n" "cache m' g" by (auto simp: thinned_def)
    moreover have "fs_dir g = DirPresent"
      using r g' assms(2) same_dir_prune [unfolded same_dir_def] by (auto simp: on_dir_def Let_def split: prod.splits) (metis snd_conv)
    ultimately show ?thesis using new by (intro exI [of _ m'] exI [of _ ti]) simp
  qed
qed

subsection \<open>Publishing\<close>

lemma publish_resigned_unfold:
  assumes "storeSignedZoneArtifact sv a st = (r0, st1)"
    and "ss_UpdateZone sv (g_store e) (z\<lparr>z_DNSSEC := cloneDNSSECConfig (sa_DNSSEC a)\<rparr>) v (sv_store st1) = (r, s)"
  shows "publish_resigned sv e z v a st = (case r0 of Inl err \<Rightarrow> (Inl err, st1) | Inr _ \<Rightarrow>
    (case r of Inl err \<Rightarrow> (Inl (SvPersist err), discard_artifact sv a (st1\<lparr>sv_store := s\<rparr>))
     | Inr _ \<Rightarrow> (Inr a, completeSignedZoneWrite sv a (st1\<lparr>sv_store := s\<rparr>))))"
  using assms by (simp add: publish_resigned_def sbind_def split: sum.split)

lemma publish_succeeds:
  assumes "cache m (sv_dirs st (zdir sv (sa_ZoneName a)))" "ss_artifactDir sv \<noteq> []"
    and "publish_resigned sv e z v a st = (Inr b, st')"
  defines "f \<equiv> sv_dirs st' (zdir sv (sa_ZoneName a))" and "file \<equiv> artifact_file (sa_Version a)"
  shows "\<exists>r. ss_UpdateZone sv (g_store e) (z\<lparr>z_DNSSEC := cloneDNSSECConfig (sa_DNSSEC a)\<rparr>) v (sv_store st) = (Inr r, sv_store st')"
    and "\<exists>m' ti. cache m' f \<and> m' \<subseteq>\<^sub>m m(file \<mapsto> Regular (sa_SignedZone a) 420 ti) \<and> m' file = Some (Regular (sa_SignedZone a) 420 ti)
      \<and> fs_dir f = DirPresent"
    and "b = a" and "d \<noteq> zdir sv (sa_ZoneName a) \<Longrightarrow> sv_dirs st' d = sv_dirs st d"
proof -
  obtain st1 r s where p: "storeSignedZoneArtifact sv a st = (Inr (), st1)"
      "ss_UpdateZone sv (g_store e) (z\<lparr>z_DNSSEC := cloneDNSSECConfig (sa_DNSSEC a)\<rparr>) v (sv_store st1) = (Inr r, s)"
      "st' = completeSignedZoneWrite sv a (st1\<lparr>sv_store := s\<rparr>)" "b = a"
  proof -
    obtain r0 st1 where 1: "storeSignedZoneArtifact sv a st = (r0, st1)" by fastforce
    obtain r s where 2: "ss_UpdateZone sv (g_store e) (z\<lparr>z_DNSSEC := cloneDNSSECConfig (sa_DNSSEC a)\<rparr>) v (sv_store st1) = (r, s)" by fastforce
    from assms(3) [unfolded publish_resigned_unfold [OF 1 2]] 1 2 show ?thesis by (auto intro: that split: sum.splits)
  qed
  note o = only_dir_files(1) [OF p(1)]
  have st: "sv_store st' = s" "sv_dirs st' = sv_dirs (pruneSignedZoneArtifacts sv (sa_ZoneName a) (st1\<lparr>sv_store := s\<rparr>))"
    using p(3) by (simp_all add: completeSignedZoneWrite_def [of sv a "st1\<lparr>sv_store := s\<rparr>"] logSignedZoneWrite_def)
      (simp add: completeSignedZoneWrite_def logSignedZoneWrite_def only_dirD(1) [OF only_dir_files(3)])
  show "\<exists>r. ss_UpdateZone sv (g_store e) (z\<lparr>z_DNSSEC := cloneDNSSECConfig (sa_DNSSEC a)\<rparr>) v (sv_store st) = (Inr r, sv_store st')"
    using p(2,3) only_dirD(1) [OF o] by simp
  show "b = a" by fact
  have n: "added m file (sa_SignedZone a) (sv_dirs (st1\<lparr>sv_store := s\<rparr>) (zdir sv (sa_ZoneName a)))"
      "fs_dir (sv_dirs (st1\<lparr>sv_store := s\<rparr>) (zdir sv (sa_ZoneName a))) = DirPresent"
    using stored_artifact [OF assms(1,2) p(1)] by (simp_all add: file_def)
  show "\<exists>m' ti. cache m' f \<and> m' \<subseteq>\<^sub>m m(file \<mapsto> Regular (sa_SignedZone a) 420 ti) \<and> m' file = Some (Regular (sa_SignedZone a) 420 ti)
      \<and> fs_dir f = DirPresent"
    using completed_write [OF n refl] p(3) by (simp add: f_def)
  show "sv_dirs st' d = sv_dirs st d" if "d \<noteq> zdir sv (sa_ZoneName a)"
    using that only_dirD(4) [OF o that] only_dirD(4) [OF only_dir_files(3) that, of "st1\<lparr>sv_store := s\<rparr>"] p(3)
    by (simp add: completeSignedZoneWrite_def logSignedZoneWrite_def)
qed

lemma publish_fails:
  assumes "cache m (sv_dirs st (zdir sv (sa_ZoneName a)))" "ss_artifactDir sv \<noteq> []"
    and "publish_resigned sv e z v a st = (Inl err, st')"
    and keep: "\<And>z s err s'. ss_UpdateZone sv (g_store e) z v s = (Inl err, s') \<Longrightarrow> s' = s"
  defines "f \<equiv> sv_dirs st' (zdir sv (sa_ZoneName a))"
  shows "sv_store st' = sv_store st" and "\<exists>m'. cache m' f \<and> (\<forall>n. n \<noteq> artifact_file (sa_Version a) \<longrightarrow> m' n = m n)"
    and "d \<noteq> zdir sv (sa_ZoneName a) \<Longrightarrow> sv_dirs st' d = sv_dirs st d"
proof -
  obtain r st1 where s: "storeSignedZoneArtifact sv a st = (r, st1)" by fastforce
  note o = only_dir_files(1) [OF s]
  note f1 = stored_artifact [OF assms(1,2) s]
  have n: "\<exists>m'. cache m' g \<and> (\<forall>n. n \<noteq> artifact_file (sa_Version a) \<longrightarrow> m' n = m n)"
    if "cache m g \<or> added m (artifact_file (sa_Version a)) (sa_SignedZone a) g" for g
    using that by (auto simp: added_def intro: exI [of _ m] exI [of _ "m(artifact_file (sa_Version a) \<mapsto> _)"])
  have "sv_store st' = sv_store st \<and> (\<exists>m'. cache m' f \<and> (\<forall>n. n \<noteq> artifact_file (sa_Version a) \<longrightarrow> m' n = m n))
    \<and> (d \<noteq> zdir sv (sa_ZoneName a) \<longrightarrow> sv_dirs st' d = sv_dirs st d)" for d
  proof (cases r)
    case (Inl e1)
    then have "st' = st1" using assms(3) s by (simp add: publish_resigned_def sbind_def)
    then show ?thesis using f1 Inl n [of f] only_dirD(1,4) [OF o] by (simp add: f_def)
  next
    case (Inr u)
    obtain r1 s1 where 2: "ss_UpdateZone sv (g_store e) (z\<lparr>z_DNSSEC := cloneDNSSECConfig (sa_DNSSEC a)\<rparr>) v (sv_store st1) = (r1, s1)" by fastforce
    have r1: "isl r1" using assms(3) [unfolded publish_resigned_unfold [OF s 2]] Inr by (cases r1) auto
    then have s1: "s1 = sv_store st1" using 2 keep by (cases r1) auto
    have u: "st' = discard_artifact sv a st1"
      using assms(3) [unfolded publish_resigned_unfold [OF s 2]] Inr r1 by (cases r1) (auto simp: s1)
    obtain m1 where m1: "cache m1 (sv_dirs st1 (zdir sv (sa_ZoneName a)))" "\<forall>n. n \<noteq> artifact_file (sa_Version a) \<longrightarrow> m1 n = m n"
      using f1 Inr n by auto
    from discarded_artifact [OF m1(1) assms(2)] u m1(2) have "\<exists>m'. cache m' f \<and> (\<forall>n. n \<noteq> artifact_file (sa_Version a) \<longrightarrow> m' n = m n)"
      by (auto simp: f_def)
    then show ?thesis using u only_dirD(1,4) [OF o] only_dirD(4) [OF only_dir_files(2) [of sv a st1]] by simp
  qed
  then show "sv_store st' = sv_store st" "\<exists>m'. cache m' f \<and> (\<forall>n. n \<noteq> artifact_file (sa_Version a) \<longrightarrow> m' n = m n)"
    "d \<noteq> zdir sv (sa_ZoneName a) \<Longrightarrow> sv_dirs st' d = sv_dirs st d" by blast+
qed

subsection \<open>Zones of the store\<close>

lemma cloneZone_id [simp]: "cloneZone z = z"
proof -
  have "map (\<lambda>r. r\<lparr>r_Priority := (case r_Priority r of None \<Rightarrow> None | Some p \<Rightarrow> Some p)\<rparr>) rs = rs" for rs :: "Record list"
    by (induction rs) (auto split: option.split)
  then show ?thesis by (simp add: cloneZone_def)
qed

lemma resigned_zone_simps [simp]:
  "z_Name (resigned_zone e v z) = z_Name z" "z_Version (resigned_zone e v z) = v" "z_Records (resigned_zone e v z) = z_Records z"
  "soa_Serial (z_SOA (resigned_zone e v z)) = NextSOASerial (g_date e) (soa_Serial (z_SOA z))"
  by (simp_all add: resigned_zone_def Let_def)

lemma signed_zone_identity:
  "SignZoneWithKeys L str S opts random now (Some z) (Some ksk) (Some zsk) = Inr (z', rrs) \<Longrightarrow> z_Version z' = z_Version z \<and> z_SOA z' = z_SOA z"
  by (auto simp: SignZoneWithKeys_def signZoneWithKeys_def bindE_def rrsToModel_def Let_def split: sum.splits option.splits)

lemma SignZone_fields:
  assumes "SignZone sv e z = Inr a"
  shows "sa_ZoneName a = z_Name z" "sa_Version a = z_Version z" "sa_Serial a = soa_Serial (z_SOA z)"
proof -
  obtain ksk zsk signedZone signedRRs where
    "SignZoneWithKeys (ss_names sv) (dt_String (ss_text sv)) (ss_lib sv) (NewZoneSigner (ss_options sv)) (g_random e) (g_now e)
       (Some z) (Some ksk) (Some zsk) = Inr (signedZone, signedRRs)"
    "sa_ZoneName a = z_Name z" "sa_Version a = z_Version signedZone" "sa_Serial a = soa_Serial (z_SOA signedZone)"
    using assms by (auto simp: SignZone_def Let_def split: sum.splits prod.splits)
  then show "sa_ZoneName a = z_Name z" "sa_Version a = z_Version z" "sa_Serial a = soa_Serial (z_SOA z)"
    using signed_zone_identity by fastforce+
qed

text \<open>The store keeps the serial that the signed file has, on whatever day it is written.\<close>

lemma next_serial_kept:
  assumes "calendar_date d" "calendar_date d'"
  shows "updateSOASerial d' c (NextSOASerial d c) = NextSOASerial d c"
proof (cases "c = MaxUint32")
  case True
  then show ?thesis using assms by (simp add: updateSOASerial_def NextSOASerial_def generateSerial_max)
next
  case False
  then show ?thesis using generateSerial_greater [OF assms(1)] by (simp add: updateSOASerial_def NextSOASerial_def)
qed

lemma ResignZone_success:
  assumes "ResignZone sv e n st = (Inr (), st')"
  defines "k \<equiv> NormalizeZoneName n"
  shows "\<exists>old v a st1. k \<notin> sv_locks st \<and> ss_GetZone sv (sv_store st) n = Inr old \<and> g_version e = Some v
    \<and> SignZone sv e (resigned_zone e v old) = Inr a
    \<and> publish_resigned sv e (resigned_zone e v old) (z_Version old) a (st\<lparr>sv_locks := insert k (sv_locks st)\<rparr>) = (Inr a, st1)
    \<and> sv_store st' = sv_store st1 \<and> sv_dirs st' = sv_dirs st1"
proof -
  let ?st = "st\<lparr>sv_locks := insert k (sv_locks st)\<rparr>"
  let ?body = "sbind (store_read sv n) (\<lambda>zone. if \<not> dnssec_enabled zone then (\<lambda>st. (Inl (SvNotEnabled n), st))
      else sbind (resignAndStoreZoneLocked sv e zone) (\<lambda>_ st. (Inr (), st)))"
  obtain r st1 where b: "?body ?st = (r, st1)" by fastforce
  have l: "k \<notin> sv_locks st" "\<not> g_ended e"
    using assms(1) by (auto simp: ResignZone_def with_zone_lock_def sbind_def acquireZoneLock_def Let_def k_def split: if_splits)
  then have "(r, Unlock k st1) = (Inr (), st')"
    using assms(1) b unfolding ResignZone_def with_zone_lock_def sbind_def [of "acquireZoneLock e n"] acquireZoneLock_def
    by (simp add: Let_def k_def)
  then have r: "r = Inr ()" "sv_store st' = sv_store st1" "sv_dirs st' = sv_dirs st1" by (auto simp: Unlock_def)
  obtain old where old: "ss_GetZone sv (sv_store st) n = Inr old" using b r(1)
    by (cases "ss_GetZone sv (sv_store st) n") (auto simp: sbind_def store_read_def)
  have "dnssec_enabled old" using b r(1) old by (auto simp: sbind_def store_read_def split: if_splits)
  then obtain b' where "resignAndStoreZoneLocked sv e old ?st = (Inr b', st1)" using b r(1) old
    by (auto simp: sbind_def store_read_def split: prod.splits sum.splits)
  then obtain v a where "g_version e = Some v" "SignZone sv e (resigned_zone e v old) = Inr a"
      and p: "publish_resigned sv e (resigned_zone e v old) (z_Version old) a ?st = (Inr b', st1)"
    by (auto simp: resignAndStoreZoneLocked_def split: option.splits sum.splits)
  moreover have "b' = a"
  proof -
    obtain r0 st2 where 1: "storeSignedZoneArtifact sv a ?st = (r0, st2)" by fastforce
    obtain r1 s where 2: "ss_UpdateZone sv (g_store e) ((resigned_zone e v old)\<lparr>z_DNSSEC := cloneDNSSECConfig (sa_DNSSEC a)\<rparr>) (z_Version old) (sv_store st2) = (r1, s)"
      by fastforce
    show ?thesis using p [unfolded publish_resigned_unfold [OF 1 2]] by (auto split: sum.splits)
  qed
  ultimately show ?thesis using l old r by blast
qed

text \<open>A failed re-signing has either not come to its first write, or failed while publishing.\<close>

lemma ResignZone_failure:
  assumes "ResignZone sv e n st = (Inl err, st')"
  defines "k \<equiv> NormalizeZoneName n"
  shows "sv_store st' = sv_store st \<and> sv_dirs st' = sv_dirs st
    \<or> (\<exists>old v a st1 err1. ss_GetZone sv (sv_store st) n = Inr old \<and> g_version e = Some v
      \<and> SignZone sv e (resigned_zone e v old) = Inr a
      \<and> publish_resigned sv e (resigned_zone e v old) (z_Version old) a (st\<lparr>sv_locks := insert k (sv_locks st)\<rparr>) = (Inl err1, st1)
      \<and> sv_store st' = sv_store st1 \<and> sv_dirs st' = sv_dirs st1)"
proof -
  let ?st = "st\<lparr>sv_locks := insert k (sv_locks st)\<rparr>"
  let ?body = "sbind (store_read sv n) (\<lambda>zone. if \<not> dnssec_enabled zone then (\<lambda>st. (Inl (SvNotEnabled n), st))
      else sbind (resignAndStoreZoneLocked sv e zone) (\<lambda>_ st. (Inr (), st)))"
  show ?thesis
  proof (cases "g_ended e \<or> k \<in> sv_locks st")
    case True
    then show ?thesis using assms(1) by (auto simp: ResignZone_def with_zone_lock_def sbind_def acquireZoneLock_def Let_def k_def)
  next
    case False
    obtain r st1 where b: "?body ?st = (r, st1)" by fastforce
    have "(r, Unlock k st1) = (Inl err, st')"
      using assms(1) b False unfolding ResignZone_def with_zone_lock_def sbind_def [of "acquireZoneLock e n"] acquireZoneLock_def
      by (simp add: Let_def k_def)
    then have r: "r = Inl err" "sv_store st' = sv_store st1" "sv_dirs st' = sv_dirs st1" by (auto simp: Unlock_def)
    show ?thesis
    proof (cases "\<exists>old v a. ss_GetZone sv (sv_store st) n = Inr old \<and> dnssec_enabled old \<and> g_version e = Some v \<and> SignZone sv e (resigned_zone e v old) = Inr a")
      case True
      then obtain old v a where o: "ss_GetZone sv (sv_store st) n = Inr old" "dnssec_enabled old" "g_version e = Some v"
          "SignZone sv e (resigned_zone e v old) = Inr a" by blast
      obtain r2 st2 where p: "publish_resigned sv e (resigned_zone e v old) (z_Version old) a ?st = (r2, st2)" by fastforce
      have "?body ?st = (map_sum id (\<lambda>_. ()) r2, st2)"
        using o p by (simp add: sbind_def store_read_def resignAndStoreZoneLocked_def split: sum.split)
      then obtain err2 where "r2 = Inl err2" "st2 = st1" using b r(1) by (cases r2) auto
      then show ?thesis using o p r by blast
    next
      case no: False
      have "st1 = ?st"
      proof (cases "ss_GetZone sv (sv_store st) n")
        case (Inl x)
        then show ?thesis using b by (simp add: sbind_def store_read_def)
      next
        case (Inr old)
        show ?thesis
        proof (cases "dnssec_enabled old")
          case True
          then have "resignAndStoreZoneLocked sv e old ?st = (r3, st3) \<Longrightarrow> st3 = ?st" for r3 st3
            using no Inr by (auto simp: resignAndStoreZoneLocked_def split: option.splits sum.splits)
          then show ?thesis using b Inr True by (auto simp: sbind_def store_read_def split: prod.splits sum.splits)
        next
          case False
          then show ?thesis using b Inr by (simp add: sbind_def store_read_def)
        qed
      qed
      then show ?thesis using r by simp
    qed
  qed
qed

subsection \<open>The service on any store\<close>

locale signing_store = zone_store get create update delete contents inv
  for get :: "'s \<Rightarrow> string \<Rightarrow> store_error + Zone"
    and create :: "env \<Rightarrow> Zone option \<Rightarrow> 's \<Rightarrow> (store_error + Zone) \<times> 's"
    and update :: "env \<Rightarrow> Zone \<Rightarrow> string \<Rightarrow> 's \<Rightarrow> (store_error + Zone) \<times> 's"
    and delete :: "string \<Rightarrow> string \<Rightarrow> 's \<Rightarrow> store_error option \<times> 's"
    and contents :: "'s \<Rightarrow> string \<Rightarrow> Zone option"
    and inv :: "'s \<Rightarrow> bool" +
  fixes sv :: "('s, 'k) SigningService"
  assumes reads: "ss_GetZone sv = get" and writes: "ss_UpdateZone sv = update"
begin

lemma resign_publishes:
  assumes caches: "ss_artifactDir sv \<noteq> []" and i: "inv (sv_store st)" and e: "env_ok (g_store e)" "calendar_date (g_date e)"
    and c: "cache m (sv_dirs st (zdir sv (NormalizeZoneName n)))" and run: "ResignZone sv e n st = (Inr (), st')"
    and old: "get (sv_store st) n = Inr old" and v: "g_version e = Some v" "v \<noteq> []" "v \<noteq> z_Version old"
  shows "\<exists>w a m' ti. SignZone sv e (resigned_zone e v old) = Inr a \<and> inv (sv_store st') \<and> get (sv_store st') n = Inr w
    \<and> z_Name w = NormalizeZoneName n \<and> z_Version w = v \<and> soa_Serial (z_SOA w) = sa_Serial a
    \<and> mset (rdata (z_Records w)) = mset (rdata (z_Records old))
    \<and> cache m' (sv_dirs st' (zdir sv (z_Name w))) \<and> m' \<subseteq>\<^sub>m m(artifact_file v \<mapsto> Regular (sa_SignedZone a) 420 ti)
    \<and> m' (artifact_file v) = Some (Regular (sa_SignedZone a) 420 ti) \<and> fs_dir (sv_dirs st' (zdir sv (z_Name w))) = DirPresent
    \<and> (\<forall>n'. NormalizeZoneName n' \<noteq> NormalizeZoneName n \<longrightarrow> get (sv_store st') n' = get (sv_store st) n')
    \<and> (\<forall>d. d \<noteq> zdir sv (z_Name w) \<longrightarrow> sv_dirs st' d = sv_dirs st d)"
proof -
  let ?k = "NormalizeZoneName n"
  let ?st = "st\<lparr>sv_locks := insert ?k (sv_locks st)\<rparr>"
  obtain a st1 where s: "SignZone sv e (resigned_zone e v old) = Inr a"
      "publish_resigned sv e (resigned_zone e v old) (z_Version old) a ?st = (Inr a, st1)"
      "sv_store st' = sv_store st1" "sv_dirs st' = sv_dirs st1"
    using ResignZone_success [OF run] old v(1) by (auto simp: reads)
  have old': "contents (sv_store st) ?k = Some old" using old i by (simp add: get_Inr_iff)
  then have k: "z_Name old = ?k" using stored_law [OF i] by blast
  note f = SignZone_fields [OF s(1), simplified]
  have c': "cache m (sv_dirs ?st (zdir sv (sa_ZoneName a)))" using c f k by simp
  note p = publish_succeeds [OF c' caches s(2)]
  let ?z = "(resigned_zone e v old)\<lparr>z_DNSSEC := cloneDNSSECConfig (sa_DNSSEC a)\<rparr>"
  obtain r where u: "update (g_store e) ?z (z_Version old) (sv_store st) = (Inr r, sv_store st')"
    using p(1) s(3) by (auto simp: writes)
  have nz: "NormalizeZoneName (z_Name ?z) = ?k" by (simp add: k NormalizeZoneName_idem)
  obtain w where w: "contents (sv_store st') = (contents (sv_store st))(?k \<mapsto> w)" "updated_from (g_store e) old ?z w" "inv (sv_store st')"
    using update_law [OF i e(1) u] nz old' by auto
  have g: "get (sv_store st') n' = (if NormalizeZoneName n' = ?k then Inr w else get (sv_store st) n')" for n'
    using w i by (simp add: get_law)
  have wk: "z_Name w = ?k" using stored_law [OF w(3), of ?k w] w(1) by simp
  have wf: "z_Version w = v" "soa_Serial (z_SOA w) = sa_Serial a" "mset (rdata (z_Records w)) = mset (rdata (z_Records old))"
    using w(2) v f(3) next_serial_kept [OF e(2), of "e_date (g_store e)"] e(1)
    by (simp_all add: updated_from_def version_after_def env_ok_def)
  have d: "sv_dirs st' d = sv_dirs st d" if "d \<noteq> zdir sv ?k" for d using that p(4) f k s(4) by simp
  show ?thesis using p(2) f k s(1,4) w(3) g wk wf d by (intro exI [of _ w] exI [of _ a]) auto
qed

lemma resign_failure:
  assumes caches: "ss_artifactDir sv \<noteq> []" and i: "inv (sv_store st)" and c: "cache m (sv_dirs st (zdir sv (NormalizeZoneName n)))"
    and run: "ResignZone sv e n st = (Inl err, st')"
  shows "sv_store st' = sv_store st \<and> (\<forall>d. d \<noteq> zdir sv (NormalizeZoneName n) \<longrightarrow> sv_dirs st' d = sv_dirs st d)
    \<and> (\<exists>m'. cache m' (sv_dirs st' (zdir sv (NormalizeZoneName n)))
        \<and> (\<forall>f. (\<forall>v. g_version e = Some v \<longrightarrow> f \<noteq> artifact_file v) \<longrightarrow> m' f = m f))"
  using ResignZone_failure [OF run]
proof (elim disjE exE conjE)
  assume "sv_store st' = sv_store st" "sv_dirs st' = sv_dirs st"
  then show ?thesis using c by auto
next
  fix old v a st1 err1
  let ?k = "NormalizeZoneName n"
  let ?st = "st\<lparr>sv_locks := insert ?k (sv_locks st)\<rparr>"
  assume o: "ss_GetZone sv (sv_store st) n = Inr old" "g_version e = Some v" "SignZone sv e (resigned_zone e v old) = Inr a"
    and p: "publish_resigned sv e (resigned_zone e v old) (z_Version old) a ?st = (Inl err1, st1)"
    and s: "sv_store st' = sv_store st1" "sv_dirs st' = sv_dirs st1"
  have "z_Name old = ?k" using o(1) i stored_law [OF i, of ?k old] by (simp add: reads get_Inr_iff)
  then have f: "sa_ZoneName a = ?k" "sa_Version a = v" using SignZone_fields [OF o(3)] by simp_all
  have c': "cache m (sv_dirs ?st (zdir sv (sa_ZoneName a)))" using c f by simp
  have keep: "\<And>z s err s'. ss_UpdateZone sv (g_store e) z (z_Version old) s = (Inl err, s') \<Longrightarrow> s' = s"
    using update_error_law by (auto simp: writes)
  note q = publish_fails [OF c' caches p keep]
  show ?thesis using q(1) q(2) q(3) s f o(2) by auto
qed

text \<open>What a client gets when the artifact of the current version is there and no file operation fails.\<close>

lemma published_served:
  assumes caches: "ss_artifactDir sv \<noteq> []" and i: "inv (sv_store st)" and w: "get (sv_store st) n = Inr w" and e: "\<not> g_ended e" "NormalizeZoneName n \<notin> sv_locks st"
    and d: "fs_faults (sv_dirs st (zdir sv (z_Name w))) = []" "fs_dir (sv_dirs st (zdir sv (z_Name w))) = DirPresent"
      "arts (sv_dirs st (zdir sv (z_Name w))) (artifact_file (z_Version w)) = Some (Regular d p t)" "int (length d) \<le> maxSignedArtifactFileSize"
  shows "fst (GetPublishedSignedZone sv e n st) =
    (case signedArtifactFromCache sv w d of
       Inl err \<Rightarrow> Inl (SvUnavailable err)
     | Inr a \<Rightarrow> if cachedArtifactUsable (g_now e) a then Inr a
         else Inl (SvExpired (sa_ZoneName a) (sa_Version a) (md_Expiration (sa_Metadata a))))"
proof -
  have w': "z_Name w = NormalizeZoneName n" "z_Version w \<noteq> []" using w i stored_law [OF i, of "NormalizeZoneName n" w] by (simp_all add: get_Inr_iff)
  have "map_of (fs_files (sv_dirs st (zdir sv (z_Name w)))) (artifact_file (z_Version w)) = Some (Regular d p t)"
    using d(3) by (simp add: art_map_def)
  note l = load_artifact_ok [OF d(1,2) this d(4)]
  have "loadCachedSignedZoneArtifact sv w (st\<lparr>sv_locks := insert (NormalizeZoneName n) (sv_locks st)\<rparr>)
      = (signedArtifactFromCache sv w d, st\<lparr>sv_locks := insert (NormalizeZoneName n) (sv_locks st)\<rparr>)"
    using w'(2) caches l by (simp add: loadCachedSignedZoneArtifact_def on_dir_def Let_def fun_upd_idem)
  then show ?thesis
    using w w' e by (simp add: GetPublishedSignedZone_def sbind_def store_read_def reads with_zone_lock_def acquireZoneLock_def NormalizeZoneName_idem Let_def
        split: sum.split)
qed

end

end
