(* ===== verification/Denial_Laws.thy ===== *)
theory Denial_Laws
  imports Nsec_Chain
begin

section \<open>What the denial chains prove\<close>

text \<open>
  The NSEC and NSEC3 chains of \<open>Nsec_Chain\<close>, for a zone whose owner names are plain lower-case names: the set of names
  in the chain, the uniqueness of the record that denies a name, and the type bitmaps.
\<close>

subsection \<open>Names as lists of labels\<close>

definition plain_labels :: "string list \<Rightarrow> bool" where
  "plain_labels ls \<longleftrightarrow> ls \<noteq> [] \<and>
     list_all (\<lambda>l. l \<noteq> [] \<and> CHR ''.'' \<notin> set l \<and> CHR 0x5C \<notin> set l \<and> ToLower l = l) ls"

definition fqdn :: "string list \<Rightarrow> string" where
  "fqdn ls = concat (map (\<lambda>l. l @ ''.'') ls)"

text \<open>What the documentation of the DNS library says of its functions on plain lower-case names.\<close>

definition names_ok :: "dns_names \<Rightarrow> bool" where
  "names_ok L \<longleftrightarrow>
     (\<forall>ls. plain_labels ls \<longrightarrow> dn_SplitDomainName L (fqdn ls) = ls \<and> dn_Fqdn L (fqdn ls) = fqdn ls
        \<and> dn_Fqdn L (join_with ''.'' ls) = fqdn ls \<and> dn_CanonicalName L (fqdn ls) = fqdn ls
        \<and> dn_CountLabel L (fqdn ls) = length ls)
     \<and> (\<forall>as bs. plain_labels as \<longrightarrow> plain_labels bs \<longrightarrow> dn_IsSubDomain L (fqdn as) (fqdn bs) = suffix as bs)"

lemma names_okD:
  assumes "names_ok L" "plain_labels ls"
  shows "dn_SplitDomainName L (fqdn ls) = ls" "dn_Fqdn L (fqdn ls) = fqdn ls" "dn_Fqdn L (join_with ''.'' ls) = fqdn ls"
    "dn_CanonicalName L (fqdn ls) = fqdn ls" "dn_CountLabel L (fqdn ls) = length ls"
    "plain_labels zs \<Longrightarrow> dn_IsSubDomain L (fqdn zs) (fqdn ls) \<longleftrightarrow> suffix zs ls"
  using assms by (auto simp: names_ok_def)

lemma fqdn_inject: "names_ok L \<Longrightarrow> plain_labels as \<Longrightarrow> plain_labels bs \<Longrightarrow> fqdn as = fqdn bs \<longleftrightarrow> as = bs"
  using names_okD(1) by metis

lemma plain_suffix: "plain_labels ls \<Longrightarrow> suffix ms ls \<Longrightarrow> ms \<noteq> [] \<Longrightarrow> plain_labels ms"
  by (auto simp: plain_labels_def suffix_def)

lemma fqdn_nonempty: "plain_labels ls \<Longrightarrow> fqdn ls \<noteq> []"
  by (cases ls) (auto simp: plain_labels_def fqdn_def)

lemma parentDomain_fqdn:
  assumes "names_ok L" "plain_labels (l # ls)"
  shows "parentDomain L (fqdn (l # ls)) = (if ls = [] then [] else fqdn ls)"
proof (cases ls)
  case Nil
  then show ?thesis using names_okD(1) [OF assms] by (simp add: parentDomain_def)
next
  case (Cons m ms)
  then have "plain_labels ls" using assms(2) by (simp add: plain_labels_def)
  then show ?thesis using names_okD(1) [OF assms] names_okD(3) [OF assms(1)] Cons by (simp add: parentDomain_def)
qed

subsection \<open>The names of the chain\<close>

definition between :: "string list \<Rightarrow> string list \<Rightarrow> string list set" where
  "between zs ls = {ms. strict_suffix ms ls \<and> strict_suffix zs ms}"

lemma between_Cons: "between zs (l # ls) = (if strict_suffix zs ls then insert ls (between zs ls) else {})"
proof -
  have "strict_suffix ms (l # ls) \<longleftrightarrow> suffix ms ls" for ms
    by (auto simp: strict_suffix_def suffix_Cons dest: suffix_length_le)
  moreover have "suffix ms ls \<longleftrightarrow> ms = ls \<or> strict_suffix ms ls" for ms by (auto simp: strict_suffix_def)
  moreover have "strict_suffix zs ls" if "suffix ms ls" "strict_suffix zs ms" for ms
    using that by (meson suffix_order.less_le_trans)
  ultimately show ?thesis by (auto simp: between_def)
qed

lemma walk_up_names:
  assumes L: "names_ok L" and z: "plain_labels zs"
  shows "plain_labels ls \<Longrightarrow> suffix zs ls \<Longrightarrow> length ls < fuel \<Longrightarrow>
    \<exists>names' ents'. walk_up L (fqdn zs) fuel (fqdn ls) (names, ents) = Some (names', ents')
      \<and> set names' = set names \<union> fqdn ` between zs ls \<and> (distinct names \<longrightarrow> distinct names')
      \<and> (A \<subseteq> set names \<and> set ents = set names - A \<longrightarrow> set ents' = set names' - A)"
proof (induction ls arbitrary: fuel names ents)
  case Nil
  then show ?case by (simp add: plain_labels_def)
next
  case (Cons l ls)
  obtain k where k: "fuel = Suc k" "length ls < k" using Cons.prems(3) by (cases fuel) auto
  note p = parentDomain_fqdn [OF L Cons.prems(1)]
  show ?case
  proof (cases "strict_suffix zs ls")
    case True
    then have ls: "plain_labels ls" "suffix zs ls" "ls \<noteq> []" "ls \<noteq> zs"
      using Cons.prems(1) z plain_suffix [of "l # ls" ls] by (auto simp: strict_suffix_def suffix_Cons plain_labels_def)
    let ?st = "if fqdn ls \<in> set names then (names, ents) else (names @ [fqdn ls], ents @ [fqdn ls])"
    have step: "walk_up L (fqdn zs) fuel (fqdn (l # ls)) (names, ents) = walk_up L (fqdn zs) k (fqdn ls) ?st"
      using p ls names_okD(6) [OF L ls(1) z] fqdn_inject [OF L ls(1) z] fqdn_nonempty [OF ls(1)] by (simp add: k(1) Let_def)
    show ?thesis
    proof (cases "fqdn ls \<in> set names")
      case True
      then have "set names \<union> fqdn ` between zs (l # ls) = set names \<union> fqdn ` between zs ls"
        using \<open>strict_suffix zs ls\<close> by (auto simp: between_Cons)
      then show ?thesis using Cons.IH [OF ls(1,2) k(2), of names ents] step True by simp
    next
      case False
      obtain n e where ne: "walk_up L (fqdn zs) k (fqdn ls) (names @ [fqdn ls], ents @ [fqdn ls]) = Some (n, e)"
          "set n = set (names @ [fqdn ls]) \<union> fqdn ` between zs ls" "distinct (names @ [fqdn ls]) \<longrightarrow> distinct n"
          "A \<subseteq> set (names @ [fqdn ls]) \<and> set (ents @ [fqdn ls]) = set (names @ [fqdn ls]) - A \<longrightarrow> set e = set n - A"
        using Cons.IH [OF ls(1,2) k(2), of "names @ [fqdn ls]" "ents @ [fqdn ls]"] by (elim exE conjE)
      have "A \<subseteq> set names \<and> set ents = set names - A \<longrightarrow> set e = set n - A" using ne(4) False by auto
      moreover have "set n = set names \<union> fqdn ` between zs (l # ls)" using ne(2) \<open>strict_suffix zs ls\<close> by (simp add: between_Cons)
      moreover have "distinct names \<longrightarrow> distinct n" using ne(3) False by simp
      ultimately show ?thesis using ne(1) step False by auto
    qed
  next
    case False
    have "ls = [] \<or> fqdn ls = fqdn zs \<or> \<not> dn_IsSubDomain L (fqdn zs) (fqdn ls)"
    proof (cases "ls = []")
      case False
      then have "plain_labels ls" using Cons.prems(1) by (simp add: plain_labels_def)
      then show ?thesis using names_okD(6) [OF L _ z] \<open>\<not> strict_suffix zs ls\<close> by (auto simp: strict_suffix_def)
    qed simp
    then have "walk_up L (fqdn zs) fuel (fqdn (l # ls)) (names, ents) = Some (names, ents)"
      using p by (auto simp: k(1) Let_def)
    then show ?thesis using False by (simp add: between_Cons)
  qed
qed

lemma walk_all_names:
  assumes L: "names_ok L" and z: "plain_labels zs"
  shows "list_all (\<lambda>ls. plain_labels ls \<and> suffix zs ls) os \<Longrightarrow> distinct names \<Longrightarrow> A \<subseteq> set names \<Longrightarrow> set ents = set names - A \<Longrightarrow>
    \<exists>names' ents'. walk_all L (fqdn zs) (map fqdn os) (names, ents) = Some (names', ents')
      \<and> set names' = set names \<union> fqdn ` (\<Union>ls \<in> set os. between zs ls) \<and> distinct names' \<and> set ents' = set names' - A"
proof (induction os arbitrary: names ents)
  case (Cons ls os)
  have ls: "plain_labels ls" "suffix zs ls" using Cons.prems(1) by simp_all
  obtain n e where w: "walk_up L (fqdn zs) (Suc (length (dn_SplitDomainName L (fqdn ls)))) (fqdn ls) (names, ents) = Some (n, e)"
      "set n = set names \<union> fqdn ` between zs ls" "distinct n" "set e = set n - A"
    using walk_up_names [OF L z ls, of "Suc (length (dn_SplitDomainName L (fqdn ls)))" names ents A] names_okD(1) [OF L ls(1)]
      Cons.prems(2-4) by auto
  have "list_all (\<lambda>ls. plain_labels ls \<and> suffix zs ls) os" "A \<subseteq> set n" using Cons.prems(1,3) w(2) by auto
  from Cons.IH [OF this(1) w(3) this(2) w(4)] obtain n' e' where "walk_all L (fqdn zs) (map fqdn os) (n, e) = Some (n', e')"
      "set n' = set n \<union> fqdn ` (\<Union>ls \<in> set os. between zs ls)" "distinct n'" "set e' = set n' - A"
    by blast
  then show ?case using w by (simp add: image_Un Un_assoc del: walk_up.simps)
qed simp

text \<open>The labels of a name, and names the lemmas are about.\<close>

definition labels_of :: "string \<Rightarrow> string list" where
  "labels_of n = split_on CHR ''.'' (TrimSuffix n ''.'')"

definition plain_name :: "string \<Rightarrow> bool" where
  "plain_name n \<longleftrightarrow> HasSuffix n ''.'' \<and> plain_labels (labels_of n)"

lemma fqdn_join: "ls \<noteq> [] \<Longrightarrow> fqdn ls = join_with ''.'' ls @ ''.''"
  by (induction ls rule: induct_list012) (auto simp: fqdn_def)

lemma labels_of_fqdn: "plain_labels ls \<Longrightarrow> labels_of (fqdn ls) = ls"
  by (auto simp: labels_of_def fqdn_join plain_labels_def list_all_iff TrimSuffix_def split_join)

lemma fqdn_labels_of: "plain_name n \<Longrightarrow> fqdn (labels_of n) = n"
  by (auto simp: plain_name_def labels_of_def fqdn_join join_split TrimSuffix_def HasSuffix_iff)

lemma plain_name_fqdn: "plain_labels ls \<Longrightarrow> plain_name (fqdn ls)"
  by (auto simp: plain_name_def labels_of_fqdn) (simp add: fqdn_join plain_labels_def)

text \<open>A name exists in a zone when it is the owner of a record, or above one, up to the apex.\<close>

definition name_exists :: "string list \<Rightarrow> RR list \<Rightarrow> string list \<Rightarrow> bool" where
  "name_exists zs rrs ls \<longleftrightarrow> suffix zs ls \<and>
     list_ex (\<lambda>x. rr_Rrtype x \<noteq> TypeNSEC3 \<and> suffix ls (labels_of (rr_Name x))) rrs"

definition signable :: "string list \<Rightarrow> RR list \<Rightarrow> bool" where
  "signable zs rrs \<longleftrightarrow> plain_labels zs \<and> list_all (\<lambda>x. plain_name (rr_Name x)) rrs \<and>
     list_ex (\<lambda>x. rr_Rrtype x \<noteq> TypeNSEC3 \<and> rr_Name x = fqdn zs) rrs"

definition owner_labels :: "string list \<Rightarrow> RR list \<Rightarrow> string list list" where
  "owner_labels zs rrs = remdups (map (\<lambda>x. labels_of (rr_Name x))
     (filter (\<lambda>x. rr_Rrtype x \<noteq> TypeNSEC3 \<and> suffix zs (labels_of (rr_Name x))) rrs))"

lemma signable_rr:
  assumes "names_ok L" "signable zs rrs" "x \<in> set rrs"
  shows "plain_labels (labels_of (rr_Name x))" "fqdn (labels_of (rr_Name x)) = rr_Name x" "dn_Fqdn L (rr_Name x) = rr_Name x"
    "dn_IsSubDomain L (fqdn zs) (rr_Name x) \<longleftrightarrow> suffix zs (labels_of (rr_Name x))"
proof -
  have n: "plain_name (rr_Name x)" "plain_labels zs" using assms(2,3) by (auto simp: signable_def list_all_iff)
  show p: "plain_labels (labels_of (rr_Name x))" "fqdn (labels_of (rr_Name x)) = rr_Name x"
    using n(1) fqdn_labels_of by (auto simp: plain_name_def)
  show "dn_Fqdn L (rr_Name x) = rr_Name x" "dn_IsSubDomain L (fqdn zs) (rr_Name x) \<longleftrightarrow> suffix zs (labels_of (rr_Name x))"
    using names_okD(2,6) [OF assms(1) p(1)] n(2) p(2) by simp_all
qed

lemma remdups_map: "inj_on f (set xs) \<Longrightarrow> remdups (map f xs) = map f (remdups xs)"
  by (induction xs) (auto simp: inj_on_def)

lemma owner_names_labels:
  assumes "names_ok L" "signable zs rrs"
  shows "owner_names L (fqdn zs) rrs = map fqdn (owner_labels zs rrs)"
    "list_all (\<lambda>ls. plain_labels ls \<and> suffix zs ls) (owner_labels zs rrs)"
proof -
  let ?f = "filter (\<lambda>x. rr_Rrtype x \<noteq> TypeNSEC3 \<and> suffix zs (labels_of (rr_Name x))) rrs"
  have f: "filter (counts L (fqdn zs)) rrs = ?f"
    using signable_rr(4) [OF assms] by (intro filter_cong) (auto simp: counts_def)
  show l: "list_all (\<lambda>ls. plain_labels ls \<and> suffix zs ls) (owner_labels zs rrs)"
    using signable_rr(1) [OF assms] by (auto simp: owner_labels_def list_all_iff)
  have "inj_on fqdn (set (map (\<lambda>x. labels_of (rr_Name x)) ?f))"
    using signable_rr(1) [OF assms] labels_of_fqdn by (intro inj_on_inverseI [of _ labels_of]) auto
  then have "remdups (map fqdn (map (\<lambda>x. labels_of (rr_Name x)) ?f)) = map fqdn (remdups (map (\<lambda>x. labels_of (rr_Name x)) ?f))"
    by (rule remdups_map)
  moreover have "map fqdn (map (\<lambda>x. labels_of (rr_Name x)) ?f) = map (\<lambda>x. dn_Fqdn L (rr_Name x)) ?f"
    using signable_rr(2,3) [OF assms] by simp
  ultimately show "owner_names L (fqdn zs) rrs = map fqdn (owner_labels zs rrs)"
    unfolding owner_names_def f owner_labels_def by metis
qed

lemma existing_labels:
  assumes "signable zs rrs"
  shows "set (owner_labels zs rrs) \<union> (\<Union>ls \<in> set (owner_labels zs rrs). between zs ls) = {ls. name_exists zs rrs ls}"
proof (intro set_eqI iffI)
  fix ls assume "ls \<in> set (owner_labels zs rrs) \<union> (\<Union>ls \<in> set (owner_labels zs rrs). between zs ls)"
  then show "ls \<in> {ls. name_exists zs rrs ls}"
    by (auto simp: owner_labels_def name_exists_def list_ex_iff between_def strict_suffix_def)
next
  fix ls assume "ls \<in> {ls. name_exists zs rrs ls}"
  then obtain x where x: "suffix zs ls" "x \<in> set rrs" "rr_Rrtype x \<noteq> TypeNSEC3" "suffix ls (labels_of (rr_Name x))"
    by (auto simp: name_exists_def list_ex_iff)
  obtain y where y: "y \<in> set rrs" "rr_Rrtype y \<noteq> TypeNSEC3" "rr_Name y = fqdn zs" "plain_labels zs"
    using assms by (auto simp: signable_def list_ex_iff)
  have "zs \<in> set (owner_labels zs rrs)" using y labels_of_fqdn [OF y(4)] by (force simp: owner_labels_def)
  moreover have "labels_of (rr_Name x) \<in> set (owner_labels zs rrs)"
    using x suffix_order.trans [OF x(1,4)] by (auto simp: owner_labels_def)
  ultimately show "ls \<in> set (owner_labels zs rrs) \<union> (\<Union>ls \<in> set (owner_labels zs rrs). between zs ls)"
    using x(1,4) by (cases "ls = zs \<or> ls = labels_of (rr_Name x)") (auto simp: between_def strict_suffix_def)
qed

lemma collected_names:
  assumes "names_ok L" "signable zs rrs"
  obtains names ents where "collectAuthoritativeNames L (fqdn zs) rrs = Some (names, ents)" "distinct names"
    "set names = fqdn ` {ls. name_exists zs rrs ls}" "set ents = set names - fqdn ` set (owner_labels zs rrs)"
proof -
  note o = owner_names_labels [OF assms]
  have z: "plain_labels zs" using assms(2) by (simp add: signable_def)
  have d: "distinct (map fqdn (owner_labels zs rrs))" using o(1) [symmetric] by (simp add: owner_names_def)
  obtain names ents where "walk_all L (fqdn zs) (map fqdn (owner_labels zs rrs)) (map fqdn (owner_labels zs rrs), []) = Some (names, ents)"
      "set names = set (map fqdn (owner_labels zs rrs)) \<union> fqdn ` (\<Union>ls \<in> set (owner_labels zs rrs). between zs ls)"
      "distinct names" "set ents = set names - set (map fqdn (owner_labels zs rrs))"
    using walk_all_names [OF assms(1) z o(2) d order.refl, of "[]"] by auto
  then show thesis using existing_labels [OF assms(2)] o(1)
    by (intro that) (auto simp: collectAuthoritativeNames_def Let_def image_Un [symmetric])
qed

lemma name_exists_plain: "signable zs rrs \<Longrightarrow> name_exists zs rrs ls \<Longrightarrow> plain_labels ls"
proof -
  assume s: "signable zs rrs" and "name_exists zs rrs ls"
  then obtain x where x: "suffix zs ls" "x \<in> set rrs" "suffix ls (labels_of (rr_Name x))" by (auto simp: name_exists_def list_ex_iff)
  have "ls \<noteq> []" using x(1) s by (auto simp: signable_def plain_labels_def)
  moreover have "plain_labels (labels_of (rr_Name x))" using s x(2) by (auto simp: signable_def list_all_iff plain_name_def)
  ultimately show ?thesis using plain_suffix x(3) by blast
qed

subsection \<open>Type bitmaps\<close>

definition types_at :: "RR list \<Rightarrow> string \<Rightarrow> uint16 list" where
  "types_at rrs n = remdups (map rr_Rrtype (filter (\<lambda>x. rr_Rrtype x \<noteq> TypeNSEC3 \<and> rr_Name x = n) rrs))"

lemma bitmap_at_map: "bitmap_at (map (\<lambda>n. (n, f n)) ns) n = (if n \<in> set ns then f n else [])"
  by (auto simp: bitmap_at_def map_of_map_restrict split: option.splits)

lemma bitmap_of_name:
  assumes "names_ok L" "signable zs rrs" "plain_labels ls" "suffix zs ls"
  shows "bitmap_at (typeBitmapByName L (fqdn zs) rrs) (fqdn ls) = sort (types_at rrs (fqdn ls))"
proof -
  let ?in = "filter (\<lambda>x. rr_Rrtype x \<noteq> TypeNSEC3 \<and> dn_IsSubDomain L (fqdn zs) (dn_Fqdn L (rr_Name x))) rrs"
  have same: "filter (\<lambda>x. dn_Fqdn L (rr_Name x) = fqdn ls) ?in = filter (\<lambda>x. rr_Rrtype x \<noteq> TypeNSEC3 \<and> rr_Name x = fqdn ls) rrs"
    unfolding filter_filter using signable_rr(3,4) [OF assms(1,2)] labels_of_fqdn [OF assms(3)] assms(4)
    by (intro filter_cong) auto
  show ?thesis
  proof (cases "fqdn ls \<in> set (map (\<lambda>x. dn_Fqdn L (rr_Name x)) ?in)")
    case True
    then show ?thesis unfolding typeBitmapByName_def Let_def bitmap_at_map same types_at_def by simp
  next
    case False
    then have "filter (\<lambda>x. dn_Fqdn L (rr_Name x) = fqdn ls) ?in = []" by (auto simp: filter_empty_conv image_iff)
    then have "types_at rrs (fqdn ls) = []" unfolding types_at_def same [symmetric] by simp
    then show ?thesis using False unfolding typeBitmapByName_def Let_def bitmap_at_map by simp
  qed
qed

lemma ent_has_no_types:
  assumes "names_ok L" "signable zs rrs" "name_exists zs rrs ls" "fqdn ls \<notin> fqdn ` set (owner_labels zs rrs)"
  shows "types_at rrs (fqdn ls) = []"
proof -
  have "plain_labels ls" using name_exists_plain [OF assms(2,3)] .
  have "\<not> (rr_Rrtype x \<noteq> TypeNSEC3 \<and> rr_Name x = fqdn ls)" if "x \<in> set rrs" for x
  proof
    assume x: "rr_Rrtype x \<noteq> TypeNSEC3 \<and> rr_Name x = fqdn ls"
    then have "labels_of (rr_Name x) = ls" using labels_of_fqdn [OF \<open>plain_labels ls\<close>] by simp
    then have "ls \<in> set (owner_labels zs rrs)" using that x assms(3) by (force simp: owner_labels_def name_exists_def)
    then show False using assms(4) by blast
  qed
  then show ?thesis by (simp add: types_at_def filter_empty_conv)
qed

subsection \<open>The NSEC chain\<close>

definition nsec_denies :: "RR \<Rightarrow> string list \<Rightarrow> bool" where
  "nsec_denies x ls = (case rr_Data x of
      RR_NSEC nextName _ \<Rightarrow> denies (rev (labels_of (rr_Name x))) (rev (labels_of nextName)) (rev ls) | _ \<Rightarrow> False)"

lemma set_appendUnique [simp]: "set (appendUnique ts t) = insert t (set ts)"
  by (auto simp: appendUnique_def)

lemma distinct_appendUnique: "distinct ts \<Longrightarrow> distinct (appendUnique ts t)"
  by (auto simp: appendUnique_def)

lemma sorted_bitmap: "distinct (ts :: uint16 list) \<Longrightarrow> sorted_wrt (<) (sort_Slice (<) ts)"
  by (rule ascending.strictly_sorted) simp_all

lemma types_at_distinct: "distinct (types_at rrs n)" "distinct (sort (types_at rrs n))" "sorted_wrt (<) (sort (types_at rrs n))"
  by (simp_all add: types_at_def strict_sorted_iff)

lemma nsec_chain_of:
  assumes "names_ok L" "signable zs rrs"
  obtains sorted ents where
    "GenerateNSECChain L (fqdn zs) rrs ttl = Inr (map (nsec_rr ttl (typeBitmapByName L (fqdn zs) rrs) ents sorted) [0..<length sorted])"
    "set sorted = fqdn ` {ls. name_exists zs rrs ls}" "sorted_wrt (<) (map (\<lambda>n. rev (labels_of n)) sorted)" "sorted \<noteq> []" "distinct sorted"
    "set ents = set sorted - fqdn ` set (owner_labels zs rrs)"
proof -
  obtain names ents where c: "collectAuthoritativeNames L (fqdn zs) rrs = Some (names, ents)" "distinct names"
      "set names = fqdn ` {ls. name_exists zs rrs ls}" "set ents = set names - fqdn ` set (owner_labels zs rrs)"
    using collected_names [OF assms] .
  let ?s = "sortCanonicalDNSSECNames L names"
  have z: "plain_labels zs" using assms(2) by (simp add: signable_def)
  have plain: "\<exists>ls. n = fqdn ls \<and> plain_labels ls" if "n \<in> set names" for n
    using that c(3) name_exists_plain [OF assms(2)] by auto
  have key: "rev (dn_SplitDomainName L (dn_CanonicalName L n)) = rev (labels_of n)" if "n \<in> set names" for n
    using plain [OF that] names_okD(1,4) [OF assms(1)] labels_of_fqdn by auto
  have "inj_on (\<lambda>n. rev (dn_SplitDomainName L (dn_CanonicalName L n))) (set names)"
  proof (rule inj_onI)
    fix m n assume mn: "m \<in> set names" "n \<in> set names"
      and "rev (dn_SplitDomainName L (dn_CanonicalName L m)) = rev (dn_SplitDomainName L (dn_CanonicalName L n))"
    then have "labels_of m = labels_of n" by (simp only: key rev_is_rev_conv)
    then show "m = n" using plain [OF mn(1)] plain [OF mn(2)] labels_of_fqdn by force
  qed
  then have "sorted_wrt (canonicalDNSSECLess L) ?s"
    unfolding sortCanonicalDNSSECNames_def using canonical.strictly_sorted [OF c(2)] by blast
  then have "sorted_wrt (\<lambda>m n. rev (labels_of m) < rev (labels_of n)) ?s"
    by (rule sorted_wrt_mono_rel [rotated]) (simp add: sortCanonicalDNSSECNames_def canonical.lt_key key)
  moreover have m: "mset ?s = mset names" by (simp add: sortCanonicalDNSSECNames_def)
  moreover have "names \<noteq> []"
    using c(3) assms(2) by (auto simp: name_exists_def signable_def list_ex_iff dest!: spec [of _ zs])
      (metis labels_of_fqdn suffix_order.refl)
  moreover have "?s \<noteq> []" using m calculation(3) by auto
  ultimately show thesis
    using that [of ents ?s] c names_okD(2) [OF assms(1) z] mset_eq_setD [of ?s names] mset_eq_imp_distinct_iff [of ?s names]
    by (auto simp: GenerateNSECChain_def Let_def sorted_wrt_map)
qed

text \<open>
  The NSEC chain of a signed zone proves exactly what does not exist: there is a record for every owner name and
  every name above one, and a name that does not exist is denied by exactly one record, while a name that
  exists is denied by none. Each record lists, in ascending order, the types at its name with NSEC and RRSIG.
\<close>

lemma nsec_chain_denies:
  assumes "names_ok L" "signable zs rrs"
  shows "\<exists>chain. GenerateNSECChain L (fqdn zs) rrs ttl = Inr chain
    \<and> (\<forall>ls. plain_labels ls \<longrightarrow> (fqdn ls \<in> rr_Name ` set chain \<longleftrightarrow> name_exists zs rrs ls)
        \<and> (if name_exists zs rrs ls then \<forall>i < length chain. \<not> nsec_denies (chain ! i) ls
           else \<exists>!i. i < length chain \<and> nsec_denies (chain ! i) ls))
    \<and> (\<forall>x \<in> set chain. \<exists>next bitmap. rr_Data x = RR_NSEC next bitmap \<and> sorted_wrt (<) bitmap
        \<and> set bitmap = {TypeNSEC, TypeRRSIG} \<union> set (types_at rrs (rr_Name x)))"
proof -
  obtain sorted ents where c:
    "GenerateNSECChain L (fqdn zs) rrs ttl = Inr (map (nsec_rr ttl (typeBitmapByName L (fqdn zs) rrs) ents sorted) [0..<length sorted])"
    "set sorted = fqdn ` {ls. name_exists zs rrs ls}" "sorted_wrt (<) (map (\<lambda>n. rev (labels_of n)) sorted)" "sorted \<noteq> []" "distinct sorted"
    "set ents = set sorted - fqdn ` set (owner_labels zs rrs)"
    using nsec_chain_of [OF assms] .
  let ?k = "map (\<lambda>n. rev (labels_of n)) sorted" let ?rec = "nsec_rr ttl (typeBitmapByName L (fqdn zs) rrs) ents sorted"
  let ?chain = "map ?rec [0..<length sorted]"
  have names: "rr_Name ` set ?chain = set sorted" by (force simp: nsec_rr_def Let_def in_set_conv_nth)
  have member: "fqdn ls \<in> set sorted \<longleftrightarrow> name_exists zs rrs ls" if "plain_labels ls" for ls
    using c(2) that name_exists_plain [OF assms(2)] labels_of_fqdn by (metis (no_types, lifting) imageE image_eqI mem_Collect_eq)
  have key: "rev ls \<in> set ?k \<longleftrightarrow> name_exists zs rrs ls" if p: "plain_labels ls" for ls
    using c(2) name_exists_plain [OF assms(2)] labels_of_fqdn member [OF p] labels_of_fqdn [OF p] by force
  have denies: "nsec_denies (?chain ! i) ls \<longleftrightarrow> denies (?k ! i) (?k ! (Suc i mod length ?k)) (rev ls)" if "i < length sorted" for i ls
    using that c(4) by (simp add: nsec_denies_def nsec_rr_def Let_def)
  have "\<forall>ls. plain_labels ls \<longrightarrow> (fqdn ls \<in> rr_Name ` set ?chain \<longleftrightarrow> name_exists zs rrs ls)
      \<and> (if name_exists zs rrs ls then \<forall>i < length ?chain. \<not> nsec_denies (?chain ! i) ls
         else \<exists>!i. i < length ?chain \<and> nsec_denies (?chain ! i) ls)"
  proof (intro allI impI conjI)
    fix ls assume p: "plain_labels ls"
    show "fqdn ls \<in> rr_Name ` set ?chain \<longleftrightarrow> name_exists zs rrs ls" using names member [OF p] by simp
    show "if name_exists zs rrs ls then \<forall>i < length ?chain. \<not> nsec_denies (?chain ! i) ls
         else \<exists>!i. i < length ?chain \<and> nsec_denies (?chain ! i) ls"
    proof (cases "name_exists zs rrs ls")
      case True
      then show ?thesis using present_not_denied [OF c(3)] key [OF p] denies by simp
    next
      case False
      then have "\<exists>!i. i < length ?k \<and> denies (?k ! i) (?k ! (Suc i mod length ?k)) (rev ls)"
        using absent_denied_once [OF c(3)] key [OF p] c(4) by simp
      then have "\<exists>!i. i < length ?chain \<and> nsec_denies (?chain ! i) ls" using denies [of _ ls] by (simp cong: conj_cong)
      then show ?thesis using False by simp
    qed
  qed
  moreover have "\<exists>next bitmap. rr_Data x = RR_NSEC next bitmap \<and> sorted_wrt (<) bitmap
      \<and> set bitmap = {TypeNSEC, TypeRRSIG} \<union> set (types_at rrs (rr_Name x))" if x: "x \<in> set ?chain" for x
  proof -
    obtain i where i: "i < length sorted" "x = ?rec i" using x by auto
    obtain ls where ls: "sorted ! i = fqdn ls" "name_exists zs rrs ls" using c(2) i(1) by (metis (no_types, lifting) imageE mem_Collect_eq nth_mem)
    have p: "plain_labels ls" "suffix zs ls" using name_exists_plain [OF assms(2) ls(2)] ls(2) by (auto simp: name_exists_def)
    let ?b = "if fqdn ls \<in> set ents then [] else bitmap_at (typeBitmapByName L (fqdn zs) rrs) (fqdn ls)"
    have b: "?b = sort (types_at rrs (fqdn ls))"
      using bitmap_of_name [OF assms p] ent_has_no_types [OF assms ls(2)] c(6) by auto
    have parts: "rr_Name x = fqdn ls" "rr_Data x = RR_NSEC (sorted ! (Suc i mod length sorted))
        (sort_Slice (<) (appendUnique (appendUnique (sort (types_at rrs (fqdn ls))) TypeNSEC) TypeRRSIG))"
      unfolding i(2) nsec_rr_def Let_def ls(1) b by simp_all
    have "sorted_wrt (<) (sort_Slice (<) (appendUnique (appendUnique (sort (types_at rrs (fqdn ls))) TypeNSEC) TypeRRSIG))"
      by (intro sorted_bitmap distinct_appendUnique types_at_distinct)
    then show ?thesis unfolding parts by (auto intro!: exI)
  qed
  ultimately show ?thesis using c(1) by blast
qed

text \<open>A library with the documented behaviour.\<close>

definition example_names :: dns_names where
  "example_names =
     \<lparr>dn_Fqdn = (\<lambda>n. if HasSuffix n ''.'' then n else n @ ''.''), dn_IsSubDomain = (\<lambda>a b. suffix (labels_of a) (labels_of b)),
      dn_SplitDomainName = labels_of, dn_CanonicalName = (\<lambda>n. ToLower (if HasSuffix n ''.'' then n else n @ ''.'')),
      dn_CountLabel = (\<lambda>n. length (labels_of n)), dn_HashName = (\<lambda>n _ _ _. n)\<rparr>"

lemma ToLower_fqdn: "plain_labels ls \<Longrightarrow> ToLower (fqdn ls) = fqdn ls"
proof -
  have "list_all (\<lambda>l. ToLower l = l) ls \<Longrightarrow> ToLower (fqdn ls) = fqdn ls" by (induction ls) (auto simp: fqdn_def)
  then show "plain_labels ls \<Longrightarrow> ?thesis" by (simp add: plain_labels_def list_all_iff)
qed

lemma last_join: "ls \<noteq> [] \<Longrightarrow> last ls \<noteq> [] \<Longrightarrow> join_with sep ls \<noteq> [] \<and> last (join_with sep ls) = last (last ls)"
proof (induction ls rule: induct_list012)
  case (3 a b ls)
  then show ?case by (auto split: if_splits)
qed auto

lemma example_names_ok: "names_ok example_names"
proof -
  have "HasSuffix (fqdn ls) ''.''" "\<not> HasSuffix (join_with ''.'' ls) ''.''" if p: "plain_labels ls" for ls
  proof -
    have n: "ls \<noteq> []" "\<forall>l \<in> set ls. l \<noteq> [] \<and> CHR ''.'' \<notin> set l" using p by (auto simp: plain_labels_def list_all_iff)
    then show "HasSuffix (fqdn ls) ''.''" by (simp add: fqdn_join)
    show "\<not> HasSuffix (join_with ''.'' ls) ''.''"
      using last_join [OF n(1), of "''.''"] n last_in_set [OF n(1)] by (metis HasSuffix_single last_in_set)
  qed
  then show ?thesis
    by (auto simp: names_ok_def example_names_def labels_of_fqdn ToLower_fqdn) (simp_all add: fqdn_join plain_labels_def)
qed

subsection \<open>The NSEC3 chain\<close>

definition nsec3_denies :: "string \<Rightarrow> RR \<Rightarrow> string \<Rightarrow> bool" where
  "nsec3_denies zoneApex x hash = (case rr_Data x of
      RR_NSEC3 d \<Rightarrow> denies (TrimSuffix (rr_Name x) (''.'' @ zoneApex)) (n3_NextDomain d) hash | _ \<Rightarrow> False)"

definition nsec3_bitmap :: "RR \<Rightarrow> uint16 list" where
  "nsec3_bitmap x = (case rr_Data x of RR_NSEC3 d \<Rightarrow> n3_TypeBitMap d | _ \<Rightarrow> [])"

lemma hash_names_ok:
  "distinct (map fst m @ map h ns) \<Longrightarrow> hash_names h ns m = Inr (m @ map (\<lambda>n. (h n, n)) ns)"
proof (induction ns arbitrary: m)
  case (Cons n ns)
  then have "map_of m (h n) = None" by (auto simp: map_of_eq_None_iff)
  then show ?case using Cons by simp
qed simp

lemma hash_names_collision:
  "\<not> distinct (map fst m @ map h ns) \<Longrightarrow> distinct (map fst m) \<Longrightarrow> \<exists>a b. hash_names h ns m = Inl (HashCollision a b (h a))"
proof (induction ns arbitrary: m)
  case (Cons n ns)
  show ?case
  proof (cases "map_of m (h n)")
    case None
    then have "h n \<notin> fst ` set m" by (simp add: map_of_eq_None_iff)
    then show ?thesis using Cons None by auto
  qed simp
qed simp

lemma bitmap_at_update: "bitmap_at (AList.update k v m) n = (if n = k then v else bitmap_at m n)"
  by (simp add: bitmap_at_def update_conv')

lemma bitmap_at_nsec3param:
  "bitmap_at (with_nsec3param zoneApex m) n =
     (if n = zoneApex then appendUnique (bitmap_at m zoneApex) TypeNSEC3PARAM else bitmap_at m n)"
  by (auto simp: with_nsec3param_def bitmap_at_update appendUnique_def split: option.splits) (simp_all add: bitmap_at_def)

text \<open>The hash of a name under the parameters of the zone.\<close>

definition name_hash :: "dns_names \<Rightarrow> NSEC3Params \<Rightarrow> string list \<Rightarrow> string" where
  "name_hash L params ls = dn_HashName L (fqdn ls) (np3_HashAlg params) (np3_Iterations params) (np3_Salt params)"

definition nsec3_types :: "string list \<Rightarrow> RR list \<Rightarrow> string list \<Rightarrow> uint16 list" where
  "nsec3_types zs rrs ls =
     (if ls = zs then appendUnique (sort (types_at rrs (fqdn ls))) TypeNSEC3PARAM else sort (types_at rrs (fqdn ls)))"

lemma existing_zone: "signable zs rrs \<Longrightarrow> name_exists zs rrs zs"
  by (auto simp: signable_def name_exists_def list_ex_iff) (metis labels_of_fqdn suffix_order.refl)

lemma apex_owned: "signable zs rrs \<Longrightarrow> zs \<in> set (owner_labels zs rrs)"
  by (auto simp: signable_def owner_labels_def list_ex_iff) (metis (mono_tags, lifting) image_eqI labels_of_fqdn mem_Collect_eq suffix_order.refl)

lemma nsec3_bitmap_of:
  assumes "names_ok L" "signable zs rrs" "name_exists zs rrs ls"
    and ents: "set ents = fqdn ` {ls. name_exists zs rrs ls} - fqdn ` set (owner_labels zs rrs)"
  shows "(if fqdn ls \<in> set ents then [] else bitmap_at (with_nsec3param (fqdn zs) (typeBitmapByName L (fqdn zs) rrs)) (fqdn ls))
    = nsec3_types zs rrs ls"
proof -
  have p: "plain_labels ls" "plain_labels zs" "suffix zs ls"
    using name_exists_plain [OF assms(2)] existing_zone [OF assms(2)] assms(3) by (auto simp: name_exists_def)
  have e: "fqdn ls = fqdn zs \<longleftrightarrow> ls = zs" using fqdn_inject [OF assms(1) p(1,2)] .
  show ?thesis
  proof (cases "fqdn ls \<in> set ents")
    case True
    then have "fqdn ls \<notin> fqdn ` set (owner_labels zs rrs)" using ents by blast
    moreover have "ls \<noteq> zs" using apex_owned [OF assms(2)] calculation by blast
    ultimately show ?thesis using True ent_has_no_types [OF assms(1-3)] by (simp add: nsec3_types_def)
  next
    case False
    then show ?thesis using bitmap_of_name [OF assms(1,2) p(1,3)] e by (cases "ls = zs") (simp_all add: bitmap_at_nsec3param nsec3_types_def)
  qed
qed

lemma inj_names:
  assumes "names_ok L" "signable zs rrs" "set names = fqdn ` {ls. name_exists zs rrs ls}" "distinct names"
    and h: "h = (\<lambda>n. dn_HashName L n (np3_HashAlg params) (np3_Iterations params) (np3_Salt params))"
  shows "distinct (map h names) \<longleftrightarrow> inj_on (name_hash L params) {ls. name_exists zs rrs ls}"
proof -
  have "inj_on fqdn {ls. name_exists zs rrs ls}"
    using name_exists_plain [OF assms(2)] labels_of_fqdn by (intro inj_on_inverseI [of _ labels_of]) auto
  then have "inj_on h (fqdn ` {ls. name_exists zs rrs ls}) \<longleftrightarrow> inj_on (h \<circ> fqdn) {ls. name_exists zs rrs ls}"
    by (rule comp_inj_on_iff)
  moreover have "h \<circ> fqdn = name_hash L params" by (auto simp: h name_hash_def)
  ultimately show ?thesis using assms(3,4) by (simp add: distinct_map)
qed

lemma nsec3_chain_of:
  assumes "names_ok L" "signable zs rrs" "inj_on (name_hash L params) {ls. name_exists zs rrs ls}"
  obtains ents hashes hashToName where
    "GenerateNSEC3Chain L (fqdn zs) rrs params = Inr (nsec3param_rr params (fqdn zs)
       # map (nsec3_rr params (fqdn zs) (with_nsec3param (fqdn zs) (typeBitmapByName L (fqdn zs) rrs)) ents hashToName hashes) [0..<length hashes])"
    "set hashes = name_hash L params ` {ls. name_exists zs rrs ls}" "sorted_wrt (<) hashes"
    "\<forall>ls. name_exists zs rrs ls \<longrightarrow> map_of hashToName (name_hash L params ls) = Some (fqdn ls)"
    "set ents = fqdn ` {ls. name_exists zs rrs ls} - fqdn ` set (owner_labels zs rrs)"
proof -
  obtain names ents where c: "collectAuthoritativeNames L (fqdn zs) rrs = Some (names, ents)" "distinct names"
      "set names = fqdn ` {ls. name_exists zs rrs ls}" "set ents = set names - fqdn ` set (owner_labels zs rrs)"
    using collected_names [OF assms(1,2)] .
  define h where "h = (\<lambda>n. dn_HashName L n (np3_HashAlg params) (np3_Iterations params) (np3_Salt params))"
  have d: "distinct (map h names)" using inj_names [OF assms(1,2) c(3,2) h_def] assms(3) by blast
  have z: "plain_labels zs" using assms(2) by (simp add: signable_def)
  have nh: "name_hash L params ls = h (fqdn ls)" for ls by (simp add: name_hash_def h_def)
  let ?m = "map (\<lambda>n. (h n, n)) names" and ?hs = "sort (map h names)"
  have hn: "hash_names h names [] = Inr ?m" using hash_names_ok [of "[]" h names] d by simp
  have fst_m: "map fst ?m = map h names" by (simp add: comp_def)
  show thesis
  proof (rule that [of ents ?m ?hs])
    show "GenerateNSEC3Chain L (fqdn zs) rrs params = Inr (nsec3param_rr params (fqdn zs)
       # map (nsec3_rr params (fqdn zs) (with_nsec3param (fqdn zs) (typeBitmapByName L (fqdn zs) rrs)) ents ?m ?hs) [0..<length ?hs])"
      unfolding GenerateNSEC3Chain_def Let_def names_okD(2) [OF assms(1) z] c(1) h_def [symmetric]
      by (simp add: hn fst_m del: map_map)
    show "set ?hs = name_hash L params ` {ls. name_exists zs rrs ls}" using c(3) nh by auto
    show "sorted_wrt (<) ?hs" using d by (simp add: strict_sorted_iff)
    show "\<forall>ls. name_exists zs rrs ls \<longrightarrow> map_of ?m (name_hash L params ls) = Some (fqdn ls)"
    proof (intro allI impI)
      fix ls assume "name_exists zs rrs ls"
      then have "fqdn ls \<in> set names" using c(3) by blast
      then have "(h (fqdn ls), fqdn ls) \<in> set ?m" by auto
      then show "map_of ?m (name_hash L params ls) = Some (fqdn ls)" unfolding nh using d fst_m by (intro map_of_is_SomeI) (simp_all only:)
    qed
    show "set ents = fqdn ` {ls. name_exists zs rrs ls} - fqdn ` set (owner_labels zs rrs)" using c(3,4) by simp
  qed
qed

text \<open>
  The NSEC3 chain of a signed zone. When two existing names share a hash the chain is refused. Otherwise it is the
  NSEC3PARAM record and one NSEC3 record for every existing name, with the types of that name; the hash of an existing
  name is denied by no record, and a name whose hash differs from theirs is denied by exactly one.
\<close>

lemma nsec3_chain_denies:
  assumes "names_ok L" "signable zs rrs"
  shows "if inj_on (name_hash L params) {ls. name_exists zs rrs ls}
    then \<exists>chain. GenerateNSEC3Chain L (fqdn zs) rrs params = Inr (nsec3param_rr params (fqdn zs) # chain)
      \<and> (\<forall>ls. name_exists zs rrs ls \<longrightarrow> (\<exists>!x. x \<in> set chain \<and> rr_Name x = name_hash L params ls @ ''.'' @ fqdn zs)
          \<and> (\<forall>x \<in> set chain. \<not> nsec3_denies (fqdn zs) x (name_hash L params ls)
               \<and> (rr_Name x = name_hash L params ls @ ''.'' @ fqdn zs \<longrightarrow> nsec3_bitmap x = nsec3_types zs rrs ls)))
      \<and> (\<forall>q. q \<notin> name_hash L params ` {ls. name_exists zs rrs ls} \<longrightarrow>
          (\<exists>!i. i < length chain \<and> nsec3_denies (fqdn zs) (chain ! i) q))
    else \<exists>a b q. GenerateNSEC3Chain L (fqdn zs) rrs params = Inl (HashCollision a b q)"
proof (cases "inj_on (name_hash L params) {ls. name_exists zs rrs ls}")
  case True
  obtain ents hs m where c:
    "GenerateNSEC3Chain L (fqdn zs) rrs params = Inr (nsec3param_rr params (fqdn zs)
       # map (nsec3_rr params (fqdn zs) (with_nsec3param (fqdn zs) (typeBitmapByName L (fqdn zs) rrs)) ents m hs) [0..<length hs])"
    "set hs = name_hash L params ` {ls. name_exists zs rrs ls}" "sorted_wrt (<) hs"
    "\<forall>ls. name_exists zs rrs ls \<longrightarrow> map_of m (name_hash L params ls) = Some (fqdn ls)"
    "set ents = fqdn ` {ls. name_exists zs rrs ls} - fqdn ` set (owner_labels zs rrs)"
    using nsec3_chain_of [OF assms True] .
  let ?rec = "nsec3_rr params (fqdn zs) (with_nsec3param (fqdn zs) (typeBitmapByName L (fqdn zs) rrs)) ents m hs"
  let ?chain = "map ?rec [0..<length hs]"
  have nm: "rr_Name (?rec i) = hs ! i @ ''.'' @ fqdn zs" for i by (simp add: nsec3_rr_def Let_def)
  have ne: "hs \<noteq> []" using c(2) existing_zone [OF assms(2)] by auto
  have den: "nsec3_denies (fqdn zs) (?rec i) q \<longleftrightarrow> denies (hs ! i) (hs ! (Suc i mod length hs)) q" for i q
    using TrimSuffix_append [of "hs ! i" "''.'' @ fqdn zs"] by (simp add: nsec3_denies_def nsec3_rr_def Let_def)
  have "(\<exists>!x. x \<in> set ?chain \<and> rr_Name x = name_hash L params ls @ ''.'' @ fqdn zs)
      \<and> (\<forall>x \<in> set ?chain. \<not> nsec3_denies (fqdn zs) x (name_hash L params ls)
           \<and> (rr_Name x = name_hash L params ls @ ''.'' @ fqdn zs \<longrightarrow> nsec3_bitmap x = nsec3_types zs rrs ls))"
    if ls: "name_exists zs rrs ls" for ls
  proof -
    obtain j where j: "j < length hs" "hs ! j = name_hash L params ls" using c(2) ls by (metis imageI in_set_conv_nth mem_Collect_eq)
    have uniq: "x = ?rec j" if x: "x \<in> set ?chain" "rr_Name x = name_hash L params ls @ ''.'' @ fqdn zs" for x
    proof -
      obtain i where i: "i < length hs" "x = ?rec i" using x(1) by auto
      then have "hs ! i = hs ! j" using x(2) nm j(2) by simp
      then show ?thesis using c(3) i j(1) by (simp add: strict_sorted_iff nth_eq_iff_index_eq)
    qed
    have bm: "nsec3_bitmap (?rec j) = nsec3_types zs rrs ls"
      unfolding nsec3_bitmap_of [OF assms ls c(5), symmetric] using c(4) ls j(2)
      by (simp add: nsec3_bitmap_def nsec3_rr_def Let_def)
    have "?rec j \<in> set ?chain" using j(1) by simp
    moreover have "rr_Name (?rec j) = name_hash L params ls @ ''.'' @ fqdn zs" unfolding nm j(2) ..
    moreover have "\<not> nsec3_denies (fqdn zs) x (name_hash L params ls)" if x: "x \<in> set ?chain" for x
    proof -
      obtain i where i: "i < length hs" "x = ?rec i" using x by auto
      then show ?thesis using present_not_denied [OF c(3) _ i(1), of "name_hash L params ls"] c(2) ls den by auto
    qed
    ultimately show ?thesis using uniq bm by (metis (no_types, lifting))
  qed
  moreover have "\<exists>!i. i < length ?chain \<and> nsec3_denies (fqdn zs) (?chain ! i) q"
    if "q \<notin> name_hash L params ` {ls. name_exists zs rrs ls}" for q
  proof -
    have "\<exists>!i. i < length hs \<and> denies (hs ! i) (hs ! (Suc i mod length hs)) q"
      using absent_denied_once [OF c(3) ne] that c(2) by simp
    then show ?thesis using den by (simp cong: conj_cong)
  qed
  ultimately show ?thesis using True c(1) by (simp only: if_True) blast
next
  case False
  obtain names ents where c: "collectAuthoritativeNames L (fqdn zs) rrs = Some (names, ents)" "distinct names"
      "set names = fqdn ` {ls. name_exists zs rrs ls}"
    using collected_names [OF assms] by metis
  define h where "h = (\<lambda>n. dn_HashName L n (np3_HashAlg params) (np3_Iterations params) (np3_Salt params))"
  have z: "plain_labels zs" using assms(2) by (simp add: signable_def)
  have "\<not> distinct (map h names)" using inj_names [OF assms c(3,2) h_def] False by blast
  then obtain a b where "hash_names h names [] = Inl (HashCollision a b (h a))" using hash_names_collision [of "[]" h names] by auto
  then have "GenerateNSEC3Chain L (fqdn zs) rrs params = Inl (HashCollision a b (h a))"
    unfolding GenerateNSEC3Chain_def Let_def names_okD(2) [OF assms(1) z] c(1) h_def [symmetric] by simp
  then show ?thesis using False by auto
qed


text \<open>
  The type bitmap of the NSEC3 record of the apex is not in ascending order when the apex has a record of a type
  above NSEC3PARAM, such as CAA: NSEC3PARAM is appended to the sorted types and the list is not sorted again, as the
  NSEC chain does it.
\<close>

lemma nsec3_apex_out_of_order:
  assumes "names_ok L" "signable zs rrs" "inj_on (name_hash L params) {ls. name_exists zs rrs ls}"
    and "t \<in> set (types_at rrs (fqdn zs))" "TypeNSEC3PARAM < t" "TypeNSEC3PARAM \<notin> set (types_at rrs (fqdn zs))"
  shows "\<exists>chain. GenerateNSEC3Chain L (fqdn zs) rrs params = Inr chain
    \<and> (\<exists>x \<in> set chain. rr_Name x = name_hash L params zs @ ''.'' @ fqdn zs \<and> t \<in> set (nsec3_bitmap x)
        \<and> \<not> sorted_wrt (<) (nsec3_bitmap x))"
proof -
  obtain ents hs m where c:
    "GenerateNSEC3Chain L (fqdn zs) rrs params = Inr (nsec3param_rr params (fqdn zs)
       # map (nsec3_rr params (fqdn zs) (with_nsec3param (fqdn zs) (typeBitmapByName L (fqdn zs) rrs)) ents m hs) [0..<length hs])"
    "set hs = name_hash L params ` {ls. name_exists zs rrs ls}" "sorted_wrt (<) hs"
    "\<forall>ls. name_exists zs rrs ls \<longrightarrow> map_of m (name_hash L params ls) = Some (fqdn ls)"
    "set ents = fqdn ` {ls. name_exists zs rrs ls} - fqdn ` set (owner_labels zs rrs)"
    using nsec3_chain_of [OF assms(1-3)] .
  note z = existing_zone [OF assms(2)]
  let ?rec = "nsec3_rr params (fqdn zs) (with_nsec3param (fqdn zs) (typeBitmapByName L (fqdn zs) rrs)) ents m hs"
  obtain j where j: "j < length hs" "hs ! j = name_hash L params zs" using c(2) z by (metis imageI in_set_conv_nth mem_Collect_eq)
  have "nsec3_bitmap (?rec j) = sort (types_at rrs (fqdn zs)) @ [TypeNSEC3PARAM]"
    using nsec3_bitmap_of [OF assms(1,2) z c(5)] c(4) z j(2) assms(6)
    by (simp add: nsec3_bitmap_def nsec3_rr_def Let_def nsec3_types_def appendUnique_def split: if_splits)
  moreover have "\<not> sorted_wrt (<) (sort (types_at rrs (fqdn zs)) @ [TypeNSEC3PARAM])"
    unfolding sorted_wrt_append using assms(4,5) less_asym by (auto intro!: bexI [of _ t])
  moreover have "rr_Name (?rec j) = name_hash L params zs @ ''.'' @ fqdn zs" using j(2) by (simp add: nsec3_rr_def Let_def)
  ultimately show ?thesis unfolding c(1) using assms(4) j(1) by (auto intro!: bexI [of _ "?rec j"])
qed

end
