(* ===== verification/Zone_Text.thy ===== *)
theory Zone_Text
  imports Resource_Records Zone_Facts Net_IP_Facts
begin

section \<open>Zone files written by the controller read back\<close>

text \<open>
  A valid zone can always be written, and its records read back as their canonical forms: absolute lower-case
  names, addresses and numbers in their shortest spelling. The conversion of \<open>CAA\<close> records goes through a
  quoted string, so the statement is about values that are already in that form (\<open>plain_caa\<close>).
\<close>

subsection \<open>Canonical records\<close>

definition caa_text :: "CAARData \<Rightarrow> string" where
  "caa_text d = dec_string (unat (caa_Flags d)) @ '' '' @ caa_Tag d @ '' '' @ quoted (caa_Value d)"

definition plain_caa :: "Record \<Rightarrow> bool" where
  "plain_caa r \<longleftrightarrow> r_Type r = RecordTypeCAA \<longrightarrow>
     (case ParseCAAValue (r_Value r) of Inl _ \<Rightarrow> False | Inr d \<Rightarrow> r_Value r = caa_text d)"

definition canonical_record :: "string \<Rightarrow> Record \<Rightarrow> Record" where
  "canonical_record zn r =
     imported (canonicalRecordOwnerName (r_Name r) zn) (r_Type r) (r_TTL r) (canonicalRecordValue (r_Type r) (r_Value r) zn)"

definition canonical_soa :: "string \<Rightarrow> SOARecord \<Rightarrow> SOARecord" where
  "canonical_soa zn soa = soa\<lparr>soa_MName := NormalizeDomainTargetName (soa_MName soa) zn,
                             soa_RName := NormalizeDomainTargetName (soa_RName soa) zn\<rparr>"

subsection \<open>Names\<close>

lemma canonicalizeDomain_absolute [simp]: "absolute n \<Longrightarrow> canonicalizeDomain n = n"
  by (simp add: canonicalizeDomain_def absolute_def)

lemma no_star: "domain_ok n \<Longrightarrow> \<not> HasPrefix n ''*.''"
  using domain_ok_chars [of n "CHR ''*''"] by (auto simp: HasPrefix_iff alnum_hyphen_def char_class_defs)

lemma NormalizeDomainName_ok: "domain_ok n \<or> n = ''.'' \<Longrightarrow> n \<noteq> ''@'' \<Longrightarrow> NormalizeDomainName n = NormalizeZoneName n"
  using no_star [of n] by (auto simp: NormalizeDomainName_def HasPrefix_def)

lemma target_absolute:
  assumes "ValidateDomainTarget t = None" "ValidateDomainTarget (NormalizeDomainTargetName t zn) = None"
  shows "absolute (NormalizeDomainTargetName t zn)"
proof -
  have t: "t \<noteq> []" "t \<noteq> ''@''" using assms(1) by (auto simp: ValidateDomainTarget_def ValidateDomainName_def)
  have "\<exists>m. m \<noteq> [] \<and> NormalizeDomainTargetName t zn = NormalizeDomainName m"
    using t by (auto simp: NormalizeDomainTargetName_def Let_def)
  then obtain m where m: "m \<noteq> []" "NormalizeDomainTargetName t zn = NormalizeDomainName m" by blast
  have ok: "domain_ok (NormalizeDomainName m) \<or> NormalizeDomainName m = ''.''" "NormalizeDomainName m \<noteq> ''@''"
    using assms(2) m(2) ValidateDomainTarget_iff [of "NormalizeDomainName m"] by (auto simp: ValidateDomainTarget_def)
  have "\<not> HasPrefix m ''*.''"
  proof
    assume p: "HasPrefix m ''*.''"
    then have "m \<noteq> ''@''" by (auto simp: HasPrefix_iff)
    then have "HasPrefix (NormalizeDomainName m) ''*.''" "NormalizeDomainName m \<noteq> ''.''"
      using p m(1) by (auto simp: NormalizeDomainName_def HasPrefix_def)
    then show False using ok(1) no_star by blast
  qed
  then have "NormalizeDomainName m = NormalizeZoneName m" using ok m(1) by (auto simp: NormalizeDomainName_def)
  then show ?thesis using m NormalizeZoneName_absolute by simp
qed

lemma ValidateDomainTargetInZone_absolute:
  "ValidateDomainTargetInZone t zn = None \<Longrightarrow> absolute (NormalizeDomainTargetName t zn)"
  by (simp add: ValidateDomainTargetInZone_def Let_def target_absolute)

lemma origin_normal:
  "NormalizeRecordOwnerName n (NormalizeZoneName zn) = NormalizeRecordOwnerName n zn"
  "NormalizeDomainTargetName n (NormalizeZoneName zn) = NormalizeDomainTargetName n zn"
  by (simp_all add: NormalizeRecordOwnerName_def NormalizeDomainTargetName_def NormalizeZoneName_idem)

subsection \<open>Addresses\<close>

lemma To4_parts: "To4 a = Some q \<Longrightarrow> a = v4_prefix @ q \<and> length q = 4"
  by (auto simp: To4_def split: if_splits) (metis append_take_drop_id)

lemma IP_String_v4: "To4 a = Some q \<Longrightarrow> IP_String q = ip_string a"
  using To4_parts [of a q] by (auto simp: IP_String_def)

lemma IP_String_16: "length a = 16 \<Longrightarrow> IP_String a = ip_string a"
  by (auto simp: IP_String_def)

lemma ip_To4_v4: "To4 a = Some q \<Longrightarrow> ip_To4 a = q"
  by (auto simp: ip_To4_def To4_def split: if_splits)

subsection \<open>One record\<close>

text \<open>What it takes for a record to be converted and read back.\<close>

definition reads_back :: "string \<Rightarrow> Record \<Rightarrow> RR \<Rightarrow> bool" where
  "reads_back zn r x \<longleftrightarrow> rr_Ttl x = r_TTL r \<and> rr_Name x = canonicalRecordOwnerName (r_Name r) zn
     \<and> (\<forall>d. record_of_rr True d x = Inr (Inr (canonical_record zn r)))"

lemma valid_record_type:
  assumes "ValidateRecord r = None"
  shows "r_Type r \<in> {RecordTypeA, RecordTypeAAAA, RecordTypeCNAME, RecordTypeMX, RecordTypeNS, RecordTypeTXT,
      RecordTypePTR, RecordTypeSRV, RecordTypeCAA}"
  using assms by (auto simp: ValidateRecord_def IsValidRecordType_def SupportedRecordTypes_def)

lemma valid_record_parts:
  assumes "ValidateRecord r = None"
  shows "r_TTL r \<noteq> 0" "ValidateRecordValue (r_Type r) (r_Value r) = None" "r_Name r \<noteq> []"
  using assms by (auto simp: ValidateRecord_def ValidateRecordName_def)

lemmas rr_conversion_defs = convertRecordToRR_def record_of_rr_def canonical_record_def canonicalRecordValue_def Let_def

lemma record_reads_back:
  assumes v: "ValidateRecord r = None" "ValidateRecordValueInZone (r_Type r) (r_Value r) zn = None"
    and zn: "zn \<noteq> []" and caa: "plain_caa r"
  shows "\<exists>x. convertRecordToRR (NormalizeZoneName zn) r = Inr x \<and> reads_back zn r x"
proof -
  have owner: "canonicalizeDomain (NormalizeRecordOwnerName (r_Name r) zn) = NormalizeRecordOwnerName (r_Name r) zn"
    using NormalizeRecordOwnerName_absolute [OF valid_record_parts(3) [OF v(1)] zn] by simp
  note ttl = valid_record_parts(1) [OF v(1)] and val = valid_record_parts(2) [OF v(1)]
  note simps = rr_conversion_defs owner origin_normal ttl reads_back_def canonicalRecordOwnerName_def
  from valid_record_type [OF v(1)] consider
      (a) "r_Type r = RecordTypeA" | (aaaa) "r_Type r = RecordTypeAAAA"
    | (name) "r_Type r \<in> {RecordTypeCNAME, RecordTypeNS, RecordTypePTR}" | (mx) "r_Type r = RecordTypeMX"
    | (is_txt) "r_Type r = RecordTypeTXT" | (srv) "r_Type r = RecordTypeSRV" | (is_caa) "r_Type r = RecordTypeCAA"
    by blast
  then show ?thesis
  proof cases
    case a
    then obtain ip q where "ParseIP (r_Value r) = Some ip" "To4 ip = Some q"
      using val by (auto simp: ValidateRecordValue_def ValidateIPv4_def RecordType_defs split: option.splits if_splits)
    then show ?thesis using a by (simp add: simps ip_of_def ip_To4_v4 IP_String_v4 RecordType_defs)
  next
    case aaaa
    then obtain ip where "ParseIP (r_Value r) = Some ip"
      using val by (auto simp: ValidateRecordValue_def ValidateIPv6_def RecordType_defs split: option.splits if_splits)
    then show ?thesis using aaaa by (simp add: simps ip_of_def IP_String_16 ParseIP_length RecordType_defs)
  next
    case name
    then have "absolute (NormalizeDomainTargetName (r_Value r) zn)"
      using v(2) by (auto simp: ValidateRecordValueInZone_def intro: ValidateDomainTargetInZone_absolute)
    then show ?thesis using name by (auto simp: simps RecordType_defs)
  next
    case mx
    then obtain d where "ParseMXValue (r_Value r) = Inr d" "absolute (NormalizeDomainTargetName (mx_Target d) zn)"
      using v(2) by (auto simp: ValidateRecordValueInZone_def RecordType_defs split: sum.splits
          intro: ValidateDomainTargetInZone_absolute)
    then show ?thesis using mx by (simp add: simps RecordType_defs)
  next
    case is_txt
    then show ?thesis by (simp add: simps RecordType_defs concat_SplitTXTValue)
  next
    case srv
    then obtain d where "ParseSRVValue (r_Value r) = Inr d" "absolute (NormalizeDomainTargetName (srv_Target d) zn)"
      using v(2) by (auto simp: ValidateRecordValueInZone_def RecordType_defs split: sum.splits
          intro: ValidateDomainTargetInZone_absolute)
    then show ?thesis using srv by (simp add: simps RecordType_defs)
  next
    case is_caa
    then obtain d where "ParseCAAValue (r_Value r) = Inr d" "r_Value r = caa_text d"
      using \<open>plain_caa r\<close> by (auto simp: plain_caa_def split: sum.splits)
    then show ?thesis using is_caa by (simp add: simps RecordType_defs caa_text_def)
  qed
qed

subsection \<open>Characters of owner names\<close>

definition owner_char :: "char \<Rightarrow> bool" where
  "owner_char c \<longleftrightarrow> word_char c \<or> c \<in> {CHR ''-'', CHR ''.'', CHR ''*''}"

lemma recordLabelRegex_chars: "matches recordLabelRegex l \<Longrightarrow> c \<in> set l \<Longrightarrow> owner_char c"
  by (auto simp: matches_iff recordLabelRegex_def lang_RSeq_class star_of_class list_all_iff owner_char_def
      simp del: lang.simps(4))

lemma validate_record_label_chars: "validate_record_label i l = None \<Longrightarrow> c \<in> set l \<Longrightarrow> owner_char c"
  using recordLabelRegex_chars [of l c]
  by (auto simp: validate_record_label_def owner_char_def split: if_splits)

lemma ValidateRecordName_chars:
  assumes "ValidateRecordName n = None" "n \<noteq> ''@''" "c \<in> set n"
  shows "owner_char c"
proof -
  let ?t = "TrimSuffix n ''.''"
  have c: "c = CHR ''.'' \<or> c \<in> set ?t" using assms(3) by (auto simp: TrimSuffix_def HasSuffix_def split: if_splits)
      (metis Un_iff append_take_drop_id empty_iff empty_set insert_iff list.simps(15) set_append)
  have "check_range validate_record_label 0 (split_on CHR ''.'' ?t) = None"
    using assms(1,2) by (auto simp: ValidateRecordName_def Let_def split: if_splits)
  then have l: "\<forall>l \<in> set (split_on CHR ''.'' ?t). \<exists>i. validate_record_label i l = None"
    by (metis check_range_None in_set_conv_nth)
  show ?thesis
  proof (cases "c = CHR ''.''")
    case False
    then obtain l where "l \<in> set (split_on CHR ''.'' ?t)" "c \<in> set l"
      using c set_split_on [of "CHR ''.''" ?t] by blast
    then show ?thesis using l validate_record_label_chars by blast
  qed (simp add: owner_char_def)
qed

lemma domain_ok_owner_chars: "domain_ok n \<Longrightarrow> c \<in> set n \<Longrightarrow> owner_char c"
  using domain_ok_chars [of n c] by (auto simp: owner_char_def alnum_hyphen_def word_char_def)

lemma owner_char_lower: "owner_char c \<Longrightarrow> owner_char (lower_char c)"
proof (cases "is_upper c")
  case True
  then have "is_lower (lower_char c)" by (simp add: is_lower_def byte_lower_char) (simp add: is_upper_def)
  then show ?thesis by (simp add: owner_char_def word_char_def is_alnum_def)
qed (simp add: lower_char_def)

lemma NormalizeZoneName_chars: "domain_ok n \<Longrightarrow> c \<in> set (NormalizeZoneName n) \<Longrightarrow> owner_char c"
proof -
  assume n: "domain_ok n" and "c \<in> set (NormalizeZoneName n)"
  then have "c = CHR ''.'' \<or> (\<exists>d \<in> set n. c = lower_char d)"
    by (auto simp: NormalizeZoneName_def ToLower_def Let_def split: if_splits)
  then show ?thesis
  proof
    assume "\<exists>d \<in> set n. c = lower_char d"
    then obtain d where "d \<in> set n" "c = lower_char d" by blast
    then show ?thesis using owner_char_lower [OF domain_ok_owner_chars [OF n]] by simp
  qed (simp add: owner_char_def)
qed

lemma owner_name_chars:
  assumes "ValidateRecordNameInZone n zn = None" "domain_ok zn" "c \<in> set (canonicalRecordOwnerName n zn)"
  shows "owner_char c"
proof (cases "n = ''@''")
  case True
  then show ?thesis using assms(2,3) NormalizeZoneName_chars
    by (simp add: canonicalRecordOwnerName_def NormalizeRecordOwnerName_def Let_def)
next
  case False
  then have v: "ValidateRecordName (canonicalRecordOwnerName n zn) = None"
    using assms(1) by (simp add: ValidateRecordNameInZone_def canonicalRecordOwnerName_def Let_def)
  have "n \<noteq> []" "zn \<noteq> []" using assms(1,2) by (auto simp: ValidateRecordNameInZone_def ValidateRecordName_def domain_ok_def)
  then have "absolute (canonicalRecordOwnerName n zn)"
    by (simp add: canonicalRecordOwnerName_def NormalizeRecordOwnerName_absolute)
  then have "canonicalRecordOwnerName n zn \<noteq> ''@''" by (auto simp: absolute_def HasSuffix_def)
  then show ?thesis using ValidateRecordName_chars [OF v _ assms(3)] by blast
qed

subsection \<open>All records of a zone\<close>

definition zone_rrs :: "Zone \<Rightarrow> parser_error + RR list" where
  "zone_rrs z = (let origin = NormalizeZoneName (z_Name z) in
     bindE (convert_all (convertRecordToRR origin) (z_Records z)) (\<lambda>rrs. Inr (soa_rr origin (z_SOA z) # rrs)))"

definition canonical_zone :: "Zone \<Rightarrow> Zone" where
  "canonical_zone z =
     \<lparr>z_Name = NormalizeZoneName (z_Name z), z_Version = [], z_SOA = canonical_soa (z_Name z) (z_SOA z),
      z_Records = sortRecords (map (canonical_record (z_Name z)) (z_Records z)), z_DNSSEC = None,
      z_CreatedAt = 0, z_UpdatedAt = 0\<rparr>"

lemma convert_all_reads_back:
  assumes "\<And>r. r \<in> set rs \<Longrightarrow> \<exists>x. f r = Inr x \<and> P r x"
  shows "\<exists>xs. convert_all f rs = Inr xs \<and> list_all2 P rs xs"
  using assms
proof (induction rs)
  case (Cons r rs)
  then obtain x where x: "f r = Inr x" "P r x" by (meson list.set_intros(1))
  obtain xs where "convert_all f rs = Inr xs" "list_all2 P rs xs" using Cons by (meson list.set_intros(2))
  then show ?case using x by auto
qed simp

lemma collect_records_map:
  assumes "map (record_of_rr c d) xs = map (Inr \<circ> Inr) rs"
  shows "collect_records c d xs soa acc = Inr (soa, acc @ rs)"
  using assms
proof (induction xs arbitrary: rs acc)
  case (Cons x xs)
  then show ?case by (cases rs) auto
qed simp

lemma dedup_loop_distinct:
  "distinct (map dedup_key rs) \<Longrightarrow> dedup_key ` set rs \<inter> set seen = {} \<Longrightarrow> dedup_loop seen acc n rs = (acc @ rs, n)"
  by (induction rs arbitrary: seen acc) auto

lemma no_bar: "owner_char c \<Longrightarrow> c \<noteq> CHR ''|''" "c \<in> set (dec_string k) \<Longrightarrow> c \<noteq> CHR ''|''"
  using dec_string_digits [of k] by (auto simp: owner_char_def word_char_def char_class_defs list_all_iff)

lemma dedup_keys:
  assumes "dedup_key q = dedup_key r" "\<forall>c \<in> set (r_Name q) \<union> set (r_Name r). owner_char c"
    "CHR ''|'' \<notin> set (r_Type q) \<union> set (r_Type r)"
  shows "r_Name q = r_Name r" "r_Type q = r_Type r" "r_TTL q = r_TTL r" "r_Value q = r_Value r"
proof -
  have n: "CHR ''|'' \<notin> set (r_Name q)" "CHR ''|'' \<notin> set (r_Name r)" using assms(2) no_bar(1) by blast+
  have t: "CHR ''|'' \<notin> set (r_Type q)" "CHR ''|'' \<notin> set (r_Type r)" using assms(3) by auto
  have d: "CHR ''|'' \<notin> set (dec_string k)" for k using no_bar(2) by blast
  show "r_Name q = r_Name r" "r_Type q = r_Type r" "r_TTL q = r_TTL r" "r_Value q = r_Value r"
    using assms(1) by (simp_all add: dedup_key_def append_sep_inject n t d word_unat_eq_iff)
qed

subsection \<open>The canonical zone is valid\<close>

lemma canonical_target:
  assumes "ValidateDomainTargetInZone t zn = None"
  shows "ValidateDomainTargetInZone (NormalizeDomainTargetName t zn) z = None"
    "NormalizeDomainTargetName (NormalizeDomainTargetName t zn) z = NormalizeDomainTargetName t zn"
proof -
  let ?t = "NormalizeDomainTargetName t zn"
  have v: "ValidateDomainTarget ?t = None" using assms by (simp add: ValidateDomainTargetInZone_def Let_def)
  have a: "absolute ?t" by (rule ValidateDomainTargetInZone_absolute [OF assms])
  have "?t \<noteq> []" "?t \<noteq> ''@''" "HasSuffix ?t ''.''" using a by (auto simp: absolute_def HasSuffix_def)
  moreover have "NormalizeDomainName ?t = NormalizeZoneName ?t"
    using v \<open>?t \<noteq> ''@''\<close> by (intro NormalizeDomainName_ok) (auto simp: ValidateDomainTarget_iff)
  ultimately show e: "NormalizeDomainTargetName ?t z = ?t" using a by (simp add: NormalizeDomainTargetName_def)
  show "ValidateDomainTargetInZone ?t z = None" using v e by (simp add: ValidateDomainTargetInZone_def)
qed

lemma dns_label_record_label: "dns_label l \<Longrightarrow> validate_record_label i l = None"
proof -
  assume l: "dns_label l"
  then have nb: "\<forall>c \<in> set l. alnum_hyphen c" "l \<noteq> []" "is_alnum (hd l)" "is_alnum (last l)" "length l \<le> 63"
    by (auto simp: dns_label_def list_all_iff)
  have star: "CHR ''*'' \<notin> set l" using nb(1) by (auto simp: alnum_hyphen_def char_class_defs)
  have "\<not> is_alnum CHR ''-''" by (simp add: char_class_defs)
  then have hy: "\<not> HasPrefix l ''-''" "\<not> HasSuffix l ''-''"
    using nb(2-4) by (auto simp: HasSuffix_single HasPrefix_def take_Suc split: list.splits)
  have "matches recordLabelRegex l"
    using nb(1-3) by (cases l) (auto simp: matches_iff recordLabelRegex_def lang_RSeq_class star_of_class list_all_iff word_char_def
        alnum_hyphen_def simp del: lang.simps(4))
  moreover have "\<not> Contains l ''*''" using star by (auto simp: Contains_iff)
  moreover have "l \<noteq> ''*''" using star by auto
  ultimately show ?thesis using hy nb(2,5) by (simp add: validate_record_label_def)
qed

lemma zone_name_is_record_name:
  assumes "domain_ok z"
  shows "ValidateRecordName z = None"
proof -
  let ?ls = "split_on CHR ''.'' (TrimSuffix z ''.'')"
  have z: "z \<noteq> []" "length z \<le> 253" "\<forall>l \<in> set ?ls. dns_label l"
    using assms by (auto simp: domain_ok_def list_all_iff)
  have "c \<noteq> CHR ''@'' \<and> \<not> controlOrSpace c" if "c \<in> set z" for c
    using domain_ok_chars [OF assms that] by (auto simp: controlOrSpace_def alnum_hyphen_def char_class_defs)
  then have ctl: "\<not> list_ex controlOrSpace z" "z \<noteq> ''@''" by (auto simp: list_ex_iff)
  have l: "check_range validate_record_label 0 ?ls = None"
    using z(3) dns_label_record_label by (auto simp: check_range_None)
  have nd: "\<not> Contains z ''..''"
  proof
    assume "Contains z ''..''"
    then obtain a b where ab: "z = a @ ''..'' @ b" by (auto simp: Contains_iff)
    have "[] \<in> set ?ls"
    proof (cases "b = []")
      case True
      then have "TrimSuffix z ''.'' = a @ CHR ''.'' # []" using ab by (simp add: TrimSuffix_def HasSuffix_def)
      then show ?thesis using split_on_snoc [of "CHR ''.''" "[]" a] by simp
    next
      case False
      then obtain c where "TrimSuffix z ''.'' = a @ ''..'' @ c"
        using ab by (cases b; cases "HasSuffix z ''.''") (auto simp: TrimSuffix_def)
      moreover have "[] \<in> set (tl (split_on CHR ''.'' (a @ ''..'' @ c)))"
        by (induction a) (auto split: list.splits dest: list.set_sel(2) [rotated])
      ultimately show ?thesis by (metis list.set_sel(2) split_on_nonempty)
    qed
    then show False using z(3) by (auto simp: dns_label_def)
  qed
  have "TrimSuffix z ''.'' \<noteq> []" using z(3) by (auto simp: dns_label_def)
  then show ?thesis using z ctl nd l domain_ok_not_root assms by (auto simp: ValidateRecordName_def Let_def)
qed

lemma canonical_owner:
  assumes "ValidateRecordNameInZone n zn = None" "domain_ok (NormalizeZoneName zn)" "zn \<noteq> []"
  defines "w \<equiv> canonicalRecordOwnerName n zn"
  shows "absolute w" "ValidateRecordName w = None" "ValidateRecordNameInZone w (NormalizeZoneName zn) = None"
    "canonicalRecordOwnerName w z = w"
proof -
  have n: "n \<noteq> []" using assms(1) by (auto simp: ValidateRecordNameInZone_def ValidateRecordName_def)
  show a: "absolute w" unfolding w_def canonicalRecordOwnerName_def by (rule NormalizeRecordOwnerName_absolute [OF n assms(3)])
  show e: "canonicalRecordOwnerName w z = w" for z
    using a by (simp add: canonicalRecordOwnerName_def NormalizeRecordOwnerName_of_absolute)
  show v: "ValidateRecordName w = None"
  proof (cases "n = ''@''")
    case True
    then show ?thesis using zone_name_is_record_name [OF assms(2)]
      by (simp add: w_def canonicalRecordOwnerName_def NormalizeRecordOwnerName_def Let_def)
  next
    case False
    then show ?thesis using assms(1) by (simp add: w_def ValidateRecordNameInZone_def canonicalRecordOwnerName_def Let_def)
  qed
  show "ValidateRecordNameInZone w (NormalizeZoneName zn) = None"
    using v e [of "NormalizeZoneName zn"] owner_in_zone [OF assms(1)]
    by (simp add: ValidateRecordNameInZone_def canonicalRecordOwnerName_def Let_def in_zone_def w_def NormalizeZoneName_idem)
qed

lemma no_space_domain: "ValidateDomainTarget t = None \<Longrightarrow> no_space t \<and> t \<noteq> []"
proof
  assume "ValidateDomainTarget t = None"
  then have t: "t = ''.'' \<or> domain_ok t" by (simp add: ValidateDomainTarget_iff)
  then show "t \<noteq> []" by (auto simp: domain_ok_def)
  have "byte c < 128 \<and> \<not> ascii_space c" if "c = CHR ''.'' \<or> alnum_hyphen c" for c
    using that by (auto simp: ascii_space_def alnum_hyphen_def char_class_defs)
  then show "no_space t" unfolding no_space_def using t domain_ok_chars [of t] by (metis empty_iff empty_set insert_iff list.simps(15))
qed

lemma parseUint16Field_print: "parseUint16Field (dec_string (unat (p :: uint16))) = Some p"
proof -
  have "unat p < 65536" "uint p < 65536"
    using unsigned_less [of p, where 'a = nat] unsigned_less [of p, where 'a = int] by simp_all
  then show ?thesis by (simp add: parseUint16Field_def)
qed

lemma ParseMXValue_print:
  assumes "no_space t" "t \<noteq> []"
  shows "ParseMXValue (dec_string (unat p) @ '' '' @ t) = Inr \<lparr>mx_Priority = p, mx_Target = t\<rparr>"
proof -
  have "Fields (dec_string (unat p) @ '' '' @ t) = [dec_string (unat p), t]"
    using Fields_join [of "[dec_string (unat p), t]"] assms by (simp add: dec_string_no_space)
  then show ?thesis by (simp add: ParseMXValue_def parseUint16Field_print)
qed

lemma ParseSRVValue_print:
  assumes "no_space t" "t \<noteq> []"
  shows "ParseSRVValue (dec_string (unat p) @ '' '' @ dec_string (unat w) @ '' '' @ dec_string (unat q) @ '' '' @ t) =
    Inr \<lparr>srv_Priority = p, srv_Weight = w, srv_Port = q, srv_Target = t\<rparr>"
proof -
  have "Fields (dec_string (unat p) @ '' '' @ dec_string (unat w) @ '' '' @ dec_string (unat q) @ '' '' @ t) =
      [dec_string (unat p), dec_string (unat w), dec_string (unat q), t]"
    using Fields_join [of "[dec_string (unat p), dec_string (unat w), dec_string (unat q), t]"] assms
    by (simp add: dec_string_no_space)
  then show ?thesis by (simp add: ParseSRVValue_def parseUint16Field_print)
qed

lemma ip_string_reparse:
  assumes "ParseIP s = Some a"
  shows "ParseIP (ip_string a) = Some a" "ip_string a \<noteq> []"
proof -
  show "ParseIP (ip_string a) = Some a" using ParseIP_print [OF ParseIP_length ParseIP_bytes] assms by blast
  then show "ip_string a \<noteq> []" by (auto simp: ParseIP_def)
qed

lemmas value_defs = canonicalRecordValue_def ValidateRecordValue_def ValidateRecordValueInZone_def recordPriorityFromValue_def

lemma canonical_value:
  assumes "ValidateRecord r = None" "ValidateRecordValueInZone (r_Type r) (r_Value r) zn = None" "plain_caa r"
  defines "v \<equiv> canonicalRecordValue (r_Type r) (r_Value r) zn"
  shows "ValidateRecordValue (r_Type r) v = None \<and> ValidateRecordValueInZone (r_Type r) v z = None
    \<and> canonicalRecordValue (r_Type r) v z = v \<and> (\<exists>p. recordPriorityFromValue (r_Type r) v = Inr p)"
proof -
  note val = valid_record_parts(2) [OF assms(1)]
  have tgt: "ValidateDomainTarget (NormalizeDomainTargetName t zn) = None"
      "ValidateDomainTargetInZone (NormalizeDomainTargetName t zn) z = None"
      "NormalizeDomainTargetName (NormalizeDomainTargetName t zn) z = NormalizeDomainTargetName t zn"
      "no_space (NormalizeDomainTargetName t zn)" "NormalizeDomainTargetName t zn \<noteq> []"
    if "ValidateDomainTargetInZone t zn = None" for t
    using that canonical_target [OF that] no_space_domain [of "NormalizeDomainTargetName t zn"]
    by (auto simp: ValidateDomainTargetInZone_def Let_def)
  from valid_record_type [OF assms(1)] consider
      (a) "r_Type r = RecordTypeA" | (aaaa) "r_Type r = RecordTypeAAAA"
    | (name) "r_Type r \<in> {RecordTypeCNAME, RecordTypeNS, RecordTypePTR}" | (mx) "r_Type r = RecordTypeMX"
    | (rest) "r_Type r \<in> {RecordTypeTXT, RecordTypeCAA}" | (srv) "r_Type r = RecordTypeSRV"
    by blast
  then show ?thesis
  proof cases
    case a
    then obtain ip q where "ParseIP (r_Value r) = Some ip" "To4 ip = Some q"
      using val by (auto simp: ValidateRecordValue_def ValidateIPv4_def RecordType_defs split: option.splits if_splits)
    then show ?thesis using a ip_string_reparse [of "r_Value r" ip]
      by (simp add: v_def value_defs ValidateIPv4_def RecordType_defs)
  next
    case aaaa
    then obtain ip where "ParseIP (r_Value r) = Some ip" "To4 ip = None"
      using val by (auto simp: ValidateRecordValue_def ValidateIPv6_def RecordType_defs split: option.splits if_splits)
    then show ?thesis using aaaa ip_string_reparse [of "r_Value r" ip]
      by (simp add: v_def value_defs ValidateIPv6_def RecordType_defs)
  next
    case name
    then have "ValidateDomainTargetInZone (r_Value r) zn = None"
      using assms(2) by (auto simp: ValidateRecordValueInZone_def)
    then show ?thesis using name tgt [of "r_Value r"] by (auto simp: v_def value_defs RecordType_defs)
  next
    case mx
    then obtain d where "ParseMXValue (r_Value r) = Inr d" "ValidateDomainTargetInZone (mx_Target d) zn = None"
      using assms(2) by (auto simp: ValidateRecordValueInZone_def RecordType_defs split: sum.splits)
    then show ?thesis using mx tgt [of "mx_Target d"] ParseMXValue_print [of "NormalizeDomainTargetName (mx_Target d) zn"]
      by (simp add: v_def value_defs ValidateMXValue_def RecordType_defs)
  next
    case rest
    then show ?thesis using val by (auto simp: v_def value_defs RecordType_defs)
  next
    case srv
    then obtain d where "ParseSRVValue (r_Value r) = Inr d" "ValidateDomainTargetInZone (srv_Target d) zn = None"
      using assms(2) by (auto simp: ValidateRecordValueInZone_def RecordType_defs split: sum.splits)
    then show ?thesis using srv tgt [of "srv_Target d"] ParseSRVValue_print [of "NormalizeDomainTargetName (srv_Target d) zn"]
      by (simp add: v_def value_defs ValidateSRVValue_def RecordType_defs)
  qed
qed

text \<open>The constraints between records survive reordering and a change of spelling.\<close>

lemma record_set_perm:
  assumes "mset rs = mset rs'"
  shows "rrsets_ok z rs \<longleftrightarrow> rrsets_ok z rs'" "cname_alone z rs \<longleftrightarrow> cname_alone z rs'" "apex_ns z rs \<longleftrightarrow> apex_ns z rs'"
proof -
  have set: "set rs = set rs'" using assms by (rule mset_eq_setD)
  have "mset (filter P (owned z w rs)) = mset (filter P (owned z w rs'))" for P w
    using assms by (simp add: owned_def)
  then have "length (filter P (owned z w rs)) = length (filter P (owned z w rs'))" for P w by (metis size_mset)
  moreover have "distinct (map f rs) = distinct (map f rs')" for f :: "Record \<Rightarrow> string"
    using assms by (intro mset_eq_imp_distinct_iff) simp
  ultimately show "rrsets_ok z rs \<longleftrightarrow> rrsets_ok z rs'" using set by (simp add: rrsets_ok_def)
  show "cname_alone z rs \<longleftrightarrow> cname_alone z rs'" "apex_ns z rs \<longleftrightarrow> apex_ns z rs'"
    using set by (simp_all add: cname_alone_def apex_ns_def)
qed

lemma record_set_map:
  assumes "\<And>r. r \<in> set rs \<Longrightarrow> rec_owner z (g r) = rec_owner z r \<and> r_Type (g r) = r_Type r \<and> r_TTL (g r) = r_TTL r
      \<and> dup_key z (g r) = dup_key z r"
  shows "rrsets_ok z (map g rs) \<longleftrightarrow> rrsets_ok z rs" "cname_alone z (map g rs) \<longleftrightarrow> cname_alone z rs"
    "apex_ns z (map g rs) \<longleftrightarrow> apex_ns z rs"
proof -
  have "length (filter (\<lambda>r. r_Type r = t) (owned z w (map g rs))) = length (filter (\<lambda>r. r_Type r = t) (owned z w rs))" for t w
    using assms by (induction rs) (auto simp: owned_def)
  moreover have m: "map (dup_key z \<circ> g) rs = map (dup_key z) rs" using assms by simp
  have "distinct (map (dup_key z \<circ> g) rs) \<longleftrightarrow> distinct (map (dup_key z) rs)" unfolding m ..
  ultimately show "rrsets_ok z (map g rs) \<longleftrightarrow> rrsets_ok z rs" using assms
    by (simp add: rrsets_ok_def cong: ball_cong)
  show "cname_alone z (map g rs) \<longleftrightarrow> cname_alone z rs" "apex_ns z (map g rs) \<longleftrightarrow> apex_ns z rs"
    using assms by (auto simp: cname_alone_def apex_ns_def)
qed

lemma canonicalRecordValue_origin: "canonicalRecordValue t v (NormalizeZoneName zn) = canonicalRecordValue t v zn"
  unfolding canonicalRecordValue_def origin_normal ..

lemma imported_simps [simp]:
  "r_ID (imported n t l v) = []" "r_Name (imported n t l v) = n" "r_Type (imported n t l v) = t" "r_TTL (imported n t l v) = l"
  "r_Value (imported n t l v) = v" "r_Priority (imported n t l v) = None"
  by (simp_all add: imported_def)

lemma canonical_record_valid:
  assumes r: "ValidateRecord r = None" "ValidateRecordNameInZone (r_Name r) zn = None"
      "ValidateRecordValueInZone (r_Type r) (r_Value r) zn = None"
    and "plain_caa r" "domain_ok (NormalizeZoneName zn)" "zn \<noteq> []"
  defines "q \<equiv> canonical_record zn r" and "zc \<equiv> NormalizeZoneName zn"
  shows "ValidateRecord q = None \<and> ValidateRecordNameInZone (r_Name q) zc = None
      \<and> ValidateRecordValueInZone (r_Type q) (r_Value q) zc = None"
    and "rec_owner zc q = rec_owner zc r \<and> r_Type q = r_Type r \<and> r_TTL q = r_TTL r \<and> dup_key zc q = dup_key zc r"
proof -
  note o = canonical_owner [OF r(2) assms(5,6)] and v = canonical_value [OF r(1,3) assms(4), of zc]
  have q: "r_Name q = canonicalRecordOwnerName (r_Name r) zn" "r_Type q = r_Type r" "r_TTL q = r_TTL r"
      "r_Value q = canonicalRecordValue (r_Type r) (r_Value r) zn" "r_Priority q = None"
    by (simp_all add: q_def canonical_record_def)
  have "ValidateRecordPriority q = None" using v q by (auto simp: ValidateRecordPriority_def split: option.splits)
  then show "ValidateRecord q = None \<and> ValidateRecordNameInZone (r_Name q) zc = None
      \<and> ValidateRecordValueInZone (r_Type q) (r_Value q) zc = None"
    using o(2,3) v q r(1) by (simp add: ValidateRecord_def zc_def)
  show "rec_owner zc q = rec_owner zc r \<and> r_Type q = r_Type r \<and> r_TTL q = r_TTL r \<and> dup_key zc q = dup_key zc r"
    using o(4) [of zc] v q
    by (simp add: dup_key_def canonicalRecordDuplicateKey_def canonicalRecordValue_origin zc_def canonicalRecordOwnerName_def origin_normal)
qed

lemma canonical_soa_valid:
  assumes "ValidateSOAInZone soa zn = None"
  shows "ValidateSOAInZone (canonical_soa zn soa) z = None"
  using assms canonical_target [of "soa_MName soa" zn z] canonical_target [of "soa_RName soa" zn z]
  by (auto simp: ValidateSOAInZone_def ValidateSOA_def canonical_soa_def ValidateDomainTargetInZone_def Let_def)

lemma canonical_zone_valid:
  assumes v: "ValidateZone (Some z) = None" and caa: "list_all plain_caa (z_Records z)"
    and len: "length (NormalizeZoneName (z_Name z)) \<le> 253"
  shows "ValidateZone (Some (canonical_zone z)) = None"
proof -
  let ?n = "z_Name z" let ?c = "NormalizeZoneName ?n" let ?g = "canonical_record ?n" let ?rs = "z_Records z"
  from v have z: "domain_ok ?n" "ValidateSOAInZone (z_SOA z) ?n = None" "ValidateRecordSetConstraints (Some z) = None"
    "\<And>r. r \<in> set ?rs \<Longrightarrow> ValidateRecord r = None \<and> ValidateRecordNameInZone (r_Name r) ?n = None
        \<and> ValidateRecordValueInZone (r_Type r) (r_Value r) ?n = None"
    by (auto simp: ValidateZone_iff)
  have n: "domain_ok ?c" "?n \<noteq> []" using z(1) domain_ok_NormalizeZoneName len by (auto simp: domain_ok_def)
  have rec: "ValidateRecord (?g r) = None \<and> ValidateRecordNameInZone (r_Name (?g r)) ?c = None
      \<and> ValidateRecordValueInZone (r_Type (?g r)) (r_Value (?g r)) ?c = None"
    and same: "rec_owner ?c (?g r) = rec_owner ?c r \<and> r_Type (?g r) = r_Type r \<and> r_TTL (?g r) = r_TTL r
      \<and> dup_key ?c (?g r) = dup_key ?c r" if "r \<in> set ?rs" for r
    using canonical_record_valid [of r ?n] z(4) [OF that] caa n that by (auto simp: list_all_iff)
  have perm: "mset (z_Records (canonical_zone z)) = mset (map ?g ?rs)"
    by (simp add: canonical_zone_def sortRecords_def)
  have set: "set (z_Records (canonical_zone z)) = ?g ` set ?rs" using mset_eq_setD [OF perm] by simp
  have nm: "z_Name (canonical_zone z) = ?c" "z_SOA (canonical_zone z) = canonical_soa ?n (z_SOA z)"
    by (simp_all add: canonical_zone_def)
  have "ValidateRecordSetConstraints (Some (canonical_zone z)) = None"
    using z(3) record_set_perm [OF perm, of ?c] record_set_map [where rs = ?rs and z = ?c and g = ?g, OF same]
    by (simp add: ValidateRecordSetConstraints_iff nm NormalizeZoneName_idem Let_def)
  then show ?thesis using n(1) canonical_soa_valid [OF z(2)] rec set by (auto simp: ValidateZone_iff nm)
qed

subsection \<open>The text passes the checks before parsing\<close>

lemma no_space_drop: "no_space p \<Longrightarrow> no_space (drop k p)"
  by (auto simp: no_space_def dest: in_set_dropD)

lemma ws_len_prefix: "no_space p \<Longrightarrow> p \<noteq> [] \<Longrightarrow> ws_len (p @ s) = 0"
  using ws_len_plain by (cases p) (auto simp: no_space_def simp del: ws_len.simps(2))

lemma ws_len_end_keeps:
  assumes "no_space p" "p \<noteq> []"
  shows "ws_len_end (p @ s) \<le> length s"
proof -
  have pre: "ws_len (drop (length (p @ s) - n) (p @ s)) = 0" if "length s < n" for n
  proof -
    have "drop (length (p @ s) - n) (p @ s) = drop (length p + length s - n) p @ s" using that by simp
    moreover have "length p + length s - n < length p" using that assms(2) by (cases p) auto
    ultimately show ?thesis
      using ws_len_prefix [of "drop (length p + length s - n) p" s] no_space_drop [OF assms(1)] by simp
  qed
  define u where "u = p @ s"
  have "ascii_space (last u) \<Longrightarrow> 1 \<le> length s"
    using assms by (cases s) (auto simp: u_def no_space_def)
  moreover have "ws_len (drop (length u - 2) u) = 2 \<Longrightarrow> 2 \<le> length s" "ws_len (drop (length u - 3) u) = 3 \<Longrightarrow> 3 \<le> length s"
    using pre [of 2] pre [of 3] unfolding u_def by linarith+
  ultimately show ?thesis unfolding u_def [symmetric] ws_len_end_def by simp
qed

lemma trim_right_keeps:
  "no_space p \<Longrightarrow> p \<noteq> [] \<Longrightarrow> \<exists>n. trim_right (p @ s) = p @ take n s"
proof (induction "length s" arbitrary: s rule: less_induct)
  case less
  show ?case
  proof (cases "ws_len_end (p @ s) = 0")
    case True
    then show ?thesis by (subst trim_right.simps) (auto intro: exI [of _ "length s"])
  next
    case False
    let ?t = "take (length s - ws_len_end (p @ s)) s"
    have k: "ws_len_end (p @ s) \<le> length s" by (rule ws_len_end_keeps [OF less.prems])
    then have e: "trim_right (p @ s) = trim_right (p @ ?t)" using False by (subst trim_right.simps) simp
    have "length ?t < length s" using False k by simp
    from less.hyps [OF this less.prems] show ?thesis using e by auto
  qed
qed

lemma TrimSpace_keeps: "no_space p \<Longrightarrow> p \<noteq> [] \<Longrightarrow> \<exists>n. TrimSpace (p @ s) = p @ take n s"
  using trim_right_keeps [of p s] ws_len_prefix [of p s] by (simp add: TrimSpace_def trim_left.simps [of "p @ s"])

lemma first_field:
  assumes "no_space p" "p \<noteq> []" "s = [] \<or> ascii_space (hd s)"
  shows "\<exists>fs. Fields (p @ s) = p # fs"
proof -
  have "Fields (p @ s) = fields_aux (rev p) s" using fields_aux_plain [OF assms(1), of "[]" s] by (simp add: Fields_def)
  then show ?thesis using assms(2,3) by (cases s) (auto simp: fields_aux.simps(2) Let_def)
qed

lemma trimmed_field:
  assumes "no_space p" "p \<noteq> []" "s = [] \<or> ascii_space (hd s)"
  shows "\<exists>t fs. TrimSpace (p @ s) = p @ t \<and> Fields (TrimSpace (p @ s)) = p # fs"
proof -
  obtain n where n: "TrimSpace (p @ s) = p @ take n s" using TrimSpace_keeps [OF assms(1,2)] by blast
  have "take n s = [] \<or> ascii_space (hd (take n s))" using assms(3) by (cases n; cases s) auto
  then show ?thesis using first_field [OF assms(1,2)] n by auto
qed

text \<open>Lines that pass the scan for directives.\<close>

definition plain_line :: "string \<Rightarrow> bool" where
  "plain_line l \<longleftrightarrow> TrimSpace l = [] \<or> HasPrefix (TrimSpace l) '';''
     \<or> (\<exists>f fs. Fields (TrimSpace l) = f # fs \<and> ToUpper f \<notin> {''$GENERATE'', ''$INCLUDE''})"

lemma scan_plain:
  "\<forall>l \<in> set ls. plain_line l \<and> int (length l) < max_token \<Longrightarrow> scan_directives b max_token n k ls = None"
  by (induction ls arbitrary: n) (auto simp: plain_line_def Let_def split: list.splits)

lemma split_lines:
  assumes "\<forall>l \<in> set ls. d \<notin> set l"
  shows "split_on d (concat (map (\<lambda>l. l @ [d]) ls)) = ls @ [[]]"
  using assms by (induction ls) (auto simp: split_on_append)

lemma line_shorter: "l \<in> set ls \<Longrightarrow> length l < length (concat (map (\<lambda>l. l @ [d]) ls))"
  by (induction ls) auto

lemma upper_dollar: "upper_char c = CHR ''$'' \<longleftrightarrow> c = CHR ''$''"
  by (auto simp: upper_char_def is_lower_def byte_inject [symmetric] split: if_splits) (simp_all add: byte_def)

lemma owner_no_space: "\<forall>c \<in> set n. owner_char c \<Longrightarrow> no_space n"
  by (auto simp: no_space_def owner_char_def word_char_def char_class_defs ascii_space_def)

lemma plain_lines:
  "plain_line []" "plain_line (CHR '';'' # s)" "no_space origin \<Longrightarrow> plain_line (''$ORIGIN '' @ origin)"
  "\<forall>c \<in> set n. owner_char c \<Longrightarrow> n \<noteq> [] \<Longrightarrow> plain_line (n @ CHR 0x09 # s)"
proof -
  show "plain_line []" by (simp add: plain_line_def TrimSpace_Nil)
  have sc: "no_space '';''" "no_space ''$ORIGIN''" by (simp_all add: no_space_def ascii_space_def byte_def)
  show "plain_line (CHR '';'' # s)" using TrimSpace_keeps [of "'';''" s] sc(1) by (auto simp: plain_line_def HasPrefix_def)
  show "plain_line (''$ORIGIN '' @ origin)"
  proof -
    have "\<exists>t fs. TrimSpace (''$ORIGIN'' @ '' '' @ origin) = ''$ORIGIN'' @ t \<and> Fields (TrimSpace (''$ORIGIN'' @ '' '' @ origin)) = ''$ORIGIN'' # fs"
      by (rule trimmed_field [OF sc(2)]) (simp_all add: ascii_space_def byte_def)
    then obtain fs where "Fields (TrimSpace (''$ORIGIN'' @ '' '' @ origin)) = ''$ORIGIN'' # fs" by blast
    moreover have "ToUpper ''$ORIGIN'' \<notin> {''$GENERATE'', ''$INCLUDE''}" by code_simp
    ultimately show ?thesis unfolding plain_line_def by (intro disjI2 exI conjI) simp_all
  qed
  show "plain_line (n @ CHR 0x09 # s)" if n: "\<forall>c \<in> set n. owner_char c" "n \<noteq> []"
  proof -
    obtain t fs where "Fields (TrimSpace (n @ CHR 0x09 # s)) = n # fs"
      using trimmed_field [OF owner_no_space [OF n(1)] n(2), of "CHR 0x09 # s"] by (auto simp: ascii_space_def byte_def)
    moreover have "hd n \<noteq> CHR ''$''" using n by (cases n) (auto simp: owner_char_def word_char_def char_class_defs)
    then have "ToUpper n \<notin> {''$GENERATE'', ''$INCLUDE''}" using n(2) upper_dollar by (cases n) (auto simp: ToUpper_def)
    ultimately show ?thesis by (auto simp: plain_line_def)
  qed
qed

text \<open>What the library has to do for a zone file: print one line per record, starting with the owner, and parse
  the lines back; the bytes of an IPv4 address may come back in their sixteen-byte form.\<close>

definition rr16 :: "RR \<Rightarrow> RR" where
  "rr16 x = (case rr_Data x of RR_A a \<Rightarrow> x\<lparr>rr_Data := RR_A (if length a = 4 then v4_prefix @ a else a)\<rparr> | _ \<Rightarrow> x)"

definition prints_line :: "dns_text \<Rightarrow> RR \<Rightarrow> bool" where
  "prints_line D x \<longleftrightarrow> HasPrefix (dt_String D x) (rr_Name x @ [CHR 0x09]) \<and> LF \<notin> set (dt_String D x)"

definition parses_back :: "dns_text \<Rightarrow> string \<Rightarrow> string \<Rightarrow> RR list \<Rightarrow> bool" where
  "parses_back D text origin rrs \<longleftrightarrow>
     (case dt_parse D text origin (po_DefaultTTL DefaultParseOptions) False of (rrs', e) \<Rightarrow> e = None \<and> map rr16 rrs' = map rr16 rrs)"

lemma record_of_rr16: "record_of_rr c d (rr16 x) = record_of_rr c d x"
  by (simp add: record_of_rr_def rr16_def IP_String_def Let_def v4_prefix_def split: rdata.splits)

lemma written_text_plain:
  assumes "\<forall>x \<in> set rrs. prints_line D x \<and> rr_Name x \<noteq> [] \<and> (\<forall>c \<in> set (rr_Name x). owner_char c)"
    and "\<forall>c \<in> set origin. owner_char c" "LF \<notin> set version"
    and "int (length (zone_text D (CHR '';'' # g) origin version rrs)) \<le> DefaultMaxZoneFileSize" "LF \<notin> set g"
  shows "validateDirectives (zone_text D (CHR '';'' # g) origin version rrs) DefaultParseOptions = None"
proof -
  let ?t = "zone_text D (CHR '';'' # g) origin version rrs"
  let ?ls = "[''; Zone: '' @ origin, CHR '';'' # g, ''; Version: '' @ version, [], ''$ORIGIN '' @ origin, []] @ map (dt_String D) rrs"
  have o: "LF \<notin> set origin" "no_space origin" using assms(2) owner_no_space
    by (auto simp: LF_def owner_char_def word_char_def char_class_defs)
  have t: "?t = concat (map (\<lambda>l. l @ [LF]) ?ls)" by (simp add: zone_text_def comp_def)
  have "\<forall>l \<in> set ?ls. LF \<notin> set l" using o(1) assms(1,3,5) by (auto simp: prints_line_def) (simp_all add: LF_def)
  then have split: "split_on LF ?t = ?ls @ [[]]" unfolding t by (rule split_lines)
  have "plain_line l" if "l \<in> set ?ls \<union> {[]}" for l
  proof (cases "l \<in> dt_String D ` set rrs")
    case True
    then obtain x s where "x \<in> set rrs" "l = rr_Name x @ CHR 0x09 # s" using assms(1) by (auto simp: prints_line_def HasPrefix_iff)
    then show ?thesis using plain_lines(4) assms(1) by blast
  next
    case False
    then show ?thesis using that plain_lines(1-3) o(2) by auto
  qed
  moreover have "int (length l) < DefaultMaxZoneFileSize" if "l \<in> set ?ls \<union> {[]}" for l
  proof -
    have "l \<in> set ?ls" using that by auto
    from line_shorter [OF this, of LF] have "length l < length ?t" unfolding t .
    then show ?thesis using assms(4) by linarith
  qed
  ultimately show ?thesis
    unfolding validateDirectives_def split
    by (intro scan_plain) (auto simp: directiveScanMaxTokenSize_def DefaultParseOptions_def DefaultMaxZoneFileSize_def)
qed

subsection \<open>Export and import\<close>

lemma list_all2_from: "list_all2 P xs ys \<Longrightarrow> y \<in> set ys \<Longrightarrow> \<exists>x \<in> set xs. P x y"
  by (induction rule: list_all2_induct) auto

lemma zone_rrs_read_back:
  assumes v: "ValidateZone (Some z) = None" and caa: "list_all plain_caa (z_Records z)"
  obtains rrs where "zone_rrs z = Inr (soa_rr (NormalizeZoneName (z_Name z)) (z_SOA z) # rrs)"
    "list_all2 (reads_back (z_Name z)) (z_Records z) rrs"
proof -
  let ?n = "z_Name z" let ?P = "reads_back ?n"
  have n: "?n \<noteq> []" using v by (auto simp: ValidateZone_iff domain_ok_def)
  have "\<exists>x. convertRecordToRR (NormalizeZoneName ?n) r = Inr x \<and> ?P r x" if r: "r \<in> set (z_Records z)" for r
    using record_reads_back [of r ?n] v caa r n by (auto simp: ValidateZone_iff list_all_iff)
  from convert_all_reads_back [of "z_Records z" _ ?P, OF this]
  obtain xs where "convert_all (convertRecordToRR (NormalizeZoneName ?n)) (z_Records z) = Inr xs" "list_all2 ?P (z_Records z) xs"
    by blast
  then show thesis using that by (simp add: zone_rrs_def)
qed

lemma canonical_records_distinct:
  assumes "ValidateZone (Some z) = None"
  shows "distinct (map dedup_key (map (canonical_record (z_Name z)) (z_Records z)))"
proof -
  let ?n = "z_Name z" let ?c = "NormalizeZoneName ?n" let ?rs = "z_Records z"
  from assms have n: "domain_ok ?n" and "distinct (map (dup_key ?c) ?rs)"
    and r: "\<And>r. r \<in> set ?rs \<Longrightarrow> ValidateRecordNameInZone (r_Name r) ?n = None \<and> ValidateRecord r = None"
    by (auto simp: ValidateZone_iff ValidateRecordSetConstraints_iff rrsets_ok_def Let_def)
  then have d: "distinct ?rs" "inj_on (dup_key ?c) (set ?rs)" by (simp_all add: distinct_map)
  have "inj_on (dedup_key \<circ> canonical_record ?n) (set ?rs)"
  proof (rule inj_onI)
    fix q r assume qr: "q \<in> set ?rs" "r \<in> set ?rs" and e: "(dedup_key \<circ> canonical_record ?n) q = (dedup_key \<circ> canonical_record ?n) r"
    have "CHR ''|'' \<notin> set (r_Type t)" if "t \<in> set ?rs" for t
      using valid_record_type [of t] r [OF that] by (auto simp: RecordType_defs)
    then have bars: "CHR ''|'' \<notin> set (r_Type (canonical_record ?n q)) \<union> set (r_Type (canonical_record ?n r))"
      using qr by (simp add: canonical_record_def)
    have chars: "\<forall>c \<in> set (r_Name (canonical_record ?n q)) \<union> set (r_Name (canonical_record ?n r)). owner_char c"
      using owner_name_chars [OF conjunct1 [OF r [OF qr(1)]] n] owner_name_chars [OF conjunct1 [OF r [OF qr(2)]] n]
      by (auto simp: canonical_record_def)
    from dedup_keys [OF e [unfolded comp_def] chars bars]
    have "r_Name (canonical_record ?n q) = r_Name (canonical_record ?n r)" "r_Type q = r_Type r" "r_TTL q = r_TTL r"
        "r_Value (canonical_record ?n q) = r_Value (canonical_record ?n r)"
      by (simp_all add: canonical_record_def)
    then have "dup_key ?c q = dup_key ?c r"
      by (simp add: dup_key_def canonicalRecordDuplicateKey_def canonical_record_def canonicalRecordValue_origin
          canonicalRecordOwnerName_def origin_normal)
    then show "q = r" using inj_onD [OF d(2)] qr by blast
  qed
  then show ?thesis using d(1) by (simp add: distinct_map)
qed

lemma parsed_zone_normal:
  assumes v: "ValidateZone (Some z) = None" and caa: "list_all plain_caa (z_Records z)"
    and z: "zone_rrs z = Inr rrs" and p: "map rr16 (pz_Records p) = map rr16 rrs"
    and o: "pz_Origin p = NormalizeZoneName (z_Name z)"
  shows "NormalizeParsedZoneWithMetadata (Some p) DefaultNormalizeOptions = Inr (canonical_zone z, 0)"
proof -
  let ?n = "z_Name z" let ?c = "NormalizeZoneName ?n" let ?s = "soa_rr ?c (z_SOA z)" let ?d = "pz_DefaultTTL p"
  obtain xs where xs: "rrs = ?s # xs" "list_all2 (reads_back ?n) (z_Records z) xs"
    using zone_rrs_read_back [OF v caa] z by (metis sum.inject(2))
  have "map (record_of_rr True ?d) (pz_Records p) = map (record_of_rr True ?d) rrs"
    using arg_cong [OF p, of "map (record_of_rr True ?d)"] by (simp add: record_of_rr16 comp_def)
  then obtain y ys where ys: "pz_Records p = y # ys" "record_of_rr True ?d y = record_of_rr True ?d ?s"
      "map (record_of_rr True ?d) ys = map (record_of_rr True ?d) xs"
    using xs(1) by (cases "pz_Records p") auto
  have soa: "record_of_rr True ?d ?s = Inr (Inl (canonical_soa ?n (z_SOA z)))"
    using v ValidateDomainTargetInZone_absolute
    by (auto simp: record_of_rr_def soa_rr_def canonical_soa_def ValidateZone_iff ValidateSOAInZone_def origin_normal Let_def)
  have "map (record_of_rr True ?d) xs = map (Inr \<circ> Inr) (map (canonical_record ?n) (z_Records z))"
    using xs(2) by (induction rule: list_all2_induct) (auto simp: reads_back_def)
  then have "collect_records True ?d (pz_Records p) None [] =
      Inr (Some (canonical_soa ?n (z_SOA z)), map (canonical_record ?n) (z_Records z))"
    using collect_records_map [of True ?d ys "map (canonical_record ?n) (z_Records z)"] ys soa by simp
  moreover have "deduplicateRecordsWithCount (map (canonical_record ?n) (z_Records z)) = (map (canonical_record ?n) (z_Records z), 0)"
    using canonical_records_distinct [OF v] dedup_loop_distinct [of _ "[]"] by (simp add: deduplicateRecordsWithCount_def)
  moreover have "absolute ?c" using v by (intro NormalizeZoneName_absolute) (auto simp: ValidateZone_iff domain_ok_def)
  ultimately show ?thesis
    using o by (simp add: NormalizeParsedZoneWithMetadata_def DefaultNormalizeOptions_def canonical_zone_def Let_def)
qed


text \<open>The witness: a library that prints a record as its name and knows one file.\<close>

definition example_text_lib :: dns_text where
  "example_text_lib =
     \<lparr>dt_String = (\<lambda>x. rr_Name x @ [CHR 0x09]),
      dt_parse = (\<lambda>_ _ _ _. ((case zone_rrs example_zone of Inr rrs \<Rightarrow> rrs | Inl _ \<Rightarrow> []), None))\<rparr>"


end
