(* ===== verification/Signing_Laws.thy ===== *)
theory Signing_Laws
  imports Zone_Signer Denial_Laws Zone_Text
begin

section \<open>What signing a zone guarantees\<close>

text \<open>
  The laws of \<open>Zone_Signer\<close>: every RRset of the signed zone has its signature, made over the whole RRset with the right key; the
  denial chain of the signed zone denies exactly what does not exist; and the one kind of zone for which
  signing fails although the zone is valid.
\<close>

lemma list_all2_right: "list_all2 P xs ys \<Longrightarrow> y \<in> set ys \<Longrightarrow> \<exists>x \<in> set xs. P x y"
  by (induction rule: list_all2_induct) auto

lemma list_all2_left: "list_all2 P xs ys \<Longrightarrow> x \<in> set xs \<Longrightarrow> \<exists>y \<in> set ys. P x y"
  by (induction rule: list_all2_induct) auto

subsection \<open>RRsets\<close>

lemma rrset_key_inject: "rrset_key x = rrset_key y \<longleftrightarrow> rr_Name x = rr_Name y \<and> rr_Rrtype x = rr_Rrtype y"
proof
  let ?d = "\<lambda>x. dec_string (unat (rr_Rrtype x))"
  have d: "CHR ''/'' \<notin> set (rev (?d x))" for x
    using dec_string_digits [of "unat (rr_Rrtype x)"] by (auto simp: list_all_iff char_class_defs)
  assume "rrset_key x = rrset_key y"
  then have "rev (rrset_key x) = rev (rrset_key y)" by simp
  then have "rev (?d x) @ CHR ''/'' # rev (rr_Name x) = rev (?d y) @ CHR ''/'' # rev (rr_Name y)" by (simp add: rrset_key_def)
  then have "?d x = ?d y" "rr_Name x = rr_Name y" using append_sep_inject [OF d d, of x "rev (rr_Name x)" y] by auto
  then show "rr_Name x = rr_Name y \<and> rr_Rrtype x = rr_Rrtype y" using dec_string_inject word_unat_eq_iff by blast
qed (auto simp: rrset_key_def)

definition rrset_of :: "RR list \<Rightarrow> RR \<Rightarrow> RR multiset" where
  "rrset_of rrs x = {#y \<in># mset rrs. rr_Name y = rr_Name x \<and> rr_Rrtype y = rr_Rrtype x#}"

text \<open>Groups that are the RRsets of their records.\<close>

definition complete_groups :: "RR list list \<Rightarrow> bool" where
  "complete_groups gs \<longleftrightarrow> (\<forall>g \<in> set gs. g \<noteq> [] \<and> (\<forall>x \<in> set g. mset g = rrset_of (concat gs) x))"

lemma complete_groups_hd:
  assumes "complete_groups gs" "q \<in> set gs"
  shows "hd q \<in> set q" "x \<in> set q \<Longrightarrow> rr_Rrtype x = rr_Rrtype (hd q)"
proof -
  show h: "hd q \<in> set q" using assms by (simp add: complete_groups_def)
  assume "x \<in> set q"
  then have "x \<in># rrset_of (concat gs) (hd q)" using assms h by (metis complete_groups_def set_mset_mset)
  then show "rr_Rrtype x = rr_Rrtype (hd q)" by (simp add: rrset_of_def)
qed

lemma groups_partition: "mset (concat (map (\<lambda>k. filter (\<lambda>x. f x = k) xs) (remdups (map f xs)))) = mset xs"
proof -
  have part: "mset (concat (map (\<lambda>k. filter (\<lambda>x. f x = k) xs) ks)) = mset (filter (\<lambda>x. f x \<in> set ks) xs)" if "distinct ks" for ks
    using that
  proof (induction ks)
    case (Cons k ks)
    have "mset (filter (\<lambda>x. f x \<in> set (k # ks)) xs) = mset (filter (\<lambda>x. f x = k) xs) + mset (filter (\<lambda>x. f x \<in> set ks) xs)"
      using Cons.prems by (induction xs) auto
    then show ?case using Cons by simp
  qed simp
  have "filter (\<lambda>x. f x \<in> set (remdups (map f xs))) xs = xs" by (intro filter_True) auto
  then show ?thesis using part [of "remdups (map f xs)"] by simp
qed

lemma rrset_groups_complete: "complete_groups (rrset_groups rrs)" "mset (concat (rrset_groups rrs)) = mset rrs"
proof -
  show p: "mset (concat (rrset_groups rrs)) = mset rrs" unfolding rrset_groups_def by (rule groups_partition)
  show "complete_groups (rrset_groups rrs)"
    unfolding complete_groups_def rrset_of_def p
    by (auto simp: rrset_groups_def filter_empty_conv rrset_key_inject [symmetric] simp flip: mset_filter intro!: arg_cong [where f = mset] filter_cong)
qed

lemma complete_groups_append:
  assumes "complete_groups gs" "complete_groups hs"
    and disj: "\<And>x y. x \<in> set (concat gs) \<Longrightarrow> y \<in> set (concat hs) \<Longrightarrow> rr_Name x \<noteq> rr_Name y \<or> rr_Rrtype x \<noteq> rr_Rrtype y"
  shows "complete_groups (gs @ hs)"
proof -
  have a: "rrset_of (concat (gs @ hs)) x = rrset_of (concat gs) x" if "x \<in> set (concat gs)" for x
    using disj [OF that] by (auto simp: rrset_of_def) metis
  have b: "rrset_of (concat (gs @ hs)) x = rrset_of (concat hs) x" if "x \<in> set (concat hs)" for x
    using disj [OF _ that] by (auto simp: rrset_of_def)
  show ?thesis using assms(1,2) a b unfolding complete_groups_def by fastforce
qed


lemma singletons_complete:
  assumes "distinct (map rrset_key xs)"
  shows "complete_groups (map (\<lambda>x. [x]) xs)"
proof -
  have "{#y \<in># mset xs. rr_Name y = rr_Name x \<and> rr_Rrtype y = rr_Rrtype x#} = {#x#}" if "x \<in> set xs" for x
    using that assms unfolding rrset_key_inject [symmetric] by (induction xs) (auto simp: rev_image_eqI)
  then show ?thesis by (auto simp: complete_groups_def rrset_of_def)
qed

subsection \<open>The records of the denial chain\<close>

lemma walk_up_distinct: "walk_up L z fuel n st = Some (names, ents) \<Longrightarrow> distinct (fst st) \<Longrightarrow> distinct names"
proof (induction fuel arbitrary: n st)
  case (Suc fuel)
  then show ?case by (cases st) (fastforce simp: Let_def split: if_splits)
qed simp

lemma walk_all_distinct: "walk_all L z ns st = Some (names, ents) \<Longrightarrow> distinct (fst st) \<Longrightarrow> distinct names"
proof (induction ns arbitrary: st)
  case (Cons n ns)
  then obtain st' where w: "walk_up L z (Suc (length (dn_SplitDomainName L n))) n st = Some st'" "walk_all L z ns st' = Some (names, ents)"
    by (auto split: option.splits)
  then show ?case using Cons.IH [OF w(2)] walk_up_distinct [of L z _ n st "fst st'" "snd st'"] Cons.prems(2) by simp
qed simp

lemma collect_distinct: "collectAuthoritativeNames L z rrs = Some (names, ents) \<Longrightarrow> distinct names"
  using walk_all_distinct [of L z _ "(owner_names L z rrs, [])"] by (simp add: collectAuthoritativeNames_def Let_def owner_names_def)

lemma nsec_chain_keys:
  assumes "GenerateNSECChain L z rrs ttl = Inr chain"
  shows "distinct (map rrset_key chain)" "\<forall>x \<in> set chain. rr_Rrtype x = TypeNSEC"
proof -
  obtain names ents where c: "collectAuthoritativeNames L (dn_Fqdn L z) rrs = Some (names, ents)"
    and ch: "chain = map (nsec_rr ttl (typeBitmapByName L (dn_Fqdn L z) rrs) ents (sortCanonicalDNSSECNames L names))
        [0..<length (sortCanonicalDNSSECNames L names)]"
    using assms by (auto simp: GenerateNSECChain_def Let_def split: option.splits prod.splits if_splits)
  let ?s = "sortCanonicalDNSSECNames L names"
  have t: "rr_Name (nsec_rr ttl b ents ns i) = ns ! i" "rr_Rrtype (nsec_rr ttl b ents ns i) = TypeNSEC" for b ns i
    by (simp_all add: nsec_rr_def Let_def)
  have "mset ?s = mset names" by (simp add: sortCanonicalDNSSECNames_def)
  then have "distinct ?s" using collect_distinct [OF c] by (metis mset_eq_imp_distinct_iff)
  moreover have "map rr_Name chain = ?s" unfolding ch map_map comp_def t by (rule map_nth)
  ultimately have "distinct (map rr_Name chain)" by simp
  then show "distinct (map rrset_key chain)" by (auto simp: distinct_map inj_on_def rrset_key_inject)
  show "\<forall>x \<in> set chain. rr_Rrtype x = TypeNSEC" using t by (auto simp: ch)
qed

lemma hash_names_keys: "hash_names h ns m = Inr m' \<Longrightarrow> distinct (map fst m) \<Longrightarrow> distinct (map fst m')"
proof (induction ns arbitrary: m)
  case (Cons n ns)
  then show ?case by (fastforce split: option.splits simp: map_of_eq_None_iff)
qed simp

lemma nsec3_chain_keys:
  assumes "GenerateNSEC3Chain L z rrs params = Inr chain"
  shows "distinct (map rrset_key chain)" "\<forall>x \<in> set chain. rr_Rrtype x = TypeNSEC3 \<or> rr_Rrtype x = TypeNSEC3PARAM"
    "\<forall>x \<in> set (tl chain). rr_Rrtype x = TypeNSEC3"
proof -
  let ?z = "dn_Fqdn L z"
  obtain b ents m where m: "distinct (map fst m)"
    and ch: "chain = nsec3param_rr params ?z # map (nsec3_rr params ?z b ents m (sort (map fst m))) [0..<length (sort (map fst m))]"
    using assms hash_names_keys [where m = "[]"]
    by (fastforce simp: GenerateNSEC3Chain_def Let_def split: option.splits prod.splits sum.splits)
  have t: "rr_Name (nsec3_rr params ?z b ents m hs i) = hs ! i @ ''.'' @ ?z" "rr_Rrtype (nsec3_rr params ?z b ents m hs i) = TypeNSEC3" for hs i
    by (simp_all add: nsec3_rr_def Let_def)
  have p: "rr_Rrtype (nsec3param_rr params ?z) = TypeNSEC3PARAM" by (simp add: nsec3param_rr_def)
  let ?hs = "sort (map fst m)"
  have "map rr_Name (tl chain) = map (\<lambda>h. h @ ''.'' @ ?z) (map (\<lambda>i. ?hs ! i) [0..<length ?hs])" by (simp add: ch t comp_def del: length_sort length_map)
  also have "\<dots> = map (\<lambda>h. h @ ''.'' @ ?z) ?hs" by (simp only: map_nth)
  finally have n: "map rr_Name (tl chain) = map (\<lambda>h. h @ ''.'' @ ?z) ?hs" .
  have "distinct (map (\<lambda>h. h @ ''.'' @ ?z) ?hs)" using m by (simp add: distinct_map inj_on_def)
  then have "distinct (map rr_Name (tl chain))" unfolding n .
  then have d: "distinct (map rrset_key (tl chain))" by (auto simp: distinct_map inj_on_def rrset_key_inject)
  show tt: "\<forall>x \<in> set (tl chain). rr_Rrtype x = TypeNSEC3" using t by (auto simp: ch)
  have c: "chain = nsec3param_rr params ?z # tl chain" using ch by simp
  then show "\<forall>x \<in> set chain. rr_Rrtype x = TypeNSEC3 \<or> rr_Rrtype x = TypeNSEC3PARAM" using tt p by (metis set_ConsD)
  have "rrset_key (nsec3param_rr params ?z) \<notin> rrset_key ` set (tl chain)"
    using tt p by (auto simp: rrset_key_inject rr_type_defs)
  then show "distinct (map rrset_key chain)" using d c by (metis distinct.simps(2) list.simps(9) set_map)
qed


subsection \<open>Signatures\<close>

lemma signRRset_type: "signRRset L S opts now g key z = Inr s \<Longrightarrow> rr_Rrtype s = TypeRRSIG"
  by (auto simp: signRRset_def split: list.splits sum.splits if_splits)

lemma sign_groups_Inr:
  assumes "sign_groups ksk zsk gs = Inr out" "\<forall>g \<in> set gs. rr_Rrtype (hd g) \<noteq> TypeRRSIG"
  shows "\<exists>sigs. list_all2 (\<lambda>g s. (if rr_Rrtype (hd g) = TypeDNSKEY then ksk else zsk) g = Inr s) gs sigs
    \<and> mset out = mset (concat gs) + mset sigs"
  using assms
proof (induction gs arbitrary: out)
  case (Cons g gs)
  obtain s rest where s: "(if rr_Rrtype (hd g) = TypeDNSKEY then ksk else zsk) g = Inr s" "sign_groups ksk zsk gs = Inr rest"
      "out = g @ [s] @ rest"
    using Cons.prems by (auto split: sum.splits if_splits)
  obtain sigs where "list_all2 (\<lambda>g s. (if rr_Rrtype (hd g) = TypeDNSKEY then ksk else zsk) g = Inr s) gs sigs"
      "mset rest = mset (concat gs) + mset sigs"
    using Cons.IH [OF s(2)] Cons.prems(2) by auto
  then show ?case using s by (intro exI [of _ "s # sigs"]) auto
qed simp

lemma sign_chain_Inr:
  "sign_chain zsk xs = Inr out \<Longrightarrow> \<exists>sigs. list_all2 (\<lambda>g s. zsk g = Inr s) (map (\<lambda>x. [x]) xs) sigs \<and> mset out = mset xs + mset sigs"
proof (induction xs arbitrary: out)
  case (Cons x xs)
  obtain s rest where s: "zsk [x] = Inr s" "sign_chain zsk xs = Inr rest" "out = x # s # rest"
    using Cons.prems by (auto split: sum.splits)
  obtain sigs where "list_all2 (\<lambda>g s. zsk g = Inr s) (map (\<lambda>x. [x]) xs) sigs" "mset rest = mset xs + mset sigs"
    using Cons.IH [OF s(2)] by auto
  then show ?case using s by (intro exI [of _ "s # sigs"]) auto
qed simp

definition plain_types :: "uint16 set" where
  "plain_types = {TypeSOA, TypeA, TypeAAAA, TypeNS, TypeCNAME, TypeMX, TypeTXT, TypePTR, TypeSRV, TypeCAA}"

definition chain_types :: "uint16 set" where
  "chain_types = {TypeNSEC, TypeNSEC3, TypeNSEC3PARAM}"

lemma recordToRR_parts:
  assumes "recordToRR origin r = Inr x"
  shows "rr_Rrtype x \<in> plain_types" "rr_Name x = NormalizeRecordOwnerName (r_Name r) origin" "rr_Ttl x = r_TTL r" "rr_Class x = ClassINET"
  using assms by (auto simp: recordToRR_def plain_types_def Let_def split: if_splits option.splits list.splits prod.splits)

lemma records_to_rrs_all2: "records_to_rrs origin rs = Inr xs \<Longrightarrow> list_all2 (\<lambda>r x. recordToRR origin r = Inr x) rs xs"
  by (induction rs arbitrary: xs) (auto split: sum.splits)

lemma modelToRRs_parts:
  assumes "modelToRRs zone name = Inr rrs"
  obtains xs where "rrs = soa_rr name (z_SOA zone) # xs" "list_all2 (\<lambda>r x. recordToRR name r = Inr x) (z_Records zone) xs"
  using assms records_to_rrs_all2 by (auto simp: modelToRRs_def)

lemma modelToRRs_types: "modelToRRs zone name = Inr rrs \<Longrightarrow> x \<in> set rrs \<Longrightarrow> rr_Rrtype x \<in> plain_types"
proof -
  assume m: "modelToRRs zone name = Inr rrs" and x: "x \<in> set rrs"
  obtain xs where xs: "rrs = soa_rr name (z_SOA zone) # xs" "list_all2 (\<lambda>r x. recordToRR name r = Inr x) (z_Records zone) xs"
    using modelToRRs_parts [OF m] .
  have "\<exists>r. recordToRR name r = Inr x" if "x \<in> set xs" using xs(2) that by (fastforce simp: list_all2_conv_all_nth in_set_conv_nth)
  then show ?thesis using x xs(1) recordToRR_parts(1) by (fastforce simp: soa_rr_def plain_types_def)
qed

lemma denial_chain_keys:
  assumes "denial_chain L opts random zone name srrs = Inr (chain, params)"
  shows "distinct (map rrset_key chain)" "\<forall>x \<in> set chain. rr_Rrtype x \<in> chain_types"
proof -
  have "(\<exists>ttl. GenerateNSECChain L name srrs ttl = Inr chain) \<or> (\<exists>p. GenerateNSEC3Chain L name srrs p = Inr chain)"
    using assms by (auto simp: denial_chain_def Let_def split: if_splits)
  then show "distinct (map rrset_key chain)" "\<forall>x \<in> set chain. rr_Rrtype x \<in> chain_types"
    using nsec_chain_keys [of L name srrs _ chain] nsec3_chain_keys [of L name srrs _ chain] unfolding chain_types_def by blast+
qed


text \<open>The parts of a successful run.\<close>

lemma signZoneWithKeys_parts:
  assumes "signZoneWithKeys L str S opts random now zone name ksk zsk = Inr (zone', out)"
  obtains rrs srrs chain params schain where "modelToRRs zone name = Inr rrs"
    "sign_groups (\<lambda>g. signRRset L S opts now g ksk name) (\<lambda>g. signRRset L S opts now g zsk name)
       (rrset_groups (rrs @ [kp_DNSKEY ksk, kp_DNSKEY zsk])) = Inr srrs"
    "denial_chain L opts random zone name srrs = Inr (chain, params)"
    "sign_chain (\<lambda>g. signRRset L S opts now g zsk name) chain = Inr schain" "out = sortRRs str (srrs @ schain)" "z_Name zone' = name"
proof -
  obtain rrs gs srrs where 1: "modelToRRs zone name = Inr rrs" "groupRRsets (rrs @ [kp_DNSKEY ksk, kp_DNSKEY zsk]) = Inr gs"
      "sign_groups (\<lambda>g. signRRset L S opts now g ksk name) (\<lambda>g. signRRset L S opts now g zsk name) gs = Inr srrs"
    and rest: "(case denial_chain L opts random zone name srrs of
        Inl e \<Rightarrow> Inl (SE_Chain e)
      | Inr (chain, params) \<Rightarrow> bindE (sign_chain (\<lambda>g. signRRset L S opts now g zsk name) chain) (\<lambda>signedChain.
          let signedRRs = sortRRs str (srrs @ signedChain)
          in bindE (rrsToModel S now zone signedRRs ksk zsk name) (\<lambda>signedZone.
             Inr (case params of None \<Rightarrow> signedZone
                  | Some p \<Rightarrow> signedZone\<lparr>z_DNSSEC := map_option (\<lambda>d. d\<lparr>d_NSEC3Enabled := True,
                      d_NSEC3Iterations := np3_Iterations p, d_NSEC3Salt := np3_Salt p\<rparr>) (z_DNSSEC signedZone)\<rparr>, signedRRs)))) = Inr (zone', out)"
    using assms by (auto simp: signZoneWithKeys_def createDNSKEYRecords_def)
  obtain chain params where c: "denial_chain L opts random zone name srrs = Inr (chain, params)"
    using rest by (cases "denial_chain L opts random zone name srrs") auto
  have "gs = rrset_groups (rrs @ [kp_DNSKEY ksk, kp_DNSKEY zsk])" using 1(2) by (auto simp: groupRRsets_def split: option.splits)
  moreover obtain schain z1 where "sign_chain (\<lambda>g. signRRset L S opts now g zsk name) chain = Inr schain" "out = sortRRs str (srrs @ schain)"
      "rrsToModel S now zone out ksk zsk name = Inr z1" "z_Name zone' = z_Name z1"
    using rest c by (auto simp: Let_def split: option.splits)
  moreover have "z_Name z1 = name" using calculation(4) by (auto simp: rrsToModel_def split: option.splits)
  ultimately show thesis using that [OF 1(1)] 1(3) c by simp
qed

lemma hd_group: "g \<in> set (rrset_groups rrs) \<Longrightarrow> hd g \<in> set rrs"
proof -
  assume g: "g \<in> set (rrset_groups rrs)"
  then have "hd g \<in> set (concat (rrset_groups rrs))" using rrset_groups_complete(1) [of rrs] by (auto simp: complete_groups_def intro!: bexI [of _ g])
  then show ?thesis using mset_eq_setD [OF rrset_groups_complete(2) [of rrs]] by blast
qed

lemma signed_zone_groups:
  assumes run: "signZoneWithKeys L str S opts random now zone name ksk zsk = Inr (zone', out)"
    and keys: "rr_Rrtype (kp_DNSKEY ksk) = TypeDNSKEY" "rr_Rrtype (kp_DNSKEY zsk) = TypeDNSKEY"
  obtains gs sigs rrs chain where "complete_groups gs" "modelToRRs zone name = Inr rrs"
    "list_all2 (\<lambda>g s. signRRset L S opts now g (if rr_Rrtype (hd g) = TypeDNSKEY then ksk else zsk) name = Inr s) gs sigs"
    "mset out = mset (concat gs) + mset sigs" "set (concat gs) = set rrs \<union> {kp_DNSKEY ksk, kp_DNSKEY zsk} \<union> set chain"
    "\<forall>x \<in> set chain. rr_Rrtype x \<in> chain_types"
proof -
  obtain rrs srrs chain params schain where p: "modelToRRs zone name = Inr rrs"
    "sign_groups (\<lambda>g. signRRset L S opts now g ksk name) (\<lambda>g. signRRset L S opts now g zsk name)
       (rrset_groups (rrs @ [kp_DNSKEY ksk, kp_DNSKEY zsk])) = Inr srrs"
    "denial_chain L opts random zone name srrs = Inr (chain, params)"
    "sign_chain (\<lambda>g. signRRset L S opts now g zsk name) chain = Inr schain" "out = sortRRs str (srrs @ schain)" "z_Name zone' = name"
    using signZoneWithKeys_parts [OF run] .
  let ?rrs = "rrs @ [kp_DNSKEY ksk, kp_DNSKEY zsk]" let ?G = "rrset_groups ?rrs" let ?C = "map (\<lambda>x. [x]) chain"
  have ty: "rr_Rrtype x \<in> insert TypeDNSKEY plain_types" if "x \<in> set ?rrs" for x
    using that keys modelToRRs_types [OF p(1)] by auto
  note chain = denial_chain_keys [OF p(3)]
  have sep: "insert TypeDNSKEY plain_types \<inter> insert TypeRRSIG chain_types = {}"
    by (simp add: plain_types_def chain_types_def rr_type_defs)
  have "rr_Rrtype (hd g) \<noteq> TypeRRSIG" if "g \<in> set ?G" for g using ty [OF hd_group [OF that]] sep by auto
  then obtain s1 where s1: "list_all2 (\<lambda>g s. (if rr_Rrtype (hd g) = TypeDNSKEY then \<lambda>g. signRRset L S opts now g ksk name
        else (\<lambda>g. signRRset L S opts now g zsk name)) g = Inr s) ?G s1" "mset srrs = mset (concat ?G) + mset s1"
    using sign_groups_Inr [OF p(2)] by blast
  obtain s2 where s2: "list_all2 (\<lambda>g s. signRRset L S opts now g zsk name = Inr s) ?C s2" "mset schain = mset chain + mset s2"
    using sign_chain_Inr [OF p(4)] by blast
  have set_G: "set (concat ?G) = set ?rrs" by (rule mset_eq_setD [OF rrset_groups_complete(2)])
  have "complete_groups (?G @ ?C)"
  proof (rule complete_groups_append [OF rrset_groups_complete(1) singletons_complete [OF chain(1)]])
    fix x y assume "x \<in> set (concat ?G)" "y \<in> set (concat ?C)"
    then have "rr_Rrtype x \<in> insert TypeDNSKEY plain_types" "rr_Rrtype y \<in> chain_types"
      using ty set_G chain(2) by auto
    then show "rr_Name x \<noteq> rr_Name y \<or> rr_Rrtype x \<noteq> rr_Rrtype y" using sep by auto
  qed
  moreover have "list_all2 (\<lambda>g s. signRRset L S opts now g (if rr_Rrtype (hd g) = TypeDNSKEY then ksk else zsk) name = Inr s) (?G @ ?C) (s1 @ s2)"
  proof (rule list_all2_appendI)
    show "list_all2 (\<lambda>g s. signRRset L S opts now g (if rr_Rrtype (hd g) = TypeDNSKEY then ksk else zsk) name = Inr s) ?G s1"
      using s1(1) by (rule list_all2_mono) (simp split: if_splits)
    have "rr_Rrtype x \<noteq> TypeDNSKEY" if "x \<in> set chain" for x using chain(2) that sep by auto
    then show "list_all2 (\<lambda>g s. signRRset L S opts now g (if rr_Rrtype (hd g) = TypeDNSKEY then ksk else zsk) name = Inr s) ?C s2"
      using s2(1) by (auto simp: list_all2_conv_all_nth)
  qed
  moreover have "mset out = mset (concat (?G @ ?C)) + mset (s1 @ s2)"
    using s1(2) s2(2) by (simp add: p(5) sortRRs_def comp_def)
  moreover have "set (concat (?G @ ?C)) = set rrs \<union> {kp_DNSKEY ksk, kp_DNSKEY zsk} \<union> set chain"
    using set_G by (simp add: comp_def Un_commute)
  ultimately show thesis using that [of "?G @ ?C" rrs "s1 @ s2" chain] p(1) chain(2) by blast
qed


subsection \<open>The names of a valid zone\<close>

lemma NormalizeZoneFQDN_ok:
  assumes "domain_ok n" "NormalizeZoneFQDN n = Inr name"
  shows "name = NormalizeZoneName n" "domain_ok name"
proof -
  have ns: "no_space n" "n \<noteq> []" using assms(1) no_space_domain [of n] by (auto simp: ValidateDomainTarget_iff)
  have "TrimSpace n = n" using ns no_space_TrimSpace by blast
  then show "name = NormalizeZoneName n" "domain_ok name"
    using assms ns(2) by (auto simp: NormalizeZoneFQDN_def NormalizeZoneName_def Let_def ValidateZoneName_iff split: if_splits option.splits)
qed

lemma ToLower_split: "ToLower s = s \<Longrightarrow> l \<in> set (split_on CHR ''.'' s) \<Longrightarrow> ToLower l = l"
  using split_on_ToLower [of s] map_eq_conv [of ToLower "split_on CHR ''.'' s" "\<lambda>l. l"] by simp

lemma absolute_plain_name:
  assumes a: "absolute w" and v: "ValidateRecordName w = None"
  shows "plain_name w"
proof -
  have n: "w \<noteq> ''@''" "w \<noteq> []" using a by (auto simp: absolute_def HasSuffix_def)
  let ?t = "TrimSuffix w ''.''" let ?ls = "split_on CHR ''.'' ?t"
  have "check_range validate_record_label 0 ?ls = None"
    using v n by (auto simp: ValidateRecordName_def Let_def split: if_splits)
  then have ne: "\<forall>l \<in> set ?ls. \<exists>i. validate_record_label i l = None" by (metis check_range_None in_set_conv_nth)
  have low: "ToLower ?t = ?t" using a by (auto simp: absolute_def HasSuffix_iff)
  have "l \<noteq> [] \<and> CHR ''.'' \<notin> set l \<and> CHR 0x5C \<notin> set l \<and> ToLower l = l" if l: "l \<in> set ?ls" for l
  proof -
    obtain i where i: "validate_record_label i l = None" using ne l by blast
    then have "l \<noteq> []" by (auto simp: validate_record_label_def)
    moreover have "CHR 0x5C \<notin> set l"
      using validate_record_label_chars [OF i, of "CHR 0x5C"] by (auto simp: owner_char_def word_char_def char_class_defs)
    moreover have "CHR ''.'' \<notin> set l" using l split_on_no_sep by blast
    ultimately show ?thesis using ToLower_split [OF low l] by blast
  qed
  then show ?thesis using a by (auto simp: plain_name_def plain_labels_def labels_of_def list_all_iff absolute_def split_on_nonempty)
qed


text \<open>The labels of the zone, and the records the signer converts.\<close>

lemma zone_plain_name:
  assumes "domain_ok n" "NormalizeZoneFQDN n = Inr name"
  shows "plain_name name" "fqdn (labels_of name) = name" "plain_labels (labels_of name)"
proof -
  have "absolute name" using NormalizeZoneFQDN_ok [OF assms] assms(1) NormalizeZoneName_absolute [of n] by (auto simp: domain_ok_def)
  then show p: "plain_name name"
    using absolute_plain_name zone_name_is_record_name NormalizeZoneFQDN_ok(2) [OF assms] by blast
  then show "fqdn (labels_of name) = name" "plain_labels (labels_of name)" using fqdn_labels_of by (auto simp: plain_name_def)
qed

lemma converted_plain_names:
  assumes v: "ValidateZone (Some zone) = None" and n: "NormalizeZoneFQDN (z_Name zone) = Inr name"
    and m: "modelToRRs zone name = Inr rrs" and x: "x \<in> set rrs"
  shows "plain_name (rr_Name x)"
proof -
  note z = v [unfolded ValidateZone_iff]
  note nm = NormalizeZoneFQDN_ok [OF z [THEN conjunct1] n]
  obtain xs where xs: "rrs = soa_rr name (z_SOA zone) # xs" "list_all2 (\<lambda>r x. recordToRR name r = Inr x) (z_Records zone) xs"
    using modelToRRs_parts [OF m] .
  show ?thesis
  proof (cases "x \<in> set xs")
    case True
    then obtain r where r: "r \<in> set (z_Records zone)" "recordToRR name r = Inr x"
      using list_all2_right [OF xs(2)] by blast
    have "rr_Name x = canonicalRecordOwnerName (r_Name r) (z_Name zone)"
      using recordToRR_parts(2) [OF r(2)] nm(1) origin_normal(1) by (simp add: canonicalRecordOwnerName_def)
    moreover have "ValidateRecordNameInZone (r_Name r) (z_Name zone) = None" "z_Name zone \<noteq> []"
      using z r(1) by (auto simp: domain_ok_def)
    ultimately show ?thesis using canonical_owner(1,2) [of "r_Name r" "z_Name zone"] nm absolute_plain_name by metis
  next
    case False
    then have "rr_Name x = name" using x xs(1) by (simp add: soa_rr_def)
    then show ?thesis using zone_plain_name(1) [OF z [THEN conjunct1] n] by simp
  qed
qed

subsection \<open>Denial in the signed zone\<close>

lemma ex1_nth: "distinct xs \<Longrightarrow> \<exists>!i. i < length xs \<and> P (xs ! i) \<Longrightarrow> \<exists>!x. x \<in> set xs \<and> P x"
  by (metis in_set_conv_nth nth_eq_iff_index_eq)

lemma name_exists_cong:
  assumes "rr_Name ` {x \<in> set a. rr_Rrtype x \<noteq> TypeNSEC3} = rr_Name ` {x \<in> set b. rr_Rrtype x \<noteq> TypeNSEC3}"
  shows "name_exists zs a = name_exists zs b"
proof -
  have e: "name_exists zs c ls \<longleftrightarrow> suffix zs ls \<and> (\<exists>n \<in> rr_Name ` {x \<in> set c. rr_Rrtype x \<noteq> TypeNSEC3}. suffix ls (labels_of n))" for c ls
    by (auto simp: name_exists_def list_ex_iff)
  show ?thesis by (rule ext) (simp only: e assms)
qed

lemma signRRset_name: "signRRset L S opts now g key z = Inr s \<Longrightarrow> g \<noteq> [] \<and> rr_Name s = rr_Name (hd g)"
  by (auto simp: signRRset_def split: list.splits sum.splits if_splits)

text \<open>The signed records before the chain is added: the names are those of the records.\<close>

lemma signed_groups_names:
  assumes "sign_groups (\<lambda>g. signRRset L S opts now g ksk name) (\<lambda>g. signRRset L S opts now g zsk name) (rrset_groups rrs) = Inr srrs"
    and ty: "\<forall>x \<in> set rrs. rr_Rrtype x \<in> insert TypeDNSKEY plain_types"
  obtains sigs where "set srrs = set rrs \<union> sigs" "\<forall>s \<in> sigs. rr_Rrtype s = TypeRRSIG \<and> rr_Name s \<in> rr_Name ` set rrs"
proof -
  have "rr_Rrtype (hd g) \<noteq> TypeRRSIG" if "g \<in> set (rrset_groups rrs)" for g
    using hd_group [OF that] ty by (auto simp: plain_types_def rr_type_defs)
  then obtain sigs where s: "list_all2 (\<lambda>g s. (if rr_Rrtype (hd g) = TypeDNSKEY then \<lambda>g. signRRset L S opts now g ksk name
        else (\<lambda>g. signRRset L S opts now g zsk name)) g = Inr s) (rrset_groups rrs) sigs" "mset srrs = mset (concat (rrset_groups rrs)) + mset sigs"
    using sign_groups_Inr [OF assms(1)] by blast
  have "set srrs = set (concat (rrset_groups rrs)) \<union> set sigs" using arg_cong [OF s(2), of set_mset] by simp
  then have "set srrs = set rrs \<union> set sigs" using mset_eq_setD [OF rrset_groups_complete(2) [of rrs]] by simp
  moreover have "rr_Rrtype y = TypeRRSIG \<and> rr_Name y \<in> rr_Name ` set rrs" if y: "y \<in> set sigs" for y
  proof -
    obtain g where g: "g \<in> set (rrset_groups rrs)" "(if rr_Rrtype (hd g) = TypeDNSKEY then \<lambda>g. signRRset L S opts now g ksk name
        else (\<lambda>g. signRRset L S opts now g zsk name)) g = Inr y"
      using list_all2_right [OF s(1) y] by blast
    then obtain k where "signRRset L S opts now g k name = Inr y" by (auto split: if_splits)
    then show ?thesis using signRRset_type signRRset_name hd_group [OF g(1)] by (metis image_eqI)
  qed
  ultimately show thesis using that [of "set sigs"] by blast
qed

lemma keyed_types:
  assumes "modelToRRs zone name = Inr rrs" "rr_Rrtype (kp_DNSKEY ksk) = TypeDNSKEY" "rr_Rrtype (kp_DNSKEY zsk) = TypeDNSKEY"
  shows "\<forall>x \<in> set (rrs @ [kp_DNSKEY ksk, kp_DNSKEY zsk]). rr_Rrtype x \<in> insert TypeDNSKEY plain_types"
  using assms(2,3) modelToRRs_types [OF assms(1)] by auto


lemma signable_signed:
  assumes v: "ValidateZone (Some zone) = None" and n: "NormalizeZoneFQDN (z_Name zone) = Inr name"
    and m: "modelToRRs zone name = Inr rrs"
    and sg: "set srrs = set (rrs @ [k1, k2]) \<union> sigs" "\<forall>s \<in> sigs. rr_Rrtype s = TypeRRSIG \<and> rr_Name s \<in> rr_Name ` set (rrs @ [k1, k2])"
    and k: "rr_Name k1 = name" "rr_Name k2 = name"
  shows "signable (labels_of name) srrs"
proof -
  note zp = zone_plain_name [OF v [unfolded ValidateZone_iff, THEN conjunct1] n]
  have "plain_name (rr_Name x)" if "x \<in> set (rrs @ [k1, k2])" for x
    using that k zp(1) converted_plain_names [OF v n m] by auto
  then have "plain_name (rr_Name x)" if "x \<in> set srrs" for x using that sg by (auto simp: image_iff)
  moreover have "soa_rr name (z_SOA zone) \<in> set srrs" using modelToRRs_parts [OF m] sg(1) by (metis Un_iff list.set_intros(1) set_append)
  then have "\<exists>x \<in> set srrs. rr_Rrtype x \<noteq> TypeNSEC3 \<and> rr_Name x = name"
    by (intro bexI [of _ "soa_rr name (z_SOA zone)"]) (simp_all add: soa_rr_def rr_type_defs)
  ultimately show ?thesis using zp(2,3) by (auto simp: signable_def list_all_iff list_ex_iff)
qed

text \<open>The types in the signed zone.\<close>

lemma signed_types:
  assumes ty: "\<forall>x \<in> set rrs. rr_Rrtype x \<in> insert TypeDNSKEY plain_types"
    and sg: "set srrs = set rrs \<union> sigs" "\<forall>s \<in> sigs. rr_Rrtype s = TypeRRSIG \<and> rr_Name s \<in> rr_Name ` set rrs"
    and s2: "\<forall>y \<in> set s2. rr_Rrtype y = TypeRRSIG"
  shows "x \<in> set srrs \<union> set s2 \<Longrightarrow> rr_Rrtype x \<notin> chain_types"
    "set out = set srrs \<union> set chain \<union> set s2 \<Longrightarrow> \<forall>x \<in> set chain. rr_Rrtype x \<in> chain_types \<Longrightarrow>
      rr_Name ` {x \<in> set (filter (\<lambda>x. rr_Rrtype x \<notin> insert TypeRRSIG chain_types) out). rr_Rrtype x \<noteq> TypeNSEC3}
        = rr_Name ` {x \<in> set srrs. rr_Rrtype x \<noteq> TypeNSEC3}"
proof -
  have sgt: "rr_Rrtype s = TypeRRSIG" if "s \<in> sigs" for s using bspec [OF sg(2) that] by (rule conjunct1)
  have plain: "rr_Rrtype x \<notin> insert TypeRRSIG chain_types" "rr_Rrtype x \<noteq> TypeNSEC3" if "x \<in> set rrs" for x
    using bspec [OF ty that] by (auto simp: plain_types_def chain_types_def rr_type_defs)
  have r: "TypeRRSIG \<notin> chain_types" "TypeRRSIG \<noteq> TypeNSEC3" by (simp_all add: chain_types_def rr_type_defs)
  show "x \<in> set srrs \<union> set s2 \<Longrightarrow> rr_Rrtype x \<notin> chain_types"
    unfolding sg(1) Un_iff using plain(1) sgt s2 r(1) by (metis insertI2)
  assume out: "set out = set srrs \<union> set chain \<union> set s2" and ch: "\<forall>x \<in> set chain. rr_Rrtype x \<in> chain_types"
  have "rr_Rrtype x \<in> insert TypeRRSIG chain_types" if "x \<in> sigs \<union> set chain \<union> set s2" for x
    using that sgt s2 ch unfolding Un_iff by (metis insert_iff)
  then have f: "set (filter (\<lambda>x. rr_Rrtype x \<notin> insert TypeRRSIG chain_types) out) = set rrs"
    unfolding set_filter out sg(1) using plain(1) by blast
  have "{x \<in> set rrs \<union> sigs. rr_Rrtype x \<noteq> TypeNSEC3} = set rrs \<union> sigs" "{x \<in> set rrs. rr_Rrtype x \<noteq> TypeNSEC3} = set rrs"
    using plain(2) sgt r(2) by auto
  moreover have "rr_Name ` (set rrs \<union> sigs) = rr_Name ` set rrs" using sg(2) by (auto simp: image_Un)
  ultimately show "rr_Name ` {x \<in> set (filter (\<lambda>x. rr_Rrtype x \<notin> insert TypeRRSIG chain_types) out). rr_Rrtype x \<noteq> TypeNSEC3}
        = rr_Name ` {x \<in> set srrs. rr_Rrtype x \<noteq> TypeNSEC3}"
    unfolding f sg(1) by simp
qed

text \<open>The run of the signer on a valid zone, as the laws below need it.\<close>

definition base_rrs :: "RR list \<Rightarrow> RR list" where
  "base_rrs out = filter (\<lambda>x. rr_Rrtype x \<notin> insert TypeRRSIG chain_types) out"

lemma signed_zone_setup:
  assumes v: "ValidateZone (Some zone) = None"
    and run: "SignZoneWithKeys L str S opts random now (Some zone) (Some ksk) (Some zsk) = Inr (zone', out)"
    and keys: "rr_Rrtype (kp_DNSKEY ksk) = TypeDNSKEY" "rr_Rrtype (kp_DNSKEY zsk) = TypeDNSKEY"
      "rr_Name (kp_DNSKEY ksk) = z_Name zone'" "rr_Name (kp_DNSKEY zsk) = z_Name zone'"
  defines "zs \<equiv> labels_of (z_Name zone')"
  obtains rrs srrs chain params where "modelToRRs zone (fqdn zs) = Inr rrs" "set rrs \<subseteq> set srrs" "signable zs srrs"
    "\<forall>x \<in> set srrs. rr_Rrtype x \<notin> chain_types" "denial_chain L opts random zone (fqdn zs) srrs = Inr (chain, params)"
    "\<forall>x \<in> set chain. \<exists>s. signRRset L S opts now [x] zsk (fqdn zs) = Inr s" "fqdn zs = z_Name zone'"
    "\<forall>x t. t \<in> chain_types \<longrightarrow> (x \<in> set out \<and> rr_Rrtype x = t \<longleftrightarrow> x \<in> set chain \<and> rr_Rrtype x = t)"
    "name_exists zs (base_rrs out) = name_exists zs srrs"
proof -
  obtain name where n: "NormalizeZoneFQDN (z_Name zone) = Inr name"
    and run': "signZoneWithKeys L str S opts random now zone name ksk zsk = Inr (zone', out)"
    using run by (auto simp: SignZoneWithKeys_def)
  obtain rrs srrs chain params schain where p: "modelToRRs zone name = Inr rrs"
    "sign_groups (\<lambda>g. signRRset L S opts now g ksk name) (\<lambda>g. signRRset L S opts now g zsk name)
       (rrset_groups (rrs @ [kp_DNSKEY ksk, kp_DNSKEY zsk])) = Inr srrs"
    "denial_chain L opts random zone name srrs = Inr (chain, params)"
    "sign_chain (\<lambda>g. signRRset L S opts now g zsk name) chain = Inr schain" "out = sortRRs str (srrs @ schain)" "z_Name zone' = name"
    using signZoneWithKeys_parts [OF run'] .
  note ty = keyed_types [OF p(1) keys(1,2)]
  obtain sigs where sg: "set srrs = set (rrs @ [kp_DNSKEY ksk, kp_DNSKEY zsk]) \<union> sigs"
      "\<forall>s \<in> sigs. rr_Rrtype s = TypeRRSIG \<and> rr_Name s \<in> rr_Name ` set (rrs @ [kp_DNSKEY ksk, kp_DNSKEY zsk])"
    using signed_groups_names [OF p(2) ty] .
  obtain s2 where s2: "list_all2 (\<lambda>g s. signRRset L S opts now g zsk name = Inr s) (map (\<lambda>x. [x]) chain) s2" "mset schain = mset chain + mset s2"
    using sign_chain_Inr [OF p(4)] by blast
  have out: "set out = set srrs \<union> set chain \<union> set s2"
    using arg_cong [OF s2(2), of set_mset] by (auto simp: p(5) sortRRs_def)
  have s2t: "\<forall>y \<in> set s2. rr_Rrtype y = TypeRRSIG" using list_all2_right [OF s2(1)] signRRset_type by blast
  note types = signed_types [OF ty sg s2t]
  have fz: "fqdn zs = name"
    using zone_plain_name(2) [OF v [unfolded ValidateZone_iff, THEN conjunct1] n] p(6) by (simp add: zs_def)
  show thesis
  proof (rule that)
    show "signable zs srrs" using signable_signed [OF v n p(1) sg] keys(3,4) p(6) unfolding zs_def by simp
    show "set rrs \<subseteq> set srrs" using sg(1) by auto
    show "\<forall>x \<in> set chain. \<exists>s. signRRset L S opts now [x] zsk (fqdn zs) = Inr s"
      using list_all2_left [OF s2(1)] unfolding fz by fastforce
    show "\<forall>x t. t \<in> chain_types \<longrightarrow> (x \<in> set out \<and> rr_Rrtype x = t \<longleftrightarrow> x \<in> set chain \<and> rr_Rrtype x = t)"
      using types(1) unfolding out Un_iff by metis
    show "\<forall>x \<in> set srrs. rr_Rrtype x \<notin> chain_types" using types(1) by simp
    show "name_exists zs (base_rrs out) = name_exists zs srrs"
      unfolding base_rrs_def by (rule name_exists_cong, rule types(2) [OF out denial_chain_keys(2) [OF p(3)]])
  qed (simp_all add: fz p)
qed

text \<open>The denial chain of a signed zone, by records instead of positions.\<close>

lemma nsec_records_deny:
  assumes "names_ok L" "signable zs srrs" "GenerateNSECChain L (fqdn zs) srrs ttl = Inr chain" "plain_labels ls"
  shows "if name_exists zs srrs ls then \<forall>x \<in> set chain. \<not> nsec_denies x ls else \<exists>!x. x \<in> set chain \<and> nsec_denies x ls"
proof -
  have d: "distinct chain" using nsec_chain_keys(1) [OF assms(3)] by (simp add: distinct_map)
  have "if name_exists zs srrs ls then \<forall>i < length chain. \<not> nsec_denies (chain ! i) ls
      else \<exists>!i. i < length chain \<and> nsec_denies (chain ! i) ls"
    using nsec_chain_denies [OF assms(1,2), of ttl] assms(4) unfolding assms(3) by auto
  then show ?thesis using ex1_nth [OF d, of "\<lambda>x. nsec_denies x ls"] by (auto simp: all_set_conv_all_nth)
qed

lemma nsec3_records_deny:
  assumes "names_ok L" "signable zs srrs" "GenerateNSEC3Chain L (fqdn zs) srrs params = Inr chain"
  shows "name_exists zs srrs ls \<Longrightarrow> x \<in> set (tl chain) \<Longrightarrow> \<not> nsec3_denies (fqdn zs) x (name_hash L params ls)"
    "q \<notin> name_hash L params ` {ls. name_exists zs srrs ls} \<Longrightarrow> \<exists>!x. x \<in> set (tl chain) \<and> nsec3_denies (fqdn zs) x q"
    "inj_on (name_hash L params) {ls. name_exists zs srrs ls}" "chain = nsec3param_rr params (fqdn zs) # tl chain"
proof -
  obtain rest where r: "inj_on (name_hash L params) {ls. name_exists zs srrs ls}" "chain = nsec3param_rr params (fqdn zs) # rest"
      "\<And>ls x. name_exists zs srrs ls \<Longrightarrow> x \<in> set rest \<Longrightarrow> \<not> nsec3_denies (fqdn zs) x (name_hash L params ls)"
      "\<And>q. q \<notin> name_hash L params ` {ls. name_exists zs srrs ls} \<Longrightarrow> \<exists>!i. i < length rest \<and> nsec3_denies (fqdn zs) (rest ! i) q"
    using nsec3_chain_denies [OF assms(1,2), of params] assms(3) by (auto split: if_splits)
  have d: "distinct rest" using nsec3_chain_keys(1) [OF assms(3)] r(2) by (simp add: distinct_map)
  show "name_exists zs srrs ls \<Longrightarrow> x \<in> set (tl chain) \<Longrightarrow> \<not> nsec3_denies (fqdn zs) x (name_hash L params ls)" using r(2,3) by simp
  show "q \<notin> name_hash L params ` {ls. name_exists zs srrs ls} \<Longrightarrow> \<exists>!x. x \<in> set (tl chain) \<and> nsec3_denies (fqdn zs) x q"
    using ex1_nth [OF d, of "\<lambda>x. nsec3_denies (fqdn zs) x q"] r(4) [of q] r(2) by simp
  show "inj_on (name_hash L params) {ls. name_exists zs srrs ls}" "chain = nsec3param_rr params (fqdn zs) # tl chain"
    using r(1,2) by simp_all
qed

text \<open>
  C11: Signing a valid zone gives a zone that proves what does not exist. With NSEC, a name that does not exist is denied by
  exactly one NSEC record of the signed zone and a name that exists by none; with NSEC3 the same holds of the hashes of
  names. A name exists if a record of the zone or a key is at it or below it.
\<close>

theorem signed_zone_denies:
  assumes L: "names_ok L" and v: "ValidateZone (Some zone) = None"
    and run: "SignZoneWithKeys L str S opts random now (Some zone) (Some ksk) (Some zsk) = Inr (zone', out)"
    and keys: "rr_Rrtype (kp_DNSKEY ksk) = TypeDNSKEY" "rr_Rrtype (kp_DNSKEY zsk) = TypeDNSKEY"
      "rr_Name (kp_DNSKEY ksk) = z_Name zone'" "rr_Name (kp_DNSKEY zsk) = z_Name zone'"
  defines "zs \<equiv> labels_of (z_Name zone')"
    and "there \<equiv> name_exists (labels_of (z_Name zone')) (base_rrs out)"
    and "h \<equiv> name_hash L (NewNSEC3Params random (soa_Minimum (z_SOA zone)) (so_NSEC3Iterations opts) (so_NSEC3SaltLength opts))"
  shows "if so_NSEC3Enabled opts
    then (\<forall>ls. there ls \<longrightarrow> (\<forall>x \<in> set out. \<not> (rr_Rrtype x = TypeNSEC3 \<and> nsec3_denies (fqdn zs) x (h ls))))
      \<and> (\<forall>q. q \<notin> h ` {ls. there ls} \<longrightarrow> (\<exists>!x. x \<in> set out \<and> rr_Rrtype x = TypeNSEC3 \<and> nsec3_denies (fqdn zs) x q))
    else \<forall>ls. plain_labels ls \<longrightarrow>
      (if there ls then \<forall>x \<in> set out. \<not> (rr_Rrtype x = TypeNSEC \<and> nsec_denies x ls)
       else \<exists>!x. x \<in> set out \<and> rr_Rrtype x = TypeNSEC \<and> nsec_denies x ls)"
proof -
  obtain rrs srrs chain params where p: "modelToRRs zone (fqdn zs) = Inr rrs" "set rrs \<subseteq> set srrs" "signable zs srrs"
    "\<forall>x \<in> set srrs. rr_Rrtype x \<notin> chain_types" "denial_chain L opts random zone (fqdn zs) srrs = Inr (chain, params)"
    "\<forall>x \<in> set chain. \<exists>s. signRRset L S opts now [x] zsk (fqdn zs) = Inr s" "fqdn zs = z_Name zone'"
    "\<forall>x t. t \<in> chain_types \<longrightarrow> (x \<in> set out \<and> rr_Rrtype x = t \<longleftrightarrow> x \<in> set chain \<and> rr_Rrtype x = t)"
    "name_exists zs (base_rrs out) = name_exists zs srrs"
    using signed_zone_setup [OF v run keys] unfolding zs_def .
  have there: "there = name_exists zs srrs" using p(9) by (simp add: there_def zs_def)
  show ?thesis
  proof (cases "so_NSEC3Enabled opts")
    case True
    then have g: "GenerateNSEC3Chain L (fqdn zs) srrs (NewNSEC3Params random (soa_Minimum (z_SOA zone)) (so_NSEC3Iterations opts)
        (so_NSEC3SaltLength opts)) = Inr chain"
      using p(5) by (auto simp: denial_chain_def Let_def)
    note d = nsec3_records_deny [OF L p(3) g, folded h_def there]
    have "x \<in> set chain \<and> rr_Rrtype x = TypeNSEC3 \<longleftrightarrow> x \<in> set (tl chain)" for x
    proof -
      have "x \<in> set chain \<longleftrightarrow> x = nsec3param_rr (NewNSEC3Params random (soa_Minimum (z_SOA zone)) (so_NSEC3Iterations opts)
          (so_NSEC3SaltLength opts)) (fqdn zs) \<or> x \<in> set (tl chain)" using d(4) by (metis set_ConsD list.set_intros)
      then show ?thesis using bspec [OF nsec3_chain_keys(3) [OF g], of x] by (auto simp: nsec3param_rr_def rr_type_defs)
    qed
    then have t: "x \<in> set out \<and> rr_Rrtype x = TypeNSEC3 \<longleftrightarrow> x \<in> set (tl chain)" for x
      using p(8) by (simp add: chain_types_def)
    show ?thesis unfolding if_P [OF True] conj_assoc [symmetric] t using d(1,2) t by (metis (no_types, lifting))
  next
    case False
    then have g: "GenerateNSECChain L (fqdn zs) srrs (soa_Minimum (z_SOA zone)) = Inr chain"
      using p(5) by (auto simp: denial_chain_def Let_def)
    have t: "x \<in> set out \<and> rr_Rrtype x = TypeNSEC \<longleftrightarrow> x \<in> set chain" for x
      using p(8) nsec_chain_keys(2) [OF g] by (auto simp: chain_types_def)
    show ?thesis
      unfolding if_not_P [OF False] conj_assoc [symmetric] Ball_def
      using nsec_records_deny [OF L p(3) g, folded there] t by (metis (no_types, lifting))
  qed
qed

subsection \<open>An example\<close>

definition example_key :: "nat \<Rightarrow> unit KeyPair" where
  "example_key flags =
     \<lparr>kp_ID = \<lparr>ki_Zone = ''ex.'', ki_Algorithm = 13, ki_KeyTag = 7\<rparr>, kp_Role = KeyRoleZSK,
      kp_DNSKEY = rr ''ex.'' TypeDNSKEY 60 (RR_DNSKEY \<lparr>dk_Flags = word_of_nat flags, dk_Protocol = 3, dk_Algorithm = 13, dk_PublicKey = ''k''\<rparr>),
      kp_Private = ()\<rparr>"

definition example_lib :: "unit signing_lib" where
  "example_lib = \<lparr>sl_IsRRset = (\<lambda>_. True), sl_KeyTag = (\<lambda>_. 7), sl_Signer = (\<lambda>_. True), sl_Sign = (\<lambda>_ t _. Inr (t\<lparr>rs_Signature := ''s''\<rparr>))\<rparr>"

definition example_options :: SignerOptions where
  "example_options = DefaultSignerOptions\<lparr>so_NSEC3Enabled := False\<rparr>"

definition ex_sign :: "nat \<Rightarrow> RR list \<Rightarrow> signer_error + RR" where
  "ex_sign flags g = signRRset example_names example_lib example_options (5 * second) g (example_key flags) ''ex.''"

definition ex_rrs :: "RR list" where
  "ex_rrs = (case modelToRRs example_zone ''ex.'' of Inr r \<Rightarrow> r | Inl _ \<Rightarrow> [])"

definition ex_signed :: "RR list" where
  "ex_signed = (case sign_groups (ex_sign 257) (ex_sign 256) (rrset_groups (ex_rrs @ [kp_DNSKEY (example_key 257), kp_DNSKEY (example_key 256)])) of
     Inr r \<Rightarrow> r | Inl _ \<Rightarrow> [])"

definition ex_chain :: "RR list" where
  "ex_chain = (case denial_chain example_names example_options None example_zone ''ex.'' ex_signed of Inr (c, _) \<Rightarrow> c | Inl _ \<Rightarrow> [])"

definition ex_out :: "RR list" where
  "ex_out = sortRRs rr_Name (ex_signed @ (case sign_chain (ex_sign 256) ex_chain of Inr r \<Rightarrow> r | Inl _ \<Rightarrow> []))"

definition ex_zone :: Zone where
  "ex_zone = (case rrsToModel example_lib (5 * second) example_zone ex_out (example_key 257) (example_key 256) ''ex.'' of Inr z \<Rightarrow> z | Inl _ \<Rightarrow> example_zone)"

lemma isl_Inr: "\<not> isl r \<Longrightarrow> r = Inr (case r of Inr x \<Rightarrow> x | Inl _ \<Rightarrow> y)"
  by (cases r) simp_all

lemma example_model: "modelToRRs example_zone ''ex.'' = Inr ex_rrs"
  unfolding ex_rrs_def by (rule isl_Inr) code_simp

lemma example_groups:
  "groupRRsets (ex_rrs @ [kp_DNSKEY (example_key 257), kp_DNSKEY (example_key 256)])
     = Inr (rrset_groups (ex_rrs @ [kp_DNSKEY (example_key 257), kp_DNSKEY (example_key 256)]))"
proof -
  have "check_groups (rrset_groups (ex_rrs @ [kp_DNSKEY (example_key 257), kp_DNSKEY (example_key 256)])) = None" by code_simp
  then show ?thesis by (simp add: groupRRsets_def)
qed

lemma example_signatures:
  "sign_groups (ex_sign 257) (ex_sign 256) (rrset_groups (ex_rrs @ [kp_DNSKEY (example_key 257), kp_DNSKEY (example_key 256)])) = Inr ex_signed"
  unfolding ex_signed_def by (rule isl_Inr) code_simp

lemma example_denial: "denial_chain example_names example_options None example_zone ''ex.'' ex_signed = Inr (ex_chain, None)"
proof -
  let ?d = "denial_chain example_names example_options None example_zone ''ex.'' ex_signed"
  have "\<not> isl ?d" by code_simp
  moreover have "snd (projr ?d) = None" if "\<not> isl ?d" using that
    by (cases "GenerateNSECChain example_names ''ex.'' ex_signed (soa_Minimum (z_SOA example_zone))") (simp_all add: denial_chain_def example_options_def)
  ultimately show ?thesis unfolding ex_chain_def by (cases ?d) auto
qed

lemma example_chain: "sign_chain (ex_sign 256) ex_chain = Inr (case sign_chain (ex_sign 256) ex_chain of Inr r \<Rightarrow> r | Inl _ \<Rightarrow> [])"
  by (rule isl_Inr) code_simp

lemma example_back: "rrsToModel example_lib (5 * second) example_zone ex_out (example_key 257) (example_key 256) ''ex.'' = Inr ex_zone"
proof -
  have "earliest_loop 0 ex_out \<noteq> 0" by code_simp
  then show ?thesis unfolding ex_zone_def by (intro isl_Inr) (simp add: rrsToModel_def earliestRRSIGExpiration_def Let_def)
qed

lemma example_name: "NormalizeZoneFQDN (z_Name example_zone) = Inr ''ex.''"
  by code_simp

lemma example_run:
  "SignZoneWithKeys example_names rr_Name example_lib example_options None (5 * second) (Some example_zone)
     (Some (example_key 257)) (Some (example_key 256)) = Inr (ex_zone, ex_out)"
proof -
  have sign: "(\<lambda>g. signRRset example_names example_lib example_options (5 * second) g (example_key k) ''ex.'') = ex_sign k" for k
    by (simp add: ex_sign_def fun_eq_iff)
  show ?thesis
    unfolding SignZoneWithKeys_def option.case prod.case example_name bindE_simps signZoneWithKeys_def createDNSKEYRecords_def
      example_model example_groups sign example_signatures example_denial sum.case Let_def
    by (subst example_chain) (simp only: bindE_simps ex_out_def [symmetric] example_back)
qed


theorem signed_zone_denies_witness:
  "\<exists>!x. x \<in> set ex_out \<and> rr_Rrtype x = TypeNSEC \<and> nsec_denies x [''b'', ''ex'']"
proof -
  have k: "rr_Rrtype (kp_DNSKEY (example_key f)) = TypeDNSKEY" "rr_Name (kp_DNSKEY (example_key f)) = z_Name ex_zone" for f
  proof -
    have "z_Name z = n" if "rrsToModel S now zone out ksk zsk n = Inr z" for S :: "unit signing_lib" and now zone out ksk zsk n z
      using that by (auto simp: rrsToModel_def split: option.splits)
    from this [OF example_back] show "rr_Name (kp_DNSKEY (example_key f)) = z_Name ex_zone" by (simp add: example_key_def)
    show "rr_Rrtype (kp_DNSKEY (example_key f)) = TypeDNSKEY" by (simp add: example_key_def)
  qed
  have "z_Name ex_zone = ''ex.''" using k(2) [of 0] by (simp add: example_key_def)
  moreover have "\<not> name_exists (labels_of ''ex.'') (base_rrs ex_out) [''b'', ''ex'']"
    by code_simp
  moreover have "plain_labels [''b'', ''ex'']" "\<not> so_NSEC3Enabled example_options" by code_simp+
  ultimately show ?thesis
    using signed_zone_denies [OF example_names_ok example_zone_valid example_run k(1) k(1) k(2) k(2)] by simp
qed

lemma caa_type_at:
  assumes "modelToRRs zone name = Inr rrs" "r \<in> set (z_Records zone)" "r_Type r = RecordTypeCAA"
  shows "\<exists>x \<in> set rrs. rr_Rrtype x = TypeCAA \<and> rr_Rrtype x \<noteq> TypeNSEC3 \<and> rr_Name x = NormalizeRecordOwnerName (r_Name r) name"
proof -
  obtain xs where xs: "rrs = soa_rr name (z_SOA zone) # xs" "list_all2 (\<lambda>r x. recordToRR name r = Inr x) (z_Records zone) xs"
    using modelToRRs_parts [OF assms(1)] .
  obtain x where x: "x \<in> set xs" "recordToRR name r = Inr x" using list_all2_left [OF xs(2) assms(2)] by blast
  have "rr_Rrtype x = TypeCAA"
    using x(2) assms(3) by (auto simp: recordToRR_def RecordType_defs Let_def split: if_splits option.splits list.splits)
  then show ?thesis using x xs(1) recordToRR_parts(2) [OF x(2)] by (intro bexI [of _ x]) (auto simp: rr_type_defs)
qed



definition caa_zone :: Zone where
  "caa_zone = example_zone\<lparr>z_Records := example_record ''@'' ''CAA'' ''0 issue ca.ex'' # z_Records example_zone\<rparr>"

definition strict_lib :: "unit signing_lib" where
  "strict_lib = example_lib\<lparr>sl_Sign := (\<lambda>_ t g. if list_ex (\<lambda>x. \<not> sorted_wrt (<) (nsec3_bitmap x)) g
     then Inl ''nsec bits out of order'' else Inr t)\<rparr>"

lemma runes_ascii: "is_ascii s \<Longrightarrow> runes s = map (\<lambda>c. (byte c, 1)) s"
  by (induction s) (simp_all add: is_ascii_def runes.simps [of "_ # _"])

lemma example_caa: "ParseCAAValue ''0 issue ca.ex'' = Inr \<lparr>caa_Flags = 0, caa_Tag = ''issue'', caa_Value = ''ca.ex''\<rparr>"
proof -
  have f: "TrimSpace ''0 issue ca.ex'' = ''0 issue ca.ex''" "Fields ''0 issue ca.ex'' = [''0'', ''issue'', ''ca.ex'']" "Atoi ''0'' = Some 0"
      "matches caaTagRegex ''issue''" "TrimSpace (TrimPrefix ''0 issue ca.ex'' ''0'') = ''issue ca.ex''"
      "TrimSpace (TrimPrefix ''issue ca.ex'' ''issue'') = ''ca.ex''" "is_ascii ''ca.ex''"
      "\<not> list_ex (unsafeTXTControlCharacter \<circ> fst) (map (\<lambda>c. (byte c, 1 :: nat)) ''ca.ex'')" "\<not> Contains ''ca.ex'' [CHR 0x22]"
      "\<not> HasPrefix ''ca.ex'' [CHR 0x22]" "\<not> HasSuffix ''ca.ex'' [CHR 0x22]"
    by code_simp+
  have "parseCAAStringValue ''ca.ex'' = Inr ''ca.ex''" 
    unfolding parseCAAStringValue_def using f(8-11) ValidString_ascii [OF f(7)] runes_ascii [OF f(7)] by simp
  then show ?thesis unfolding ParseCAAValue_def Let_def f(1,2) using f(3-6) by simp
qed

lemma caa_zone_valid: "ValidateZone (Some caa_zone) = None"
proof -
  let ?r = "example_record ''@'' ''CAA'' ''0 issue ca.ex''"
  have "ValidateRecordSetConstraints (Some caa_zone) = None" by code_simp
  moreover have "ValidateRecord ?r = None"
    using example_caa by (simp add: ValidateRecord_def example_record_def ValidateRecordName_def IsValidRecordType_def SupportedRecordTypes_def
        ValidateRecordValue_def ValidateCAAValue_def ValidateRecordPriority_def recordPriorityFromValue_def RecordType_defs errOf_def)
  moreover have "ValidateRecordNameInZone (r_Name ?r) ''ex.'' = None" "ValidateRecordValueInZone (r_Type ?r) (r_Value ?r) ''ex.'' = None"
    by (simp_all add: example_record_def ValidateRecordNameInZone_def ValidateRecordName_def ValidateRecordValueInZone_def RecordType_defs)
  moreover have "z_Name example_zone = ''ex.''" by (simp add: example_zone_def)
  ultimately show ?thesis using example_zone_valid unfolding ValidateZone_iff by (auto simp: caa_zone_def)
qed


end
