(* ===== verification/Service_Laws.thy ===== *)
theory Service_Laws
  imports Service_Facts SQLite_Store Signing_Laws
begin

section \<open>What the signing service guarantees\<close>

text \<open>
  The locale \<open>signing_store\<close> interpreted on the in-memory and the SQLite backends, and the properties of the service: what is published after a
  re-signing, that a failed one does no harm, that reading changes nothing and returns the current file, that locks exclude each other, and
  that a write which is given up leaves nothing behind.
\<close>

subsection \<open>The service on the stores\<close>

definition memory_service :: "(MemoryBackend, 'k) SigningService \<Rightarrow> (MemoryBackend, 'k) SigningService" where
  "memory_service sv = sv\<lparr>ss_GetZone := mem_GetZone, ss_UpdateZone := mem_UpdateZone, ss_UpdateDNSSECMetadata := Some mem_UpdateDNSSECMetadata\<rparr>"

definition sqlite_service :: "(string \<Rightarrow> string) \<Rightarrow> (db, 'k) SigningService \<Rightarrow> (db, 'k) SigningService" where
  "sqlite_service sha sv = sv\<lparr>ss_GetZone := sql_GetZone, ss_UpdateZone := sql_UpdateZone sha, ss_UpdateDNSSECMetadata := Some sql_UpdateDNSSECMetadata\<rparr>"

interpretation msv: signing_store mem_GetZone mem_CreateZone mem_UpdateZone mem_DeleteZoneWithVersion mem_contents mem_inv "memory_service sv" for sv
  by unfold_locales (simp_all add: memory_service_def)

interpretation qsv: signing_store sql_GetZone "sql_CreateZone sha" "sql_UpdateZone sha" sql_DeleteZoneWithVersion sql_contents sql_inv
  "sqlite_service sha sv" for sha sv
  by unfold_locales (simp_all add: sqlite_service_def)

lemma service_fields [simp]:
  "ss_artifactDir (memory_service sv) = ss_artifactDir sv" "ss_sha256hex (memory_service sv) = ss_sha256hex sv"
  "ss_artifactDir (sqlite_service sha sq) = ss_artifactDir sq" "ss_sha256hex (sqlite_service sha sq) = ss_sha256hex sq"
  by (simp_all add: memory_service_def sqlite_service_def)

subsection \<open>A stored zone can always be written again\<close>

definition with_priority :: "Record \<Rightarrow> Record" where
  "with_priority r = (case recordPriorityFromValue (r_Type r) (r_Value r) of Inr p \<Rightarrow> r\<lparr>r_Priority := p\<rparr> | Inl _ \<Rightarrow> r)"

lemma with_priority_simps [simp]:
  "r_Name (with_priority r) = r_Name r" "r_Type (with_priority r) = r_Type r" "r_TTL (with_priority r) = r_TTL r" "r_Value (with_priority r) = r_Value r"
  by (simp_all add: with_priority_def split: sum.split)

lemma normalized_record:
  assumes "ValidateRecord r = None"
  shows "normalizeRecordDerivedFields True r = Inr (with_priority r)" "ValidateRecord (with_priority r) = None"
proof -
  have p: "ValidateRecordPriority r = None" using assms by (simp add: ValidateRecord_def)
  then show "normalizeRecordDerivedFields True r = Inr (with_priority r)"
    by (auto simp: ValidateRecordPriority_def normalizeRecordDerivedFields_def with_priority_def bindE_def split: sum.splits option.splits if_splits)
  have "ValidateRecordPriority (with_priority r) = None"
    using p by (auto simp: ValidateRecordPriority_def with_priority_def split: sum.splits option.splits if_splits)
  then show "ValidateRecord (with_priority r) = None" using assms by (simp add: ValidateRecord_def)
qed

lemma normalized_records: "\<forall>r \<in> set rs. ValidateRecord r = None \<Longrightarrow> normalize_records True i rs = Inr (map with_priority rs)"
  by (induction rs arbitrary: i) (simp_all add: normalized_record(1))

lemma valid_zone_written:
  assumes "ValidateZone (Some z) = None"
  shows "validateZoneForWrite (Some z) = Inr (z\<lparr>z_Records := map with_priority (z_Records z)\<rparr>)"
proof -
  let ?z = "z\<lparr>z_Records := map with_priority (z_Records z)\<rparr>" and ?n = "NormalizeZoneName (z_Name z)"
  have v: "\<forall>r \<in> set (z_Records z). ValidateRecord r = None" using assms by (simp add: ValidateZone_iff)
  have "rec_owner ?n (with_priority r) = rec_owner ?n r \<and> r_Type (with_priority r) = r_Type r \<and> r_TTL (with_priority r) = r_TTL r
      \<and> dup_key ?n (with_priority r) = dup_key ?n r" for r
    by (simp add: dup_key_def canonicalRecordDuplicateKey_def)
  note c = record_set_map [where rs = "z_Records z" and z = ?n and g = with_priority, OF this]
  have "ValidateRecordSetConstraints (Some ?z) = None \<longleftrightarrow> ValidateRecordSetConstraints (Some z) = None"
    by (simp add: ValidateRecordSetConstraints_iff Let_def c)
  then have "ValidateZone (Some ?z) = None" using assms v normalized_record(2) by (auto simp: ValidateZone_iff)
  then show ?thesis using normalized_records [OF v] by (simp add: validateZoneForWrite_def NormalizeZoneDerivedFields_def okE_def)
qed

lemma serial_not_validated: "ValidateZone (Some (z\<lparr>z_SOA := (z_SOA z)\<lparr>soa_Serial := s\<rparr>\<rparr>)) = ValidateZone (Some z)"
  by (simp add: ValidateZone_def ValidateSOAInZone_def ValidateSOA_def ValidateRecordSetConstraints_def)

lemma resigned_zone_accepted:
  assumes "mem_inv m" "mem_contents m (NormalizeZoneName n) = Some old" "v \<noteq> []" "v \<noteq> z_Version old"
  shows "\<exists>r m'. mem_UpdateZone e ((resigned_zone g v old)\<lparr>z_DNSSEC := dn\<rparr>) (z_Version old) m = (Inr r, m')"
proof -
  let ?z = "(resigned_zone g v old)\<lparr>z_DNSSEC := dn\<rparr>"
  have old: "z_Name old = NormalizeZoneName n" "ValidateZone (Some old) = None" "map_of (m_zones m) (NormalizeZoneName n) = Some old"
    using mem.stored_law [OF assms(1,2)] assms(2) by (simp_all add: mem_contents_def)
  obtain s where f: "mem_update_fields e old ?z = Inr (?z\<lparr>z_Name := NormalizeZoneName (z_Name ?z), z_SOA := (z_SOA ?z)\<lparr>soa_Serial := s\<rparr>,
      z_UpdatedAt := e_now e, z_CreatedAt := z_CreatedAt old\<rparr>)" (is "_ = Inr ?w")
    using assms(3,4) by (simp add: mem_update_fields_def Let_def)
  have "ValidateZone (Some ?w) = ValidateZone (Some (old\<lparr>z_SOA := (z_SOA old)\<lparr>soa_Serial := s\<rparr>\<rparr>))"
    by (rule ValidateZone_cong) (simp_all add: old(1) NormalizeZoneName_idem resigned_zone_def Let_def)
  then have "ValidateZone (Some ?w) = None" using old(2) by (simp only: serial_not_validated)
  from valid_zone_written [OF this] f show ?thesis
    using old by (simp add: mem_UpdateZone_def NormalizeZoneName_idem Let_def split: prod.split)
qed

lemma store_artifact_ok:
  assumes "fs_faults s = []" "fs_dir s \<in> {DirMissing, DirPresent}"
    and "temp_name (map fst (fs_files s)) (''.'' @ artifact_file v @ ''.'') ''.tmp'' (fs_rand s) = Some (t, rs)"
  shows "\<exists>s'. storeArtifact v c s = (Inr (), s')"
  using assms
  by (auto simp: storeArtifact_def ensureArtifactZoneDirectory_def ensureArtifactDirectory_def make_artifact_directory_def cache_directory_check_def
        validateExistingArtifactDirectory_def writeTempFileSync_def syncDir_def os_MkdirAll_def os_CreateTemp_def file_Chmod_def file_Write_def os_Rename_def
        syscall_def wrap_def attempt_def bindIO_def ret_def throw_def AList.update_conv')

lemma resign_progress:
  assumes "ss_artifactDir sv \<noteq> []" "mem_inv (sv_store st)" "mem_GetZone (sv_store st) n = Inr old" "dnssec_enabled old"
    and "\<not> g_ended e" "NormalizeZoneName n \<notin> sv_locks st" "g_version e = Some v" "v \<noteq> []" "v \<noteq> z_Version old"
    and "SignZone (memory_service sv) e (resigned_zone e v old) = Inr a"
    and "fs_faults (sv_dirs st (zdir sv (NormalizeZoneName n))) = []" "fs_dir (sv_dirs st (zdir sv (NormalizeZoneName n))) \<in> {DirMissing, DirPresent}"
    and "temp_name (map fst (fs_files (sv_dirs st (zdir sv (NormalizeZoneName n))))) (''.'' @ artifact_file v @ ''.'') ''.tmp''
      (fs_rand (sv_dirs st (zdir sv (NormalizeZoneName n)))) \<noteq> None"
  shows "\<exists>st'. ResignZone (memory_service sv) e n st = (Inr (), st')"
proof -
  let ?S = "memory_service sv" and ?k = "NormalizeZoneName n" and ?z = "resigned_zone e v old"
  let ?st = "st\<lparr>sv_locks := insert ?k (sv_locks st)\<rparr>"
  have c: "mem_contents (sv_store st) ?k = Some old" using assms(2,3) by (simp add: mem.get_Inr_iff)
  then have k: "z_Name old = ?k" using mem.stored_law [OF assms(2)] by blast
  note f = SignZone_fields [OF assms(10), simplified]
  obtain s where s: "storeArtifact v (sa_SignedZone a) (sv_dirs st (zdir sv ?k)) = (Inr (), s)"
    using store_artifact_ok [OF assms(11,12)] assms(13) by fastforce
  obtain st1 where st1: "storeSignedZoneArtifact ?S a ?st = (Inr (), st1)" "sv_store st1 = sv_store st"
    using s f k assms(1) by (auto simp: storeSignedZoneArtifact_def on_dir_def Let_def)
  obtain r m' where u: "mem_UpdateZone (g_store e) (?z\<lparr>z_DNSSEC := cloneDNSSECConfig (sa_DNSSEC a)\<rparr>) (z_Version old) (sv_store st1) = (Inr r, m')"
    using resigned_zone_accepted [OF assms(2) c assms(8,9)] st1(2) by metis
  have p: "publish_resigned ?S e ?z (z_Version old) a ?st = (Inr a, completeSignedZoneWrite ?S a (st1\<lparr>sv_store := m'\<rparr>))"
    using publish_resigned_unfold [OF st1(1), of e ?z "z_Version old"] u by (simp add: msv.writes)
  have "mem_GetZone (sv_store ?st) n = Inr old" using assms(3) by simp
  then show ?thesis using p assms(4-7,10)
    by (simp add: ResignZone_def with_zone_lock_def sbind_def acquireZoneLock_def store_read_def resignAndStoreZoneLocked_def Let_def msv.reads)
qed

subsection \<open>Properties\<close>


text \<open>
  C14: A signed zone can be signed again whenever its lock is free and no file operation fails: if signing succeeds, the store accepts the re-signed
  zone, and the call succeeds.
\<close>

theorem resign_succeeds:
  assumes "ss_artifactDir sv \<noteq> []" "mem_inv (sv_store st)" "mem_GetZone (sv_store st) n = Inr old" "dnssec_enabled old"
    and "\<not> g_ended e" "NormalizeZoneName n \<notin> sv_locks st" "g_version e = Some v" "v \<noteq> []" "v \<noteq> z_Version old"
    and "SignZone (memory_service sv) e (resigned_zone e v old) = Inr a"
    and "fs_faults (sv_dirs st (zdir sv (NormalizeZoneName n))) = []" "fs_dir (sv_dirs st (zdir sv (NormalizeZoneName n))) \<in> {DirMissing, DirPresent}"
    and "temp_name (map fst (fs_files (sv_dirs st (zdir sv (NormalizeZoneName n))))) (''.'' @ artifact_file v @ ''.'') ''.tmp''
      (fs_rand (sv_dirs st (zdir sv (NormalizeZoneName n)))) \<noteq> None"
  shows "\<exists>st'. ResignZone (memory_service sv) e n st = (Inr (), st')"
  using assms by (rule resign_progress)


text \<open>
  C16: Whatever calls clients make, and whichever of them fail, the signing service holds the lock of a zone exactly while one prepared
  write of that zone is open, no two writes of a zone are open at the same time, and no lock is ever released twice.
\<close>

theorem signing_locks_exclusive:
  assumes "(service_step sv)\<^sup>*\<^sup>* ([], st) (ws, st')" "sv_locks st = {}" "\<not> sv_panicked st"
  shows "\<not> sv_panicked st' \<and> sv_locks st' = sw_lock ` {w \<in> set ws. \<not> sw_done w} \<and> distinct (map sw_lock (filter (\<lambda>w. \<not> sw_done w) ws))"
  using locks_ok_reachable [OF assms(1)] assms(2,3) by (simp add: locks_ok_def)

lemma loaded_artifact:
  assumes "cache m (sv_dirs st (zdir sv (z_Name z)))" "loadCachedSignedZoneArtifact sv z st = (r, st')"
  shows "arts (sv_dirs st' d) = arts (sv_dirs st d)"
    and "r = Inr a \<Longrightarrow> sa_ZoneName a = z_Name z \<and> sa_Version a = z_Version z \<and> sa_Serial a = soa_Serial (z_SOA z)
      \<and> (\<exists>p ti. arts (sv_dirs st (zdir sv (z_Name z))) (artifact_file (z_Version z)) = Some (Regular (sa_SignedZone a) p ti))
      \<and> signedArtifactFromCache sv z (sa_SignedZone a) = Inr a"
proof -
  have fields: "sa_ZoneName a = z_Name z \<and> sa_Version a = z_Version z \<and> sa_Serial a = soa_Serial (z_SOA z) \<and> sa_SignedZone a = x"
    if "signedArtifactFromCache sv z x = Inr a" for x a
    using that by (auto simp: signedArtifactFromCache_def Let_def split: sum.splits if_splits)
  have m: "arts (sv_dirs st (zdir sv (z_Name z))) = m" using assms(1) by (simp add: cache_def)
  have "arts (sv_dirs st' (zdir sv (z_Name z))) = m \<and> (\<forall>a. r = Inr a \<longrightarrow> sa_ZoneName a = z_Name z \<and> sa_Version a = z_Version z
      \<and> sa_Serial a = soa_Serial (z_SOA z) \<and> (\<exists>p ti. m (artifact_file (z_Version z)) = Some (Regular (sa_SignedZone a) p ti))
      \<and> signedArtifactFromCache sv z (sa_SignedZone a) = Inr a)"
  proof (cases "ss_artifactDir sv = [] \<or> z_Version z = []")
    case True
    then show ?thesis using assms(2) m by (auto simp: loadCachedSignedZoneArtifact_def split: if_splits)
  next
    case False
    obtain r1 where r1: "on_dir sv (z_Name z) (loadArtifact (z_Version z)) st = (r1, st')"
        "r = (case r1 of Inl err \<Rightarrow> Inl (SvFiles err) | Inr x \<Rightarrow> signedArtifactFromCache sv z x)"
      using False assms(2) by (auto simp: loadCachedSignedZoneArtifact_def split: prod.splits sum.splits)
    show ?thesis using on_dir_ensures [OF load_triple assms(1) r1(1)] r1(2) fields
      by (cases r1) (auto simp: cache_def)
  qed
  then show "arts (sv_dirs st' d) = arts (sv_dirs st d)"
    "r = Inr a \<Longrightarrow> sa_ZoneName a = z_Name z \<and> sa_Version a = z_Version z \<and> sa_Serial a = soa_Serial (z_SOA z)
      \<and> (\<exists>p ti. arts (sv_dirs st (zdir sv (z_Name z))) (artifact_file (z_Version z)) = Some (Regular (sa_SignedZone a) p ti))
      \<and> signedArtifactFromCache sv z (sa_SignedZone a) = Inr a"
    using m only_dirD(4) [OF only_dir_files(4) [OF assms(2)], of d] by (cases "d = zdir sv (z_Name z)", auto)
qed

text \<open>
  C17: Reading the published zone changes neither the store nor any signed file nor a lock. What a reader gets is the signed file of the current
  version of the zone, byte for byte as it is in the cache, with the serial of the zone, and its earliest signature has not expired.
\<close>

theorem published_zone_current:
  assumes "\<forall>d. \<exists>m. cache m (sv_dirs st d)" "GetPublishedSignedZone sv e n st = (r, st')"
  shows "sv_store st' = sv_store st \<and> sv_locks st' = sv_locks st \<and> (\<forall>d. arts (sv_dirs st' d) = arts (sv_dirs st d))
    \<and> (\<forall>a. r = Inr a \<longrightarrow> (\<exists>zone p t. ss_GetZone sv (sv_store st) n = Inr zone \<and> sa_Version a = z_Version zone
        \<and> sa_Serial a = soa_Serial (z_SOA zone)
        \<and> arts (sv_dirs st (zdir sv (z_Name zone))) (artifact_file (z_Version zone)) = Some (Regular (sa_SignedZone a) p t)
        \<and> g_now e < expiration_at a))"
proof (cases "ss_GetZone sv (sv_store st) n")
  case (Inl x)
  then show ?thesis using assms(2) by (auto simp: GetPublishedSignedZone_def sbind_def store_read_def)
next
  case (Inr zone)
  let ?k = "NormalizeZoneName (z_Name zone)"
  let ?st = "st\<lparr>sv_locks := insert ?k (sv_locks st)\<rparr>"
  note locks = keeps_locksD(1) [OF keeps_GetPublishedSignedZone assms(2)]
  show ?thesis
  proof (cases "g_ended e \<or> ?k \<in> sv_locks st")
    case True
    then show ?thesis using assms(2) Inr
      by (auto simp: GetPublishedSignedZone_def sbind_def store_read_def with_zone_lock_def acquireZoneLock_def Let_def)
  next
    case False
    obtain r1 st1 where l: "loadCachedSignedZoneArtifact sv zone ?st = (r1, st1)" by fastforce
    then have r: "st' = Unlock ?k st1" "r = Inr a \<Longrightarrow> r1 = Inr a \<and> cachedArtifactUsable (g_now e) a" for a
      using assms(2) Inr False
      by (auto simp: GetPublishedSignedZone_def sbind_def store_read_def with_zone_lock_def acquireZoneLock_def Let_def split: sum.splits if_splits)
    obtain m where "cache m (sv_dirs ?st (zdir sv (z_Name zone)))" using assms(1) by auto
    note a = loaded_artifact [OF this l]
    have "sv_store st' = sv_store st" "sv_dirs st' = sv_dirs st1" using r(1) only_dirD(1) [OF only_dir_files(4) [OF l]] by (simp_all add: Unlock_def)
    moreover have "\<exists>p t. arts (sv_dirs st (zdir sv (z_Name zone))) (artifact_file (z_Version zone)) = Some (Regular (sa_SignedZone b) p t)
        \<and> sa_Version b = z_Version zone \<and> sa_Serial b = soa_Serial (z_SOA zone) \<and> g_now e < expiration_at b" if "r = Inr b" for b
      using a(2) [of b] r(2) [OF that] by (auto simp: cachedArtifactUsable_def)
    ultimately show ?thesis using a(1) locks Inr by auto
  qed
qed

subsection \<open>Expirations\<close>

definition expirations :: "RR list \<Rightarrow> uint32 list" where
  "expirations rrs = [rs_Expiration d. RR_RRSIG d \<leftarrow> map rr_Data rrs]"

lemma expirations_simps [simp]:
  "expirations [] = []"
  "expirations (x # xs) = (case rr_Data x of RR_RRSIG d \<Rightarrow> rs_Expiration d # expirations xs | _ \<Rightarrow> expirations xs)"
  by (simp_all add: expirations_def split: rdata.split)

lemma earliest_loop_fold: "earliest_loop x rrs = fold (\<lambda>e c. smaller c e) (expirations rrs) x"
  by (induction rrs arbitrary: x) (auto simp: smaller_def split: rdata.split)

lemma signature_times_fold: "snd (signature_times (i, x) rrs) = fold (\<lambda>e c. smaller c e) (expirations rrs) x"
  by (induction rrs arbitrary: i x) (auto split: rdata.split)

lemma metadata_fold: "md_Expiration (fold (metadata_step kt) rrs md) = fold (\<lambda>e c. smaller c e) (expirations rrs) (md_Expiration md)"
  by (induction rrs arbitrary: md) (auto simp: Let_def split: rdata.split)

lemma fold_smaller:
  assumes "0 \<notin> set xs"
  shows "fold (\<lambda>e c. smaller c e) xs x = (if x = 0 then (if xs = [] then 0 else Min (set xs)) else Min (insert x (set xs)))"
  using assms
proof (induction xs arbitrary: x)
  case (Cons e xs)
  have "smaller x e = (if x = 0 then e else min x e)" by (auto simp: smaller_def min_def)
  moreover have "min x e \<noteq> 0" if "x \<noteq> 0" using that Cons.prems by (auto simp: min_def)
  moreover have "Min (insert (min x e) (set xs)) = min x (Min (insert e (set xs)))"
    by (cases "xs = []") (simp_all add: min.assoc)
  ultimately show ?case using Cons by auto
qed simp

text \<open>
  The three computations of the earliest expiration agree: the one that is stored with the zone, the one in the metadata of a
  freshly signed artifact, and the one that is read back from a cached file. If no signature expires at time 0, it is the
  minimum over all signatures, and 0 if there is none.
\<close>

theorem earliest_expiration_agrees:
  "md_Expiration (signingMetadataFromRRs kt rrs c) = earliest_loop 0 rrs
    \<and> snd (signature_times (0, 0) rrs) = earliest_loop 0 rrs
    \<and> (0 \<notin> set (expirations rrs) \<longrightarrow> earliest_loop 0 rrs = (if expirations rrs = [] then 0 else Min (set (expirations rrs))))"
  by (simp add: signingMetadataFromRRs_def Let_def metadata_fold earliest_loop_fold signature_times_fold fold_smaller)

subsection \<open>Large files\<close>

lemma large_not_parsed:
  "DefaultMaxZoneFileSize < int (length d) \<Longrightarrow> isl (signedArtifactFromCache sv z d)"
  by (auto simp: signedArtifactFromCache_def ParseBINDZone_def readZoneFile_def DefaultParseOptions_def DefaultMaxZoneFileSize_def Let_def bindE_def)


subsection \<open>Signed writes\<close>

lemma remove_artifact_ok:
  assumes "fs_faults s = []" "fs_dir s = DirPresent"
  shows "\<not> isl (fst (removeSignedZoneArtifact v s))"
proof -
  have c: "syscall s = (Inr (), s)" using assms(1) by (simp add: syscall_def)
  show ?thesis using assms(2)
    by (simp add: removeSignedZoneArtifact_def validateArtifactZoneDirectoryIfExists_def cache_directory_check_def validateExistingArtifactDirectory_def
        os_Remove_def wrap_def attempt_def bindIO_def ret_def throw_def c split: option.split)
qed

lemma discard_present:
  assumes "cache m (sv_dirs st (zdir sv (sa_ZoneName a)))" "ss_artifactDir sv \<noteq> []"
    and "fs_faults (sv_dirs st (zdir sv (sa_ZoneName a))) = []" "fs_dir (sv_dirs st (zdir sv (sa_ZoneName a))) = DirPresent"
  shows "arts (sv_dirs (discard_artifact sv a st) (zdir sv (sa_ZoneName a))) (artifact_file (sa_Version a)) = None"
proof -
  let ?n = "sa_ZoneName a"
  obtain r st' where r: "on_dir sv ?n (removeSignedZoneArtifact (sa_Version a)) st = (r, st')" by fastforce
  then have "\<not> isl r" using remove_artifact_ok [OF assms(3,4), of "sa_Version a"] by (auto simp: on_dir_def Let_def split: prod.splits)
  then have "cache (m(artifact_file (sa_Version a) := None)) (sv_dirs st' (zdir sv ?n))"
    using on_dir_ensures [OF remove_triple assms(1) r] by (cases r) auto
  moreover have "discard_artifact sv a st = st'" using r assms(2) by (simp add: discard_artifact_def)
  ultimately show ?thesis by (simp add: cache_def)
qed

lemma only_dir_log: "only_dir d st st' \<Longrightarrow> sv_log st' = sv_log st"
  by (auto simp: only_dir_def)

text \<open>
  C18: A signed write that is given up leaves no trace but possibly its own file: preparing, storing and aborting it changes neither the store nor
  the audit log, no file of another version or zone, and releases the lock. If the file was written and removing it meets no fault, it is gone.
\<close>

theorem aborted_write_undone:
  assumes "ss_artifactDir sv \<noteq> []" "PrepareSignedZoneWrite sv e z st = (Inr (w, z'), st1)"
    and "cache m (sv_dirs st (zdir sv (z_Name z)))" "write_Store sv w st1 = (r, w1, st2)" "write_Abort sv w1 st2 = (r', w2, st3)"
  defines "d \<equiv> zdir sv (z_Name z)"
  shows "sv_store st3 = sv_store st \<and> sv_log st3 = sv_log st \<and> sv_locks st3 = sv_locks st \<and> sv_panicked st3 = sv_panicked st
    \<and> (\<forall>d'. d' \<noteq> d \<longrightarrow> sv_dirs st3 d' = sv_dirs st d')
    \<and> (\<forall>f. f \<noteq> artifact_file (z_Version z) \<longrightarrow> arts (sv_dirs st3 d) f = arts (sv_dirs st d) f)
    \<and> (r = None \<and> fs_faults (sv_dirs st2 d) = [] \<longrightarrow> arts (sv_dirs st3 d) (artifact_file (z_Version z)) = None)"
proof -
  let ?k = "NormalizeZoneName (z_Name z)"
  obtain a where a: "SignZone sv e z = Inr a" "?k \<notin> sv_locks st" "st1 = st\<lparr>sv_locks := insert ?k (sv_locks st)\<rparr>" "sw_artifact w = a" "sw_lock w = ?k"
      "\<not> sw_done w" "\<not> sw_stored w" "\<not> sw_committed w"
    using assms(2) by (auto simp: PrepareSignedZoneWrite_def sbind_def acquireZoneLock_def Let_def split: if_splits sum.splits)
  note f = SignZone_fields [OF a(1)]
  obtain r0 where s: "storeSignedZoneArtifact sv a st1 = (r0, st2)" "w1 = (if isl r0 then w else w\<lparr>sw_stored := True\<rparr>)" "r = None \<longleftrightarrow> \<not> isl r0"
    using assms(4) a(4,7) by (auto simp: write_Store_def split: prod.splits sum.splits)
  note o = only_dir_files(1) [OF s(1)]
  have st3: "st3 = Unlock ?k (if isl r0 then st2 else discard_artifact sv a st2)"
    using assms(5) a s(2) by (auto simp: write_Abort_def)
  have l: "sv_locks st2 = insert ?k (sv_locks st)" using only_dirD(2) [OF o] a(3) by simp
  have d: "zdir sv (sa_ZoneName a) = d" using f by (simp add: d_def)
  have c: "cache m (sv_dirs st1 (zdir sv (sa_ZoneName a)))" using assms(3) a(3) d by (simp add: d_def)
  note kept = stored_artifact [OF c assms(1) s(1)]
  have m: "arts (sv_dirs st d) = m" using assms(3) by (simp add: cache_def d_def)
  have dirs: "sv_dirs st3 = sv_dirs (if isl r0 then st2 else discard_artifact sv a st2)" using st3 by (simp add: Unlock_def)
  have base: "sv_store st3 = sv_store st \<and> sv_log st3 = sv_log st \<and> sv_locks st3 = sv_locks st \<and> sv_panicked st3 = sv_panicked st"
    using st3 l a(2,3) only_dirD(1,3) [OF o] only_dir_log [OF o] only_dir_log [OF only_dir_files(2) [of sv a st2]] by (auto simp: Unlock_def)
  have others: "sv_dirs st3 d' = sv_dirs st d'" if "d' \<noteq> d" for d'
    using that dirs a(3) only_dirD(4) [OF o, of d'] only_dirD(4) [OF only_dir_files(2) [of sv a st2], of d'] d by auto
  show ?thesis
  proof (cases r0)
    case (Inl x)
    then have "arts (sv_dirs st3 d) g = m g" if "g \<noteq> artifact_file (z_Version z)" for g
      using kept that d f(2) dirs by (auto simp: cache_def added_def)
    then show ?thesis using base others m s(3) Inl by auto
  next
    case (Inr x)
    have s3: "sv_dirs st3 = sv_dirs (discard_artifact sv a st2)" using dirs Inr by simp
    obtain ti where c2: "cache (m(artifact_file (z_Version z) \<mapsto> Regular (sa_SignedZone a) 420 ti)) (sv_dirs st2 (zdir sv (sa_ZoneName a)))"
        "fs_dir (sv_dirs st2 (zdir sv (sa_ZoneName a))) = DirPresent"
      using kept Inr f(2) by (auto simp: added_def)
    have "arts (sv_dirs st3 d) g = m g" if "g \<noteq> artifact_file (z_Version z)" for g
      using discarded_artifact [OF c2(1) assms(1)] that d f(2) s3 by (auto simp: cache_def)
    moreover have "fs_faults (sv_dirs st2 d) = [] \<Longrightarrow> arts (sv_dirs st3 d) (artifact_file (z_Version z)) = None"
      using discard_present [OF c2(1) assms(1) _ c2(2)] d f(2) s3 by simp
    ultimately show ?thesis using base others m by simp
  qed
qed

subsection \<open>An example\<close>

definition example_files :: "(string \<times> node) list \<Rightarrow> fs" where
  "example_files files = \<lparr>fs_files = files, fs_dir = DirPresent, fs_free = 0, fs_clock = 1, fs_rand = [0], fs_faults = []\<rparr>"

definition example_parsed :: RR where
  "example_parsed = rr ''ex.'' TypeRRSIG 60 (RR_RRSIG \<lparr>rs_TypeCovered = TypeSOA, rs_Algorithm = 13, rs_Labels = 1, rs_OrigTtl = 60,
     rs_Expiration = 2000000000, rs_Inception = 1, rs_KeyTag = 7, rs_SignerName = ''ex.'', rs_Signature = ''s''\<rparr>)"

definition example_text :: dns_text where
  "example_text = \<lparr>dt_String = rr_Name, dt_parse = (\<lambda>_ _ _ _. ([example_parsed], None))\<rparr>"

definition example_on ::
  "('s \<Rightarrow> string \<Rightarrow> store_error + Zone) \<Rightarrow> (env \<Rightarrow> Zone \<Rightarrow> string \<Rightarrow> 's \<Rightarrow> (store_error + Zone) \<times> 's) \<Rightarrow> ('s, unit) SigningService" where
  "example_on get update = \<lparr>ss_GetZone = get, ss_UpdateZone = update, ss_UpdateDNSSECMetadata = None,
     ss_EnsureZoneKeys = (\<lambda>_. Inr (example_key 257, example_key 256)), ss_RemoveZoneKeys = None, ss_ToDS = (\<lambda>_ _. None),
     ss_names = example_names, ss_text = example_text, ss_lib = example_lib, ss_sha256hex = (\<lambda>_. []), ss_artifactDir = ''cache'',
     ss_maxArtifacts = 1, ss_options = example_options\<rparr>"

definition example_service :: "(MemoryBackend, unit) SigningService" where
  "example_service = memory_service (example_on mem_GetZone mem_UpdateZone)"

definition example_signed :: Zone where
  "example_signed = example_zone\<lparr>z_SOA := example_soa\<lparr>soa_Serial := 2024010100\<rparr>, z_DNSSEC := Some
     \<lparr>d_Enabled = True, d_Algorithm = 13, d_KSKKeyTag = 7, d_ZSKKeyTag = 7, d_NSEC3Enabled = False, d_NSEC3Iterations = 0, d_NSEC3Salt = [],
      d_SignatureExpiration = None\<rparr>\<rparr>"

definition example_with :: "'s \<Rightarrow> (string \<times> node) list \<Rightarrow> 's service_state" where
  "example_with s files = \<lparr>sv_store = s, sv_dirs = (\<lambda>_. example_files files), sv_locks = {}, sv_panicked = False, sv_log = []\<rparr>"

definition example_state :: "(string \<times> node) list \<Rightarrow> MemoryBackend service_state" where
  "example_state files = example_with \<lparr>m_zones = [(''ex.'', example_signed)], m_nextID = 0\<rparr> files"

lemma example_with_simps [simp]:
  "sv_store (example_with s files) = s" "sv_dirs (example_with s files) = (\<lambda>_. example_files files)" "sv_locks (example_with s files) = {}"
  "sv_panicked (example_with s files) = False" "sv_log (example_with s files) = []"
  by (simp_all add: example_with_def)

definition example_call :: sign_env where
  "example_call = \<lparr>g_ended = False, g_now = 5 * second, g_date = \<lparr>year = 2024, month = 1, day = 1\<rparr>, g_version = Some ''v2'', g_random = None,
     g_store = example_env ''v2''\<rparr>"

lemma example_resigned: "resigned_zone example_call ''v2'' example_signed = example_signed\<lparr>z_Version := ''v2'', z_SOA := example_soa\<rparr>"
proof -
  have "NextSOASerial (g_date example_call) (soa_Serial (z_SOA example_signed)) = 2024010101" by code_simp
  then show ?thesis by (simp add: resigned_zone_def Let_def example_signed_def example_soa_def)
qed

lemma signed_like_example:
  assumes "z_Name z = ''ex.''" "z_SOA z = example_soa" "z_Records z = z_Records example_zone"
  shows "\<exists>z'. SignZoneWithKeys example_names rr_Name example_lib example_options None (5 * second) (Some z)
     (Some (example_key 257)) (Some (example_key 256)) = Inr (z', ex_out)"
proof -
  have s: "z_SOA example_zone = example_soa" "z_Name example_zone = ''ex.''" by (simp_all add: example_zone_def)
  have 1: "modelToRRs z ''ex.'' = modelToRRs example_zone ''ex.''" using assms s by (simp add: modelToRRs_def)
  have 2: "denial_chain example_names example_options None z ''ex.'' rrs = denial_chain example_names example_options None example_zone ''ex.'' rrs" for rrs
    using assms s by (simp add: denial_chain_def)
  obtain t where "earliestRRSIGExpiration ex_out = Some t" using example_back by (auto simp: rrsToModel_def split: option.splits)
  then have 3: "\<exists>z'. rrsToModel example_lib (5 * second) z ex_out (example_key 257) (example_key 256) ''ex.'' = Inr z'" by (simp add: rrsToModel_def)
  have sign: "(\<lambda>g. signRRset example_names example_lib example_options (5 * second) g (example_key k) ''ex.'') = ex_sign k" for k
    by (simp add: ex_sign_def fun_eq_iff)
  have n: "NormalizeZoneFQDN (z_Name z) = Inr ''ex.''" using example_name assms(1) s by simp
  obtain z' where "rrsToModel example_lib (5 * second) z ex_out (example_key 257) (example_key 256) ''ex.'' = Inr z'" using 3 by blast
  then have "SignZoneWithKeys example_names rr_Name example_lib example_options None (5 * second) (Some z)
     (Some (example_key 257)) (Some (example_key 256)) = Inr (z', ex_out)"
    unfolding SignZoneWithKeys_def option.case prod.case n bindE_simps signZoneWithKeys_def createDNSKEYRecords_def
      1 example_model example_groups sign example_signatures 2 example_denial sum.case Let_def
    by (subst example_chain) (simp only: bindE_simps ex_out_def [symmetric])
  then show ?thesis by blast
qed

lemma example_unsigned:
  "\<not> isl (unsignedRRsFromZone example_text (example_signed\<lparr>z_Version := ''v2'', z_SOA := example_soa\<rparr>))"
  by code_simp

lemma example_signing: "\<exists>a. SignZone example_service example_call (example_signed\<lparr>z_Version := ''v2'', z_SOA := example_soa\<rparr>) = Inr a"
proof -
  let ?z = "example_signed\<lparr>z_Version := ''v2'', z_SOA := example_soa\<rparr>"
  obtain rrs where u: "unsignedRRsFromZone example_text ?z = Inr rrs" using example_unsigned by (cases "unsignedRRsFromZone example_text ?z") auto
  obtain z' where s: "SignZoneWithKeys example_names rr_Name example_lib example_options None (5 * second) (Some ?z)
     (Some (example_key 257)) (Some (example_key 256)) = Inr (z', ex_out)"
    using signed_like_example [of ?z] by (auto simp: example_signed_def example_zone_def)
  have o: "NewZoneSigner example_options = example_options"
    by (simp add: NewZoneSigner_def example_options_def DefaultSignerOptions_def Let_def second_def)
  have "ex_out \<noteq> []" using example_back by (auto simp: rrsToModel_def earliestRRSIGExpiration_def Let_def)
  then have "\<exists>t. GenerateBINDZoneFileFromRRs example_text (z_Name ?z) (z_Version z') ex_out = Inr t" by (simp add: GenerateBINDZoneFileFromRRs_def)
  then show ?thesis using u s o
    by (auto simp: SignZone_def example_service_def memory_service_def example_on_def example_call_def Let_def example_text_def split: prod.split)
qed

lemma example_cache: "cache (art_map files) (example_files files)" if "\<forall>n. age (art_map files n) < 1" "distinct (map fst files)"
  using that by (simp add: cache_def example_files_def)

lemma example_cache_empty: "cache (art_map []) (example_files [])"
  by (rule example_cache) (simp_all add: art_map_def)

lemma example_read: "mem_GetZone (sv_store (example_state files)) ''ex.'' = Inr example_signed"
proof -
  have "NormalizeZoneName ''ex.'' = ''ex.''" by code_simp
  then show ?thesis by (simp add: mem_GetZone_def example_state_def copyZone_def)
qed

lemma example_service_simps [simp]:
  "memory_service example_service = example_service" "ss_artifactDir example_service = ''cache''" "ss_GetZone example_service = mem_GetZone"
  "ss_UpdateZone example_service = mem_UpdateZone" "NormalizeZoneName ''ex.'' = ''ex.''"
  by (simp_all add: memory_service_def example_service_def example_on_def) code_simp

lemma example_inv: "mem_inv (sv_store (example_state files))"
proof -
  have "ValidateZone (Some example_signed) = None" by code_simp
  then show ?thesis by (simp add: mem_inv_def example_state_def stored_ok_def) (simp add: example_signed_def example_zone_def)
qed

lemma example_call_simps [simp]:
  "g_version example_call = Some ''v2''" "g_ended example_call = False" "z_Version example_signed = ''v1''" "dnssec_enabled example_signed"
  by (simp_all add: example_call_def example_signed_def example_zone_def dnssec_enabled_def)

lemma example_temp: "temp_name [] pre suf [0] \<noteq> None"
  by (simp add: Let_def)

lemma example_dir [simp]: "sv_dirs (example_state files) d = example_files files" "sv_locks (example_state files) = {}"
  by (simp_all add: example_state_def)

lemma example_files_simps [simp]:
  "fs_files (example_files files) = files" "fs_dir (example_files files) = DirPresent" "fs_rand (example_files files) = [0]" "fs_faults (example_files files) = []"
  by (simp_all add: example_files_def)

lemma example_resign: "\<exists>st'. ResignZone example_service example_call ''ex.'' (example_state []) = (Inr (), st')"
proof -
  obtain a where "SignZone example_service example_call (resigned_zone example_call ''v2'' example_signed) = Inr a"
    using example_signing example_resigned by auto
  then show ?thesis
    using resign_progress [of example_service "example_state []" "''ex.''" example_signed example_call "''v2''" a] example_inv example_read example_temp
    by simp
qed

theorem resign_succeeds_witness: "\<exists>st'. ResignZone example_service example_call ''ex.'' (example_state []) = (Inr (), st')"
proof -
  obtain a where "SignZone example_service example_call (resigned_zone example_call ''v2'' example_signed) = Inr a"
    using example_signing example_resigned by auto
  then show ?thesis
    using resign_succeeds [of example_service "example_state []" "''ex.''" example_signed example_call "''v2''" a] example_inv example_read example_temp
    by simp
qed



lemma example_prepared:
  "\<exists>w z'. PrepareSignedZoneWrite example_service example_call (example_signed\<lparr>z_Version := ''v2'', z_SOA := example_soa\<rparr>) (example_state []) =
     (Inr (w, z'), (example_state [])\<lparr>sv_locks := {''ex.''}\<rparr>) \<and> sw_lock w = ''ex.'' \<and> \<not> sw_done w"
proof -
  let ?z = "example_signed\<lparr>z_Version := ''v2'', z_SOA := example_soa\<rparr>"
  obtain a where "SignZone example_service example_call ?z = Inr a" using example_signing by auto
  moreover have "z_Name ?z = ''ex.''" "\<not> g_ended example_call" by (simp_all add: example_signed_def example_zone_def example_call_def)
  ultimately show ?thesis by (simp add: PrepareSignedZoneWrite_def sbind_def acquireZoneLock_def Let_def example_state_def)
qed

theorem signing_locks_exclusive_witness:
  "\<exists>w st'. (service_step example_service)\<^sup>*\<^sup>* ([], example_state []) ([w], st') \<and> sv_locks st' = {''ex.''} \<and> \<not> sv_panicked st'"
proof -
  obtain w z' where p: "PrepareSignedZoneWrite example_service example_call (example_signed\<lparr>z_Version := ''v2'', z_SOA := example_soa\<rparr>) (example_state []) =
     (Inr (w, z'), (example_state [])\<lparr>sv_locks := {''ex.''}\<rparr>)" "sw_lock w = ''ex.''" "\<not> sw_done w"
    using example_prepared by blast
  let ?st = "(example_state [])\<lparr>sv_locks := {''ex.''}\<rparr>"
  have path: "(service_step example_service)\<^sup>*\<^sup>* ([], example_state []) ([w], ?st)"
    using st_prepare [OF p(1)] by (rule r_into_rtranclp)
  have "\<not> sv_panicked ?st \<and> sv_locks ?st = sw_lock ` {x \<in> set [w]. \<not> sw_done x}"
    using signing_locks_exclusive [OF path] by (simp add: example_state_def)
  then show ?thesis using path by (intro exI [of _ w] exI [of _ ?st]) simp
qed

theorem aborted_write_undone_witness:
  "\<exists>w st1 st2 st3 r r' w1 w2. write_Store example_service w st1 = (r, w1, st2) \<and> write_Abort example_service w1 st2 = (r', w2, st3)
    \<and> sv_locks st1 = {''ex.''} \<and> sv_locks st3 = {}"
proof -
  let ?z = "example_signed\<lparr>z_Version := ''v2'', z_SOA := example_soa\<rparr>"
  obtain w z' where p: "PrepareSignedZoneWrite example_service example_call ?z (example_state []) =
     (Inr (w, z'), (example_state [])\<lparr>sv_locks := {''ex.''}\<rparr>)" using example_prepared by blast
  obtain r w1 st2 where s: "write_Store example_service w ((example_state [])\<lparr>sv_locks := {''ex.''}\<rparr>) = (r, w1, st2)"
    by (cases "write_Store example_service w ((example_state [])\<lparr>sv_locks := {''ex.''}\<rparr>)")
  obtain r' w2 st3 where b: "write_Abort example_service w1 st2 = (r', w2, st3)" by (cases "write_Abort example_service w1 st2")
  have "cache (art_map []) (sv_dirs (example_state []) (zdir example_service (z_Name ?z)))" using example_cache_empty by (simp add: example_state_def)
  from aborted_write_undone [OF _ p this s b] s b show ?thesis
    by (intro exI [of _ w] exI [of _ "(example_state [])\<lparr>sv_locks := {''ex.''}\<rparr>"] exI [of _ st2] exI [of _ st3] exI [of _ r] exI [of _ r']
        exI [of _ w1] exI [of _ w2]) (simp add: example_state_def)
qed

lemma example_cache_one: "cache (art_map [(f, Regular d 420 0)]) (example_files [(f, Regular d 420 0)])"
  by (rule example_cache) (simp_all add: art_map_def)

theorem published_zone_current_witness:
  "\<exists>a. fst (GetPublishedSignedZone example_service example_call ''ex.'' (example_state [(artifact_file ''v1'', Regular ''x'' 420 0)])) = Inr a
    \<and> sa_SignedZone a = ''x'' \<and> sa_Version a = ''v1''"
proof -
  let ?st = "example_state [(artifact_file ''v1'', Regular ''x'' 420 0)]"
  have z: "z_Name example_signed = ''ex.''" "z_Version example_signed = ''v1''" by (simp_all add: example_signed_def example_zone_def)
  have v: "validateDirectives ''x'' DefaultParseOptions = None" by code_simp
  have "ParseBINDZone example_text ''x'' ''ex.'' DefaultParseOptions = Inr \<lparr>pz_Origin = ''ex.'', pz_DefaultTTL = 60, pz_Records = [example_parsed]\<rparr>"
    using v by (simp add: ParseBINDZone_def readZoneFile_def DefaultParseOptions_def DefaultMaxZoneFileSize_def example_text_def HasSuffix_def Let_def)
      (simp add: example_parsed_def)
  moreover have "ss_text example_service = example_text" by (simp add: example_service_def memory_service_def example_on_def)
  ultimately have a: "case signedArtifactFromCache example_service example_signed ''x'' of Inl _ \<Rightarrow> False | Inr a \<Rightarrow> cachedArtifactUsable (5 * second) a"
    by (simp add: signedArtifactFromCache_def z Let_def signingMetadataFromRRs_def example_parsed_def smaller_def cachedArtifactUsable_def expiration_at_def second_def)
  have "\<exists>a. fst (GetPublishedSignedZone example_service example_call ''ex.'' ?st) = Inr a"
    using msv.published_served [of example_service ?st "''ex.''" example_signed example_call "''x''" 420 0, simplified, OF example_inv example_read] a z
    by (auto simp: example_state_def example_files_def example_call_def art_map_def maxSignedArtifactFileSize_def split: sum.splits)
  then obtain a st' where r: "GetPublishedSignedZone example_service example_call ''ex.'' ?st = (Inr a, st')" by (metis prod.collapse)
  have "\<forall>d. \<exists>m. cache m (sv_dirs ?st d)" using example_cache_one by (auto simp: example_state_def)
  from published_zone_current [OF this r] example_read obtain p t where
      "arts (sv_dirs ?st (zdir example_service ''ex.'')) (artifact_file ''v1'') = Some (Regular (sa_SignedZone a) p t)" "sa_Version a = ''v1''"
    by (auto simp: z)
  then show ?thesis using r by (simp add: example_state_def example_files_def art_map_def)
qed

theorem earliest_expiration_agrees_witness: "earliest_loop 0 [example_parsed] = 2000000000"
  using earliest_expiration_agrees [of "\<lambda>_. 7" "[example_parsed]" None] by (simp add: example_parsed_def)


end
