(* ===== verification/Etcd_Store.thy ===== *)
theory Etcd_Store
  imports Memory_Store Zone_Hash "HOL-Library.Sublist"
begin

section \<open>The etcd backend (pkg/backend/etcd.go)\<close>

text \<open>
  The zones of several controllers in one etcd cluster. The cluster is a parameter: \<open>etcd_client\<close> has the
  requests that the backend sends, on a cluster state of any type, and \<open>etcd_service\<close> is what the etcd
  documentation promises of them (sorted ranges, transactions that are applied at once if their comparisons
  hold, revisions that grow). A request may fail before it takes effect, or its answer may be lost: \<open>outcome\<close>.
  JSON is a parameter too (\<open>zone_codec\<close>); what it writes it reads back, which holds of zones whose strings are UTF-8.

  An operation reads the zone, computes a transaction from what it read, and commits it under the condition that
  the zone has not been written since. The function between read and commit is \<open>create_txn\<close>, \<open>update_txn\<close>,
  \<open>dnssec_txn\<close> or \<open>delete_txn\<close>; the operations put a request before and after it. Operations run alone satisfy the contract
  \<open>ordered_store\<close>, which is interpreted here under the prefix \<open>etc\<close>; how they interleave is the subject of \<open>Etcd_Laws\<close>.
  The mutexes of one controller only remove interleavings and are left out.
\<close>

subsection \<open>The cluster\<close>

record etcd_kv =
  kv_Value :: string
  kv_CreateRevision :: int
  kv_ModRevision :: int

datatype etcd_cmp =
    CreateRevisionIs string int
  | ModRevisionIs string int
  | ValueIs string string

datatype etcd_op =
    PutKey string string
  | DeleteKey string

record 's etcd_client =
  cl_Get :: "string \<Rightarrow> 's \<Rightarrow> etcd_kv option"
  cl_Range :: "string \<Rightarrow> 's \<Rightarrow> (string \<times> etcd_kv) list" \<comment> \<open>the keys with a prefix, in ascending order\<close>
  cl_Txn :: "etcd_cmp list \<Rightarrow> etcd_op list \<Rightarrow> 's \<Rightarrow> 's option" \<comment> \<open>\<open>None\<close>: a comparison fails\<close>
  cl_Delete :: "string \<Rightarrow> 's \<Rightarrow> 's"
  cl_Revision :: "'s \<Rightarrow> int"

datatype outcome = Answered | Rejected | AnswerLost

record net =
  n_get :: outcome
  n_commit :: outcome
  n_check :: outcome

definition healthy :: net where
  "healthy = \<lparr>n_get = Answered, n_commit = Answered, n_check = Answered\<rparr>"

record zone_codec =
  jz_Marshal :: "Zone \<Rightarrow> string option"
  jz_Unmarshal :: "string \<Rightarrow> Zone option"

text \<open>What etcd promises. A missing key has revision 0, and comparing its value fails.\<close>

fun cmp_holds :: "'s etcd_client \<Rightarrow> 's \<Rightarrow> etcd_cmp \<Rightarrow> bool" where
  "cmp_holds c s (CreateRevisionIs k n) =
     ((case cl_Get c k s of None \<Rightarrow> 0 | Some kv \<Rightarrow> kv_CreateRevision kv) = n)"
| "cmp_holds c s (ModRevisionIs k n) =
     ((case cl_Get c k s of None \<Rightarrow> 0 | Some kv \<Rightarrow> kv_ModRevision kv) = n)"
| "cmp_holds c s (ValueIs k v) = (case cl_Get c k s of None \<Rightarrow> False | Some kv \<Rightarrow> kv_Value kv = v)"

fun op_entry :: "etcd_op \<Rightarrow> string \<times> string option" where
  "op_entry (PutKey k v) = (k, Some v)"
| "op_entry (DeleteKey k) = (k, None)"

definition op_keys :: "etcd_op list \<Rightarrow> string list" where
  "op_keys ops = map (fst \<circ> op_entry) ops"

definition applied :: "'s etcd_client \<Rightarrow> etcd_op list \<Rightarrow> 's \<Rightarrow> 's \<Rightarrow> bool" where
  "applied c ops s s' \<longleftrightarrow> cl_Revision c s \<le> cl_Revision c s' \<and>
     (\<forall>k. case map_of (map op_entry ops) k of
        None \<Rightarrow> cl_Get c k s' = cl_Get c k s
      | Some None \<Rightarrow> cl_Get c k s' = None
      | Some (Some v) \<Rightarrow> (\<exists>kv. cl_Get c k s' = Some kv \<and> kv_Value kv = v
          \<and> kv_ModRevision kv = cl_Revision c s' \<and> cl_Revision c s < cl_Revision c s'))"

definition etcd_service :: "'s etcd_client \<Rightarrow> bool" where
  "etcd_service c \<longleftrightarrow>
     (\<forall>s k kv. cl_Get c k s = Some kv \<longrightarrow>
        0 < kv_CreateRevision kv \<and> 0 < kv_ModRevision kv \<and> kv_ModRevision kv \<le> cl_Revision c s)
   \<and> (\<forall>s p. sorted_wrt (<) (map fst (cl_Range c p s))
        \<and> set (cl_Range c p s) = {(k, kv). HasPrefix k p \<and> cl_Get c k s = Some kv})
   \<and> (\<forall>cmps ops s. distinct (op_keys ops) \<longrightarrow>
        (case cl_Txn c cmps ops s of
           None \<Rightarrow> \<not> list_all (cmp_holds c s) cmps
         | Some s' \<Rightarrow> list_all (cmp_holds c s) cmps \<and> applied c ops s s'))
   \<and> (\<forall>k s. applied c [DeleteKey k] s (cl_Delete c k s))"

definition json_codec :: "zone_codec \<Rightarrow> bool" where
  "json_codec j \<longleftrightarrow> (\<forall>z d. jz_Marshal j z = Some d \<longrightarrow> jz_Unmarshal j d = Some z)"

subsection \<open>The backend and its keys\<close>

record 's EtcdBackend =
  eb_client :: "'s etcd_client"
  eb_codec :: zone_codec
  eb_prefix :: string
  eb_timeout :: int
  eb_state :: 's \<comment> \<open>the state of the cluster\<close>

definition defaultEtcdPrefix :: string where "defaultEtcdPrefix = ''/arca-dns''"
definition defaultEtcdTimeout :: int where "defaultEtcdTimeout = 10 * 1000000000"
definition defaultHistoryRetention :: nat where "defaultHistoryRetention = 100"
definition etcdZonesPrefix :: string where "etcdZonesPrefix = ''zones''"
definition etcdVersionsPrefix :: string where "etcdVersionsPrefix = ''versions''"
definition etcdHistoryPrefix :: string where "etcdHistoryPrefix = ''history''"

datatype etcd_setup_error = ErrEndpointRequired | ErrCreateClient | ErrConnect

text \<open>\<open>NewEtcdBackend\<close>: the client (or none), and whether the cluster answers the status request.\<close>

definition NewEtcdBackend ::
  "string list \<Rightarrow> string \<Rightarrow> int \<Rightarrow> 's etcd_client option \<Rightarrow> outcome \<Rightarrow> zone_codec \<Rightarrow> 's \<Rightarrow> etcd_setup_error + 's EtcdBackend" where
  "NewEtcdBackend endpoints prefix0 requestTimeout client status codec s =
     (if endpoints = [] then Inl ErrEndpointRequired
      else
       (let pre = (if prefix0 = [] then defaultEtcdPrefix else prefix0);
            timeout = (if requestTimeout = 0 then defaultEtcdTimeout else requestTimeout)
        in case client of
             None \<Rightarrow> Inl ErrCreateClient
           | Some c \<Rightarrow>
             (if status \<noteq> Answered then Inl ErrConnect
              else Inr \<lparr>eb_client = c, eb_codec = codec, eb_prefix = TrimSuffix pre ''/'',
                        eb_timeout = timeout, eb_state = s\<rparr>)))"

definition zonesPrefix :: "'s EtcdBackend \<Rightarrow> string" where
  "zonesPrefix e = eb_prefix e @ ''/'' @ etcdZonesPrefix @ ''/''"

definition zoneKey :: "'s EtcdBackend \<Rightarrow> string \<Rightarrow> string" where
  "zoneKey e name = eb_prefix e @ ''/'' @ etcdZonesPrefix @ ''/'' @ NormalizeZoneName name"

definition versionKey :: "'s EtcdBackend \<Rightarrow> string \<Rightarrow> string" where
  "versionKey e name = eb_prefix e @ ''/'' @ etcdVersionsPrefix @ ''/'' @ NormalizeZoneName name"

definition versionPrefix :: "'s EtcdBackend \<Rightarrow> string" where
  "versionPrefix e = eb_prefix e @ ''/'' @ etcdVersionsPrefix @ ''/''"

definition historyKey :: "'s EtcdBackend \<Rightarrow> string \<Rightarrow> string \<Rightarrow> string" where
  "historyKey e name version =
     eb_prefix e @ ''/'' @ etcdHistoryPrefix @ ''/'' @ NormalizeZoneName name @ ''/'' @ version"

definition historyPrefixForZone :: "'s EtcdBackend \<Rightarrow> string \<Rightarrow> string" where
  "historyPrefixForZone e name = eb_prefix e @ ''/'' @ etcdHistoryPrefix @ ''/'' @ NormalizeZoneName name @ ''/''"

subsection \<open>Requests\<close>

definition get_key :: "outcome \<Rightarrow> string \<Rightarrow> 's EtcdBackend \<Rightarrow> store_error + etcd_kv option" where
  "get_key out key e = (if out = Answered then Inr (cl_Get (eb_client e) key (eb_state e)) else Inl ErrEtcdRequest)"

definition get_prefix :: "outcome \<Rightarrow> string \<Rightarrow> 's EtcdBackend \<Rightarrow> store_error + (string \<times> etcd_kv) list" where
  "get_prefix out p e = (if out = Answered then Inr (cl_Range (eb_client e) p (eb_state e)) else Inl ErrEtcdRequest)"

text \<open>\<open>txn.Commit()\<close>: whether the comparisons held, or an error; the answer can be lost after the transaction took effect.\<close>

definition commit_txn ::
  "outcome \<Rightarrow> etcd_cmp list \<Rightarrow> etcd_op list \<Rightarrow> 's EtcdBackend \<Rightarrow> (store_error + bool) \<times> 's EtcdBackend" where
  "commit_txn out cmps ops e =
     (if out = Rejected then (Inl ErrEtcdRequest, e)
      else
       (case cl_Txn (eb_client e) cmps ops (eb_state e) of
          None \<Rightarrow> (if out = Answered then Inr False else Inl ErrEtcdRequest, e)
        | Some s \<Rightarrow> (if out = Answered then Inr True else Inl ErrEtcdRequest, e\<lparr>eb_state := s\<rparr>)))"

definition unmarshal_zone :: "'s EtcdBackend \<Rightarrow> etcd_kv \<Rightarrow> store_error + Zone" where
  "unmarshal_zone e kv = (case jz_Unmarshal (eb_codec e) (kv_Value kv) of None \<Rightarrow> Inl ErrUnmarshalZone | Some z \<Rightarrow> Inr z)"

definition marshal_zone :: "'s EtcdBackend \<Rightarrow> Zone \<Rightarrow> store_error + string" where
  "marshal_zone e z = (case jz_Marshal (eb_codec e) z of None \<Rightarrow> Inl ErrMarshalZone | Some d \<Rightarrow> Inr d)"

fun unmarshal_all :: "'s EtcdBackend \<Rightarrow> (string \<times> etcd_kv) list \<Rightarrow> store_error + Zone list" where
  "unmarshal_all e [] = Inr []"
| "unmarshal_all e ((_, kv) # kvs) =
     bindE (unmarshal_zone e kv) (\<lambda>z. bindE (unmarshal_all e kvs) (\<lambda>zs. Inr (z # zs)))"

subsection \<open>Reading\<close>

definition etcd_HealthCheck :: "outcome \<Rightarrow> 's EtcdBackend \<Rightarrow> store_error option" where
  "etcd_HealthCheck out e = (case get_key out (eb_prefix e) e of Inl err \<Rightarrow> Some err | Inr _ \<Rightarrow> None)"

definition etcd_CountZones :: "outcome \<Rightarrow> 's EtcdBackend \<Rightarrow> store_error + nat" where
  "etcd_CountZones out e = bindE (get_prefix out (zonesPrefix e) e) (\<lambda>kvs. Inr (length kvs))"

definition etcd_GetZone :: "outcome \<Rightarrow> 's EtcdBackend \<Rightarrow> string \<Rightarrow> store_error + Zone" where
  "etcd_GetZone out e name =
     bindE (get_key out (zoneKey e name) e)
       (\<lambda>r. case r of None \<Rightarrow> Inl ErrZoneNotFound | Some kv \<Rightarrow> unmarshal_zone e kv)"

text \<open>Offset and limit, as \<open>ListZones\<close> and \<open>ListRevisions\<close> apply them.\<close>

definition etcd_page :: "ListOptions \<Rightarrow> 'a list \<Rightarrow> 'a list" where
  "etcd_page opts xs =
     (let start = (if lo_Offset opts < 0 then 0 else lo_Offset opts) in
      if int (length xs) < start then []
      else if lo_Limit opts \<le> 0 then drop (nat start) xs
      else let end0 = start + lo_Limit opts;
               end1 = (if int (length xs) < end0 then int (length xs) else end0)
           in drop (nat start) (take (nat end1) xs))"

definition etcd_ListZones :: "outcome \<Rightarrow> 's EtcdBackend \<Rightarrow> ListOptions \<Rightarrow> store_error + Zone list" where
  "etcd_ListZones out e opts =
     bindE (get_prefix out (zonesPrefix e) e)
       (\<lambda>kvs. bindE (unmarshal_all e kvs) (\<lambda>zones. Inr (etcd_page opts (sort_key z_Name zones))))"

text \<open>The request for the summaries has a limit of its own.\<close>

definition etcd_ListZoneSummaries :: "outcome \<Rightarrow> 's EtcdBackend \<Rightarrow> ListOptions \<Rightarrow> store_error + ZoneSummary list" where
  "etcd_ListZoneSummaries out e opts =
     (let offset = (if lo_Offset opts < 0 then 0 else lo_Offset opts); pre = versionPrefix e in
      bindE (get_prefix out pre e)
        (\<lambda>all. let kvs = (if 0 < lo_Limit opts then take (nat (offset + lo_Limit opts)) all else all) in
           if int (length kvs) < offset then Inr []
           else
            (let end0 = int (length kvs);
                 end1 = (if 0 < lo_Limit opts \<and> offset + lo_Limit opts < end0 then offset + lo_Limit opts else end0)
             in Inr (map (\<lambda>(k, kv). \<lparr>zs_Name = TrimPrefix k pre, zs_Version = kv_Value kv\<rparr>)
                  (drop (nat offset) (take (nat end1) kvs))))))"

definition etcd_GetCurrentVersion :: "outcome \<Rightarrow> 's EtcdBackend \<Rightarrow> string \<Rightarrow> store_error + string" where
  "etcd_GetCurrentVersion out e zoneName =
     bindE (get_key out (versionKey e (NormalizeZoneName zoneName)) e)
       (\<lambda>r. case r of None \<Rightarrow> Inl ErrZoneNotFound | Some kv \<Rightarrow> Inr (kv_Value kv))"

subsection \<open>Writing\<close>

text \<open>The three keys that a new version of a zone is written to.\<close>

definition zone_puts :: "'s EtcdBackend \<Rightarrow> string \<Rightarrow> string \<Rightarrow> string \<Rightarrow> etcd_op list" where
  "zone_puts e normalized version zoneData =
     [PutKey (zoneKey e normalized) zoneData, PutKey (versionKey e normalized) version,
      PutKey (historyKey e normalized version) zoneData]"

definition create_txn :: "env \<Rightarrow> Zone option \<Rightarrow> 's EtcdBackend \<Rightarrow> store_error + Zone \<times> etcd_cmp list \<times> etcd_op list" where
  "create_txn env zp e =
     bindE (prepareZoneForCreate env NormalizeZoneName zp)
       (\<lambda>w. bindE (marshal_zone e w)
          (\<lambda>zoneData. Inr (w, [CreateRevisionIs (zoneKey e (z_Name w)) 0],
             zone_puts e (z_Name w) (z_Version w) zoneData)))"

definition etcd_CreateZone ::
  "net \<Rightarrow> env \<Rightarrow> Zone option \<Rightarrow> 's EtcdBackend \<Rightarrow> (store_error + Zone) \<times> 's EtcdBackend" where
  "etcd_CreateZone net env zp e =
     (case create_txn env zp e of
        Inl err \<Rightarrow> (Inl err, e)
      | Inr (w, cmps, ops) \<Rightarrow>
        (case commit_txn (n_commit net) cmps ops e of
           (Inl err, e') \<Rightarrow> (Inl err, e')
         | (Inr succeeded, e') \<Rightarrow> (if succeeded then Inr w else Inl ErrZoneAlreadyExists, e')))"

text \<open>The condition that the zone has not been written since, and that its version is the expected one.\<close>

definition unchanged_cmps :: "'s EtcdBackend \<Rightarrow> string \<Rightarrow> int \<Rightarrow> string \<Rightarrow> etcd_cmp list" where
  "unchanged_cmps e normalized modRevision expectedVersion =
     ModRevisionIs (zoneKey e normalized) modRevision
       # (if expectedVersion \<noteq> [] then [ValueIs (versionKey e normalized) expectedVersion] else [])"

text \<open>\<open>UpdateZone\<close> sets the same fields as the in-memory backend does.\<close>

definition update_txn ::
  "env \<Rightarrow> Zone \<Rightarrow> string \<Rightarrow> etcd_kv option \<Rightarrow> 's EtcdBackend \<Rightarrow> store_error + Zone \<times> etcd_cmp list \<times> etcd_op list" where
  "update_txn env zone expectedVersion r e =
     (let normalized = NormalizeZoneName (z_Name zone) in
      case r of
        None \<Rightarrow> Inl ErrZoneNotFound
      | Some kv \<Rightarrow>
        bindE (unmarshal_zone e kv)
          (\<lambda>currentZone.
             if expectedVersion \<noteq> [] \<and> z_Version currentZone \<noteq> expectedVersion then Inl ErrConflict
             else bindE (mem_update_fields env currentZone zone)
               (\<lambda>z1. bindE (validateZoneForWrite (Some z1))
                  (\<lambda>w. bindE (marshal_zone e w)
                     (\<lambda>zoneData. Inr (w, unchanged_cmps e normalized (kv_ModRevision kv) expectedVersion,
                        zone_puts e normalized (z_Version w) zoneData))))))"

definition etcd_UpdateZone ::
  "net \<Rightarrow> env \<Rightarrow> Zone \<Rightarrow> string \<Rightarrow> 's EtcdBackend \<Rightarrow> (store_error + Zone) \<times> 's EtcdBackend" where
  "etcd_UpdateZone net env zone expectedVersion e =
     (case bindE (get_key (n_get net) (zoneKey e (NormalizeZoneName (z_Name zone))) e)
             (\<lambda>r. update_txn env zone expectedVersion r e) of
        Inl err \<Rightarrow> (Inl err, e)
      | Inr (w, cmps, ops) \<Rightarrow>
        (case commit_txn (n_commit net) cmps ops e of
           (Inl err, e') \<Rightarrow> (Inl err, e')
         | (Inr succeeded, e') \<Rightarrow> (if succeeded then Inr w else Inl ErrConflict, e')))"

text \<open>After a failed comparison: has the zone been removed or changed?\<close>

definition gone_or_conflict :: "outcome \<Rightarrow> string \<Rightarrow> 's EtcdBackend \<Rightarrow> store_error" where
  "gone_or_conflict out key e =
     (case get_key out key e of
        Inl err \<Rightarrow> err
      | Inr r \<Rightarrow> (if r = None then ErrZoneNotFound else ErrConflict))"

definition dnssec_txn ::
  "env \<Rightarrow> string \<Rightarrow> DNSSECConfig option \<Rightarrow> etcd_kv option \<Rightarrow> 's EtcdBackend \<Rightarrow> store_error + etcd_cmp list \<times> etcd_op list" where
  "dnssec_txn env zoneName dnssec r e =
     (let normalized = NormalizeZoneName zoneName in
      case r of
        None \<Rightarrow> Inl ErrZoneNotFound
      | Some kv \<Rightarrow>
        bindE (unmarshal_zone e kv)
          (\<lambda>zone. bindE (marshal_zone e (zone\<lparr>z_DNSSEC := cloneDNSSECConfig dnssec, z_UpdatedAt := e_now env\<rparr>))
             (\<lambda>zoneData. Inr ([ModRevisionIs (zoneKey e normalized) (kv_ModRevision kv)],
                [PutKey (zoneKey e normalized) zoneData]))))"

definition delete_txn ::
  "string \<Rightarrow> string \<Rightarrow> etcd_kv option \<Rightarrow> 's EtcdBackend \<Rightarrow> store_error + etcd_cmp list \<times> etcd_op list" where
  "delete_txn name expectedVersion r e =
     (let normalized = NormalizeZoneName name in
      case r of
        None \<Rightarrow> Inl ErrZoneNotFound
      | Some kv \<Rightarrow> Inr (unchanged_cmps e normalized (kv_ModRevision kv) expectedVersion,
          [DeleteKey (zoneKey e normalized), DeleteKey (versionKey e normalized)]))"

text \<open>The end that the operations without a result share: commit, and look again if a comparison failed.\<close>

definition commit_or_explain ::
  "net \<Rightarrow> string \<Rightarrow> store_error + etcd_cmp list \<times> etcd_op list \<Rightarrow> 's EtcdBackend \<Rightarrow> store_error option \<times> 's EtcdBackend" where
  "commit_or_explain net key txn e =
     (case txn of
        Inl err \<Rightarrow> (Some err, e)
      | Inr (cmps, ops) \<Rightarrow>
        (case commit_txn (n_commit net) cmps ops e of
           (Inl err, e') \<Rightarrow> (Some err, e')
         | (Inr succeeded, e') \<Rightarrow> (if succeeded then None else Some (gone_or_conflict (n_check net) key e'), e')))"

definition etcd_UpdateDNSSECMetadata ::
  "net \<Rightarrow> env \<Rightarrow> string \<Rightarrow> DNSSECConfig option \<Rightarrow> 's EtcdBackend \<Rightarrow> store_error option \<times> 's EtcdBackend" where
  "etcd_UpdateDNSSECMetadata net env zoneName dnssec e =
     (let key = zoneKey e (NormalizeZoneName zoneName) in
      commit_or_explain net key (bindE (get_key (n_get net) key e) (\<lambda>r. dnssec_txn env zoneName dnssec r e)) e)"

definition etcd_DeleteZoneWithVersion ::
  "net \<Rightarrow> string \<Rightarrow> string \<Rightarrow> 's EtcdBackend \<Rightarrow> store_error option \<times> 's EtcdBackend" where
  "etcd_DeleteZoneWithVersion net name expectedVersion e =
     (let key = zoneKey e (NormalizeZoneName name) in
      commit_or_explain net key (bindE (get_key (n_get net) key e) (\<lambda>r. delete_txn name expectedVersion r e)) e)"

text \<open>\<open>DeleteZone\<close> compares the revision only.\<close>

definition etcd_DeleteZone :: "net \<Rightarrow> string \<Rightarrow> 's EtcdBackend \<Rightarrow> store_error option \<times> 's EtcdBackend" where
  "etcd_DeleteZone net name e =
     (let key = zoneKey e (NormalizeZoneName name) in
      commit_or_explain net key (bindE (get_key (n_get net) key e) (\<lambda>r. delete_txn name [] r e)) e)"

subsection \<open>Revisions\<close>

record ZoneVersion =
  zv_Version :: string
  zv_Serial :: uint32
  zv_Timestamp :: go_time
  zv_Hash :: string
  zv_Hash8 :: string
  zv_SignedArtifactPath :: string

definition etcd_GetRevision :: "outcome \<Rightarrow> 's EtcdBackend \<Rightarrow> string \<Rightarrow> string \<Rightarrow> store_error + Zone" where
  "etcd_GetRevision out e zoneName version =
     bindE (get_key out (historyKey e (NormalizeZoneName zoneName) version) e)
       (\<lambda>r. case r of None \<Rightarrow> Inl ErrVersionNotFound | Some kv \<Rightarrow> unmarshal_zone e kv)"

text \<open>The hash cannot fail: encoding a normalised zone always succeeds.\<close>

definition revision_of :: "(normalizedZone \<Rightarrow> string) \<Rightarrow> (string \<Rightarrow> string) \<Rightarrow> Zone \<Rightarrow> ZoneVersion" where
  "revision_of marshal sha256hex zone =
     (let hashHex = ComputeZoneHash marshal sha256hex zone;
          hash8 = (if 8 \<le> length hashHex then take 8 hashHex else [])
      in \<lparr>zv_Version = z_Version zone, zv_Serial = soa_Serial (z_SOA zone), zv_Timestamp = z_UpdatedAt zone,
          zv_Hash = hashHex, zv_Hash8 = hash8, zv_SignedArtifactPath = []\<rparr>)"

definition etcd_ListRevisions ::
  "(normalizedZone \<Rightarrow> string) \<Rightarrow> (string \<Rightarrow> string) \<Rightarrow> outcome \<Rightarrow> 's EtcdBackend \<Rightarrow> string \<Rightarrow> ListOptions \<Rightarrow>
   store_error + ZoneVersion list" where
  "etcd_ListRevisions marshal sha256hex out e zoneName opts =
     bindE (get_prefix out (historyPrefixForZone e (NormalizeZoneName zoneName)) e)
       (\<lambda>kvs. bindE (unmarshal_all e (rev kvs))
          (\<lambda>zones. Inr (etcd_page opts (map (revision_of marshal sha256hex) zones))))"

text \<open>\<open>cleanupHistory\<close> deletes key by key and goes on after an error; \<open>outs i\<close> is the outcome of request \<open>i\<close>.\<close>

fun delete_revision_keys :: "(nat \<Rightarrow> outcome) \<Rightarrow> nat \<Rightarrow> string list \<Rightarrow> 's EtcdBackend \<Rightarrow> 's EtcdBackend" where
  "delete_revision_keys outs i [] e = e"
| "delete_revision_keys outs i (k # ks) e =
     delete_revision_keys outs (Suc i) ks
       (if outs i = Rejected then e else e\<lparr>eb_state := cl_Delete (eb_client e) k (eb_state e)\<rparr>)"

definition etcd_cleanupHistory :: "outcome \<Rightarrow> (nat \<Rightarrow> outcome) \<Rightarrow> string \<Rightarrow> 's EtcdBackend \<Rightarrow> 's EtcdBackend" where
  "etcd_cleanupHistory out outs zoneName e =
     (case get_prefix out (historyPrefixForZone e zoneName) e of
        Inl _ \<Rightarrow> e
      | Inr kvs \<Rightarrow>
        (if defaultHistoryRetention < length kvs
         then delete_revision_keys outs 0 (map fst (drop defaultHistoryRetention (rev kvs))) e else e))"

subsection \<open>Watching\<close>

datatype EventType = EventTypeCreated | EventTypeUpdated | EventTypeDeleted

record ZoneEvent =
  ze_Type :: EventType
  ze_ZoneName :: string
  ze_Version :: string
  ze_Zone :: "Zone option"

datatype etcd_event_type = EventTypePut | EventTypeDelete | EventTypeOther

record etcd_event =
  ev_Type :: etcd_event_type
  ev_Key :: string
  ev_Value :: string
  ev_PrevKv :: "etcd_kv option"

definition convertEtcdEvent :: "'s EtcdBackend \<Rightarrow> etcd_event \<Rightarrow> ZoneEvent option" where
  "convertEtcdEvent e ev =
     (let keyPrefix = zonesPrefix e in
      if \<not> HasPrefix (ev_Key ev) keyPrefix then None
      else
       (let zoneName = TrimPrefix (ev_Key ev) keyPrefix in
        case ev_Type ev of
          EventTypePut \<Rightarrow>
            (case jz_Unmarshal (eb_codec e) (ev_Value ev) of
               None \<Rightarrow> None
             | Some zone \<Rightarrow>
               Some \<lparr>ze_Type = (if ev_PrevKv ev = None then EventTypeCreated else EventTypeUpdated),
                     ze_ZoneName = zoneName, ze_Version = z_Version zone, ze_Zone = Some zone\<rparr>)
        | EventTypeDelete \<Rightarrow>
            Some \<lparr>ze_Type = EventTypeDeleted, ze_ZoneName = zoneName, ze_Version = [], ze_Zone = None\<rparr>
        | EventTypeOther \<Rightarrow> None))"

text \<open>
  The channel of a watcher and the registry of channels. What happens around the loop of \<open>runWatch\<close>: a response (with a
  flag per event that says if the \<open>select\<close> took the branch of the cancelled context), the end of the etcd watch, the
  cancellation, and the receiver taking an event.
\<close>

record watcher =
  wa_zone :: string
  wa_id :: nat
  wa_chan :: "ZoneEvent list" \<comment> \<open>sent and not yet received\<close>
  wa_received :: "ZoneEvent list"
  wa_closed :: bool

datatype watch_input =
    ContextDone
  | WatchClosed
  | WatchResponse bool "(etcd_event \<times> bool) list" \<comment> \<open>\<open>Canceled\<close> and the events\<close>
  | Receive

definition watch_buffer :: nat where "watch_buffer = 100"

definition send_event :: "ZoneEvent \<Rightarrow> watcher \<Rightarrow> watcher" where
  "send_event event w = (if length (wa_chan w) < watch_buffer then w\<lparr>wa_chan := wa_chan w @ [event]\<rparr> else w)"

text \<open>Send the events of one response; \<open>False\<close> is the return from \<open>runWatch\<close>.\<close>

fun send_events :: "'s EtcdBackend \<Rightarrow> (etcd_event \<times> bool) list \<Rightarrow> watcher \<Rightarrow> bool \<times> watcher" where
  "send_events e [] w = (True, w)"
| "send_events e ((ev, ctxDone) # evs) w =
     (case convertEtcdEvent e ev of
        None \<Rightarrow> send_events e evs w
      | Some event \<Rightarrow> (if ctxDone then (False, w) else send_events e evs (send_event event w)))"

fun watch_loop :: "'s EtcdBackend \<Rightarrow> watch_input list \<Rightarrow> watcher \<Rightarrow> watcher" where
  "watch_loop e [] w = w"
| "watch_loop e (ContextDone # _) w = w\<lparr>wa_closed := True\<rparr>"
| "watch_loop e (WatchClosed # _) w = w\<lparr>wa_closed := True\<rparr>"
| "watch_loop e (WatchResponse canceled evs # ins) w =
     (if canceled then w\<lparr>wa_closed := True\<rparr>
      else case send_events e evs w of
             (True, w') \<Rightarrow> watch_loop e ins w'
           | (False, w') \<Rightarrow> w'\<lparr>wa_closed := True\<rparr>)"
| "watch_loop e (Receive # ins) w =
     watch_loop e ins
       (case wa_chan w of [] \<Rightarrow> w | ev # evs \<Rightarrow> w\<lparr>wa_chan := evs, wa_received := wa_received w @ [ev]\<rparr>)"

text \<open>\<open>Watch\<close> registers the channel under the zone's name, or under the empty name for all zones.\<close>

definition etcd_Watch :: "nat \<Rightarrow> string \<Rightarrow> (string \<Rightarrow> nat list) \<Rightarrow> watcher \<times> (string \<Rightarrow> nat list)" where
  "etcd_Watch i zoneName watchers =
     (let normalized = (if zoneName = [] then [] else NormalizeZoneName zoneName) in
      (\<lparr>wa_zone = normalized, wa_id = i, wa_chan = [], wa_received = [], wa_closed = False\<rparr>,
       watchers(normalized := watchers normalized @ [i])))"

definition watch_key :: "'s EtcdBackend \<Rightarrow> string \<Rightarrow> string \<times> bool" where
  "watch_key e zoneName = (if zoneName = [] then (zonesPrefix e, True) else (zoneKey e zoneName, False))"

text \<open>The loop, and what the deferred function does when it returns: close the channel and take it out of the registry.\<close>

definition runWatch ::
  "'s EtcdBackend \<Rightarrow> watch_input list \<Rightarrow> watcher \<Rightarrow> (string \<Rightarrow> nat list) \<Rightarrow> watcher \<times> (string \<Rightarrow> nat list)" where
  "runWatch e ins w watchers =
     (let w' = watch_loop e ins w in
      (w', if wa_closed w' then watchers(wa_zone w := remove1 (wa_id w) (watchers (wa_zone w))) else watchers))"

subsection \<open>Keys and values\<close>

lemma keys_as_prefix:
  "zoneKey e n = zonesPrefix e @ NormalizeZoneName n"
  "versionKey e n = versionPrefix e @ NormalizeZoneName n"
  "historyKey e n v = historyPrefixForZone e n @ v"
  by (simp_all add: zoneKey_def zonesPrefix_def versionKey_def versionPrefix_def historyKey_def historyPrefixForZone_def)

lemma key_groups_differ [simp]:
  "zonesPrefix e @ a \<noteq> versionPrefix e @ b" "versionPrefix e @ b \<noteq> zonesPrefix e @ a"
  "historyPrefixForZone e n @ v \<noteq> zonesPrefix e @ a" "zonesPrefix e @ a \<noteq> historyPrefixForZone e n @ v"
  "historyPrefixForZone e n @ v \<noteq> versionPrefix e @ b" "versionPrefix e @ b \<noteq> historyPrefixForZone e n @ v"
  "zonesPrefix e \<noteq> versionPrefix e" "versionPrefix e \<noteq> zonesPrefix e"
  by (simp_all add: zonesPrefix_def versionPrefix_def historyPrefixForZone_def etcdZonesPrefix_def
      etcdVersionsPrefix_def etcdHistoryPrefix_def)

lemma prefixes_of_state [simp]:
  "zonesPrefix (e\<lparr>eb_state := s\<rparr>) = zonesPrefix e" "versionPrefix (e\<lparr>eb_state := s\<rparr>) = versionPrefix e"
  "historyPrefixForZone (e\<lparr>eb_state := s\<rparr>) n = historyPrefixForZone e n"
  by (simp_all add: zonesPrefix_def versionPrefix_def historyPrefixForZone_def)

lemma parts_of_state [simp]:
  "unmarshal_zone (e\<lparr>eb_state := s\<rparr>) = unmarshal_zone e" "marshal_zone (e\<lparr>eb_state := s\<rparr>) = marshal_zone e"
  "zoneKey (e\<lparr>eb_state := s\<rparr>) = zoneKey e" "zone_puts (e\<lparr>eb_state := s\<rparr>) = zone_puts e"
  "unchanged_cmps (e\<lparr>eb_state := s\<rparr>) = unchanged_cmps e" "versionKey (e\<lparr>eb_state := s\<rparr>) = versionKey e"
  "historyKey (e\<lparr>eb_state := s\<rparr>) = historyKey e"
  by (simp_all add: fun_eq_iff unmarshal_zone_def marshal_zone_def zoneKey_def versionKey_def historyKey_def
      zone_puts_def unchanged_cmps_def)

text \<open>What an operation computes between read and commit depends on the cluster only through what it read.\<close>

lemma txns_of_state [simp]:
  "create_txn env zp (e\<lparr>eb_state := s\<rparr>) = create_txn env zp e"
  "update_txn env z v r (e\<lparr>eb_state := s\<rparr>) = update_txn env z v r e"
  "dnssec_txn env n d r (e\<lparr>eb_state := s\<rparr>) = dnssec_txn env n d r e"
  "delete_txn n v r (e\<lparr>eb_state := s\<rparr>) = delete_txn n v r e"
  by (simp_all add: create_txn_def update_txn_def dnssec_txn_def delete_txn_def Let_def cong: option.case_cong if_cong)

text \<open>The value that the cluster has under a key.\<close>

definition value_at :: "'s EtcdBackend \<Rightarrow> string \<Rightarrow> string option" where
  "value_at e key = map_option kv_Value (cl_Get (eb_client e) key (eb_state e))"

lemma etcd_txn:
  assumes "etcd_service c" "distinct (op_keys ops)"
  shows "case cl_Txn c cmps ops s of
      None \<Rightarrow> \<not> list_all (cmp_holds c s) cmps
    | Some s' \<Rightarrow> list_all (cmp_holds c s) cmps \<and> applied c ops s s'"
  using assms unfolding etcd_service_def by blast

lemma etcd_txn_Some:
  assumes "etcd_service c" "distinct (op_keys ops)" "cl_Txn c cmps ops s = Some s'"
  shows "list_all (cmp_holds c s) cmps" "applied c ops s s'"
  using etcd_txn [OF assms(1,2), where cmps = cmps and s = s] assms(3) by simp_all

lemma etcd_txn_None:
  assumes "etcd_service c" "distinct (op_keys ops)"
  shows "cl_Txn c cmps ops s = None \<longleftrightarrow> \<not> list_all (cmp_holds c s) cmps"
  using etcd_txn [OF assms, where cmps = cmps and s = s] by (auto split: option.splits)

lemma applied_get:
  assumes "applied c ops s s'"
  shows "case map_of (map op_entry ops) k of
      None \<Rightarrow> cl_Get c k s' = cl_Get c k s
    | Some None \<Rightarrow> cl_Get c k s' = None
    | Some (Some v) \<Rightarrow> (\<exists>kv. cl_Get c k s' = Some kv \<and> kv_Value kv = v
        \<and> kv_ModRevision kv = cl_Revision c s' \<and> cl_Revision c s < cl_Revision c s')"
  using assms unfolding applied_def by blast

lemma applied_value_at:
  assumes "applied (eb_client e) ops (eb_state e) s'"
  shows "value_at (e\<lparr>eb_state := s'\<rparr>) k =
    (case map_of (map op_entry ops) k of None \<Rightarrow> value_at e k | Some v \<Rightarrow> v)"
  using applied_get [OF assms, of k]
  by (cases "map_of (map op_entry ops) k"; cases "the (map_of (map op_entry ops) k)") (auto simp: value_at_def)

lemma commit_txn_cases:
  "commit_txn Answered cmps ops e =
    (case cl_Txn (eb_client e) cmps ops (eb_state e) of
       None \<Rightarrow> (Inr False, e) | Some s \<Rightarrow> (Inr True, e\<lparr>eb_state := s\<rparr>))"
  by (simp add: commit_txn_def split: option.split)

lemma distinct_zone_puts: "distinct (op_keys (zone_puts e n v d))"
  by (simp add: op_keys_def zone_puts_def keys_as_prefix)

lemma distinct_delete_zone: "distinct (op_keys [DeleteKey (zoneKey e n), DeleteKey (versionKey e n)])"
  by (simp add: op_keys_def keys_as_prefix)

subsection \<open>The contract\<close>

definition etcd_contents :: "'s EtcdBackend \<Rightarrow> string \<Rightarrow> Zone option" where
  "etcd_contents e k = Option.bind (value_at e (zonesPrefix e @ k)) (jz_Unmarshal (eb_codec e))"

text \<open>Under every name there is a zone that is stored under its own name together with its version, or neither.\<close>

definition zone_entry_ok :: "'s EtcdBackend \<Rightarrow> string \<Rightarrow> bool" where
  "zone_entry_ok e k \<longleftrightarrow>
     (case value_at e (zonesPrefix e @ k) of
        None \<Rightarrow> value_at e (versionPrefix e @ k) = None
      | Some d \<Rightarrow> (\<exists>z. jz_Unmarshal (eb_codec e) d = Some z \<and> stored_ok (k, z)
          \<and> value_at e (versionPrefix e @ k) = Some (z_Version z)))"

definition etcd_inv :: "'s EtcdBackend \<Rightarrow> bool" where
  "etcd_inv e \<longleftrightarrow> etcd_service (eb_client e) \<and> json_codec (eb_codec e) \<and> (\<forall>k. zone_entry_ok e k)"

lemma etcd_inv_service: "etcd_inv e \<Longrightarrow> etcd_service (eb_client e)"
  by (simp add: etcd_inv_def)

lemma zone_entry_okD: "etcd_inv e \<Longrightarrow> zone_entry_ok e k"
  by (simp add: etcd_inv_def)

lemma etcd_contents_Some:
  assumes "etcd_inv e" "etcd_contents e k = Some z"
  shows "stored_ok (k, z)" "value_at e (versionPrefix e @ k) = Some (z_Version z)"
  using zone_entry_okD [OF assms(1), of k] assms(2) by (auto simp: etcd_contents_def zone_entry_ok_def split: option.splits)

lemma etcd_contents_kv:
  assumes "etcd_inv e"
  shows "case cl_Get (eb_client e) (zonesPrefix e @ k) (eb_state e) of
      None \<Rightarrow> etcd_contents e k = None
    | Some kv \<Rightarrow> \<exists>z. unmarshal_zone e kv = Inr z \<and> etcd_contents e k = Some z"
  using zone_entry_okD [OF assms, of k]
  by (auto simp: zone_entry_ok_def etcd_contents_def value_at_def unmarshal_zone_def split: option.splits)

lemma etcd_GetZone_spec:
  assumes "etcd_inv e"
  shows "etcd_GetZone Answered e n =
    (case etcd_contents e (NormalizeZoneName n) of None \<Rightarrow> Inl ErrZoneNotFound | Some z \<Rightarrow> Inr z)"
  using etcd_contents_kv [OF assms, of "NormalizeZoneName n"]
  by (auto simp: etcd_GetZone_def get_key_def keys_as_prefix split: option.splits)

lemma zone_puts_values:
  assumes "applied (eb_client e) (zone_puts e n v d) (eb_state e) s'" "NormalizeZoneName n = n"
  shows "value_at (e\<lparr>eb_state := s'\<rparr>) (zonesPrefix e @ k) = (if k = n then Some d else value_at e (zonesPrefix e @ k))"
    "value_at (e\<lparr>eb_state := s'\<rparr>) (versionPrefix e @ k) = (if k = n then Some v else value_at e (versionPrefix e @ k))"
    "value_at (e\<lparr>eb_state := s'\<rparr>) (historyPrefixForZone e m @ u) =
      (if historyPrefixForZone e m @ u = historyPrefixForZone e n @ v then Some d
       else value_at e (historyPrefixForZone e m @ u))"
  using applied_value_at [OF assms(1)] assms(2) by (auto simp: zone_puts_def keys_as_prefix)

lemma zone_puts_contract:
  assumes inv: "etcd_inv e" and ap: "applied (eb_client e) (zone_puts e n (z_Version w) d) (eb_state e) s'"
    and w: "stored_ok (n, w)" "marshal_zone e w = Inr d"
  shows "etcd_inv (e\<lparr>eb_state := s'\<rparr>)" "etcd_contents (e\<lparr>eb_state := s'\<rparr>) = (etcd_contents e)(n \<mapsto> w)"
proof -
  have n: "NormalizeZoneName n = n" using w(1) by (simp add: stored_ok_def)
  have d: "jz_Unmarshal (eb_codec e) d = Some w"
    using inv w(2) by (auto simp: etcd_inv_def json_codec_def marshal_zone_def split: option.splits)
  show "etcd_contents (e\<lparr>eb_state := s'\<rparr>) = (etcd_contents e)(n \<mapsto> w)"
    using zone_puts_values(1) [OF ap n] d by (auto simp: etcd_contents_def)
  show "etcd_inv (e\<lparr>eb_state := s'\<rparr>)"
    using inv w(1) d by (simp add: etcd_inv_def zone_entry_ok_def zone_puts_values [OF ap n] cong: option.case_cong)
qed

lemma delete_zone_contract:
  assumes inv: "etcd_inv e"
    and ap: "applied (eb_client e) [DeleteKey (zoneKey e n), DeleteKey (versionKey e n)] (eb_state e) s'"
  shows "etcd_inv (e\<lparr>eb_state := s'\<rparr>)"
    "etcd_contents (e\<lparr>eb_state := s'\<rparr>) = (etcd_contents e)(NormalizeZoneName n := None)"
  using inv by (auto simp: etcd_inv_def zone_entry_ok_def etcd_contents_def applied_value_at [OF ap] keys_as_prefix
      cong: option.case_cong)

lemma etcd_CreateZone_ok:
  assumes "etcd_inv e" "env_ok env" "etcd_CreateZone healthy env zp e = (Inr w, e')"
  shows "etcd_inv e' \<and> etcd_contents e (z_Name w) = None \<and> etcd_contents e' = (etcd_contents e)(z_Name w \<mapsto> w)
    \<and> (\<exists>z. zp = Some z \<and> created_from env z w \<and> rdata (z_Records w) = rdata (z_Records z))"
proof -
  obtain d s' where w: "prepareZoneForCreate env NormalizeZoneName zp = Inr w" "marshal_zone e w = Inr d"
    and txn: "cl_Txn (eb_client e) [CreateRevisionIs (zoneKey e (z_Name w)) 0]
      (zone_puts e (z_Name w) (z_Version w) d) (eb_state e) = Some s'" and e': "e' = e\<lparr>eb_state := s'\<rparr>"
    using assms(3) by (auto simp: etcd_CreateZone_def create_txn_def commit_txn_cases healthy_def bindE_def
        split: sum.splits option.splits prod.splits if_splits)
  note p = prepareZoneForCreate_ok [OF w(1) assms(2)]
  note t = etcd_txn_Some [OF etcd_inv_service [OF assms(1)] distinct_zone_puts txn]
  have "cl_Get (eb_client e) (zonesPrefix e @ z_Name w) (eb_state e) = None"
    using t(1) p(2) etcd_inv_service [OF assms(1)]
    by (fastforce simp: keys_as_prefix stored_ok_def etcd_service_def split: option.splits)
  then show ?thesis using zone_puts_contract [OF assms(1) t(2) p(2) w(2)] p(1)
    by (simp add: e' etcd_contents_def value_at_def)
qed

lemma etcd_UpdateZone_ok:
  assumes "etcd_inv e" "env_ok env" "etcd_UpdateZone healthy env z v e = (Inr w, e')"
  shows "etcd_inv e' \<and> (\<exists>old. etcd_contents e (NormalizeZoneName (z_Name z)) = Some old
      \<and> (v = [] \<or> z_Version old = v)
      \<and> etcd_contents e' = (etcd_contents e)(NormalizeZoneName (z_Name z) \<mapsto> w)
      \<and> updated_from env old z w \<and> z_Name w = NormalizeZoneName (z_Name z)
      \<and> rdata (z_Records w) = rdata (z_Records z))"
proof -
  let ?k = "NormalizeZoneName (z_Name z)"
  obtain kv old z1 d cmps s' where kv: "cl_Get (eb_client e) (zonesPrefix e @ ?k) (eb_state e) = Some kv"
    and old: "unmarshal_zone e kv = Inr old" "v = [] \<or> z_Version old = v"
    and z1: "mem_update_fields env old z = Inr z1" "validateZoneForWrite (Some z1) = Inr w"
    and d: "marshal_zone e w = Inr d"
    and txn: "cl_Txn (eb_client e) cmps (zone_puts e ?k (z_Version w) d) (eb_state e) = Some s'"
    and e': "e' = e\<lparr>eb_state := s'\<rparr>"
    using assms(3) by (auto simp: etcd_UpdateZone_def update_txn_def commit_txn_cases healthy_def bindE_def get_key_def
        keys_as_prefix NormalizeZoneName_idem Let_def split: sum.splits option.splits prod.splits if_splits)
  have c: "etcd_contents e ?k = Some old" using etcd_contents_kv [OF assms(1), of ?k] kv old(1) by auto
  note f1 = mem_update_fields_ok [OF z1(1)]
  note v1 = validateZoneForWrite_ok [OF z1(2)]
  have f: "z_Name w = z_Name z1" "z_Version w = z_Version z1" "z_SOA w = z_SOA z1" by (subst v1(2), simp)+
  have "z_Version w \<noteq> []" using f(2) f1(2) assms(2) etcd_contents_Some(1) [OF assms(1) c]
    by (auto simp: version_after_def stored_ok_def env_ok_def split: if_splits)
  then have "stored_ok (?k, w)" using v1(1) f f1(1) by (simp add: stored_ok_def NormalizeZoneName_idem)
  then show ?thesis
    using zone_puts_contract [OF assms(1) etcd_txn_Some(2) [OF etcd_inv_service [OF assms(1)] distinct_zone_puts txn] _ d]
      c old(2) f f1 v1(3) by (auto simp: e' updated_from_def)
qed

lemma etcd_errors_keep_state:
  "etcd_CreateZone healthy env zp e = (Inl err, e') \<Longrightarrow> e' = e"
  "etcd_UpdateZone healthy env z v e = (Inl err, e') \<Longrightarrow> e' = e"
  by (auto simp: etcd_CreateZone_def etcd_UpdateZone_def commit_txn_cases healthy_def
      split: sum.splits option.splits prod.splits if_splits)

lemma etcd_UpdateZone_refused:
  assumes "etcd_inv e"
  shows "etcd_contents e (NormalizeZoneName (z_Name z)) = None \<Longrightarrow>
      etcd_UpdateZone healthy env z v e = (Inl ErrZoneNotFound, e)"
    and "etcd_contents e (NormalizeZoneName (z_Name z)) = Some old \<Longrightarrow> v \<noteq> [] \<Longrightarrow> z_Version old \<noteq> v \<Longrightarrow>
      etcd_UpdateZone healthy env z v e = (Inl ErrConflict, e)"
  using etcd_contents_kv [OF assms, of "NormalizeZoneName (z_Name z)"]
  by (auto simp: etcd_UpdateZone_def update_txn_def healthy_def get_key_def bindE_def keys_as_prefix
      NormalizeZoneName_idem split: option.splits)

lemma etcd_DeleteZoneWithVersion_spec:
  assumes "etcd_inv e" "etcd_DeleteZoneWithVersion healthy n v e = (r, e')"
  shows "case etcd_contents e (NormalizeZoneName n) of
      None \<Rightarrow> r = Some ErrZoneNotFound \<and> e' = e
    | Some z \<Rightarrow>
        if v \<noteq> [] \<and> z_Version z \<noteq> v then r = Some ErrConflict \<and> e' = e
        else r = None \<and> etcd_inv e' \<and> etcd_contents e' = (etcd_contents e)(NormalizeZoneName n := None)"
proof (cases "cl_Get (eb_client e) (zonesPrefix e @ NormalizeZoneName n) (eb_state e)")
  case None
  then show ?thesis using assms(2) etcd_contents_kv [OF assms(1), of "NormalizeZoneName n"]
    by (auto simp: etcd_DeleteZoneWithVersion_def commit_or_explain_def delete_txn_def get_key_def healthy_def
        keys_as_prefix NormalizeZoneName_idem)
next
  case (Some kv)
  let ?k = "NormalizeZoneName n"
  let ?cmps = "unchanged_cmps e ?k (kv_ModRevision kv) v"
  let ?ops = "[DeleteKey (zoneKey e ?k), DeleteKey (versionKey e ?k)]"
  obtain z where z: "etcd_contents e ?k = Some z" using etcd_contents_kv [OF assms(1), of ?k] Some by auto
  have "list_all (cmp_holds (eb_client e) (eb_state e)) ?cmps \<longleftrightarrow> v = [] \<or> z_Version z = v"
    using etcd_contents_Some(2) [OF assms(1) z] Some
    by (auto simp: unchanged_cmps_def keys_as_prefix NormalizeZoneName_idem value_at_def)
  moreover note etcd_txn [OF etcd_inv_service [OF assms(1)] distinct_delete_zone [of e ?k],
    where cmps = ?cmps and s = "eb_state e"]
  moreover have "commit_or_explain healthy (zoneKey e ?k) (Inr (?cmps, ?ops)) e = (r, e')"
    using assms(2) Some by (simp add: etcd_DeleteZoneWithVersion_def delete_txn_def get_key_def healthy_def keys_as_prefix
        NormalizeZoneName_idem Let_def)
  ultimately show ?thesis using z Some delete_zone_contract [OF assms(1), of ?k]
    by (auto simp: commit_or_explain_def commit_txn_cases healthy_def gone_or_conflict_def get_key_def keys_as_prefix
        NormalizeZoneName_idem split: option.splits)
qed

interpretation etc: ordered_store "etcd_GetZone Answered" "etcd_CreateZone healthy" "etcd_UpdateZone healthy"
  "etcd_DeleteZoneWithVersion healthy" etcd_contents etcd_inv
proof (unfold_locales, goal_cases)
  case 1
  then show ?case by (rule etcd_GetZone_spec)
next
  case 2
  then show ?case using etcd_contents_Some(1) by (fastforce simp: stored_ok_def)
next
  case 3
  then show ?case using etcd_CreateZone_ok by blast
next
  case 5
  then show ?case using etcd_UpdateZone_ok by blast
next
  case 9
  then show ?case using etcd_DeleteZoneWithVersion_spec by blast
next
  case 10
  then show ?case using etcd_CreateZone_ok by fastforce
next
  case 11
  then show ?case using etcd_UpdateZone_ok by fastforce
qed (auto dest: etcd_errors_keep_state etcd_UpdateZone_refused)

end
