(* ===== verification/Etcd_Laws.thy ===== *)
theory Etcd_Laws
  imports Etcd_Store
begin

section \<open>Controllers that share an etcd cluster (pkg/backend/etcd.go)\<close>

text \<open>
  Several controllers run the operations of \<open>Etcd_Store\<close> at the same time. Between the read and the commit of an
  operation any number of others may commit, the background clean-up may remove revisions, requests may fail and
  answers may be lost. The step relation \<open>etcd_step\<close> has all of these; the serialisation theorem says that the cluster is always
  as if the operations that took effect had run one after the other, whole, in the order of their commits.
  The other properties are about the two lists of zones, the revisions of a zone, and watchers.
\<close>

subsection \<open>A cluster that behaves as documented\<close>

text \<open>
  A cluster as the list of its transactions, the last one first: each is a list of keys with their new values. It is used to
  show that the hypotheses can hold.
\<close>

type_synonym ref_state = "(string \<times> string option) list list"

fun ref_get :: "string \<Rightarrow> ref_state \<Rightarrow> etcd_kv option" where
  "ref_get k [] = None"
| "ref_get k (t # ts) =
     (case map_of t k of
        None \<Rightarrow> ref_get k ts
      | Some None \<Rightarrow> None
      | Some (Some v) \<Rightarrow> Some
          \<lparr>kv_Value = v,
           kv_CreateRevision = (case ref_get k ts of None \<Rightarrow> int (Suc (length ts)) | Some kv \<Rightarrow> kv_CreateRevision kv),
           kv_ModRevision = int (Suc (length ts))\<rparr>)"

definition ref_range :: "string \<Rightarrow> ref_state \<Rightarrow> (string \<times> etcd_kv) list" where
  "ref_range p s = map (\<lambda>k. (k, the (ref_get k s)))
     (filter (\<lambda>k. HasPrefix k p \<and> ref_get k s \<noteq> None) (sort (remdups (map fst (concat s)))))"

definition ref_reader :: "ref_state etcd_client" where
  "ref_reader = \<lparr>cl_Get = ref_get, cl_Range = ref_range, cl_Txn = \<lambda>_ _ _. None, cl_Delete = \<lambda>_ s. s,
     cl_Revision = \<lambda>s. int (length s)\<rparr>"

definition ref_client :: "ref_state etcd_client" where
  "ref_client = \<lparr>cl_Get = ref_get, cl_Range = ref_range,
     cl_Txn = \<lambda>cmps ops s. if list_all (cmp_holds ref_reader s) cmps then Some (map op_entry ops # s) else None,
     cl_Delete = \<lambda>k s. [(k, None)] # s, cl_Revision = \<lambda>s. int (length s)\<rparr>"

lemma cmp_holds_cong: "cl_Get c = cl_Get c' \<Longrightarrow> cmp_holds c s x = cmp_holds c' s x"
  by (cases x) simp_all

lemma ref_client_fields [simp]:
  "cl_Get ref_client = ref_get" "cl_Range ref_client = ref_range" "cl_Revision ref_client s = int (length s)"
  "cl_Delete ref_client k s = [(k, None)] # s"
  by (simp_all add: ref_client_def)

lemma ref_client_txn [simp]:
  "cl_Txn ref_client cmps ops s = (if list_all (cmp_holds ref_client s) cmps then Some (map op_entry ops # s) else None)"
proof -
  have "cmp_holds ref_reader s = cmp_holds ref_client s"
    by (rule ext, rule cmp_holds_cong) (simp add: ref_reader_def)
  moreover have "cl_Txn ref_client cmps ops s =
      (if list_all (cmp_holds ref_reader s) cmps then Some (map op_entry ops # s) else None)"
    by (simp add: ref_client_def)
  ultimately show ?thesis by simp
qed

lemma ref_get_bounds:
  "ref_get k s = Some kv \<Longrightarrow> 0 < kv_CreateRevision kv \<and> 0 < kv_ModRevision kv \<and> kv_ModRevision kv \<le> int (length s)"
  by (induction s arbitrary: kv) (fastforce split: option.splits)+

lemma ref_get_key: "ref_get k s = Some kv \<Longrightarrow> k \<in> set (map fst (concat s))"
  by (induction s arbitrary: kv) (force split: option.splits dest: map_of_SomeD)+

lemma ref_write_applied: "applied ref_client ops s (map op_entry ops # s)"
  by (auto simp: applied_def split: option.split)

lemma ref_service: "etcd_service ref_client"
  unfolding etcd_service_def
proof (intro conjI allI impI)
  fix s k kv assume "cl_Get ref_client k s = Some kv"
  then show "0 < kv_CreateRevision kv" "0 < kv_ModRevision kv" "kv_ModRevision kv \<le> cl_Revision ref_client s"
    using ref_get_bounds by simp_all
next
  fix s p
  show "sorted_wrt (<) (map fst (cl_Range ref_client p s))"
    by (simp add: ref_range_def comp_def sorted_wrt_filter strict_sorted_iff)
  show "set (cl_Range ref_client p s) = {(k, kv). HasPrefix k p \<and> cl_Get ref_client k s = Some kv}"
    using ref_get_key by (force simp: ref_range_def)
next
  fix cmps ops and s :: ref_state
  show "case cl_Txn ref_client cmps ops s of
      None \<Rightarrow> \<not> list_all (cmp_holds ref_client s) cmps
    | Some s' \<Rightarrow> list_all (cmp_holds ref_client s) cmps \<and> applied ref_client ops s s'"
    using ref_write_applied by simp
next
  fix k s show "applied ref_client [DeleteKey k] s (cl_Delete ref_client k s)"
    using ref_write_applied [of "[DeleteKey k]" s] by simp
qed

text \<open>A cluster with one zone, whose older version \<open>v0\<close> is still in the history; the JSON functions know the three zones that the examples write.\<close>

definition example_meta :: Zone where
  "example_meta = example_zone\<lparr>z_UpdatedAt := 7\<rparr>"

definition example_again :: Zone where
  "example_again = example_zone\<lparr>z_Version := ''v0'', z_SOA := example_soa\<lparr>soa_Serial := 2024022901\<rparr>, z_UpdatedAt := 7\<rparr>"

definition example_codec :: zone_codec where
  "example_codec =
    \<lparr>jz_Marshal = \<lambda>z. if z = example_zone then Some ''1'' else if z = example_meta then Some ''2''
        else if z = example_again then Some ''3'' else None,
     jz_Unmarshal = \<lambda>d. if d = ''1'' then Some example_zone else if d = ''2'' then Some example_meta
        else if d = ''3'' then Some example_again else None\<rparr>"

definition example_cluster :: "ref_state EtcdBackend" where
  "example_cluster = \<lparr>eb_client = ref_client, eb_codec = example_codec, eb_prefix = ''/p'', eb_timeout = 1,
     eb_state = [[(''/p/zones/ex.'', Some ''1''), (''/p/versions/ex.'', Some ''v1''), (''/p/history/ex./v1'', Some ''1'')],
                 [(''/p/history/ex./v0'', Some ''1'')]]\<rparr>"

lemma example_codec_ok: "json_codec example_codec"
  by (simp add: json_codec_def example_codec_def)


lemma example_cluster_inv: "etcd_inv example_cluster"
proof -
  have "NormalizeZoneName ''ex.'' = ''ex.''" by code_simp
  then have "stored_ok (''ex.'', example_zone)" using example_zone_valid
    by (simp add: stored_ok_def) (simp add: example_zone_def)
  moreover have "z_Version example_zone = ''v1''" by (simp add: example_zone_def)
  ultimately show ?thesis using ref_service example_codec_ok
    by (auto simp: etcd_inv_def zone_entry_ok_def example_cluster_def value_at_def zonesPrefix_def versionPrefix_def etcdZonesPrefix_def
        etcdVersionsPrefix_def example_codec_def split: option.splits)
qed

subsection \<open>Requests and interleavings\<close>

datatype etcd_request =
    RequestCreate env "Zone option"
  | RequestUpdate env Zone string
  | RequestDNSSEC env string "DNSSECConfig option"
  | RequestDelete string string

text \<open>The first half of an operation: what it reads, and the transaction that it computes (with the zone it will return).\<close>

fun request_txn :: "etcd_request \<Rightarrow> 's EtcdBackend \<Rightarrow> store_error + Zone option \<times> etcd_cmp list \<times> etcd_op list" where
  "request_txn (RequestCreate env zp) e = bindE (create_txn env zp e) (\<lambda>(w, txn). Inr (Some w, txn))"
| "request_txn (RequestUpdate env z v) e =
     bindE (get_key Answered (zoneKey e (NormalizeZoneName (z_Name z))) e)
       (\<lambda>r. bindE (update_txn env z v r e) (\<lambda>(w, txn). Inr (Some w, txn)))"
| "request_txn (RequestDNSSEC env n d) e =
     bindE (get_key Answered (zoneKey e (NormalizeZoneName n)) e)
       (\<lambda>r. bindE (dnssec_txn env n d r e) (\<lambda>txn. Inr (None, txn)))"
| "request_txn (RequestDelete n v) e =
     bindE (get_key Answered (zoneKey e (NormalizeZoneName n)) e)
       (\<lambda>r. bindE (delete_txn n v r e) (\<lambda>txn. Inr (None, txn)))"

text \<open>The whole operation at once.\<close>

definition without_result :: "store_error option \<times> 's \<Rightarrow> (store_error + Zone option) \<times> 's" where
  "without_result r = (case fst r of None \<Rightarrow> Inr None | Some err \<Rightarrow> Inl err, snd r)"

fun run_request :: "net \<Rightarrow> etcd_request \<Rightarrow> 's EtcdBackend \<Rightarrow> (store_error + Zone option) \<times> 's EtcdBackend" where
  "run_request net (RequestCreate env zp) e = map_prod (map_sum id Some) id (etcd_CreateZone net env zp e)"
| "run_request net (RequestUpdate env z v) e = map_prod (map_sum id Some) id (etcd_UpdateZone net env z v e)"
| "run_request net (RequestDNSSEC env n d) e = without_result (etcd_UpdateDNSSECMetadata net env n d e)"
| "run_request net (RequestDelete n v) e = without_result (etcd_DeleteZoneWithVersion net n v e)"

datatype etcd_effect =
    RequestDone etcd_request "Zone option"
  | RevisionRemoved string string

record 's etcd_system =
  ys_backend :: "'s EtcdBackend"
  ys_pending :: "nat \<Rightarrow> (etcd_request \<times> Zone option \<times> etcd_cmp list \<times> etcd_op list) option"
  ys_log :: "etcd_effect list" \<comment> \<open>what took effect\<close>

text \<open>
  \<open>Commit\<close> has any outcome: the comparisons fail, the request fails, or the transaction takes effect, and then its answer arrives
  or is lost. \<open>Remove\<close> is one deletion by \<open>cleanupHistory\<close>; which revisions it chooses does not matter here.
\<close>

inductive etcd_step :: "'s etcd_system \<Rightarrow> 's etcd_system \<Rightarrow> bool" where
  Read: "etcd_step y (y\<lparr>ys_pending := (ys_pending y)(i \<mapsto> (req, w, cmps, ops))\<rparr>)"
    if "request_txn req (ys_backend y) = Inr (w, cmps, ops)"
| Commit: "etcd_step y (y\<lparr>ys_backend := e', ys_pending := (ys_pending y)(i := None),
      ys_log := ys_log y @ (if out = Rejected \<or> cl_Txn (eb_client (ys_backend y)) cmps ops (eb_state (ys_backend y)) = None
        then [] else [RequestDone req w])\<rparr>)"
    if "ys_pending y i = Some (req, w, cmps, ops)" and "commit_txn out cmps ops (ys_backend y) = (r, e')"
| Remove: "etcd_step y (y\<lparr>ys_backend := delete_revision_keys (\<lambda>_. Answered) 0 [historyKey (ys_backend y) n v] (ys_backend y),
      ys_log := ys_log y @ [RevisionRemoved n v]\<rparr>)"

inductive etcd_run :: "'s etcd_system \<Rightarrow> 's etcd_system \<Rightarrow> bool" where
  etcd_start: "etcd_run y y"
| etcd_more: "etcd_run y y''" if "etcd_run y y'" and "etcd_step y' y''"

definition etcd_system_of :: "'s EtcdBackend \<Rightarrow> 's etcd_system" where
  "etcd_system_of e = \<lparr>ys_backend = e, ys_pending = Map.empty, ys_log = []\<rparr>"

text \<open>The specification: one operation, or one deletion, at once.\<close>

fun etcd_atomic :: "etcd_effect \<Rightarrow> 's EtcdBackend \<Rightarrow> 's EtcdBackend" where
  "etcd_atomic (RequestDone req w) e = snd (run_request healthy req e)"
| "etcd_atomic (RevisionRemoved n v) e = delete_revision_keys (\<lambda>_. Answered) 0 [historyKey e n v] e"

subsection \<open>Serialisation\<close>

lemma run_request_txn:
  assumes "request_txn req e = Inr (w, cmps, ops)" "cl_Txn (eb_client e) cmps ops (eb_state e) = Some s'"
  shows "run_request healthy req e = (Inr w, e\<lparr>eb_state := s'\<rparr>)"
proof (cases req)
  case (RequestCreate env zp)
  then show ?thesis using assms
    by (auto simp: etcd_CreateZone_def commit_txn_cases healthy_def bindE_def split: sum.splits)
next
  case (RequestUpdate env z v)
  then show ?thesis using assms
    by (auto simp: etcd_UpdateZone_def commit_txn_cases healthy_def bindE_def split: sum.splits)
next
  case (RequestDNSSEC env n d)
  then show ?thesis using assms
    by (auto simp: etcd_UpdateDNSSECMetadata_def commit_or_explain_def commit_txn_cases healthy_def bindE_def without_result_def
        Let_def split: sum.splits)
next
  case (RequestDelete n v)
  then show ?thesis using assms
    by (auto simp: etcd_DeleteZoneWithVersion_def commit_or_explain_def commit_txn_cases healthy_def bindE_def without_result_def
        Let_def split: sum.splits)
qed

text \<open>A later state of the cluster: an entry with the same revision is the same entry.\<close>

definition precedes :: "'s etcd_client \<Rightarrow> 's \<Rightarrow> 's \<Rightarrow> bool" where
  "precedes c s0 s \<longleftrightarrow> cl_Revision c s0 \<le> cl_Revision c s \<and>
     (\<forall>k kv0 kv. cl_Get c k s0 = Some kv0 \<longrightarrow> cl_Get c k s = Some kv \<longrightarrow>
        kv_ModRevision kv = kv_ModRevision kv0 \<longrightarrow> kv = kv0)"

lemma precedes_refl: "precedes c s s"
  by (simp add: precedes_def)

lemma precedes_applied:
  assumes "etcd_service c" "precedes c s0 s" "applied c ops s s'"
  shows "precedes c s0 s'"
  unfolding precedes_def
proof (intro conjI allI impI)
  show "cl_Revision c s0 \<le> cl_Revision c s'" using assms(2,3) by (simp add: precedes_def applied_def)
  fix k kv0 kv
  assume kv: "cl_Get c k s0 = Some kv0" "cl_Get c k s' = Some kv" "kv_ModRevision kv = kv_ModRevision kv0"
  have "kv_ModRevision kv0 \<le> cl_Revision c s"
    using kv(1) assms(1,2) unfolding etcd_service_def precedes_def by fastforce
  then show "kv = kv0" using applied_get [OF assms(3), of k] kv assms(2)
    by (auto simp: precedes_def split: option.splits)
qed

text \<open>If the comparisons of a transaction hold, the operation would compute the same transaction again.\<close>

lemma request_txn_again:
  assumes s: "etcd_service (eb_client e)" "precedes (eb_client e) s0 (eb_state e)"
    and req: "request_txn req (e\<lparr>eb_state := s0\<rparr>) = Inr (w, cmps, ops)"
    and cmps: "list_all (cmp_holds (eb_client e) (eb_state e)) cmps"
  shows "request_txn req e = Inr (w, cmps, ops)"
proof -
  have get: "cl_Get (eb_client e) k (eb_state e) = Some kv"
    if "cl_Get (eb_client e) k s0 = Some kv" "ModRevisionIs k (kv_ModRevision kv) \<in> set cmps" for k kv
  proof -
    have "0 < kv_ModRevision kv" using s(1) that(1) unfolding etcd_service_def by blast
    moreover have "cmp_holds (eb_client e) (eb_state e) (ModRevisionIs k (kv_ModRevision kv))"
      using cmps that(2) unfolding list_all_iff by blast
    ultimately obtain kv' where "cl_Get (eb_client e) k (eb_state e) = Some kv'" "kv_ModRevision kv' = kv_ModRevision kv"
      by (auto split: option.splits)
    then show ?thesis using s(2) that(1) unfolding precedes_def by metis
  qed
  show ?thesis
  proof (cases req)
    case (RequestCreate env zp)
    then show ?thesis using req by simp
  next
    case (RequestUpdate env z v)
    let ?k = "zoneKey e (NormalizeZoneName (z_Name z))"
    have t: "update_txn env z v (cl_Get (eb_client e) ?k s0) e = Inr (the w, cmps, ops)" "w = Some (the w)"
      using req RequestUpdate by (auto simp: get_key_def bindE_def split: sum.splits)
    then obtain kv where "cl_Get (eb_client e) ?k s0 = Some kv" "ModRevisionIs ?k (kv_ModRevision kv) \<in> set cmps"
      by (auto simp: update_txn_def unchanged_cmps_def bindE_def Let_def split: option.splits sum.splits if_splits)
    then show ?thesis using get t RequestUpdate by (simp add: get_key_def)
  next
    case (RequestDNSSEC env n d)
    let ?k = "zoneKey e (NormalizeZoneName n)"
    have t: "dnssec_txn env n d (cl_Get (eb_client e) ?k s0) e = Inr (cmps, ops)" "w = None"
      using req RequestDNSSEC by (auto simp: get_key_def bindE_def split: sum.splits)
    then obtain kv where "cl_Get (eb_client e) ?k s0 = Some kv" "ModRevisionIs ?k (kv_ModRevision kv) \<in> set cmps"
      by (auto simp: dnssec_txn_def bindE_def Let_def split: option.splits sum.splits)
    then show ?thesis using get t RequestDNSSEC by (simp add: get_key_def)
  next
    case (RequestDelete n v)
    let ?k = "zoneKey e (NormalizeZoneName n)"
    have t: "delete_txn n v (cl_Get (eb_client e) ?k s0) e = Inr (cmps, ops)" "w = None"
      using req RequestDelete by (auto simp: get_key_def bindE_def split: sum.splits)
    then obtain kv where "cl_Get (eb_client e) ?k s0 = Some kv" "ModRevisionIs ?k (kv_ModRevision kv) \<in> set cmps"
      by (auto simp: delete_txn_def unchanged_cmps_def Let_def split: option.splits)
    then show ?thesis using get t RequestDelete by (simp add: get_key_def)
  qed
qed

text \<open>All transactions of the backend write each key once.\<close>

lemma distinct_put_key: "distinct (op_keys [PutKey k v])"
  by (simp add: op_keys_def)

lemma request_ops_distinct: "request_txn req e = Inr (w, cmps, ops) \<Longrightarrow> distinct (op_keys ops)"
  by (cases req) (auto simp: create_txn_def update_txn_def dnssec_txn_def delete_txn_def Let_def distinct_zone_puts
      distinct_delete_zone distinct_put_key bindE_def get_key_def
      split: sum.splits option.splits if_splits)

definition pending_since :: "'s EtcdBackend \<Rightarrow> etcd_request \<times> Zone option \<times> etcd_cmp list \<times> etcd_op list \<Rightarrow> bool" where
  "pending_since e = (\<lambda>(req, txn). \<exists>s0. precedes (eb_client e) s0 (eb_state e)
     \<and> request_txn req (e\<lparr>eb_state := s0\<rparr>) = Inr txn)"

lemma pending_since_now: "request_txn req e = Inr txn \<Longrightarrow> pending_since e (req, txn)"
  using precedes_refl unfolding pending_since_def by (intro case_prodI exI [of _ "eb_state e"]) simp

text \<open>The system is where running its log from \<open>e\<close> leads, and each pending transaction was computed on the way.\<close>

definition serialised :: "'s EtcdBackend \<Rightarrow> 's etcd_system \<Rightarrow> bool" where
  "serialised e y \<longleftrightarrow> ys_backend y = fold etcd_atomic (ys_log y) e \<and> etcd_service (eb_client (ys_backend y))
     \<and> (\<forall>i p. ys_pending y i = Some p \<longrightarrow> pending_since (ys_backend y) p)
     \<and> (\<forall>l1 req w l2. ys_log y = l1 @ RequestDone req w # l2 \<longrightarrow>
          fst (run_request healthy req (fold etcd_atomic l1 e)) = Inr w)"

lemma serialisedI:
  assumes "ys_backend y = fold etcd_atomic (ys_log y) e" "etcd_service (eb_client (ys_backend y))"
    and "\<And>i p. ys_pending y i = Some p \<Longrightarrow> pending_since (ys_backend y) p"
    and "\<And>l1 req w l2. ys_log y = l1 @ RequestDone req w # l2 \<Longrightarrow>
      fst (run_request healthy req (fold etcd_atomic l1 e)) = Inr w"
  shows "serialised e y"
  using assms unfolding serialised_def by blast

lemma serialisedD:
  assumes "serialised e y"
  shows "ys_backend y = fold etcd_atomic (ys_log y) e" "etcd_service (eb_client (ys_backend y))"
    and "ys_pending y i = Some p \<Longrightarrow> pending_since (ys_backend y) p"
    and "ys_log y = l1 @ RequestDone req w # l2 \<Longrightarrow> fst (run_request healthy req (fold etcd_atomic l1 e)) = Inr w"
  using assms unfolding serialised_def by blast+

lemma pending_since_applied:
  assumes "etcd_service (eb_client e)" "pending_since e p" "applied (eb_client e) ops (eb_state e) s'"
  shows "pending_since (e\<lparr>eb_state := s'\<rparr>) p"
  using assms(2) precedes_applied [OF assms(1) _ assms(3)] unfolding pending_since_def by fastforce

lemma append_last_split:
  "xs @ [x] = l1 @ y # l2 \<longleftrightarrow> (l2 = [] \<and> l1 = xs \<and> y = x) \<or> (\<exists>l2'. l2 = l2' @ [x] \<and> xs = l1 @ y # l2')"
  by (cases l2 rule: rev_cases) auto

lemma serialised_effect:
  assumes "serialised e y" "applied (eb_client (ys_backend y)) ops (eb_state (ys_backend y)) s'"
    and "etcd_atomic eff (ys_backend y) = (ys_backend y)\<lparr>eb_state := s'\<rparr>"
    and "\<And>req w. eff = RequestDone req w \<Longrightarrow> fst (run_request healthy req (ys_backend y)) = Inr w"
    and "\<And>i p. pend i = Some p \<Longrightarrow> ys_pending y i = Some p"
  shows "serialised e (y\<lparr>ys_backend := (ys_backend y)\<lparr>eb_state := s'\<rparr>, ys_pending := pend, ys_log := ys_log y @ [eff]\<rparr>)"
proof -
  note d = serialisedD [OF assms(1)]
  have "pending_since ((ys_backend y)\<lparr>eb_state := s'\<rparr>) p" if "pend i = Some p" for i p
    using pending_since_applied [OF d(2) d(3) [OF assms(5) [OF that]] assms(2)] .
  moreover have "fst (run_request healthy req (fold etcd_atomic l1 e)) = Inr w"
    if "ys_log y @ [eff] = l1 @ RequestDone req w # l2" for l1 req w l2
    using that assms(4) d(1,4) by (auto simp: append_last_split)
  moreover have "fold etcd_atomic (ys_log y @ [eff]) e = (ys_backend y)\<lparr>eb_state := s'\<rparr>"
    using assms(3) d(1) by simp
  ultimately show ?thesis using d(2) by (intro serialisedI) simp_all
qed

lemma etcd_step_serialised:
  assumes "etcd_step y y'" "serialised e y"
  shows "serialised e y'"
  using assms
proof (induction rule: etcd_step.induct)
  case (Read req y w cmps ops i)
  note d = serialisedD [OF Read.prems]
  show ?case
    using d(1,2,4) d(3) pending_since_now [OF Read.hyps] by (intro serialisedI) (auto split: if_splits)
next
  case (Commit y i req w cmps ops out r e')
  let ?e = "ys_backend y"
  have s: "etcd_service (eb_client ?e)" by (rule serialisedD(2) [OF Commit.prems])
  have keep: "serialised e (y\<lparr>ys_pending := (ys_pending y)(i := None)\<rparr>)"
    using serialisedD [OF Commit.prems] by (intro serialisedI) (auto split: if_splits)
  show ?case
  proof (cases "out = Rejected \<or> cl_Txn (eb_client ?e) cmps ops (eb_state ?e) = None")
    case True
    then have "e' = ?e" using Commit.hyps(2) by (auto simp: commit_txn_def split: if_splits)
    then show ?thesis using True keep by auto
  next
    case False
    then obtain s' where s': "cl_Txn (eb_client ?e) cmps ops (eb_state ?e) = Some s'" by auto
    then have e': "e' = ?e\<lparr>eb_state := s'\<rparr>" using False Commit.hyps(2) by (auto simp: commit_txn_def split: if_splits)
    obtain s0 where s0: "precedes (eb_client ?e) s0 (eb_state ?e)" "request_txn req (?e\<lparr>eb_state := s0\<rparr>) = Inr (w, cmps, ops)"
      using serialisedD(3) [OF Commit.prems Commit.hyps(1)] by (auto simp: pending_since_def)
    note t = etcd_txn_Some [OF s request_ops_distinct [OF s0(2)] s']
    have r: "run_request healthy req ?e = (Inr w, e')"
      using run_request_txn [OF request_txn_again [OF s s0 t(1)] s'] e' by simp
    have "serialised e (y\<lparr>ys_backend := ?e\<lparr>eb_state := s'\<rparr>, ys_pending := (ys_pending y)(i := None),
        ys_log := ys_log y @ [RequestDone req w]\<rparr>)"
      using r e' by (intro serialised_effect [OF Commit.prems t(2)]) (auto split: if_splits)
    then show ?thesis using False s' e' by simp
  qed
next
  case (Remove y n v)
  let ?e = "ys_backend y"
  have "applied (eb_client ?e) [DeleteKey k] (eb_state ?e) (cl_Delete (eb_client ?e) k (eb_state ?e))" for k
    using serialisedD(2) [OF Remove] unfolding etcd_service_def by blast
  from serialised_effect [OF Remove this, of "RevisionRemoved n v" "historyKey ?e n v" "ys_pending y"]
  show ?case by simp
qed

lemma etcd_run_serialised: "etcd_run y y' \<Longrightarrow> serialised e y \<Longrightarrow> serialised e y'"
  by (induction rule: etcd_run.induct) (auto dest: etcd_step_serialised)

definition example_edit :: etcd_request where
  "example_edit = RequestUpdate (example_env ''v2'') (example_zone\<lparr>z_Version := ''v0''\<rparr>) ''v1''"

lemma example_reads:
  "request_txn example_edit example_cluster =
    Inr (Some example_again, [ModRevisionIs ''/p/zones/ex.'' 2, ValueIs ''/p/versions/ex.'' ''v1''],
      [PutKey ''/p/zones/ex.'' ''3'', PutKey ''/p/versions/ex.'' ''v0'', PutKey ''/p/history/ex./v0'' ''3''])"
  "request_txn (RequestDelete ''EX'' ''v1'') example_cluster =
    Inr (None, [ModRevisionIs ''/p/zones/ex.'' 2, ValueIs ''/p/versions/ex.'' ''v1''],
      [DeleteKey ''/p/zones/ex.'', DeleteKey ''/p/versions/ex.''])"
  by code_simp+

text \<open>Two controllers read the zone; the update commits, then the deletion, which is refused.\<close>

lemma example_race:
  obtains y where "etcd_run (etcd_system_of example_cluster) y" "ys_pending y = Map.empty"
    "ys_log y = [RequestDone example_edit (Some example_again)]"
proof -
  let ?cmps = "[ModRevisionIs ''/p/zones/ex.'' 2, ValueIs ''/p/versions/ex.'' ''v1'']"
  let ?put = "[PutKey ''/p/zones/ex.'' ''3'', PutKey ''/p/versions/ex.'' ''v0'', PutKey ''/p/history/ex./v0'' ''3'']"
  let ?del = "[DeleteKey ''/p/zones/ex.'', DeleteKey ''/p/versions/ex.'']"
  let ?s' = "map op_entry ?put # eb_state example_cluster"
  let ?e' = "example_cluster\<lparr>eb_state := ?s'\<rparr>"
  let ?req2 = "RequestDelete ''EX'' ''v1''"
  define y0 where "y0 = etcd_system_of example_cluster"
  define y1 where "y1 = y0\<lparr>ys_pending := (ys_pending y0)(1 \<mapsto> (example_edit, Some example_again, ?cmps, ?put))\<rparr>"
  define y2 where "y2 = y1\<lparr>ys_pending := (ys_pending y1)(2 \<mapsto> (?req2, None, ?cmps, ?del))\<rparr>"
  define y3 where "y3 = y2\<lparr>ys_backend := ?e', ys_pending := (ys_pending y2)(1 := None),
    ys_log := ys_log y2 @ [RequestDone example_edit (Some example_again)]\<rparr>"
  define y4 where "y4 = y3\<lparr>ys_backend := ?e', ys_pending := (ys_pending y3)(2 := None), ys_log := ys_log y3 @ []\<rparr>"
  note ys = y0_def y1_def y2_def y3_def y4_def etcd_system_of_def
  have txn: "cl_Txn (eb_client example_cluster) ?cmps ?put (eb_state example_cluster) = Some ?s'"
    "cl_Txn (eb_client example_cluster) ?cmps ?del ?s' = None"
    by (simp_all add: example_cluster_def)
  have "etcd_run y0 y1"
    unfolding y1_def by (rule etcd_more [OF etcd_start Read]) (simp add: ys example_reads del: request_txn.simps)
  then have "etcd_run y0 y2"
    unfolding y2_def by (rule etcd_more [OF _ Read]) (simp add: ys example_reads del: request_txn.simps)
  moreover have "etcd_step y2 y3"
    using Commit [of y2 1 example_edit "Some example_again" ?cmps ?put Answered "Inr True" ?e'] txn(1)
    by (simp add: y3_def) (simp add: ys commit_txn_cases)
  moreover have "etcd_step y3 y4"
    using Commit [of y3 2 ?req2 None ?cmps ?del Answered "Inr False" ?e'] txn(2)
    by (simp add: y4_def) (simp add: ys commit_txn_cases)
  ultimately have run: "etcd_run (etcd_system_of example_cluster) y4" unfolding y0_def [symmetric] by (blast intro: etcd_more)
  moreover have "ys_log y4 = [RequestDone example_edit (Some example_again)]" "ys_pending y4 = Map.empty"
    by (auto simp: ys)
  ultimately show ?thesis using that by blast
qed

text \<open>
  C3: However the operations of controllers that share a cluster interleave, with requests that fail, answers that are lost and revisions
  that are removed: the cluster is as if the operations that took effect had run alone, one after the other, in the
  order of their commits; and run like that each of them succeeds with the zone it returned.
\<close>

theorem etcd_operations_serialise:
  assumes "etcd_service (eb_client e)" "etcd_run (etcd_system_of e) y"
  shows "ys_backend y = fold etcd_atomic (ys_log y) e \<and>
    (\<forall>l1 req w l2. ys_log y = l1 @ RequestDone req w # l2 \<longrightarrow>
      fst (run_request healthy req (fold etcd_atomic l1 e)) = Inr w)"
proof -
  have "serialised e (etcd_system_of e)" using assms(1) by (simp add: serialised_def etcd_system_of_def)
  then show ?thesis using etcd_run_serialised [OF assms(2)] serialisedD(1,4) by blast
qed

theorem etcd_operations_serialise_witness:
  "\<exists>y. etcd_run (etcd_system_of example_cluster) y \<and> ys_log y = [RequestDone example_edit (Some example_again)]
    \<and> ys_backend y = etcd_atomic (RequestDone example_edit (Some example_again)) example_cluster"
proof -
  obtain y where y: "etcd_run (etcd_system_of example_cluster) y" "ys_log y = [RequestDone example_edit (Some example_again)]"
    using example_race .
  have "etcd_service (eb_client example_cluster)" using ref_service by (simp add: example_cluster_def)
  then show ?thesis using etcd_operations_serialise [OF _ y(1)] y by auto
qed

subsection \<open>What every controller sees\<close>

text \<open>Transactions and deletions that touch the history only.\<close>

lemma history_only:
  assumes "applied (eb_client e) ops (eb_state e) s'" "\<And>k. k \<in> set (op_keys ops) \<Longrightarrow> \<exists>n v. k = historyPrefixForZone e n @ v"
  shows "value_at (e\<lparr>eb_state := s'\<rparr>) (zonesPrefix e @ k) = value_at e (zonesPrefix e @ k)"
    "value_at (e\<lparr>eb_state := s'\<rparr>) (versionPrefix e @ k) = value_at e (versionPrefix e @ k)"
proof -
  have "zonesPrefix e @ k \<notin> set (op_keys ops)" "versionPrefix e @ k \<notin> set (op_keys ops)"
    using assms(2) [of "zonesPrefix e @ k"] assms(2) [of "versionPrefix e @ k"] by auto
  then have "map_of (map op_entry ops) (zonesPrefix e @ k) = None" "map_of (map op_entry ops) (versionPrefix e @ k) = None"
    by (simp_all add: map_of_eq_None_iff op_keys_def image_comp)
  then show "value_at (e\<lparr>eb_state := s'\<rparr>) (zonesPrefix e @ k) = value_at e (zonesPrefix e @ k)"
    "value_at (e\<lparr>eb_state := s'\<rparr>) (versionPrefix e @ k) = value_at e (versionPrefix e @ k)"
    by (simp_all add: applied_value_at [OF assms(1)])
qed

lemma history_only_contract:
  assumes "etcd_inv e" "applied (eb_client e) ops (eb_state e) s'"
    and "\<And>k. k \<in> set (op_keys ops) \<Longrightarrow> \<exists>n v. k = historyPrefixForZone e n @ v"
  shows "etcd_inv (e\<lparr>eb_state := s'\<rparr>)" "etcd_contents (e\<lparr>eb_state := s'\<rparr>) = etcd_contents e"
  using assms(1) history_only [OF assms(2,3)]
  by (simp_all add: etcd_inv_def zone_entry_ok_def etcd_contents_def fun_eq_iff cong: option.case_cong)

lemma delete_applied: "etcd_service c \<Longrightarrow> applied c [DeleteKey k] s (cl_Delete c k s)"
  unfolding etcd_service_def by blast

lemma delete_history_contract:
  assumes "etcd_inv e"
  shows "etcd_inv (e\<lparr>eb_state := cl_Delete (eb_client e) (historyPrefixForZone e n @ v) (eb_state e)\<rparr>)"
    "etcd_contents (e\<lparr>eb_state := cl_Delete (eb_client e) (historyPrefixForZone e n @ v) (eb_state e)\<rparr>) = etcd_contents e"
  using history_only_contract [OF assms delete_applied [OF etcd_inv_service [OF assms], of "historyPrefixForZone e n @ v"]]
  by (auto simp: op_keys_def)

lemma write_zone_data_contract:
  assumes inv: "etcd_inv e" and ap: "applied (eb_client e) [PutKey (zonesPrefix e @ n) d] (eb_state e) s'"
    and old: "etcd_contents e n = Some z" and w: "z_Version w = z_Version z" "stored_ok (n, w)" "marshal_zone e w = Inr d"
  shows "etcd_inv (e\<lparr>eb_state := s'\<rparr>)" "etcd_contents (e\<lparr>eb_state := s'\<rparr>) = (etcd_contents e)(n \<mapsto> w)"
proof -
  have v: "value_at (e\<lparr>eb_state := s'\<rparr>) (zonesPrefix e @ k) = (if k = n then Some d else value_at e (zonesPrefix e @ k))"
    "value_at (e\<lparr>eb_state := s'\<rparr>) (versionPrefix e @ k) = value_at e (versionPrefix e @ k)" for k
    by (simp_all add: applied_value_at [OF ap])
  have d: "jz_Unmarshal (eb_codec e) d = Some w"
    using inv w(3) by (auto simp: etcd_inv_def json_codec_def marshal_zone_def split: option.splits)
  show "etcd_contents (e\<lparr>eb_state := s'\<rparr>) = (etcd_contents e)(n \<mapsto> w)" using v d by (auto simp: etcd_contents_def)
  show "etcd_inv (e\<lparr>eb_state := s'\<rparr>)"
    using inv w(1,2) d etcd_contents_Some(2) [OF inv old] by (simp add: etcd_inv_def zone_entry_ok_def v cong: option.case_cong)
qed

lemma etcd_UpdateDNSSECMetadata_ok:
  assumes "etcd_inv e" "etcd_UpdateDNSSECMetadata healthy env n d e = (None, e')"
  shows "etcd_inv e' \<and> (\<exists>z. etcd_contents e (NormalizeZoneName n) = Some z \<and>
    etcd_contents e' = (etcd_contents e)(NormalizeZoneName n \<mapsto> z\<lparr>z_DNSSEC := d, z_UpdatedAt := e_now env\<rparr>))"
proof -
  let ?k = "NormalizeZoneName n"
  let ?w = "\<lambda>z. z\<lparr>z_DNSSEC := d, z_UpdatedAt := e_now env\<rparr>"
  obtain kv z data cmps s' where kv: "cl_Get (eb_client e) (zonesPrefix e @ ?k) (eb_state e) = Some kv"
    and z: "unmarshal_zone e kv = Inr z" and data: "marshal_zone e (?w z) = Inr data"
    and txn: "cl_Txn (eb_client e) cmps [PutKey (zonesPrefix e @ ?k) data] (eb_state e) = Some s'"
    and e': "e' = e\<lparr>eb_state := s'\<rparr>"
    using assms(2)
    by (auto simp: etcd_UpdateDNSSECMetadata_def dnssec_txn_def commit_or_explain_def commit_txn_cases healthy_def bindE_def
        get_key_def keys_as_prefix NormalizeZoneName_idem Let_def split: sum.splits option.splits prod.splits if_splits)
  have c: "etcd_contents e ?k = Some z" using etcd_contents_kv [OF assms(1), of ?k] kv z by auto
  have "stored_ok (?k, ?w z)" using etcd_contents_Some(1) [OF assms(1) c] ValidateZone_cong [of "?w z" z] by (simp add: stored_ok_def)
  then show ?thesis
    using write_zone_data_contract [OF assms(1) etcd_txn_Some(2) [OF etcd_inv_service [OF assms(1)] distinct_put_key txn] c _ _ data] c
    by (simp add: e')
qed

lemma commit_or_explain_error: "commit_or_explain healthy key txn e = (Some err, e') \<Longrightarrow> e' = e"
  by (auto simp: commit_or_explain_def commit_txn_cases healthy_def split: sum.splits option.splits prod.splits if_splits)

fun request_ok :: "etcd_request \<Rightarrow> bool" where
  "request_ok (RequestCreate env zp) = env_ok env"
| "request_ok (RequestUpdate env z v) = env_ok env"
| "request_ok (RequestDNSSEC env n d) = True"
| "request_ok (RequestDelete n v) = True"

lemma run_request_inv:
  assumes "etcd_inv e" "request_ok req"
  shows "etcd_inv (snd (run_request healthy req e))"
proof (cases req)
  case (RequestCreate env zp)
  then show ?thesis using assms etc.run_inv [OF assms(1), of "[OpCreate env zp]"] by simp
next
  case (RequestUpdate env z v)
  then show ?thesis using assms etc.run_inv [OF assms(1), of "[OpUpdate env z v]"] by simp
next
  case (RequestDNSSEC env n d)
  obtain r e' where u: "etcd_UpdateDNSSECMetadata healthy env n d e = (r, e')" by fastforce
  show ?thesis
  proof (cases r)
    case None
    then show ?thesis using u RequestDNSSEC etcd_UpdateDNSSECMetadata_ok [OF assms(1)] by (auto simp: without_result_def)
  next
    case (Some err)
    then have "e' = e" using u commit_or_explain_error by (auto simp: etcd_UpdateDNSSECMetadata_def Let_def)
    then show ?thesis using u RequestDNSSEC assms(1) by (simp add: without_result_def)
  qed
next
  case (RequestDelete n v)
  then show ?thesis using assms etc.run_inv [OF assms(1), of "[OpDelete n v]"] by (simp add: without_result_def)
qed

fun effect_ok :: "etcd_effect \<Rightarrow> bool" where
  "effect_ok (RequestDone req w) = request_ok req"
| "effect_ok (RevisionRemoved n v) = True"

lemma etcd_atomic_inv: "etcd_inv e \<Longrightarrow> effect_ok eff \<Longrightarrow> etcd_inv (etcd_atomic eff e)"
  by (cases eff) (auto simp: run_request_inv delete_history_contract keys_as_prefix)

lemma etcd_atomics_inv: "etcd_inv e \<Longrightarrow> list_all effect_ok effs \<Longrightarrow> etcd_inv (fold etcd_atomic effs e)"
  by (induction effs arbitrary: e) (auto intro: etcd_atomic_inv)

lemma etcd_GetCurrentVersion_spec:
  assumes "etcd_inv e"
  shows "etcd_GetCurrentVersion Answered e n =
    (case etcd_contents e (NormalizeZoneName n) of None \<Rightarrow> Inl ErrZoneNotFound | Some z \<Rightarrow> Inr (z_Version z))"
  using zone_entry_okD [OF assms, of "NormalizeZoneName n"]
  by (auto simp: etcd_GetCurrentVersion_def get_key_def keys_as_prefix NormalizeZoneName_idem zone_entry_ok_def etcd_contents_def
      value_at_def split: option.splits)

text \<open>
  C21: Controllers that share a cluster whose zones are valid never see anything else, however their operations interleave: a zone that is read
  at any time passes validation and has the name it was asked for, and the version key has its version; a name without a zone has
  no version either.
\<close>

theorem etcd_controllers_see_valid_zones:
  assumes "etcd_inv e" "etcd_run (etcd_system_of e) y" "list_all effect_ok (ys_log y)"
  shows "case etcd_GetZone Answered (ys_backend y) n of
      Inl err \<Rightarrow> err = ErrZoneNotFound \<and> etcd_GetCurrentVersion Answered (ys_backend y) n = Inl ErrZoneNotFound
    | Inr z \<Rightarrow> ValidateZone (Some z) = None \<and> z_Name z = NormalizeZoneName n \<and> z_Version z \<noteq> []
        \<and> etcd_GetCurrentVersion Answered (ys_backend y) n = Inr (z_Version z)"
proof -
  have "serialised e (etcd_system_of e)"
    using etcd_inv_service [OF assms(1)] by (simp add: serialised_def etcd_system_of_def)
  then have "etcd_inv (ys_backend y)"
    using etcd_run_serialised [OF assms(2)] etcd_atomics_inv [OF assms(1,3)] serialisedD(1) by fastforce
  then show ?thesis using etc.stored_law
    by (auto simp: etcd_GetZone_spec etcd_GetCurrentVersion_spec split: option.split)
qed

theorem etcd_controllers_see_valid_zones_witness:
  "\<exists>y. etcd_run (etcd_system_of example_cluster) y \<and> ys_log y = [RequestDone example_edit (Some example_again)]
    \<and> (\<forall>z. etcd_GetZone Answered (ys_backend y) ''ex.'' = Inr z \<longrightarrow>
         etcd_GetCurrentVersion Answered (ys_backend y) ''ex.'' = Inr (z_Version z))"
proof -
  obtain y where y: "etcd_run (etcd_system_of example_cluster) y" "ys_log y = [RequestDone example_edit (Some example_again)]"
    using example_race .
  have "list_all effect_ok (ys_log y)" using y(2) by (simp add: example_edit_def example_env_ok)
  then show ?thesis using etcd_controllers_see_valid_zones [OF example_cluster_inv y(1), of "''ex.''"] y
    by (intro exI [of _ y]) auto
qed

end
