(* ===== verification/Etcd_Reads.thy ===== *)
theory Etcd_Reads
  imports Etcd_Laws
begin

section \<open>Lists, revisions and watchers of the etcd backend (pkg/backend/etcd.go)\<close>

text \<open>
  Lists of zones and of summaries come from different keys of the cluster and agree; a write records a revision; the clean-up
  keeps the newest revisions and nothing else changes; a watcher gets the events in their order.
\<close>

subsection \<open>Ranges\<close>

lemma append_less_append: "p @ a < p @ b \<longleftrightarrow> a < (b :: string)"
  by (induction p) simp_all

lemma HasPrefix_drop: "HasPrefix k p \<Longrightarrow> p @ drop (length p) k = k"
  by (auto simp: HasPrefix_iff)

text \<open>A range is the sorted list of the names behind the prefix, with their entries.\<close>

definition entries :: "'s etcd_client \<Rightarrow> string \<Rightarrow> 's \<Rightarrow> string list \<Rightarrow> (string \<times> etcd_kv) list" where
  "entries c p s ks = map (\<lambda>k. (p @ k, the (cl_Get c (p @ k) s))) ks"

lemma range_entries:
  assumes "etcd_service c"
  obtains ks where "cl_Range c p s = entries c p s ks" "sorted_wrt (<) ks" "set ks = {k. cl_Get c (p @ k) s \<noteq> None}"
proof -
  have r: "sorted_wrt (<) (map fst (cl_Range c p s))"
    "set (cl_Range c p s) = {(k, kv). HasPrefix k p \<and> cl_Get c k s = Some kv}"
    using assms unfolding etcd_service_def by blast+
  define ks where "ks = map (drop (length p) \<circ> fst) (cl_Range c p s)"
  have k: "map ((@) p) ks = map fst (cl_Range c p s)"
    using r(2) by (auto simp: ks_def HasPrefix_drop)
  then have "sorted_wrt (<) (map ((@) p) ks)" using r(1) by simp
  then have s: "sorted_wrt (<) ks" by (simp add: sorted_wrt_map append_less_append)
  have "cl_Range c p s = entries c p s ks"
    using r(2) by (auto simp: entries_def ks_def comp_def HasPrefix_drop intro!: map_idI [symmetric])
  moreover have "set ks = {k. cl_Get c (p @ k) s \<noteq> None}"
  proof -
    have "(@) p ` set ks = fst ` set (cl_Range c p s)" using arg_cong [OF k, of set] by simp
    also have "\<dots> = {k. HasPrefix k p \<and> cl_Get c k s \<noteq> None}" by (auto simp: r(2) image_iff)
    also have "\<dots> = (@) p ` {k. cl_Get c (p @ k) s \<noteq> None}" by (auto simp: HasPrefix_iff image_iff)
    finally show ?thesis by (subst (asm) inj_image_eq_iff) (simp_all add: inj_on_def)
  qed
  ultimately show ?thesis using that s by blast
qed

lemma sorted_names_unique:
  "sorted_wrt (<) xs \<Longrightarrow> sorted_wrt (<) ys \<Longrightarrow> set xs = set ys \<Longrightarrow> xs = (ys :: string list)"
  by (rule strict_sorted_equal) simp_all

subsection \<open>Lists\<close>

lemma etcd_page_map: "etcd_page opts (map f xs) = map f (etcd_page opts xs)"
  by (simp add: etcd_page_def Let_def drop_map take_map)

text \<open>The limit in the request for the summaries does not change the page.\<close>

lemma summaries_page:
  assumes "offset = (if lo_Offset opts < 0 then 0 else lo_Offset opts)"
    and "kvs = (if 0 < lo_Limit opts then take (nat (offset + lo_Limit opts)) all else all)"
    and "end1 = (if 0 < lo_Limit opts \<and> offset + lo_Limit opts < int (length kvs) then offset + lo_Limit opts else int (length kvs))"
  shows "(if int (length kvs) < offset then [] else drop (nat offset) (take (nat end1) kvs)) = etcd_page opts all"
proof (cases "0 < lo_Limit opts")
  case True
  have "0 \<le> offset" using assms(1) by simp
  with True show ?thesis unfolding etcd_page_def Let_def assms(1) [symmetric] using assms(2,3)
    by (cases "offset + lo_Limit opts < int (length all)") (auto simp: min_def)
next
  case False
  then show ?thesis unfolding etcd_page_def Let_def assms(1) [symmetric] using assms(2,3) by simp
qed

lemma unmarshal_entries:
  assumes "etcd_inv e" "set ks \<subseteq> {k. cl_Get (eb_client e) (zonesPrefix e @ k) (eb_state e) \<noteq> None}"
  shows "unmarshal_all e (entries (eb_client e) (zonesPrefix e) (eb_state e) ks) = Inr (map (\<lambda>k. the (etcd_contents e k)) ks)"
  using assms(2)
proof (induction ks)
  case (Cons k ks)
  then obtain z where "unmarshal_zone e (the (cl_Get (eb_client e) (zonesPrefix e @ k) (eb_state e))) = Inr z" "etcd_contents e k = Some z"
    using etcd_contents_kv [OF assms(1), of k] by auto
  then show ?case using Cons by (simp add: entries_def)
qed (simp add: entries_def)

lemma zone_names:
  assumes "etcd_inv e"
  obtains ks where "sorted_wrt (<) ks" "set ks = dom (etcd_contents e)"
    "cl_Range (eb_client e) (zonesPrefix e) (eb_state e) = entries (eb_client e) (zonesPrefix e) (eb_state e) ks"
    "cl_Range (eb_client e) (versionPrefix e) (eb_state e) = entries (eb_client e) (versionPrefix e) (eb_state e) ks"
proof -
  let ?c = "eb_client e" let ?s = "eb_state e"
  obtain ks where ks: "cl_Range ?c (zonesPrefix e) ?s = entries ?c (zonesPrefix e) ?s ks" "sorted_wrt (<) ks"
      "set ks = {k. cl_Get ?c (zonesPrefix e @ k) ?s \<noteq> None}"
    using range_entries [OF etcd_inv_service [OF assms]] .
  obtain vs where vs: "cl_Range ?c (versionPrefix e) ?s = entries ?c (versionPrefix e) ?s vs" "sorted_wrt (<) vs"
      "set vs = {k. cl_Get ?c (versionPrefix e @ k) ?s \<noteq> None}"
    using range_entries [OF etcd_inv_service [OF assms]] .
  have "cl_Get ?c (zonesPrefix e @ k) ?s \<noteq> None \<longleftrightarrow> cl_Get ?c (versionPrefix e @ k) ?s \<noteq> None" for k
    using zone_entry_okD [OF assms, of k] by (auto simp: zone_entry_ok_def value_at_def split: option.splits)
  then have "vs = ks" using ks(2,3) vs(2,3) by (intro sorted_names_unique) auto
  moreover have "set ks = dom (etcd_contents e)"
    using ks(3) etcd_contents_kv [OF assms] by (force split: option.splits)
  ultimately show ?thesis using that ks vs by blast
qed

text \<open>Both lists as pages of the same list of zones.\<close>

abbreviation summary_of :: "Zone \<Rightarrow> ZoneSummary" where
  "summary_of z \<equiv> \<lparr>zs_Name = z_Name z, zs_Version = z_Version z\<rparr>"

lemma etcd_ListZones_page:
  assumes inv: "etcd_inv e" and ks: "sorted_wrt (<) ks" "set ks = dom (etcd_contents e)"
    and r: "cl_Range (eb_client e) (zonesPrefix e) (eb_state e) = entries (eb_client e) (zonesPrefix e) (eb_state e) ks"
    and names: "map z_Name zs = ks" and zs: "zs = map (\<lambda>k. the (etcd_contents e k)) ks"
  shows "etcd_ListZones Answered e opts = Inr (etcd_page opts zs)"
proof -
  have "unmarshal_all e (entries (eb_client e) (zonesPrefix e) (eb_state e) ks) = Inr zs"
    using unmarshal_entries [OF inv, of ks] ks(2) etcd_contents_kv [OF inv] zs by (force split: option.splits)
  moreover have "sort_key z_Name zs = zs"
    using ks(1) names by (intro sort_key_id_if_sorted) (simp add: strict_sorted_iff)
  ultimately show ?thesis by (simp add: etcd_ListZones_def get_prefix_def r)
qed

lemma etcd_ListZoneSummaries_page:
  assumes inv: "etcd_inv e" and ks: "set ks = dom (etcd_contents e)"
    and r: "cl_Range (eb_client e) (versionPrefix e) (eb_state e) = entries (eb_client e) (versionPrefix e) (eb_state e) ks"
    and zs: "zs = map (\<lambda>k. the (etcd_contents e k)) ks"
  shows "etcd_ListZoneSummaries Answered e opts = Inr (map summary_of (etcd_page opts zs))"
proof -
  let ?r = "entries (eb_client e) (versionPrefix e) (eb_state e) ks"
  let ?g = "\<lambda>(k, kv). \<lparr>zs_Name = TrimPrefix k (versionPrefix e), zs_Version = kv_Value kv\<rparr>"
  have "etcd_ListZoneSummaries Answered e opts = Inr (map ?g (etcd_page opts ?r))"
    by (simp add: etcd_ListZoneSummaries_def get_prefix_def r Let_def summaries_page [OF refl refl refl, symmetric])
  moreover have "map ?g ?r = map summary_of zs"
  proof -
    have "?g (versionPrefix e @ k, the (cl_Get (eb_client e) (versionPrefix e @ k) (eb_state e))) = summary_of z"
      if "etcd_contents e k = Some z" for k z
      using etcd_contents_Some [OF inv that] by (auto simp: TrimPrefix_def value_at_def stored_ok_def)
    then show ?thesis using ks by (auto simp: entries_def zs)
  qed
  ultimately show ?thesis by (simp add: etcd_page_map [symmetric])
qed

lemma etcd_page_set: "set (etcd_page opts xs) \<subseteq> set xs"
  by (auto simp: etcd_page_def Let_def dest!: in_set_dropD in_set_takeD)

lemma etcd_page_sorted: "sorted_wrt P xs \<Longrightarrow> sorted_wrt P (etcd_page opts xs)"
  by (simp add: etcd_page_def Let_def sorted_wrt_drop sorted_wrt_take)

lemma etcd_page_all: "lo_Limit opts \<le> 0 \<Longrightarrow> lo_Offset opts \<le> 0 \<Longrightarrow> etcd_page opts xs = xs"
  by (auto simp: etcd_page_def Let_def)



subsection \<open>Revisions\<close>



subsection \<open>Removing old revisions\<close>

lemma delete_revision_keys_frame [simp]:
  "eb_client (delete_revision_keys outs i ks e) = eb_client e" "eb_codec (delete_revision_keys outs i ks e) = eb_codec e"
  "eb_prefix (delete_revision_keys outs i ks e) = eb_prefix e"
  by (induction outs i ks e rule: delete_revision_keys.induct) simp_all

lemma delete_get:
  assumes "etcd_service c"
  shows "cl_Get c k (cl_Delete c k' s) = (if k = k' then None else cl_Get c k s)"
  using applied_get [OF delete_applied [OF assms, of k' s], of k] by (simp split: if_splits)

lemma delete_revision_keys_get:
  assumes "etcd_service (eb_client e)"
  shows "cl_Get (eb_client e) k (eb_state (delete_revision_keys outs i ks e)) =
    (if \<exists>j<length ks. ks ! j = k \<and> outs (i + j) \<noteq> Rejected then None else cl_Get (eb_client e) k (eb_state e))"
  using assms
proof (induction outs i ks e rule: delete_revision_keys.induct)
  case (2 outs i k' ks e)
  have "(\<exists>j<length (k' # ks). (k' # ks) ! j = k \<and> outs (i + j) \<noteq> Rejected) \<longleftrightarrow>
      k' = k \<and> outs i \<noteq> Rejected \<or> (\<exists>j<length ks. ks ! j = k \<and> outs (Suc i + j) \<noteq> Rejected)"
    by (auto simp: less_Suc_eq_0_disj)
  then show ?case using 2 by (cases "outs i = Rejected") (auto simp: delete_get)
qed simp

text \<open>What the clean-up deletes: all but the greatest versions.\<close>

definition old_revisions :: "'s EtcdBackend \<Rightarrow> string \<Rightarrow> string list" where
  "old_revisions e n =
     map fst (drop defaultHistoryRetention (rev (cl_Range (eb_client e) (historyPrefixForZone e n) (eb_state e))))"

lemma cleanup_eq:
  "etcd_cleanupHistory out outs n e = (if out = Answered then delete_revision_keys outs 0 (old_revisions e n) e else e)"
  by (auto simp: etcd_cleanupHistory_def get_prefix_def old_revisions_def)

lemma old_revisions_keys:
  assumes "etcd_service (eb_client e)" "k \<in> set (old_revisions e n)"
  shows "\<exists>v. k = historyPrefixForZone e n @ v"
proof -
  obtain vs where "cl_Range (eb_client e) (historyPrefixForZone e n) (eb_state e) =
      entries (eb_client e) (historyPrefixForZone e n) (eb_state e) vs"
    using range_entries [OF assms(1)] .
  then show ?thesis using assms(2) by (auto simp: old_revisions_def entries_def dest!: in_set_dropD)
qed

lemma unmarshal_all_cong:
  assumes "eb_codec e' = eb_codec e"
  shows "unmarshal_all e' kvs = unmarshal_all e kvs"
  using assms by (induction kvs) (auto simp: unmarshal_zone_def bindE_def)

lemma unmarshal_all_take: "unmarshal_all e kvs = Inr zs \<Longrightarrow> unmarshal_all e (take n kvs) = Inr (take n zs)"
proof (induction kvs arbitrary: zs n)
  case (Cons x kvs)
  then show ?case by (cases x; cases n) (auto simp: bindE_def split: sum.splits)
qed simp

lemma cleanup_range:
  assumes s: "etcd_service (eb_client e)" and outs: "\<And>i. outs i \<noteq> Rejected"
    and e': "e' = etcd_cleanupHistory Answered outs n e"
  shows "rev (cl_Range (eb_client e) (historyPrefixForZone e n) (eb_state e')) =
    take defaultHistoryRetention (rev (cl_Range (eb_client e) (historyPrefixForZone e n) (eb_state e)))"
proof -
  let ?c = "eb_client e" let ?p = "historyPrefixForZone e n" let ?N = defaultHistoryRetention
  obtain vs where vs: "cl_Range ?c ?p (eb_state e) = entries ?c ?p (eb_state e) vs" "sorted_wrt (<) vs"
      "set vs = {k. cl_Get ?c (?p @ k) (eb_state e) \<noteq> None}"
    using range_entries [OF s] .
  obtain us where us: "cl_Range ?c ?p (eb_state e') = entries ?c ?p (eb_state e') us" "sorted_wrt (<) us"
      "set us = {k. cl_Get ?c (?p @ k) (eb_state e') \<noteq> None}"
    using range_entries [OF s] .
  have old: "old_revisions e n = map ((@) ?p) (drop ?N (rev vs))"
    by (simp add: old_revisions_def vs(1) entries_def rev_map drop_map)
  have get: "cl_Get ?c k (eb_state e') = (if k \<in> set (old_revisions e n) then None else cl_Get ?c k (eb_state e))" for k
    using delete_revision_keys_get [OF s, of k outs 0 "old_revisions e n"] outs by (auto simp: e' cleanup_eq in_set_conv_nth)
  have "set (rev vs) = set (take ?N (rev vs)) \<union> set (drop ?N (rev vs))"
    by (metis append_take_drop_id set_append)
  moreover have "set (take ?N (rev vs)) \<inter> set (drop ?N (rev vs)) = {}"
    using vs(2) by (intro set_take_disj_set_drop_if_distinct) (simp_all add: strict_sorted_iff)
  ultimately have "set us = set (take ?N (rev vs))" using vs(3) by (auto simp: us(3) get old)
  moreover have "sorted_wrt (<) (rev (take ?N (rev vs)))" using vs(2) by (simp add: take_rev sorted_wrt_drop)
  ultimately have "us = rev (take ?N (rev vs))" using us(2) by (intro sorted_names_unique) simp_all
  moreover have "cl_Get ?c (?p @ k) (eb_state e') = cl_Get ?c (?p @ k) (eb_state e)" if "k \<in> set us" for k
    using that us(3) get by auto
  ultimately show ?thesis
    unfolding us(1) vs(1) entries_def rev_map take_map by (auto simp: rev_map [symmetric])
qed

lemma delete_revisions_contract:
  assumes "etcd_inv e" "\<And>k. k \<in> set ks \<Longrightarrow> \<exists>n v. k = historyPrefixForZone e n @ v"
  shows "etcd_inv (delete_revision_keys outs i ks e) \<and> etcd_contents (delete_revision_keys outs i ks e) = etcd_contents e"
  using assms
proof (induction outs i ks e rule: delete_revision_keys.induct)
  case (2 outs i k ks e)
  let ?e = "if outs i = Rejected then e else e\<lparr>eb_state := cl_Delete (eb_client e) k (eb_state e)\<rparr>"
  obtain n v where "k = historyPrefixForZone e n @ v" using 2(3) [of k] by auto
  then have "etcd_inv ?e" "etcd_contents ?e = etcd_contents e" using delete_history_contract [OF 2(2)] 2(2) by simp_all
  moreover have "historyPrefixForZone ?e = historyPrefixForZone e" by (simp add: fun_eq_iff)
  ultimately show ?case using 2(1) 2(3) by simp
qed simp

lemma historyPrefix_norm [simp]: "historyPrefixForZone e (NormalizeZoneName n) = historyPrefixForZone e n"
  by (simp add: historyPrefixForZone_def NormalizeZoneName_idem)

lemma cleanup_frame:
  assumes "e' = etcd_cleanupHistory out outs n e"
  shows "eb_client e' = eb_client e" "eb_codec e' = eb_codec e" "historyPrefixForZone e' = historyPrefixForZone e"
    "historyKey e' = historyKey e"
  by (simp_all add: assms cleanup_eq fun_eq_iff historyPrefixForZone_def historyKey_def)

lemma cleanup_contract:
  assumes "etcd_inv e" "e' = etcd_cleanupHistory out outs n e"
  shows "etcd_inv e' \<and> etcd_contents e' = etcd_contents e"
  using delete_revisions_contract [OF assms(1), of "old_revisions e n"] old_revisions_keys [OF etcd_inv_service [OF assms(1)]] assms
  by (fastforce simp: cleanup_eq)

lemma cleanup_keeps_revision:
  assumes "etcd_inv e" "e' = etcd_cleanupHistory out outs n e" "historyKey e m u \<notin> set (old_revisions e n)"
  shows "etcd_GetRevision Answered e' m u = etcd_GetRevision Answered e m u"
proof -
  have "cl_Get (eb_client e) (historyKey e m u) (eb_state e') = cl_Get (eb_client e) (historyKey e m u) (eb_state e)"
    using delete_revision_keys_get [OF etcd_inv_service [OF assms(1)], of "historyKey e m u" outs 0 "old_revisions e n"] assms(2,3)
    by (auto simp: cleanup_eq in_set_conv_nth)
  then show ?thesis
    using cleanup_frame [OF assms(2)]
    by (simp add: etcd_GetRevision_def get_key_def keys_as_prefix unmarshal_zone_def cong: option.case_cong)
qed

lemma cleanup_list:
  assumes inv: "etcd_inv e" and e': "e' = etcd_cleanupHistory Answered outs n e" and outs: "\<And>i. outs i \<noteq> Rejected"
    and opts: "lo_Limit opts \<le> 0" "lo_Offset opts \<le> 0"
    and rs: "etcd_ListRevisions marshal sha256hex Answered e n opts = Inr rs"
  shows "etcd_ListRevisions marshal sha256hex Answered e' n opts = Inr (take defaultHistoryRetention rs)"
proof -
  let ?kvs = "\<lambda>e'. rev (cl_Range (eb_client e) (historyPrefixForZone e n) (eb_state e'))"
  note f = cleanup_frame [OF e']
  obtain zs where zs: "unmarshal_all e (?kvs e) = Inr zs" "rs = map (revision_of marshal sha256hex) zs"
    using rs by (auto simp: etcd_ListRevisions_def get_prefix_def etcd_page_all [OF opts] bindE_def split: sum.splits)
  have "?kvs e' = take defaultHistoryRetention (?kvs e)"
    using etcd_inv_service [OF inv] outs e' by (rule cleanup_range)
  then have "unmarshal_all e' (?kvs e') = Inr (take defaultHistoryRetention zs)"
    using unmarshal_all_take [OF zs(1)] unmarshal_all_cong [OF f(2)] by simp
  then show ?thesis
    using f zs(2) by (simp add: etcd_ListRevisions_def get_prefix_def etcd_page_all [OF opts] take_map)
qed

text \<open>
  C24: Removing old revisions, whichever of its requests fail, leaves all zones and versions and all but the old revisions as they were. Without
  failures the list of the revisions afterwards is the list before it, newest first, cut after the hundredth.
\<close>

theorem etcd_cleanup_keeps_newest:
  assumes "etcd_inv e" "e' = etcd_cleanupHistory out outs n e"
  shows "etcd_inv e' \<and> etcd_contents e' = etcd_contents e
    \<and> (\<forall>m u. historyKey e m u \<notin> set (old_revisions e n) \<longrightarrow>
        etcd_GetRevision Answered e' m u = etcd_GetRevision Answered e m u)
    \<and> (\<forall>rs f. out = Answered \<and> (\<forall>i. outs i \<noteq> Rejected)
        \<and> etcd_ListRevisions marshal sha256hex Answered e n \<lparr>lo_Limit = 0, lo_Offset = 0, lo_Filter = f\<rparr> = Inr rs \<longrightarrow>
        etcd_ListRevisions marshal sha256hex Answered e' n \<lparr>lo_Limit = 0, lo_Offset = 0, lo_Filter = f\<rparr> = Inr (take 100 rs))"
  using cleanup_contract [OF assms] cleanup_keeps_revision [OF assms] cleanup_list [OF assms(1), of e' outs n] assms(2)
  by (simp add: defaultHistoryRetention_def)

text \<open>A zone with 103 revisions.\<close>

definition many_revisions :: "nat \<Rightarrow> (string \<times> string option) list" where
  "many_revisions n = map (\<lambda>i. (''/p/history/ex./'' @ replicate (Suc i) CHR ''a'', Some ''1'')) [0..<n]"

definition example_history :: "ref_state EtcdBackend" where
  "example_history = example_cluster\<lparr>eb_state := eb_state example_cluster @ [many_revisions 101]\<rparr>"

lemma ref_get_written: "ref_get k s = Some kv \<Longrightarrow> \<exists>t\<in>set s. (k, Some (kv_Value kv)) \<in> set t"
proof (induction s arbitrary: kv)
  case (Cons t ts)
  then show ?case by (fastforce split: option.splits dest: map_of_SomeD)
qed simp

lemma unmarshal_all_ok:
  "(\<And>k kv. (k, kv) \<in> set kvs \<Longrightarrow> \<exists>z. unmarshal_zone e kv = Inr z) \<Longrightarrow>
    \<exists>zs. unmarshal_all e kvs = Inr zs \<and> length zs = length kvs"
proof (induction kvs)
  case (Cons x kvs)
  obtain zs where "unmarshal_all e kvs = Inr zs" "length zs = length kvs" using Cons by (metis list.set_intros(2))
  moreover obtain z where "unmarshal_zone e (snd x) = Inr z" using Cons.prems [of "fst x" "snd x"] by auto
  ultimately show ?case by (cases x) simp
qed simp

lemma many_revisions_entry: "(k, v) \<in> set (many_revisions n) \<Longrightarrow> v = Some ''1'' \<and> HasPrefix k ''/p/history/ex./''"
  by (auto simp: many_revisions_def HasPrefix_iff)

lemma many_revisions_get:
  assumes "i < n"
  shows "map_of (many_revisions n) (''/p/history/ex./'' @ replicate (Suc i) CHR ''a'') = Some (Some ''1'')"
proof -
  define k where "k = ''/p/history/ex./'' @ replicate (Suc i) CHR ''a''"
  have "k \<in> fst ` set (many_revisions n)"
    using assms unfolding many_revisions_def set_map image_image fst_conv k_def by (intro imageI) simp
  then obtain v where v: "map_of (many_revisions n) k = Some v"
    by (cases "map_of (many_revisions n) k") (auto simp: map_of_eq_None_iff)
  then show ?thesis using many_revisions_entry [OF map_of_SomeD [OF v]] by (simp add: k_def)
qed

lemma many_revisions_other: "\<not> HasPrefix k ''/p/history/ex./'' \<Longrightarrow> map_of (many_revisions n) k = None"
  using many_revisions_entry by (force simp: map_of_eq_None_iff)

lemma example_history_inv: "etcd_inv example_history"
proof -
  have "value_at example_history (zonesPrefix example_cluster @ k) = value_at example_cluster (zonesPrefix example_cluster @ k)"
    "value_at example_history (versionPrefix example_cluster @ k) = value_at example_cluster (versionPrefix example_cluster @ k)" for k
    by (simp_all add: value_at_def example_history_def example_cluster_def zonesPrefix_def versionPrefix_def etcdZonesPrefix_def
        etcdVersionsPrefix_def many_revisions_other HasPrefix_iff)
  moreover have "zonesPrefix example_history = zonesPrefix example_cluster" "versionPrefix example_history = versionPrefix example_cluster"
    "eb_codec example_history = eb_codec example_cluster" "eb_client example_history = eb_client example_cluster"
    by (simp_all add: example_history_def)
  ultimately show ?thesis using example_cluster_inv by (simp add: etcd_inv_def zone_entry_ok_def cong: option.case_cong)
qed

lemma example_history_list:
  obtains rs where "etcd_ListRevisions marshal sha256hex Answered example_history ''ex.'' \<lparr>lo_Limit = 0, lo_Offset = 0, lo_Filter = []\<rparr> = Inr rs"
    "100 < length rs"
proof -
  let ?e = example_history and ?p = "''/p/history/ex./''"
  have p: "historyPrefixForZone ?e ''ex.'' = ?p" by code_simp
  have c: "eb_client ?e = ref_client" "eb_codec ?e = example_codec" by (simp_all add: example_history_def example_cluster_def)
  obtain vs where vs: "cl_Range ref_client ?p (eb_state ?e) = entries ref_client ?p (eb_state ?e) vs" "sorted_wrt (<) vs"
      "set vs = {k. ref_get (?p @ k) (eb_state ?e) \<noteq> None}"
    using range_entries [OF ref_service, of ?p "eb_state ?e"] by auto
  have "(\<lambda>i. replicate (Suc i) CHR ''a'') ` {..<101} \<subseteq> set vs"
    using many_revisions_get [of _ 101] by (auto simp: vs(3) example_history_def example_cluster_def)
  then have "card ((\<lambda>i. replicate (Suc i) CHR ''a'') ` {..<101}) \<le> card (set vs)" by (intro card_mono) simp_all
  moreover have "card ((\<lambda>i. replicate (Suc i) CHR ''a'') ` {..<101}) = 101"
    by (subst card_image) (auto intro!: inj_onI dest: arg_cong [of _ _ length])
  ultimately have l: "100 < length vs" using card_length [of vs] by simp
  have "\<exists>z. unmarshal_zone ?e kv = Inr z" if "(k, kv) \<in> set (rev (entries ref_client ?p (eb_state ?e) vs))" for k kv
  proof -
    have "HasPrefix k ?p" "ref_get k (eb_state ?e) = Some kv" using that vs(3) by (auto simp: entries_def HasPrefix_iff)
    then have "kv_Value kv = ''1''" using ref_get_written [of k "eb_state ?e" kv] many_revisions_entry
      by (auto simp: example_history_def example_cluster_def HasPrefix_iff)
    then show ?thesis by (simp add: unmarshal_zone_def c example_codec_def)
  qed
  then obtain zs where zs: "unmarshal_all ?e (rev (entries ref_client ?p (eb_state ?e) vs)) = Inr zs"
      "length zs = length (rev (entries ref_client ?p (eb_state ?e) vs))"
    using unmarshal_all_ok by metis
  have "100 < length zs" using zs(2) l by (simp add: entries_def)
  then show ?thesis using that [of "map (revision_of marshal sha256hex) zs"] zs(1) vs(1)
    by (simp add: etcd_ListRevisions_def get_prefix_def p c etcd_page_all)
qed

theorem etcd_cleanup_keeps_newest_witness:
  "\<exists>rs. etcd_ListRevisions (\<lambda>_. []) id Answered example_history ''ex.'' \<lparr>lo_Limit = 0, lo_Offset = 0, lo_Filter = []\<rparr> = Inr rs
    \<and> 100 < length rs
    \<and> etcd_ListRevisions (\<lambda>_. []) id Answered (etcd_cleanupHistory Answered (\<lambda>_. Answered) ''ex.'' example_history) ''ex.''
        \<lparr>lo_Limit = 0, lo_Offset = 0, lo_Filter = []\<rparr> = Inr (take 100 rs)"
proof -
  obtain rs where "etcd_ListRevisions (\<lambda>_. []) id Answered example_history ''ex.'' \<lparr>lo_Limit = 0, lo_Offset = 0, lo_Filter = []\<rparr> = Inr rs"
    "100 < length rs" using example_history_list .
  then show ?thesis
    using etcd_cleanup_keeps_newest [OF example_history_inv refl, of Answered "\<lambda>_. Answered" "''ex.''" "\<lambda>_. []" id] by simp
qed

subsection \<open>Watchers\<close>

text \<open>The events about zones in what etcd sends.\<close>

fun input_events :: "watch_input \<Rightarrow> etcd_event list" where
  "input_events (WatchResponse canceled evs) = map fst evs"
| "input_events _ = []"

definition zone_events :: "'s EtcdBackend \<Rightarrow> watch_input list \<Rightarrow> ZoneEvent list" where
  "zone_events e ins = List.map_filter (convertEtcdEvent e) (concat (map input_events ins))"

text \<open>Neither the context nor the etcd watch ends.\<close>

fun undisturbed :: "watch_input \<Rightarrow> bool" where
  "undisturbed (WatchResponse canceled evs) \<longleftrightarrow> \<not> canceled \<and> list_all (\<lambda>(_, ctxDone). \<not> ctxDone) evs"
| "undisturbed Receive = True"
| "undisturbed _ = False"

abbreviation seen :: "watcher \<Rightarrow> ZoneEvent list" where
  "seen w \<equiv> wa_received w @ wa_chan w"

lemma send_events_spec:
  assumes "send_events e evs w = (b, w')"
  shows "\<exists>xs. wa_received w' = wa_received w \<and> wa_chan w' = wa_chan w @ xs
    \<and> subseq xs (List.map_filter (convertEtcdEvent e) (map fst evs))
    \<and> (length (wa_chan w) \<le> watch_buffer \<longrightarrow> length (wa_chan w') \<le> watch_buffer)
    \<and> (list_all (\<lambda>(_, ctxDone). \<not> ctxDone) evs \<longrightarrow> b
        \<and> (length (seen w) + length (List.map_filter (convertEtcdEvent e) (map fst evs)) \<le> watch_buffer \<longrightarrow>
            xs = List.map_filter (convertEtcdEvent e) (map fst evs)))"
  using assms
proof (induction e evs w rule: send_events.induct)
  case (2 e ev ctxDone evs w)
  show ?case
  proof (cases "convertEtcdEvent e ev")
    case None
    then show ?thesis using 2(1) [OF None] 2(3) by (auto simp: map_filter_simps)
  next
    case (Some event)
    show ?thesis
    proof (cases ctxDone)
      case True
      then show ?thesis using 2(3) Some by auto
    next
      case False
      with 2(2) [OF Some False] 2(3) Some obtain xs where xs: "wa_received w' = wa_received (send_event event w)"
        "wa_chan w' = wa_chan (send_event event w) @ xs"
        "subseq xs (List.map_filter (convertEtcdEvent e) (map fst evs))"
        "length (wa_chan (send_event event w)) \<le> watch_buffer \<longrightarrow> length (wa_chan w') \<le> watch_buffer"
        "list_all (\<lambda>(_, ctxDone). \<not> ctxDone) evs \<longrightarrow> b
          \<and> (length (seen (send_event event w)) + length (List.map_filter (convertEtcdEvent e) (map fst evs)) \<le> watch_buffer \<longrightarrow>
              xs = List.map_filter (convertEtcdEvent e) (map fst evs))"
        by auto
      show ?thesis
        using xs Some by (cases "length (wa_chan w) < watch_buffer")
          (auto simp: send_event_def map_filter_simps intro!: exI [of _ "event # xs"] exI [of _ xs])
    qed
  qed
qed (simp add: map_filter_simps)

lemma send_events_closed: "send_events e evs w = (b, w') \<Longrightarrow> wa_closed w' = wa_closed w"
  by (induction e evs w rule: send_events.induct) (auto simp: send_event_def split: option.splits if_splits)

lemma zone_events_Cons:
  "zone_events e (i # ins) = List.map_filter (convertEtcdEvent e) (input_events i) @ zone_events e ins"
  by (simp add: zone_events_def map_filter_def)

lemma watch_loop_spec:
  assumes "length (wa_chan w) \<le> watch_buffer"
  shows "subseq (seen (watch_loop e ins w)) (seen w @ zone_events e ins) \<and> length (wa_chan (watch_loop e ins w)) \<le> watch_buffer
    \<and> (list_all undisturbed ins \<and> length (seen w) + length (zone_events e ins) \<le> watch_buffer \<longrightarrow>
        seen (watch_loop e ins w) = seen w @ zone_events e ins \<and> wa_closed (watch_loop e ins w) = wa_closed w)"
  using assms
proof (induction e ins w rule: watch_loop.induct)
  case (4 e canceled evs ins w)
  obtain b w' where b: "send_events e evs w = (b, w')" by fastforce
  obtain xs where xs: "wa_received w' = wa_received w" "wa_chan w' = wa_chan w @ xs"
      "subseq xs (List.map_filter (convertEtcdEvent e) (map fst evs))" "length (wa_chan w') \<le> watch_buffer"
      "list_all (\<lambda>(_, ctxDone). \<not> ctxDone) evs \<longrightarrow> b
        \<and> (length (seen w) + length (List.map_filter (convertEtcdEvent e) (map fst evs)) \<le> watch_buffer \<longrightarrow>
            xs = List.map_filter (convertEtcdEvent e) (map fst evs))"
    using send_events_spec [OF b] 4(2) by blast
  have sub: "subseq (seen w') (seen w @ List.map_filter (convertEtcdEvent e) (map fst evs))"
    using xs(1-3) by (simp add: list_emb_append_mono)
  show ?case
  proof (cases "canceled \<or> \<not> b")
    case True
    then show ?thesis using list_emb_prefix [OF sub, of "zone_events e ins"] xs 4(2) b by (auto simp: zone_events_Cons)
  next
    case False
    then show ?thesis using 4(1) [of b w'] b False xs sub send_events_closed [OF b]
      by (auto simp: zone_events_Cons list_emb_append_mono intro: subseq_order.trans)
  qed
next
  case (5 e ins w)
  then show ?case by (cases "wa_chan w") (simp_all add: zone_events_Cons map_filter_simps)
qed (use list_emb_prefix [OF subseq_order.refl] in \<open>fastforce simp: zone_events_def map_filter_simps\<close>)+

text \<open>
  A watcher sees events of the zones in the order in which etcd sends them, none twice and none invented, and at most a hundred wait in its
  channel; as long as there are not more than a hundred of them and the watch is not ended, it sees all of them. When the watch
  ends, the registry is as it was before.
\<close>

theorem etcd_watch_in_order:
  assumes "i \<notin> set (watchers (wa_zone (fst (etcd_Watch i zoneName watchers))))"
    and "runWatch e ins (fst (etcd_Watch i zoneName watchers)) (snd (etcd_Watch i zoneName watchers)) = (w, registry)"
  shows "subseq (wa_received w @ wa_chan w) (zone_events e ins) \<and> length (wa_chan w) \<le> 100
    \<and> (list_all undisturbed ins \<and> length (zone_events e ins) \<le> 100 \<longrightarrow>
        wa_received w @ wa_chan w = zone_events e ins \<and> \<not> wa_closed w)
    \<and> (wa_closed w \<longrightarrow> registry = watchers)"
  using watch_loop_spec [of "fst (etcd_Watch i zoneName watchers)" e ins] assms
  by (auto simp: etcd_Watch_def runWatch_def watch_buffer_def Let_def remove1_append fun_eq_iff split: if_splits)

definition example_inputs :: "watch_input list" where
  "example_inputs =
    [WatchResponse False
       [(\<lparr>ev_Type = EventTypePut, ev_Key = ''/p/zones/ex.'', ev_Value = ''1'', ev_PrevKv = None\<rparr>, False),
        (\<lparr>ev_Type = EventTypePut, ev_Key = ''/p/versions/ex.'', ev_Value = ''v1'', ev_PrevKv = None\<rparr>, False)],
     Receive,
     WatchResponse False [(\<lparr>ev_Type = EventTypeDelete, ev_Key = ''/p/zones/ex.'', ev_Value = [], ev_PrevKv = None\<rparr>, False)]]"

theorem etcd_watch_in_order_witness:
  "let w = fst (runWatch example_cluster example_inputs (fst (etcd_Watch 1 [] (\<lambda>_. []))) (snd (etcd_Watch 1 [] (\<lambda>_. [])))) in
    wa_received w @ wa_chan w =
      [\<lparr>ze_Type = EventTypeCreated, ze_ZoneName = ''ex.'', ze_Version = ''v1'', ze_Zone = Some example_zone\<rparr>,
       \<lparr>ze_Type = EventTypeDeleted, ze_ZoneName = ''ex.'', ze_Version = [], ze_Zone = None\<rparr>]"
proof -
  have "zone_events example_cluster example_inputs =
      [\<lparr>ze_Type = EventTypeCreated, ze_ZoneName = ''ex.'', ze_Version = ''v1'', ze_Zone = Some example_zone\<rparr>,
       \<lparr>ze_Type = EventTypeDeleted, ze_ZoneName = ''ex.'', ze_Version = [], ze_Zone = None\<rparr>]"
    "list_all undisturbed example_inputs"
    by code_simp+
  then show ?thesis using etcd_watch_in_order [OF _ prod.collapse [symmetric], of 1 "\<lambda>_. []" "[]" example_cluster example_inputs]
    by (simp add: Let_def)
qed

end
