(* ===== verification/Spec2Isabelle.thy ===== *)
theory Spec2Isabelle
  imports Record_Writers SQLite_Store Sync_Laws Ulid Zone_Hash Bird_Routes Health Resign_Scheduler Service_Laws Etcd_Reads
begin

text \<open>
  A model of arca-dns, a DNS controller and its agents, and of what makes it correct.

  \<^bold>\<open>The program.\<close> The controller keeps DNS zones in a store and changes them through an HTTP
  interface under optimistic locking: every write names the version of the zone that it starts from,
  and every stored zone has a new version (a ULID) and a new SOA serial. A zone is normalised and
  validated before each write. Signing gives a zone its keys, its signatures and a chain of records that denies what does not exist; the
  signed files are kept in a cache and published with the zone, and a scheduler signs zones again before their signatures expire. An agent fetches zones, compares serials, writes one file per zone for the name
  server, checks the health of the name server, and announces or withdraws its anycast routes
  through the BIRD routing daemon.

  \<^bold>\<open>Conventions\<close> (\<open>Prelude\<close>). A Go error is a value: \<open>'e option\<close> for functions that return only an
  error, \<open>'e + 'a\<close> for the others. A Go string is a byte string. Integers keep their width where
  it matters (serials, TTLs, the bits of a ULID); times are integers. Whatever is not in the
  repository is an argument of the definitions that use it: the clock and fresh versions of the store
  (\<open>env\<close>), random bytes, SHA-256, JSON, the etcd cluster, the DNS library (\<open>dns_text\<close>, \<open>dns_names\<close>, \<open>signing_lib\<close>), keys, the BIRD daemon. What
  is relied upon of it is a hypothesis of the theorems, and each theorem with hypotheses has a
  witness that instantiates them. Recursion is structural or has a termination proof. The only fuel is that of the walk from
  a name to its ancestors (\<open>walk_up\<close>), one unit per label, with a lemma that it is enough; the one loop that may run forever, over the pages of a zone list, is a partial function
  whose result \<open>None\<close> is not returning, with a theorem that it returns. A mutex or a transaction makes each operation of the
  in-memory and the SQLite store atomic, so concurrent requests are sequences of operations there; operations on etcd are not atomic, and are shown to be serialisable.

  \<^bold>\<open>Theories\<close>, from the bottom up.
  \<^item> \<open>Prelude\<close>, \<open>Go_Strings\<close>, \<open>Go_Conv\<close>, \<open>Go_Unquote\<close>, \<open>Net_IP\<close>, \<open>Regex\<close>: the parts of the Go
    standard library that the sources use (\<open>strings\<close>, \<open>strconv\<close>, \<open>unicode/utf8\<close>,
    \<open>net.ParseIP\<close>, \<open>regexp\<close> by derivatives, proved to decide the language of an expression).
  \<^item> \<open>Zone_Model\<close> (\<open>pkg/model/zone.go\<close>, \<open>normalize.go\<close>, \<open>errors.go\<close>): the structs and the
    normalisation of names, which identifies exactly the spellings of one name.
  \<^item> \<open>Zone_Validation\<close> (\<open>pkg/model/validation.go\<close>): every validator. \<open>Name_Facts\<close>, \<open>RRset_Facts\<close>,
    \<open>TXT_Facts\<close> and \<open>Zone_Facts\<close> say in declarative terms which names, record sets and zones are
    accepted, and that splitting a TXT value loses nothing.
  \<^item> \<open>Serial\<close> (\<open>generateSerial\<close> and \<open>updateSOASerial\<close> in \<open>pkg/backend\<close>, \<open>zoneSerialBefore\<close> in
    \<open>internal/agent/sync/serial.go\<close>): serials move forward, in the order the agent uses too.
  \<^item> \<open>Ulid\<close> (\<open>pkg/util/ulid.go\<close>, \<open>pkg/model/version.go\<close>): the base-32 text is the 128-bit number, so
    successive versions increase as strings.
  \<^item> \<open>Zone_Hash\<close> (\<open>pkg/backend/version.go\<close>): the canonical form that is hashed, and what the
    hash does not depend on.
  \<^item> \<open>Zone_Store\<close> (\<open>pkg/backend/interface.go\<close> and the preparation of writes): the contract of a
    backend, as the locale \<open>zone_store\<close> over a finite map, with what every client relies on proved
    in it. \<open>Zone_API\<close> (\<open>internal/controller/api/handler.go\<close>) and \<open>Records_API\<close> (\<open>records.go\<close>):
    the handlers, with the store's operations as arguments; the laws of a read-modify-write cycle
    are proved in the locale. \<open>Memory_Store\<close> (\<open>pkg/backend/memory.go\<close>): the in-memory backend, its
    invariant, and its interpretation as a \<open>zone_store\<close>.
  \<^item> \<open>Record_Writers\<close>: record requests that are interrupted by other requests between their read and their
    write, as a system of steps, and that every run has the effect of the successful requests one
    after the other (a refinement, proved in the locale and interpreted on the in-memory store).
  \<^item> \<open>SQLite_Tables\<close> (\<open>pkg/backend/sqlite.go\<close>, \<open>sql_record_ids.go\<close>, \<open>sql_batch.go\<close>, \<open>list_options.go\<close>): the tables, the statements
    and the operations of the SQLite backend; \<open>SQLite_Store\<close>: their invariant, what the tables mean as a
    map of zones, and the interpretation as a \<open>zone_store\<close>.
  \<^item> \<open>Etcd_Store\<close> (\<open>pkg/backend/etcd.go\<close>): the backend that several controllers share, over a cluster that is a parameter with the guarantees
    that etcd documents; requests may fail and answers may be lost. Run alone its operations are a \<open>zone_store\<close>. \<open>Etcd_Laws\<close>: operations of several controllers that
    interleave between their reads and their commits, and that every run has the effect of the committed operations one after the other (a refinement);
    \<open>Etcd_Reads\<close>: the two lists of zones agree, revisions and their removal, watchers.
  \<^item> \<open>Go_Base64\<close> and \<open>Sync_Client\<close> (\<open>internal/agent/sync/client.go\<close>, \<open>serial.go\<close>): the agent's HTTP client, with what it checks;
    \<open>Signed_API\<close> (the artifact handlers of \<open>handler.go\<close>): the controller's side, and both together.
  \<^item> \<open>Fs_Monad\<close>: a directory in which any system call may fail, with a small program logic;
    \<open>File_Manager\<close> (\<open>filemanager.go\<close>): the zone files, backups and the index of managed zones; \<open>Zone_Files\<close>: what the syncer
    relies on, as the locale \<open>zone_files\<close>; \<open>File_Facts\<close> and \<open>File_Laws\<close>: its interpretation on the file manager.
  \<^item> \<open>Zone_Sync\<close> (\<open>sync.go\<close>): one zone, one cycle, deletions and the loop; \<open>Sync_Laws\<close>: the locale \<open>syncing\<close>, which extends
    \<open>zone_files\<close>, with what a run can do to the files, interpreted on the agent.
  \<^item> \<open>Zone_Path\<close> (\<open>pkg/util/zonepath.go\<close>): the file of a zone; safe always, unique for names of at
    most 200 bytes, not unique beyond.
  \<^item> \<open>Bird_Machine\<close> (\<open>internal/agent/bird/statemachine.go\<close>), \<open>Bird_Routes\<close> (\<open>routes.go\<close>, \<open>protocol.go\<close>,
    \<open>loop.go\<close>) and \<open>Health\<close> (\<open>internal/agent/health\<close>): from DNS probes to route
    announcements; exact thresholds, the debounce, and that the cached route flags never claim
    more than the daemon's state.
  \<^item> \<open>Resource_Records\<close> (\<open>pkg/parser\<close>): resource records, writing and reading zone files; \<open>Net_IP_Facts\<close> and \<open>Zone_Text\<close>: a valid zone that is
    written and read back is the zone in canonical form.
  \<^item> \<open>Nsec_Chain\<close> (\<open>pkg/dnssec/nsec3.go\<close>): the names of a zone in canonical order, and the NSEC and NSEC3 records; the orders are
    interpretations of the locale \<open>comparison\<close>. \<open>Denial_Laws\<close>: what such a chain denies.
  \<^item> \<open>Zone_Signer\<close> (\<open>pkg/dnssec/signer.go\<close>, \<open>types.go\<close>): RRsets, signatures and the signed zone; \<open>Signing_Laws\<close>: every RRset is signed as a whole, every
    absent name is denied once, and which valid zones cannot be signed.
  \<^item> \<open>Artifact_Cache\<close> and \<open>Signing_Service\<close> (\<open>internal/controller/service/signer.go\<close>): the files of the signed zones, and the service with its
    locks; \<open>Artifact_Laws\<close>: triples for the files under every pattern of failures; \<open>Service_Facts\<close>: the locks as a system of steps, publication, and
    the locale \<open>signing_store\<close>, which extends \<open>zone_store\<close>; \<open>Service_Laws\<close>: its interpretations on two backends, and what is published and
    served, whatever fails.
  \<^item> \<open>Resign_Scheduler\<close> (\<open>pkg/dnssec/scheduler.go\<close>): which zones a run signs and how long it backs
    off after failures.

  This theory adds the properties that span components: the effect of the record requests on the
  in-memory store, their atomicity, stale entity tags, and the round trip of issued versions through
  URLs and entity tags.

  \<^bold>\<open>Not modelled.\<close> The MySQL, PostgreSQL and Git backends (the contract of \<open>zone_store\<close> over systems outside the
  repository); the generation, encryption and files of DNSSEC keys (cryptography and file permissions); the HTTP side of zone import and
  export; control of NSD and Unbound, which runs programs; query logging, which samples with floating-point random numbers; middleware,
  configuration, metrics and the main programs, which are wiring around a web framework. Concurrency enters as sequences of operations under
  locks; races between threads inside one operation are not modelled.
\<close>

subsection \<open>Entity tags and versions\<close>

lemma crockford_char:
  assumes "d < 32"
  shows "isCrockfordBase32Upper (crockfordBase32 ! d)"
proof -
  have "list_all isCrockfordBase32Upper crockfordBase32" by code_simp
  moreover have "length crockfordBase32 = 32" by (simp add: crockfordBase32_def)
  ultimately show ?thesis using assms by (simp add: list_all_length)
qed

lemma crockford_plain:
  "isCrockfordBase32Upper c \<Longrightarrow> byte c < 128 \<and> \<not> ascii_space c \<and> c \<noteq> CHR '','' \<and> c \<noteq> CHR 0x22"
  by (auto simp: isCrockfordBase32Upper_def in_range_def ascii_space_def byte_def)

lemma issued_version_shape:
  assumes "ulid_inv st" "call_ok (ms, e)" "NewZoneVersion ms e st = (Inr v, st')"
  obtains cs where "v = CHR ''v'' # cs" "length cs = 26" "list_all isCrockfordBase32Upper cs"
proof -
  have st': "ulid_inv st'" and v: "v = ''v'' @ encodeULID (ulidLastMS st') (ulidLastRnd st')"
    using NewZoneVersion_result [OF assms] by auto
  obtain ds where "encodeULID (ulidLastMS st') (ulidLastRnd st') = map ((!) crockfordBase32) ds"
      "length ds = 26" "\<forall>d \<in> set ds. d < 32"
    using encodeULID_digits [of "ulidLastRnd st'" "ulidLastMS st'"] st' by (auto simp: ulid_inv_def)
  then show ?thesis using that v crockford_char by (auto simp: list_all_iff)
qed

text \<open>
  Every version that the generator issues is accepted as a version in URLs, and its ETag, sent
  back in If-Match or If-None-Match, matches that version.
\<close>

theorem issued_versions_round_trip:
  assumes "ulid_inv st" "call_ok (ms, e)" "NewZoneVersion ms e st = (Inr v, st')"
  shows "isValidZoneVersionParam v \<and> strongETagMatches (formatETag v) v \<and> etagMatches (formatETag v) v"
proof -
  obtain cs where v: "v = CHR ''v'' # cs" "length cs = 26" and cs: "list_all isCrockfordBase32Upper cs"
    using assms by (rule issued_version_shape)
  have q: "CHR 0x22 \<notin> set v" "CHR '','' \<notin> set (formatETag v)" "no_space (formatETag v)"
    using cs crockford_plain v(1)
    by (auto simp: list_all_iff formatETag_def no_space_def ascii_space_def byte_def)
  have "\<not> HasPrefix (formatETag v) ''W/''" by (simp add: formatETag_def HasPrefix_def)
  then show ?thesis using v cs q
    by (simp add: isValidZoneVersionParam_def isControllerZoneVersion_def strongETagMatches_def etagMatches_def
        split_on_single no_space_TrimSpace Trim_quotes_formatETag TrimPrefix_def)
qed

theorem issued_versions_round_trip_witness:
  "\<exists>v. fst (NewZoneVersion 5 (Some (replicate 10 0)) initUlid) = Inr v \<and> strongETagMatches (formatETag v) v"
proof -
  let ?r = "NewZoneVersion 5 (Some (replicate 10 0)) initUlid"
  obtain v st' where v: "?r = (Inr v, st')"
    by (auto simp: NewZoneVersion_def NewULID_def initUlid_def)
  have "call_ok (5, Some (replicate 10 0))" by (simp add: call_ok_def ms_ok_def)
  with issued_versions_round_trip [OF ulid_inv_init _ v] v show ?thesis by auto
qed

subsection \<open>The record API on the in-memory store\<close>

definition example_api :: "string \<Rightarrow> api_env" where
  "example_api v = \<lparr>a_version = Some v, a_date = \<lparr>year = 2024, month = 2, day = 29\<rparr>,
     a_store = example_env v, a_signing = None\<rparr>"

lemma example_api_ok: "v \<noteq> [] \<Longrightarrow> env_ok (a_store (example_api v))" "a_signing (example_api v) = None"
  by (simp_all add: example_api_def example_env_ok)

text \<open>
  C30: On a controller without a signing service a record request is atomic: whenever creating,
  changing, deleting or batch-changing records answers with an error, the store is as before.
\<close>

theorem record_requests_atomic:
  assumes "mem_inv m" "env_ok (a_store a)" "a_signing a = None"
  shows "(isl (fst (CreateRecord sha a mem_GetZone mem_UpdateZone name ifMatch r m)) \<longrightarrow>
      snd (CreateRecord sha a mem_GetZone mem_UpdateZone name ifMatch r m) = m)
    \<and> (isl (fst (UpdateRecord sha a mem_GetZone mem_UpdateZone name i ifMatch r m)) \<longrightarrow>
      snd (UpdateRecord sha a mem_GetZone mem_UpdateZone name i ifMatch r m) = m)
    \<and> (isl (fst (DeleteRecord sha a mem_GetZone mem_UpdateZone name i ifMatch m)) \<longrightarrow>
      snd (DeleteRecord sha a mem_GetZone mem_UpdateZone name i ifMatch m) = m)
    \<and> (isl (fst (BulkRecords sha a mem_GetZone mem_UpdateZone name ifMatch req m)) \<longrightarrow>
      snd (BulkRecords sha a mem_GetZone mem_UpdateZone name ifMatch req m) = m)"
proof -
  have "snd (mutate sha a mem_GetZone mem_UpdateZone name ifMatch edit m) = m"
    if "isl (fst (mutate sha a mem_GetZone mem_UpdateZone name ifMatch edit m))" for edit
    using mem.mutate_error [OF assms] that by (metis isl_def prod.collapse)
  then show ?thesis by (simp add: CreateRecord_def UpdateRecord_def DeleteRecord_def BulkRecords_def)
qed

theorem record_requests_atomic_witness:
  "snd (DeleteRecord id (example_api ''v2'') mem_GetZone mem_UpdateZone ''ex'' ''nope'' ''v1'' example_store) = example_store"
proof -
  have "isl (fst (DeleteRecord id (example_api ''v2'') mem_GetZone mem_UpdateZone ''ex'' ''nope'' ''v1'' example_store))"
    by code_simp
  then show ?thesis
    using record_requests_atomic [OF example_store_inv example_api_ok, of "''v2''" id "''ex''" "''v1''" "undefined"
        "''nope''" "undefined"] by simp
qed

text \<open>
  A record request whose If-Match does not strongly match the stored version is refused with
  428, 400 or 409 and changes nothing, with or without a signing service.
\<close>

theorem stale_tag_refused:
  assumes "mem_inv m" "mem_GetZone m name = Inr old" "\<not> strongETagMatches ifMatch (z_Version old)"
  shows "\<exists>err. CreateRecord sha a mem_GetZone mem_UpdateZone name ifMatch r m = (Inl err, m)
    \<and> ae_Status err \<in> {428, 400, 409}"
  using mem.mutate_stale [OF assms(1) _ assms(3)] assms(1,2) by (simp add: CreateRecord_def mem.get_Inr_iff)

theorem stale_tag_refused_witness:
  "\<exists>err. CreateRecord id (example_api ''v2'') mem_GetZone mem_UpdateZone ''ex.'' ''W/v1''
     (example_record ''w'' ''A'' ''1.2.3.5'') example_store = (Inl err, example_store)"
proof -
  have "mem_GetZone example_store ''ex.'' = Inr example_zone" "\<not> strongETagMatches ''W/v1'' (z_Version example_zone)"
    by code_simp+
  from stale_tag_refused [OF example_store_inv this] show ?thesis by blast
qed

text \<open>
  C27: A successful creation of a record appends exactly that record to the zone: every earlier record
  says what it said, no other zone changes, the stored zone validates, the serial does not go back,
  and the zone gets the version that the controller issued.
\<close>

theorem create_record_effect:
  assumes "mem_inv m" "env_ok (a_store a)" "mem_GetZone m name = Inr old"
    and "a_version a \<noteq> Some (z_Version old)" "a_version a \<noteq> Some []"
    and "CreateRecord sha a mem_GetZone mem_UpdateZone name ifMatch r m = (Inr z, m')"
  shows "\<exists>w. mem_contents m' = (mem_contents m)(NormalizeZoneName name \<mapsto> w)
    \<and> rdata (z_Records w) = rdata (z_Records old) @ rdata [r]
    \<and> ValidateZone (Some w) = None \<and> a_version a = Some (z_Version w)
    \<and> soa_Serial (z_SOA old) \<le> soa_Serial (z_SOA w)"
proof -
  obtain zone rs w where "rdata (z_Records zone) = rdata (z_Records old)" "create_edit r zone = Inr rs"
      "rdata (z_Records w) = rdata rs" and w: "mem_contents m' = (mem_contents m)(NormalizeZoneName name \<mapsto> w)"
      "soa_Serial (z_SOA old) \<le> soa_Serial (z_SOA w)" "ValidateZone (Some w) = None" "a_version a = Some (z_Version w)"
    using mem.mutate_ordered [OF assms(1-3) assms(6) [unfolded CreateRecord_def]] assms(4,5) by metis
  then have "rdata (z_Records w) = rdata (z_Records old) @ rdata [r]"
    using create_edit_ok by (simp add: rdata_map)
  with w show ?thesis by blast
qed

theorem create_record_effect_witness:
  "\<exists>w. mem_contents (snd (CreateRecord id (example_api ''v2'') mem_GetZone mem_UpdateZone ''ex'' ''v1''
       (example_record ''w'' ''A'' ''1.2.3.5'') example_store)) ''ex.'' = Some w
    \<and> rdata (z_Records w) = rdata (z_Records example_zone) @ [(''w'', ''A'', 300, ''1.2.3.5'')]"
proof -
  let ?c = "CreateRecord id (example_api ''v2'') mem_GetZone mem_UpdateZone ''ex'' ''v1''
       (example_record ''w'' ''A'' ''1.2.3.5'') example_store"
  have ok: "\<not> isl (fst ?c)" by code_simp
  then obtain z where z: "?c = (Inr z, snd ?c)" by (metis isl_def prod.collapse sum.exhaust_sel)
  have g: "mem_GetZone example_store ''ex'' = Inr example_zone" and n: "NormalizeZoneName ''ex'' = ''ex.''"
    by code_simp+
  have v: "a_version (example_api ''v2'') \<noteq> Some (z_Version example_zone)" "a_version (example_api ''v2'') \<noteq> Some []"
    by (simp_all add: example_api_def example_zone_def)
  from create_record_effect [OF example_store_inv example_api_ok(1) g v z]
  show ?thesis by (auto simp: n rdata_def example_record_def)
qed

text \<open>
  A successful deletion removes exactly the first record that the identifier denotes and leaves
  the other records and zones as they were.
\<close>

theorem delete_record_effect:
  assumes "mem_inv m" "env_ok (a_store a)" "mem_GetZone m name = Inr old"
    and "DeleteRecord sha a mem_GetZone mem_UpdateZone name i ifMatch m = (Inr z, m')"
  shows "\<exists>w idx. mem_contents m' = (mem_contents m)(NormalizeZoneName name \<mapsto> w)
    \<and> findRecordByID sha (z_Records old) (TrimSpace i) = Some idx
    \<and> rdata (z_Records w) = take idx (rdata (z_Records old)) @ drop (Suc idx) (rdata (z_Records old))"
proof -
  have m: "mutate sha a mem_GetZone mem_UpdateZone name ifMatch (delete_edit sha (TrimSpace i)) m = (Inr z, m')"
    using assms(4) by (simp add: DeleteRecord_def split: if_splits)
  obtain zone rs w where zone: "rdata (z_Records zone) = rdata (z_Records old)"
      "map r_ID (z_Records zone) = map r_ID (z_Records old)" and e: "delete_edit sha (TrimSpace i) zone = Inr rs"
      and w: "rdata (z_Records w) = rdata rs" "mem_contents m' = (mem_contents m)(NormalizeZoneName name \<mapsto> w)"
    using assms(1-3) m by (rule mem.mutate_ordered)
  from e show ?thesis using w zone findRecordByID_cong [OF zone] by (elim delete_edit_ok) auto
qed

theorem delete_record_effect_witness:
  "\<not> isl (fst (DeleteRecord id (example_api ''v2'') mem_GetZone mem_UpdateZone ''ex'' (recordID id (example_record ''ns'' ''A'' ''1.2.3.4''))
      ''v1'' example_store))
   \<and> (\<exists>w. mem_contents (snd (DeleteRecord id (example_api ''v2'') mem_GetZone mem_UpdateZone ''ex''
      (recordID id (example_record ''ns'' ''A'' ''1.2.3.4'')) ''v1'' example_store)) ''ex.'' = Some w)"
proof -
  let ?c = "DeleteRecord id (example_api ''v2'') mem_GetZone mem_UpdateZone ''ex''
      (recordID id (example_record ''ns'' ''A'' ''1.2.3.4'')) ''v1'' example_store"
  have ok: "\<not> isl (fst ?c)" by code_simp
  then obtain z where z: "?c = (Inr z, snd ?c)" by (metis isl_def prod.collapse sum.exhaust_sel)
  have g: "mem_GetZone example_store ''ex'' = Inr example_zone" and n: "NormalizeZoneName ''ex'' = ''ex.''"
    by code_simp+
  from delete_record_effect [OF example_store_inv example_api_ok(1) g z] ok
  show ?thesis by (auto simp: n)
qed

text \<open>
  A successful change of a record replaces the content of exactly the first record that the
  identifier denotes by the given one and leaves the other records and zones as they were.
\<close>

theorem update_record_effect:
  assumes "mem_inv m" "env_ok (a_store a)" "mem_GetZone m name = Inr old"
    and "UpdateRecord sha a mem_GetZone mem_UpdateZone name i ifMatch r m = (Inr z, m')"
  shows "\<exists>w idx. mem_contents m' = (mem_contents m)(NormalizeZoneName name \<mapsto> w)
    \<and> findRecordByID sha (z_Records old) (TrimSpace i) = Some idx
    \<and> rdata (z_Records w) = (rdata (z_Records old))[idx := rdatum r]"
proof -
  have m: "mutate sha a mem_GetZone mem_UpdateZone name ifMatch (update_edit sha (TrimSpace i) r) m = (Inr z, m')"
    using assms(4) by (simp add: UpdateRecord_def split: if_splits)
  obtain zone rs w where zone: "rdata (z_Records zone) = rdata (z_Records old)"
      "map r_ID (z_Records zone) = map r_ID (z_Records old)" and e: "update_edit sha (TrimSpace i) r zone = Inr rs"
      and w: "rdata (z_Records w) = rdata rs" "mem_contents m' = (mem_contents m)(NormalizeZoneName name \<mapsto> w)"
    using assms(1-3) m by (rule mem.mutate_ordered)
  from e show ?thesis using w zone findRecordByID_cong [OF zone] by (elim update_edit_ok) auto
qed

theorem update_record_effect_witness:
  "\<exists>w. mem_contents (snd (UpdateRecord id (example_api ''v2'') mem_GetZone mem_UpdateZone ''ex''
      (recordID id (example_record ''ns'' ''A'' ''1.2.3.4'')) ''v1'' (example_record ''ns'' ''A'' ''1.2.3.9'') example_store)) ''ex.'' = Some w
     \<and> (''ns'', ''A'', 300, ''1.2.3.9'') \<in> set (rdata (z_Records w))"
proof -
  let ?i = "recordID id (example_record ''ns'' ''A'' ''1.2.3.4'')"
  let ?c = "UpdateRecord id (example_api ''v2'') mem_GetZone mem_UpdateZone ''ex'' ?i ''v1''
      (example_record ''ns'' ''A'' ''1.2.3.9'') example_store"
  have ok: "\<not> isl (fst ?c)" by code_simp
  then obtain z where z: "?c = (Inr z, snd ?c)" by (metis isl_def prod.collapse sum.exhaust_sel)
  have g: "mem_GetZone example_store ''ex'' = Inr example_zone" and n: "NormalizeZoneName ''ex'' = ''ex.''"
    by code_simp+
  obtain w idx where w: "mem_contents (snd ?c) ''ex.'' = Some w"
      and idx: "findRecordByID id (z_Records example_zone) (TrimSpace ?i) = Some idx"
      and u: "rdata (z_Records w) = (rdata (z_Records example_zone))[idx := rdatum (example_record ''ns'' ''A'' ''1.2.3.9'')]"
    using update_record_effect [OF example_store_inv example_api_ok(1) g z] by (auto simp: n)
  have "idx < length (rdata (z_Records example_zone))" using findRecordByID_Some(1) [OF idx] by (simp add: rdata_def)
  with u have "rdatum (example_record ''ns'' ''A'' ''1.2.3.9'') \<in> set (rdata (z_Records w))"
    by (simp add: set_update_memI)
  then show ?thesis using w by (auto simp: rdatum_def example_record_def)
qed

text \<open>
  An accepted batch removes exactly the records that its identifiers denote, each identifier a
  different one, keeps the others in order with their content or that of an update, appends the
  created records in order, and leaves no two records with the same content or the same identifier.
\<close>

theorem batch_effect:
  assumes "applyBulkRecordOperations sha zn current req = Inr rs"
  shows "distinct (map recordIdentity rs) \<and> distinct (map (recordID sha) rs)
    \<and> (\<exists>kept new. rs = kept @ new \<and> rdata new = rdata (br_Create req)
         \<and> list_all2 (\<lambda>r r'. rdatum r' = rdatum r \<or> rdatum r' \<in> set (rdata (br_Update req)))
             (nths current (- denoted sha current (br_Delete req))) kept
         \<and> card (denoted sha current (br_Delete req)) = length (br_Delete req))"
  using applyBulk_distinct [OF assms] applyBulk_shape [OF assms] by blast

theorem batch_effect_witness:
  "\<exists>rs. applyBulkRecordOperations id ''ex.'' (z_Records example_zone)
      \<lparr>br_Create = [example_record ''w'' ''A'' ''1.2.3.5''], br_Update = [],
       br_Delete = [recordID id (example_record ''ns'' ''A'' ''1.2.3.4'')]\<rparr> = Inr rs
    \<and> distinct (map recordIdentity rs)"
proof -
  let ?b = "applyBulkRecordOperations id ''ex.'' (z_Records example_zone)
      \<lparr>br_Create = [example_record ''w'' ''A'' ''1.2.3.5''], br_Update = [],
       br_Delete = [recordID id (example_record ''ns'' ''A'' ''1.2.3.4'')]\<rparr>"
  have "\<not> isl ?b" by code_simp
  then obtain rs where "?b = Inr rs" by (metis isl_def sum.exhaust_sel)
  with batch_effect [OF this] show ?thesis by blast
qed

end
